(* ===== verification/Prelude.thy ===== *)
theory Prelude
  imports Complex_Main "HOL-Library.List_Lexorder" "HOL-Library.Char_ord"
    "HOL-Library.Product_Lexorder"
begin

text \<open>
  What every component of the development shares.

  \<^item> The transaction functions: a store operation runs inside one database transaction, so it is
    a function from the tables to an error (the transaction is rolled back, no new tables) or to a
    result with the new tables.
  \<^item> A small weakest-precondition calculus over them, \<open>wp\<close>: what holds of the tables
    whenever the operation commits. Every invariant and frame proof of the stores goes through it.
  \<^item> SQL over lists of rows: \<open>UPDATE .. WHERE\<close>, \<open>DELETE .. WHERE\<close>, the first row of a
    \<open>SELECT\<close>, \<open>COALESCE(MAX(..), ..)\<close>.
  \<^item> The few string functions of the Python standard library the sources call.
\<close>

section \<open>Collections\<close>

named_theorems wp_rules "weakest preconditions of the transaction functions"
named_theorems sql_simps "SQL statements over lists of rows"
named_theorems frame_rules "what an operation leaves unchanged"
named_theorems inv_rules "what keeps the invariants of the store"

type_synonym seconds = rat

section \<open>Transactions\<close>

type_synonym ('s, 'e, 'a) tx = "'s \<Rightarrow> 'e + 'a \<times> 's"

definition retT :: "'a \<Rightarrow> ('s, 'e, 'a) tx" where
  "retT a s = Inr (a, s)"

definition failT :: "'e \<Rightarrow> ('s, 'e, 'a) tx" where
  "failT e s = Inl e"

definition bindT :: "('s, 'e, 'a) tx \<Rightarrow> ('a \<Rightarrow> ('s, 'e, 'b) tx) \<Rightarrow> ('s, 'e, 'b) tx" where
  "bindT m f s = (case m s of Inl e \<Rightarrow> Inl e | Inr (a, s') \<Rightarrow> f a s')"

text \<open>A statement that changes the tables, and a query that reads them.\<close>

definition execT :: "('s \<Rightarrow> 's) \<Rightarrow> ('s, 'e, unit) tx" where
  "execT u s = Inr ((), u s)"

definition queryT :: "('s \<Rightarrow> 'a) \<Rightarrow> ('s, 'e, 'a) tx" where
  "queryT q s = Inr (q s, s)"

abbreviation thenT :: "('s, 'e, unit) tx \<Rightarrow> ('s, 'e, 'b) tx \<Rightarrow> ('s, 'e, 'b) tx" where
  "thenT m n \<equiv> bindT m (\<lambda>_. n)"

text \<open>\<open>raise\<close> unless the check holds; \<open>try .. except .. raise\<close> with another error.\<close>

definition guardT :: "bool \<Rightarrow> 'e \<Rightarrow> ('s, 'e, unit) tx" where
  "guardT b e = (if b then retT () else failT e)"

definition liftT :: "'e + 'a \<Rightarrow> ('s, 'e, 'a) tx" where
  "liftT r = (case r of Inl e \<Rightarrow> failT e | Inr a \<Rightarrow> retT a)"

fun forT :: "('x \<Rightarrow> ('s, 'e, unit) tx) \<Rightarrow> 'x list \<Rightarrow> ('s, 'e, unit) tx" where
  "forT f [] = retT ()"
| "forT f (x # xs) = thenT (f x) (forT f xs)"

fun mapT :: "('x \<Rightarrow> ('s, 'e, 'a) tx) \<Rightarrow> 'x list \<Rightarrow> ('s, 'e, 'a list) tx" where
  "mapT f [] = retT []"
| "mapT f (x # xs) = bindT (f x) (\<lambda>y. bindT (mapT f xs) (\<lambda>ys. retT (y # ys)))"

definition wp :: "('s, 'e, 'a) tx \<Rightarrow> ('a \<Rightarrow> 's \<Rightarrow> bool) \<Rightarrow> 's \<Rightarrow> bool" where
  "wp m Q s = (case m s of Inl _ \<Rightarrow> True | Inr (a, s') \<Rightarrow> Q a s')"

text \<open>The rules leave the tables implicit, so that they also apply under a binder.\<close>

lemma wp_ret [simp, wp_rules]: "wp (retT a) Q = Q a"
  by (simp add: fun_eq_iff wp_def retT_def)

lemma wp_fail [simp, wp_rules]: "wp (failT e) Q = (\<lambda>_. True)"
  by (simp add: fun_eq_iff wp_def failT_def)

lemma wp_bind [simp, wp_rules]: "wp (bindT m f) Q = wp m (\<lambda>a. wp (f a) Q)"
  by (simp add: fun_eq_iff wp_def bindT_def split: sum.splits prod.splits)

lemma wp_exec [simp, wp_rules]: "wp (execT u) Q = (\<lambda>s. Q () (u s))"
  by (simp add: fun_eq_iff wp_def execT_def)

lemma wp_query [simp, wp_rules]: "wp (queryT q) Q = (\<lambda>s. Q (q s) s)"
  by (simp add: fun_eq_iff wp_def queryT_def)

lemma wp_guard [simp, wp_rules]: "wp (guardT b e) Q = (\<lambda>s. b \<longrightarrow> Q () s)"
  by (simp add: fun_eq_iff guardT_def)

lemma wp_lift [simp, wp_rules]: "wp (liftT r) Q = (\<lambda>s. \<forall>a. r = Inr a \<longrightarrow> Q a s)"
  by (cases r) (auto simp: fun_eq_iff liftT_def)

lemma wp_if [wp_rules]: "wp (if b then m else n) Q = (if b then wp m Q else wp n Q)"
  by simp

lemma wp_mono: "wp m Q s \<Longrightarrow> (\<And>a s'. Q a s' \<Longrightarrow> R a s') \<Longrightarrow> wp m R s"
  by (auto simp: wp_def split: sum.splits prod.splits)

lemma wp_conj: "wp m Q s \<Longrightarrow> wp m R s \<Longrightarrow> wp m (\<lambda>a s'. Q a s' \<and> R a s') s"
  by (auto simp: wp_def split: sum.splits prod.splits)

lemma wp_run: "wp m Q s \<Longrightarrow> m s = Inr (a, s') \<Longrightarrow> Q a s'"
  by (simp add: wp_def)

lemma wp_intro: "(\<And>a s'. m s = Inr (a, s') \<Longrightarrow> Q a s') \<Longrightarrow> wp m Q s"
  by (auto simp: wp_def split: sum.splits prod.splits)

lemma wp_forT:
  assumes "\<And>x s. x \<in> set xs \<Longrightarrow> I s \<Longrightarrow> wp (f x) (\<lambda>_. I) s" and "I s"
  shows "wp (forT f xs) (\<lambda>_. I) s"
  using assms
proof (induction xs arbitrary: s)
  case Nil
  then show ?case by simp
next
  case (Cons x xs)
  have "wp (f x) (\<lambda>_. I) s" using Cons.prems by simp
  moreover have "wp (forT f xs) (\<lambda>_. I) s'" if "I s'" for s'
    using Cons.IH [of s'] Cons.prems that by simp
  ultimately show ?case by (auto elim: wp_mono)
qed

lemma wp_mapT:
  assumes "\<And>x s. x \<in> set xs \<Longrightarrow> I s \<Longrightarrow> wp (f x) (\<lambda>_. I) s" and "I s"
  shows "wp (mapT f xs) (\<lambda>_. I) s"
  using assms
proof (induction xs arbitrary: s)
  case Nil
  then show ?case by simp
next
  case (Cons x xs)
  have "wp (f x) (\<lambda>_. I) s" using Cons.prems by simp
  moreover have "wp (mapT f xs) (\<lambda>_. I) s'" if "I s'" for s'
    using Cons.IH [of s'] Cons.prems that by simp
  ultimately show ?case by (auto elim!: wp_mono)
qed

text \<open>
  What an operation does to the tables, as a relation between the tables before and after: \<open>stable R m\<close>
  says that \<open>m\<close>, whenever it commits, moves along \<open>R\<close>. A relation that a sequence of statements can
  be shown to follow statement by statement is reflexive and transitive, the locale \<open>frame\<close>; its rules
  then follow the structure of the operation. An invariant \<open>I\<close> is the frame
  \<open>\<lambda>s s'. I s \<longrightarrow> I s'\<close>.
\<close>

definition stable :: "('s \<Rightarrow> 's \<Rightarrow> bool) \<Rightarrow> ('s, 'e, 'a) tx \<Rightarrow> bool" where
  "stable R m \<longleftrightarrow> (\<forall>s. wp m (\<lambda>_. R s) s)"

definition kept :: "('s \<Rightarrow> bool) \<Rightarrow> 's \<Rightarrow> 's \<Rightarrow> bool" where
  "kept I s s' \<longleftrightarrow> (I s \<longrightarrow> I s')"

lemma stableI: "(\<And>s. wp m (\<lambda>_. R s) s) \<Longrightarrow> stable R m"
  by (simp add: stable_def)

lemma stable_wp: "stable R m \<Longrightarrow> wp m (\<lambda>_. R s) s"
  by (simp add: stable_def)

lemma stable_run:
  assumes "stable R m" and "m s = Inr (a, s')"
  shows "R s s'"
  using stable_wp [OF assms(1), of s] assms(2) by (simp add: wp_def)

lemma kept_run: "stable (kept I) m \<Longrightarrow> m s = Inr (a, s') \<Longrightarrow> I s \<Longrightarrow> I s'"
  by (auto simp: kept_def dest: stable_run)

lemma stable_mono:
  assumes "stable R m" and "\<And>s s'. R s s' \<Longrightarrow> Q s s'"
  shows "stable Q m"
proof (rule stableI)
  fix s
  show "wp m (\<lambda>_. Q s) s" using stable_wp [OF assms(1), of s] by (rule wp_mono) (rule assms(2))
qed

lemma stable_keptI:
  assumes "\<And>s. I s \<Longrightarrow> wp m (\<lambda>_. I) s"
  shows "stable (kept I) m"
proof (rule stableI)
  fix s
  show "wp m (\<lambda>_. kept I s) s"
    by (cases "I s") (auto simp: kept_def elim: wp_mono [OF assms] intro: wp_intro)
qed

lemma stable_kept_wp: "stable (kept I) m \<Longrightarrow> I s \<Longrightarrow> wp m (\<lambda>_. I) s"
  by (rule wp_mono [OF stable_wp [of "kept I"]]) (simp_all add: kept_def)

lemma stable_fail: "stable R (failT e)"
  by (simp add: stable_def)

lemma stable_exec: "(\<And>s. R s (u s)) \<Longrightarrow> stable R (execT u)"
  by (simp add: stable_def)

lemma stable_if:
  "(b \<Longrightarrow> stable R m) \<Longrightarrow> (\<not> b \<Longrightarrow> stable R n) \<Longrightarrow> stable R (if b then m else n)"
  by simp

lemma stable_option:
  "stable R m \<Longrightarrow> (\<And>x. stable R (f x)) \<Longrightarrow> stable R (case opt of None \<Rightarrow> m | Some x \<Rightarrow> f x)"
  by (cases opt) simp_all

lemma stable_prod: "(\<And>x y. stable R (f x y)) \<Longrightarrow> stable R (case p of (x, y) \<Rightarrow> f x y)"
  by (cases p) simp

lemma stable_let: "(\<And>x. stable R (f x)) \<Longrightarrow> stable R (let x = a in f x)"
  by simp

locale frame =
  fixes R :: "'s \<Rightarrow> 's \<Rightarrow> bool"
  assumes R_refl: "R s s"
    and R_trans: "R s t \<Longrightarrow> R t u \<Longrightarrow> R s u"
begin

lemma ret: "stable R (retT a)"
  by (simp add: stable_def R_refl)

lemma query: "stable R (queryT q)"
  by (simp add: stable_def R_refl)

lemma guard: "stable R (guardT b e)"
  by (simp add: stable_def R_refl)

lemma lift: "stable R (liftT r)"
  by (simp add: stable_def R_refl)

lemma bind:
  assumes "stable R m" and "\<And>a. stable R (f a)"
  shows "stable R (bindT m f)"
proof (rule stableI)
  fix s
  have "wp (f a) (\<lambda>_. R s) t" if "R s t" for a t
    using stable_wp [OF assms(2), of a t] that by (auto elim: wp_mono intro: R_trans)
  with stable_wp [OF assms(1), of s] show "wp (bindT m f) (\<lambda>_. R s) s"
    by (auto elim: wp_mono)
qed

lemma for_each: "(\<And>x. stable R (f x)) \<Longrightarrow> stable R (forT f xs)"
  by (induction xs) (simp_all add: ret bind)

lemma map_each: "(\<And>x. stable R (f x)) \<Longrightarrow> stable R (mapT f xs)"
  by (induction xs) (simp_all add: ret bind)

lemmas rules = ret query guard lift bind for_each map_each stable_fail stable_if stable_option
  stable_prod stable_let

end

lemma frame_kept: "frame (kept I)"
  by unfold_locales (auto simp: kept_def)

text \<open>Evaluation of an operation on concrete tables: unfold the transaction functions.\<close>

lemmas run_simps = bindT_def retT_def failT_def execT_def queryT_def guardT_def liftT_def

lemma bind_run: "bindT m f s = Inr (b, t) \<longleftrightarrow> (\<exists>a u. m s = Inr (a, u) \<and> f a u = Inr (b, t))"
  by (simp add: bindT_def split: sum.splits prod.splits)

lemma mapT_run:
  "mapT f (x # xs) s = Inr (r, t) \<longleftrightarrow>
   (\<exists>y u ys. f x s = Inr (y, u) \<and> mapT f xs u = Inr (ys, t) \<and> r = y # ys)"
  by (auto simp: bind_run retT_def)

section \<open>SQL over lists of rows\<close>

definition update_where :: "('r \<Rightarrow> bool) \<Rightarrow> ('r \<Rightarrow> 'r) \<Rightarrow> 'r list \<Rightarrow> 'r list" where
  "update_where P f rs = map (\<lambda>r. if P r then f r else r) rs"

definition delete_where :: "('r \<Rightarrow> bool) \<Rightarrow> 'r list \<Rightarrow> 'r list" where
  "delete_where P rs = filter (\<lambda>r. \<not> P r) rs"

definition exists_where :: "('r \<Rightarrow> bool) \<Rightarrow> 'r list \<Rightarrow> bool" where
  "exists_where P rs = list_ex P rs"

text \<open>\<open>LIMIT n\<close>; a negative limit is none.\<close>

definition limit_rows :: "int \<Rightarrow> 'r list \<Rightarrow> 'r list" where
  "limit_rows n rs = (if n < 0 then rs else take (nat n) rs)"

definition coalesce_max :: "int \<Rightarrow> int list \<Rightarrow> int" where
  "coalesce_max d xs = foldl max d xs"

lemma set_update_where [sql_simps]:
  "set (update_where P f rs) = {if P r then f r else r | r. r \<in> set rs}"
  by (auto simp: update_where_def)

lemma set_delete_where [simp, sql_simps]: "set (delete_where P rs) = {r \<in> set rs. \<not> P r}"
  by (auto simp: delete_where_def)

lemma exists_where_iff [simp, sql_simps]: "exists_where P rs \<longleftrightarrow> (\<exists>r \<in> set rs. P r)"
  by (simp add: exists_where_def list_ex_iff)

lemma find_SomeD: "List.find P rs = Some r \<Longrightarrow> r \<in> set rs \<and> P r"
  by (auto simp: find_Some_iff in_set_conv_nth)

lemma find_NoneD: "List.find P rs = None \<Longrightarrow> r \<in> set rs \<Longrightarrow> \<not> P r"
  by (auto simp: find_None_iff)

lemma map_update_where [sql_simps]:
  "(\<And>r. r \<in> set rs \<Longrightarrow> P r \<Longrightarrow> k (f r) = k r) \<Longrightarrow> map k (update_where P f rs) = map k rs"
  by (induction rs) (auto simp: update_where_def)

lemma distinct_delete_where [simp]: "distinct (map k rs) \<Longrightarrow> distinct (map k (delete_where P rs))"
  by (simp add: delete_where_def distinct_map_filter)

lemma length_update_where [simp]: "length (update_where P f rs) = length rs"
  by (simp add: update_where_def)

lemma find_snoc: "List.find P xs = None \<Longrightarrow> P x \<Longrightarrow> List.find P (xs @ [x]) = Some x"
  by (induction xs) (auto split: if_splits)

lemma find_append_Some: "List.find P xs = Some y \<Longrightarrow> List.find P (xs @ ys) = Some y"
  by (induction xs) (auto split: if_splits)

lemma find_update_where:
  assumes "\<And>r. Q (if P r then f r else r) = Q r"
  shows "List.find Q (update_where P f rs) = map_option (\<lambda>r. if P r then f r else r) (List.find Q rs)"
  unfolding update_where_def by (induction rs) (simp_all only: list.map find.simps assms, auto)

lemma coalesce_max_ge: "d \<le> coalesce_max d xs \<and> (\<forall>x \<in> set xs. x \<le> coalesce_max d xs)"
proof (induction xs rule: rev_induct)
  case Nil
  then show ?case by (simp add: coalesce_max_def)
next
  case (snoc x xs)
  then show ?case by (auto simp: coalesce_max_def)
qed

lemma coalesce_max_snoc [simp]: "coalesce_max d (xs @ [x]) = max (coalesce_max d xs) x"
  by (simp add: coalesce_max_def)

lemma coalesce_max_in: "coalesce_max d xs = d \<or> coalesce_max d xs \<in> set xs"
  by (induction xs rule: rev_induct) (auto simp: coalesce_max_def max_def)

section \<open>Strings and numbers of the Python library\<close>

text \<open>\<open>str(n)\<close> of a non-negative integer.\<close>

fun digit_char :: "nat \<Rightarrow> char" where
  "digit_char n = char_of (48 + n mod 10)"

fun show_nat :: "nat \<Rightarrow> string" where
  "show_nat n = (if n < 10 then [digit_char n] else show_nat (n div 10) @ [digit_char n])"

declare show_nat.simps [simp del]

definition show_int :: "int \<Rightarrow> string" where
  "show_int i = (if i < 0 then ''-'' @ show_nat (nat (- i)) else show_nat (nat i))"

text \<open>\<open>s.partition(c)\<close> on one character: what is before it, whether it is there, what follows.\<close>

fun partition_at :: "char \<Rightarrow> string \<Rightarrow> string \<times> bool \<times> string" where
  "partition_at c [] = ([], False, [])"
| "partition_at c (x # xs) =
     (if x = c then ([], True, xs)
      else case partition_at c xs of (a, found, b) \<Rightarrow> (x # a, found, b))"

definition starts_with :: "string \<Rightarrow> string \<Rightarrow> bool" where
  "starts_with p s \<longleftrightarrow> take (length p) s = p"

definition removeprefix :: "string \<Rightarrow> string \<Rightarrow> string" where
  "removeprefix p s = (if starts_with p s then drop (length p) s else s)"

fun contains_sub :: "string \<Rightarrow> string \<Rightarrow> bool" where
  "contains_sub p [] = (p = [])"
| "contains_sub p (c # cs) = (starts_with p (c # cs) \<or> contains_sub p cs)"

fun join_with :: "string \<Rightarrow> string list \<Rightarrow> string" where
  "join_with sep [] = []"
| "join_with sep [x] = x"
| "join_with sep (x # y # ys) = x @ sep @ join_with sep (y # ys)"

text \<open>\<open>round(x)\<close> rounds a half to the even neighbour.\<close>

definition round_half_even :: "rat \<Rightarrow> int" where
  "round_half_even x =
     (let f = \<lfloor>x\<rfloor>; d = x - of_int f
      in if d < 1/2 then f else if 1/2 < d then f + 1 else if even f then f else f + 1)"

text \<open>\<open>dict.fromkeys(xs)\<close>: the elements in order, each once.\<close>

definition fromkeys :: "'a list \<Rightarrow> 'a list" where
  "fromkeys xs = rev (remdups (rev xs))"

lemma set_fromkeys [simp]: "set (fromkeys xs) = set xs"
  by (simp add: fromkeys_def)

lemma distinct_fromkeys [simp]: "distinct (fromkeys xs)"
  by (simp add: fromkeys_def)

lemma partition_at_none: "c \<notin> set s \<Longrightarrow> partition_at c s = (s, False, [])"
  by (induction s) auto

lemma partition_at_append: "c \<notin> set a \<Longrightarrow> partition_at c (a @ c # b) = (a, True, b)"
  by (induction a) auto

lemma removeprefix_append [simp]: "removeprefix p (p @ s) = s"
  by (simp add: removeprefix_def starts_with_def)

end
