(* ===== verification/Kernel_Types.thy ===== *)
theory Kernel_Types
  imports Prelude
begin

text \<open>
  The value types every layer shares (\<open>substrate/types\<close> and \<open>substrate/runtime/message.py\<close>):
  JSON values, the errors and their codes, actor addresses, statuses, priorities, supervision, wakeups,
  trace contexts, log entries and messages. A pydantic model is a record; its validators are the
  \<open>mk_\<close> and \<open>validate_\<close> functions, which return the \<open>ValueError\<close> they raise. A value the
  sources store as JSON text (a pydantic dump read back by \<open>model_validate_json\<close>) is kept as the
  value itself.
\<close>

section \<open>JSON\<close>

text \<open>\<open>JTime\<close> is a datetime in JSON mode (its ISO text), kept as the instant.\<close>

datatype json =
    JNull
  | JBool bool
  | JInt int
  | JNum rat
  | JStr string
  | JTime seconds
  | JList "json list"
  | JObj "(string \<times> json) list"

fun jget :: "string \<Rightarrow> json \<Rightarrow> json option" where
  "jget k (JObj kvs) = map_of kvs k"
| "jget k _ = None"

definition jopt_str :: "string option \<Rightarrow> json" where
  "jopt_str x = (case x of None \<Rightarrow> JNull | Some s \<Rightarrow> JStr s)"

definition jget_str :: "string \<Rightarrow> json \<Rightarrow> string option" where
  "jget_str k j = (case jget k j of Some (JStr s) \<Rightarrow> Some s | _ \<Rightarrow> None)"

section \<open>Errors\<close>

text \<open>The classes below \<open>KernelError\<close> in \<open>types/errors.py\<close>, in the order they are declared.\<close>

datatype kernel_class =
    KernelError
  | TransientError | ConcurrentAppendError | ThreadBusyError | BranchHeadConflictError
  | SnapshotConflictError | RateLimitedError | ServiceUnavailableError
  | PermanentError | AgentCrashError | ScopeViolationError | ToolDeclarationError
  | UnroutableMessageError | BlockValidationError | UnsupportedContentError
  | BranchNotFoundError | BranchAlreadyExistsError | DAGIntegrityError | ObjectNotFoundError
  | ContextLengthError | ContentFilterError | AuthError | VectorSpaceError
  | NonDeterminismError | OrphanedEffectError
  | PolicyTermination | BudgetExhaustedError | MiddlewareTermination

fun class_name :: "kernel_class \<Rightarrow> string" where
  "class_name KernelError = ''KernelError''"
| "class_name TransientError = ''TransientError''"
| "class_name ConcurrentAppendError = ''ConcurrentAppendError''"
| "class_name ThreadBusyError = ''ThreadBusyError''"
| "class_name BranchHeadConflictError = ''BranchHeadConflictError''"
| "class_name SnapshotConflictError = ''SnapshotConflictError''"
| "class_name RateLimitedError = ''RateLimitedError''"
| "class_name ServiceUnavailableError = ''ServiceUnavailableError''"
| "class_name PermanentError = ''PermanentError''"
| "class_name AgentCrashError = ''AgentCrashError''"
| "class_name ScopeViolationError = ''ScopeViolationError''"
| "class_name ToolDeclarationError = ''ToolDeclarationError''"
| "class_name UnroutableMessageError = ''UnroutableMessageError''"
| "class_name BlockValidationError = ''BlockValidationError''"
| "class_name UnsupportedContentError = ''UnsupportedContentError''"
| "class_name BranchNotFoundError = ''BranchNotFoundError''"
| "class_name BranchAlreadyExistsError = ''BranchAlreadyExistsError''"
| "class_name DAGIntegrityError = ''DAGIntegrityError''"
| "class_name ObjectNotFoundError = ''ObjectNotFoundError''"
| "class_name ContextLengthError = ''ContextLengthError''"
| "class_name ContentFilterError = ''ContentFilterError''"
| "class_name AuthError = ''AuthError''"
| "class_name VectorSpaceError = ''VectorSpaceError''"
| "class_name NonDeterminismError = ''NonDeterminismError''"
| "class_name OrphanedEffectError = ''OrphanedEffectError''"
| "class_name PolicyTermination = ''PolicyTermination''"
| "class_name BudgetExhaustedError = ''BudgetExhaustedError''"
| "class_name MiddlewareTermination = ''MiddlewareTermination''"

text \<open>The base class of each (\<open>None\<close> for the root of the hierarchy).\<close>

fun base_class :: "kernel_class \<Rightarrow> kernel_class option" where
  "base_class KernelError = None"
| "base_class TransientError = Some KernelError"
| "base_class ConcurrentAppendError = Some TransientError"
| "base_class ThreadBusyError = Some TransientError"
| "base_class BranchHeadConflictError = Some TransientError"
| "base_class SnapshotConflictError = Some TransientError"
| "base_class RateLimitedError = Some TransientError"
| "base_class ServiceUnavailableError = Some TransientError"
| "base_class PermanentError = Some KernelError"
| "base_class PolicyTermination = Some KernelError"
| "base_class BudgetExhaustedError = Some PolicyTermination"
| "base_class MiddlewareTermination = Some PolicyTermination"
| "base_class _ = Some PermanentError"

text \<open>\<open>isinstance\<close> on the hierarchy, which is three levels deep.\<close>

definition is_subclass :: "kernel_class \<Rightarrow> kernel_class \<Rightarrow> bool" where
  "is_subclass c d \<longleftrightarrow> c = d \<or> base_class c = Some d \<or>
     (case base_class c of None \<Rightarrow> False | Some b \<Rightarrow> base_class b = Some d)"

text \<open>The class attribute \<open>retryable\<close>: \<open>True\<close> on \<open>TransientError\<close>, \<open>False\<close> on the root.\<close>

definition class_retryable :: "kernel_class \<Rightarrow> bool" where
  "class_retryable c \<longleftrightarrow> is_subclass c TransientError"

definition is_upper :: "char \<Rightarrow> bool" where
  "is_upper c \<longleftrightarrow> of_char c \<ge> (65 :: nat) \<and> of_char c \<le> (90 :: nat)"

definition lower :: "char \<Rightarrow> char" where
  "lower c = (if is_upper c then char_of (of_char c + (32 :: nat)) else c)"

definition removesuffix_error :: "string \<Rightarrow> string" where
  "removesuffix_error s = rev (removeprefix (rev ''Error'') (rev s))"

text \<open>\<open>_snake\<close>: an underscore before every capital but the first character, then lower case.\<close>

definition snake :: "string \<Rightarrow> string" where
  "snake s = (case s of [] \<Rightarrow> []
     | c # cs \<Rightarrow> lower c # concat (map (\<lambda>d. if is_upper d then [CHR ''_'', lower d] else [lower d]) cs))"

definition error_code :: "kernel_class \<Rightarrow> string" where
  "error_code c = (if c = KernelError then ''kernel'' else snake (removesuffix_error (class_name c)))"

record error_info =
  ei_code :: string
  ei_message :: string
  ei_retryable :: bool
  ei_details :: json

definition show_error :: "error_info \<Rightarrow> string" where
  "show_error e = ''['' @ ei_code e @ ''] '' @ ei_message e"

definition dump_error :: "error_info \<Rightarrow> json" where
  "dump_error e = JObj [(''code'', JStr (ei_code e)), (''message'', JStr (ei_message e)),
     (''retryable'', JBool (ei_retryable e)), (''details'', ei_details e)]"

definition mk_error :: "string \<Rightarrow> string \<Rightarrow> bool \<Rightarrow> error_info" where
  "mk_error c m r = \<lparr>ei_code = c, ei_message = m, ei_retryable = r, ei_details = JObj []\<rparr>"

text \<open>\<open>KernelError.to_info\<close>; \<open>msg\<close> is \<open>str(exc)\<close>.\<close>

definition to_info :: "kernel_class \<Rightarrow> string \<Rightarrow> error_info" where
  "to_info c msg = mk_error (error_code c) msg (class_retryable c)"

section \<open>Addresses\<close>

datatype actor = Actor (actor_type: string) (actor_key: string)

text \<open>\<open>Actor.__post_init__\<close>.\<close>

definition mk_actor :: "string \<Rightarrow> string \<Rightarrow> string + actor" where
  "mk_actor t k =
     (if t = [] then Inl ''Actor type cannot be empty''
      else if CHR ''/'' \<in> set t then Inl (''Actor type cannot contain '/': '' @ CHR 0x27 # t @ [CHR 0x27])
      else Inr (Actor t k))"

definition valid_actor :: "actor \<Rightarrow> bool" where
  "valid_actor a \<longleftrightarrow> actor_type a \<noteq> [] \<and> CHR ''/'' \<notin> set (actor_type a)"

definition is_singleton :: "actor \<Rightarrow> bool" where
  "is_singleton a \<longleftrightarrow> actor_key a = []"

definition actor_str :: "actor \<Rightarrow> string" where
  "actor_str a = (if actor_key a \<noteq> [] then actor_type a @ ''/'' @ actor_key a else actor_type a)"

definition actor_from_str :: "string \<Rightarrow> string + actor" where
  "actor_from_str s =
     (if s = [] then Inl ''Actor address string cannot be empty''
      else case partition_at (CHR ''/'') s of (t, sep, k) \<Rightarrow> mk_actor t (if sep then k else []))"

definition actor_system :: "string \<Rightarrow> actor" where
  "actor_system k = Actor ''system'' k"

definition actor_user :: "string \<Rightarrow> actor" where
  "actor_user k = Actor ''user'' k"

definition mk_topic :: "string \<Rightarrow> string + string" where
  "mk_topic n = (if n = [] then Inl ''Topic name cannot be empty'' else Inr n)"

lemma mk_actor_valid: "mk_actor t k = Inr a \<Longrightarrow> valid_actor a"
  by (auto simp: mk_actor_def valid_actor_def split: if_splits)

lemma actor_str_nonempty: "valid_actor a \<Longrightarrow> actor_str a \<noteq> []"
  by (simp add: actor_str_def valid_actor_def)

lemma actor_from_actor_str: "valid_actor a \<Longrightarrow> actor_from_str (actor_str a) = Inr a"
  by (cases a) (auto simp: actor_from_str_def actor_str_def valid_actor_def mk_actor_def
      partition_at_none partition_at_append)

lemma actor_str_inj: "valid_actor a \<Longrightarrow> valid_actor b \<Longrightarrow> actor_str a = actor_str b \<Longrightarrow> a = b"
  using actor_from_actor_str by (metis sum.inject(2))

section \<open>Status, priority and supervision\<close>

datatype run_status = PENDING | RUNNING | SUSPENDED | COMPLETED | FAILED | CANCELLED

definition is_terminal :: "run_status \<Rightarrow> bool" where
  "is_terminal st \<longleftrightarrow> st \<in> {COMPLETED, FAILED, CANCELLED}"

fun status_value :: "run_status \<Rightarrow> string" where
  "status_value PENDING = ''pending''"
| "status_value RUNNING = ''running''"
| "status_value SUSPENDED = ''suspended''"
| "status_value COMPLETED = ''completed''"
| "status_value FAILED = ''failed''"
| "status_value CANCELLED = ''cancelled''"

text \<open>\<open>_ACTIVE\<close> and \<open>_TERMINAL\<close> of the store split the statuses.\<close>

definition is_active :: "run_status \<Rightarrow> bool" where
  "is_active st \<longleftrightarrow> st \<in> {PENDING, RUNNING, SUSPENDED}"

lemma active_not_terminal: "is_active st \<longleftrightarrow> \<not> is_terminal st"
  by (cases st) (auto simp: is_active_def is_terminal_def)

lemma is_active_simps [simp]:
  "is_active PENDING" "is_active RUNNING" "is_active SUSPENDED"
  "\<not> is_active COMPLETED" "\<not> is_active FAILED" "\<not> is_active CANCELLED"
  by (auto simp: is_active_def)

lemma is_terminal_simps [simp]:
  "\<not> is_terminal PENDING" "\<not> is_terminal RUNNING" "\<not> is_terminal SUSPENDED"
  "is_terminal COMPLETED" "is_terminal FAILED" "is_terminal CANCELLED"
  by (auto simp: is_terminal_def)

datatype priority = BACKGROUND | LOW | NORMAL | HIGH | CRITICAL

fun priority_value :: "priority \<Rightarrow> int" where
  "priority_value BACKGROUND = 0"
| "priority_value LOW = 1"
| "priority_value NORMAL = 2"
| "priority_value HIGH = 4"
| "priority_value CRITICAL = 8"

text \<open>\<open>Priority\<close> is an \<open>IntEnum\<close>: its members are ordered by their values.\<close>

instantiation priority :: linorder
begin

definition less_eq_priority :: "priority \<Rightarrow> priority \<Rightarrow> bool" where
  "less_eq_priority p q \<longleftrightarrow> priority_value p \<le> priority_value q"

definition less_priority :: "priority \<Rightarrow> priority \<Rightarrow> bool" where
  "less_priority p q \<longleftrightarrow> priority_value p < priority_value q"

instance
proof
  fix p q r :: priority
  show "p < q \<longleftrightarrow> p \<le> q \<and> \<not> q \<le> p" "p \<le> p" "p \<le> q \<or> q \<le> p"
    by (auto simp: less_eq_priority_def less_priority_def)
  show "p \<le> q \<Longrightarrow> q \<le> r \<Longrightarrow> p \<le> r"
    by (simp add: less_eq_priority_def)
  show "p \<le> q \<Longrightarrow> q \<le> p \<Longrightarrow> p = q"
    by (cases p; cases q) (simp_all add: less_eq_priority_def)
qed

end

datatype retention = RetainNone | RetainRun | RetainPermanent

record execution_budget =
  eb_max_tokens :: "int option"
  eb_max_cost_usd :: "rat option"
  eb_max_turns :: "int option"
  eb_deadline_s :: "seconds option"

definition unlimited_budget :: execution_budget where
  "unlimited_budget = \<lparr>eb_max_tokens = None, eb_max_cost_usd = None, eb_max_turns = None, eb_deadline_s = None\<rparr>"

record supervision =
  sv_run_id :: string
  sv_session_id :: string
  sv_root_id :: actor
  sv_parent_id :: "actor option"
  sv_depth :: int
  sv_max_agents :: int
  sv_execution_budget :: execution_budget
  sv_retention :: retention
  sv_priority :: priority

text \<open>
  \<open>Supervision.root\<close>: the two ids that \<open>new_id\<close> mints are arguments; the second is used when no
  (or an empty) session is given.
\<close>

definition supervision_root ::
  "string \<Rightarrow> string \<Rightarrow> actor \<Rightarrow> string option \<Rightarrow> int option \<Rightarrow> execution_budget option
    \<Rightarrow> retention \<Rightarrow> priority \<Rightarrow> supervision" where
  "supervision_root tree_id fresh_session agent session max_agents budget ret prio =
     \<lparr>sv_run_id = tree_id,
      sv_session_id = (case session of None \<Rightarrow> fresh_session
        | Some s \<Rightarrow> if s = [] then fresh_session else s),
      sv_root_id = agent, sv_parent_id = None, sv_depth = 0,
      sv_max_agents = (case max_agents of None \<Rightarrow> 50 | Some m \<Rightarrow> m),
      sv_execution_budget = (case budget of None \<Rightarrow> unlimited_budget | Some b \<Rightarrow> b),
      sv_retention = ret, sv_priority = prio\<rparr>"

definition spawn_child ::
  "supervision \<Rightarrow> actor \<Rightarrow> retention \<Rightarrow> priority \<Rightarrow> execution_budget option \<Rightarrow> supervision" where
  "spawn_child sv parent ret prio budget =
     sv\<lparr>sv_parent_id := Some parent, sv_depth := sv_depth sv + 1,
        sv_execution_budget := (case budget of None \<Rightarrow> sv_execution_budget sv | Some b \<Rightarrow> b),
        sv_retention := ret, sv_priority := prio\<rparr>"

definition is_root :: "supervision \<Rightarrow> bool" where
  "is_root sv \<longleftrightarrow> sv_parent_id sv = None"

record retry_policy =
  rp_max_retries :: int
  rp_backoff_s :: seconds
  rp_max_backoff_s :: seconds
  rp_dead_run_on_cancel :: bool

definition default_retry_policy :: retry_policy where
  "default_retry_policy = \<lparr>rp_max_retries = 3, rp_backoff_s = 5, rp_max_backoff_s = 300,
     rp_dead_run_on_cancel = False\<rparr>"

section \<open>Wakeups\<close>

datatype wake_kind = WakeMessage | WakeTimer | WakeSignal | WakeChildDone

record wakeup =
  wk_kind :: wake_kind
  wk_at :: "seconds option"
  wk_signals :: "string list option"
  wk_payload :: json
  wk_source_run :: "string option"
  wk_child_run :: "string option"
  wk_result_ref :: "string option"

text \<open>\<open>_fields_match_kind\<close>.\<close>

definition validate_wakeup :: "wakeup \<Rightarrow> string + wakeup" where
  "validate_wakeup w =
     (if wk_kind w = WakeTimer \<and> wk_at w = None then Inl ''a timer wakeup needs `at`''
      else if wk_kind w = WakeSignal \<and> (case wk_signals w of None \<Rightarrow> True | Some ns \<Rightarrow> ns = [])
        then Inl ''a signal wakeup needs at least one signal name''
      else if wk_kind w = WakeChildDone \<and> wk_child_run w = None
        then Inl ''a child_done wakeup needs `child_run`''
      else Inr w)"

definition signal_wakeup :: "string list \<Rightarrow> seconds option \<Rightarrow> wakeup" where
  "signal_wakeup names due = \<lparr>wk_kind = WakeSignal, wk_at = due, wk_signals = Some names,
     wk_payload = JObj [], wk_source_run = None, wk_child_run = None, wk_result_ref = None\<rparr>"

definition timer_wakeup :: "seconds \<Rightarrow> wakeup" where
  "timer_wakeup due = \<lparr>wk_kind = WakeTimer, wk_at = Some due, wk_signals = None,
     wk_payload = JObj [], wk_source_run = None, wk_child_run = None, wk_result_ref = None\<rparr>"

fun wake_kind_value :: "wake_kind \<Rightarrow> string" where
  "wake_kind_value WakeMessage = ''message''"
| "wake_kind_value WakeTimer = ''timer''"
| "wake_kind_value WakeSignal = ''signal''"
| "wake_kind_value WakeChildDone = ''child_done''"

definition dump_wakeup :: "wakeup \<Rightarrow> json" where
  "dump_wakeup w = JObj
     [(''kind'', JStr (wake_kind_value (wk_kind w))),
      (''at'', case wk_at w of None \<Rightarrow> JNull | Some t \<Rightarrow> JTime t),
      (''signals'', case wk_signals w of None \<Rightarrow> JNull | Some ns \<Rightarrow> JList (map JStr ns)),
      (''payload'', wk_payload w), (''source_run'', jopt_str (wk_source_run w)),
      (''child_run'', jopt_str (wk_child_run w)), (''result_ref'', jopt_str (wk_result_ref w))]"

section \<open>Trace contexts\<close>

record trace_context =
  tc_trace_id :: string
  tc_span_id :: string
  tc_sampled :: bool

definition is_hex :: "char \<Rightarrow> bool" where
  "is_hex c \<longleftrightarrow> c \<in> set ''0123456789abcdef''"

definition hex_field :: "nat \<Rightarrow> string \<Rightarrow> bool" where
  "hex_field n s \<longleftrightarrow> length s = n \<and> list_all is_hex s \<and> s \<noteq> replicate n (CHR ''0'')"

definition validate_trace :: "trace_context \<Rightarrow> bool" where
  "validate_trace t \<longleftrightarrow> hex_field 32 (tc_trace_id t) \<and> hex_field 16 (tc_span_id t)"

definition trace_child :: "trace_context \<Rightarrow> string \<Rightarrow> trace_context" where
  "trace_child t sid = t\<lparr>tc_span_id := sid\<rparr>"

section \<open>Exceptions\<close>

text \<open>
  What a call can raise. \<open>KernelExn\<close> is a \<open>KernelError\<close> with its class, its text and, for
  \<open>RateLimitedError\<close>, its \<open>retry_after\<close>; \<open>PyExn\<close> is any other Python exception, by the name
  of its class; \<open>AsyncioCancelled\<close> is \<open>asyncio.CancelledError\<close>. The first three are the
  \<open>ControlSignal\<close>s, which \<open>except Exception\<close> does not catch.
\<close>

datatype exn =
    SuspendInterrupt string wakeup string
  | CancellationError string
  | LeaseLostError string "int option"
  | KernelExn kernel_class string "seconds option"
  | PyExn string string
  | AsyncioCancelled

definition is_control_signal :: "exn \<Rightarrow> bool" where
  "is_control_signal e = (case e of SuspendInterrupt _ _ _ \<Rightarrow> True | CancellationError _ \<Rightarrow> True
     | LeaseLostError _ _ \<Rightarrow> True | _ \<Rightarrow> False)"

text \<open>Caught by \<open>except Exception\<close>: neither a control signal nor asyncio's cancellation.\<close>

definition is_exception :: "exn \<Rightarrow> bool" where
  "is_exception e = (case e of KernelExn _ _ _ \<Rightarrow> True | PyExn _ _ \<Rightarrow> True | _ \<Rightarrow> False)"

text \<open>\<open>str(exc)\<close>.\<close>

definition exn_text :: "exn \<Rightarrow> string" where
  "exn_text e = (case e of
       SuspendInterrupt rid _ reason \<Rightarrow> ''run '' @ rid @ '' suspended'' @ (if reason = [] then [] else '': '' @ reason)
     | CancellationError msg \<Rightarrow> msg
     | LeaseLostError rid _ \<Rightarrow> ''lease on run '' @ rid @ '' was lost''
     | KernelExn _ msg _ \<Rightarrow> msg
     | PyExn _ msg \<Rightarrow> msg
     | AsyncioCancelled \<Rightarrow> [])"

section \<open>Log entries and messages\<close>

record run_log_entry =
  le_run_id :: string
  le_seq :: int
  le_kind :: string
  le_v :: int
  le_payload :: json
  le_ts :: seconds

datatype target = ToActor actor | ToTopic string

record message =
  msg_id :: string
  msg_schema_version :: int
  msg_created_at :: seconds
  msg_target :: target
  msg_sender :: actor
  msg_payload :: json
  msg_correlation_id :: string
  msg_causation_id :: "string option"
  msg_metadata :: json
  msg_reply_to :: "string option"

fun is_broadcast :: "message \<Rightarrow> bool" where
  "is_broadcast m = (case msg_target m of ToTopic _ \<Rightarrow> True | ToActor _ \<Rightarrow> False)"

datatype dead_letter_reason = MaxRetries | Explicit

record dead_letter_entry =
  dl_agent_id :: actor
  dl_msg :: message
  dl_reason :: dead_letter_reason
  dl_attempts :: int
  dl_last_error :: "string option"

end
