(* ===== verification/Tables.thy ===== *)
theory Tables
  imports Kernel_Types
begin

text \<open>
  The runtime's database: one record of tables, each a list of rows in insertion (rowid) order.
  The tables are those of \<open>_SCHEMA_V1\<close> in \<open>runtime/persistence/store.py\<close> and of the schema
  scripts in \<open>runtime/persistence/channels.py\<close>. A transaction holds the only writer
  (\<open>BEGIN IMMEDIATE\<close>), so an operation is a function of the tables and \<open>tx.lock\<close> is the identity.

  What an operation draws from outside (the clock, \<open>new_id\<close>, the random bytes of a trace) comes from
  \<open>env\<close>, indexed by how many draws were made before: \<open>draws\<close> counts them, so two readings of the
  clock in one operation may differ.
\<close>

section \<open>Rows\<close>

record run_result =
  res_run_id :: string
  res_status :: run_status
  res_output :: "json option"
  res_error :: "string option"
  res_metadata :: json

text \<open>\<open>rt_runs\<close>.\<close>

record run_row =
  rr_run_id :: string
  rr_agent :: string
  rr_tenant :: string
  rr_thread_id :: "string option"
  rr_parent :: "string option"
  rr_tree_id :: string
  rr_status :: run_status
  rr_priority :: int
  rr_epoch :: int
  rr_attempt :: int
  rr_retry_count :: int
  rr_retry_policy :: retry_policy
  rr_worker_id :: "string option"
  rr_lease_expires :: "seconds option"
  rr_wake :: "wakeup option"
  rr_wake_at :: "seconds option"
  rr_deadline :: "seconds option"
  rr_cancel_requested :: bool
  rr_supervision :: "supervision option"
  rr_trace :: "trace_context option"
  rr_recipe :: "json option"
  rr_enqueued_at :: seconds
  rr_started_at :: "seconds option"
  rr_terminated_at :: "seconds option"
  rr_result :: "run_result option"

text \<open>\<open>rt_events\<close>; \<open>ev_entry\<close> is the entry its JSON column holds.\<close>

record event_row =
  ev_run_id :: string
  ev_seq :: int
  ev_kind :: string
  ev_entry :: run_log_entry
  ev_ephemeral :: bool
  ev_dedup :: "string option"

record inbox_row =
  ib_id :: nat
  ib_agent :: string
  ib_msg_id :: string
  ib_sender :: string
  ib_tenant :: string
  ib_msg :: message
  ib_attempts :: int

record processed_row =
  pr_agent :: string
  pr_msg_id :: string
  pr_at :: seconds

record dead_row =
  dd_id :: nat
  dd_agent :: string
  dd_msg_id :: string
  dd_tenant :: string
  dd_entry :: dead_letter_entry

record signal_row =
  sg_id :: nat
  sg_run_id :: string
  sg_name :: string
  sg_payload :: json

record claim_row =
  cl_claim_id :: string
  cl_payload :: json

record spawn_row =
  sp_effect_id :: string
  sp_child_run_id :: string

record spend_row =
  sd_tree_id :: string
  sd_tokens :: int
  sd_cost_micros :: int
  sd_turns :: int

record account_row =
  ac_account :: string
  ac_tokens :: int
  ac_cost_micros :: int
  ac_turns :: int
  ac_max_tokens :: "int option"
  ac_max_cost_micros :: "int option"
  ac_max_turns :: "int option"

text \<open>The channel tables.\<close>

datatype chan_mode = ModeAll | ModeMentions | ModeMuted

datatype participant_kind = Human | AgentKind | SystemKind | External

datatype entry_kind = MessageEntry | SystemEntry | EditEntry | ReactionEntry | TombstoneEntry

record channel_row =
  ch_channel :: string
  ch_tenant :: string
  ch_breaker :: int
  ch_next_seq :: int
  ch_paused :: bool
  ch_engage_s :: seconds

record member_row =
  mb_channel :: string
  mb_member :: string
  mb_mode :: chan_mode
  mb_cursor :: int
  mb_kind :: participant_kind
  mb_inbox :: "string option"
  mb_delivered :: int
  mb_joined_seq :: int
  mb_engaged_until :: "seconds option"
  mb_exhausted_noticed :: bool

record entry_row =
  en_channel :: string
  en_seq :: int
  en_id :: string
  en_sender :: string
  en_kind :: entry_kind
  en_text :: string
  en_mentions :: "string list"
  en_reply_to :: "int option"
  en_caused_by :: "string option"
  en_cause_seq :: "int option"
  en_depth :: int
  en_at :: seconds
  en_edited_at :: "seconds option"
  en_deleted_at :: "seconds option"
  en_dedup :: "string option"
  en_data :: "json option"

record reaction_row =
  rx_channel :: string
  rx_seq :: int
  rx_participant :: string
  rx_emoji :: string
  rx_marker_seq :: int

section \<open>The database\<close>

record db =
  runs :: "run_row list"
  wakes :: "(string \<times> string) list"
  events :: "event_row list"
  inbox :: "inbox_row list"
  processed :: "processed_row list"
  dead :: "dead_row list"
  signals :: "signal_row list"
  claims :: "claim_row list"
  spawns :: "spawn_row list"
  spends :: "spend_row list"
  edges :: "(string \<times> string) list"
  accounts :: "account_row list"
  run_accounts :: "(string \<times> string) list"
  channels :: "channel_row list"
  members :: "member_row list"
  entries :: "entry_row list"
  reactions :: "reaction_row list"
  inbox_ids :: nat
  dead_ids :: nat
  signal_ids :: nat
  draws :: nat

definition empty_db :: db where
  "empty_db = \<lparr>runs = [], wakes = [], events = [], inbox = [], processed = [], dead = [], signals = [],
     claims = [], spawns = [], spends = [], edges = [], accounts = [], run_accounts = [],
     channels = [], members = [], entries = [], reactions = [],
     inbox_ids = 0, dead_ids = 0, signal_ids = 0, draws = 0\<rparr>"

record env =
  env_clock :: "nat \<Rightarrow> seconds"
  env_uuid :: "nat \<Rightarrow> string"
  env_trace :: "nat \<Rightarrow> trace_context"
  env_span :: "nat \<Rightarrow> string"
  env_max_attempts :: int

type_synonym 'a dbtx = "(db, exn, 'a) tx"

definition drawT :: "(nat \<Rightarrow> 'a) \<Rightarrow> 'a dbtx" where
  "drawT f = bindT (queryT (\<lambda>s. f (draws s))) (\<lambda>x. thenT (execT (\<lambda>s. s\<lparr>draws := Suc (draws s)\<rparr>)) (retT x))"

lemma wp_draw [simp, wp_rules]:
  "wp (drawT f) Q = (\<lambda>s. Q (f (draws s)) (s\<lparr>draws := Suc (draws s)\<rparr>))"
  by (simp add: drawT_def)

section \<open>Lookups\<close>

definition find_run :: "db \<Rightarrow> string \<Rightarrow> run_row option" where
  "find_run s rid = List.find (\<lambda>r. rr_run_id r = rid) (runs s)"

definition active_run :: "run_row \<Rightarrow> bool" where
  "active_run r \<longleftrightarrow> is_active (rr_status r)"

definition active_count :: "db \<Rightarrow> nat" where
  "active_count s = length (filter active_run (runs s))"

definition update_run :: "string \<Rightarrow> (run_row \<Rightarrow> run_row) \<Rightarrow> db \<Rightarrow> db" where
  "update_run rid f s = s\<lparr>runs := update_where (\<lambda>r. rr_run_id r = rid) f (runs s)\<rparr>"

definition run_ids :: "db \<Rightarrow> string list" where
  "run_ids s = map rr_run_id (runs s)"

lemma find_run_SomeD: "find_run s rid = Some r \<Longrightarrow> r \<in> set (runs s) \<and> rr_run_id r = rid"
  unfolding find_run_def by (drule find_SomeD) simp

lemma find_run_NoneD: "find_run s rid = None \<Longrightarrow> r \<in> set (runs s) \<Longrightarrow> rr_run_id r \<noteq> rid"
  unfolding find_run_def by (drule find_NoneD) auto

lemma find_run_unique:
  assumes "distinct (run_ids s)" and "r \<in> set (runs s)"
  shows "find_run s (rr_run_id r) = Some r"
proof (cases "find_run s (rr_run_id r)")
  case None
  then show ?thesis using find_run_NoneD assms(2) by blast
next
  case (Some q)
  then have "q \<in> set (runs s)" "rr_run_id q = rr_run_id r" by (auto dest: find_run_SomeD)
  then show ?thesis using assms Some
    by (auto simp: run_ids_def distinct_map inj_on_def)
qed

lemma find_run_iff:
  "distinct (run_ids s) \<Longrightarrow> find_run s rid = Some r \<longleftrightarrow> r \<in> set (runs s) \<and> rr_run_id r = rid"
  by (auto dest: find_run_SomeD find_run_unique)

lemma find_update_run:
  assumes "\<And>r. rr_run_id (f r) = rr_run_id r"
  shows "find_run (update_run rid f s) x = map_option (\<lambda>r. if x = rid then f r else r) (find_run s x)"
proof -
  have "List.find (\<lambda>r. rr_run_id r = x) (update_where (\<lambda>r. rr_run_id r = rid) f (runs s))
      = map_option (\<lambda>r. if rr_run_id r = rid then f r else r) (List.find (\<lambda>r. rr_run_id r = x) (runs s))"
    by (rule find_update_where) (simp add: assms)
  then show ?thesis
    unfolding find_run_def update_run_def
    by (cases "List.find (\<lambda>r. rr_run_id r = x) (runs s)") (auto dest: find_SomeD)
qed

end
