(* ===== verification/Accounts.thy ===== *)
theory Accounts
  imports Tables
begin

text \<open>
  Budget accounts (\<open>runtime/persistence/accounts.py\<close>): a named total of tokens, cost and turns with
  optional limits. A run is charged to its accounts in the transaction that records a model call
  (\<open>append\<close> of \<open>Run_Core\<close>); a run stops, and a channel stops waking a member, when an account is at
  a limit.
\<close>

section \<open>Operations\<close>

record spend =
  sn_tokens :: int
  sn_cost_usd :: rat
  sn_turns :: int

definition no_spend :: spend where
  "no_spend = \<lparr>sn_tokens = 0, sn_cost_usd = 0, sn_turns = 0\<rparr>"

definition micros :: "rat option \<Rightarrow> int option" where
  "micros usd = (case usd of None \<Rightarrow> None | Some u \<Rightarrow> Some (round_half_even (u * 1000000)))"

text \<open>One comparison of the \<open>WHERE\<close> clause: \<open>>\<close> when strict, else \<open>>=\<close>; a NULL limit never holds.\<close>

definition over_limit :: "bool \<Rightarrow> int \<Rightarrow> int option \<Rightarrow> bool" where
  "over_limit strict used cap =
     (case cap of None \<Rightarrow> False | Some c \<Rightarrow> if strict then c < used else c \<le> used)"

definition row_exhausted :: "bool \<Rightarrow> account_row \<Rightarrow> bool" where
  "row_exhausted strict a \<longleftrightarrow>
     over_limit strict (ac_tokens a) (ac_max_tokens a) \<or>
     over_limit strict (ac_cost_micros a) (ac_max_cost_micros a) \<or>
     over_limit strict (ac_turns a) (ac_max_turns a)"

definition exhausted :: "db \<Rightarrow> string list \<Rightarrow> bool \<Rightarrow> string option" where
  "exhausted s names strict =
     List.find (\<lambda>n. exists_where (\<lambda>a. ac_account a = n \<and> row_exhausted strict a) (accounts s)) names"

definition new_account :: "string \<Rightarrow> account_row" where
  "new_account n = \<lparr>ac_account = n, ac_tokens = 0, ac_cost_micros = 0, ac_turns = 0,
     ac_max_tokens = None, ac_max_cost_micros = None, ac_max_turns = None\<rparr>"

text \<open>\<open>INSERT INTO rt_accounts .. ON CONFLICT (account) DO UPDATE\<close>.\<close>

definition upsert_account :: "string \<Rightarrow> (account_row \<Rightarrow> account_row) \<Rightarrow> account_row list \<Rightarrow> account_row list" where
  "upsert_account n f as =
     (if exists_where (\<lambda>a. ac_account a = n) as then update_where (\<lambda>a. ac_account a = n) f as
      else as @ [f (new_account n)])"

definition account_limit :: "string \<Rightarrow> execution_budget \<Rightarrow> unit dbtx" where
  "account_limit n budget = execT (\<lambda>s. s\<lparr>accounts := upsert_account n
     (\<lambda>a. a\<lparr>ac_max_tokens := eb_max_tokens budget, ac_max_cost_micros := micros (eb_max_cost_usd budget),
            ac_max_turns := eb_max_turns budget\<rparr>) (accounts s)\<rparr>)"

definition account_spend :: "string \<Rightarrow> spend dbtx" where
  "account_spend n = queryT (\<lambda>s. case List.find (\<lambda>a. ac_account a = n) (accounts s) of
       None \<Rightarrow> no_spend
     | Some a \<Rightarrow> \<lparr>sn_tokens = ac_tokens a, sn_cost_usd = of_int (ac_cost_micros a) / 1000000,
                  sn_turns = ac_turns a\<rparr>)"

definition accounts_exhausted :: "string list \<Rightarrow> bool \<Rightarrow> string option dbtx" where
  "accounts_exhausted names strict = queryT (\<lambda>s. exhausted s names strict)"

definition accounts_of_run :: "db \<Rightarrow> string \<Rightarrow> string list" where
  "accounts_of_run s rid = map snd (filter (\<lambda>ra. fst ra = rid) (run_accounts s))"

definition run_accounts_exhausted :: "string \<Rightarrow> bool \<Rightarrow> string option dbtx" where
  "run_accounts_exhausted rid strict = queryT (\<lambda>s. exhausted s (accounts_of_run s rid) strict)"

text \<open>The debit of one call: added to the totals of an account, which is created when it is new.\<close>

definition debit_account :: "int \<Rightarrow> int \<Rightarrow> int \<Rightarrow> string \<Rightarrow> account_row list \<Rightarrow> account_row list" where
  "debit_account tokens cost turns n = upsert_account n
     (\<lambda>a. a\<lparr>ac_tokens := ac_tokens a + tokens, ac_cost_micros := ac_cost_micros a + cost,
            ac_turns := ac_turns a + turns\<rparr>)"

section \<open>Lemmas\<close>

definition account_names :: "account_row list \<Rightarrow> string list" where
  "account_names as = map ac_account as"

text \<open>What an account has been charged, as a function of its name: the abstract value of the table.\<close>

definition charged :: "account_row list \<Rightarrow> string \<Rightarrow> int \<times> int \<times> int" where
  "charged as n = (case List.find (\<lambda>a. ac_account a = n) as of
       None \<Rightarrow> (0, 0, 0) | Some a \<Rightarrow> (ac_tokens a, ac_cost_micros a, ac_turns a))"

lemma account_names_upsert:
  assumes "\<And>a. ac_account (f a) = ac_account a"
  shows "account_names (upsert_account n f as) =
    (if n \<in> set (account_names as) then account_names as else account_names as @ [n])"
  using assms by (auto simp: upsert_account_def account_names_def update_where_def new_account_def)

lemma distinct_account_upsert:
  "(\<And>a. ac_account (f a) = ac_account a) \<Longrightarrow> distinct (account_names as) \<Longrightarrow>
   distinct (account_names (upsert_account n f as))"
  by (simp add: account_names_upsert)

lemma find_upsert_account:
  assumes "\<And>a. ac_account (f a) = ac_account a"
  shows "List.find (\<lambda>a. ac_account a = m) (upsert_account n f as) =
    (if m = n then Some (case List.find (\<lambda>a. ac_account a = n) as of
        None \<Rightarrow> f (new_account n) | Some a \<Rightarrow> f a)
     else List.find (\<lambda>a. ac_account a = m) as)"
proof (induction as)
  case Nil
  then show ?case using assms by (simp add: upsert_account_def update_where_def new_account_def)
next
  case (Cons a as)
  have ex: "upsert_account n f (a # as) =
    (if ac_account a = n then update_where (\<lambda>a. ac_account a = n) f (a # as)
     else a # upsert_account n f as)"
    by (auto simp: upsert_account_def update_where_def)
  have upd: "List.find (\<lambda>a. ac_account a = m) (update_where (\<lambda>a. ac_account a = n) f bs) =
     List.find (\<lambda>a. ac_account a = m) bs" if "m \<noteq> n" for bs
    using that assms by (induction bs) (auto simp: update_where_def)
  show ?case
  proof (cases "ac_account a = n")
    case True
    then show ?thesis using assms ex upd [of "a # as"] by (auto simp: update_where_def)
  next
    case False
    then show ?thesis using ex Cons.IH by auto
  qed
qed

lemma charged_debit:
  "charged (debit_account t c k n as) m =
    (if m = n then case charged as n of (t0, c0, k0) \<Rightarrow> (t0 + t, c0 + c, k0 + k) else charged as m)"
  unfolding debit_account_def charged_def
  by (simp add: find_upsert_account new_account_def split: option.splits)

lemma exhausted_SomeD:
  assumes "exhausted s names strict = Some n"
  shows "n \<in> set names \<and> (\<exists>a \<in> set (accounts s). ac_account a = n \<and> row_exhausted strict a)"
  using assms unfolding exhausted_def by (auto dest!: find_SomeD)

lemma exhausted_NoneD:
  "exhausted s names strict = None \<Longrightarrow> n \<in> set names \<Longrightarrow> a \<in> set (accounts s) \<Longrightarrow>
   ac_account a = n \<Longrightarrow> \<not> row_exhausted strict a"
  unfolding exhausted_def by (drule find_NoneD) auto

text \<open>The strict test (after a call) is the weaker one: an account past a limit is also at it.\<close>

lemma row_exhausted_strict: "row_exhausted True a \<Longrightarrow> row_exhausted False a"
  by (auto simp: row_exhausted_def over_limit_def split: option.splits)

end
