(* ===== verification/Run_Core.thy ===== *)
theory Run_Core
  imports Accounts
begin

text \<open>
  The parts of \<open>RuntimeStore\<close> that run inside a transaction (\<open>runtime/persistence/store.py\<close>):
  appending to the journal, buffering a signal, creating a run, delivering, acknowledging and failing a
  message, and moving a run to a terminal state with the fate of its children. The commands are the
  models of \<open>runtime/store.py\<close>.
\<close>

section \<open>Commands\<close>

record run_spec =
  rs_agent :: actor
  rs_tenant :: string
  rs_run_id :: "string option"
  rs_thread_id :: "string option"
  rs_parent :: "string option"
  rs_priority :: priority
  rs_retry_policy :: retry_policy
  rs_deadline :: "seconds option"
  rs_supervision :: "supervision option"
  rs_trace :: "trace_context option"
  rs_recipe :: "json option"
  rs_accounts :: "string list"

text \<open>The defaults of \<open>RunSpec\<close>.\<close>

definition basic_spec :: "actor \<Rightarrow> string \<Rightarrow> run_spec" where
  "basic_spec agent tenant = \<lparr>rs_agent = agent, rs_tenant = tenant, rs_run_id = None,
     rs_thread_id = None, rs_parent = None, rs_priority = NORMAL,
     rs_retry_policy = default_retry_policy, rs_deadline = None, rs_supervision = None,
     rs_trace = None, rs_recipe = None, rs_accounts = []\<rparr>"

record new_entry =
  ne_kind :: string
  ne_payload :: json
  ne_dedup :: "string option"
  ne_ephemeral :: bool
  ne_spend :: "spend option"

definition entry :: "string \<Rightarrow> json \<Rightarrow> string option \<Rightarrow> new_entry" where
  "entry kind payload key = \<lparr>ne_kind = kind, ne_payload = payload, ne_dedup = key,
     ne_ephemeral = False, ne_spend = None\<rparr>"

record delivery =
  dv_agent :: actor
  dv_msg :: message
  dv_tenant :: string
  dv_accounts :: "string list"

record deliver_result =
  dr_accepted :: bool
  dr_woke_run :: "string option"
  dr_created_run :: "string option"

definition delivered :: "bool \<Rightarrow> string option \<Rightarrow> string option \<Rightarrow> deliver_result" where
  "delivered ok woke made = \<lparr>dr_accepted = ok, dr_woke_run = woke, dr_created_run = made\<rparr>"

text \<open>The outcomes that end a run, and the outcomes an attempt can have.\<close>

datatype final = Complete "json option" | Fail error_info | Cancel string

datatype outcome = Suspend wakeup | Retry error_info seconds | Final final

section \<open>The journal\<close>

definition last_seq :: "db \<Rightarrow> string \<Rightarrow> int" where
  "last_seq s rid = coalesce_max (- 1) (map ev_seq (filter (\<lambda>e. ev_run_id e = rid) (events s)))"

definition find_dedup :: "db \<Rightarrow> string \<Rightarrow> string option \<Rightarrow> event_row option" where
  "find_dedup s rid key = (case key of None \<Rightarrow> None
     | Some k \<Rightarrow> List.find (\<lambda>e. ev_run_id e = rid \<and> ev_dedup e = Some k) (events s))"

definition cost_micros :: "spend \<Rightarrow> int" where
  "cost_micros sp = round_half_even (sn_cost_usd sp * 1000000)"

text \<open>\<open>INSERT INTO rt_spend .. SELECT tree_id .. FROM rt_runs .. ON CONFLICT DO UPDATE\<close>.\<close>

definition upsert_spend :: "string \<Rightarrow> spend \<Rightarrow> spend_row list \<Rightarrow> spend_row list" where
  "upsert_spend tree sp ds =
     (if exists_where (\<lambda>d. sd_tree_id d = tree) ds
      then update_where (\<lambda>d. sd_tree_id d = tree)
             (\<lambda>d. d\<lparr>sd_tokens := sd_tokens d + sn_tokens sp, sd_cost_micros := sd_cost_micros d + cost_micros sp,
                    sd_turns := sd_turns d + sn_turns sp\<rparr>) ds
      else ds @ [\<lparr>sd_tree_id = tree, sd_tokens = sn_tokens sp, sd_cost_micros = cost_micros sp,
                  sd_turns = sn_turns sp\<rparr>])"

definition add_spend :: "string \<Rightarrow> spend \<Rightarrow> db \<Rightarrow> db" where
  "add_spend rid sp s =
     (let s1 = (case find_run s rid of None \<Rightarrow> s
            | Some r \<Rightarrow> s\<lparr>spends := upsert_spend (rr_tree_id r) sp (spends s)\<rparr>)
      in s1\<lparr>accounts := foldl (\<lambda>as n. debit_account (sn_tokens sp) (cost_micros sp) (sn_turns sp) n as)
              (accounts s1) (accounts_of_run s1 rid)\<rparr>)"

definition log_row :: "string \<Rightarrow> int \<Rightarrow> new_entry \<Rightarrow> seconds \<Rightarrow> event_row" where
  "log_row rid sq e now = \<lparr>ev_run_id = rid, ev_seq = sq, ev_kind = ne_kind e,
     ev_entry = \<lparr>le_run_id = rid, le_seq = sq, le_kind = ne_kind e, le_v = 1,
                 le_payload = ne_payload e, le_ts = now\<rparr>,
     ev_ephemeral = ne_ephemeral e, ev_dedup = ne_dedup e\<rparr>"

definition append :: "env \<Rightarrow> string \<Rightarrow> new_entry \<Rightarrow> int dbtx" where
  "append E rid e =
     bindT (queryT (\<lambda>s. find_dedup s rid (ne_dedup e))) (\<lambda>existing.
       case existing of
         Some row \<Rightarrow> retT (ev_seq row)
       | None \<Rightarrow>
           bindT (queryT (\<lambda>s. last_seq s rid + 1)) (\<lambda>sq.
           bindT (drawT (env_clock E)) (\<lambda>now.
           thenT (execT (\<lambda>s. s\<lparr>events := events s @ [log_row rid sq e now]\<rparr>))
          (thenT (execT (\<lambda>s. case ne_spend e of None \<Rightarrow> s | Some sp \<Rightarrow> add_spend rid sp s))
          (retT sq)))))"

section \<open>Waking and signalling\<close>

definition clear_wakes :: "string \<Rightarrow> db \<Rightarrow> db" where
  "clear_wakes rid s = s\<lparr>wakes := delete_where (\<lambda>w. fst w = rid) (wakes s)\<rparr>"

definition wake_row :: "run_row \<Rightarrow> run_row" where
  "wake_row r = (if rr_status r = SUSPENDED
     then r\<lparr>rr_status := PENDING, rr_worker_id := None, rr_lease_expires := None, rr_wake_at := None,
            rr_wake := None\<rparr>
     else r)"

definition make_pending :: "string \<Rightarrow> db \<Rightarrow> db" where
  "make_pending rid s = clear_wakes rid (update_run rid wake_row s)"

definition buffer_signal :: "string \<Rightarrow> string \<Rightarrow> json \<Rightarrow> db \<Rightarrow> db" where
  "buffer_signal rid name payload s =
     s\<lparr>signals := signals s @ [\<lparr>sg_id = signal_ids s, sg_run_id = rid, sg_name = name, sg_payload = payload\<rparr>],
       signal_ids := Suc (signal_ids s)\<rparr>"

definition signal_run :: "string \<Rightarrow> string \<Rightarrow> json \<Rightarrow> db \<Rightarrow> bool \<times> db" where
  "signal_run rid name payload s =
     (let run = find_run s rid; s' = buffer_signal rid name payload s
      in case run of
           Some r \<Rightarrow>
             if is_terminal (rr_status r) then (False, s)
             else if rr_status r \<noteq> SUSPENDED then (False, s')
             else if (rid, name) \<in> set (wakes s') then (True, make_pending rid s')
             else (False, s')
         | None \<Rightarrow> (False, s'))"

definition signalT :: "string \<Rightarrow> string \<Rightarrow> json \<Rightarrow> bool dbtx" where
  "signalT rid name payload = (\<lambda>s. Inr (signal_run rid name payload s))"

section \<open>Creating a run\<close>

definition integrity_error :: exn where
  "integrity_error = PyExn ''IntegrityError'' []"

text \<open>The primary key, and the partial unique index \<open>rt_runs_thread_single_flight\<close>.\<close>

definition violates_unique :: "db \<Rightarrow> string \<Rightarrow> string option \<Rightarrow> bool" where
  "violates_unique s rid thread \<longleftrightarrow>
     exists_where (\<lambda>r. rr_run_id r = rid) (runs s) \<or>
     (case thread of None \<Rightarrow> False
      | Some t \<Rightarrow> exists_where (\<lambda>r. rr_thread_id r = Some t \<and> active_run r) (runs s))"

definition thread_busy :: "string \<Rightarrow> exn" where
  "thread_busy t = KernelExn ThreadBusyError (''thread '' @ t @ '' already has an active run'') None"

definition fresh_row :: "run_spec \<Rightarrow> string \<Rightarrow> seconds \<Rightarrow> run_row" where
  "fresh_row spec rid now =
     \<lparr>rr_run_id = rid, rr_agent = actor_str (rs_agent spec), rr_tenant = rs_tenant spec,
      rr_thread_id = rs_thread_id spec, rr_parent = rs_parent spec,
      rr_tree_id = (case rs_supervision spec of None \<Rightarrow> rid | Some sv \<Rightarrow> sv_run_id sv),
      rr_status = PENDING, rr_priority = priority_value (rs_priority spec),
      rr_epoch = 0, rr_attempt = 0, rr_retry_count = 0, rr_retry_policy = rs_retry_policy spec,
      rr_worker_id = None, rr_lease_expires = None, rr_wake = None, rr_wake_at = None,
      rr_deadline = rs_deadline spec, rr_cancel_requested = False,
      rr_supervision = rs_supervision spec, rr_trace = rs_trace spec, rr_recipe = rs_recipe spec,
      rr_enqueued_at = now, rr_started_at = None, rr_terminated_at = None, rr_result = None\<rparr>"

definition add_run_account :: "string \<Rightarrow> string \<Rightarrow> (string \<times> string) list \<Rightarrow> (string \<times> string) list" where
  "add_run_account rid n ras = (if (rid, n) \<in> set ras then ras else ras @ [(rid, n)])"

definition insert_run :: "env \<Rightarrow> run_spec \<Rightarrow> run_row dbtx" where
  "insert_run E spec =
     bindT (case rs_run_id spec of
         Some rid \<Rightarrow> if rid = [] then drawT (env_uuid E) else retT rid
       | None \<Rightarrow> drawT (env_uuid E)) (\<lambda>rid.
     bindT (drawT (env_clock E)) (\<lambda>now.
     bindT (queryT (\<lambda>s. violates_unique s rid (rs_thread_id spec))) (\<lambda>clash.
       if clash then (case rs_thread_id spec of
           Some t \<Rightarrow> failT (thread_busy t) | None \<Rightarrow> failT integrity_error)
       else thenT (execT (\<lambda>s. s\<lparr>runs := runs s @ [fresh_row spec rid now],
              run_accounts := foldl (\<lambda>ras n. add_run_account rid n ras) (run_accounts s) (rs_accounts spec)\<rparr>))
            (retT (fresh_row spec rid now)))))"

section \<open>The inbox\<close>

definition in_inbox :: "db \<Rightarrow> string \<Rightarrow> string \<Rightarrow> bool" where
  "in_inbox s agent mid \<longleftrightarrow> exists_where (\<lambda>i. ib_agent i = agent \<and> ib_msg_id i = mid) (inbox s)"

definition is_processed :: "db \<Rightarrow> string \<Rightarrow> string \<Rightarrow> bool" where
  "is_processed s agent mid \<longleftrightarrow> exists_where (\<lambda>p. pr_agent p = agent \<and> pr_msg_id p = mid) (processed s)"

definition put_inbox :: "delivery \<Rightarrow> db \<Rightarrow> db" where
  "put_inbox d s =
     s\<lparr>inbox := inbox s @ [\<lparr>ib_id = inbox_ids s, ib_agent = actor_str (dv_agent d), ib_msg_id = msg_id (dv_msg d),
         ib_sender = actor_str (msg_sender (dv_msg d)), ib_tenant = dv_tenant d, ib_msg = dv_msg d,
         ib_attempts = 0\<rparr>],
       inbox_ids := Suc (inbox_ids s)\<rparr>"

text \<open>\<open>ORDER BY enqueued_at DESC, run_id DESC LIMIT 1\<close> over the agent's active runs.\<close>

definition active_run_of :: "db \<Rightarrow> string \<Rightarrow> run_row option" where
  "active_run_of s agent =
     (let rs = sort_key (\<lambda>r. (rr_enqueued_at r, rr_run_id r))
                 (filter (\<lambda>r. rr_agent r = agent \<and> active_run r) (runs s))
      in if rs = [] then None else Some (last rs))"

text \<open>The row is inserted unless the agent has the message already, in its inbox or acknowledged.\<close>

definition accept :: "delivery \<Rightarrow> bool dbtx" where
  "accept d =
     (let agent = actor_str (dv_agent d); mid = msg_id (dv_msg d) in
      bindT (queryT (\<lambda>s. in_inbox s agent mid)) (\<lambda>pending.
        if pending then retT False else
      bindT (queryT (\<lambda>s. is_processed s agent mid)) (\<lambda>seen.
        if seen then retT False else
      thenT (execT (put_inbox d)) (retT True))))"

text \<open>Who reads it: a new run for an idle agent, a suspended run woken, a run already at work.\<close>

definition wake_agent :: "env \<Rightarrow> delivery \<Rightarrow> deliver_result dbtx" where
  "wake_agent E d =
     bindT (queryT (\<lambda>s. active_run_of s (actor_str (dv_agent d)))) (\<lambda>active.
       case active of
         None \<Rightarrow>
           bindT (drawT (env_trace E)) (\<lambda>trace.
           bindT (insert_run E ((basic_spec (dv_agent d) (dv_tenant d))
                     \<lparr>rs_trace := Some trace, rs_accounts := dv_accounts d\<rparr>)) (\<lambda>row.
           retT (delivered True None (Some (rr_run_id row)))))
       | Some r \<Rightarrow>
           if rr_status r = SUSPENDED
           then thenT (execT (make_pending (rr_run_id r))) (retT (delivered True (Some (rr_run_id r)) None))
           else retT (delivered True None None))"

definition deliver :: "env \<Rightarrow> delivery \<Rightarrow> bool \<Rightarrow> deliver_result dbtx" where
  "deliver E d wake =
     bindT (accept d) (\<lambda>accepted.
       if \<not> accepted then retT (delivered False None None)
       else if \<not> wake then retT (delivered True None None)
       else wake_agent E d)"

definition ack_one :: "string \<Rightarrow> seconds \<Rightarrow> string \<Rightarrow> db \<Rightarrow> db" where
  "ack_one agent now mid s =
     (let s1 = s\<lparr>inbox := delete_where (\<lambda>i. ib_agent i = agent \<and> ib_msg_id i = mid) (inbox s)\<rparr>
      in if is_processed s1 agent mid then s1
         else s1\<lparr>processed := processed s1 @ [\<lparr>pr_agent = agent, pr_msg_id = mid, pr_at = now\<rparr>]\<rparr>)"

definition ack :: "env \<Rightarrow> string \<Rightarrow> string list \<Rightarrow> unit dbtx" where
  "ack E agent mids = bindT (drawT (env_clock E)) (\<lambda>now. forT (\<lambda>mid. execT (ack_one agent now mid)) mids)"

definition put_dead :: "string \<Rightarrow> string \<Rightarrow> string \<Rightarrow> dead_letter_entry \<Rightarrow> db \<Rightarrow> db" where
  "put_dead agent mid tenant de s =
     s\<lparr>dead := dead s @ [\<lparr>dd_id = dead_ids s, dd_agent = agent, dd_msg_id = mid, dd_tenant = tenant,
                          dd_entry = de\<rparr>],
       dead_ids := Suc (dead_ids s)\<rparr>"

definition address :: "string \<Rightarrow> actor dbtx" where
  "address a = liftT (case actor_from_str a of Inl e \<Rightarrow> Inl (PyExn ''ValueError'' e) | Inr x \<Rightarrow> Inr x)"

definition nack :: "env \<Rightarrow> string \<Rightarrow> string \<Rightarrow> error_info \<Rightarrow> bool \<Rightarrow> unit dbtx" where
  "nack E agent mid err fin =
     bindT (queryT (\<lambda>s. List.find (\<lambda>i. ib_agent i = agent \<and> ib_msg_id i = mid) (inbox s))) (\<lambda>row.
       case row of
         None \<Rightarrow> retT ()
       | Some i \<Rightarrow>
           let attempts = ib_attempts i + 1 in
           if attempts < env_max_attempts E \<and> \<not> fin
           then execT (\<lambda>s. s\<lparr>inbox := update_where (\<lambda>i. ib_agent i = agent \<and> ib_msg_id i = mid)
                                   (\<lambda>i. i\<lparr>ib_attempts := attempts\<rparr>) (inbox s)\<rparr>)
           else bindT (address agent) (\<lambda>who.
                thenT (execT (put_dead agent mid (ib_tenant i)
                        \<lparr>dl_agent_id = who, dl_msg = ib_msg i, dl_reason = MaxRetries,
                         dl_attempts = attempts, dl_last_error = Some (show_error err)\<rparr>))
               (ack E agent [mid])))"

section \<open>Ending a run\<close>

fun final_kind :: "final \<Rightarrow> string" where
  "final_kind (Complete _) = ''complete''"
| "final_kind (Fail _) = ''fail''"
| "final_kind (Cancel _) = ''cancel''"

fun final_status :: "final \<Rightarrow> run_status" where
  "final_status (Complete _) = COMPLETED"
| "final_status (Fail _) = FAILED"
| "final_status (Cancel _) = CANCELLED"

fun final_entry :: "final \<Rightarrow> new_entry" where
  "final_entry (Complete _) = entry ''run.completed'' (JObj []) (Some ''terminal'')"
| "final_entry (Fail e) = entry ''run.failed''
     (JObj [(''error'', JStr (ei_message e)), (''status'', JStr (ei_code e)), (''error_info'', dump_error e)])
     (Some ''terminal'')"
| "final_entry (Cancel why) = entry ''run.cancelled'' (JObj [(''reason'', JStr why)]) (Some ''terminal'')"

fun final_error :: "final \<Rightarrow> error_info option" where
  "final_error (Fail e) = Some e"
| "final_error _ = None"

definition final_result :: "string \<Rightarrow> final \<Rightarrow> run_result" where
  "final_result rid f = \<lparr>res_run_id = rid, res_status = final_status f, res_output = None,
     res_error = map_option show_error (final_error f), res_metadata = JObj []\<rparr>"

text \<open>The word a parent's signal carries for how its child ended.\<close>

fun final_how :: "final \<Rightarrow> string" where
  "final_how (Complete _) = ''completed''"
| "final_how (Fail _) = ''target_failed''"
| "final_how (Cancel _) = ''target_cancelled''"

definition child_payload :: "final \<Rightarrow> json" where
  "child_payload f = JObj [(''status'', JStr (status_value (final_status f))), (''kind'', JStr (final_how f)),
     (''error'', case final_error f of None \<Rightarrow> JNull | Some e \<Rightarrow> dump_error e)]"

definition end_row :: "final \<Rightarrow> seconds \<Rightarrow> run_row \<Rightarrow> run_row" where
  "end_row f now r = r\<lparr>rr_status := final_status f, rr_worker_id := None, rr_lease_expires := None,
     rr_wake_at := None, rr_wake := None, rr_terminated_at := Some now,
     rr_result := Some (final_result (rr_run_id r) f)\<rparr>"

definition drop_signals :: "string \<Rightarrow> db \<Rightarrow> db" where
  "drop_signals rid s = s\<lparr>signals := delete_where (\<lambda>g. sg_run_id g = rid) (signals s)\<rparr>"

definition end_run :: "string \<Rightarrow> final \<Rightarrow> seconds \<Rightarrow> db \<Rightarrow> db" where
  "end_run rid f now s = drop_signals rid (clear_wakes rid (update_run rid (end_row f now) s))"

definition active_children :: "db \<Rightarrow> string \<Rightarrow> run_row list" where
  "active_children s rid = filter (\<lambda>r. rr_parent r = Some rid \<and> active_run r) (runs s)"

definition tell_parent :: "run_row \<Rightarrow> final \<Rightarrow> unit dbtx" where
  "tell_parent run f = (case rr_parent run of
       Some p \<Rightarrow> if p = [] then retT ()
         else bindT (signalT p (''child:'' @ rr_run_id run) (child_payload f)) (\<lambda>_. retT ())
     | None \<Rightarrow> retT ())"

text \<open>Mail that arrived while the run was finishing gets a new run to read it.\<close>

definition rescue_mail :: "env \<Rightarrow> run_row \<Rightarrow> unit dbtx" where
  "rescue_mail E run =
     bindT (queryT (\<lambda>s. exists_where (\<lambda>i. ib_agent i = rr_agent run) (inbox s))) (\<lambda>leftover.
     bindT (queryT (\<lambda>s. exists_where (\<lambda>r. rr_agent r = rr_agent run \<and> active_run r \<and>
                rr_run_id r \<noteq> rr_run_id run) (runs s))) (\<lambda>other.
       if leftover \<and> \<not> other then
         bindT (case rr_trace run of
             Some t \<Rightarrow> bindT (drawT (env_span E)) (\<lambda>sid. retT (trace_child t sid))
           | None \<Rightarrow> drawT (env_trace E)) (\<lambda>trace.
         bindT (address (rr_agent run)) (\<lambda>who.
         bindT (insert_run E ((basic_spec who (rr_tenant run))\<lparr>rs_trace := Some trace\<rparr>)) (\<lambda>_. retT ())))
       else retT ()))"

text \<open>
  \<open>_terminate\<close> and \<open>_cancel_one\<close> call each other down the tree of runs. The first argument bounds
  the depth, as Python's recursion limit does; \<open>terminate_enough\<close> and \<open>cancel_one_enough\<close>
  (theory \<open>Run_Inv\<close>) show that a depth above the number of active runs is never reached.
\<close>

definition recursion_error :: exn where
  "recursion_error = PyExn ''RecursionError'' []"

fun terminate :: "env \<Rightarrow> nat \<Rightarrow> run_row \<Rightarrow> final \<Rightarrow> unit dbtx"
and cancel_one :: "env \<Rightarrow> nat \<Rightarrow> string \<Rightarrow> string \<Rightarrow> bool dbtx" where
  "terminate E 0 run f = failT recursion_error"
| "terminate E (Suc n) run f =
     bindT (drawT (env_clock E)) (\<lambda>now.
     bindT (append E (rr_run_id run) (final_entry f)) (\<lambda>_.
     thenT (execT (end_run (rr_run_id run) f now))
    (thenT (tell_parent run f)
    (thenT (if final_kind f \<noteq> ''complete'' then
              bindT (queryT (\<lambda>s. active_children s (rr_run_id run))) (\<lambda>kids.
                forT (\<lambda>c. bindT (cancel_one E n (rr_run_id c)
                        (''parent '' @ rr_run_id run @ '' '' @ final_kind f)) (\<lambda>_. retT ())) kids)
            else retT ())
    (if final_kind f = ''complete'' then rescue_mail E run else retT ())))))"
| "cancel_one E n rid reason =
     bindT (queryT (\<lambda>s. find_run s rid)) (\<lambda>found.
       case found of
         None \<Rightarrow> retT False
       | Some run \<Rightarrow>
           if is_terminal (rr_status run) then retT False
           else if rr_status run = RUNNING
           then thenT (execT (update_run rid (\<lambda>r. r\<lparr>rr_cancel_requested := True\<rparr>))) (retT True)
           else thenT (terminate E n run (Cancel reason)) (retT True))"

declare terminate.simps [simp del] cancel_one.simps [simp del]

text \<open>The depth the callers of the transaction have.\<close>

definition depth_of :: "db \<Rightarrow> nat" where
  "depth_of s = active_count s + 2"

definition terminate_run :: "env \<Rightarrow> run_row \<Rightarrow> final \<Rightarrow> unit dbtx" where
  "terminate_run E run f = bindT (queryT depth_of) (\<lambda>n. terminate E n run f)"

definition cancel_run :: "env \<Rightarrow> string \<Rightarrow> string \<Rightarrow> bool dbtx" where
  "cancel_run E rid reason = bindT (queryT depth_of) (\<lambda>n. cancel_one E n rid reason)"

end
