(* ===== verification/Run_Store.thy ===== *)
theory Run_Store
  imports Run_Core
begin

text \<open>
  The operations of \<open>RuntimeStore\<close> (\<open>runtime/persistence/store.py\<close>), each one transaction:
  creating, leasing, heartbeating and committing runs, cancelling a tree, reading the journal, the
  inbox, signals, the follow graph, statistics, erasure and pruning. Rows a query returns without an
  \<open>ORDER BY\<close> come in insertion order, as SQLite's rowid scan gives them.
\<close>

section \<open>Creating and leasing\<close>

definition create_run :: "env \<Rightarrow> run_spec \<Rightarrow> delivery list \<Rightarrow> run_row dbtx" where
  "create_run E spec ds =
     bindT (insert_run E spec) (\<lambda>row.
     thenT (forT (\<lambda>d. bindT (deliver E d False) (\<lambda>_. retT ())) ds) (retT row))"

record lease =
  ls_run_id :: string
  ls_agent :: string
  ls_worker_id :: string
  ls_epoch :: int
  ls_expires_at :: seconds
  ls_attempt :: int
  ls_tenant :: string
  ls_thread_id :: "string option"
  ls_retry_count :: int
  ls_retry_policy :: retry_policy
  ls_supervision :: "supervision option"
  ls_trace :: "trace_context option"
  ls_deadline :: "seconds option"
  ls_started_at :: "seconds option"
  ls_parent :: "string option"

definition lease_of :: "run_row \<Rightarrow> string \<Rightarrow> seconds \<Rightarrow> lease" where
  "lease_of r worker now =
     \<lparr>ls_run_id = rr_run_id r, ls_agent = rr_agent r, ls_worker_id = worker, ls_epoch = rr_epoch r,
      ls_expires_at = (case rr_lease_expires r of None \<Rightarrow> now | Some t \<Rightarrow> t),
      ls_attempt = rr_attempt r, ls_tenant = rr_tenant r, ls_thread_id = rr_thread_id r,
      ls_retry_count = rr_retry_count r, ls_retry_policy = rr_retry_policy r,
      ls_supervision = rr_supervision r, ls_trace = rr_trace r, ls_deadline = rr_deadline r,
      ls_started_at = rr_started_at r, ls_parent = rr_parent r\<rparr>"

definition ephemeral_grace :: seconds where
  "ephemeral_grace = 120"

text \<open>A lease that expired means its worker is presumed dead.\<close>

definition expired :: "seconds \<Rightarrow> run_row \<Rightarrow> bool" where
  "expired now r \<longleftrightarrow> rr_status r = RUNNING \<and>
     (case rr_lease_expires r of None \<Rightarrow> False | Some t \<Rightarrow> t < now)"

definition reclaim_row :: "run_row \<Rightarrow> run_row" where
  "reclaim_row r = r\<lparr>rr_status := PENDING, rr_worker_id := None, rr_lease_expires := None\<rparr>"

definition reclaim_expired :: "seconds \<Rightarrow> db \<Rightarrow> db" where
  "reclaim_expired now s = s\<lparr>runs := update_where (expired now) reclaim_row (runs s)\<rparr>"

definition timer_due :: "seconds \<Rightarrow> run_row \<Rightarrow> bool" where
  "timer_due now r \<longleftrightarrow> rr_status r = SUSPENDED \<and>
     (case rr_wake_at r of None \<Rightarrow> False | Some t \<Rightarrow> t \<le> now)"

definition fire_timers :: "seconds \<Rightarrow> unit dbtx" where
  "fire_timers now = bindT (queryT (\<lambda>s. filter (timer_due now) (runs s))) (\<lambda>rows.
     forT (\<lambda>r. execT (make_pending (rr_run_id r))) rows)"

definition past_deadline :: "seconds \<Rightarrow> run_row \<Rightarrow> bool" where
  "past_deadline now r \<longleftrightarrow> (rr_status r = PENDING \<or> rr_status r = SUSPENDED) \<and>
     (case rr_deadline r of None \<Rightarrow> False | Some t \<Rightarrow> t \<le> now)"

definition deadline_error :: error_info where
  "deadline_error = mk_error ''deadline_exceeded'' ''the run's deadline passed'' False"

text \<open>The rows are read once; each is then terminated with the row as it was read.\<close>

definition expire_deadlines :: "env \<Rightarrow> seconds \<Rightarrow> unit dbtx" where
  "expire_deadlines E now = bindT (queryT (\<lambda>s. filter (past_deadline now) (runs s))) (\<lambda>rows.
     forT (\<lambda>r. terminate_run E r (Fail deadline_error)) rows)"

definition ended_before :: "db \<Rightarrow> seconds \<Rightarrow> string \<Rightarrow> bool" where
  "ended_before s t rid = exists_where (\<lambda>r. rr_run_id r = rid \<and>
     (case rr_terminated_at r of None \<Rightarrow> False | Some d \<Rightarrow> d < t)) (runs s)"

definition drop_ephemeral :: "seconds \<Rightarrow> db \<Rightarrow> db" where
  "drop_ephemeral now s = s\<lparr>events := delete_where
     (\<lambda>e. ev_ephemeral e \<and> ended_before s (now - ephemeral_grace) (ev_run_id e)) (events s)\<rparr>"

text \<open>Highest priority first, then oldest: the order within a tenant.\<close>

definition claim_key :: "run_row \<Rightarrow> int \<times> seconds \<times> string" where
  "claim_key r = (- rr_priority r, rr_enqueued_at r, rr_run_id r)"

text \<open>\<open>ROW_NUMBER() OVER (PARTITION BY tenant ORDER BY priority DESC, enqueued_at, run_id)\<close>.\<close>

definition tenant_rank :: "run_row list \<Rightarrow> run_row \<Rightarrow> nat" where
  "tenant_rank rs r = length (filter (\<lambda>q. rr_tenant q = rr_tenant r \<and> claim_key q < claim_key r) rs) + 1"

definition pending_runs :: "db \<Rightarrow> run_row list" where
  "pending_runs s = filter (\<lambda>r. rr_status r = PENDING) (runs s)"

definition candidates :: "db \<Rightarrow> int \<Rightarrow> string list" where
  "candidates s capacity =
     (let ps = pending_runs s in
      map rr_run_id (take (nat capacity) (sort_key (\<lambda>r. (tenant_rank ps r, claim_key r)) ps)))"

definition claim_row :: "string \<Rightarrow> seconds \<Rightarrow> seconds \<Rightarrow> run_row \<Rightarrow> run_row" where
  "claim_row worker expires now r =
     r\<lparr>rr_status := RUNNING, rr_worker_id := Some worker, rr_lease_expires := Some expires,
       rr_epoch := rr_epoch r + 1, rr_attempt := rr_attempt r + 1,
       rr_started_at := (case rr_started_at r of None \<Rightarrow> Some now | Some t \<Rightarrow> Some t)\<rparr>"

definition assertion_error :: exn where
  "assertion_error = PyExn ''AssertionError'' []"

definition claim :: "string \<Rightarrow> seconds \<Rightarrow> seconds \<Rightarrow> string \<Rightarrow> lease dbtx" where
  "claim worker expires now rid =
     thenT (execT (update_run rid (claim_row worker expires now)))
    (bindT (queryT (\<lambda>s. find_run s rid)) (\<lambda>row.
       case row of None \<Rightarrow> failT assertion_error | Some r \<Rightarrow> retT (lease_of r worker now)))"

text \<open>What \<open>lease\<close> does before it claims anything: the store's own housekeeping.\<close>

definition sweep :: "env \<Rightarrow> seconds \<Rightarrow> unit dbtx" where
  "sweep E now =
     thenT (execT (reclaim_expired now))
    (thenT (fire_timers now)
    (thenT (expire_deadlines E now)
           (execT (drop_ephemeral now))))"

definition lease_runs :: "env \<Rightarrow> string \<Rightarrow> int \<Rightarrow> seconds \<Rightarrow> seconds \<Rightarrow> lease list dbtx" where
  "lease_runs E worker capacity lease_s now =
     thenT (sweep E now)
    (if capacity \<le> 0 then retT []
     else bindT (queryT (\<lambda>s. candidates s capacity)) (\<lambda>ids.
          mapT (claim worker (now + lease_s) now) ids))"

datatype heartbeat_result = HB_OK | HB_CANCEL_REQUESTED | HB_DEADLINE | HB_LOST

definition holds_lease :: "lease \<Rightarrow> run_row \<Rightarrow> bool" where
  "holds_lease l r \<longleftrightarrow> rr_status r = RUNNING \<and> rr_epoch r = ls_epoch l \<and>
     rr_worker_id r = Some (ls_worker_id l)"

definition heartbeat :: "lease \<Rightarrow> seconds \<Rightarrow> seconds \<Rightarrow> heartbeat_result dbtx" where
  "heartbeat l lease_s now =
     bindT (queryT (\<lambda>s. List.find (\<lambda>r. rr_run_id r = ls_run_id l \<and> holds_lease l r) (runs s))) (\<lambda>row.
       case row of
         None \<Rightarrow> retT HB_LOST
       | Some r \<Rightarrow>
           thenT (execT (update_run (ls_run_id l) (\<lambda>r. r\<lparr>rr_lease_expires := Some (now + lease_s)\<rparr>)))
          (retT (if rr_cancel_requested r then HB_CANCEL_REQUESTED
                 else case rr_deadline r of
                        Some d \<Rightarrow> if d \<le> now then HB_DEADLINE else HB_OK
                      | None \<Rightarrow> HB_OK)))"

section \<open>Committing\<close>

definition fenced_run :: "lease \<Rightarrow> run_row dbtx" where
  "fenced_run l = bindT (queryT (\<lambda>s. find_run s (ls_run_id l))) (\<lambda>row.
     case row of
       None \<Rightarrow> failT (LeaseLostError (ls_run_id l) (Some (ls_epoch l)))
     | Some r \<Rightarrow> if holds_lease l r then retT r
                  else failT (LeaseLostError (ls_run_id l) (Some (ls_epoch l))))"

record nack_spec =
  nk_msg_id :: string
  nk_error :: error_info
  nk_final :: bool

record signal_spec =
  ss_run_id :: string
  ss_name :: string
  ss_payload :: json

record spawn_spec =
  sw_effect_id :: string
  sw_child :: run_spec
  sw_boot :: message

record commit =
  cm_entries :: "new_entry list"
  cm_ack :: "string list"
  cm_nack :: "nack_spec list"
  cm_deliveries :: "delivery list"
  cm_signals :: "signal_spec list"
  cm_spawns :: "spawn_spec list"
  cm_outcome :: "outcome option"

definition empty_commit :: commit where
  "empty_commit = \<lparr>cm_entries = [], cm_ack = [], cm_nack = [], cm_deliveries = [], cm_signals = [],
     cm_spawns = [], cm_outcome = None\<rparr>"

record run_handle =
  rh_run_id :: string
  rh_agent_id :: actor
  rh_parent_run :: string
  rh_boot_correlation_id :: "string option"

record commit_result =
  cr_seqs :: "int list"
  cr_spawned :: "(string \<times> run_handle) list"
  cr_deliveries :: "deliver_result list"
  cr_resumed :: bool
  cr_status :: "run_status option"

text \<open>\<open>_suspend\<close>: the names the run waits on, parked unless one of them has already arrived.\<close>

definition wake_names :: "wakeup \<Rightarrow> string list" where
  "wake_names w = (case wk_signals w of None \<Rightarrow> [] | Some ns \<Rightarrow> ns) @
     (if wk_kind w = WakeChildDone then
        (case wk_child_run w of Some c \<Rightarrow> if c = [] then [] else [''child:'' @ c] | None \<Rightarrow> [])
      else [])"

definition park_row :: "wakeup option \<Rightarrow> seconds option \<Rightarrow> run_row \<Rightarrow> run_row" where
  "park_row w due r = r\<lparr>rr_status := SUSPENDED, rr_worker_id := None, rr_lease_expires := None,
     rr_wake := w, rr_wake_at := due\<rparr>"

definition add_wake :: "string \<Rightarrow> string \<Rightarrow> db \<Rightarrow> db" where
  "add_wake rid n s = (if (rid, n) \<in> set (wakes s) then s else s\<lparr>wakes := wakes s @ [(rid, n)]\<rparr>)"

definition park :: "string \<Rightarrow> wakeup \<Rightarrow> db \<Rightarrow> db" where
  "park rid w s = foldl (\<lambda>s n. add_wake rid n s)
     (clear_wakes rid (update_run rid (park_row (Some w) (wk_at w)) s)) (wake_names w)"

definition has_signal :: "db \<Rightarrow> string \<Rightarrow> string list \<Rightarrow> bool" where
  "has_signal s rid ns = exists_where (\<lambda>g. sg_run_id g = rid \<and> sg_name g \<in> set ns) (signals s)"

definition suspend :: "env \<Rightarrow> string \<Rightarrow> wakeup \<Rightarrow> (run_status \<times> bool) dbtx" where
  "suspend E rid w =
     thenT (execT (park rid w))
    (bindT (queryT (\<lambda>s. wake_names w \<noteq> [] \<and> has_signal s rid (wake_names w))) (\<lambda>ready.
     bindT (case wk_at w of
         Some t \<Rightarrow> if ready then retT True else bindT (drawT (env_clock E)) (\<lambda>now. retT (t \<le> now))
       | None \<Rightarrow> retT ready) (\<lambda>ready.
     if ready then thenT (execT (make_pending rid)) (retT (PENDING, True))
     else retT (SUSPENDED, False))))"

definition retry_row :: "seconds \<Rightarrow> run_row \<Rightarrow> run_row" where
  "retry_row due r = (park_row None (Some due) r)\<lparr>rr_retry_count := rr_retry_count r + 1\<rparr>"

definition retry :: "env \<Rightarrow> string \<Rightarrow> error_info \<Rightarrow> seconds \<Rightarrow> unit dbtx" where
  "retry E rid err delay =
     bindT (drawT (env_clock E)) (\<lambda>now.
     thenT (execT (update_run rid (retry_row (now + max delay 0))))
    (thenT (execT (clear_wakes rid))
    (bindT (append E rid (entry ''run.retrying''
        (JObj [(''error'', dump_error err), (''delay_s'', JNum delay)]) None)) (\<lambda>_. retT ()))))"

definition tree_active :: "db \<Rightarrow> string \<Rightarrow> nat" where
  "tree_active s tree = length (filter (\<lambda>r. rr_tree_id r = tree \<and> active_run r) (runs s))"

definition headcount_error :: "supervision \<Rightarrow> nat \<Rightarrow> actor \<Rightarrow> exn" where
  "headcount_error sv n who = KernelExn BudgetExhaustedError
     (''run tree '' @ sv_run_id sv @ '' is at its headcount cap ('' @ show_nat n @ ''/'' @
      show_int (sv_max_agents sv) @ '' agents); cannot spawn '' @ actor_str who) None"

definition check_headcount :: "run_spec \<Rightarrow> unit dbtx" where
  "check_headcount spec = (case rs_supervision spec of
       None \<Rightarrow> retT ()
     | Some sv \<Rightarrow> bindT (queryT (\<lambda>s. tree_active s (sv_run_id sv))) (\<lambda>n.
         guardT (int n < sv_max_agents sv) (headcount_error sv n (rs_agent spec))))"

definition handle :: "string \<Rightarrow> actor \<Rightarrow> string \<Rightarrow> message \<Rightarrow> run_handle" where
  "handle rid agent parent boot = \<lparr>rh_run_id = rid, rh_agent_id = agent, rh_parent_run = parent,
     rh_boot_correlation_id = Some (msg_correlation_id boot)\<rparr>"

definition spawn :: "env \<Rightarrow> run_row \<Rightarrow> spawn_spec \<Rightarrow> run_handle dbtx" where
  "spawn E parent sw =
     bindT (queryT (\<lambda>s. List.find (\<lambda>x. sp_effect_id x = sw_effect_id sw) (spawns s))) (\<lambda>existing.
       case existing of
         Some x \<Rightarrow>
           bindT (queryT (\<lambda>s. find_run s (sp_child_run_id x))) (\<lambda>child.
             case child of
               None \<Rightarrow> failT assertion_error
             | Some c \<Rightarrow> bindT (address (rr_agent c)) (\<lambda>who.
                 retT (handle (sp_child_run_id x) who (rr_run_id parent) (sw_boot sw))))
       | None \<Rightarrow>
           thenT (check_headcount (sw_child sw))
          (bindT (queryT (\<lambda>s. accounts_of_run s (rr_run_id parent))) (\<lambda>inherited.
           bindT (insert_run E ((sw_child sw)\<lparr>rs_parent := Some (rr_run_id parent),
               rs_accounts := fromkeys (rs_accounts (sw_child sw) @ inherited)\<rparr>)) (\<lambda>row.
           bindT (deliver E \<lparr>dv_agent = rs_agent (sw_child sw), dv_msg = sw_boot sw,
               dv_tenant = rs_tenant (sw_child sw), dv_accounts = []\<rparr> False) (\<lambda>_.
           thenT (execT (\<lambda>s. s\<lparr>spawns := spawns s @ [\<lparr>sp_effect_id = sw_effect_id sw,
               sp_child_run_id = rr_run_id row\<rparr>]\<rparr>))
          (retT (handle (rr_run_id row) (rs_agent (sw_child sw)) (rr_run_id parent) (sw_boot sw))))))))"

text \<open>One spawn of a commit, with the parent's journal entry for it.\<close>

definition spawn_logged :: "env \<Rightarrow> run_row \<Rightarrow> spawn_spec \<Rightarrow> ((string \<times> run_handle) \<times> int) dbtx" where
  "spawn_logged E run sw =
     bindT (spawn E run sw) (\<lambda>h.
     bindT (append E (rr_run_id run) (entry ''child.spawned''
         (JObj [(''child_run_id'', JStr (rh_run_id h)), (''child_agent'', JStr (actor_str (rh_agent_id h)))])
         (Some (''spawn:'' @ sw_effect_id sw)))) (\<lambda>sq.
     retT ((sw_effect_id sw, h), sq)))"

text \<open>A cancel that arrived while the attempt was working is honoured rather than sleep or retry.\<close>

definition settle_outcome :: "run_row \<Rightarrow> outcome option \<Rightarrow> outcome option" where
  "settle_outcome run out = (case out of
       Some (Suspend _) \<Rightarrow> if rr_cancel_requested run then Some (Final (Cancel ''cancelled'')) else out
     | Some (Retry _ _) \<Rightarrow> if rr_cancel_requested run then Some (Final (Cancel ''cancelled'')) else out
     | _ \<Rightarrow> out)"

definition apply_outcome :: "env \<Rightarrow> run_row \<Rightarrow> outcome option \<Rightarrow> (run_status \<times> bool \<times> int list) dbtx" where
  "apply_outcome E run out = (case out of
       None \<Rightarrow> retT (rr_status run, False, [])
     | Some (Suspend w) \<Rightarrow>
         bindT (suspend E (rr_run_id run) w) (\<lambda>(st, resumed).
           if st = SUSPENDED
           then bindT (append E (rr_run_id run) (entry ''run.suspended''
                   (JObj [(''wake'', dump_wakeup w)]) None)) (\<lambda>sq. retT (st, resumed, [sq]))
           else retT (st, resumed, []))
     | Some (Retry err delay) \<Rightarrow>
         thenT (retry E (rr_run_id run) err delay) (retT (SUSPENDED, False, []))
     | Some (Final f) \<Rightarrow>
         thenT (terminate_run E run f) (retT (final_status f, False, [])))"

text \<open>Everything of a commit but its outcome, in the order of the code.\<close>

definition commit_effects ::
  "env \<Rightarrow> run_row \<Rightarrow> commit \<Rightarrow> (int list \<times> ((string \<times> run_handle) \<times> int) list \<times> deliver_result list) dbtx" where
  "commit_effects E run c =
     bindT (mapT (append E (rr_run_id run)) (cm_entries c)) (\<lambda>seqs.
     thenT (ack E (rr_agent run) (cm_ack c))
    (thenT (forT (\<lambda>k. nack E (rr_agent run) (nk_msg_id k) (nk_error k) (nk_final k)) (cm_nack c))
    (bindT (mapT (spawn_logged E run) (cm_spawns c)) (\<lambda>sps.
     bindT (mapT (\<lambda>d. deliver E d True) (cm_deliveries c)) (\<lambda>drs.
     thenT (forT (\<lambda>g. bindT (signalT (ss_run_id g) (ss_name g) (ss_payload g)) (\<lambda>_. retT ())) (cm_signals c))
    (retT (seqs, sps, drs)))))))"

definition commit_run :: "env \<Rightarrow> lease \<Rightarrow> commit \<Rightarrow> commit_result dbtx" where
  "commit_run E l c =
     bindT (fenced_run l) (\<lambda>run.
     bindT (commit_effects E run c) (\<lambda>(seqs, sps, drs).
     bindT (apply_outcome E run (settle_outcome run (cm_outcome c))) (\<lambda>(st, resumed, more).
     retT \<lparr>cr_seqs = seqs @ map snd sps @ more, cr_spawned = map fst sps, cr_deliveries = drs,
           cr_resumed = resumed, cr_status = Some st\<rparr>)))"

section \<open>Reading runs and cancelling trees\<close>

definition get_run :: "string \<Rightarrow> run_row option dbtx" where
  "get_run rid = queryT (\<lambda>s. find_run s rid)"

definition by_age :: "run_row list \<Rightarrow> run_row list" where
  "by_age rs = sort_key (\<lambda>r. (rr_enqueued_at r, rr_run_id r)) rs"

definition matches :: "'a option \<Rightarrow> 'a \<Rightarrow> bool" where
  "matches want x = (case want of None \<Rightarrow> True | Some w \<Rightarrow> x = w)"

definition find_runs ::
  "string option \<Rightarrow> actor option \<Rightarrow> string option \<Rightarrow> string option \<Rightarrow> bool \<Rightarrow> run_row list dbtx" where
  "find_runs thread agent wake_signal tenant active_only = queryT (\<lambda>s. by_age (filter (\<lambda>r.
       (case thread of None \<Rightarrow> True | Some t \<Rightarrow> rr_thread_id r = Some t) \<and>
       matches (map_option actor_str agent) (rr_agent r) \<and>
       matches tenant (rr_tenant r) \<and>
       (case wake_signal of None \<Rightarrow> True
        | Some n \<Rightarrow> rr_status r = SUSPENDED \<and> (rr_run_id r, n) \<in> set (wakes s)) \<and>
       (active_only \<longrightarrow> active_run r)) (runs s)))"

definition children :: "string \<Rightarrow> run_row list dbtx" where
  "children rid = queryT (\<lambda>s. by_age (filter (\<lambda>r. rr_parent r = Some rid) (runs s)))"

definition child_ids :: "db \<Rightarrow> string \<Rightarrow> string list" where
  "child_ids s rid = map rr_run_id (filter (\<lambda>r. rr_parent r = Some rid) (runs s))"

text \<open>
  The breadth-first walk of \<open>request_cancel\<close>: \<open>None\<close> is a walk that never ends, which a cycle of
  parents would give.
\<close>

partial_function (option) walk :: "(string \<Rightarrow> string list) \<Rightarrow> string list \<Rightarrow> string list \<Rightarrow> string list option" where
  "walk kids frontier order =
     (case frontier of
        [] \<Rightarrow> Some order
      | c # rest \<Rightarrow> walk kids (rest @ kids c) (order @ [c]))"

declare walk.simps [code]

definition cancel_order :: "db \<Rightarrow> string \<Rightarrow> bool \<Rightarrow> string list option" where
  "cancel_order s rid cascade = walk (if cascade then child_ids s else (\<lambda>_. [])) [rid] []"

fun cancel_all :: "env \<Rightarrow> string \<Rightarrow> string list \<Rightarrow> string list dbtx" where
  "cancel_all E reason [] = retT []"
| "cancel_all E reason (rid # rids) =
     bindT (cancel_run E rid reason) (\<lambda>hit.
     bindT (cancel_all E reason rids) (\<lambda>rest. retT (if hit then rid # rest else rest)))"

definition request_cancel :: "env \<Rightarrow> string \<Rightarrow> string \<Rightarrow> bool \<Rightarrow> db \<Rightarrow> (exn + string list \<times> db) option" where
  "request_cancel E rid reason cascade s =
     map_option (\<lambda>order. cancel_all E reason (rev order) s) (cancel_order s rid cascade)"

section \<open>The journal\<close>

definition read_events :: "string \<Rightarrow> int \<Rightarrow> int option \<Rightarrow> bool \<Rightarrow> run_log_entry list dbtx" where
  "read_events rid from_seq limit durable_only = queryT (\<lambda>s.
     let rows = sort_key ev_seq (filter (\<lambda>e. ev_run_id e = rid \<and> from_seq \<le> ev_seq e \<and>
                  (durable_only \<longrightarrow> \<not> ev_ephemeral e)) (events s))
     in map ev_entry (case limit of None \<Rightarrow> rows | Some n \<Rightarrow> limit_rows n rows))"

definition last_seqT :: "string \<Rightarrow> int dbtx" where
  "last_seqT rid = queryT (\<lambda>s. last_seq s rid)"

definition annotate :: "env \<Rightarrow> string \<Rightarrow> new_entry list \<Rightarrow> int list dbtx" where
  "annotate E rid es =
     bindT (queryT (\<lambda>s. find_run s rid)) (\<lambda>run.
     thenT (guardT (run \<noteq> None) (PyExn ''KeyError'' rid))
    (mapT (append E rid) es))"

definition append_ephemeral :: "env \<Rightarrow> lease \<Rightarrow> new_entry list \<Rightarrow> unit dbtx" where
  "append_ephemeral E l es =
     bindT (fenced_run l) (\<lambda>run.
     forT (\<lambda>e. bindT (append E (rr_run_id run) (e\<lparr>ne_ephemeral := True, ne_dedup := None\<rparr>)) (\<lambda>_. retT ())) es)"

section \<open>The inbox, signals and the follow graph\<close>

definition drain :: "actor \<Rightarrow> int \<Rightarrow> message list dbtx" where
  "drain agent limit = queryT (\<lambda>s. map ib_msg (limit_rows limit
     (sort_key (\<lambda>i. (ib_sender i, ib_id i)) (filter (\<lambda>i. ib_agent i = actor_str agent) (inbox s)))))"

definition pending_count :: "actor \<Rightarrow> nat dbtx" where
  "pending_count agent = queryT (\<lambda>s. length (filter (\<lambda>i. ib_agent i = actor_str agent) (inbox s)))"

definition working :: "actor list \<Rightarrow> actor list dbtx" where
  "working agents = (if agents = [] then retT []
     else bindT (queryT (\<lambda>s. fromkeys (map rr_agent (filter (\<lambda>r.
            (rr_status r = PENDING \<or> rr_status r = RUNNING) \<and> rr_agent r \<in> set (map actor_str agents)) (runs s)))))
          (\<lambda>rows. mapT address rows))"

definition dead_letters :: "actor \<Rightarrow> dead_letter_entry list dbtx" where
  "dead_letters agent = queryT (\<lambda>s. map dd_entry (filter (\<lambda>d. dd_agent d = actor_str agent) (dead s)))"

definition redrive :: "env \<Rightarrow> actor \<Rightarrow> string \<Rightarrow> bool dbtx" where
  "redrive E agent mid =
     bindT (queryT (\<lambda>s. List.find (\<lambda>d. dd_agent d = actor_str agent \<and> dd_msg_id d = mid) (dead s))) (\<lambda>row.
       case row of
         None \<Rightarrow> retT False
       | Some d \<Rightarrow>
           thenT (execT (\<lambda>s. s\<lparr>dead := delete_where (\<lambda>x. dd_id x = dd_id d) (dead s),
              processed := delete_where (\<lambda>p. pr_agent p = actor_str agent \<and> pr_msg_id p = mid) (processed s)\<rparr>))
          (bindT (deliver E \<lparr>dv_agent = agent, dv_msg = dl_msg (dd_entry d), dv_tenant = dd_tenant d,
                             dv_accounts = []\<rparr> True) (\<lambda>_.
           retT True)))"

definition consume :: "string \<Rightarrow> string \<Rightarrow> string \<Rightarrow> json option dbtx" where
  "consume rid name claim_id =
     bindT (queryT (\<lambda>s. List.find (\<lambda>c. cl_claim_id c = claim_id) (claims s))) (\<lambda>claimed.
       case claimed of
         Some c \<Rightarrow> retT (Some (cl_payload c))
       | None \<Rightarrow>
           bindT (queryT (\<lambda>s. List.find (\<lambda>g. sg_run_id g = rid \<and> sg_name g = name) (signals s))) (\<lambda>row.
             case row of
               None \<Rightarrow> retT None
             | Some g \<Rightarrow>
                 thenT (execT (\<lambda>s. s\<lparr>signals := delete_where (\<lambda>x. sg_id x = sg_id g) (signals s),
                     claims := claims s @ [\<lparr>cl_claim_id = claim_id, cl_payload = sg_payload g\<rparr>]\<rparr>))
                (retT (Some (sg_payload g)))))"

definition follow :: "actor \<Rightarrow> string \<Rightarrow> unit dbtx" where
  "follow follower topic = execT (\<lambda>s. if (topic, actor_str follower) \<in> set (edges s) then s
     else s\<lparr>edges := edges s @ [(topic, actor_str follower)]\<rparr>)"

definition unfollow :: "actor \<Rightarrow> string \<Rightarrow> unit dbtx" where
  "unfollow follower topic = execT (\<lambda>s. s\<lparr>edges := delete_where (\<lambda>e. e = (topic, actor_str follower)) (edges s)\<rparr>)"

definition followers_of :: "string \<Rightarrow> actor list dbtx" where
  "followers_of topic = bindT (queryT (\<lambda>s. sort (map snd (filter (\<lambda>e. fst e = topic) (edges s))))) (mapT address)"

section \<open>Operations\<close>

record store_stats =
  st_pending :: nat
  st_running :: nat
  st_suspended :: nat
  st_dead_letters :: nat
  st_oldest_lease_age :: seconds

definition status_count :: "db \<Rightarrow> run_status \<Rightarrow> nat" where
  "status_count s st = length (filter (\<lambda>r. rr_status r = st) (runs s))"

definition min_opt :: "seconds list \<Rightarrow> seconds option" where
  "min_opt ts = (case ts of [] \<Rightarrow> None | t # ts' \<Rightarrow> Some (foldl min t ts'))"

definition stats :: "env \<Rightarrow> store_stats dbtx" where
  "stats E = bindT (drawT (env_clock E)) (\<lambda>now. queryT (\<lambda>s.
     \<lparr>st_pending = status_count s PENDING, st_running = status_count s RUNNING,
      st_suspended = status_count s SUSPENDED, st_dead_letters = length (dead s),
      st_oldest_lease_age =
        (case min_opt (List.map_filter rr_started_at (filter (\<lambda>r. rr_status r = RUNNING) (runs s))) of
           None \<Rightarrow> 0 | Some t \<Rightarrow> now - t)\<rparr>))"

definition tree_spend :: "string \<Rightarrow> spend dbtx" where
  "tree_spend rid = queryT (\<lambda>s. case find_run s rid of
       None \<Rightarrow> no_spend
     | Some r \<Rightarrow> (case List.find (\<lambda>d. sd_tree_id d = rr_tree_id r) (spends s) of
           None \<Rightarrow> no_spend
         | Some d \<Rightarrow> \<lparr>sn_tokens = sd_tokens d, sn_cost_usd = of_int (sd_cost_micros d) / 1000000,
                      sn_turns = sd_turns d\<rparr>))"

text \<open>What is deleted with a run: its log, its waits and its signals.\<close>

definition purge_run :: "string \<Rightarrow> db \<Rightarrow> db" where
  "purge_run rid s = drop_signals rid (clear_wakes rid
     (s\<lparr>events := delete_where (\<lambda>e. ev_run_id e = rid) (events s)\<rparr>))"

definition purge_refs :: "string \<Rightarrow> db \<Rightarrow> db" where
  "purge_refs rid s = s\<lparr>spawns := delete_where (\<lambda>x. sp_child_run_id x = rid) (spawns s),
     run_accounts := delete_where (\<lambda>ra. fst ra = rid) (run_accounts s)\<rparr>"

definition delete_account :: "string \<Rightarrow> db \<Rightarrow> db" where
  "delete_account n s = s\<lparr>accounts := delete_where (\<lambda>a. ac_account a = n) (accounts s)\<rparr>"

definition delete_channel :: "string \<Rightarrow> db \<Rightarrow> db" where
  "delete_channel c s = delete_account (''channel:'' @ c)
     (s\<lparr>reactions := delete_where (\<lambda>x. rx_channel x = c) (reactions s),
        entries := delete_where (\<lambda>x. en_channel x = c) (entries s),
        members := delete_where (\<lambda>x. mb_channel x = c) (members s),
        channels := delete_where (\<lambda>x. ch_channel x = c) (channels s)\<rparr>)"

definition drop_dead_trees :: "db \<Rightarrow> db" where
  "drop_dead_trees s = s\<lparr>spends := delete_where (\<lambda>d. sd_tree_id d \<notin> set (map rr_tree_id (runs s))) (spends s)\<rparr>"

definition purge_mail :: "string \<Rightarrow> db \<Rightarrow> db" where
  "purge_mail a s = (if exists_where (\<lambda>r. rr_agent r = a) (runs s) then s
     else s\<lparr>inbox := delete_where (\<lambda>i. ib_agent i = a) (inbox s),
            processed := delete_where (\<lambda>p. pr_agent p = a) (processed s),
            dead := delete_where (\<lambda>d. dd_agent d = a) (dead s)\<rparr>)"

definition in_erasure :: "string \<Rightarrow> string option \<Rightarrow> actor option \<Rightarrow> run_row \<Rightarrow> bool" where
  "in_erasure tenant thread agent r \<longleftrightarrow> rr_tenant r = tenant \<and>
     (case thread of None \<Rightarrow> True | Some t \<Rightarrow> rr_thread_id r = Some t) \<and>
     (case agent of None \<Rightarrow> True | Some a \<Rightarrow> rr_agent r = actor_str a)"

definition erase :: "string \<Rightarrow> string option \<Rightarrow> actor option \<Rightarrow> nat dbtx" where
  "erase tenant thread agent =
     bindT (queryT (\<lambda>s. filter (in_erasure tenant thread agent) (runs s))) (\<lambda>rows.
     thenT (forT (\<lambda>r. execT (\<lambda>s. purge_refs (rr_run_id r) (purge_run (rr_run_id r) s))) rows)
    (thenT (execT (\<lambda>s. s\<lparr>runs := delete_where (in_erasure tenant thread agent) (runs s)\<rparr>))
    (thenT (if thread = None \<and> agent = None then
              bindT (queryT (\<lambda>s. filter (\<lambda>c. ch_tenant c = tenant) (channels s))) (\<lambda>chs.
              thenT (forT (\<lambda>c. execT (delete_channel (ch_channel c))) chs)
                    (execT (delete_account (''tenant:'' @ tenant))))
            else retT ())
    (thenT (execT drop_dead_trees)
    (thenT (case agent of None \<Rightarrow> retT () | Some a \<Rightarrow> execT (delete_account (''agent:'' @ actor_str a)))
    (thenT (forT (\<lambda>a. execT (purge_mail a))
             (remdups (map rr_agent rows @ (case agent of None \<Rightarrow> [] | Some a \<Rightarrow> [actor_str a]))))
    (retT (length rows))))))))"

definition prunable :: "seconds \<Rightarrow> run_row \<Rightarrow> bool" where
  "prunable cutoff r \<longleftrightarrow> (case rr_terminated_at r of None \<Rightarrow> False | Some t \<Rightarrow> t < cutoff)"

definition prune :: "seconds \<Rightarrow> nat dbtx" where
  "prune cutoff =
     thenT (execT (\<lambda>s. s\<lparr>processed := delete_where (\<lambda>p. pr_at p < cutoff) (processed s)\<rparr>))
    (bindT (queryT (\<lambda>s. filter (prunable cutoff) (runs s))) (\<lambda>old.
     thenT (forT (\<lambda>r. execT (\<lambda>s. (purge_run (rr_run_id r) s)
              \<lparr>runs := delete_where (\<lambda>q. rr_run_id q = rr_run_id r) (runs s)\<rparr>)) old)
    (thenT (execT drop_dead_trees) (retT (length old)))))"

end
