(* ===== verification/Run_Frames.thy ===== *)
theory Run_Frames
  imports Run_Store
begin

text \<open>
  What the store's operations need of a relation between the tables before and after, so that they
  follow it: the locale \<open>store_frame\<close> names the primitive changes a transaction is built from, and
  shows the operations that only use those to follow the relation; \<open>run_frame\<close> adds the changes that
  end, reclaim and cancel runs. The invariants (theory \<open>Run_Inv\<close>) and the monotone relations
  (theory \<open>Run_Fence\<close>) are interpretations.
\<close>

lemma dedup_draws [simp]: "find_dedup (s\<lparr>draws := n\<rparr>) = find_dedup s"
  by (simp add: find_dedup_def fun_eq_iff split: option.splits)

lemma last_seq_draws [simp]: "last_seq (s\<lparr>draws := n\<rparr>) = last_seq s"
  by (simp add: last_seq_def fun_eq_iff)

section \<open>Sending, spawning and journalling\<close>

locale store_frame = frame R for R :: "db \<Rightarrow> db \<Rightarrow> bool" +
  assumes drawn: "R s (s\<lparr>draws := n\<rparr>)"
    and appended: "find_dedup s rid (ne_dedup e) = None \<Longrightarrow>
      R s (s\<lparr>events := events s @ [log_row rid (last_seq s rid + 1) e now]\<rparr>)"
    and spent: "R s (add_spend rid sp s)"
    and inserted: "\<not> violates_unique s rid (rs_thread_id spec) \<Longrightarrow>
      R s (s\<lparr>runs := runs s @ [fresh_row spec rid now], run_accounts := ras\<rparr>)"
    and put: "\<not> in_inbox s (actor_str (dv_agent d)) (msg_id (dv_msg d)) \<Longrightarrow>
      \<not> is_processed s (actor_str (dv_agent d)) (msg_id (dv_msg d)) \<Longrightarrow> R s (put_inbox d s)"
    and woken: "R s (make_pending rid s)"
    and signalled: "R s (snd (signal_run rid name payload s))"
    and acked: "R s (ack_one agent now mid s)"
    and attempted: "R s (s\<lparr>inbox := update_where P (\<lambda>i. i\<lparr>ib_attempts := k\<rparr>) (inbox s)\<rparr>)"
    and buried: "R s (put_dead agent mid tenant de s)"
    and spawned: "R s (s\<lparr>spawns := spawns s @ [x]\<rparr>)"
begin

lemma draw_rule: "stable R (drawT f)"
  by (auto simp: stable_def drawn)

lemma signal_rule: "stable R (signalT rid name payload)"
proof (rule stableI)
  fix s
  show "wp (signalT rid name payload) (\<lambda>_. R s) s"
    using signalled [of s rid name payload]
    by (cases "signal_run rid name payload s") (simp add: wp_def signalT_def)
qed

lemma address_rule: "stable R (address a)"
  unfolding address_def by (rule lift)

lemma append_rule: "stable R (append E rid e)"
proof (rule stableI)
  fix s
  show "wp (append E rid e) (\<lambda>_. R s) s"
  proof (cases "find_dedup s rid (ne_dedup e)")
    case None
    define t where "t = s\<lparr>draws := Suc (draws s)\<rparr>"
    define u where "u = t\<lparr>events := events t @ [log_row rid (last_seq t rid + 1) e (env_clock E (draws s))]\<rparr>"
    have "R s u"
      using drawn [of s] appended [of t rid e] None R_trans unfolding t_def u_def by fastforce
    then have "R s (add_spend rid sp u)" for sp using spent R_trans by blast
    then show ?thesis using None \<open>R s u\<close>
      by (simp add: append_def t_def u_def split: option.splits)
  qed (simp add: append_def R_refl)
qed

lemma insert_rule: "stable R (insert_run E spec)"
proof (rule stableI)
  fix s
  have "R s (s\<lparr>draws := n, runs := runs s @ [fresh_row spec rid now], run_accounts := ras\<rparr>)"
    if "\<not> violates_unique (s\<lparr>draws := n\<rparr>) rid (rs_thread_id spec)" for n rid now ras
    using drawn [of s n] inserted [OF that] R_trans by fastforce
  then show "wp (insert_run E spec) (\<lambda>_. R s) s"
    by (auto simp: insert_run_def split: option.splits)
qed

lemma accept_rule: "stable R (accept d)"
  by (rule stableI) (auto simp: accept_def Let_def R_refl put)

lemmas primitive_rules = rules draw_rule signal_rule address_rule append_rule insert_rule accept_rule

lemma wake_agent_rule: "stable R (wake_agent E d)"
  unfolding wake_agent_def by (intro primitive_rules stable_exec woken)

lemma deliver_rule: "stable R (deliver E d wake)"
  unfolding deliver_def by (intro primitive_rules wake_agent_rule)

lemma ack_rule: "stable R (ack E agent mids)"
  unfolding ack_def by (intro primitive_rules stable_exec acked)

lemma nack_rule: "stable R (nack E agent mid err fin)"
  unfolding nack_def by (intro primitive_rules stable_exec attempted buried ack_rule)

lemma headcount_rule: "stable R (check_headcount spec)"
  unfolding check_headcount_def by (intro primitive_rules)

lemma spawn_rule: "stable R (spawn E parent sw)"
  unfolding spawn_def by (intro primitive_rules headcount_rule deliver_rule stable_exec spawned)

lemma spawn_logged_rule: "stable R (spawn_logged E run sw)"
  unfolding spawn_logged_def by (intro primitive_rules spawn_rule)

lemma effects_rule: "stable R (commit_effects E run c)"
  unfolding commit_effects_def
  by (intro primitive_rules ack_rule nack_rule spawn_logged_rule deliver_rule)

lemma tell_rule: "stable R (tell_parent run f)"
  unfolding tell_parent_def by (intro primitive_rules)

lemma rescue_rule: "stable R (rescue_mail E run)"
  unfolding rescue_mail_def by (intro primitive_rules)

lemma create_rule: "stable R (create_run E spec ds)"
  unfolding create_run_def by (intro primitive_rules deliver_rule)

lemma annotate_rule: "stable R (annotate E rid es)"
  unfolding annotate_def by (intro primitive_rules)

lemma fenced_rule: "stable R (fenced_run l)"
  unfolding fenced_run_def by (intro primitive_rules)

lemma ephemeral_rule: "stable R (append_ephemeral E l es)"
  unfolding append_ephemeral_def by (intro primitive_rules fenced_rule)

lemma timers_rule: "stable R (fire_timers now)"
  unfolding fire_timers_def by (intro primitive_rules stable_exec woken)

end

section \<open>Ending and reclaiming runs\<close>

locale run_frame = store_frame R for R :: "db \<Rightarrow> db \<Rightarrow> bool" +
  assumes ended: "R s (end_run rid f now s)"
    and flagged: "R s (update_run rid (\<lambda>r. r\<lparr>rr_cancel_requested := True\<rparr>) s)"
    and reclaimed: "R s (reclaim_expired now s)"
    and dropped: "R s (drop_ephemeral now s)"
begin

lemma ending_rule: "stable R (terminate E n run f)" "stable R (cancel_one E n rid reason)"
proof (induction E n run f and E n rid reason rule: terminate_cancel_one.induct)
  case (1 E run f)
  then show ?case by (simp add: terminate.simps stable_fail)
next
  case (2 E n run f)
  then show ?case unfolding terminate.simps
    by (intro primitive_rules tell_rule rescue_rule stable_exec ended 2)
next
  case (3 E n rid reason)
  show ?case unfolding cancel_one.simps [of E n rid]
    by (intro primitive_rules stable_exec flagged) (auto intro!: primitive_rules 3 stable_exec flagged)
qed

lemma terminate_rule: "stable R (terminate_run E run f)"
  unfolding terminate_run_def by (intro primitive_rules ending_rule)

lemma cancel_rule: "stable R (cancel_run E rid reason)"
  unfolding cancel_run_def by (intro primitive_rules ending_rule)

lemma cancel_all_rule: "stable R (cancel_all E reason rids)"
  by (induction rids) (simp_all, intro primitive_rules, intro primitive_rules cancel_rule)

lemma deadlines_rule: "stable R (expire_deadlines E now)"
  unfolding expire_deadlines_def by (intro primitive_rules terminate_rule)

lemma sweep_rule: "stable R (sweep E now)"
  unfolding sweep_def
  by (intro primitive_rules stable_exec reclaimed dropped timers_rule deadlines_rule)

end

end
