(* ===== verification/Run_Inv.thy ===== *)
theory Run_Inv
  imports Run_Frames
begin

text \<open>
  The invariants of the runtime's tables, and that every operation keeps them.

  \<^item> \<open>sched_inv\<close>: run ids are unique, one thread has one active run, a row's worker, lease, wait and
    result columns agree with its status, only a suspended run waits on a signal, and no buffered
    signal is one a run is waiting for (no lost wakeup).
  \<^item> \<open>log_inv\<close>: a run's journal is in increasing sequence order, and a dedup key occurs once.
  \<^item> \<open>mail_inv\<close>: an agent holds a message once, and never again after acknowledging it.
\<close>

section \<open>The run table, waits and signals\<close>

definition row_ok :: "run_row \<Rightarrow> bool" where
  "row_ok r \<longleftrightarrow>
     (rr_status r = RUNNING \<longleftrightarrow> rr_worker_id r \<noteq> None) \<and>
     (rr_status r = RUNNING \<longleftrightarrow> rr_lease_expires r \<noteq> None) \<and>
     (is_terminal (rr_status r) \<longleftrightarrow> rr_terminated_at r \<noteq> None) \<and>
     (is_terminal (rr_status r) \<longleftrightarrow> rr_result r \<noteq> None) \<and>
     (case rr_result r of None \<Rightarrow> True
      | Some x \<Rightarrow> res_status x = rr_status r \<and> res_run_id x = rr_run_id r) \<and>
     (rr_wake r \<noteq> None \<or> rr_wake_at r \<noteq> None \<longrightarrow> rr_status r = SUSPENDED) \<and>
     0 \<le> rr_epoch r \<and> rr_attempt r = rr_epoch r \<and> (rr_started_at r = None \<longleftrightarrow> rr_epoch r = 0)"

definition single_flight :: "run_row list \<Rightarrow> bool" where
  "single_flight rs \<longleftrightarrow> (\<forall>r \<in> set rs. \<forall>q \<in> set rs. active_run r \<longrightarrow> active_run q \<longrightarrow>
     rr_thread_id r \<noteq> None \<longrightarrow> rr_thread_id r = rr_thread_id q \<longrightarrow> rr_run_id r = rr_run_id q)"

definition waits_ok :: "run_row list \<Rightarrow> (string \<times> string) list \<Rightarrow> bool" where
  "waits_ok rs ws \<longleftrightarrow>
     (\<forall>w \<in> set ws. \<exists>r \<in> set rs. rr_run_id r = fst w \<and> rr_status r = SUSPENDED)"

definition no_lost_wakeup :: "(string \<times> string) list \<Rightarrow> signal_row list \<Rightarrow> bool" where
  "no_lost_wakeup ws gs \<longleftrightarrow> (\<forall>g \<in> set gs. (sg_run_id g, sg_name g) \<notin> set ws)"

definition signals_ok :: "run_row list \<Rightarrow> signal_row list \<Rightarrow> bool" where
  "signals_ok rs gs \<longleftrightarrow> (\<forall>g \<in> set gs. \<forall>r \<in> set rs.
     rr_run_id r = sg_run_id g \<longrightarrow> active_run r)"

definition sched_ok :: "run_row list \<Rightarrow> (string \<times> string) list \<Rightarrow> signal_row list \<Rightarrow> bool" where
  "sched_ok rs ws gs \<longleftrightarrow> distinct (map rr_run_id rs) \<and> (\<forall>r \<in> set rs. row_ok r) \<and> single_flight rs \<and>
     waits_ok rs ws \<and> no_lost_wakeup ws gs \<and> signals_ok rs gs"

definition sched_inv :: "db \<Rightarrow> bool" where
  "sched_inv s \<longleftrightarrow> sched_ok (runs s) (wakes s) (signals s)"

lemmas sched_defs = sched_ok_def single_flight_def waits_ok_def no_lost_wakeup_def signals_ok_def

lemma sched_invD:
  assumes "sched_inv s"
  shows "distinct (run_ids s)" and "r \<in> set (runs s) \<Longrightarrow> row_ok r"
    and "g \<in> set (signals s) \<Longrightarrow> (sg_run_id g, sg_name g) \<notin> set (wakes s)"
  using assms by (auto simp: sched_inv_def sched_defs run_ids_def)

lemma active_iff [simp]: "active_run r \<longleftrightarrow> \<not> is_terminal (rr_status r)"
  by (cases "rr_status r") (simp_all add: active_run_def)

text \<open>What an update of some rows must respect, when waits and signals may also be dropped.\<close>

definition row_step :: "(string \<times> string) list \<Rightarrow> signal_row list \<Rightarrow> run_row \<Rightarrow> run_row \<Rightarrow> bool" where
  "row_step ws gs r q \<longleftrightarrow> rr_run_id q = rr_run_id r \<and> rr_thread_id q = rr_thread_id r \<and> row_ok q \<and>
     (is_terminal (rr_status r) \<longrightarrow> is_terminal (rr_status q)) \<and>
     (rr_status r = SUSPENDED \<longrightarrow> rr_status q = SUSPENDED \<or> (\<forall>w \<in> set ws. fst w \<noteq> rr_run_id r)) \<and>
     (is_terminal (rr_status q) \<longrightarrow> is_terminal (rr_status r) \<or> (\<forall>g \<in> set gs. sg_run_id g \<noteq> rr_run_id r))"

lemma sched_ok_mono:
  "sched_ok rs ws gs \<Longrightarrow> set ws' \<subseteq> set ws \<Longrightarrow> set gs' \<subseteq> set gs \<Longrightarrow> sched_ok rs ws' gs'"
  unfolding sched_defs by blast

lemma sched_ok_update:
  assumes ok: "sched_ok rs ws gs" and sub: "set ws' \<subseteq> set ws" "set gs' \<subseteq> set gs"
    and step: "\<And>r. r \<in> set rs \<Longrightarrow> row_ok r \<Longrightarrow> P r \<Longrightarrow> row_step ws' gs' r (f r)"
  shows "sched_ok (update_where P f rs) ws' gs'"
proof -
  define h where "h r = (if P r then f r else r)" for r
  have upd: "update_where P f rs = map h rs" by (simp add: update_where_def h_def)
  have base: "sched_ok rs ws' gs'" using ok sub by (rule sched_ok_mono)
  then have h: "row_step ws' gs' r (h r)" if "r \<in> set rs" for r
    using that step by (auto simp: h_def row_step_def sched_ok_def)
  have ids: "map rr_run_id (map h rs) = map rr_run_id rs"
    using h by (simp add: row_step_def)
  have "waits_ok (map h rs) ws'"
    unfolding waits_ok_def
  proof
    fix w assume w: "w \<in> set ws'"
    then obtain r where r: "r \<in> set rs" "rr_run_id r = fst w" "rr_status r = SUSPENDED"
      using base by (auto simp: sched_ok_def waits_ok_def)
    then have "rr_run_id (h r) = fst w \<and> rr_status (h r) = SUSPENDED"
      using h [OF r(1)] w by (auto simp: row_step_def)
    with r(1) show "\<exists>q \<in> set (map h rs). rr_run_id q = fst w \<and> rr_status q = SUSPENDED" by auto
  qed
  moreover have "single_flight (map h rs)"
    using base h unfolding sched_ok_def single_flight_def row_step_def by (simp, metis)
  moreover have "signals_ok (map h rs) gs'"
    using base h unfolding sched_ok_def signals_ok_def row_step_def by (simp, metis)
  moreover have "\<forall>r \<in> set (map h rs). row_ok r" using h by (auto simp: row_step_def)
  ultimately show ?thesis
    using base ids unfolding upd sched_ok_def by presburger
qed

lemma sched_ok_insert:
  assumes "sched_ok rs ws gs" and "rr_run_id r \<notin> set (map rr_run_id rs)" and "row_ok r" and "active_run r"
    and "\<And>q. q \<in> set rs \<Longrightarrow> active_run q \<Longrightarrow> rr_thread_id r \<noteq> None \<Longrightarrow> rr_thread_id q \<noteq> rr_thread_id r"
  shows "sched_ok (rs @ [r]) ws gs"
proof -
  have "single_flight (rs @ [r])"
    unfolding single_flight_def
  proof (intro ballI impI)
    fix p q
    assume p: "p \<in> set (rs @ [r])" "active_run p" and q: "q \<in> set (rs @ [r])" "active_run q"
      and t: "rr_thread_id p \<noteq> None" "rr_thread_id p = rr_thread_id q"
    show "rr_run_id p = rr_run_id q"
    proof (cases "p = r \<or> q = r")
      case True
      with p q t assms(5) [of p] assms(5) [of q] show ?thesis by (auto simp del: active_iff)
    next
      case False
      then have "p \<in> set rs" "q \<in> set rs" using p(1) q(1) by auto
      moreover have "single_flight rs" using assms(1) by (simp add: sched_ok_def)
      ultimately show ?thesis using p(2) q(2) t unfolding single_flight_def by blast
    qed
  qed
  moreover have "waits_ok (rs @ [r]) ws" "signals_ok (rs @ [r]) gs"
    using assms(1,4) by (auto simp: sched_ok_def waits_ok_def signals_ok_def simp del: active_iff)
  ultimately show ?thesis using assms(1-3) unfolding sched_ok_def by simp
qed

subsection \<open>The primitive changes\<close>

lemma tables_add_spend [simp]:
  "runs (add_spend rid sp s) = runs s" "wakes (add_spend rid sp s) = wakes s"
  "signals (add_spend rid sp s) = signals s" "events (add_spend rid sp s) = events s"
  "inbox (add_spend rid sp s) = inbox s" "processed (add_spend rid sp s) = processed s"
  "inbox_ids (add_spend rid sp s) = inbox_ids s"
  by (simp_all add: add_spend_def Let_def split: option.splits)

lemma tables_ack_one [simp]:
  "runs (ack_one agent now mid s) = runs s" "wakes (ack_one agent now mid s) = wakes s"
  "signals (ack_one agent now mid s) = signals s" "events (ack_one agent now mid s) = events s"
  by (simp_all add: ack_one_def Let_def)

lemma tables_update_run [simp]:
  "runs (update_run rid f s) = update_where (\<lambda>r. rr_run_id r = rid) f (runs s)"
  "wakes (update_run rid f s) = wakes s" "signals (update_run rid f s) = signals s"
  "events (update_run rid f s) = events s" "inbox (update_run rid f s) = inbox s"
  "processed (update_run rid f s) = processed s" "inbox_ids (update_run rid f s) = inbox_ids s"
  by (simp_all add: update_run_def)

lemma tables_make_pending [simp]:
  "runs (make_pending rid s) = update_where (\<lambda>r. rr_run_id r = rid) wake_row (runs s)"
  "wakes (make_pending rid s) = delete_where (\<lambda>w. fst w = rid) (wakes s)"
  "signals (make_pending rid s) = signals s" "events (make_pending rid s) = events s"
  "inbox (make_pending rid s) = inbox s" "processed (make_pending rid s) = processed s"
  "inbox_ids (make_pending rid s) = inbox_ids s"
  by (simp_all add: make_pending_def clear_wakes_def)

lemma tables_end_run [simp]:
  "runs (end_run rid f now s) = update_where (\<lambda>r. rr_run_id r = rid) (end_row f now) (runs s)"
  "wakes (end_run rid f now s) = delete_where (\<lambda>w. fst w = rid) (wakes s)"
  "signals (end_run rid f now s) = delete_where (\<lambda>g. sg_run_id g = rid) (signals s)"
  "events (end_run rid f now s) = events s"
  "inbox (end_run rid f now s) = inbox s" "processed (end_run rid f now s) = processed s"
  "inbox_ids (end_run rid f now s) = inbox_ids s"
  by (simp_all add: end_run_def clear_wakes_def drop_signals_def)

lemma final_status_terminal [simp]: "is_terminal (final_status f)"
  by (cases f) simp_all

lemma final_status_not [simp]:
  "final_status f \<noteq> RUNNING" "final_status f \<noteq> PENDING" "final_status f \<noteq> SUSPENDED"
  by (cases f, simp_all)+

lemma row_ok_wake: "row_ok r \<Longrightarrow> row_ok (wake_row r)"
  by (auto simp: row_ok_def wake_row_def split: option.splits)

lemma row_ok_end: "row_ok r \<Longrightarrow> row_ok (end_row f now r)"
  by (simp add: row_ok_def end_row_def final_result_def)

lemma row_ok_reclaim: "row_ok r \<Longrightarrow> expired now r \<Longrightarrow> row_ok (reclaim_row r)"
  by (auto simp: row_ok_def reclaim_row_def expired_def split: option.splits)

lemma row_ok_park:
  "row_ok r \<Longrightarrow> \<not> is_terminal (rr_status r) \<Longrightarrow> row_ok (park_row w due r)"
  by (auto simp: row_ok_def park_row_def split: option.splits)

lemma row_ok_claim:
  "row_ok r \<Longrightarrow> rr_status r = PENDING \<Longrightarrow> row_ok (claim_row worker expires now r)"
  by (auto simp: row_ok_def claim_row_def split: option.splits)

lemma row_ok_fresh: "row_ok (fresh_row spec rid now)"
  by (simp add: row_ok_def fresh_row_def)

lemma wake_row_simps [simp]:
  "rr_run_id (wake_row r) = rr_run_id r" "rr_thread_id (wake_row r) = rr_thread_id r"
  "is_terminal (rr_status (wake_row r)) = is_terminal (rr_status r)"
  "rr_status (wake_row r) = RUNNING \<longleftrightarrow> rr_status r = RUNNING"
  by (simp_all add: wake_row_def)

lemma fresh_row_simps [simp]:
  "rr_run_id (fresh_row spec rid now) = rid" "rr_thread_id (fresh_row spec rid now) = rs_thread_id spec"
  "rr_status (fresh_row spec rid now) = PENDING" "rr_agent (fresh_row spec rid now) = actor_str (rs_agent spec)"
  "rr_epoch (fresh_row spec rid now) = 0"
  by (simp_all add: fresh_row_def)

lemma sched_make_pending: "sched_inv s \<Longrightarrow> sched_inv (make_pending rid s)"
  unfolding sched_inv_def tables_make_pending
  by (rule sched_ok_update [where ws = "wakes s" and gs = "signals s"])
     (auto simp: row_step_def row_ok_wake)

lemma sched_end_run: "sched_inv s \<Longrightarrow> sched_inv (end_run rid f now s)"
  unfolding sched_inv_def tables_end_run
  by (rule sched_ok_update [where ws = "wakes s" and gs = "signals s"])
     (auto simp: row_step_def row_ok_end, auto simp: end_row_def)

lemma sched_flag: "sched_inv s \<Longrightarrow> sched_inv (update_run rid (\<lambda>r. r\<lparr>rr_cancel_requested := True\<rparr>) s)"
  unfolding sched_inv_def tables_update_run
  by (rule sched_ok_update [where ws = "wakes s" and gs = "signals s"])
     (auto simp: row_step_def row_ok_def split: option.splits)

lemma sched_reclaim: "sched_inv s \<Longrightarrow> sched_inv (reclaim_expired now s)"
  unfolding sched_inv_def reclaim_expired_def
  by (simp, rule sched_ok_update [where ws = "wakes s" and gs = "signals s"])
     (auto simp: row_step_def row_ok_reclaim, auto simp: reclaim_row_def expired_def)

lemma sched_insert:
  "sched_inv s \<Longrightarrow> \<not> violates_unique s rid (rs_thread_id spec) \<Longrightarrow>
   sched_inv (s\<lparr>runs := runs s @ [fresh_row spec rid now], run_accounts := ras\<rparr>)"
  unfolding sched_inv_def
  by (simp, intro sched_ok_insert)
     (auto simp: row_ok_fresh violates_unique_def split: option.splits)

lemma sched_ok_signal:
  "sched_ok rs ws gs \<Longrightarrow> (sg_run_id g, sg_name g) \<notin> set ws \<Longrightarrow>
   (\<And>r. r \<in> set rs \<Longrightarrow> rr_run_id r = sg_run_id g \<Longrightarrow> active_run r) \<Longrightarrow> sched_ok rs ws (gs @ [g])"
  by (auto simp: sched_ok_def no_lost_wakeup_def signals_ok_def simp del: active_iff)

lemma sched_find:
  "sched_inv s \<Longrightarrow> find_run s rid = Some r \<Longrightarrow> q \<in> set (runs s) \<Longrightarrow> rr_run_id q = rid \<Longrightarrow> q = r"
  using find_run_unique [of s q] sched_invD(1) by auto

lemma sched_waits:
  "sched_inv s \<Longrightarrow> (rid, n) \<in> set (wakes s) \<Longrightarrow> \<exists>r \<in> set (runs s). rr_run_id r = rid \<and> rr_status r = SUSPENDED"
  by (force simp: sched_inv_def sched_ok_def waits_ok_def)

lemma sched_buffer:
  assumes "sched_inv s" and "(rid, name) \<notin> set (wakes s)"
    and "\<And>r. r \<in> set (runs s) \<Longrightarrow> rr_run_id r = rid \<Longrightarrow> active_run r"
  shows "sched_inv (buffer_signal rid name payload s)"
  using assms unfolding sched_inv_def buffer_signal_def by (simp, intro sched_ok_signal) auto

lemma buffer_make_pending:
  "make_pending rid (buffer_signal rid name payload s) = buffer_signal rid name payload (make_pending rid s)"
  by (simp add: make_pending_def buffer_signal_def clear_wakes_def update_run_def)

lemma wakes_buffer [simp]: "wakes (buffer_signal rid name payload s) = wakes s"
  by (simp add: buffer_signal_def)

lemma sched_signal:
  assumes inv: "sched_inv s"
  shows "sched_inv (snd (signal_run rid name payload s))"
proof (cases "find_run s rid")
  case None
  then have "\<And>r. r \<in> set (runs s) \<Longrightarrow> rr_run_id r \<noteq> rid" by (auto dest: find_run_NoneD)
  with sched_buffer [OF inv] sched_waits [OF inv, of rid name] None show ?thesis
    by (auto simp: signal_run_def Let_def)
next
  case (Some r)
  have only: "q = r" if "q \<in> set (runs s)" "rr_run_id q = rid" for q
    using sched_find [OF inv Some that] .
  show ?thesis
  proof (cases "is_terminal (rr_status r)")
    case True
    with Some inv show ?thesis by (simp add: signal_run_def Let_def)
  next
    case False
    then have act: "active_run q" if "q \<in> set (runs s)" "rr_run_id q = rid" for q
      using only [OF that] by simp
    have "sched_inv (buffer_signal rid name payload s)" if "(rid, name) \<notin> set (wakes s)"
      using inv that act by (rule sched_buffer)
    moreover have "sched_inv (buffer_signal rid name payload (make_pending rid s))"
    proof (rule sched_buffer)
      fix q assume "q \<in> set (runs (make_pending rid s))" "rr_run_id q = rid"
      then obtain q' where "q' \<in> set (runs s)" "rr_run_id q' = rid" "q = wake_row q'"
        by (auto simp: set_update_where split: if_splits)
      with act show "active_run q" by simp
    qed (simp_all add: sched_make_pending inv)
    moreover have "rr_status r = SUSPENDED" if "(rid, name) \<in> set (wakes s)"
      using sched_waits [OF inv that] only by blast
    ultimately show ?thesis using Some False
      by (auto simp: signal_run_def Let_def buffer_make_pending)
  qed
qed

lemma tables_put [simp]:
  "runs (put_inbox d s) = runs s" "wakes (put_inbox d s) = wakes s" "signals (put_inbox d s) = signals s"
  "events (put_inbox d s) = events s" "processed (put_inbox d s) = processed s"
  by (simp_all add: put_inbox_def)

lemma tables_dead [simp]:
  "runs (put_dead a m t de s) = runs s" "wakes (put_dead a m t de s) = wakes s"
  "signals (put_dead a m t de s) = signals s" "events (put_dead a m t de s) = events s"
  "inbox (put_dead a m t de s) = inbox s" "processed (put_dead a m t de s) = processed s"
  "inbox_ids (put_dead a m t de s) = inbox_ids s"
  by (simp_all add: put_dead_def)

lemma sched_other [simp]:
  "sched_inv (s\<lparr>draws := n\<rparr>) = sched_inv s" "sched_inv (s\<lparr>events := es\<rparr>) = sched_inv s"
  "sched_inv (s\<lparr>inbox := ib\<rparr>) = sched_inv s" "sched_inv (s\<lparr>spawns := sp\<rparr>) = sched_inv s"
  "sched_inv (add_spend rid p s) = sched_inv s" "sched_inv (put_inbox d s) = sched_inv s"
  "sched_inv (ack_one agent now mid s) = sched_inv s" "sched_inv (put_dead a m t de s) = sched_inv s"
  "sched_inv (drop_ephemeral now s) = sched_inv s"
  by (simp_all add: sched_inv_def drop_ephemeral_def)

interpretation sched: run_frame "kept sched_inv"
  by unfold_locales
    (simp_all add: kept_def sched_insert sched_make_pending sched_signal sched_end_run sched_flag
      sched_reclaim)

subsection \<open>Parking and claiming\<close>

lemma wakes_foldl_add_wake [simp]:
  "set (wakes (foldl (\<lambda>s n. add_wake rid n s) s ns)) = set (wakes s) \<union> Pair rid ` set ns"
  by (induction ns arbitrary: s) (auto simp: add_wake_def)

lemma tables_foldl_add_wake [simp]:
  "runs (foldl (\<lambda>s n. add_wake rid n s) s ns) = runs s"
  "signals (foldl (\<lambda>s n. add_wake rid n s) s ns) = signals s"
  "events (foldl (\<lambda>s n. add_wake rid n s) s ns) = events s"
  "inbox (foldl (\<lambda>s n. add_wake rid n s) s ns) = inbox s"
  "inbox_ids (foldl (\<lambda>s n. add_wake rid n s) s ns) = inbox_ids s"
  "processed (foldl (\<lambda>s n. add_wake rid n s) s ns) = processed s"
  by (induction ns arbitrary: s) (simp_all add: add_wake_def)

lemma tables_clear_wakes [simp]:
  "runs (clear_wakes rid s) = runs s" "wakes (clear_wakes rid s) = delete_where (\<lambda>w. fst w = rid) (wakes s)"
  "signals (clear_wakes rid s) = signals s" "events (clear_wakes rid s) = events s"
  "inbox (clear_wakes rid s) = inbox s" "processed (clear_wakes rid s) = processed s"
  "inbox_ids (clear_wakes rid s) = inbox_ids s"
  by (simp_all add: clear_wakes_def)

lemma tables_park [simp]:
  "runs (park rid w s) = update_where (\<lambda>r. rr_run_id r = rid) (park_row (Some w) (wk_at w)) (runs s)"
  "set (wakes (park rid w s)) = {x \<in> set (wakes s). fst x \<noteq> rid} \<union> Pair rid ` set (wake_names w)"
  "signals (park rid w s) = signals s" "events (park rid w s) = events s"
  "inbox (park rid w s) = inbox s" "processed (park rid w s) = processed s"
  "inbox_ids (park rid w s) = inbox_ids s"
  by (auto simp: park_def)

lemma park_row_simps [simp]:
  "rr_run_id (park_row w due r) = rr_run_id r" "rr_thread_id (park_row w due r) = rr_thread_id r"
  "rr_status (park_row w due r) = SUSPENDED" "rr_epoch (park_row w due r) = rr_epoch r"
  by (simp_all add: park_row_def)

lemma update_where_compose:
  "(\<And>r. P r \<Longrightarrow> P (f r)) \<Longrightarrow> update_where P g (update_where P f rs) = update_where P (\<lambda>r. g (f r)) rs"
  by (simp add: update_where_def)

lemma sched_ok_add_waits:
  assumes "sched_ok rs ws gs"
    and "\<And>w. w \<in> set ws' \<Longrightarrow> w \<in> set ws \<or> (\<exists>r \<in> set rs. rr_run_id r = fst w \<and> rr_status r = SUSPENDED) \<and>
               (\<forall>g \<in> set gs. (sg_run_id g, sg_name g) \<noteq> w)"
  shows "sched_ok rs ws' gs"
proof -
  have "waits_ok rs ws'" "no_lost_wakeup ws' gs"
    using assms unfolding sched_ok_def waits_ok_def no_lost_wakeup_def by blast+
  with assms(1) show ?thesis by (simp add: sched_ok_def)
qed

definition live :: "string \<Rightarrow> db \<Rightarrow> bool" where
  "live rid s \<longleftrightarrow> (\<exists>r. find_run s rid = Some r \<and> active_run r)"

lemma live_rows:
  assumes "sched_inv s" and "live rid s"
  shows "r \<in> set (runs s) \<Longrightarrow> rr_run_id r = rid \<Longrightarrow> active_run r"
    and "\<exists>r \<in> set (runs s). rr_run_id r = rid"
proof -
  from assms(2) obtain q where q: "find_run s rid = Some q" "active_run q" by (auto simp: live_def)
  { assume "r \<in> set (runs s)" "rr_run_id r = rid"
    with q sched_find [OF assms(1) q(1)] show "active_run r" by blast }
  show "\<exists>r \<in> set (runs s). rr_run_id r = rid" using q find_run_SomeD by blast
qed

lemma sched_park:
  assumes inv: "sched_inv s" and live: "live rid s" and none: "\<not> has_signal s rid (wake_names w)"
  shows "sched_inv (park rid w s)"
proof -
  let ?rs = "update_where (\<lambda>r. rr_run_id r = rid) (park_row (Some w) (wk_at w)) (runs s)"
  let ?ws = "delete_where (\<lambda>x. fst x = rid) (wakes s)"
  have base: "sched_ok ?rs ?ws (signals s)"
  proof (rule sched_ok_update)
    show "sched_ok (runs s) (wakes s) (signals s)" using inv by (simp add: sched_inv_def)
    fix r assume "r \<in> set (runs s)" "row_ok r" "rr_run_id r = rid"
    then show "row_step ?ws (signals s) r (park_row (Some w) (wk_at w) r)"
      using live_rows(1) [OF inv live] by (auto simp: row_step_def row_ok_park)
  qed auto
  obtain r where r: "r \<in> set (runs s)" "rr_run_id r = rid" using live_rows(2) [OF inv live] by blast
  then have suspended: "\<exists>q \<in> set ?rs. rr_run_id q = rid \<and> rr_status q = SUSPENDED"
    by (auto simp: set_update_where intro!: bexI [of _ "park_row (Some w) (wk_at w) r"])
  have "sched_ok ?rs (wakes (park rid w s)) (signals s)"
  proof (rule sched_ok_add_waits [OF base])
    fix x assume "x \<in> set (wakes (park rid w s))"
    then show "x \<in> set ?ws \<or> (\<exists>r \<in> set ?rs. rr_run_id r = fst x \<and> rr_status r = SUSPENDED) \<and>
               (\<forall>g \<in> set (signals s). (sg_run_id g, sg_name g) \<noteq> x)"
      using suspended none by (auto simp: has_signal_def)
  qed
  then show ?thesis by (simp add: sched_inv_def)
qed

lemma sched_resume:
  assumes inv: "sched_inv s" and live: "live rid s"
  shows "sched_inv (make_pending rid (park rid w s))"
proof -
  let ?f = "\<lambda>r. wake_row (park_row (Some w) (wk_at w) r)"
  have "sched_ok (update_where (\<lambda>r. rr_run_id r = rid) ?f (runs s))
          (wakes (make_pending rid (park rid w s))) (signals s)"
  proof (rule sched_ok_update)
    show "sched_ok (runs s) (wakes s) (signals s)" using inv by (simp add: sched_inv_def)
    fix r assume "r \<in> set (runs s)" "row_ok r" "rr_run_id r = rid"
    then show "row_step (wakes (make_pending rid (park rid w s))) (signals s) r (?f r)"
      using live_rows(1) [OF inv live] by (auto simp: row_step_def row_ok_park row_ok_wake)
  qed auto
  then show ?thesis by (simp add: sched_inv_def update_where_compose)
qed

lemma make_pending_draws: "make_pending rid (s\<lparr>draws := n\<rparr>) = (make_pending rid s)\<lparr>draws := n\<rparr>"
  by (simp add: make_pending_def clear_wakes_def update_run_def)

lemma sched_suspend:
  assumes "sched_inv s" and "live rid s"
  shows "wp (suspend E rid w) (\<lambda>_. sched_inv) s"
proof -
  have "has_signal (park rid w s) rid ns = has_signal s rid ns" for ns
    by (simp add: has_signal_def)
  moreover have "\<not> has_signal s rid []" by (simp add: has_signal_def)
  ultimately show ?thesis
    using sched_park [OF assms, of w] sched_resume [OF assms, of w]
    by (auto simp: suspend_def make_pending_draws split: option.splits)
qed

lemma sched_retry:
  assumes inv: "sched_inv s" and live: "live rid s"
  shows "wp (retry E rid err delay) (\<lambda>_. sched_inv) s"
proof -
  have "sched_inv (clear_wakes rid (update_run rid (retry_row due) s))" for due
    unfolding sched_inv_def tables_clear_wakes tables_update_run
  proof (rule sched_ok_update)
    show "sched_ok (runs s) (wakes s) (signals s)" using inv by (simp add: sched_inv_def)
    fix r assume "r \<in> set (runs s)" "row_ok r" "rr_run_id r = rid"
    then show "row_step (delete_where (\<lambda>w. fst w = rid) (wakes s)) (signals s) r (retry_row due r)"
      using live_rows(1) [OF inv live, of r] row_ok_park [of r None "Some due"]
      by (auto simp: row_step_def retry_row_def row_ok_def park_row_def)
  qed auto
  moreover have "wp (append E rid e) (\<lambda>_. sched_inv) t" if "sched_inv t" for t e
    using sched.append_rule that by (rule stable_kept_wp)
  moreover have "update_run rid f (s\<lparr>draws := n\<rparr>) = (update_run rid f s)\<lparr>draws := n\<rparr>" for f n
    by (simp add: update_run_def)
  moreover have "clear_wakes rid (t\<lparr>draws := n\<rparr>) = (clear_wakes rid t)\<lparr>draws := n\<rparr>" for t n
    by (simp add: clear_wakes_def)
  ultimately show ?thesis by (simp add: retry_def)
qed

definition pending_ids :: "string list \<Rightarrow> db \<Rightarrow> bool" where
  "pending_ids ids s \<longleftrightarrow> distinct ids \<and>
     (\<forall>r \<in> set (runs s). rr_run_id r \<in> set ids \<longrightarrow> rr_status r = PENDING)"

lemma claim_row_simps [simp]:
  "rr_run_id (claim_row worker expires now r) = rr_run_id r"
  "rr_thread_id (claim_row worker expires now r) = rr_thread_id r"
  "rr_status (claim_row worker expires now r) = RUNNING"
  "rr_epoch (claim_row worker expires now r) = rr_epoch r + 1"
  by (simp_all add: claim_row_def)

lemma sched_claim:
  assumes inv: "sched_inv s" and pend: "pending_ids (rid # ids) s"
  shows "wp (claim worker expires now rid) (\<lambda>_ t. sched_inv t \<and> pending_ids ids t) s"
proof -
  let ?t = "update_run rid (claim_row worker expires now) s"
  have "sched_inv ?t"
    unfolding sched_inv_def tables_update_run
  proof (rule sched_ok_update)
    show "sched_ok (runs s) (wakes s) (signals s)" using inv by (simp add: sched_inv_def)
    fix r assume "r \<in> set (runs s)" "row_ok r" "rr_run_id r = rid"
    then show "row_step (wakes s) (signals s) r (claim_row worker expires now r)"
      using pend row_ok_claim by (auto simp: row_step_def pending_ids_def)
  qed auto
  moreover have "pending_ids ids ?t"
    using pend by (auto simp: pending_ids_def set_update_where split: if_splits)
  ultimately show ?thesis by (simp add: claim_def split: option.splits)
qed

lemma sched_claims:
  assumes "sched_inv s" and "pending_ids ids s"
  shows "wp (mapT (claim worker expires now) ids) (\<lambda>_. sched_inv) s"
  using assms
proof (induction ids arbitrary: s)
  case (Cons rid ids)
  show ?case
    by (simp, rule wp_mono [OF sched_claim [OF Cons.prems]]) (auto elim!: wp_mono [OF Cons.IH])
qed simp

lemma candidates_pending:
  assumes "sched_inv s"
  shows "pending_ids (candidates s n) s"
proof -
  let ?ps = "pending_runs s"
  let ?key = "\<lambda>r. (tenant_rank ?ps r, claim_key r)"
  have inj: "inj_on rr_run_id (set (runs s))" and dist: "distinct (runs s)"
    using sched_invD(1) [OF assms] by (auto simp: run_ids_def distinct_map)
  have sub: "set (take (nat n) (sort_key ?key ?ps)) \<subseteq> {r \<in> set (runs s). rr_status r = PENDING}"
    using set_take_subset [of "nat n" "sort_key ?key ?ps"] by (auto simp: pending_runs_def)
  have "distinct (candidates s n)"
    unfolding candidates_def Let_def
    by (simp add: distinct_map pending_runs_def dist)
       (rule inj_on_subset [OF inj], use sub in \<open>auto simp: pending_runs_def\<close>)
  moreover have "rr_status r = PENDING" if "r \<in> set (runs s)" "rr_run_id r \<in> set (candidates s n)" for r
  proof -
    from that(2) obtain q where "q \<in> set (take (nat n) (sort_key ?key ?ps))" "rr_run_id q = rr_run_id r"
      by (auto simp: candidates_def Let_def)
    with sub inj that(1) show ?thesis by (metis (mono_tags, lifting) inj_onD mem_Collect_eq subsetD)
  qed
  ultimately show ?thesis by (simp add: pending_ids_def)
qed

lemma sched_lease: "stable (kept sched_inv) (lease_runs E worker capacity lease_s now)"
proof -
  have claims: "stable (kept sched_inv)
     (bindT (queryT (\<lambda>s. candidates s capacity)) (\<lambda>ids. mapT (claim worker expires now) ids))" for expires
    by (rule stable_keptI) (simp add: sched_claims candidates_pending)
  show ?thesis
    unfolding lease_runs_def
    by (rule sched.bind [OF sched.sweep_rule]) (rule stable_if [OF sched.ret claims])
qed

lemma sched_heartbeat: "stable (kept sched_inv) (heartbeat l lease_s now)"
proof -
  have "sched_inv (update_run (ls_run_id l) (\<lambda>r. r\<lparr>rr_lease_expires := Some e\<rparr>) s)"
    if inv: "sched_inv s" and found: "List.find (\<lambda>r. rr_run_id r = ls_run_id l \<and> holds_lease l r) (runs s) = Some q"
    for s q e
    unfolding sched_inv_def tables_update_run
  proof (rule sched_ok_update)
    show "sched_ok (runs s) (wakes s) (signals s)" using inv by (simp add: sched_inv_def)
    fix r assume r: "r \<in> set (runs s)" "row_ok r" "rr_run_id r = ls_run_id l"
    have "q \<in> set (runs s)" "rr_run_id q = ls_run_id l" "rr_status q = RUNNING"
      using find_SomeD [OF found] by (simp_all add: holds_lease_def)
    with r inv have "rr_status r = RUNNING"
      by (metis find_run_unique sched_find sched_invD(1))
    with r(2) show "row_step (wakes s) (signals s) r (r\<lparr>rr_lease_expires := Some e\<rparr>)"
      by (auto simp: row_step_def row_ok_def split: option.splits)
  qed auto
  then show ?thesis
    by (intro stable_keptI) (auto simp: heartbeat_def split: option.splits)
qed

subsection \<open>Committing\<close>

text \<open>Before its outcome, a commit changes no running row: the run it holds is still the one it fenced.\<close>

definition running_kept :: "db \<Rightarrow> db \<Rightarrow> bool" where
  "running_kept s s' \<longleftrightarrow> (\<forall>r \<in> set (runs s). rr_status r = RUNNING \<longrightarrow> r \<in> set (runs s'))"

lemma running_kept_same: "runs t = runs s \<Longrightarrow> running_kept s t"
  by (simp add: running_kept_def)

lemma running_kept_wake: "running_kept s (make_pending rid s)"
proof -
  have "wake_row r = r" if "rr_status r = RUNNING" for r using that by (simp add: wake_row_def)
  then show ?thesis by (force simp: running_kept_def set_update_where)
qed

lemma runs_buffer [simp]: "runs (buffer_signal rid name payload s) = runs s"
  by (simp add: buffer_signal_def)

lemma runs_signal: "runs (snd (signal_run rid name payload s)) \<in> {runs s, runs (make_pending rid s)}"
  by (simp add: signal_run_def Let_def split: option.splits)

interpretation running: store_frame running_kept
proof unfold_locales
  fix s rid name payload
  show "running_kept s (snd (signal_run rid name payload s))"
    using runs_signal [of rid name payload s] running_kept_wake [of s rid]
    by (auto simp: running_kept_def)
qed (auto intro: running_kept_wake simp del: tables_make_pending, auto simp: running_kept_def)

lemma wp_fenced:
  "wp (fenced_run l) Q s \<longleftrightarrow>
   (\<forall>r. find_run s (ls_run_id l) = Some r \<longrightarrow> holds_lease l r \<longrightarrow> Q r s)"
  by (auto simp: fenced_run_def split: option.splits)

lemma live_run:
  assumes "sched_inv s" and "r \<in> set (runs s)" and "rr_status r = RUNNING"
  shows "live (rr_run_id r) s"
  using find_run_unique [OF sched_invD(1) [OF assms(1)] assms(2)] assms(3) by (simp add: live_def)

lemma sched_outcome:
  assumes inv: "sched_inv s" and run: "run \<in> set (runs s)" "rr_status run = RUNNING"
  shows "wp (apply_outcome E run out) (\<lambda>_. sched_inv) s"
proof -
  note live = live_run [OF inv run]
  have "wp (append E (rr_run_id run) e) (\<lambda>_. sched_inv) t" if "sched_inv t" for t e
    using sched.append_rule that by (rule stable_kept_wp)
  moreover have "wp (terminate_run E run f) (\<lambda>_. sched_inv) s" for f
    using sched.terminate_rule inv by (rule stable_kept_wp)
  ultimately show ?thesis
    using inv wp_mono [OF sched_suspend [OF inv live, of E]] sched_retry [OF inv live, of E]
    by (cases out; simp add: apply_outcome_def split: outcome.splits prod.splits)
qed

lemma sched_commit: "stable (kept sched_inv) (commit_run E l c)"
proof (rule stable_keptI)
  fix s assume inv: "sched_inv s"
  { fix run assume "find_run s (ls_run_id l) = Some run" "holds_lease l run"
    then have run: "run \<in> set (runs s)" "rr_status run = RUNNING"
      by (auto simp: holds_lease_def dest: find_run_SomeD)
    have "wp (commit_effects E run c) (\<lambda>_ t. sched_inv t \<and> run \<in> set (runs t)) s"
      using stable_kept_wp [OF sched.effects_rule inv] stable_wp [OF running.effects_rule]
      by (rule wp_mono [OF wp_conj]) (use run in \<open>auto simp: running_kept_def\<close>)
    then have "wp (commit_effects E run c)
        (\<lambda>_ t. wp (apply_outcome E run (settle_outcome run (cm_outcome c))) (\<lambda>_. sched_inv) t) s"
      by (rule wp_mono) (use run(2) sched_outcome in blast) }
  then show "wp (commit_run E l c) (\<lambda>_. sched_inv) s"
    by (auto simp: commit_run_def wp_fenced elim!: wp_mono)
qed

subsection \<open>Signals consumed, mail redriven, rows deleted\<close>

lemma sched_inv_sub:
  assumes "sched_inv s" and "runs t = runs s" and "set (wakes t) \<subseteq> set (wakes s)"
    and "set (signals t) \<subseteq> set (signals s)"
  shows "sched_inv t"
  using assms sched_ok_mono unfolding sched_inv_def by metis

lemma sched_consume: "stable (kept sched_inv) (consume rid name claim_id)"
  by (rule stable_keptI)
     (auto simp: consume_def split: option.splits intro: sched_inv_sub)

lemma sched_redrive: "stable (kept sched_inv) (redrive E agent mid)"
  unfolding redrive_def
  by (intro sched.rules sched.deliver_rule stable_exec) (auto simp: kept_def intro: sched_inv_sub)

text \<open>Rows that go, with the waits on them gone before.\<close>

lemma sched_ok_delete:
  assumes "sched_ok rs ws gs" and "\<And>r w. r \<in> set rs \<Longrightarrow> P r \<Longrightarrow> w \<in> set ws \<Longrightarrow> fst w \<noteq> rr_run_id r"
  shows "sched_ok (delete_where P rs) ws gs"
  unfolding sched_ok_def
proof (intro conjI)
  show "waits_ok (delete_where P rs) ws"
    using assms unfolding waits_ok_def sched_ok_def by (simp, metis)
  show "single_flight (delete_where P rs)"
    using assms(1) unfolding sched_ok_def single_flight_def set_delete_where by blast
qed (use assms(1) in \<open>auto simp: sched_ok_def signals_ok_def\<close>)

lemma tables_purge [simp]:
  "runs (purge_run rid s) = runs s" "wakes (purge_run rid s) = delete_where (\<lambda>w. fst w = rid) (wakes s)"
  "signals (purge_run rid s) = delete_where (\<lambda>g. sg_run_id g = rid) (signals s)"
  "events (purge_run rid s) = delete_where (\<lambda>e. ev_run_id e = rid) (events s)"
  "inbox (purge_run rid s) = inbox s" "processed (purge_run rid s) = processed s"
  "inbox_ids (purge_run rid s) = inbox_ids s"
  by (simp_all add: purge_run_def drop_signals_def)

lemma tables_purge_refs [simp]:
  "runs (purge_refs rid s) = runs s" "wakes (purge_refs rid s) = wakes s"
  "signals (purge_refs rid s) = signals s" "events (purge_refs rid s) = events s"
  "inbox (purge_refs rid s) = inbox s" "processed (purge_refs rid s) = processed s"
  "inbox_ids (purge_refs rid s) = inbox_ids s"
  by (simp_all add: purge_refs_def)

lemma sched_inv_other2 [simp]:
  "sched_inv (drop_dead_trees s) = sched_inv s" "sched_inv (purge_mail a s) = sched_inv s"
  "sched_inv (delete_channel c s) = sched_inv s" "sched_inv (delete_account n s) = sched_inv s"
  by (simp_all add: sched_inv_def drop_dead_trees_def purge_mail_def delete_channel_def delete_account_def)

definition purge_all :: "run_row list \<Rightarrow> db \<Rightarrow> db" where
  "purge_all rows s = foldl (\<lambda>s r. purge_refs (rr_run_id r) (purge_run (rr_run_id r) s)) s rows"

lemma forT_exec: "forT (\<lambda>x. execT (u x)) xs s = Inr ((), foldl (\<lambda>s x. u x s) s xs)"
  by (induction xs arbitrary: s) (simp_all add: run_simps)

lemma wp_forT_exec [simp]: "wp (forT (\<lambda>x. execT (u x)) xs) Q = (\<lambda>s. Q () (foldl (\<lambda>s x. u x s) s xs))"
  by (simp add: fun_eq_iff wp_def forT_exec)

lemma tables_purge_all:
  "runs (purge_all rows s) = runs s"
  "set (wakes (purge_all rows s)) = {w \<in> set (wakes s). \<forall>r \<in> set rows. fst w \<noteq> rr_run_id r}"
  "set (signals (purge_all rows s)) = {g \<in> set (signals s). \<forall>r \<in> set rows. sg_run_id g \<noteq> rr_run_id r}"
  unfolding purge_all_def by (induction rows arbitrary: s) auto

lemma foldl_kept: "(\<And>x s. I s \<Longrightarrow> I (u x s)) \<Longrightarrow> I s \<Longrightarrow> I (foldl (\<lambda>s x. u x s) s xs)"
  by (induction xs arbitrary: s) auto

lemma sched_erase: "stable (kept sched_inv) (erase tenant thread agent)"
proof (rule stable_keptI)
  fix s assume inv: "sched_inv s"
  let ?P = "in_erasure tenant thread agent"
  let ?t = "purge_all (filter ?P (runs s)) s"
  have "sched_ok (delete_where ?P (runs ?t)) (wakes ?t) (signals ?t)"
    using inv sched_ok_mono [of "runs s" "wakes s" "signals s" "wakes ?t" "signals ?t"]
    by (intro sched_ok_delete) (auto simp: tables_purge_all sched_inv_def)
  then have "sched_inv (?t\<lparr>runs := delete_where ?P (runs ?t)\<rparr>)" by (simp add: sched_inv_def)
  moreover have "wp (if b then bindT (queryT q) (\<lambda>chs. thenT (forT (\<lambda>c. execT (delete_channel (ch_channel c))) chs)
                 (execT (delete_account n))) else retT ()) (\<lambda>_. sched_inv) t"
    if "sched_inv t" for b q n t
    using that by (auto intro: foldl_kept [where I = sched_inv])
  ultimately show "wp (erase tenant thread agent) (\<lambda>_. sched_inv) s"
    unfolding erase_def
    by (auto simp: purge_all_def intro!: foldl_kept [where I = sched_inv] split: option.splits)
qed

lemma sched_prune: "stable (kept sched_inv) (prune cutoff)"
proof (rule stable_keptI)
  fix s assume inv: "sched_inv s"
  have "sched_inv ((purge_run rid t)\<lparr>runs := delete_where (\<lambda>q. rr_run_id q = rid) (runs t)\<rparr>)"
    if "sched_inv t" for rid t
    using that sched_ok_mono [of "runs t" "wakes t" "signals t" "wakes (purge_run rid t)" "signals (purge_run rid t)"]
    unfolding sched_inv_def by (auto intro!: sched_ok_delete)
  moreover have "sched_inv (s\<lparr>processed := p\<rparr>)" for p using inv by (simp add: sched_inv_def)
  ultimately show "wp (prune cutoff) (\<lambda>_. sched_inv) s"
    unfolding prune_def by (auto intro!: foldl_kept [where I = sched_inv])
qed

end
