(* ===== verification/Run_Mail.thy ===== *)
theory Run_Mail
  imports Run_Inv
begin

text \<open>
  The invariants of the journal and of the inbox, which do not depend on how runs are scheduled: the
  locale \<open>mail_frame\<close> has what every operation of the store needs for them, and the two interpretations
  show it of \<open>log_inv\<close> and \<open>mail_inv\<close>.
\<close>

section \<open>Relations on the journal and the inbox\<close>

lemma delete_none [simp]: "delete_where (\<lambda>_. False) rs = rs"
  by (simp add: delete_where_def)

locale mail_frame = run_frame R for R :: "db \<Rightarrow> db \<Rightarrow> bool" +
  assumes untouched: "events t = events s \<Longrightarrow> inbox t = inbox s \<Longrightarrow> processed t = processed s \<Longrightarrow>
      inbox_ids t = inbox_ids s \<Longrightarrow> R s t"
    and cut: "R s (s\<lparr>events := delete_where P (events s), inbox := delete_where P' (inbox s),
      processed := delete_where P'' (processed s)\<rparr>)"
begin

lemma cut_to:
  assumes "events t = delete_where P (events s)" "inbox t = delete_where P' (inbox s)"
    "processed t = delete_where P'' (processed s)" "inbox_ids t = inbox_ids s"
  shows "R s t"
  by (rule R_trans [OF cut [where s = s and P = P and P' = P' and P'' = P''] untouched]) (simp_all add: assms)

lemma suspend_rule: "stable R (suspend E rid w)"
  unfolding suspend_def by (intro primitive_rules stable_exec untouched) simp_all

lemma retry_rule: "stable R (retry E rid err delay)"
  unfolding retry_def by (intro primitive_rules stable_exec untouched) simp_all

lemma outcome_rule: "stable R (apply_outcome E run out)"
proof -
  have "stable R (case out' of
      Suspend w \<Rightarrow> bindT (suspend E (rr_run_id run) w) (\<lambda>(st, resumed).
           if st = SUSPENDED
           then bindT (append E (rr_run_id run) (entry ''run.suspended''
                   (JObj [(''wake'', dump_wakeup w)]) None)) (\<lambda>sq. retT (st, resumed, [sq]))
           else retT (st, resumed, []))
    | Retry err delay \<Rightarrow> thenT (retry E (rr_run_id run) err delay) (retT (SUSPENDED, False, []))
    | Final f \<Rightarrow> thenT (terminate_run E run f) (retT (final_status f, False, [])))" for out'
    by (cases out'; simp; intro primitive_rules suspend_rule retry_rule terminate_rule)
  then show ?thesis unfolding apply_outcome_def by (cases out) (simp_all add: ret)
qed

lemma commit_rule: "stable R (commit_run E l c)"
  unfolding commit_run_def by (intro primitive_rules fenced_rule effects_rule outcome_rule)

lemma claim_rule: "stable R (claim worker expires now rid)"
  unfolding claim_def by (intro primitive_rules stable_exec untouched) simp_all

lemma lease_rule: "stable R (lease_runs E worker capacity lease_s now)"
  unfolding lease_runs_def by (intro primitive_rules sweep_rule claim_rule)

lemma heartbeat_rule: "stable R (heartbeat l lease_s now)"
  unfolding heartbeat_def by (intro primitive_rules stable_exec untouched) simp_all

lemma consume_rule: "stable R (consume rid name claim_id)"
  unfolding consume_def by (intro primitive_rules stable_exec untouched) simp_all

lemma redrive_rule: "stable R (redrive E agent mid)"
proof -
  have "R s (s\<lparr>dead := d, processed := delete_where P (processed s)\<rparr>)" for s d P
    by (rule cut_to [where P = "\<lambda>_. False" and P' = "\<lambda>_. False" and P'' = P]) simp_all
  then show ?thesis
    unfolding redrive_def by (intro primitive_rules stable_exec deliver_rule) simp
qed

lemma purge_step:
  "R s (purge_run rid s)" "R s (purge_refs rid s)" "R s (drop_dead_trees s)" "R s (delete_channel c s)"
  "R s (delete_account n s)" "R s (s\<lparr>runs := rs\<rparr>)"
  by (rule cut_to [where P = "\<lambda>e. ev_run_id e = rid" and P' = "\<lambda>_. False" and P'' = "\<lambda>_. False"]; simp)
     (rule untouched; simp add: drop_dead_trees_def delete_channel_def delete_account_def)+

lemma purge_mail_step: "R s (purge_mail a s)"
proof (cases "exists_where (\<lambda>r. rr_agent r = a) (runs s)")
  case True
  then show ?thesis by (simp add: purge_mail_def R_refl)
next
  case False
  then show ?thesis unfolding purge_mail_def
    by (intro cut_to [where P = "\<lambda>_. False" and P' = "\<lambda>i. ib_agent i = a" and P'' = "\<lambda>p. pr_agent p = a"]) simp_all
qed

lemma erase_rule: "stable R (erase tenant thread agent)"
  unfolding erase_def
  by (intro primitive_rules stable_exec purge_mail_step purge_step R_trans [OF purge_step(1) purge_step(2)])

lemma prune_rule: "stable R (prune cutoff)"
proof -
  have "R s (s\<lparr>processed := delete_where P (processed s)\<rparr>)" for s P
    by (rule cut_to [where P = "\<lambda>_. False" and P' = "\<lambda>_. False" and P'' = P]) simp_all
  then show ?thesis
    unfolding prune_def
    by (intro primitive_rules stable_exec purge_step R_trans [OF purge_step(1) purge_step(6)]) simp
qed

end

section \<open>The journal\<close>

definition log_before :: "event_row \<Rightarrow> event_row \<Rightarrow> bool" where
  "log_before e f \<longleftrightarrow> (ev_run_id e = ev_run_id f \<longrightarrow>
     ev_seq e < ev_seq f \<and> (ev_dedup e = None \<or> ev_dedup e \<noteq> ev_dedup f))"

definition event_ok :: "event_row \<Rightarrow> bool" where
  "event_ok e \<longleftrightarrow> 0 \<le> ev_seq e \<and> le_run_id (ev_entry e) = ev_run_id e \<and>
     le_seq (ev_entry e) = ev_seq e \<and> le_kind (ev_entry e) = ev_kind e"

definition log_inv :: "db \<Rightarrow> bool" where
  "log_inv s \<longleftrightarrow> sorted_wrt log_before (events s) \<and> (\<forall>e \<in> set (events s). event_ok e)"

lemma last_seq_ge: "e \<in> set (events s) \<Longrightarrow> ev_run_id e = rid \<Longrightarrow> ev_seq e \<le> last_seq s rid"
  unfolding last_seq_def by (rule coalesce_max_ge [THEN conjunct2, rule_format]) auto

lemma last_seq_bound: "- 1 \<le> last_seq s rid"
  by (simp add: last_seq_def coalesce_max_ge)

lemma find_dedup_NoneD:
  "find_dedup s rid key = None \<Longrightarrow> e \<in> set (events s) \<Longrightarrow> ev_run_id e = rid \<Longrightarrow> ev_dedup e = None \<or> ev_dedup e \<noteq> key"
  by (auto simp: find_dedup_def dest: find_NoneD split: option.splits)

lemma log_append:
  assumes "log_inv s" and "find_dedup s rid (ne_dedup e) = None"
  shows "log_inv (s\<lparr>events := events s @ [log_row rid (last_seq s rid + 1) e now]\<rparr>)"
proof -
  let ?row = "log_row rid (last_seq s rid + 1) e now"
  have "log_before x ?row" if "x \<in> set (events s)" for x
    using last_seq_ge [OF that, of rid] find_dedup_NoneD [OF assms(2) that]
    by (auto simp: log_before_def log_row_def)
  moreover have "event_ok ?row" using last_seq_bound [of s rid] by (simp add: event_ok_def log_row_def)
  ultimately show ?thesis using assms(1) by (simp add: log_inv_def sorted_wrt_append)
qed

lemma log_cut:
  "log_inv s \<Longrightarrow> log_inv (s\<lparr>events := delete_where P (events s)\<rparr>)"
  "log_inv s \<Longrightarrow> log_inv (s\<lparr>events := delete_where P (events s), inbox := ib, processed := ps\<rparr>)"
  by (auto simp: log_inv_def delete_where_def intro: sorted_wrt_filter)

lemma log_same: "events t = events s \<Longrightarrow> log_inv t = log_inv s"
  by (simp add: log_inv_def)

lemma log_other [simp]:
  "log_inv (s\<lparr>draws := n\<rparr>) = log_inv s" "log_inv (s\<lparr>inbox := ib\<rparr>) = log_inv s"
  "log_inv (s\<lparr>spawns := sp\<rparr>) = log_inv s" "log_inv (add_spend rid p s) = log_inv s"
  "log_inv (put_inbox d s) = log_inv s" "log_inv (ack_one agent now mid s) = log_inv s"
  "log_inv (put_dead a m t de s) = log_inv s" "log_inv (make_pending rid s) = log_inv s"
  "log_inv (end_run rid f now s) = log_inv s" "log_inv (update_run rid g s) = log_inv s"
  "log_inv (s\<lparr>runs := rs, run_accounts := ras\<rparr>) = log_inv s"
  "log_inv (reclaim_expired now s) = log_inv s"
  by (rule log_same; simp add: reclaim_expired_def)+

lemma events_signal [simp]: "events (snd (signal_run rid name payload s)) = events s"
  by (simp add: signal_run_def Let_def buffer_signal_def split: option.splits)

lemma log_untouched: "events t = events s \<Longrightarrow> kept log_inv s t"
  by (simp add: log_inv_def kept_def)

lemma log_signal [simp]: "log_inv (snd (signal_run rid name payload s)) = log_inv s"
  by (rule log_same) simp

interpretation log: mail_frame "kept log_inv"
  by unfold_locales
    ((rule log_untouched; assumption) |
     simp add: kept_def log_append log_cut drop_ephemeral_def)+

section \<open>The inbox\<close>

definition mail_inv :: "db \<Rightarrow> bool" where
  "mail_inv s \<longleftrightarrow> distinct (map (\<lambda>i. (ib_agent i, ib_msg_id i)) (inbox s)) \<and>
     (\<forall>i \<in> set (inbox s). \<not> is_processed s (ib_agent i) (ib_msg_id i)) \<and>
     sorted_wrt (<) (map ib_id (inbox s)) \<and>
     (\<forall>i \<in> set (inbox s). ib_id i < inbox_ids s \<and> msg_id (ib_msg i) = ib_msg_id i)"

lemma mail_put:
  assumes "mail_inv s" and "\<not> in_inbox s (actor_str (dv_agent d)) (msg_id (dv_msg d))"
    and "\<not> is_processed s (actor_str (dv_agent d)) (msg_id (dv_msg d))"
  shows "mail_inv (put_inbox d s)"
proof -
  have "is_processed (put_inbox d s) = is_processed s" by (simp add: is_processed_def fun_eq_iff)
  then show ?thesis
    using assms by (auto simp: mail_inv_def put_inbox_def in_inbox_def sorted_wrt_append less_SucI)
qed

lemma mail_sub:
  assumes "mail_inv s" and "inbox t = delete_where P (inbox s)" and "inbox_ids t = inbox_ids s"
    and "\<And>i. i \<in> set (inbox t) \<Longrightarrow> \<not> is_processed s (ib_agent i) (ib_msg_id i) \<Longrightarrow>
              \<not> is_processed t (ib_agent i) (ib_msg_id i)"
  shows "mail_inv t"
  using assms unfolding mail_inv_def
  by (auto simp: delete_where_def distinct_map_filter sorted_wrt_map intro: sorted_wrt_filter)

lemma mail_same:
  "inbox t = inbox s \<Longrightarrow> processed t = processed s \<Longrightarrow> inbox_ids t = inbox_ids s \<Longrightarrow> mail_inv t = mail_inv s"
  by (simp add: mail_inv_def is_processed_def)

lemma ack_one_inbox [simp]:
  "inbox (ack_one agent now mid s) = delete_where (\<lambda>i. ib_agent i = agent \<and> ib_msg_id i = mid) (inbox s)"
  "inbox_ids (ack_one agent now mid s) = inbox_ids s"
  by (simp_all add: ack_one_def Let_def)

lemma ack_one_processed [simp]:
  "is_processed (ack_one agent now mid s) a m \<longleftrightarrow> is_processed s a m \<or> (a = agent \<and> m = mid)"
  by (auto simp: ack_one_def Let_def is_processed_def)

lemma mail_ack:
  assumes "mail_inv s"
  shows "mail_inv (ack_one agent now mid s)"
  using assms
  by (rule mail_sub [where P = "\<lambda>i. ib_agent i = agent \<and> ib_msg_id i = mid"]) auto

lemma mail_attempt:
  assumes "mail_inv s"
  shows "mail_inv (s\<lparr>inbox := update_where P (\<lambda>i. i\<lparr>ib_attempts := k\<rparr>) (inbox s)\<rparr>)"
proof -
  let ?ib = "update_where P (\<lambda>i. i\<lparr>ib_attempts := k\<rparr>) (inbox s)"
  have "map (\<lambda>i. (ib_agent i, ib_msg_id i)) ?ib = map (\<lambda>i. (ib_agent i, ib_msg_id i)) (inbox s)"
    "map ib_id ?ib = map ib_id (inbox s)"
    by (simp_all add: map_update_where)
  with assms show ?thesis
    unfolding mail_inv_def by (auto simp: set_update_where is_processed_def split: if_splits)
qed

lemma inbox_signal [simp]:
  "inbox (snd (signal_run rid name payload s)) = inbox s"
  "processed (snd (signal_run rid name payload s)) = processed s"
  "inbox_ids (snd (signal_run rid name payload s)) = inbox_ids s"
  by (simp_all add: signal_run_def Let_def buffer_signal_def split: option.splits)

lemma mail_other [simp]:
  "mail_inv (s\<lparr>draws := n\<rparr>) = mail_inv s" "mail_inv (s\<lparr>events := es\<rparr>) = mail_inv s"
  "mail_inv (s\<lparr>spawns := sp\<rparr>) = mail_inv s" "mail_inv (add_spend rid p s) = mail_inv s"
  "mail_inv (put_dead a m t de s) = mail_inv s" "mail_inv (make_pending rid s) = mail_inv s"
  "mail_inv (end_run rid f now s) = mail_inv s" "mail_inv (update_run rid g s) = mail_inv s"
  "mail_inv (s\<lparr>runs := rs, run_accounts := ras\<rparr>) = mail_inv s"
  "mail_inv (reclaim_expired now s) = mail_inv s" "mail_inv (drop_ephemeral now s) = mail_inv s"
  "mail_inv (snd (signal_run rid name payload s)) = mail_inv s"
  by (rule mail_same; simp add: reclaim_expired_def drop_ephemeral_def)+

lemma mail_cut:
  "mail_inv s \<Longrightarrow> mail_inv (s\<lparr>events := es, inbox := delete_where P (inbox s), processed := delete_where P' (processed s)\<rparr>)"
  by (rule mail_sub [where P = P]) (auto simp: is_processed_def)

lemma mail_untouched:
  "inbox t = inbox s \<Longrightarrow> processed t = processed s \<Longrightarrow> inbox_ids t = inbox_ids s \<Longrightarrow> kept mail_inv s t"
  by (simp add: kept_def mail_same [of t s])

interpretation mail: mail_frame "kept mail_inv"
  by unfold_locales
    ((rule mail_untouched; assumption) | simp add: kept_def mail_put mail_ack mail_attempt mail_cut)+

end
