(* ===== verification/Run_Fence.thy ===== *)
theory Run_Fence
  imports Run_Mail
begin

text \<open>
  How the run table moves. \<open>run_step\<close> is one call of the store's interface other than the two that
  delete rows, \<open>store_step\<close> any call. \<open>evolves\<close> is the relation every \<open>run_step\<close> follows: rows
  stay, identities are fixed, a terminal run stays terminal, the epoch never decreases, and a run can
  only be found running at an epoch it already ran at under the same worker. It is what makes the
  epoch a fencing token: a lease that is lost once is refused for ever.
\<close>

section \<open>Steps of the store\<close>

inductive run_step :: "env \<Rightarrow> db \<Rightarrow> db \<Rightarrow> bool" for E where
  Create: "create_run E spec ds s = Inr (r, s') \<Longrightarrow> run_step E s s'"
| Lease: "lease_runs E worker capacity lease_s now s = Inr (ls, s') \<Longrightarrow> run_step E s s'"
| Heartbeat: "heartbeat l lease_s now s = Inr (hb, s') \<Longrightarrow> run_step E s s'"
| Commit: "commit_run E l c s = Inr (res, s') \<Longrightarrow> run_step E s s'"
| RequestCancel: "request_cancel E rid reason cascade s = Some (Inr (ids, s')) \<Longrightarrow> run_step E s s'"
| Annotate: "annotate E rid es s = Inr (seqs, s') \<Longrightarrow> run_step E s s'"
| AppendEphemeral: "append_ephemeral E l es s = Inr (u, s') \<Longrightarrow> run_step E s s'"
| Deliver: "deliver E d wake s = Inr (dr, s') \<Longrightarrow> run_step E s s'"
| Redrive: "redrive E agent mid s = Inr (b, s') \<Longrightarrow> run_step E s s'"
| Signal: "signal_run rid name payload s = (woke, s') \<Longrightarrow> run_step E s s'"
| Consume: "consume rid name claim_id s = Inr (j, s') \<Longrightarrow> run_step E s s'"
| Follow: "follow follower topic s = Inr (u, s') \<Longrightarrow> run_step E s s'"
| Unfollow: "unfollow follower topic s = Inr (u, s') \<Longrightarrow> run_step E s s'"

inductive store_step :: "env \<Rightarrow> db \<Rightarrow> db \<Rightarrow> bool" for E where
  Run: "run_step E s s' \<Longrightarrow> store_step E s s'"
| Erase: "erase tenant thread agent s = Inr (n, s') \<Longrightarrow> store_step E s s'"
| Prune: "prune cutoff s = Inr (n, s') \<Longrightarrow> store_step E s s'"

inductive reachable :: "env \<Rightarrow> db \<Rightarrow> bool" for E where
  Start: "reachable E empty_db"
| Step: "reachable E s \<Longrightarrow> store_step E s s' \<Longrightarrow> reachable E s'"

definition store_inv :: "db \<Rightarrow> bool" where
  "store_inv s \<longleftrightarrow> sched_inv s \<and> log_inv s \<and> mail_inv s"

lemma request_cancel_run:
  "request_cancel E rid reason cascade s = Some (Inr (ids, s')) \<Longrightarrow>
   \<exists>order. cancel_all E reason order s = Inr (ids, s')"
  by (auto simp: request_cancel_def)

lemma signal_run_tx: "signal_run rid name payload s = (woke, s') \<Longrightarrow> signalT rid name payload s = Inr (woke, s')"
  by (simp add: signalT_def)

lemma follow_edges:
  "follow follower topic s = Inr (u, s') \<Longrightarrow> \<exists>es. s' = s\<lparr>edges := es\<rparr>"
  "unfollow follower topic s = Inr (u, s') \<Longrightarrow> \<exists>es. s' = s\<lparr>edges := es\<rparr>"
  by (auto simp: follow_def unfollow_def execT_def split: if_splits intro: exI [of _ "edges s"])

lemma inv_edges [simp]:
  "sched_inv (s\<lparr>edges := es\<rparr>) = sched_inv s" "log_inv (s\<lparr>edges := es\<rparr>) = log_inv s"
  "mail_inv (s\<lparr>edges := es\<rparr>) = mail_inv s"
  by (simp_all add: sched_inv_def log_inv_def mail_inv_def is_processed_def)

lemmas sched_op_rules = kept_run [OF sched.create_rule] kept_run [OF sched_lease] kept_run [OF sched_heartbeat]
  kept_run [OF sched_commit] kept_run [OF sched.cancel_all_rule] kept_run [OF sched.annotate_rule]
  kept_run [OF sched.ephemeral_rule] kept_run [OF sched.deliver_rule] kept_run [OF sched_redrive]
  kept_run [OF sched.signal_rule] kept_run [OF sched_consume]

lemma run_step_sched: "run_step E s s' \<Longrightarrow> sched_inv s \<Longrightarrow> sched_inv s'"
  by (induction rule: run_step.induct)
     ((drule follow_edges; force) |
      blast dest: request_cancel_run signal_run_tx sched_op_rules)+

context mail_frame
begin

lemma run_step_rule:
  assumes "run_step E s s'" and "\<And>s es. R s (s\<lparr>edges := es\<rparr>)"
  shows "R s s'"
  using assms(1)
proof cases
  case (RequestCancel rid reason cascade ids)
  then show ?thesis using request_cancel_run stable_run [OF cancel_all_rule] by blast
next
  case (Signal rid name payload woke)
  then show ?thesis using signalled [of s rid name payload] by simp
next
  case (Follow follower topic u)
  then show ?thesis using assms(2) follow_edges by blast
next
  case (Unfollow follower topic u)
  then show ?thesis using assms(2) follow_edges by blast
qed (blast intro: stable_run [OF create_rule] stable_run [OF lease_rule] stable_run [OF heartbeat_rule]
       stable_run [OF commit_rule] stable_run [OF annotate_rule] stable_run [OF ephemeral_rule]
       stable_run [OF deliver_rule] stable_run [OF redrive_rule] stable_run [OF consume_rule])+

lemma store_step_rule:
  assumes "store_step E s s'" and "\<And>s es. R s (s\<lparr>edges := es\<rparr>)"
  shows "R s s'"
  using assms(1)
  by cases (blast intro: run_step_rule assms(2) stable_run [OF erase_rule] stable_run [OF prune_rule])+

end

lemma store_step_inv:
  assumes "store_step E s s'" and "store_inv s"
  shows "store_inv s'"
proof -
  have "kept log_inv s s'"
    by (rule log.store_step_rule [OF assms(1)]) (simp add: kept_def)
  moreover have "kept mail_inv s s'"
    by (rule mail.store_step_rule [OF assms(1)]) (simp add: kept_def)
  moreover have "sched_inv s'"
    using assms by cases (auto simp: store_inv_def dest: run_step_sched kept_run [OF sched_erase] kept_run [OF sched_prune])
  ultimately show ?thesis using assms(2) by (simp add: store_inv_def kept_def)
qed

lemma store_inv_empty: "store_inv empty_db"
  by (simp add: store_inv_def sched_inv_def sched_defs log_inv_def mail_inv_def empty_db_def)

section \<open>Evolution of the run table\<close>

definition row_evolves :: "run_row \<Rightarrow> run_row \<Rightarrow> bool" where
  "row_evolves r q \<longleftrightarrow> rr_run_id q = rr_run_id r \<and> rr_agent q = rr_agent r \<and> rr_tenant q = rr_tenant r \<and>
     rr_thread_id q = rr_thread_id r \<and> rr_parent q = rr_parent r \<and> rr_tree_id q = rr_tree_id r \<and>
     rr_enqueued_at q = rr_enqueued_at r \<and> rr_deadline q = rr_deadline r \<and>
     rr_epoch r \<le> rr_epoch q \<and> rr_retry_count r \<le> rr_retry_count q \<and>
     (rr_epoch q = rr_epoch r \<longrightarrow> rr_status q = RUNNING \<longrightarrow>
        rr_status r = RUNNING \<and> rr_worker_id q = rr_worker_id r) \<and>
     (is_terminal (rr_status r) \<longrightarrow> is_terminal (rr_status q)) \<and>
     (rr_cancel_requested r \<longrightarrow> rr_cancel_requested q)"

definition evolves :: "db \<Rightarrow> db \<Rightarrow> bool" where
  "evolves s s' \<longleftrightarrow> (\<forall>r \<in> set (runs s). \<exists>q \<in> set (runs s'). row_evolves r q)"

lemma row_evolves_refl [simp]: "row_evolves r r"
  by (simp add: row_evolves_def)

lemma row_evolves_trans: "row_evolves r q \<Longrightarrow> row_evolves q p \<Longrightarrow> row_evolves r p"
  unfolding row_evolves_def by auto

lemma evolves_sub: "set (runs s) \<subseteq> set (runs t) \<Longrightarrow> evolves s t"
  by (force simp: evolves_def)

lemma evolves_update:
  assumes "\<And>r. r \<in> set (runs s) \<Longrightarrow> P r \<Longrightarrow> row_evolves r (f r)" and "runs t = update_where P f (runs s)"
  shows "evolves s t"
  unfolding evolves_def
proof
  fix r assume "r \<in> set (runs s)"
  then have "(if P r then f r else r) \<in> set (runs t)" "row_evolves r (if P r then f r else r)"
    using assms by (auto simp: set_update_where)
  then show "\<exists>q \<in> set (runs t). row_evolves r q" by blast
qed

lemma evolves_trans: "evolves s t \<Longrightarrow> evolves t u \<Longrightarrow> evolves s u"
  unfolding evolves_def by (meson row_evolves_trans)

lemma row_evolves_wake: "row_evolves r (wake_row r)"
  by (simp add: row_evolves_def wake_row_def)

lemma row_evolves_end: "row_evolves r (end_row f now r)"
  by (simp add: row_evolves_def end_row_def)

lemma row_evolves_reclaim: "expired now r \<Longrightarrow> row_evolves r (reclaim_row r)"
  by (simp add: row_evolves_def reclaim_row_def expired_def)

lemma row_evolves_park: "active_run r \<Longrightarrow> row_evolves r (park_row w due r)"
  by (simp add: row_evolves_def park_row_def)

lemma row_evolves_claim: "rr_status r = PENDING \<Longrightarrow> row_evolves r (claim_row worker expires now r)"
  by (simp add: row_evolves_def claim_row_def)

lemma evolves_wake: "evolves s (make_pending rid s)"
  by (rule evolves_update [where f = wake_row]) (auto simp: row_evolves_wake)

lemma evolves_signal: "evolves s (snd (signal_run rid name payload s))"
proof (cases "runs (snd (signal_run rid name payload s)) = runs s")
  case True
  then show ?thesis by (simp add: evolves_sub)
next
  case False
  then have "runs (snd (signal_run rid name payload s)) = runs (make_pending rid s)"
    using runs_signal [of rid name payload s] by simp
  then show ?thesis using evolves_wake [of s rid] by (simp add: evolves_def)
qed

lemma evolves_draws [simp]: "evolves s (t\<lparr>draws := n\<rparr>) = evolves s t"
  by (simp add: evolves_def)

lemma evolves_run:
  "(\<And>r. r \<in> set (runs s) \<Longrightarrow> rr_run_id r = rid \<Longrightarrow> row_evolves r (f r)) \<Longrightarrow> evolves s (update_run rid f s)"
  by (rule evolves_update [where P = "\<lambda>r. rr_run_id r = rid" and f = f]) simp_all

interpretation evolve: run_frame evolves
proof unfold_locales
  fix s rid f now
  show "evolves s (end_run rid f now s)"
    by (rule evolves_update [where f = "end_row f now"]) (auto simp: row_evolves_end)
  show "evolves s (update_run rid (\<lambda>r. r\<lparr>rr_cancel_requested := True\<rparr>) s)"
    by (rule evolves_run) (simp add: row_evolves_def)
  show "evolves s (reclaim_expired now s)"
    by (rule evolves_update [where f = reclaim_row and P = "expired now"])
       (auto simp: row_evolves_reclaim reclaim_expired_def)
qed (auto intro: evolves_sub evolves_wake evolves_signal evolves_trans simp: drop_ephemeral_def simp del: tables_make_pending)

lemma evolves_suspend:
  assumes "sched_inv s" and "live rid s"
  shows "wp (suspend E rid w) (\<lambda>_. evolves s) s"
proof -
  have "evolves s (park rid w s)"
    using live_rows(1) [OF assms]
    by (intro evolves_update [where f = "park_row (Some w) (wk_at w)"]) (auto simp: row_evolves_park)
  moreover from this have "evolves s (make_pending rid (park rid w s))"
    using evolves_wake evolves_trans by blast
  ultimately show ?thesis
    by (auto simp: suspend_def make_pending_draws split: option.splits)
qed

lemma evolves_retry:
  assumes "sched_inv s" and "live rid s"
  shows "wp (retry E rid err delay) (\<lambda>_. evolves s) s"
proof -
  have "evolves s (clear_wakes rid (update_run rid (retry_row due) (s\<lparr>draws := n\<rparr>)))" for due n
    using live_rows(1) [OF assms]
    by (intro evolves_update [where f = "retry_row due"]) (auto simp: row_evolves_def retry_row_def park_row_def)
  then show ?thesis
    by (auto simp: retry_def intro: wp_mono [OF stable_wp [OF evolve.append_rule]] evolves_trans)
qed

lemma evolves_outcome:
  assumes inv: "sched_inv s" and run: "run \<in> set (runs s)" "rr_status run = RUNNING"
  shows "wp (apply_outcome E run out) (\<lambda>_. evolves s) s"
proof -
  note live = live_run [OF inv run]
  have "wp (append E (rr_run_id run) e) (\<lambda>_. evolves s) t" if "evolves s t" for t e
    using that by (auto intro: wp_mono [OF stable_wp [OF evolve.append_rule]] evolves_trans)
  moreover have "wp (terminate_run E run f) (\<lambda>_. evolves s) s" for f
    using evolve.terminate_rule by (rule stable_wp)
  ultimately show ?thesis
    using evolve.R_refl [of s] wp_mono [OF evolves_suspend [OF inv live, of E]] evolves_retry [OF inv live, of E]
    by (cases out; simp add: apply_outcome_def split: outcome.splits prod.splits)
qed

lemma evolves_commit:
  assumes inv: "sched_inv s"
  shows "wp (commit_run E l c) (\<lambda>_. evolves s) s"
proof -
  { fix run assume "find_run s (ls_run_id l) = Some run" "holds_lease l run"
    then have run: "run \<in> set (runs s)" "rr_status run = RUNNING"
      by (auto simp: holds_lease_def dest: find_run_SomeD)
    have "wp (commit_effects E run c) (\<lambda>_ t. (sched_inv t \<and> run \<in> set (runs t)) \<and> evolves s t) s"
      using wp_conj [OF stable_kept_wp [OF sched.effects_rule inv] stable_wp [OF running.effects_rule]]
        stable_wp [OF evolve.effects_rule]
      by (rule wp_mono [OF wp_conj]) (use run in \<open>auto simp: running_kept_def\<close>)
    then have "wp (commit_effects E run c)
        (\<lambda>_ t. wp (apply_outcome E run (settle_outcome run (cm_outcome c))) (\<lambda>_. evolves s) t) s"
      by (rule wp_mono) (use run(2) in \<open>auto intro: wp_mono [OF evolves_outcome] evolves_trans\<close>) }
  then show ?thesis
    by (auto simp: commit_run_def wp_fenced elim!: wp_mono)
qed

lemma evolves_claims:
  assumes "sched_inv s" and "pending_ids ids s"
  shows "wp (mapT (claim worker expires now) ids) (\<lambda>_. evolves s) s"
  using assms
proof (induction ids arbitrary: s)
  case (Cons rid ids)
  have "wp (claim worker expires now rid) (\<lambda>_. evolves s) s"
    unfolding claim_def using Cons.prems(2)
    by (auto simp: pending_ids_def row_evolves_claim intro!: evolves_run split: option.splits)
  then have "wp (claim worker expires now rid)
      (\<lambda>_ t. (sched_inv t \<and> pending_ids ids t) \<and> evolves s t) s"
    using sched_claim [OF Cons.prems] by (rule wp_conj [rotated])
  then show ?case
    by (simp, elim wp_mono) (auto intro!: wp_mono [OF Cons.IH] elim: evolves_trans)
qed (simp add: evolve.R_refl)

lemma evolves_lease:
  assumes "sched_inv s"
  shows "wp (lease_runs E worker capacity lease_s now) (\<lambda>_. evolves s) s"
proof -
  let ?rest = "if capacity \<le> 0 then retT [] else bindT (queryT (\<lambda>s. candidates s capacity))
    (\<lambda>ids. mapT (claim worker (now + lease_s) now) ids)"
  have "wp (sweep E now) (\<lambda>_ t. sched_inv t \<and> evolves s t) s"
    using stable_kept_wp [OF sched.sweep_rule assms] stable_wp [OF evolve.sweep_rule] by (rule wp_conj)
  then have "wp (sweep E now) (\<lambda>_. wp ?rest (\<lambda>_. evolves s)) s"
    by (rule wp_mono)
       (auto intro!: wp_mono [OF evolves_claims] candidates_pending elim: evolves_trans)
  then show ?thesis by (simp add: lease_runs_def)
qed

lemma evolves_step:
  assumes "run_step E s s'" and inv: "sched_inv s"
  shows "evolves s s'"
  using assms(1)
proof cases
  case (RequestCancel rid reason cascade ids)
  then show ?thesis using request_cancel_run stable_run [OF evolve.cancel_all_rule] by blast
next
  case (Signal rid name payload woke)
  then show ?thesis using evolves_signal [of s rid name payload] by simp
next
  case (Follow follower topic u)
  then obtain es where "s' = s\<lparr>edges := es\<rparr>" using follow_edges(1) by blast
  then show ?thesis by (simp add: evolves_sub)
next
  case (Unfollow follower topic u)
  then obtain es where "s' = s\<lparr>edges := es\<rparr>" using follow_edges(2) by blast
  then show ?thesis by (simp add: evolves_sub)
next
  case (Heartbeat l lease_s now hb)
  have "wp (heartbeat l lease_s now) (\<lambda>_. evolves s) s"
    by (auto simp: heartbeat_def evolve.R_refl row_evolves_def intro!: evolves_run split: option.splits)
  with Heartbeat show ?thesis by (blast dest: wp_run)
next
  case (Consume rid name claim_id j)
  have "wp (consume rid name claim_id) (\<lambda>_. evolves s) s"
    by (auto simp: consume_def evolve.R_refl intro: evolves_sub split: option.splits)
  with Consume show ?thesis by (blast dest: wp_run)
next
  case (Redrive agent mid b)
  have "stable evolves (redrive E agent mid)"
    unfolding redrive_def
    by (intro evolve.primitive_rules evolve.deliver_rule stable_exec evolves_sub) simp
  with Redrive show ?thesis by (blast dest: stable_run)
qed (blast dest: wp_run [OF evolves_commit [OF inv]] wp_run [OF evolves_lease [OF inv]]
       stable_run [OF evolve.create_rule] stable_run [OF evolve.annotate_rule]
       stable_run [OF evolve.ephemeral_rule] stable_run [OF evolve.deliver_rule])+

end
