(* ===== verification/Demo.thy ===== *)
theory Demo
  imports Run_Fence
begin

text \<open>
  The concrete inputs the witnesses run on: an environment whose clock advances one second at every
  reading, a helper agent and its mail, and small tables built by the store's own operations.
\<close>

definition demo_env :: env where
  "demo_env = \<lparr>env_clock = (\<lambda>n. of_nat (100 + n)), env_uuid = (\<lambda>n. CHR ''u'' # replicate n (CHR ''x'')),
     env_trace = (\<lambda>n. \<lparr>tc_trace_id = replicate 32 (CHR ''a''), tc_span_id = replicate 16 (CHR ''b''), tc_sampled = True\<rparr>),
     env_span = (\<lambda>n. replicate 16 (CHR ''c'')), env_max_attempts = 3\<rparr>"

definition helper :: actor where
  "helper = Actor ''helper'' ''h''"

definition letter :: "string \<Rightarrow> message" where
  "letter mid = \<lparr>msg_id = mid, msg_schema_version = 1, msg_created_at = 0, msg_target = ToActor helper,
     msg_sender = actor_user ''ann'', msg_payload = JNull, msg_correlation_id = mid, msg_causation_id = None,
     msg_metadata = JObj [], msg_reply_to = None\<rparr>"

definition mail_of :: "string \<Rightarrow> delivery" where
  "mail_of mid = \<lparr>dv_agent = helper, dv_msg = letter mid, dv_tenant = ''t'', dv_accounts = []\<rparr>"

definition demo_spec :: "string \<Rightarrow> run_spec" where
  "demo_spec rid = (basic_spec helper ''t'')\<lparr>rs_run_id := Some rid\<rparr>"

text \<open>The tables after an operation that is expected to commit.\<close>

definition after :: "'a dbtx \<Rightarrow> db \<Rightarrow> db" where
  "after m s = (case m s of Inr (_, t) \<Rightarrow> t | Inl _ \<Rightarrow> s)"

definition demo_pending :: db where
  "demo_pending = after (create_run demo_env (demo_spec ''r'') [mail_of ''m'']) empty_db"

definition demo_running :: db where
  "demo_running = after (lease_runs demo_env ''w'' 1 30 200) demo_pending"

definition demo_lease :: lease where
  "demo_lease = lease_of (the (find_run demo_running ''r'')) ''w'' 200"

text \<open>The worker died: at second 300 its lease has expired and another worker takes the run.\<close>

definition demo_reclaimed :: db where
  "demo_reclaimed = after (lease_runs demo_env ''v'' 1 30 300) demo_running"

lemma after_reachable:
  "reachable E s \<Longrightarrow> (\<And>x t. m s = Inr (x, t) \<Longrightarrow> run_step E s t) \<Longrightarrow> reachable E (after m s)"
  by (auto simp: after_def split: sum.splits prod.splits intro: reachable.Step store_step.Run)

end
