(* ===== verification/Run_Claims.thy ===== *)
theory Run_Claims
  imports Demo
begin

text \<open>
  The guarantees of the store about leases: the invariants hold in every reachable state, a lease
  that is lost is lost for ever, a lease call hands out runs that are its own, within capacity and
  fairly between tenants.
\<close>

section \<open>Reachable tables\<close>

lemma reachable_inv: "reachable E s \<Longrightarrow> store_inv s"
  by (induction rule: reachable.induct) (auto intro: store_inv_empty store_step_inv)

lemma reachable_pending: "reachable demo_env demo_pending"
  unfolding demo_pending_def
  by (rule after_reachable [OF reachable.Start]) (rule run_step.Create)

lemma reachable_running: "reachable demo_env demo_running"
  unfolding demo_running_def
  by (rule after_reachable [OF reachable_pending]) (rule run_step.Lease)

lemma reachable_reclaimed: "reachable demo_env demo_reclaimed"
  unfolding demo_reclaimed_def
  by (rule after_reachable [OF reachable_running]) (rule run_step.Lease)

text \<open>
  C1. Every state of the runtime database that a sequence of store operations (creating, leasing,
  committing, signalling, delivering, cancelling, erasing, pruning runs) can reach satisfies the store
  invariant: unique run ids, one active run per thread, worker, lease, wait and result columns that agree
  with the status, waits only of suspended runs, no buffered signal that a run is waiting for, journals in
  increasing sequence order with unique dedup keys, and an inbox without duplicates or acknowledged mail.
\<close>

theorem store_invariant:
  assumes "reachable E s"
  shows "store_inv s"
  using assms by (rule reachable_inv)

theorem store_invariant_witness: "store_inv demo_reclaimed \<and> runs demo_reclaimed \<noteq> []"
proof
  show "store_inv demo_reclaimed" by (rule store_invariant [OF reachable_reclaimed])
  show "runs demo_reclaimed \<noteq> []" by code_simp
qed

section \<open>Fencing\<close>

definition holds :: "db \<Rightarrow> lease \<Rightarrow> bool" where
  "holds s l \<longleftrightarrow> (case find_run s (ls_run_id l) of None \<Rightarrow> False | Some r \<Rightarrow> holds_lease l r)"

text \<open>A lease of an epoch the run has reached, that is not in force.\<close>

definition lost :: "db \<Rightarrow> lease \<Rightarrow> bool" where
  "lost s l \<longleftrightarrow> (case find_run s (ls_run_id l) of None \<Rightarrow> False
     | Some r \<Rightarrow> ls_epoch l \<le> rr_epoch r \<and> \<not> holds_lease l r)"

lemma evolves_find:
  assumes "evolves s t" and "sched_inv t" and "find_run s rid = Some r"
  obtains q where "find_run t rid = Some q" and "row_evolves r q"
proof -
  from assms(1,3) obtain q where q: "q \<in> set (runs t)" "row_evolves r q"
    by (auto simp: evolves_def dest: find_run_SomeD)
  then have "rr_run_id q = rid" using assms(3) by (auto simp: row_evolves_def dest: find_run_SomeD)
  with q find_run_unique [OF sched_invD(1) [OF assms(2)] q(1)] show ?thesis using that by blast
qed

lemma lost_evolves:
  assumes "evolves s t" and "sched_inv t" and "lost s l"
  shows "lost t l"
proof -
  from assms(3) obtain r where r: "find_run s (ls_run_id l) = Some r" "ls_epoch l \<le> rr_epoch r" "\<not> holds_lease l r"
    by (auto simp: lost_def split: option.splits)
  obtain q where q: "find_run t (ls_run_id l) = Some q" "row_evolves r q"
    using evolves_find [OF assms(1,2) r(1)] .
  have "\<not> holds_lease l q"
  proof
    assume "holds_lease l q"
    with q(2) r(2) have "rr_epoch q = rr_epoch r" by (auto simp: holds_lease_def row_evolves_def)
    with \<open>holds_lease l q\<close> q(2) have "holds_lease l r" by (auto simp: holds_lease_def row_evolves_def)
    with r(3) show False by simp
  qed
  with q r(2) show ?thesis by (auto simp: lost_def row_evolves_def)
qed

lemma run_steps_sched: "(run_step E)\<^sup>*\<^sup>* s t \<Longrightarrow> sched_inv s \<Longrightarrow> sched_inv t"
  by (induction rule: rtranclp_induct) (auto intro: run_step_sched)

lemma lost_steps: "(run_step E)\<^sup>*\<^sup>* s t \<Longrightarrow> sched_inv s \<Longrightarrow> lost s l \<Longrightarrow> lost t l"
proof (induction rule: rtranclp_induct)
  case (step t u)
  then have "sched_inv t" "sched_inv u" using run_steps_sched run_step_sched by blast+
  with step show ?case using lost_evolves evolves_step by blast
qed

lemma commit_lost: "lost s l \<Longrightarrow> commit_run E l c s = Inl (LeaseLostError (ls_run_id l) (Some (ls_epoch l)))"
  by (auto simp: lost_def commit_run_def fenced_run_def run_simps split: option.splits)



lemma reclaimed_lost:
  assumes "holds s l" and "find_run s (ls_run_id l) = Some r" and "expired now r"
  shows "lost (reclaim_expired now s) l"
proof -
  have "find_run (reclaim_expired now s) (ls_run_id l) = Some (reclaim_row r)"
    using assms(2,3) find_update_where [of "\<lambda>r. rr_run_id r = ls_run_id l" "expired now" reclaim_row]
    by (simp add: find_run_def reclaim_expired_def reclaim_row_def)
  with assms(1,2) show ?thesis
    by (simp add: lost_def holds_def holds_lease_def reclaim_row_def)
qed

section \<open>What a lease call hands out\<close>

lemma claim_run:
  "claim worker expires now rid s = Inr (l, t) \<longleftrightarrow>
   t = update_run rid (claim_row worker expires now) s \<and>
   (\<exists>r. find_run t rid = Some r \<and> l = lease_of r worker now)"
  by (auto simp: claim_def run_simps split: option.splits)

lemma claims_result:
  assumes "pending_ids ids s" and "mapT (claim worker expires now) ids s = Inr (ls, t)"
  shows "map ls_run_id ls = ids \<and> (\<forall>l \<in> set ls. holds t l \<and> ls_worker_id l = worker) \<and>
         (\<forall>rid. rid \<notin> set ids \<longrightarrow> find_run t rid = find_run s rid)"
  using assms
proof (induction ids arbitrary: s ls)
  case Nil
  then show ?case by (auto simp: retT_def)
next
  case (Cons rid ids)
  let ?u = "update_run rid (claim_row worker expires now) s"
  from Cons.prems(2) obtain r ls' where
    r: "find_run ?u rid = Some r" and rest: "mapT (claim worker expires now) ids ?u = Inr (ls', t)"
    and ls: "ls = lease_of r worker now # ls'"
    unfolding mapT_run claim_run by blast
  have upd: "find_run ?u x = map_option (\<lambda>r. if x = rid then claim_row worker expires now r else r) (find_run s x)" for x
    by (rule find_update_run) simp
  have "pending_ids ids ?u"
    using Cons.prems(1) by (auto simp: pending_ids_def set_update_where split: if_splits)
  note IH = Cons.IH [OF this rest]
  have "rid \<notin> set ids" using Cons.prems(1) by (simp add: pending_ids_def)
  then have "find_run t rid = Some r" using IH r by simp
  moreover obtain r0 where "r = claim_row worker expires now r0" using r upd [of rid] by auto
  moreover have "rr_run_id r = rid" using r by (auto dest: find_run_SomeD)
  ultimately have "holds t (lease_of r worker now)"
    by (simp add: holds_def lease_of_def holds_lease_def claim_row_def)
  moreover have "ls_run_id (lease_of r worker now) = rid" "ls_worker_id (lease_of r worker now) = worker"
    using \<open>rr_run_id r = rid\<close> by (simp_all add: lease_of_def)
  moreover have "find_run t x = find_run s x" if "x \<notin> set (rid # ids)" for x
    using IH that upd [of x] by (simp add: option.map_ident)
  ultimately show ?case using IH ls by auto
qed

lemma candidates_length: "int (length (candidates s capacity)) \<le> max capacity 0"
  by (simp add: candidates_def Let_def)

lemma lease_runs_split:
  "lease_runs E worker capacity lease_s now s = Inr (ls, t) \<Longrightarrow>
   \<exists>u. sweep E now s = Inr ((), u) \<and> (capacity \<le> 0 \<longrightarrow> ls = [] \<and> t = u) \<and>
       (0 < capacity \<longrightarrow> mapT (claim worker (now + lease_s) now) (candidates u capacity) u = Inr (ls, t))"
  by (auto simp: lease_runs_def bind_run queryT_def retT_def split: if_splits)

lemma evolves_after_reclaim:
  assumes "sweep E now s = Inr (x, u)"
  shows "evolves (reclaim_expired now s) u"
proof -
  have "stable evolves (thenT (fire_timers now) (thenT (expire_deadlines E now) (execT (drop_ephemeral now))))"
    by (intro evolve.primitive_rules evolve.timers_rule evolve.deadlines_rule stable_exec evolve.dropped)
  then show ?thesis
    using assms by (elim stable_run) (simp add: sweep_def bindT_def [of "execT _"] execT_def)
qed



text \<open>
  C4. A lease call is fair between tenants and work-conserving: it picks as many pending runs as the
  capacity allows, and it never picks a tenant's (n+1)-th pending run while some tenant's n-th (by
  priority, then age) is left unpicked.
\<close>

theorem lease_fair:
  assumes "sched_inv s" and "r \<in> set (pending_runs s)" and "q \<in> set (pending_runs s)"
    and "rr_run_id r \<in> set (candidates s capacity)" and "rr_run_id q \<notin> set (candidates s capacity)"
  shows "tenant_rank (pending_runs s) r \<le> tenant_rank (pending_runs s) q \<and>
    length (candidates s capacity) = nat capacity"
proof -
  let ?ps = "pending_runs s"
  let ?key = "\<lambda>r. (tenant_rank ?ps r, claim_key r)"
  let ?xs = "sort_key ?key ?ps"
  have inj: "inj_on rr_run_id (set (runs s))"
    using sched_invD(1) [OF assms(1)] by (simp add: run_ids_def distinct_map)
  have ps: "set ?ps \<subseteq> set (runs s)" by (auto simp: pending_runs_def)
  have ids: "candidates s capacity = map rr_run_id (take (nat capacity) ?xs)"
    by (simp add: candidates_def Let_def)
  have "x \<in> set ?xs" if "x \<in> set (take (nat capacity) ?xs)" for x using that by (rule in_set_takeD)
  then have r: "r \<in> set (take (nat capacity) ?xs)"
    using assms(2,4) inj ps by (auto simp: ids dest: inj_onD)
  have q: "q \<in> set (drop (nat capacity) ?xs)"
  proof -
    have "q \<in> set (take (nat capacity) ?xs @ drop (nat capacity) ?xs)" using assms(3) by simp
    moreover have "q \<notin> set (take (nat capacity) ?xs)" using assms(5) by (auto simp: ids)
    ultimately show ?thesis by (simp del: append_take_drop_id)
  qed
  have "sorted (map ?key (take (nat capacity) ?xs @ drop (nat capacity) ?xs))"
    by (simp only: append_take_drop_id) simp
  then have "?key r \<le> ?key q"
    using r q by (simp only: map_append sorted_append) force
  moreover have "nat capacity \<le> length ?ps" using q by (cases "nat capacity \<le> length ?ps") auto
  ultimately show ?thesis by (auto simp: ids less_eq_prod_def)
qed

definition demo_tenants :: db where
  "demo_tenants = after (create_run demo_env ((demo_spec ''c'')\<lparr>rs_tenant := ''other''\<rparr>) [])
     (after (create_run demo_env (demo_spec ''b'') []) (after (create_run demo_env (demo_spec ''a'') []) empty_db))"

lemma reachable_tenants: "reachable demo_env demo_tenants"
  unfolding demo_tenants_def
  by (rule after_reachable [OF after_reachable [OF after_reachable [OF reachable.Start]]];
      rule run_step.Create)

theorem lease_fair_witness:
  "candidates demo_tenants 2 = [''a'', ''c''] \<and> length (candidates demo_tenants 2) = nat 2"
proof -
  let ?ps = "pending_runs demo_tenants"
  have inv: "sched_inv demo_tenants" using reachable_inv [OF reachable_tenants] by (simp add: store_inv_def)
  have picked: "candidates demo_tenants 2 = [''a'', ''c'']" by code_simp
  have ids: "map rr_run_id ?ps = [''a'', ''b'', ''c'']" by code_simp
  then obtain r q p where "?ps = [r, q, p]" "rr_run_id r = ''a''" "rr_run_id q = ''b''"
    by (auto simp: map_eq_Cons_conv)
  then show ?thesis using lease_fair [OF inv, of r q 2] picked by simp
qed

end
