(* ===== verification/Run_Signals.thy ===== *)
theory Run_Signals
  imports Run_Claims
begin

text \<open>
  Signals and waits: a signal and the suspension that waits for it may come in either order, a signal
  is consumed once per claim, and a cancellation that arrived during the attempt wins over sleeping.
\<close>

section \<open>Suspending and signalling\<close>

definition status_of :: "db \<Rightarrow> string \<Rightarrow> run_status option" where
  "status_of s rid = map_option rr_status (find_run s rid)"

lemma find_run_other [simp]:
  "find_run (s\<lparr>draws := n\<rparr>) = find_run s" "find_run (buffer_signal rid name payload s) = find_run s"
  "find_run (clear_wakes rid s) = find_run s"
  by (simp_all add: find_run_def fun_eq_iff clear_wakes_def)

lemma find_run_runs: "runs t = runs s \<Longrightarrow> find_run t = find_run s"
  by (simp add: find_run_def fun_eq_iff)

lemma find_make_pending:
  "find_run (make_pending rid s) x = map_option (\<lambda>r. if x = rid then wake_row r else r) (find_run s x)"
  by (simp add: make_pending_def find_update_run)

lemma find_park:
  "find_run (park rid w s) x =
   map_option (\<lambda>r. if x = rid then park_row (Some w) (wk_at w) r else r) (find_run s x)"
proof -
  have "find_run (park rid w s) = find_run (update_run rid (park_row (Some w) (wk_at w)) s)"
    by (rule find_run_runs) simp
  then show ?thesis by (simp add: find_update_run)
qed

lemma has_signal_other [simp]:
  "has_signal (park rid w s) = has_signal s" "has_signal (make_pending rid s) = has_signal s"
  "has_signal (s\<lparr>draws := n\<rparr>) = has_signal s"
  by (simp_all add: has_signal_def fun_eq_iff)

lemma has_signal_buffer: "n \<in> set ns \<Longrightarrow> has_signal (buffer_signal rid n payload s) rid ns"
  by (simp add: has_signal_def buffer_signal_def)

lemma draws_park [simp]: "draws (park rid w s) = draws s" "draws (make_pending rid s) = draws s"
proof -
  have "draws (foldl (\<lambda>s n. add_wake rid n s) u ns) = draws u" for u ns
    by (induction ns arbitrary: u) (simp_all add: add_wake_def)
  then show "draws (park rid w s) = draws s" by (simp add: park_def clear_wakes_def update_run_def)
  show "draws (make_pending rid s) = draws s" by (simp add: make_pending_def clear_wakes_def update_run_def)
qed

lemma draws_id: "draws u = n \<Longrightarrow> u\<lparr>draws := n\<rparr> = u"
  by simp

lemma suspend_cases:
  "\<exists>n. suspend E rid w s = Inr ((PENDING, True), (make_pending rid (park rid w s))\<lparr>draws := n\<rparr>) \<or>
   \<not> has_signal s rid (wake_names w) \<and>
     suspend E rid w s = Inr ((SUSPENDED, False), (park rid w s)\<lparr>draws := n\<rparr>)"
proof -
  have none: "\<not> has_signal s rid []" by (simp add: has_signal_def)
  show ?thesis
  proof (cases "has_signal s rid (wake_names w) \<or> wk_at w = None")
    case True
    then show ?thesis using none
      by (intro exI [of _ "draws s"])
         (auto simp: suspend_def run_simps draws_id split: option.splits)
  next
    case False
    then show ?thesis
      by (intro exI [of _ "Suc (draws s)"]; cases "the (wk_at w) \<le> env_clock E (draws s)")
         (auto simp: suspend_def drawT_def run_simps make_pending_draws)
  qed
qed

lemma signal_pending:
  assumes "find_run s rid = Some r" and "\<not> is_terminal (rr_status r)"
    and "rr_status r = SUSPENDED \<Longrightarrow> (rid, n) \<in> set (wakes s)" and "rr_status r \<noteq> RUNNING"
    and "signal_run rid n payload s = (woke, t)"
  shows "status_of t rid = Some PENDING \<and> has_signal t rid [n]"
proof (cases "rr_status r = SUSPENDED")
  case True
  with assms have "t = make_pending rid (buffer_signal rid n payload s)"
    by (simp add: signal_run_def Let_def)
  with True assms(1) show ?thesis
    by (simp add: status_of_def find_make_pending wake_row_def has_signal_buffer)
next
  case False
  with assms have "t = buffer_signal rid n payload s" "rr_status r = PENDING"
    by (auto simp: signal_run_def Let_def) (cases "rr_status r"; simp)
  with assms(1) show ?thesis by (simp add: status_of_def has_signal_buffer)
qed

text \<open>
  C5. No lost wakeup. A running attempt suspends on a set of names while one of the names is signalled;
  whichever of the two transactions commits first, neither fails and the run ends up PENDING, ready to
  be leased again, with the signal in its buffer.
\<close>

theorem no_lost_signal:
  assumes "reachable E s" and run: "find_run s rid = Some r" "rr_status r = RUNNING"
    and n: "n \<in> set (wake_names w)"
  shows "(\<exists>x t. suspend E rid w s = Inr (x, t) \<and>
            (\<forall>woke u. signal_run rid n payload t = (woke, u) \<longrightarrow> status_of u rid = Some PENDING \<and> has_signal u rid [n]))
       \<and> (\<forall>woke t. signal_run rid n payload s = (woke, t) \<longrightarrow>
            (\<exists>x u. suspend E rid w t = Inr (x, u) \<and> status_of u rid = Some PENDING \<and> has_signal u rid [n]))"
proof (intro conjI allI impI)
  let ?p = "park_row (Some w) (wk_at w) r"
  obtain k where cases: "suspend E rid w s = Inr ((PENDING, True), (make_pending rid (park rid w s))\<lparr>draws := k\<rparr>) \<or>
     suspend E rid w s = Inr ((SUSPENDED, False), (park rid w s)\<lparr>draws := k\<rparr>)"
    using suspend_cases by blast
  have found: "find_run ((make_pending rid (park rid w s))\<lparr>draws := k\<rparr>) rid = Some (wake_row ?p)"
    "find_run ((park rid w s)\<lparr>draws := k\<rparr>) rid = Some ?p"
    using run by (simp_all add: find_make_pending find_park)
  have "rr_status (wake_row ?p) = PENDING" "rr_status ?p = SUSPENDED" by (simp_all add: wake_row_def)
  moreover have "(rid, n) \<in> set (wakes ((park rid w s)\<lparr>draws := k\<rparr>))" using n by simp
  ultimately have resumed: "signal_run rid n payload ((make_pending rid (park rid w s))\<lparr>draws := k\<rparr>) = (woke, u) \<Longrightarrow>
        status_of u rid = Some PENDING \<and> has_signal u rid [n]"
    and parked: "signal_run rid n payload ((park rid w s)\<lparr>draws := k\<rparr>) = (woke, u) \<Longrightarrow>
        status_of u rid = Some PENDING \<and> has_signal u rid [n]" for woke u
    using signal_pending [OF found(1)] signal_pending [OF found(2)] by simp_all
  show "\<exists>x t. suspend E rid w s = Inr (x, t) \<and>
      (\<forall>woke u. signal_run rid n payload t = (woke, u) \<longrightarrow> status_of u rid = Some PENDING \<and> has_signal u rid [n])"
    using cases
  proof
    assume "suspend E rid w s = Inr ((PENDING, True), (make_pending rid (park rid w s))\<lparr>draws := k\<rparr>)"
    with resumed show ?thesis by blast
  next
    assume "suspend E rid w s = Inr ((SUSPENDED, False), (park rid w s)\<lparr>draws := k\<rparr>)"
    with parked show ?thesis by blast
  qed
next
  fix woke t assume "signal_run rid n payload s = (woke, t)"
  with run have t: "t = buffer_signal rid n payload s" by (simp add: signal_run_def Let_def)
  then have "has_signal t rid (wake_names w)" using n by (simp add: has_signal_buffer)
  then obtain k where k: "suspend E rid w t = Inr ((PENDING, True), (make_pending rid (park rid w t))\<lparr>draws := k\<rparr>)"
    using suspend_cases by blast
  have "find_run ((make_pending rid (park rid w t))\<lparr>draws := k\<rparr>) rid =
      Some (wake_row (park_row (Some w) (wk_at w) r))"
    using run t by (simp add: find_make_pending find_park)
  then have "status_of ((make_pending rid (park rid w t))\<lparr>draws := k\<rparr>) rid = Some PENDING"
    by (simp add: status_of_def wake_row_def)
  moreover have "has_signal ((make_pending rid (park rid w t))\<lparr>draws := k\<rparr>) rid [n]"
    by (simp add: t has_signal_buffer)
  ultimately show "\<exists>x u. suspend E rid w t = Inr (x, u) \<and> status_of u rid = Some PENDING \<and> has_signal u rid [n]"
    using k by blast
qed

theorem no_lost_signal_witness:
  "\<exists>x u. suspend demo_env ''r'' (signal_wakeup [''go''] None)
      (snd (signal_run ''r'' ''go'' JNull demo_running)) = Inr (x, u) \<and> status_of u ''r'' = Some PENDING"
proof -
  have "map_option rr_status (find_run demo_running ''r'') = Some RUNNING" by code_simp
  then obtain r where r: "find_run demo_running ''r'' = Some r" "rr_status r = RUNNING" by auto
  have "''go'' \<in> set (wake_names (signal_wakeup [''go''] None))" by code_simp
  from no_lost_signal [OF reachable_running r this] show ?thesis
    by (metis prod.collapse)
qed

section \<open>Consuming a signal\<close>

text \<open>
  C6. A signal is consumed at most once. The first \<open>consume\<close> under a claim id takes a buffered signal
  with the run's id and the name out of the buffer, leaving every other signal, and returns its payload;
  every replay of the same claim returns that payload again and changes nothing.
\<close>

theorem consume_once:
  assumes "consume rid name cid s = Inr (Some p, t)"
  shows "consume rid' name' cid t = Inr (Some p, t) \<and>
    (cid \<notin> cl_claim_id ` set (claims s) \<longrightarrow>
      (\<exists>g \<in> set (signals s). sg_run_id g = rid \<and> sg_name g = name \<and> sg_payload g = p \<and> g \<notin> set (signals t) \<and>
         (\<forall>h \<in> set (signals s). sg_id h \<noteq> sg_id g \<longrightarrow> h \<in> set (signals t))))"
proof (cases "List.find (\<lambda>c. cl_claim_id c = cid) (claims s)")
  case (Some c)
  then show ?thesis
    using assms by (auto simp: consume_def run_simps dest: find_SomeD)
next
  case None
  then obtain g where g: "List.find (\<lambda>g. sg_run_id g = rid \<and> sg_name g = name) (signals s) = Some g"
    using assms by (auto simp: consume_def run_simps split: option.splits)
  then have t: "t = s\<lparr>signals := delete_where (\<lambda>x. sg_id x = sg_id g) (signals s),
      claims := claims s @ [\<lparr>cl_claim_id = cid, cl_payload = p\<rparr>]\<rparr>" "p = sg_payload g"
    using assms None by (auto simp: consume_def run_simps)
  have "List.find (\<lambda>c. cl_claim_id c = cid) (claims s @ [\<lparr>cl_claim_id = cid, cl_payload = p\<rparr>]) =
      Some \<lparr>cl_claim_id = cid, cl_payload = p\<rparr>"
    using None by (rule find_snoc) simp
  then have "consume rid' name' cid t = Inr (Some p, t)" by (simp add: consume_def run_simps t(1))
  moreover have "g \<in> set (signals s)" "sg_run_id g = rid" "sg_name g = name" using find_SomeD [OF g] by auto
  ultimately show ?thesis using t by auto
qed

definition demo_signalled :: db where
  "demo_signalled = snd (signal_run ''r'' ''go'' (JStr ''yes'') demo_running)"

theorem consume_once_witness:
  "\<exists>t. consume ''r'' ''go'' ''claim'' demo_signalled = Inr (Some (JStr ''yes''), t) \<and>
     consume ''r'' ''go'' ''claim'' t = Inr (Some (JStr ''yes''), t)"
proof -
  have "\<exists>t. consume ''r'' ''go'' ''claim'' demo_signalled = Inr (Some (JStr ''yes''), t)"
  proof -
    have "map_sum id fst (consume ''r'' ''go'' ''claim'' demo_signalled) = Inr (Some (JStr ''yes''))" by code_simp
    then show ?thesis by (cases "consume ''r'' ''go'' ''claim'' demo_signalled") auto
  qed
  then show ?thesis using consume_once by blast
qed

section \<open>A cancellation beats sleeping\<close>

text \<open>
  When a cancellation was requested while the attempt was running, a commit whose outcome is to
  suspend or to retry ends the run as CANCELLED instead: it is neither parked nor retried.
\<close>

theorem cancel_beats_sleep:
  assumes "find_run s (ls_run_id l) = Some run" and "holds_lease l run" and "rr_cancel_requested run"
    and "cm_outcome c = Some (Suspend w) \<or> cm_outcome c = Some (Retry err delay)"
    and "commit_run E l c s = Inr (res, t)"
  shows "cr_status res = Some CANCELLED \<and> cr_resumed res = False \<and>
    (\<exists>u x. commit_effects E run c s = Inr (x, u) \<and> terminate_run E run (Cancel ''cancelled'') u = Inr ((), t))"
  using assms
  by (auto simp: commit_run_def fenced_run_def bind_run queryT_def settle_outcome_def apply_outcome_def
      retT_def split: option.splits)

theorem cancel_beats_sleep_witness:
  "\<exists>res t. commit_run demo_env demo_lease (empty_commit\<lparr>cm_outcome := Some (Suspend (timer_wakeup 900))\<rparr>)
      (after (cancel_run demo_env ''r'' ''stop'') demo_running) = Inr (res, t) \<and> cr_status res = Some CANCELLED"
proof -
  let ?s = "after (cancel_run demo_env ''r'' ''stop'') demo_running"
  let ?c = "empty_commit\<lparr>cm_outcome := Some (Suspend (timer_wakeup 900))\<rparr>"
  have id: "ls_run_id demo_lease = ''r''" by code_simp
  have "map_option (\<lambda>r. holds_lease demo_lease r \<and> rr_cancel_requested r) (find_run ?s ''r'') = Some True"
    by code_simp
  then obtain r where r: "find_run ?s ''r'' = Some r" "holds_lease demo_lease r" "rr_cancel_requested r" by auto
  have "isl (commit_run demo_env demo_lease ?c ?s) = False" by code_simp
  then obtain res t where c: "commit_run demo_env demo_lease ?c ?s = Inr (res, t)"
    by (cases "commit_run demo_env demo_lease ?c ?s") auto
  then show ?thesis
    using cancel_beats_sleep [of ?s demo_lease r ?c "timer_wakeup 900"] r id by auto
qed

end
