(* ===== verification/Run_Ending.thy ===== *)
theory Run_Ending
  imports Run_Signals
begin

text \<open>
  Ending runs: the recursion of \<open>_terminate\<close> and \<open>_cancel_one\<close> down a tree of runs ends within the
  depth the callers have, and \<open>request_cancel\<close> walks a tree of runs, children before parents, and
  leaves no run of it at work uncancelled.
\<close>

section \<open>The recursion ends\<close>

definition norec :: "'a dbtx \<Rightarrow> db \<Rightarrow> bool" where
  "norec m s \<longleftrightarrow> m s \<noteq> Inl recursion_error"

lemma norec_bind: "norec m s \<Longrightarrow> wp m (\<lambda>a t. norec (f a) t) s \<Longrightarrow> norec (bindT m f) s"
  by (auto simp: norec_def bindT_def wp_def split: sum.splits prod.splits)

lemma norec_basic [simp]:
  "norec (retT a) s" "norec (execT u) s" "norec (queryT q) s" "norec (drawT f) s"
  "norec (signalT rid n p) s"
  by (simp_all add: norec_def drawT_def signalT_def run_simps)

lemma norec_query [simp]: "norec (bindT (queryT q) f) s = norec (f (q s)) s"
  by (simp add: norec_def run_simps)

lemma norec_exec [simp]: "norec (thenT (execT u) m) s = norec m (u s)"
  by (simp add: norec_def run_simps)

lemma norec_draw [simp]: "norec (bindT (drawT f) g) s = norec (g (f (draws s))) (s\<lparr>draws := Suc (draws s)\<rparr>)"
  by (simp add: norec_def drawT_def run_simps)

lemma norec_ret [simp]: "norec (bindT m (\<lambda>x. retT (g x))) s = norec m s"
  by (simp add: norec_def run_simps split: sum.splits prod.splits)

lemma norec_append [simp]: "norec (append E rid e) s"
  by (simp add: append_def split: option.splits)

lemma norec_tell [simp]: "norec (tell_parent run f) s"
  by (simp add: tell_parent_def split: option.splits)

lemma norec_insert [simp]: "norec (insert_run E spec) s"
  by (auto simp: insert_run_def split: option.splits)
     (auto simp: norec_def run_simps recursion_error_def thread_busy_def integrity_error_def drawT_def)

lemma norec_address [simp]: "norec (address a) s"
  by (simp add: norec_def address_def run_simps recursion_error_def split: sum.splits)

lemma bind_assoc: "bindT (bindT m f) g = bindT m (\<lambda>x. bindT (f x) g)"
  by (simp add: fun_eq_iff bindT_def split: sum.splits prod.splits)

lemma ret_bind: "bindT (retT a) f = f a"
  by (simp add: fun_eq_iff run_simps)

lemma norec_rescue [simp]: "norec (rescue_mail E run) s"
proof -
  have "norec (bindT (address a) (\<lambda>who. bindT (insert_run E (sp who)) (\<lambda>_. retT ()))) t" for a sp t
    by (rule norec_bind) (simp_all, simp add: wp_def split: sum.splits prod.splits)
  then show ?thesis by (simp add: rescue_mail_def bind_assoc ret_bind split: option.splits)
qed

lemma norec_forT:
  "(\<And>x s. x \<in> set xs \<Longrightarrow> I s \<Longrightarrow> norec (f x) s) \<Longrightarrow> (\<And>x. stable (kept I) (f x)) \<Longrightarrow> I s \<Longrightarrow>
   norec (forT f xs) s"
proof (induction xs arbitrary: s)
  case (Cons x xs)
  have "wp (f x) (\<lambda>_. norec (forT f xs)) s"
    using stable_kept_wp [OF Cons.prems(2) Cons.prems(3)]
    by (rule wp_mono) (use Cons in auto)
  then show ?case using Cons.prems(1,3) by (simp add: norec_bind)
qed simp

text \<open>Cancelling a run never makes a run active.\<close>

definition shrinks :: "db \<Rightarrow> db \<Rightarrow> bool" where
  "shrinks s t \<longleftrightarrow> active_count t \<le> active_count s"

interpretation shrink: frame shrinks
  by unfold_locales (auto simp: shrinks_def)

lemma filter_update_le:
  "(\<And>r. A (f r) \<Longrightarrow> A r) \<Longrightarrow> length (filter A (update_where P f rs)) \<le> length (filter A rs)"
  by (induction rs) (auto simp: update_where_def)

lemma filter_update_less:
  "(\<And>r. A (f r) \<Longrightarrow> A r) \<Longrightarrow> r \<in> set rs \<Longrightarrow> P r \<Longrightarrow> A r \<Longrightarrow> (\<And>r. \<not> A (f r)) \<Longrightarrow>
   length (filter A (update_where P f rs)) < length (filter A rs)"
proof (induction rs)
  case (Cons x rs)
  have le: "length (filter A (update_where P f rs)) \<le> length (filter A rs)"
    using Cons.prems(1) by (rule filter_update_le)
  show ?case using Cons le by (auto simp: update_where_def)
qed simp

lemma shrinks_runs: "runs t = runs s \<Longrightarrow> shrinks s t"
  by (simp add: shrinks_def active_count_def)

lemma shrinks_update:
  "(\<And>r. active_run (f r) \<Longrightarrow> active_run r) \<Longrightarrow> runs t = update_where P f (runs s) \<Longrightarrow> shrinks s t"
  unfolding shrinks_def active_count_def by (simp only:, rule filter_update_le)

lemma end_row_ended [simp]: "is_terminal (rr_status (end_row f now r))"
  by (simp add: end_row_def)

lemma shrink_append: "stable shrinks (append E rid e)"
  by (rule stableI) (auto simp: append_def shrinks_def active_count_def split: option.splits)

lemma shrink_signal: "stable shrinks (signalT rid name payload)"
proof -
  have "shrinks s (snd (signal_run rid name payload s))" for s
    using runs_signal [of rid name payload s] shrinks_runs [of _ s]
      shrinks_update [of wake_row "snd (signal_run rid name payload s)" "\<lambda>r. rr_run_id r = rid" s] by auto
  then show ?thesis by (auto simp: stable_def wp_def signalT_def split: prod.splits) (metis snd_conv)
qed

lemma shrink_end: "shrinks s (end_run rid f now s)"
  by (rule shrinks_update [where f = "end_row f now"]) auto

lemma shrink_draw: "stable shrinks (drawT f)"
  by (rule stableI) (simp add: shrinks_def active_count_def)

lemma shrink_tell: "stable shrinks (tell_parent run f)"
  unfolding tell_parent_def by (intro shrink.rules shrink_signal)

lemma shrink_ending:
  "final_kind f \<noteq> ''complete'' \<Longrightarrow> stable shrinks (terminate E n run f)"
  "stable shrinks (cancel_one E n rid reason)"
proof (induction E n run f and E n rid reason rule: terminate_cancel_one.induct)
  case (1 E run f)
  then show ?case by (simp add: terminate.simps stable_fail)
next
  case (2 E n run f)
  then show ?case unfolding terminate.simps
    by (intro shrink.rules shrink_tell shrink_draw shrink_append stable_exec shrink_end 2) simp_all
next
  case (3 E n rid reason)
  have "shrinks s (update_run rid (\<lambda>r. r\<lparr>rr_cancel_requested := True\<rparr>) s)" for s
    by (rule shrinks_update [where P = "\<lambda>r. rr_run_id r = rid" and f = "\<lambda>r. r\<lparr>rr_cancel_requested := True\<rparr>"]) simp_all
  then show ?case unfolding cancel_one.simps [of E n rid]
    by (auto intro!: shrink.rules stable_exec 3)
qed

lemma end_run_less:
  assumes "r \<in> set (runs s)" and "rr_run_id r = rid" and "active_run r"
  shows "active_count (end_run rid f now s) < active_count s"
  unfolding active_count_def tables_end_run using assms
  by (intro filter_update_less [where r = r]) auto

lemma norec_terminate_Suc:
  assumes below: "\<And>rid reason t. active_count t < n \<Longrightarrow> norec (cancel_one E n rid reason) t"
    and ended: "\<And>now t. runs t = runs s \<Longrightarrow> active_count (end_run (rr_run_id run) f now t) < n"
  shows "norec (terminate E (Suc n) run f) s"
proof -
  let ?rid = "rr_run_id run"
  let ?tail = "thenT (tell_parent run f)
    (thenT (if final_kind f \<noteq> ''complete'' then
              bindT (queryT (\<lambda>s. active_children s ?rid)) (\<lambda>kids.
                forT (\<lambda>c. bindT (cancel_one E n (rr_run_id c)
                        (''parent '' @ ?rid @ '' '' @ final_kind f)) (\<lambda>_. retT ())) kids)
            else retT ())
    (if final_kind f = ''complete'' then rescue_mail E run else retT ()))"
  have kids: "norec (forT (\<lambda>c. bindT (cancel_one E n (rr_run_id c) reason) (\<lambda>_. retT ())) cs) t"
    if "active_count t < n" for t cs reason
  proof (rule norec_forT [where I = "\<lambda>t. active_count t < n"])
    show "stable (kept (\<lambda>t. active_count t < n)) (bindT (cancel_one E n (rr_run_id c) reason) (\<lambda>_. retT ()))" for c
      by (rule stable_mono [OF shrink.bind [OF shrink_ending(2) shrink.ret]]) (auto simp: kept_def shrinks_def)
  qed (simp_all add: below that)
  have rest: "norec ?tail t" if "active_count t < n" for t
    using stable_wp [OF shrink_tell, of run f t] that
    by (intro norec_bind) (auto elim!: wp_mono simp: shrinks_def kids intro: norec_bind wp_intro)
  have logged: "wp (append E ?rid e) (\<lambda>_ t. runs t = runs s) (s\<lparr>draws := k\<rparr>)" for e k
    by (auto simp: append_def split: option.splits)
  show ?thesis
    unfolding terminate.simps norec_draw
  proof (rule norec_bind [OF norec_append], rule wp_mono [OF logged])
    fix t :: db assume "runs t = runs s"
    then show "norec (thenT (execT (end_run ?rid f (env_clock E (draws s)))) ?tail) t"
      unfolding norec_exec by (intro rest ended)
  qed
qed

lemma norec_ending:
  "active_count s < n \<Longrightarrow> norec (cancel_one E n rid reason) s"
  "active_count s < n \<Longrightarrow> r \<in> set (runs s) \<Longrightarrow> rr_run_id r = rr_run_id run \<Longrightarrow> active_run r \<Longrightarrow>
   norec (terminate E n run f) s"
proof (induction n arbitrary: s rid reason r run f)
  case (Suc n)
  have ends: "norec (terminate E (Suc n) run f) s"
    if "active_count s < Suc n" "r \<in> set (runs s)" "rr_run_id r = rr_run_id run" "active_run r" for s r run f
  proof (rule norec_terminate_Suc)
    show "norec (cancel_one E n rid reason) t" if "active_count t < n" for rid reason t
      using Suc.IH(1) that .
    show "active_count (end_run (rr_run_id run) f now t) < n" if "runs t = runs s" for now t
      using end_run_less [of r t "rr_run_id run" f now] that \<open>active_count s < Suc n\<close> \<open>r \<in> set (runs s)\<close>
        \<open>rr_run_id r = rr_run_id run\<close> \<open>active_run r\<close> by (simp add: active_count_def del: active_iff)
  qed
  { case 1
    have "norec (thenT (terminate E (Suc n) r (Cancel reason)) (retT True)) s"
      if "find_run s rid = Some r" "\<not> is_terminal (rr_status r)" for r
      using ends [OF 1, of r r "Cancel reason"] find_run_SomeD [OF that(1)] that(2) by simp
    then show ?case by (simp add: cancel_one.simps split: option.splits) }
  { case 2
    then show ?case by (rule ends) }
qed simp_all

text \<open>
  C7. Ending a run never overflows: with the depth its callers have (two more than the number of active
  runs), \<open>_terminate\<close> and \<open>_cancel_one\<close>, which call each other once per level of the tree of
  runs, never raise \<open>RecursionError\<close>, whatever the tables, even on a cycle of parents.
\<close>

theorem ending_terminates:
  "terminate_run E run f s \<noteq> Inl recursion_error \<and> cancel_run E rid reason s \<noteq> Inl recursion_error"
proof -
  have "norec (terminate E (depth_of s) run f) s"
  proof -
    have "active_count (end_run (rr_run_id run) f now t) \<le> active_count s" if "runs t = runs s" for now t
      using shrink_end [of t "rr_run_id run" f now] that by (simp add: shrinks_def active_count_def)
    then have "norec (terminate E (Suc (Suc (active_count s))) run f) s"
      by (intro norec_terminate_Suc) (auto intro: norec_ending simp: le_imp_less_Suc)
    then show ?thesis by (simp add: depth_of_def)
  qed
  moreover have "norec (cancel_one E (depth_of s) rid reason) s"
    by (rule norec_ending) (simp add: depth_of_def)
  ultimately show ?thesis by (simp add: norec_def terminate_run_def cancel_run_def run_simps)
qed

end
