(* ===== verification/Run_Cancel.thy ===== *)
theory Run_Cancel
  imports Run_Ending
begin

text \<open>
  \<open>request_cancel\<close>: the breadth-first walk over a tree of runs ends, lists every descendant with
  parents before children, and the cancellation in the reverse order leaves every run of the tree
  terminal or told to stop.
\<close>

section \<open>The walk\<close>

text \<open>The size of what is below a node, to a depth.\<close>

fun below :: "(string \<Rightarrow> string list) \<Rightarrow> nat \<Rightarrow> string \<Rightarrow> nat" where
  "below kids 0 x = 1"
| "below kids (Suc n) x = 1 + sum_list (map (below kids n) (kids x))"

lemma below_mono: "n \<le> m \<Longrightarrow> below kids n x \<le> below kids m x"
proof (induction n arbitrary: m x)
  case 0
  then show ?case by (cases m) simp_all
next
  case (Suc n)
  then obtain m' where "m = Suc m'" "n \<le> m'" by (cases m) auto
  with Suc.IH show ?case by (auto intro: sum_list_mono)
qed

definition graded :: "(string \<Rightarrow> nat) \<Rightarrow> nat \<Rightarrow> (string \<Rightarrow> string list) \<Rightarrow> bool" where
  "graded rank hi kids \<longleftrightarrow> (\<forall>x. \<forall>c \<in> set (kids x). rank x < rank c \<and> rank c \<le> hi)"

definition weight :: "(string \<Rightarrow> nat) \<Rightarrow> nat \<Rightarrow> (string \<Rightarrow> string list) \<Rightarrow> string \<Rightarrow> nat" where
  "weight rank hi kids x = below kids (hi - rank x) x"

lemma weight_kids:
  assumes "graded rank hi kids"
  shows "sum_list (map (weight rank hi kids) (kids x)) < weight rank hi kids x"
proof (cases "kids x")
  case Nil
  then show ?thesis by (cases "hi - rank x") (simp_all add: weight_def)
next
  case (Cons c cs)
  then have "c \<in> set (kids x)" by simp
  with assms have "rank x < hi" unfolding graded_def by (meson less_le_trans)
  then obtain n where n: "hi - rank x = Suc n" by (metis Suc_diff_Suc)
  have "weight rank hi kids c \<le> below kids n c" if "c \<in> set (kids x)" for c
    unfolding weight_def
    using assms that n by (intro below_mono) (auto simp: graded_def dest!: bspec)
  then have "sum_list (map (weight rank hi kids) (kids x)) \<le> sum_list (map (below kids n) (kids x))"
    by (intro sum_list_mono)
  then show ?thesis by (simp add: weight_def n)
qed

text \<open>Every node is followed by all its children.\<close>

definition parents_first :: "(string \<Rightarrow> string list) \<Rightarrow> string list \<Rightarrow> bool" where
  "parents_first kids vs \<longleftrightarrow> (\<forall>xs x ys. vs = xs @ x # ys \<longrightarrow> set (kids x) \<subseteq> set ys)"

lemma walk_graded:
  assumes "graded rank hi kids"
  shows "\<exists>vs. walk kids frontier order = Some (order @ vs) \<and> set frontier \<subseteq> set vs \<and> parents_first kids vs \<and>
    set vs \<subseteq> {y. \<exists>x \<in> set frontier. (\<lambda>x c. c \<in> set (kids x))\<^sup>*\<^sup>* x y}"
proof (induction "sum_list (map (weight rank hi kids) frontier)" arbitrary: frontier order rule: less_induct)
  case less
  show ?case
  proof (cases frontier)
    case Nil
    then show ?thesis by (simp add: walk.simps [of kids "[]"] parents_first_def)
  next
    case (Cons c rest)
    have "sum_list (map (weight rank hi kids) (rest @ kids c)) < sum_list (map (weight rank hi kids) frontier)"
      using weight_kids [OF assms, of c] Cons by simp
    from less [OF this, of "order @ [c]"] obtain vs where
      vs: "walk kids (rest @ kids c) (order @ [c]) = Some ((order @ [c]) @ vs)"
        "set (rest @ kids c) \<subseteq> set vs" "parents_first kids vs"
        "set vs \<subseteq> {y. \<exists>x \<in> set (rest @ kids c). (\<lambda>x c. c \<in> set (kids x))\<^sup>*\<^sup>* x y}"
      by blast
    have "walk kids frontier order = Some (order @ c # vs)"
      using Cons vs(1) by (simp add: walk.simps [of kids "c # rest"])
    moreover have "parents_first kids (c # vs)"
      using vs(2,3) by (auto simp: parents_first_def Cons_eq_append_conv)
    moreover have "set (c # vs) \<subseteq> {y. \<exists>x \<in> set frontier. (\<lambda>x c. c \<in> set (kids x))\<^sup>*\<^sup>* x y}"
    proof -
      have "\<exists>x \<in> set frontier. (\<lambda>x c. c \<in> set (kids x))\<^sup>*\<^sup>* x y" if "y \<in> set vs" for y
      proof -
        obtain x where x: "x \<in> set rest \<or> x \<in> set (kids c)" "(\<lambda>x c. c \<in> set (kids x))\<^sup>*\<^sup>* x y"
          using vs(4) \<open>y \<in> set vs\<close> by auto
        show ?thesis
        proof (cases "x \<in> set rest")
          case False
          with x have "(\<lambda>x c. c \<in> set (kids x))\<^sup>*\<^sup>* c y" by (auto intro: converse_rtranclp_into_rtranclp)
          with Cons show ?thesis by auto
        qed (use x Cons in auto)
      qed
      with Cons show ?thesis by auto
    qed
    ultimately show ?thesis using vs(2) Cons by (intro exI [of _ "c # vs"]) auto
  qed
qed

definition child_of :: "db \<Rightarrow> string \<Rightarrow> string \<Rightarrow> bool" where
  "child_of s x c \<longleftrightarrow> (\<exists>r \<in> set (runs s). rr_run_id r = c \<and> rr_parent r = Some x)"

definition acyclic_runs :: "db \<Rightarrow> bool" where
  "acyclic_runs s \<longleftrightarrow> (\<exists>rank :: string \<Rightarrow> nat. \<forall>r \<in> set (runs s). \<forall>p. rr_parent r = Some p \<longrightarrow>
     rank p < rank (rr_run_id r))"

lemma child_ids_iff: "c \<in> set (child_ids s x) \<longleftrightarrow> child_of s x c"
  by (auto simp: child_ids_def child_of_def)

lemma runs_graded:
  assumes "acyclic_runs s"
  obtains rank hi where "graded rank hi (child_ids s)"
proof -
  obtain rank :: "string \<Rightarrow> nat" where
    rank: "\<And>r p. r \<in> set (runs s) \<Longrightarrow> rr_parent r = Some p \<Longrightarrow> rank p < rank (rr_run_id r)"
    using assms by (auto simp: acyclic_runs_def)
  let ?hi = "Max (insert 0 (rank ` set (run_ids s)))"
  have "graded rank ?hi (child_ids s)"
    by (auto simp: graded_def child_ids_def run_ids_def rank)
  then show ?thesis using that by blast
qed

text \<open>The order of a cascading cancellation: the reverse of the walk.\<close>

lemma cancel_order_tree:
  assumes "acyclic_runs s"
  shows "\<exists>order. cancel_order s rid True = Some order \<and> set order = {x. (child_of s)\<^sup>*\<^sup>* rid x} \<and>
    parents_first (child_ids s) order"
proof -
  obtain rank hi where g: "graded rank hi (child_ids s)" using runs_graded [OF assms] .
  obtain order where order: "walk (child_ids s) [rid] [] = Some order" "rid \<in> set order"
    "parents_first (child_ids s) order" "set order \<subseteq> {y. (\<lambda>x c. c \<in> set (child_ids s x))\<^sup>*\<^sup>* rid y}"
    using walk_graded [OF g, of "[rid]" "[]"] by auto
  have "x \<in> set order" if "(child_of s)\<^sup>*\<^sup>* rid x" for x
    using that
  proof (induction rule: rtranclp_induct)
    case base
    show ?case using order(2) .
  next
    case (step x y)
    then obtain xs ys where "order = xs @ x # ys" by (meson split_list)
    with order(3) step(2) show ?case by (auto simp: parents_first_def child_ids_iff [symmetric])
  qed
  with order show ?thesis by (auto simp: cancel_order_def child_ids_iff)
qed

section \<open>Cancelling\<close>

text \<open>Progress: the invariant is kept and the rows evolve.\<close>

definition progress :: "db \<Rightarrow> db \<Rightarrow> bool" where
  "progress s t \<longleftrightarrow> (sched_inv s \<longrightarrow> sched_inv t) \<and> evolves s t"

lemma progress_intro: "kept sched_inv s t \<Longrightarrow> evolves s t \<Longrightarrow> progress s t"
  by (simp add: progress_def kept_def)

lemma progress_trans: "progress s t \<Longrightarrow> progress t u \<Longrightarrow> progress s u"
  by (auto simp: progress_def intro: evolves_trans)

interpretation prog: run_frame progress
  by unfold_locales
    ((erule progress_trans, assumption) |
     blast intro: progress_intro evolve.R_refl sched.R_refl
        sched.drawn sched.appended sched.spent sched.inserted sched.put sched.woken sched.signalled sched.acked
        sched.attempted sched.buried sched.spawned sched.ended sched.flagged sched.reclaimed sched.dropped
        evolve.drawn evolve.appended evolve.spent evolve.inserted evolve.put evolve.woken evolve.signalled
        evolve.acked evolve.attempted evolve.buried evolve.spawned evolve.ended evolve.flagged
        evolve.reclaimed evolve.dropped)+

text \<open>A run that is over, or that has been told to stop.\<close>

definition stopped :: "db \<Rightarrow> string \<Rightarrow> bool" where
  "stopped s rid \<longleftrightarrow> (case find_run s rid of None \<Rightarrow> False
     | Some r \<Rightarrow> is_terminal (rr_status r) \<or> rr_cancel_requested r)"

lemma stopped_progress:
  assumes "progress s t" and "sched_inv s" and "stopped s rid"
  shows "stopped t rid"
proof -
  obtain r where r: "find_run s rid = Some r" "is_terminal (rr_status r) \<or> rr_cancel_requested r"
    using assms(3) by (auto simp: stopped_def split: option.splits)
  obtain q where "find_run t rid = Some q" "row_evolves r q"
    using evolves_find [OF _ _ r(1)] assms(1,2) by (auto simp: progress_def)
  with r(2) show ?thesis by (auto simp: stopped_def row_evolves_def)
qed

lemma find_progress:
  assumes "progress s t" and "sched_inv s" and "find_run s rid \<noteq> None"
  shows "find_run t rid \<noteq> None"
  using assms evolves_find [of s t rid] by (auto simp: progress_def)

lemma stopped_ended:
  assumes "find_run s rid \<noteq> None"
  shows "stopped (end_run rid f now s) rid"
proof -
  have "find_run (end_run rid f now s) = find_run (update_run rid (end_row f now) s)"
    by (rule find_run_runs) simp
  moreover have "rr_run_id (end_row f now r) = rr_run_id r" for r by (simp add: end_row_def)
  ultimately show ?thesis using assms by (auto simp: stopped_def find_update_run)
qed

lemma terminate_stops:
  assumes inv: "sched_inv s" and found: "find_run s (rr_run_id run) \<noteq> None"
  shows "wp (terminate E n run f) (\<lambda>_ t. stopped t (rr_run_id run)) s"
proof (cases n)
  case 0
  then show ?thesis by (simp add: terminate.simps)
next
  case (Suc m)
  let ?rid = "rr_run_id run"
  let ?tail = "thenT (tell_parent run f)
    (thenT (if final_kind f \<noteq> ''complete'' then
              bindT (queryT (\<lambda>s. active_children s ?rid)) (\<lambda>kids.
                forT (\<lambda>c. bindT (cancel_one E m (rr_run_id c)
                        (''parent '' @ ?rid @ '' '' @ final_kind f)) (\<lambda>_. retT ())) kids)
            else retT ())
    (if final_kind f = ''complete'' then rescue_mail E run else retT ()))"
  have "stable progress ?tail"
    by (intro prog.primitive_rules prog.tell_rule prog.rescue_rule prog.ending_rule)
  then have tail: "wp ?tail (\<lambda>_ t. stopped t ?rid) u" if "sched_inv u" "stopped u ?rid" for u
    by (rule wp_mono [OF stable_wp]) (rule stopped_progress [OF _ that])
  have "wp (append E ?rid e) (\<lambda>_ u. sched_inv u \<and> runs u = runs s) (s\<lparr>draws := k\<rparr>)" for e k
    using inv by (auto simp: append_def sched_inv_def split: option.splits)
  then show ?thesis
    unfolding Suc terminate.simps wp_bind wp_draw wp_exec
  proof (rule wp_mono)
    fix a and u :: db assume "sched_inv u \<and> runs u = runs s"
    then have "sched_inv u" "find_run u ?rid \<noteq> None" using found by (simp_all add: find_run_def)
    then show "wp (tell_parent run f)
        (\<lambda>a. wp (if final_kind f \<noteq> ''complete'' then
              bindT (queryT (\<lambda>s. active_children s ?rid)) (\<lambda>kids.
                forT (\<lambda>c. bindT (cancel_one E m (rr_run_id c)
                        (''parent '' @ ?rid @ '' '' @ final_kind f)) (\<lambda>_. retT ())) kids)
            else retT ())
          (\<lambda>a. wp (if final_kind f = ''complete'' then rescue_mail E run else retT ())
            (\<lambda>_ t. stopped t ?rid))) (end_run ?rid f (env_clock E (draws s)) u)"
      using tail [OF sched_end_run stopped_ended] by simp
  qed
qed

lemma cancel_stops:
  assumes inv: "sched_inv s" and found: "find_run s rid \<noteq> None"
  shows "wp (cancel_run E rid reason) (\<lambda>_ t. stopped t rid) s"
proof -
  obtain r where r: "find_run s rid = Some r" using found by auto
  then have id: "rr_run_id r = rid" by (auto dest: find_run_SomeD)
  show ?thesis
    using terminate_stops [OF inv, of r] r id
    by (auto simp: cancel_run_def cancel_one.simps stopped_def find_update_run)
qed

lemma cancel_all_stops:
  assumes "sched_inv s" and "\<forall>rid \<in> set rids. find_run s rid \<noteq> None"
  shows "wp (cancel_all E reason rids) (\<lambda>ids t. set ids \<subseteq> set rids \<and> (\<forall>rid \<in> set rids. stopped t rid)) s"
  using assms
proof (induction rids arbitrary: s)
  case (Cons rid rids)
  have first: "wp (cancel_run E rid reason) (\<lambda>_ t. progress s t \<and> stopped t rid) s"
    using stable_wp [OF prog.cancel_rule] cancel_stops [OF Cons.prems(1)] Cons.prems(2)
    by (intro wp_conj) auto
  have rest: "wp (cancel_all E reason rids)
      (\<lambda>ids t. set ids \<subseteq> set rids \<and> (\<forall>x \<in> set (rid # rids). stopped t x)) u"
    if "progress s u" "stopped u rid" for u
  proof -
    have inv: "sched_inv u" using that Cons.prems(1) by (simp add: progress_def)
    have "wp (cancel_all E reason rids) (\<lambda>ids t. set ids \<subseteq> set rids \<and> (\<forall>x \<in> set rids. stopped t x)) u"
      using Cons.prems find_progress [OF that(1)] by (intro Cons.IH inv) auto
    moreover have "wp (cancel_all E reason rids) (\<lambda>_ t. stopped t rid) u"
      using stable_wp [OF prog.cancel_all_rule] by (rule wp_mono) (rule stopped_progress [OF _ inv that(2)])
    ultimately show ?thesis by (rule wp_mono [OF wp_conj]) auto
  qed
  from first have "wp (cancel_run E rid reason) (\<lambda>_ u. wp (cancel_all E reason rids)
      (\<lambda>ids t. set ids \<subseteq> set rids \<and> (\<forall>x \<in> set (rid # rids). stopped t x)) u) s"
    by (rule wp_mono) (blast intro: rest)
  then show ?case by simp (elim wp_mono, auto)
qed simp

text \<open>
  C9. Cancelling a tree. On tables whose parent links have no cycle, a cascading \<open>request_cancel\<close> always
  returns from its walk; when it commits, every run below the requested one (itself included) is terminal
  or has been told to stop, and only runs of that tree are reported as cancelled.
\<close>

theorem cancel_tree:
  assumes "reachable E s" and "acyclic_runs s" and "find_run s rid \<noteq> None"
  shows "\<exists>out. request_cancel E rid reason True s = Some out \<and>
    (\<forall>ids t. out = Inr (ids, t) \<longrightarrow>
      set ids \<subseteq> {x. (child_of s)\<^sup>*\<^sup>* rid x} \<and> (\<forall>x. (child_of s)\<^sup>*\<^sup>* rid x \<longrightarrow> stopped t x))"
proof -
  have inv: "sched_inv s" using reachable_inv [OF assms(1)] by (simp add: store_inv_def)
  obtain order where order: "cancel_order s rid True = Some order" "set order = {x. (child_of s)\<^sup>*\<^sup>* rid x}"
    using cancel_order_tree [OF assms(2)] by blast
  have "find_run s x \<noteq> None" if "(child_of s)\<^sup>*\<^sup>* rid x" for x
    using that assms(3)
  proof (induction rule: rtranclp_induct)
    case (step x y)
    then show ?case unfolding child_of_def by (metis find_run_NoneD)
  qed
  then have "wp (cancel_all E reason (rev order))
      (\<lambda>ids t. set ids \<subseteq> set (rev order) \<and> (\<forall>x \<in> set (rev order). stopped t x)) s"
    using order(2) by (intro cancel_all_stops inv) auto
  then show ?thesis
    using order by (auto simp: request_cancel_def dest: wp_run)
qed

definition demo_tree :: db where
  "demo_tree = after (create_run demo_env ((demo_spec ''k'')\<lparr>rs_parent := Some ''p''\<rparr>) [])
     (after (create_run demo_env (demo_spec ''p'') []) empty_db)"

lemma reachable_tree: "reachable demo_env demo_tree"
  unfolding demo_tree_def
  by (rule after_reachable [OF after_reachable [OF reachable.Start]]; rule run_step.Create)

theorem cancel_tree_witness:
  "\<exists>ids t. request_cancel demo_env ''p'' ''stop'' True demo_tree = Some (Inr (ids, t)) \<and> stopped t ''k''"
proof -
  have parents: "map (\<lambda>r. (rr_run_id r, rr_parent r)) (runs demo_tree) = [(''p'', None), (''k'', Some ''p'')]"
    by code_simp
  then obtain p k where rs: "runs demo_tree = [p, k]" "rr_run_id p = ''p''" "rr_parent p = None"
    "rr_run_id k = ''k''" "rr_parent k = Some ''p''" by (auto simp: map_eq_Cons_conv)
  have "acyclic_runs demo_tree"
    unfolding acyclic_runs_def by (rule exI [of _ "\<lambda>x. if x = ''k'' then 1 else 0"]) (simp add: rs)
  moreover have "find_run demo_tree ''p'' \<noteq> None" by (simp add: find_run_def rs)
  moreover have "(child_of demo_tree)\<^sup>*\<^sup>* ''p'' ''k''" by (rule r_into_rtranclp) (simp add: child_of_def rs)
  ultimately obtain out where out: "request_cancel demo_env ''p'' ''stop'' True demo_tree = Some out"
    "\<And>ids t. out = Inr (ids, t) \<Longrightarrow> stopped t ''k''"
    using cancel_tree [OF reachable_tree, of "''p''" "''stop''"] by blast
  have "(case request_cancel demo_env ''p'' ''stop'' True demo_tree of Some x \<Rightarrow> isl x | None \<Rightarrow> True) = False"
    by code_simp
  with out show ?thesis by (cases out) auto
qed

end
