(* ===== verification/Run_Spawns.thy ===== *)
theory Run_Spawns
  imports Run_Delivery
begin

text \<open>
  Spawning: at most one child per effect id, within the headcount of the tree and with the parent's
  accounts. Deleting: what is gone after a tenant is erased. And one journey through \<open>lease\<close> after
  which a run's status and its journal disagree.
\<close>

section \<open>Spawning\<close>

lemma insert_run_result:
  assumes "insert_run E spec s = Inr (row, t)"
  shows "\<exists>n rid now. row = fresh_row spec rid now \<and> \<not> violates_unique s rid (rs_thread_id spec) \<and>
    t = s\<lparr>draws := n, runs := runs s @ [row],
          run_accounts := foldl (\<lambda>ras n. add_run_account rid n ras) (run_accounts s) (rs_accounts spec)\<rparr>"
proof -
  have draws: "violates_unique (s\<lparr>draws := n\<rparr>) rid th = violates_unique s rid th" for n rid th
    by (cases th) (simp_all add: violates_unique_def)
  show ?thesis
    using assms
    by (auto simp: insert_run_def drawT_def run_simps draws split: option.splits if_splits)
qed

lemma deliver_quiet:
  "\<exists>ok. deliver E d False s = Inr (delivered ok None None, if ok then put_inbox d s else s)"
  by (auto simp: deliver_def accept_def run_simps Let_def)

lemma check_headcount_run:
  "check_headcount spec s = Inr (u, t) \<longleftrightarrow>
   t = s \<and> (\<forall>sv. rs_supervision spec = Some sv \<longrightarrow> int (tree_active s (sv_run_id sv)) < sv_max_agents sv)"
  by (auto simp: check_headcount_def run_simps split: option.splits)

lemma spawn_new:
  assumes "spawn E parent sw s = Inr (h, t)"
    and "List.find (\<lambda>x. sp_effect_id x = sw_effect_id sw) (spawns s) = None"
  shows "\<exists>row rid now. row = fresh_row ((sw_child sw)\<lparr>rs_parent := Some (rr_run_id parent),
            rs_accounts := fromkeys (rs_accounts (sw_child sw) @ accounts_of_run s (rr_run_id parent))\<rparr>) rid now \<and>
      \<not> violates_unique s rid (rs_thread_id (sw_child sw)) \<and>
      (\<forall>sv. rs_supervision (sw_child sw) = Some sv \<longrightarrow> int (tree_active s (sv_run_id sv)) < sv_max_agents sv) \<and>
      runs t = runs s @ [row] \<and>
      run_accounts t = foldl (\<lambda>ras n. add_run_account rid n ras) (run_accounts s)
        (fromkeys (rs_accounts (sw_child sw) @ accounts_of_run s (rr_run_id parent))) \<and>
      spawns t = spawns s @ [\<lparr>sp_effect_id = sw_effect_id sw, sp_child_run_id = rid\<rparr>] \<and>
      h = handle rid (rs_agent (sw_child sw)) (rr_run_id parent) (sw_boot sw)"
proof -
  let ?spec = "(sw_child sw)\<lparr>rs_parent := Some (rr_run_id parent),
    rs_accounts := fromkeys (rs_accounts (sw_child sw) @ accounts_of_run s (rr_run_id parent))\<rparr>"
  let ?d = "\<lparr>dv_agent = rs_agent (sw_child sw), dv_msg = sw_boot sw, dv_tenant = rs_tenant (sw_child sw),
    dv_accounts = []\<rparr>"
  from assms obtain u v row r where u: "check_headcount (sw_child sw) s = Inr ((), u)"
    and row: "insert_run E ?spec u = Inr (row, v)" and t: "u = s"
    and "\<exists>w. deliver E ?d False v = Inr (r, w) \<and>
      t = w\<lparr>spawns := spawns w @ [\<lparr>sp_effect_id = sw_effect_id sw, sp_child_run_id = rr_run_id row\<rparr>]\<rparr> \<and>
      h = handle (rr_run_id row) (rs_agent (sw_child sw)) (rr_run_id parent) (sw_boot sw)"
    by (auto simp: spawn_def bind_run queryT_def execT_def retT_def check_headcount_run split: option.splits)
  then obtain ok where
    t': "t = (if ok then put_inbox ?d v else v)\<lparr>spawns := spawns (if ok then put_inbox ?d v else v) @
        [\<lparr>sp_effect_id = sw_effect_id sw, sp_child_run_id = rr_run_id row\<rparr>]\<rparr>"
    "h = handle (rr_run_id row) (rs_agent (sw_child sw)) (rr_run_id parent) (sw_boot sw)"
    using deliver_quiet [of E ?d v] by auto
  have put: "spawns (if ok then put_inbox ?d v else v) = spawns v"
    "run_accounts (if ok then put_inbox ?d v else v) = run_accounts v" by (simp_all add: put_inbox_def)
  show ?thesis
    using insert_run_result [OF row] u t t' put by (auto simp: check_headcount_run)
qed

text \<open>
  A spawn happens once per effect id: replaying it returns the same handle and changes nothing, so a
  retried attempt never creates a second child.
\<close>

theorem spawn_once:
  assumes "spawn E parent sw s = Inr (h, t)" and "valid_actor (rs_agent (sw_child sw))"
  shows "spawn E parent sw t = Inr (h, t)"
proof (cases "List.find (\<lambda>x. sp_effect_id x = sw_effect_id sw) (spawns s)")
  case (Some x)
  with assms(1) have "t = s"
    by (auto simp: spawn_def bind_run queryT_def retT_def failT_def address_def liftT_def
        split: option.splits sum.splits)
  with assms(1) show ?thesis by simp
next
  case None
  obtain row rid now where row: "row = fresh_row ((sw_child sw)\<lparr>rs_parent := Some (rr_run_id parent),
            rs_accounts := fromkeys (rs_accounts (sw_child sw) @ accounts_of_run s (rr_run_id parent))\<rparr>) rid now"
    "\<not> violates_unique s rid (rs_thread_id (sw_child sw))"
    "runs t = runs s @ [row]" "spawns t = spawns s @ [\<lparr>sp_effect_id = sw_effect_id sw, sp_child_run_id = rid\<rparr>]"
    "h = handle rid (rs_agent (sw_child sw)) (rr_run_id parent) (sw_boot sw)"
    using spawn_new [OF assms(1) None] by blast
  have "List.find (\<lambda>x. sp_effect_id x = sw_effect_id sw) (spawns t) =
      Some \<lparr>sp_effect_id = sw_effect_id sw, sp_child_run_id = rid\<rparr>"
    unfolding row(4) using None by (rule find_snoc) simp
  moreover have "find_run t rid = Some row"
  proof -
    have "List.find (\<lambda>r. rr_run_id r = rid) (runs s) = None"
      using row(2) by (auto simp: violates_unique_def find_None_iff)
    then show ?thesis unfolding find_run_def row(3) by (rule find_snoc) (simp add: row(1))
  qed
  moreover have "address (rr_agent row) = retT (rs_agent (sw_child sw))"
    using actor_from_actor_str [OF assms(2)] by (simp add: row(1) address_def liftT_def)
  ultimately show ?thesis using row(5) by (simp add: spawn_def run_simps)
qed

text \<open>
  A new child fits its tree's headcount and is charged to its parent's accounts: a spawn that creates
  a run leaves at most \<open>max_agents\<close> active runs in the supervised tree, the child is a child of the
  spawning run in that tree, PENDING, and linked to every account the parent is linked to.
\<close>

theorem spawn_fits:
  assumes "spawn E parent sw s = Inr (h, t)" and "rs_supervision (sw_child sw) = Some sv"
    and "sw_effect_id sw \<notin> sp_effect_id ` set (spawns s)"
  shows "int (tree_active t (sv_run_id sv)) \<le> sv_max_agents sv \<and>
    (\<exists>row \<in> set (runs t). rr_run_id row = rh_run_id h \<and> rr_parent row = Some (rr_run_id parent) \<and>
       rr_tree_id row = sv_run_id sv \<and> rr_status row = PENDING) \<and>
    (\<forall>n. (rr_run_id parent, n) \<in> set (run_accounts s) \<longrightarrow> (rh_run_id h, n) \<in> set (run_accounts t))"
proof -
  have "List.find (\<lambda>x. sp_effect_id x = sw_effect_id sw) (spawns s) = None"
    using assms(3) by (force simp: find_None_iff)
  from spawn_new [OF assms(1) this] obtain row rid now where row:
    "row = fresh_row ((sw_child sw)\<lparr>rs_parent := Some (rr_run_id parent),
            rs_accounts := fromkeys (rs_accounts (sw_child sw) @ accounts_of_run s (rr_run_id parent))\<rparr>) rid now"
    "int (tree_active s (sv_run_id sv)) < sv_max_agents sv" "runs t = runs s @ [row]"
    "run_accounts t = foldl (\<lambda>ras n. add_run_account rid n ras) (run_accounts s)
        (fromkeys (rs_accounts (sw_child sw) @ accounts_of_run s (rr_run_id parent)))"
    "h = handle rid (rs_agent (sw_child sw)) (rr_run_id parent) (sw_boot sw)"
    using assms(2) by blast
  have fields: "rr_run_id row = rid" "rr_parent row = Some (rr_run_id parent)" "rr_tree_id row = sv_run_id sv"
    "rr_status row = PENDING" using assms(2) by (simp_all add: row(1) fresh_row_def)
  have links: "set (foldl (\<lambda>ras n. add_run_account rid n ras) ras ns) = set ras \<union> Pair rid ` set ns" for ns ras
    by (induction ns arbitrary: ras) (auto simp: add_run_account_def)
  have "n \<in> set (accounts_of_run s (rr_run_id parent))" if "(rr_run_id parent, n) \<in> set (run_accounts s)" for n
    using that by (force simp: accounts_of_run_def)
  then show ?thesis
    using row(2) fields by (auto simp: tree_active_def row(3,4,5) handle_def links)
qed

definition demo_spawn :: spawn_spec where
  "demo_spawn = \<lparr>sw_effect_id = ''e'', sw_child = (basic_spec helper ''t'')\<lparr>rs_run_id := Some ''c'',
     rs_supervision := Some (supervision_root ''r'' ''s'' helper None (Some 2) None RetainRun NORMAL)\<rparr>,
     sw_boot = letter ''boot''\<rparr>"

definition demo_parent :: run_row where
  "demo_parent = the (find_run demo_running ''r'')"

definition demo_spawned :: db where
  "demo_spawned = after (spawn demo_env demo_parent demo_spawn) demo_running"

lemma demo_spawn_runs:
  "\<exists>h. spawn demo_env demo_parent demo_spawn demo_running = Inr (h, demo_spawned) \<and> rh_run_id h = ''c''"
proof -
  have "map_sum id (\<lambda>x. rh_run_id (fst x)) (spawn demo_env demo_parent demo_spawn demo_running) = Inr ''c''"
    by code_simp
  then show ?thesis
    by (cases "spawn demo_env demo_parent demo_spawn demo_running") (auto simp: demo_spawned_def after_def)
qed

theorem spawn_once_witness:
  "\<exists>h. spawn demo_env demo_parent demo_spawn demo_spawned = Inr (h, demo_spawned) \<and> rh_run_id h = ''c''"
proof -
  have "valid_actor (rs_agent (sw_child demo_spawn))" by code_simp
  with demo_spawn_runs spawn_once show ?thesis by blast
qed

theorem spawn_fits_witness:
  "int (tree_active demo_spawned ''r'') \<le> 2 \<and> tree_active demo_spawned ''r'' = 2"
proof -
  obtain h where h: "spawn demo_env demo_parent demo_spawn demo_running = Inr (h, demo_spawned)"
    using demo_spawn_runs by blast
  have "sw_effect_id demo_spawn \<notin> sp_effect_id ` set (spawns demo_running)" by code_simp
  moreover have "rs_supervision (sw_child demo_spawn) =
      Some (supervision_root ''r'' ''s'' helper None (Some 2) None RetainRun NORMAL)"
    by (simp add: demo_spawn_def)
  ultimately have "int (tree_active demo_spawned ''r'') \<le> 2"
    using spawn_fits [OF h] by (simp add: supervision_root_def)
  moreover have "tree_active demo_spawned ''r'' = 2" by code_simp
  ultimately show ?thesis by simp
qed

section \<open>Erasing a tenant\<close>

lemma foldl_same: "(\<And>x s. g (u x s) = g s) \<Longrightarrow> g (foldl (\<lambda>s x. u x s) s xs) = g s"
  by (induction xs arbitrary: s) simp_all

lemma purge_all_events:
  "set (events (purge_all rows s)) = {e \<in> set (events s). \<forall>r \<in> set rows. ev_run_id e \<noteq> rr_run_id r}"
  unfolding purge_all_def by (induction rows arbitrary: s) auto

lemma purge_all_channels [simp]: "channels (purge_all rows s) = channels s"
  unfolding purge_all_def
  by (rule foldl_same [where g = channels])
     (simp add: purge_refs_def purge_run_def drop_signals_def clear_wakes_def)

lemma channels_deleted:
  "set (channels (foldl (\<lambda>s c. delete_channel (ch_channel c) s) s cs)) =
   {x \<in> set (channels s). \<forall>c \<in> set cs. ch_channel x \<noteq> ch_channel c}"
  by (induction cs arbitrary: s) (auto simp: delete_channel_def delete_account_def)



section \<open>A run whose journal and status disagree\<close>

text \<open>A parent and its child, both asleep past their deadlines, the parent first in the table.\<close>

definition demo_late :: db where
  "demo_late = after (create_run demo_env ((demo_spec ''k'')\<lparr>rs_parent := Some ''p'', rs_deadline := Some 150\<rparr>) [])
     (after (create_run demo_env ((demo_spec ''p'')\<lparr>rs_deadline := Some 150\<rparr>) []) empty_db)"

text \<open>
  The deadline pass of \<open>lease\<close> reads its rows once and then ends each with the row as it was read.
  When ending a parent has already cancelled its child, and the child is past its deadline too, the child
  is ended a second time: its status and result say FAILED, while the only terminal entry of its journal
  (the dedup key suppressed the second) says it was cancelled.
\<close>

theorem deadline_ends_child_twice:
  "(case lease_runs demo_env ''w'' 0 30 200 demo_late of
      Inr (_, t) \<Rightarrow> status_of t ''k'' = Some FAILED \<and>
        map ev_kind (filter (\<lambda>e. ev_run_id e = ''k'') (events t)) = [''run.cancelled'']
    | Inl _ \<Rightarrow> False)"
  by code_simp

end
