(* ===== verification/Channel_Store.thy ===== *)
theory Channel_Store
  imports Run_Spawns
begin

text \<open>
  Channels (\<open>runtime/channel.py\<close>, \<open>runtime/persistence/channels.py\<close>): one ordered log many
  parties write to. An append is one transaction: it is refused, or it gets the channel's next sequence
  number, moves the sender's cursor, and delivers a wake message to the inbox of each member whose mode
  says the entry deserves a look. Observers are told after the commit of the changes an operation returns,
  which here are part of its result.
\<close>

section \<open>Models\<close>

datatype wake_reason = Direct | Engaged | Ambient

fun reason_value :: "wake_reason \<Rightarrow> string" where
  "reason_value Direct = ''direct''"
| "reason_value Engaged = ''engaged''"
| "reason_value Ambient = ''ambient''"

definition everyone :: string where
  "everyone = ''everyone''"

definition is_person :: "participant_kind \<Rightarrow> bool" where
  "is_person k \<longleftrightarrow> k = Human \<or> k = External"

definition with_inbox :: "participant_kind \<Rightarrow> bool" where
  "with_inbox k \<longleftrightarrow> k = AgentKind \<or> k = SystemKind"

record member =
  mem_agent :: actor
  mem_mode :: chan_mode
  mem_cursor :: int
  mem_kind :: participant_kind
  mem_inbox :: "actor option"
  mem_delivered :: int
  mem_joined_seq :: int

definition basic_member :: "actor \<Rightarrow> chan_mode \<Rightarrow> participant_kind \<Rightarrow> member" where
  "basic_member who mode kind = \<lparr>mem_agent = who, mem_mode = mode, mem_cursor = - 1, mem_kind = kind,
     mem_inbox = None, mem_delivered = - 1, mem_joined_seq = 0\<rparr>"

text \<open>A \<open>ChannelEntry\<close> as a reader gets it: \<open>_entry\<close> of a row.\<close>

record channel_entry =
  ce_channel :: string
  ce_seq :: int
  ce_id :: string
  ce_sender :: actor
  ce_kind :: entry_kind
  ce_text :: string
  ce_mentions :: "string list"
  ce_reply_to :: "int option"
  ce_caused_by :: "string option"
  ce_cause_seq :: "int option"
  ce_depth :: int
  ce_data :: json
  ce_at :: seconds
  ce_edited_at :: "seconds option"
  ce_deleted_at :: "seconds option"

definition entry_of :: "entry_row \<Rightarrow> channel_entry dbtx" where
  "entry_of e = bindT (address (en_sender e)) (\<lambda>who. retT
     \<lparr>ce_channel = en_channel e, ce_seq = en_seq e, ce_id = en_id e, ce_sender = who, ce_kind = en_kind e,
      ce_text = en_text e, ce_mentions = en_mentions e, ce_reply_to = en_reply_to e,
      ce_caused_by = en_caused_by e, ce_cause_seq = en_cause_seq e, ce_depth = en_depth e,
      ce_data = (case en_data e of None \<Rightarrow> JObj [] | Some d \<Rightarrow> d), ce_at = en_at e,
      ce_edited_at = en_edited_at e, ce_deleted_at = en_deleted_at e\<rparr>)"

record change =
  cg_channel :: string
  cg_seq :: int
  cg_id :: string
  cg_kind :: entry_kind
  cg_sender :: actor

record channel_head =
  hd_channel :: string
  hd_latest :: "channel_entry option"
  hd_unread :: nat
  hd_cursor :: int

record append_result =
  ar_seq :: "int option"
  ar_id :: "string option"
  ar_stale :: bool
  ar_paused :: bool
  ar_latest :: int
  ar_woken :: "actor list"

definition refused :: "bool \<Rightarrow> bool \<Rightarrow> int \<Rightarrow> append_result" where
  "refused stale paused latest = \<lparr>ar_seq = None, ar_id = None, ar_stale = stale, ar_paused = paused,
     ar_latest = latest, ar_woken = []\<rparr>"

text \<open>The keyword arguments of \<open>channel_append\<close>.\<close>

record post =
  po_sender :: actor
  po_text :: string
  po_mentions :: "string list"
  po_reply_to :: "int option"
  po_caused_by :: "string option"
  po_read_up_to :: "int option"
  po_kind :: entry_kind
  po_dedup :: "string option"
  po_data :: "json option"
  po_cause_seq :: "int option"
  po_fresh :: bool

definition basic_post :: "actor \<Rightarrow> string \<Rightarrow> post" where
  "basic_post who txt = \<lparr>po_sender = who, po_text = txt, po_mentions = [], po_reply_to = None,
     po_caused_by = None, po_read_up_to = None, po_kind = MessageEntry, po_dedup = None, po_data = None,
     po_cause_seq = None, po_fresh = False\<rparr>"

section \<open>Channels and members\<close>

definition find_channel :: "db \<Rightarrow> string \<Rightarrow> channel_row option" where
  "find_channel s c = List.find (\<lambda>x. ch_channel x = c) (channels s)"

definition find_member :: "db \<Rightarrow> string \<Rightarrow> string \<Rightarrow> member_row option" where
  "find_member s c who = List.find (\<lambda>m. mb_channel m = c \<and> mb_member m = who) (members s)"

definition find_entry :: "db \<Rightarrow> string \<Rightarrow> int \<Rightarrow> entry_row option" where
  "find_entry s c sq = List.find (\<lambda>e. en_channel e = c \<and> en_seq e = sq) (entries s)"

definition update_channel :: "string \<Rightarrow> (channel_row \<Rightarrow> channel_row) \<Rightarrow> db \<Rightarrow> db" where
  "update_channel c f s = s\<lparr>channels := update_where (\<lambda>x. ch_channel x = c) f (channels s)\<rparr>"

definition update_member :: "string \<Rightarrow> string \<Rightarrow> (member_row \<Rightarrow> bool) \<Rightarrow> (member_row \<Rightarrow> member_row) \<Rightarrow> db \<Rightarrow> db" where
  "update_member c who P f s =
     s\<lparr>members := update_where (\<lambda>m. mb_channel m = c \<and> mb_member m = who \<and> P m) f (members s)\<rparr>"

definition update_entries :: "(entry_row \<Rightarrow> bool) \<Rightarrow> (entry_row \<Rightarrow> entry_row) \<Rightarrow> db \<Rightarrow> db" where
  "update_entries P f s = s\<lparr>entries := update_where P f (entries s)\<rparr>"

definition member_inbox :: "member \<Rightarrow> actor option" where
  "member_inbox m = (case mem_inbox m of Some a \<Rightarrow> Some a
     | None \<Rightarrow> if with_inbox (mem_kind m) then Some (mem_agent m) else None)"

definition set_member :: "string \<Rightarrow> member \<Rightarrow> db \<Rightarrow> db" where
  "set_member c m s =
     (let who = actor_str (mem_agent m); inb = map_option actor_str (member_inbox m) in
      if exists_where (\<lambda>x. mb_channel x = c \<and> mb_member x = who) (members s)
      then update_member c who (\<lambda>_. True)
             (\<lambda>x. x\<lparr>mb_mode := mem_mode m, mb_kind := mem_kind m, mb_inbox := inb\<rparr>) s
      else s\<lparr>members := members s @
             [\<lparr>mb_channel = c, mb_member = who, mb_mode = mem_mode m, mb_cursor = mem_cursor m,
               mb_kind = mem_kind m, mb_inbox = inb, mb_delivered = - 1,
               mb_joined_seq = (case find_channel s c of None \<Rightarrow> 0 | Some ch \<Rightarrow> ch_next_seq ch),
               mb_engaged_until = None, mb_exhausted_noticed = False\<rparr>]\<rparr>)"

definition channel_open :: "string \<Rightarrow> string \<Rightarrow> member list \<Rightarrow> int \<Rightarrow> seconds \<Rightarrow> unit dbtx" where
  "channel_open c tenant ms breaker engage_s =
     thenT (execT (\<lambda>s. if find_channel s c \<noteq> None then s
       else s\<lparr>channels := channels s @ [\<lparr>ch_channel = c, ch_tenant = tenant, ch_breaker = breaker,
                ch_next_seq = 0, ch_paused = False, ch_engage_s = engage_s\<rparr>]\<rparr>))
    (forT (\<lambda>m. execT (set_member c m)) ms)"

definition channel_configure :: "string \<Rightarrow> int option \<Rightarrow> seconds option \<Rightarrow> unit dbtx" where
  "channel_configure c breaker engage_s =
     thenT (case breaker of None \<Rightarrow> retT ()
       | Some b \<Rightarrow> execT (update_channel c (\<lambda>x. x\<lparr>ch_breaker := b\<rparr>)))
     (case engage_s of None \<Rightarrow> retT ()
       | Some w \<Rightarrow> execT (update_channel c (\<lambda>x. x\<lparr>ch_engage_s := w\<rparr>)))"

definition channel_set_member :: "string \<Rightarrow> member \<Rightarrow> unit dbtx" where
  "channel_set_member c m = execT (set_member c m)"

definition channel_remove_member :: "string \<Rightarrow> actor \<Rightarrow> unit dbtx" where
  "channel_remove_member c who = execT (\<lambda>s. s\<lparr>members := delete_where
     (\<lambda>m. mb_channel m = c \<and> mb_member m = actor_str who) (members s)\<rparr>)"

definition member_of :: "member_row \<Rightarrow> member dbtx" where
  "member_of r =
     bindT (address (mb_member r)) (\<lambda>who.
     bindT (case mb_inbox r of
         Some x \<Rightarrow> if x = [] then retT None else bindT (address x) (\<lambda>i. retT (Some i))
       | None \<Rightarrow> retT None) (\<lambda>inb.
     retT \<lparr>mem_agent = who, mem_mode = mb_mode r, mem_cursor = mb_cursor r, mem_kind = mb_kind r,
           mem_inbox = inb, mem_delivered = mb_delivered r, mem_joined_seq = mb_joined_seq r\<rparr>))"

definition channel_members :: "string \<Rightarrow> member list dbtx" where
  "channel_members c =
     bindT (queryT (\<lambda>s. sort_key mb_member (filter (\<lambda>m. mb_channel m = c) (members s)))) (mapT member_of)"

section \<open>Reading\<close>

definition channel_read :: "string \<Rightarrow> int \<Rightarrow> int \<Rightarrow> channel_entry list dbtx" where
  "channel_read c from_seq limit = bindT (queryT (\<lambda>s. limit_rows limit
     (sort_key en_seq (filter (\<lambda>e. en_channel e = c \<and> from_seq < en_seq e) (entries s))))) (mapT entry_of)"

text \<open>\<open>ORDER BY seq DESC LIMIT n\<close>, then reversed: the last rows, oldest first.\<close>

definition last_rows :: "int \<Rightarrow> entry_row list \<Rightarrow> entry_row list" where
  "last_rows n es = rev (limit_rows n (rev (sort_key en_seq es)))"

definition channel_last :: "string \<Rightarrow> int \<Rightarrow> channel_entry list dbtx" where
  "channel_last c limit = bindT (queryT (\<lambda>s. last_rows limit
     (filter (\<lambda>e. en_channel e = c) (entries s)))) (mapT entry_of)"

definition channel_read_before :: "string \<Rightarrow> int \<Rightarrow> int \<Rightarrow> channel_entry list dbtx" where
  "channel_read_before c before limit = bindT (queryT (\<lambda>s. last_rows limit
     (filter (\<lambda>e. en_channel e = c \<and> en_seq e < before) (entries s)))) (mapT entry_of)"

definition unread_count :: "db \<Rightarrow> string \<Rightarrow> string \<Rightarrow> int \<Rightarrow> nat" where
  "unread_count s c me cursor = length (filter (\<lambda>e. en_channel e = c \<and> en_kind e = MessageEntry \<and>
     en_deleted_at e = None \<and> cursor < en_seq e \<and> en_sender e \<noteq> me) (entries s))"

definition spoken :: "entry_kind \<Rightarrow> bool" where
  "spoken k \<longleftrightarrow> k = MessageEntry \<or> k = SystemEntry"

definition latest_spoken :: "db \<Rightarrow> string \<Rightarrow> entry_row option" where
  "latest_spoken s c = (case rev (sort_key en_seq (filter (\<lambda>e. en_channel e = c \<and> spoken (en_kind e)) (entries s))) of
     [] \<Rightarrow> None | e # _ \<Rightarrow> Some e)"

definition head_of :: "db \<Rightarrow> string \<Rightarrow> string \<Rightarrow> int \<Rightarrow> channel_head dbtx" where
  "head_of s me c cursor =
     bindT (case latest_spoken s c of None \<Rightarrow> retT None | Some e \<Rightarrow> bindT (entry_of e) (\<lambda>x. retT (Some x)))
       (\<lambda>latest. retT \<lparr>hd_channel = c, hd_latest = latest, hd_unread = unread_count s c me cursor, hd_cursor = cursor\<rparr>)"

definition channel_heads :: "string list \<Rightarrow> actor \<Rightarrow> channel_head list dbtx" where
  "channel_heads cs who = (if cs = [] then retT [] else
     bindT (queryT (\<lambda>s. (s, List.map_filter (\<lambda>c. map_option (\<lambda>m. (c, mb_cursor m)) (find_member s c (actor_str who))) cs)))
       (\<lambda>(s, found). mapT (\<lambda>(c, cursor). head_of s (actor_str who) c cursor) found))"

definition channel_delete :: "string \<Rightarrow> unit dbtx" where
  "channel_delete c = execT (delete_channel c)"

definition channel_mark_read :: "string \<Rightarrow> actor \<Rightarrow> int \<Rightarrow> unit dbtx" where
  "channel_mark_read c who pos = execT (update_member c (actor_str who) (\<lambda>m. mb_cursor m < pos)
     (\<lambda>m. m\<lparr>mb_cursor := pos\<rparr>))"

definition channel_mark_delivered :: "string \<Rightarrow> actor \<Rightarrow> int \<Rightarrow> unit dbtx" where
  "channel_mark_delivered c who pos = execT (update_member c (actor_str who) (\<lambda>m. mb_delivered m < pos)
     (\<lambda>m. m\<lparr>mb_delivered := pos\<rparr>))"

section \<open>Writing an entry\<close>

text \<open>\<open>_write_entry\<close>; an empty \<open>data\<close> is stored as NULL.\<close>

definition stored_data :: "json option \<Rightarrow> json option" where
  "stored_data d = (case d of None \<Rightarrow> None | Some j \<Rightarrow> if j = JObj [] then None else Some j)"

definition new_row :: "string \<Rightarrow> int \<Rightarrow> post \<Rightarrow> int \<Rightarrow> string \<Rightarrow> seconds \<Rightarrow> entry_row" where
  "new_row c sq p depth eid now = \<lparr>en_channel = c, en_seq = sq, en_id = eid,
     en_sender = actor_str (po_sender p), en_kind = po_kind p, en_text = po_text p, en_mentions = po_mentions p,
     en_reply_to = po_reply_to p, en_caused_by = po_caused_by p, en_cause_seq = po_cause_seq p,
     en_depth = depth, en_at = now, en_edited_at = None, en_deleted_at = None, en_dedup = po_dedup p,
     en_data = stored_data (po_data p)\<rparr>"

definition write_entry :: "env \<Rightarrow> string \<Rightarrow> int \<Rightarrow> post \<Rightarrow> int \<Rightarrow> string \<Rightarrow> unit dbtx" where
  "write_entry E c sq p depth eid =
     bindT (drawT (env_clock E)) (\<lambda>now. execT (\<lambda>s. s\<lparr>entries := entries s @ [new_row c sq p depth eid now]\<rparr>))"

definition write_marker ::
  "env \<Rightarrow> string \<Rightarrow> int \<Rightarrow> actor \<Rightarrow> entry_kind \<Rightarrow> string \<Rightarrow> int option \<Rightarrow> json option \<Rightarrow> change dbtx" where
  "write_marker E c sq who kind txt reply_to data =
     bindT (drawT (env_uuid E)) (\<lambda>eid.
     thenT (write_entry E c sq ((basic_post who txt)\<lparr>po_kind := kind, po_reply_to := reply_to, po_data := data\<rparr>) 0 eid)
    (thenT (execT (update_channel c (\<lambda>x. x\<lparr>ch_next_seq := sq + 1\<rparr>)))
    (retT \<lparr>cg_channel = c, cg_seq = sq, cg_id = eid, cg_kind = kind, cg_sender = who\<rparr>)))"

definition channel_actor :: actor where
  "channel_actor = Actor ''system'' ''channel''"

section \<open>Appending\<close>

text \<open>What an append is answered from the tables, before anything is written.\<close>

datatype admission =
    Repeated int string
  | RefusedPaused
  | RefusedStale
  | TooDeep int
  | Admitted int

definition cause_depth :: "db \<Rightarrow> string \<Rightarrow> int option \<Rightarrow> int" where
  "cause_depth s c cause = (case cause of
       Some q \<Rightarrow> (case find_entry s c q of None \<Rightarrow> 0 | Some e \<Rightarrow> en_depth e)
     | None \<Rightarrow> (case rev (sort_key en_seq (filter (\<lambda>e. en_channel e = c \<and> en_kind e = MessageEntry) (entries s))) of
           [] \<Rightarrow> 0 | e # _ \<Rightarrow> en_depth e))"

definition by_person :: "db \<Rightarrow> string \<Rightarrow> actor \<Rightarrow> bool" where
  "by_person s c who = (case find_member s c (actor_str who) of
       Some m \<Rightarrow> is_person (mb_kind m) | None \<Rightarrow> actor_type who = ''user'')"

definition spoken_after :: "db \<Rightarrow> string \<Rightarrow> int \<Rightarrow> string \<Rightarrow> bool" where
  "spoken_after s c sq me = exists_where (\<lambda>e. en_channel e = c \<and> sq < en_seq e \<and> en_sender e \<noteq> me \<and>
     en_kind e = MessageEntry) (entries s)"

definition find_dedup_entry :: "db \<Rightarrow> string \<Rightarrow> string option \<Rightarrow> entry_row option" where
  "find_dedup_entry s c key = (case key of None \<Rightarrow> None
     | Some k \<Rightarrow> List.find (\<lambda>e. en_channel e = c \<and> en_dedup e = Some k) (entries s))"

definition admission_of :: "db \<Rightarrow> channel_row \<Rightarrow> post \<Rightarrow> admission" where
  "admission_of s ch p =
     (let c = ch_channel ch; chained = (\<not> by_person s c (po_sender p) \<and> \<not> po_fresh p) in
      case find_dedup_entry s c (po_dedup p) of
        Some e \<Rightarrow> Repeated (en_seq e) (en_id e)
      | None \<Rightarrow>
          if chained \<and> ch_paused ch then RefusedPaused
          else if (case po_read_up_to p of None \<Rightarrow> False
                   | Some q \<Rightarrow> spoken_after s c q (actor_str (po_sender p))) then RefusedStale
          else if \<not> chained then Admitted 0
          else let depth = cause_depth s c (po_cause_seq p) + 1 in
               if ch_breaker ch < depth then TooDeep depth else Admitted depth)"

definition wake_reason_of ::
  "chan_mode \<Rightarrow> string \<Rightarrow> string list \<Rightarrow> string option \<Rightarrow> bool \<Rightarrow> wake_reason option" where
  "wake_reason_of mode addr mentions replied_to engaged =
     (let named = addr \<in> set mentions in
      if mode = ModeMuted then (if named then Some Direct else None)
      else if named \<or> everyone \<in> set mentions \<or> replied_to = Some addr then Some Direct
      else if engaged then Some Engaged
      else if mode = ModeAll then Some Ambient else None)"

definition wake_message :: "string \<Rightarrow> int \<Rightarrow> string \<Rightarrow> actor \<Rightarrow> actor \<Rightarrow> wake_reason \<Rightarrow> seconds \<Rightarrow> message" where
  "wake_message c sq addr target who reason now =
     \<lparr>msg_id = ''chan:'' @ c @ '':'' @ show_int sq @ '':'' @ addr, msg_schema_version = 1, msg_created_at = now,
      msg_target = ToActor target, msg_sender = who,
      msg_payload = JObj [(''kind'', JStr ''data''), (''data'', JObj [(''channel'', JStr c), (''seq'', JInt sq),
        (''reason'', JStr (reason_value reason))])],
      msg_correlation_id = ''chan:'' @ c, msg_causation_id = None, msg_metadata = JObj [], msg_reply_to = None\<rparr>"

definition wake_accounts :: "string \<Rightarrow> string \<Rightarrow> string \<Rightarrow> string list" where
  "wake_accounts c addr tenant = [''channel:'' @ c, ''agent:'' @ addr, ''tenant:'' @ tenant]"

text \<open>
  One member's turn in the loop of \<open>channel_append\<close>: \<open>Left\<close> nothing, \<open>Notice\<close> its budget ran out
  and it was not told, \<open>Woke\<close> its inbox was delivered to. \<open>m\<close> is the row as read before the loop.
\<close>

datatype wake_outcome = Left | Notice string | Woke actor

definition wake_member ::
  "env \<Rightarrow> channel_row \<Rightarrow> int \<Rightarrow> post \<Rightarrow> string option \<Rightarrow> seconds \<Rightarrow> member_row \<Rightarrow> wake_outcome dbtx" where
  "wake_member E ch sq p replied_to now m =
     (let c = ch_channel ch; addr = mb_member m in
      case mb_inbox m of
        None \<Rightarrow> retT Left
      | Some inb \<Rightarrow>
          (case wake_reason_of (mb_mode m) addr (po_mentions p) replied_to
                  (now < (case mb_engaged_until m of None \<Rightarrow> 0 | Some t \<Rightarrow> t)) of
             None \<Rightarrow> retT Left
           | Some reason \<Rightarrow>
               thenT (if reason = Direct
                      then execT (update_member c addr (\<lambda>_. True) (\<lambda>x. x\<lparr>mb_engaged_until := Some (now + ch_engage_s ch)\<rparr>))
                      else retT ())
              (bindT (accounts_exhausted (wake_accounts c addr (ch_tenant ch)) False) (\<lambda>out.
                 if out \<noteq> None then retT (if mb_exhausted_noticed m then Left else Notice addr)
                 else
               thenT (if mb_exhausted_noticed m
                      then execT (update_member c addr (\<lambda>_. True) (\<lambda>x. x\<lparr>mb_exhausted_noticed := False\<rparr>))
                      else retT ())
              (bindT (address inb) (\<lambda>target.
               bindT (drawT (env_clock E)) (\<lambda>created.
               bindT (deliver E \<lparr>dv_agent = target,
                        dv_msg = wake_message c sq addr target (po_sender p) reason created,
                        dv_tenant = ch_tenant ch, dv_accounts = wake_accounts c addr (ch_tenant ch)\<rparr> True) (\<lambda>_.
               retT (Woke target)))))))))"

definition notice_name :: "string \<Rightarrow> string dbtx" where
  "notice_name a = bindT (address a) (\<lambda>who.
     let n = fst (partition_at (CHR ''@'') (actor_key who)) in retT (if n = [] then a else n))"

text \<open>The one system entry that says whose budget ran out.\<close>

definition announce :: "env \<Rightarrow> string \<Rightarrow> int \<Rightarrow> string list \<Rightarrow> change list dbtx" where
  "announce E c sq addrs = (if addrs = [] then retT [] else
     thenT (forT (\<lambda>a. execT (update_member c a (\<lambda>_. True) (\<lambda>x. x\<lparr>mb_exhausted_noticed := True\<rparr>))) addrs)
    (bindT (mapT notice_name addrs) (\<lambda>names.
     bindT (write_marker E c (sq + 1) channel_actor SystemEntry
        (join_with '', '' names @ '' '' @ (if length names = 1 then ''has'' else ''have'') @
         '' used up the budget and will not answer until it is topped up.'')
        None (Some (JObj [(''budget_exhausted'', JList (map JStr addrs))]))) (\<lambda>n. retT [n]))))"

definition notices :: "wake_outcome list \<Rightarrow> string list" where
  "notices os = List.map_filter (\<lambda>x. case x of Notice a \<Rightarrow> Some a | _ \<Rightarrow> None) os"

definition targets :: "wake_outcome list \<Rightarrow> actor list" where
  "targets os = List.map_filter (\<lambda>x. case x of Woke a \<Rightarrow> Some a | _ \<Rightarrow> None) os"

text \<open>The wakes of an entry: the members but the sender, in the order of their addresses.\<close>

definition wake_members :: "env \<Rightarrow> channel_row \<Rightarrow> int \<Rightarrow> post \<Rightarrow> wake_outcome list dbtx" where
  "wake_members E ch sq p =
     (let c = ch_channel ch; me = actor_str (po_sender p) in
     bindT (queryT (\<lambda>s. case po_reply_to p of None \<Rightarrow> None
         | Some q \<Rightarrow> map_option en_sender (find_entry s c q))) (\<lambda>replied_to.
     bindT (drawT (env_clock E)) (\<lambda>now.
     thenT (execT (update_member c me (\<lambda>_. True) (\<lambda>x. x\<lparr>mb_engaged_until := Some (now + ch_engage_s ch)\<rparr>)))
    (bindT (queryT (\<lambda>s. sort_key mb_member (filter (\<lambda>m. mb_channel m = c \<and> mb_member m \<noteq> me) (members s)))) (\<lambda>ms.
     mapT (wake_member E ch sq p replied_to now) ms)))))"

definition post_entry :: "env \<Rightarrow> channel_row \<Rightarrow> post \<Rightarrow> int \<Rightarrow> (append_result \<times> change list) dbtx" where
  "post_entry E ch p depth =
     (let c = ch_channel ch; sq = ch_next_seq ch; me = actor_str (po_sender p) in
     bindT (queryT (\<lambda>s. by_person s c (po_sender p))) (\<lambda>person.
     bindT (drawT (env_uuid E)) (\<lambda>eid.
     thenT (write_entry E c sq p depth eid)
    (thenT (execT (update_channel c (\<lambda>x. x\<lparr>ch_next_seq := sq + 1, ch_paused := (if person then False else ch_paused ch)\<rparr>)))
    (thenT (execT (update_member c me (\<lambda>m. mb_cursor m < sq) (\<lambda>m. m\<lparr>mb_cursor := sq\<rparr>)))
    (bindT (wake_members E ch sq p) (\<lambda>os.
     bindT (announce E c sq (notices os)) (\<lambda>more.
     retT (\<lparr>ar_seq = Some sq, ar_id = Some eid, ar_stale = False, ar_paused = False,
            ar_latest = (if more = [] then sq else sq + 1), ar_woken = targets os\<rparr>,
           \<lparr>cg_channel = c, cg_seq = sq, cg_id = eid, cg_kind = po_kind p, cg_sender = po_sender p\<rparr> # more)))))))))"

definition channel_append :: "env \<Rightarrow> string \<Rightarrow> post \<Rightarrow> (append_result \<times> change list) dbtx" where
  "channel_append E c p =
     bindT (queryT (\<lambda>s. find_channel s c)) (\<lambda>found.
       case found of
         None \<Rightarrow> failT (PyExn ''KeyError'' c)
       | Some ch \<Rightarrow>
           bindT (queryT (\<lambda>s. admission_of s ch p)) (\<lambda>verdict.
             case verdict of
               Repeated sq eid \<Rightarrow> retT (\<lparr>ar_seq = Some sq, ar_id = Some eid, ar_stale = False, ar_paused = False,
                   ar_latest = ch_next_seq ch - 1, ar_woken = []\<rparr>, [])
             | RefusedPaused \<Rightarrow> retT (refused False True (ch_next_seq ch - 1), [])
             | RefusedStale \<Rightarrow> retT (refused True False (ch_next_seq ch - 1), [])
             | TooDeep depth \<Rightarrow>
                 bindT (write_marker E c (ch_next_seq ch) channel_actor SystemEntry
                   (''Paused: agents have spoken '' @ show_int (depth - 1) @ '' times in a row without a person. '' @
                    ''A new message from a person resumes the conversation.'') None None) (\<lambda>n.
                 thenT (execT (update_channel c (\<lambda>x. x\<lparr>ch_paused := True\<rparr>)))
                (retT (refused False True (cg_seq n), [n])))
             | Admitted depth \<Rightarrow> post_entry E ch p depth))"

section \<open>Editing, deleting, reacting\<close>

definition own_message :: "db \<Rightarrow> string \<Rightarrow> int \<Rightarrow> actor \<Rightarrow> (channel_row \<times> entry_row) option" where
  "own_message s c sq who = (case (find_channel s c, find_entry s c sq) of
       (Some ch, Some e) \<Rightarrow>
         if en_kind e \<noteq> MessageEntry \<or> en_sender e \<noteq> actor_str who \<or> en_deleted_at e \<noteq> None
         then None else Some (ch, e)
     | _ \<Rightarrow> None)"

definition channel_edit :: "env \<Rightarrow> string \<Rightarrow> int \<Rightarrow> actor \<Rightarrow> string \<Rightarrow> (int option \<times> change list) dbtx" where
  "channel_edit E c sq who txt =
     bindT (queryT (\<lambda>s. own_message s c sq who)) (\<lambda>found.
       case found of
         None \<Rightarrow> retT (None, [])
       | Some (ch, e) \<Rightarrow>
           bindT (drawT (env_clock E)) (\<lambda>now.
           thenT (execT (update_entries (\<lambda>x. en_channel x = c \<and> en_seq x = sq)
                    (\<lambda>x. x\<lparr>en_text := txt, en_edited_at := Some now\<rparr>)))
          (bindT (write_marker E c (ch_next_seq ch) who EditEntry txt (Some sq)
                    (Some (JObj [(''previous'', JStr (en_text e))]))) (\<lambda>n.
           retT (Some (cg_seq n), [n])))))"

definition channel_tombstone :: "env \<Rightarrow> string \<Rightarrow> int \<Rightarrow> actor \<Rightarrow> (int option \<times> change list) dbtx" where
  "channel_tombstone E c sq who =
     bindT (queryT (\<lambda>s. own_message s c sq who)) (\<lambda>found.
       case found of
         None \<Rightarrow> retT (None, [])
       | Some (ch, _) \<Rightarrow>
           bindT (drawT (env_clock E)) (\<lambda>now.
           thenT (execT (update_entries (\<lambda>x. en_channel x = c \<and> en_seq x = sq)
                    (\<lambda>x. x\<lparr>en_text := [], en_data := None, en_mentions := [], en_deleted_at := Some now\<rparr>)))
          (thenT (execT (update_entries (\<lambda>x. en_channel x = c \<and> en_kind x = EditEntry \<and> en_reply_to x = Some sq)
                    (\<lambda>x. x\<lparr>en_text := [], en_data := None\<rparr>)))
          (bindT (write_marker E c (ch_next_seq ch) who TombstoneEntry [] (Some sq) None) (\<lambda>n.
           retT (Some (cg_seq n), [n]))))))"

definition is_reaction :: "string \<Rightarrow> int \<Rightarrow> string \<Rightarrow> reaction_row \<Rightarrow> bool" where
  "is_reaction c sq me x \<longleftrightarrow> rx_channel x = c \<and> rx_seq x = sq \<and> rx_participant x = me"

definition set_reaction :: "string \<Rightarrow> int \<Rightarrow> string \<Rightarrow> string \<Rightarrow> int \<Rightarrow> db \<Rightarrow> db" where
  "set_reaction c sq me emoji marker s =
     (if emoji = [] then s\<lparr>reactions := delete_where (is_reaction c sq me) (reactions s)\<rparr>
      else if exists_where (is_reaction c sq me) (reactions s)
      then s\<lparr>reactions := update_where (is_reaction c sq me)
               (\<lambda>x. x\<lparr>rx_emoji := emoji, rx_marker_seq := marker\<rparr>) (reactions s)\<rparr>
      else s\<lparr>reactions := reactions s @ [\<lparr>rx_channel = c, rx_seq = sq, rx_participant = me, rx_emoji = emoji,
               rx_marker_seq = marker\<rparr>]\<rparr>)"

definition channel_react :: "env \<Rightarrow> string \<Rightarrow> int \<Rightarrow> actor \<Rightarrow> string \<Rightarrow> (int option \<times> change list) dbtx" where
  "channel_react E c sq who emoji =
     bindT (queryT (\<lambda>s. (find_channel s c, find_entry s c sq))) (\<lambda>found.
       case found of
         (Some ch, Some e) \<Rightarrow>
           if en_kind e \<noteq> MessageEntry then retT (None, [])
           else bindT (queryT (\<lambda>s. List.find (is_reaction c sq (actor_str who)) (reactions s))) (\<lambda>current.
             if (case current of None \<Rightarrow> [] | Some x \<Rightarrow> rx_emoji x) = emoji
             then retT (Some (case current of None \<Rightarrow> sq | Some x \<Rightarrow> rx_marker_seq x), [])
             else thenT (execT (set_reaction c sq (actor_str who) emoji (ch_next_seq ch)))
                 (bindT (write_marker E c (ch_next_seq ch) who ReactionEntry emoji (Some sq) None) (\<lambda>n.
                  retT (Some (cg_seq n), [n]))))
       | _ \<Rightarrow> retT (None, []))"

text \<open>The dict of dicts \<open>channel_reactions\<close> builds: by sequence number, then by participant.\<close>

definition channel_reactions :: "string \<Rightarrow> int list \<Rightarrow> (int \<times> (string \<times> string) list) list dbtx" where
  "channel_reactions c seqs = (if seqs = [] then retT [] else queryT (\<lambda>s.
     let rows = sort_key (\<lambda>x. (rx_seq x, rx_participant x))
           (filter (\<lambda>x. rx_channel x = c \<and> rx_seq x \<in> set seqs) (reactions s))
     in map (\<lambda>q. (q, map (\<lambda>x. (rx_participant x, rx_emoji x)) (filter (\<lambda>x. rx_seq x = q) rows)))
          (fromkeys (map rx_seq rows))))"

end
