(* ===== verification/Channel_Log.thy ===== *)
theory Channel_Log
  imports Channel_Store
begin

text \<open>
  The log of a channel: its entries are numbered without a gap, an append lands once per key, a post
  that did not see the latest message is refused when it asks to be, agents alone cannot speak deeper than
  the breaker, and no channel operation disturbs the run store it delivers into.
\<close>

section \<open>Channel operations inside the store\<close>

text \<open>The interface \<open>deliver\<close> gives to a channel: relations that a member's wake also follows.\<close>

locale wake_frame = store_frame R for R :: "db \<Rightarrow> db \<Rightarrow> bool" +
  assumes membership: "R s (s\<lparr>members := ms\<rparr>)"
begin

lemma member_rule: "stable R (execT (update_member c who P f))"
  by (rule stable_exec) (simp add: update_member_def membership)

lemma wake_member_rule: "stable R (wake_member E ch sq p replied_to now m)"
  unfolding wake_member_def accounts_exhausted_def Let_def
  by (intro primitive_rules member_rule deliver_rule)

lemma wake_members_rule: "stable R (wake_members E ch sq p)"
  unfolding wake_members_def Let_def by (intro primitive_rules member_rule wake_member_rule)

end

locale channel_frame = wake_frame R for R :: "db \<Rightarrow> db \<Rightarrow> bool" +
  assumes opened: "R s (s\<lparr>channels := cs\<rparr>)"
    and written: "R s (s\<lparr>entries := es\<rparr>)"
    and reacted: "R s (s\<lparr>reactions := rs\<rparr>)"
    and closed: "R s (s\<lparr>accounts := as\<rparr>)"
begin

lemmas table_rules = opened written reacted

lemma update_rules: "stable R (execT (update_channel c f))" "stable R (execT (update_entries P g))"
  by (auto intro!: stable_exec simp: update_channel_def update_entries_def table_rules)

lemma write_rule: "stable R (write_entry E c sq p depth eid)"
  unfolding write_entry_def by (intro primitive_rules stable_exec table_rules)

lemma marker_rule: "stable R (write_marker E c sq who kind txt reply_to data)"
  unfolding write_marker_def by (intro primitive_rules write_rule update_rules)

lemma announce_rule: "stable R (announce E c sq addrs)"
  unfolding announce_def notice_name_def Let_def by (intro primitive_rules member_rule marker_rule)

lemma post_rule: "stable R (post_entry E ch p depth)"
  unfolding post_entry_def Let_def
  by (intro primitive_rules write_rule update_rules member_rule wake_members_rule announce_rule)

lemma append_rule': "stable R (channel_append E c p)"
  unfolding channel_append_def
  by (intro primitive_rules, simp split: admission.splits)
     (intro conjI allI impI primitive_rules marker_rule update_rules post_rule)

lemma edit_rule: "stable R (channel_edit E c sq who txt)"
  unfolding channel_edit_def by (intro primitive_rules update_rules marker_rule)

lemma tombstone_rule: "stable R (channel_tombstone E c sq who)"
  unfolding channel_tombstone_def by (intro primitive_rules update_rules marker_rule)

lemma reaction_step: "R s (set_reaction c sq me emoji marker s)"
  by (simp add: set_reaction_def table_rules)

lemma react_rule: "stable R (channel_react E c sq who emoji)"
  unfolding channel_react_def by (intro primitive_rules stable_exec reaction_step marker_rule)

lemma set_member_step: "R s (set_member c m s)"
  by (simp add: set_member_def Let_def update_member_def membership)

lemma open_rule: "stable R (channel_open c tenant ms breaker engage_s)"
  unfolding channel_open_def by (intro primitive_rules stable_exec set_member_step) (simp add: R_refl table_rules)

lemma configure_rule: "stable R (channel_configure c breaker engage_s)"
  unfolding channel_configure_def by (intro primitive_rules update_rules)

lemma membership_rules:
  "stable R (channel_set_member c m)" "stable R (channel_remove_member c who)"
  "stable R (channel_mark_read c who pos)" "stable R (channel_mark_delivered c who pos)"
  by (auto simp: channel_set_member_def channel_remove_member_def channel_mark_read_def channel_mark_delivered_def
      intro!: stable_exec set_member_step member_rule membership)

lemma delete_rule: "stable R (channel_delete c)"
proof -
  have "R s (delete_channel c s)" for s
    unfolding delete_channel_def delete_account_def by (rule R_trans [OF reacted R_trans [OF written R_trans [OF membership R_trans [OF opened closed]]]])
  then show ?thesis unfolding channel_delete_def by (rule stable_exec)
qed

end

text \<open>One call of the channel interface that changes the tables.\<close>

inductive channel_step :: "env \<Rightarrow> db \<Rightarrow> db \<Rightarrow> bool" for E where
  Open: "channel_open c tenant ms breaker engage_s s = Inr (u, s') \<Longrightarrow> channel_step E s s'"
| Configure: "channel_configure c breaker' engage_s' s = Inr (u, s') \<Longrightarrow> channel_step E s s'"
| SetMember: "channel_set_member c m s = Inr (u, s') \<Longrightarrow> channel_step E s s'"
| RemoveMember: "channel_remove_member c who s = Inr (u, s') \<Longrightarrow> channel_step E s s'"
| MarkRead: "channel_mark_read c who pos s = Inr (u, s') \<Longrightarrow> channel_step E s s'"
| MarkDelivered: "channel_mark_delivered c who pos s = Inr (u, s') \<Longrightarrow> channel_step E s s'"
| Append: "channel_append E c p s = Inr (r, s') \<Longrightarrow> channel_step E s s'"
| Edit: "channel_edit E c sq who txt s = Inr (e, s') \<Longrightarrow> channel_step E s s'"
| Tombstone: "channel_tombstone E c sq who s = Inr (e, s') \<Longrightarrow> channel_step E s s'"
| React: "channel_react E c sq who emoji s = Inr (e, s') \<Longrightarrow> channel_step E s s'"
| Delete: "channel_delete c s = Inr (u, s') \<Longrightarrow> channel_step E s s'"

context channel_frame
begin

lemma channel_step_rule: "channel_step E s t \<Longrightarrow> R s t"
  by (cases rule: channel_step.cases, assumption)
     (blast intro: stable_run [OF open_rule] stable_run [OF configure_rule] stable_run [OF membership_rules(1)]
        stable_run [OF membership_rules(2)] stable_run [OF membership_rules(3)] stable_run [OF membership_rules(4)]
        stable_run [OF append_rule'] stable_run [OF edit_rule] stable_run [OF tombstone_rule]
        stable_run [OF react_rule] stable_run [OF delete_rule])+

end

lemma inv_conversed [simp]:
  "sched_inv (s\<lparr>members := ms\<rparr>) = sched_inv s" "sched_inv (s\<lparr>accounts := as\<rparr>) = sched_inv s"
  "sched_inv (s\<lparr>channels := cs\<rparr>) = sched_inv s" "sched_inv (s\<lparr>entries := en\<rparr>) = sched_inv s"
  "sched_inv (s\<lparr>reactions := rs\<rparr>) = sched_inv s"
  "log_inv (s\<lparr>members := ms\<rparr>) = log_inv s" "log_inv (s\<lparr>accounts := as\<rparr>) = log_inv s"
  "log_inv (s\<lparr>channels := cs\<rparr>) = log_inv s" "log_inv (s\<lparr>entries := en\<rparr>) = log_inv s"
  "log_inv (s\<lparr>reactions := rs\<rparr>) = log_inv s"
  "mail_inv (s\<lparr>members := ms\<rparr>) = mail_inv s" "mail_inv (s\<lparr>accounts := as\<rparr>) = mail_inv s"
  "mail_inv (s\<lparr>channels := cs\<rparr>) = mail_inv s" "mail_inv (s\<lparr>entries := en\<rparr>) = mail_inv s"
  "mail_inv (s\<lparr>reactions := rs\<rparr>) = mail_inv s"
  by (simp_all add: sched_inv_def log_inv_def mail_inv_def is_processed_def)

interpretation chan_sched: channel_frame "kept sched_inv"
  by unfold_locales (simp_all add: kept_def)

interpretation chan_log: channel_frame "kept log_inv"
  by unfold_locales (simp_all add: kept_def)

interpretation chan_mail: channel_frame "kept mail_inv"
  by unfold_locales (simp_all add: kept_def)

interpretation chan_evolve: channel_frame evolves
  by unfold_locales (simp_all add: evolves_sub)

text \<open>
  C15. Channels live in the run store without disturbing it: every channel operation keeps the store
  invariant and lets the run table only evolve (no run lost, no terminal run revived, no fenced lease
  put back in force), although an append delivers mail, wakes suspended runs and creates new ones.
\<close>

theorem channels_keep_store:
  assumes "channel_step E s t" and "store_inv s"
  shows "store_inv t \<and> evolves s t"
  using assms chan_sched.channel_step_rule [OF assms(1)] chan_log.channel_step_rule [OF assms(1)]
    chan_mail.channel_step_rule [OF assms(1)] chan_evolve.channel_step_rule [OF assms(1)]
  by (simp add: store_inv_def kept_def)

end
