(* ===== verification/Channel_Inv.thy ===== *)
theory Channel_Inv
  imports Channel_Log
begin

text \<open>
  The invariant of the channel tables and what an append, an edit, a delete and a reaction do to them.
\<close>

section \<open>The invariant\<close>

definition seqs_in :: "string \<Rightarrow> entry_row list \<Rightarrow> int list" where
  "seqs_in c es = map en_seq (filter (\<lambda>e. en_channel e = c) es)"

definition keys_apart :: "entry_row \<Rightarrow> entry_row \<Rightarrow> bool" where
  "keys_apart e f \<longleftrightarrow> (en_channel e = en_channel f \<longrightarrow> en_dedup e \<noteq> None \<longrightarrow> en_dedup e \<noteq> en_dedup f)"

definition chan_ok :: "channel_row list \<Rightarrow> entry_row list \<Rightarrow> bool" where
  "chan_ok chs es \<longleftrightarrow> distinct (map ch_channel chs) \<and>
     (\<forall>e \<in> set es. en_channel e \<in> ch_channel ` set chs) \<and>
     (\<forall>ch \<in> set chs. 0 \<le> ch_next_seq ch \<and> seqs_in (ch_channel ch) es = map int [0..<nat (ch_next_seq ch)]) \<and>
     sorted_wrt keys_apart es"

definition channel_inv :: "db \<Rightarrow> bool" where
  "channel_inv s \<longleftrightarrow> chan_ok (channels s) (entries s)"

lemma chan_ok_find:
  assumes "chan_ok (channels s) (entries s)" and "find_channel s c = Some ch"
  shows "ch \<in> set (channels s)" "ch_channel ch = c" "0 \<le> ch_next_seq ch"
    "seqs_in c (entries s) = map int [0..<nat (ch_next_seq ch)]"
proof -
  show ch: "ch \<in> set (channels s)" "ch_channel ch = c"
    using assms(2) find_SomeD unfolding find_channel_def by fastforce+
  then show "0 \<le> ch_next_seq ch" "seqs_in c (entries s) = map int [0..<nat (ch_next_seq ch)]"
    using assms(1) by (auto simp: chan_ok_def)
qed

lemma chan_ok_append:
  assumes ok: "chan_ok chs es" and ch: "ch \<in> set chs" "ch_channel ch = c" "ch_next_seq ch = sq"
    and e: "en_channel e = c" "en_seq e = sq"
    and fresh: "\<And>x. x \<in> set es \<Longrightarrow> en_channel x = c \<Longrightarrow> en_dedup x \<noteq> None \<Longrightarrow> en_dedup x \<noteq> en_dedup e"
    and f: "\<And>x. ch_channel (f x) = ch_channel x" "\<And>x. ch_next_seq (f x) = sq + 1"
  shows "chan_ok (update_where (\<lambda>x. ch_channel x = c) f chs) (es @ [e])"
proof -
  have names: "map ch_channel (update_where (\<lambda>x. ch_channel x = c) f chs) = map ch_channel chs"
    by (rule map_update_where) (simp add: f)
  then have names': "ch_channel ` set (update_where (\<lambda>x. ch_channel x = c) f chs) = ch_channel ` set chs"
    by (metis set_map)
  have only: "x = ch" if "x \<in> set chs" "ch_channel x = c" for x
    using ok that ch by (auto simp: chan_ok_def distinct_map dest: inj_onD)
  have "0 \<le> ch_next_seq x \<and> seqs_in (ch_channel x) (es @ [e]) = map int [0..<nat (ch_next_seq x)]"
    if "x \<in> set (update_where (\<lambda>x. ch_channel x = c) f chs)" for x
  proof -
    from that obtain y where y: "y \<in> set chs" "x = (if ch_channel y = c then f y else y)"
      by (auto simp: set_update_where)
    have old: "0 \<le> ch_next_seq y" "seqs_in (ch_channel y) es = map int [0..<nat (ch_next_seq y)]"
      using ok y(1) by (auto simp: chan_ok_def)
    show ?thesis
    proof (cases "ch_channel y = c")
      case True
      with only [OF y(1)] ch(3) have "ch_next_seq y = sq" by simp
      with old True y(2) e show ?thesis
        by (auto simp: f seqs_in_def nat_add_distrib)
    next
      case False
      with old y(2) e show ?thesis by (simp add: seqs_in_def)
    qed
  qed
  moreover have "sorted_wrt keys_apart (es @ [e])"
    using ok fresh e by (auto simp: chan_ok_def sorted_wrt_append keys_apart_def)
  moreover have "\<forall>x \<in> set (es @ [e]). en_channel x \<in> ch_channel ` set chs"
    using ok ch e by (auto simp: chan_ok_def)
  ultimately show ?thesis using ok unfolding chan_ok_def names names' by blast
qed

lemma chan_ok_channels:
  assumes "chan_ok chs es" and "\<And>x. ch_channel (f x) = ch_channel x" and "\<And>x. ch_next_seq (f x) = ch_next_seq x"
  shows "chan_ok (update_where P f chs) es"
proof -
  have "map ch_channel (update_where P f chs) = map ch_channel chs"
    by (rule map_update_where) (simp add: assms(2))
  moreover from this have "ch_channel ` set (update_where P f chs) = ch_channel ` set chs" by (metis set_map)
  ultimately show ?thesis
    using assms unfolding chan_ok_def by (auto simp: set_update_where)
qed

lemma chan_ok_entries:
  assumes "chan_ok chs es" and "\<And>e. en_channel (f e) = en_channel e" and "\<And>e. en_seq (f e) = en_seq e"
    and "\<And>e. en_dedup (f e) = en_dedup e"
  shows "chan_ok chs (update_where P f es)"
proof -
  have "seqs_in c (update_where P f es) = seqs_in c es" for c
    using assms(2,3) unfolding seqs_in_def update_where_def by (induction es) auto
  moreover have "keys_apart (if P x then f x else x) (if P y then f y else y) = keys_apart x y" for x y
    by (simp add: keys_apart_def assms(2,4))
  then have "sorted_wrt keys_apart (update_where P f es)"
    using assms(1) by (simp add: chan_ok_def update_where_def sorted_wrt_map)
  ultimately show ?thesis
    using assms(1,2) unfolding chan_ok_def by (auto simp: set_update_where)
qed

text \<open>What a wake leaves of the channel tables: everything but the members' rows.\<close>

definition log_same :: "db \<Rightarrow> db \<Rightarrow> bool" where
  "log_same s t \<longleftrightarrow> channels t = channels s \<and> entries t = entries s \<and> reactions t = reactions s"

lemma log_tables [simp]:
  "channels (add_spend rid sp s) = channels s" "entries (add_spend rid sp s) = entries s"
  "reactions (add_spend rid sp s) = reactions s"
  "channels (snd (signal_run rid n p s)) = channels s" "entries (snd (signal_run rid n p s)) = entries s"
  "reactions (snd (signal_run rid n p s)) = reactions s"
  "channels (make_pending rid s) = channels s" "entries (make_pending rid s) = entries s"
  "reactions (make_pending rid s) = reactions s"
  by (simp_all add: add_spend_def Let_def signal_run_def buffer_signal_def make_pending_def clear_wakes_def
      update_run_def split: option.splits)

interpretation wakes: wake_frame log_same
  by unfold_locales (simp_all add: log_same_def put_inbox_def ack_one_def Let_def put_dead_def)

lemma log_same_inv: "log_same s t \<Longrightarrow> channel_inv t = channel_inv s"
  by (simp add: log_same_def channel_inv_def)

lemma log_same_find: "log_same s t \<Longrightarrow> find_channel t = find_channel s"
  by (simp add: log_same_def find_channel_def fun_eq_iff)

lemma wp_write_marker:
  assumes inv: "channel_inv s" and ch: "find_channel s c = Some ch" "ch_next_seq ch = sq"
  shows "wp (write_marker E c sq who kind txt rt data) (\<lambda>n t. channel_inv t \<and> cg_seq n = sq) s"
  using chan_ok_append [OF inv [unfolded channel_inv_def] chan_ok_find(1,2) [OF inv [unfolded channel_inv_def] ch(1)] ch(2)]
  by (auto simp: write_marker_def write_entry_def update_channel_def channel_inv_def basic_post_def new_row_def)

section \<open>Every operation keeps it\<close>

lemma channel_inv_members [simp]: "channel_inv (s\<lparr>members := ms\<rparr>) = channel_inv s"
  by (simp add: channel_inv_def)

lemma channel_inv_member [simp]:
  "channel_inv (update_member c who P f s) = channel_inv s" "channel_inv (set_member c m s) = channel_inv s"
  by (simp_all add: update_member_def set_member_def Let_def)

lemma inv_announce:
  assumes "channel_inv s" and "find_channel s c = Some ch" and "ch_next_seq ch = sq + 1"
  shows "wp (announce E c sq addrs) (\<lambda>_. channel_inv) s"
proof (cases "addrs = []")
  case True
  with assms show ?thesis by (simp add: announce_def)
next
  case False
  let ?ok = "\<lambda>t. channel_inv t \<and> find_channel t c = Some ch"
  have same: "stable log_same (thenT (forT (\<lambda>a. execT (update_member c a (\<lambda>_. True) (\<lambda>x. x\<lparr>mb_exhausted_noticed := True\<rparr>))) addrs)
      (mapT notice_name addrs))"
    unfolding notice_name_def Let_def by (intro wakes.primitive_rules wakes.member_rule)
  have "wp (thenT (forT (\<lambda>a. execT (update_member c a (\<lambda>_. True) (\<lambda>x. x\<lparr>mb_exhausted_noticed := True\<rparr>))) addrs)
      (mapT notice_name addrs)) (\<lambda>_. ?ok) s"
    using stable_wp [OF same, of s] by (rule wp_mono) (use assms in \<open>simp add: log_same_inv log_same_find\<close>)
  then show ?thesis
    using False assms(3)
    by (auto simp: announce_def elim!: wp_mono intro!: wp_mono [OF wp_write_marker])
qed

lemma dedup_entry_NoneD:
  "find_dedup_entry s c key = None \<Longrightarrow> e \<in> set (entries s) \<Longrightarrow> en_channel e = c \<Longrightarrow> en_dedup e \<noteq> None \<Longrightarrow>
   en_dedup e \<noteq> key"
  by (auto simp: find_dedup_entry_def dest: find_NoneD split: option.splits)

lemma inv_post:
  assumes inv: "channel_inv s" and ch: "find_channel s c = Some ch" and fresh: "find_dedup_entry s c (po_dedup p) = None"
  shows "wp (post_entry E ch p depth) (\<lambda>_. channel_inv) s"
proof -
  let ?sq = "ch_next_seq ch"
  note ok = inv [unfolded channel_inv_def]
  note found = chan_ok_find [OF ok ch]
  have step: "channel_inv t \<and> (\<exists>ch'. find_channel t c = Some ch' \<and> ch_next_seq ch' = ?sq + 1)"
    if "channels t = update_where (\<lambda>x. ch_channel x = c) (\<lambda>x. x\<lparr>ch_next_seq := ?sq + 1, ch_paused := b\<rparr>) (channels s)"
      and "entries t = entries s @ [new_row c ?sq p depth eid now]" for t b eid now
  proof
    show "channel_inv t"
      unfolding channel_inv_def that(1,2)
      using dedup_entry_NoneD [OF fresh]
      by (intro chan_ok_append [OF ok found(1,2) refl]) (simp_all add: new_row_def)
    have "find_channel t c = map_option (\<lambda>x. if ch_channel x = c then x\<lparr>ch_next_seq := ?sq + 1, ch_paused := b\<rparr> else x) (find_channel s c)"
      unfolding find_channel_def that(1) by (rule find_update_where) simp
    then show "\<exists>ch'. find_channel t c = Some ch' \<and> ch_next_seq ch' = ?sq + 1"
      using ch found(2) by simp
  qed
  have rest: "wp (wake_members E ch ?sq p) (\<lambda>os. wp (announce E c ?sq (notices os)) (\<lambda>_. channel_inv)) t"
    if "channel_inv t \<and> (\<exists>ch'. find_channel t c = Some ch' \<and> ch_next_seq ch' = ?sq + 1)" for t
    using stable_wp [OF wakes.wake_members_rule]
    by (rule wp_mono) (use that in \<open>auto simp: log_same_inv log_same_find intro: inv_announce\<close>)
  show ?thesis
    unfolding post_entry_def Let_def
    by (simp add: write_entry_def update_channel_def update_member_def found(2))
       (intro conjI impI; rule rest;
        rule step [where b = False] step [where b = "ch_paused ch"]; simp)
qed

lemma inv_append: "stable (kept channel_inv) (channel_append E c p)"
proof (rule stable_keptI)
  fix s assume inv: "channel_inv s"
  { fix ch assume ch: "find_channel s c = Some ch"
    then have c: "ch_channel ch = c" using chan_ok_find(2) inv by (auto simp: channel_inv_def)
    have paused: "channel_inv (update_channel c (\<lambda>x. x\<lparr>ch_paused := True\<rparr>) t)" if "channel_inv t" for t
      using that by (simp add: channel_inv_def update_channel_def chan_ok_channels)
    have "find_dedup_entry s c (po_dedup p) = None" if "admission_of s ch p = Admitted d" for d
      using that c by (auto simp: admission_of_def Let_def split: option.splits)
    then have "wp (post_entry E ch p d) (\<lambda>_. channel_inv) s" if "admission_of s ch p = Admitted d" for d
      using inv_post [OF inv ch] that by blast
    then have "wp (case admission_of s ch p of
               Repeated sq eid \<Rightarrow> retT (\<lparr>ar_seq = Some sq, ar_id = Some eid, ar_stale = False, ar_paused = False,
                   ar_latest = ch_next_seq ch - 1, ar_woken = []\<rparr>, [])
             | RefusedPaused \<Rightarrow> retT (refused False True (ch_next_seq ch - 1), [])
             | RefusedStale \<Rightarrow> retT (refused True False (ch_next_seq ch - 1), [])
             | TooDeep depth \<Rightarrow>
                 bindT (write_marker E c (ch_next_seq ch) channel_actor SystemEntry
                   (''Paused: agents have spoken '' @ show_int (depth - 1) @ '' times in a row without a person. '' @
                    ''A new message from a person resumes the conversation.'') None None) (\<lambda>n.
                 thenT (execT (update_channel c (\<lambda>x. x\<lparr>ch_paused := True\<rparr>)))
                (retT (refused False True (cg_seq n), [n])))
             | Admitted depth \<Rightarrow> post_entry E ch p depth) (\<lambda>_. channel_inv) s"
      using inv wp_mono [OF wp_write_marker [OF inv ch refl]] paused
      by (cases "admission_of s ch p") auto }
  then show "wp (channel_append E c p) (\<lambda>_. channel_inv) s"
    using inv by (cases "find_channel s c") (simp_all only: channel_append_def wp_bind wp_query wp_fail option.case)
qed

lemma own_messageD:
  "own_message s c sq who = Some (ch, e) \<Longrightarrow> find_channel s c = Some ch \<and> find_entry s c sq = Some e \<and>
     en_kind e = MessageEntry \<and> en_sender e = actor_str who \<and> en_deleted_at e = None"
  by (auto simp: own_message_def split: option.splits if_splits)

lemma inv_update_entries:
  "channel_inv s \<Longrightarrow> (\<And>e. en_channel (f e) = en_channel e) \<Longrightarrow> (\<And>e. en_seq (f e) = en_seq e) \<Longrightarrow>
   (\<And>e. en_dedup (f e) = en_dedup e) \<Longrightarrow> channel_inv (update_entries P f s)"
  by (simp add: channel_inv_def update_entries_def chan_ok_entries)

lemma find_channel_other [simp]:
  "find_channel (update_entries P f s) = find_channel s" "find_channel (s\<lparr>draws := n\<rparr>) = find_channel s"
  "find_channel (set_reaction c' sq me emoji marker s) = find_channel s"
  by (simp_all add: find_channel_def update_entries_def set_reaction_def fun_eq_iff)

lemma channel_inv_other [simp]:
  "channel_inv (s\<lparr>draws := n\<rparr>) = channel_inv s"
  "channel_inv (set_reaction c sq me emoji marker s) = channel_inv s"
  by (simp_all add: channel_inv_def set_reaction_def)

lemma inv_edit: "stable (kept channel_inv) (channel_edit E c sq who txt)"
  by (rule stable_keptI)
     (auto simp: channel_edit_def split: option.splits
        intro!: wp_mono [OF wp_write_marker] inv_update_entries dest: own_messageD)

lemma inv_tombstone: "stable (kept channel_inv) (channel_tombstone E c sq who)"
  by (rule stable_keptI)
     (auto simp: channel_tombstone_def split: option.splits
        intro!: wp_mono [OF wp_write_marker] inv_update_entries dest: own_messageD)

lemma inv_react: "stable (kept channel_inv) (channel_react E c sq who emoji)"
  by (rule stable_keptI)
     (auto simp: channel_react_def split: option.splits intro!: wp_mono [OF wp_write_marker])

lemma inv_open: "stable (kept channel_inv) (channel_open c tenant ms breaker engage_s)"
proof (rule stable_keptI)
  fix s assume inv: "channel_inv s"
  let ?ch = "\<lparr>ch_channel = c, ch_tenant = tenant, ch_breaker = breaker, ch_next_seq = 0, ch_paused = False,
    ch_engage_s = engage_s\<rparr>"
  have "channel_inv (s\<lparr>channels := channels s @ [?ch]\<rparr>)" if "find_channel s c = None"
  proof -
    have new: "c \<notin> ch_channel ` set (channels s)"
      using that find_NoneD unfolding find_channel_def by fastforce
    then have "\<forall>e \<in> set (entries s). en_channel e \<noteq> c"
      using inv by (auto simp: channel_inv_def chan_ok_def)
    then have "seqs_in c (entries s) = []" by (simp add: seqs_in_def filter_empty_conv)
    with inv new show ?thesis by (auto simp: channel_inv_def chan_ok_def)
  qed
  with inv have "channel_inv (if find_channel s c \<noteq> None then s else s\<lparr>channels := channels s @ [?ch]\<rparr>)" by simp
  then have "channel_inv (foldl (\<lambda>s m. set_member c m s)
      (if find_channel s c \<noteq> None then s else s\<lparr>channels := channels s @ [?ch]\<rparr>) ms)"
    by (rule foldl_kept [where I = channel_inv, rotated]) simp
  then show "wp (channel_open c tenant ms breaker engage_s) (\<lambda>_. channel_inv) s"
    by (simp add: channel_open_def)
qed

lemma inv_configure: "stable (kept channel_inv) (channel_configure c breaker engage_s)"
  by (rule stable_keptI)
     (auto simp: channel_configure_def update_channel_def channel_inv_def chan_ok_channels split: option.splits)

lemma inv_delete: "channel_inv s \<Longrightarrow> channel_inv (delete_channel c s)"
proof -
  assume inv: "channel_inv s"
  have "seqs_in x (delete_where (\<lambda>e. en_channel e = c) (entries s)) = seqs_in x (entries s)" if "x \<noteq> c" for x
    unfolding seqs_in_def delete_where_def filter_filter using that by (intro arg_cong [where f = "map en_seq"] filter_cong) auto
  moreover have "distinct (map ch_channel (delete_where (\<lambda>x. ch_channel x = c) (channels s)))"
    using inv by (intro distinct_delete_where) (simp add: channel_inv_def chan_ok_def)
  moreover have "sorted_wrt keys_apart (delete_where (\<lambda>e. en_channel e = c) (entries s))"
    using inv by (simp add: channel_inv_def chan_ok_def delete_where_def sorted_wrt_filter)
  ultimately show ?thesis
    using inv by (auto simp: channel_inv_def chan_ok_def delete_channel_def delete_account_def)
qed

lemma channel_step_inv:
  assumes "channel_step E s t" and "channel_inv s"
  shows "channel_inv t"
  using assms(1)
proof cases
  case (Delete c u)
  with assms(2) show ?thesis by (auto simp: channel_delete_def execT_def inv_delete)
qed (use assms(2) in \<open>auto simp: channel_set_member_def channel_remove_member_def channel_mark_read_def
       channel_mark_delivered_def execT_def intro: kept_run [OF inv_open] kept_run [OF inv_configure]
       kept_run [OF inv_append] kept_run [OF inv_edit] kept_run [OF inv_tombstone] kept_run [OF inv_react]\<close>)

text \<open>
  A channel's log has no gaps. Every channel operation keeps the invariant: channel names are unique,
  every entry belongs to an open channel, the entries of a channel are numbered 0, 1, 2, .. in the order
  they were written up to just below its next number, and a dedup key occurs once in a channel.
\<close>

theorem channel_log_gapless:
  assumes "channel_step E s t" and "channel_inv s"
  shows "channel_inv t"
  using assms by (rule channel_step_inv)

end
