(* ===== verification/Channel_Posts.thy ===== *)
theory Channel_Posts
  imports Channel_Inv
begin

text \<open>
  What one post does: how deep agents may go without a person, what a repeated or a late post gets, whom
  a post wakes, and what a delete leaves.
\<close>

section \<open>A channel in use\<close>

definition ann :: actor where
  "ann = actor_user ''ann''"

definition demo_channel :: db where
  "demo_channel = after (channel_append demo_env ''room'' ((basic_post ann ''hello'')\<lparr>po_dedup := Some ''k''\<rparr>))
     (after (channel_open ''room'' ''t'' [basic_member ann ModeAll Human, basic_member helper ModeMentions AgentKind] 1 600)
       empty_db)"


lemma channel_inv_after:
  "channel_inv s \<Longrightarrow> (\<And>x t. m s = Inr (x, t) \<Longrightarrow> channel_step demo_env s t) \<Longrightarrow> channel_inv (after m s)"
  by (auto simp: after_def split: sum.splits prod.splits intro: channel_step_inv)

lemma demo_channel_inv: "channel_inv demo_channel"
proof -
  have "channel_inv empty_db" by (simp add: channel_inv_def chan_ok_def empty_db_def)
  then show ?thesis
    unfolding demo_channel_def
    by (rule channel_inv_after [OF channel_inv_after]) (rule channel_step.Open channel_step.Append, assumption)+
qed

section \<open>Writing and waking\<close>

lemma find_entry_other [simp]: "find_entry (s\<lparr>draws := n\<rparr>) = find_entry s"
  by (simp add: find_entry_def fun_eq_iff)

lemma find_channel_name: "find_channel s c = Some ch \<Longrightarrow> ch_channel ch = c"
  by (auto simp: find_channel_def dest: find_SomeD)

lemma append_cases:
  assumes "channel_append E c p s = Inr ((r, cg), t)" and "find_channel s c = Some ch"
  shows "case admission_of s ch p of
      Repeated sq eid \<Rightarrow> t = s \<and> cg = [] \<and> r = \<lparr>ar_seq = Some sq, ar_id = Some eid, ar_stale = False,
        ar_paused = False, ar_latest = ch_next_seq ch - 1, ar_woken = []\<rparr>
    | RefusedPaused \<Rightarrow> t = s \<and> cg = [] \<and> r = refused False True (ch_next_seq ch - 1)
    | RefusedStale \<Rightarrow> t = s \<and> cg = [] \<and> r = refused True False (ch_next_seq ch - 1)
    | TooDeep d \<Rightarrow> (\<exists>ch'. find_channel t c = Some ch' \<and> ch_paused ch') \<and> ar_seq r = None \<and> ar_paused r \<and> \<not> ar_stale r
    | Admitted d \<Rightarrow> post_entry E ch p d s = Inr ((r, cg), t)"
proof (cases "admission_of s ch p")
  case (TooDeep d)
  let ?pause = "\<lambda>x. x\<lparr>ch_paused := True\<rparr>"
  have paused: "\<exists>ch'. find_channel (update_channel c ?pause u) c = Some ch' \<and> ch_paused ch'"
    if "find_channel u c = Some x" for u x
  proof -
    have "find_channel (update_channel c ?pause u) c = map_option (\<lambda>x. if ch_channel x = c then ?pause x else x) (find_channel u c)"
      unfolding find_channel_def update_channel_def by (simp add: find_update_where)
    moreover have "ch_channel x = c" using that by (auto simp: find_channel_def dest: find_SomeD)
    ultimately show ?thesis using that by simp
  qed
  have kept: "wp (write_marker E c sq who kind msg rt data) (\<lambda>_ u. \<exists>x. find_channel u c = Some x) s" for sq who kind msg rt data
    using assms(2) by (auto simp: write_marker_def write_entry_def update_channel_def find_channel_def find_update_where)
  obtain msg n u where "write_marker E c (ch_next_seq ch) channel_actor SystemEntry msg None None s = Inr (n, u)"
    and t: "t = update_channel c ?pause u" "r = refused False True (cg_seq n)"
    using assms TooDeep by (auto simp: channel_append_def bind_run queryT_def execT_def retT_def)
  then obtain x where "find_channel u c = Some x" using wp_run [OF kept] by blast
  then show ?thesis using paused TooDeep t by (simp add: refused_def)
qed (use assms in \<open>auto simp: channel_append_def bind_run queryT_def retT_def\<close>)

text \<open>The entry a post writes, and what the wakes that follow leave alone.\<close>

lemma announce_keeps:
  assumes "entries s = es"
  shows "wp (announce E c sq addrs) (\<lambda>_ t. \<exists>xs. entries t = es @ xs \<and> (\<forall>x \<in> set xs. en_dedup x = None)) s"
proof (cases "addrs = []")
  case True
  then show ?thesis using assms by (simp add: announce_def)
next
  case False
  have same: "stable log_same (thenT (forT (\<lambda>a. execT (update_member c a (\<lambda>_. True) (\<lambda>x. x\<lparr>mb_exhausted_noticed := True\<rparr>))) addrs)
      (mapT notice_name addrs))"
    unfolding notice_name_def Let_def by (intro wakes.primitive_rules wakes.member_rule)
  have "wp (write_marker E c q who kind msg rt data)
      (\<lambda>_ t. \<exists>xs. entries t = es @ xs \<and> (\<forall>x \<in> set xs. en_dedup x = None)) u" if "entries u = es"
    for q who kind msg rt data u
    using that by (auto simp: write_marker_def write_entry_def update_channel_def new_row_def basic_post_def)
  then show ?thesis
    using False stable_wp [OF same, of s] assms
    by (auto simp: announce_def log_same_def elim!: wp_mono)
qed

lemma post_entry_result:
  assumes "post_entry E ch p d s = Inr ((r, cg), t)"
  shows "\<exists>eid now xs. entries t = entries s @ new_row (ch_channel ch) (ch_next_seq ch) p d eid now # xs \<and>
     (\<forall>x \<in> set xs. en_dedup x = None) \<and> ar_seq r = Some (ch_next_seq ch) \<and> ar_id r = Some eid \<and>
     ar_paused r = False \<and> ar_stale r = False"
proof -
  let ?c = "ch_channel ch"
  let ?row = "\<lambda>eid now. new_row ?c (ch_next_seq ch) p d eid now"
  have tail: "wp (wake_members E ch (ch_next_seq ch) p)
      (\<lambda>os. wp (announce E ?c (ch_next_seq ch) (notices os)) (\<lambda>_ t. \<exists>xs. entries t = entries u @ xs \<and> (\<forall>x \<in> set xs. en_dedup x = None))) u"
    for u
    using stable_wp [OF wakes.wake_members_rule]
    by (rule wp_mono) (simp add: announce_keeps log_same_def)
  have "wp (post_entry E ch p d) (\<lambda>(r, cg) t. \<exists>eid now xs. entries t = entries s @ ?row eid now # xs \<and>
     (\<forall>x \<in> set xs. en_dedup x = None) \<and> ar_seq r = Some (ch_next_seq ch) \<and> ar_id r = Some eid \<and>
     ar_paused r = False \<and> ar_stale r = False) s"
    unfolding post_entry_def Let_def
    by (simp add: write_entry_def update_channel_def update_member_def)
       (intro conjI impI; rule wp_mono [OF tail]; elim wp_mono; auto)
  from wp_run [OF this assms] show ?thesis by simp
qed

text \<open>
  C16. The breaker. While no person and no fresh start comes between, an entry of an agent is exactly one
  deeper than the entry it answers and never deeper than the channel's breaker; a post that would be
  deeper is refused and pauses the channel, and while it is paused such posts are refused unchanged.
\<close>

theorem breaker_bounds:
  assumes "channel_append E c p s = Inr ((r, cg), t)" and "find_channel s c = Some ch"
    and "\<not> by_person s c (po_sender p)" and "\<not> po_fresh p" and "find_dedup_entry s c (po_dedup p) = None"
  shows "(ar_seq r \<noteq> None \<longrightarrow> \<not> ch_paused ch \<and> (\<exists>e \<in> set (entries t). ar_seq r = Some (en_seq e) \<and>
            en_channel e = c \<and> en_depth e = cause_depth s c (po_cause_seq p) + 1 \<and> en_depth e \<le> ch_breaker ch)) \<and>
    (ch_paused ch \<longrightarrow> t = s \<and> ar_paused r) \<and>
    (ar_seq r = None \<longrightarrow> \<not> ar_stale r \<longrightarrow> (\<exists>ch'. find_channel t c = Some ch' \<and> ch_paused ch'))"
  using append_cases [OF assms(1,2)] assms(2-5) find_channel_name [OF assms(2)]
  by (auto simp: admission_of_def Let_def refused_def new_row_def split: if_splits option.splits
      dest!: post_entry_result)

definition demo_reply :: post where
  "demo_reply = (basic_post helper ''hi'')\<lparr>po_dedup := Some ''h''\<rparr>"

lemma demo_channel_found: "\<exists>ch. find_channel demo_channel ''room'' = Some ch \<and> ch_breaker ch = 1 \<and> \<not> ch_paused ch"
proof -
  have "map_option (\<lambda>ch. (ch_breaker ch, ch_paused ch)) (find_channel demo_channel ''room'') = Some (1, False)" by code_simp
  then show ?thesis by auto
qed

lemma demo_reply_run:
  "\<exists>r cg t. channel_append demo_env ''room'' demo_reply demo_channel = Inr ((r, cg), t) \<and> ar_seq r = Some 1"
proof -
  have "map_sum id (\<lambda>x. ar_seq (fst (fst x))) (channel_append demo_env ''room'' demo_reply demo_channel) = Inr (Some 1)"
    by code_simp
  then show ?thesis by (cases "channel_append demo_env ''room'' demo_reply demo_channel") auto
qed

lemma demo_append_step: "\<exists>t. channel_step demo_env demo_channel t \<and> length (entries t) = 2"
proof -
  have "map_sum id (\<lambda>x. length (entries (snd x))) (channel_append demo_env ''room'' demo_reply demo_channel) = Inr 2"
    by code_simp
  then obtain r t where "channel_append demo_env ''room'' demo_reply demo_channel = Inr (r, t)" "length (entries t) = 2"
    by (cases "channel_append demo_env ''room'' demo_reply demo_channel") auto
  then show ?thesis by (auto intro: channel_step.Append)
qed

lemma demo_open_step: "\<exists>t. channel_step demo_env empty_db t \<and> length (channels t) = 1"
proof -
  let ?open = "channel_open ''room'' ''t'' [basic_member ann ModeAll Human] 1 600"
  have "map_sum id (\<lambda>x. length (channels (snd x))) (?open empty_db) = Inr 1" by code_simp
  then obtain r t where "?open empty_db = Inr (r, t)" "length (channels t) = 1"
    by (cases "?open empty_db") auto
  then show ?thesis by (auto intro: channel_step.Open)
qed

theorem channels_keep_store_witness:
  "\<exists>t. channel_step demo_env empty_db t \<and> length (channels t) = 1 \<and> store_inv t \<and> evolves empty_db t"
  using demo_open_step channels_keep_store [OF _ store_inv_empty] by blast

theorem channel_log_gapless_witness:
  "\<exists>t. channel_step demo_env demo_channel t \<and> length (entries t) = 2 \<and> channel_inv t"
  using demo_append_step channel_log_gapless [OF _ demo_channel_inv] by blast

theorem breaker_bounds_witness:
  "\<exists>r cg t. channel_append demo_env ''room'' demo_reply demo_channel = Inr ((r, cg), t) \<and>
     (\<exists>e \<in> set (entries t). en_channel e = ''room'' \<and> en_depth e = cause_depth demo_channel ''room'' None + 1 \<and> en_depth e \<le> 1)"
proof -
  obtain r cg t where r: "channel_append demo_env ''room'' demo_reply demo_channel = Inr ((r, cg), t)" "ar_seq r = Some 1"
    using demo_reply_run by blast
  obtain ch where ch: "find_channel demo_channel ''room'' = Some ch" "ch_breaker ch = 1" using demo_channel_found by blast
  have "\<not> by_person demo_channel ''room'' (po_sender demo_reply)" "\<not> po_fresh demo_reply"
    "po_cause_seq demo_reply = None" by code_simp+
  moreover have "find_dedup_entry demo_channel ''room'' (po_dedup demo_reply) = None" by code_simp
  ultimately show ?thesis using breaker_bounds [OF r(1) ch(1)] r ch(2) by auto
qed

text \<open>
  A post under a dedup key lands once. Whatever is appended to the channel again under the key of
  an entry that landed returns that entry's number and id, writes nothing and wakes no one.
\<close>

theorem post_once:
  assumes "channel_append E c p s = Inr ((r, cg), t)" and "ar_seq r = Some sq"
    and "po_dedup p = Some k" and "po_dedup p' = Some k" and "channel_inv s"
  shows "\<exists>r'. channel_append E' c p' t = Inr ((r', []), t) \<and> ar_seq r' = Some sq \<and> ar_id r' = ar_id r \<and> ar_woken r' = []"
proof -
  have "find_channel s c \<noteq> None" using assms(1) by (auto simp: channel_append_def bind_run queryT_def failT_def split: option.splits)
  then obtain ch where ch: "find_channel s c = Some ch" by auto
  have found: "\<exists>e. find_dedup_entry t c (Some k) = Some e \<and> en_seq e = sq \<and> Some (en_id e) = ar_id r"
  proof (cases "find_dedup_entry s c (Some k)")
    case (Some e)
    then have "admission_of s ch p = Repeated (en_seq e) (en_id e)"
      using find_channel_name [OF ch] assms(3) by (simp add: admission_of_def Let_def)
    with append_cases [OF assms(1) ch] Some assms(2) show ?thesis by auto
  next
    case None
    have "\<exists>d. admission_of s ch p = Admitted d"
      using append_cases [OF assms(1) ch] None assms(2,3) find_channel_name [OF ch]
      by (cases "admission_of s ch p") (auto simp: refused_def admission_of_def Let_def split: option.splits if_splits)
    then obtain d where "admission_of s ch p = Admitted d" ..
    then have post: "post_entry E ch p d s = Inr ((r, cg), t)" using append_cases [OF assms(1) ch] by simp
    obtain eid now xs where row: "entries t = entries s @ new_row c (ch_next_seq ch) p d eid now # xs"
      "ar_seq r = Some (ch_next_seq ch)" "ar_id r = Some eid"
      using post_entry_result [OF post] find_channel_name [OF ch] by auto
    let ?row = "new_row c (ch_next_seq ch) p d eid now"
    have "List.find (\<lambda>e. en_channel e = c \<and> en_dedup e = Some k) (entries s @ [?row]) = Some ?row"
      using None by (intro find_snoc) (simp_all add: find_dedup_entry_def new_row_def assms(3))
    from find_append_Some [OF this, of xs] have "find_dedup_entry t c (Some k) = Some ?row"
      by (simp add: find_dedup_entry_def row(1))
    with row assms(2) show ?thesis by (auto simp: new_row_def)
  qed
  then obtain e where e: "find_dedup_entry t c (Some k) = Some e" "en_seq e = sq" "Some (en_id e) = ar_id r" by blast
  have "e \<in> set (entries t)" "en_channel e = c"
    using e(1) find_SomeD by (auto simp: find_dedup_entry_def dest!: find_SomeD)
  moreover have "channel_inv t" using kept_run [OF inv_append assms(1,5)] .
  ultimately have "c \<in> ch_channel ` set (channels t)" by (auto simp: channel_inv_def chan_ok_def)
  then have "find_channel t c \<noteq> None" unfolding find_channel_def by (auto simp: find_None_iff)
  then obtain ch' where ch': "find_channel t c = Some ch'" by auto
  have "admission_of t ch' p' = Repeated sq (en_id e)"
    using e find_channel_name [OF ch'] assms(4) by (simp add: admission_of_def Let_def)
  then show ?thesis using ch' e(3) by (simp add: channel_append_def run_simps)
qed

theorem post_once_witness:
  "\<exists>r t. channel_append demo_env ''room'' demo_reply demo_channel = Inr (r, t) \<and>
     (\<exists>r'. channel_append demo_env ''room'' demo_reply t = Inr ((r', []), t) \<and> ar_seq r' = Some 1)"
proof -
  obtain r cg t where r: "channel_append demo_env ''room'' demo_reply demo_channel = Inr ((r, cg), t)" "ar_seq r = Some 1"
    using demo_reply_run by blast
  have key: "po_dedup demo_reply = Some ''h''" by code_simp
  show ?thesis using post_once [OF r key key demo_channel_inv, of demo_env] r(1) by blast
qed

text \<open>
  A post that asks for it is a compare-and-set. With \<open>read_up_to = q\<close> it is refused as stale,
  changing nothing, exactly when a message of someone else is numbered above \<open>q\<close>, unless it is a repeat
  or the channel is paused for it; so two members that read the same log cannot both answer it blindly.
\<close>

theorem stale_post_refused:
  assumes "channel_append E c p s = Inr ((r, cg), t)" and "po_read_up_to p = Some q"
    and "find_dedup_entry s c (po_dedup p) = None"
  shows "(ar_stale r \<longrightarrow> t = s \<and> spoken_after s c q (actor_str (po_sender p))) \<and>
    (ar_seq r \<noteq> None \<longrightarrow> \<not> spoken_after s c q (actor_str (po_sender p))) \<and>
    (spoken_after s c q (actor_str (po_sender p)) \<longrightarrow> t = s \<and> cg = [] \<and> (ar_stale r \<or> ar_paused r))"
proof -
  have "find_channel s c \<noteq> None"
    using assms(1) by (auto simp: channel_append_def bind_run queryT_def failT_def split: option.splits)
  then obtain ch where ch: "find_channel s c = Some ch" by auto
  show ?thesis
    using append_cases [OF assms(1) ch] assms(2,3) find_channel_name [OF ch]
    by (auto simp: admission_of_def Let_def refused_def split: if_splits dest!: post_entry_result)
qed

theorem stale_post_refused_witness:
  "\<exists>r cg t. channel_append demo_env ''room'' (demo_reply\<lparr>po_read_up_to := Some (- 1)\<rparr>) demo_channel = Inr ((r, cg), t) \<and>
     t = demo_channel \<and> ar_stale r"
proof -
  let ?p = "demo_reply\<lparr>po_read_up_to := Some (- 1)\<rparr>"
  have "map_sum id (\<lambda>x. ar_paused (fst (fst x))) (channel_append demo_env ''room'' ?p demo_channel) = Inr False" by code_simp
  then obtain r cg t where r: "channel_append demo_env ''room'' ?p demo_channel = Inr ((r, cg), t)" "\<not> ar_paused r"
    by (cases "channel_append demo_env ''room'' ?p demo_channel") auto
  have "spoken_after demo_channel ''room'' (- 1) (actor_str (po_sender ?p))" by code_simp
  moreover have "find_dedup_entry demo_channel ''room'' (po_dedup ?p) = None" by code_simp
  ultimately show ?thesis using stale_post_refused [OF r(1), of "- 1"] r by auto
qed

section \<open>Whom a post wakes\<close>

text \<open>What is true of the result of each call of a loop.\<close>

lemma mapT_results:
  assumes "mapT f xs s = Inr (ys, t)" and "\<And>x s y t. x \<in> set xs \<Longrightarrow> f x s = Inr (y, t) \<Longrightarrow> P x y"
  shows "\<forall>y \<in> set ys. \<exists>x \<in> set xs. P x y"
  using assms
proof (induction xs arbitrary: s ys)
  case Nil
  then show ?case by (simp add: retT_def)
next
  case (Cons x xs)
  then show ?case unfolding mapT_run by fastforce
qed

definition may_wake :: "channel_row \<Rightarrow> post \<Rightarrow> member_row \<Rightarrow> actor \<Rightarrow> bool" where
  "may_wake ch p m who \<longleftrightarrow> mb_inbox m \<noteq> None \<and> map_option actor_from_str (mb_inbox m) = Some (Inr who) \<and>
     (mb_mode m = ModeMuted \<longrightarrow> mb_member m \<in> set (po_mentions p))"

lemma wake_member_woke:
  assumes "wake_member E ch sq p replied_to now m s = Inr (Woke who, t)"
  shows "may_wake ch p m who"
  using assms
  by (auto simp: wake_member_def Let_def bind_run address_def liftT_def may_wake_def wake_reason_of_def retT_def failT_def
      accounts_exhausted_def queryT_def split: option.splits if_splits sum.splits)

lemma others_kept:
  "m \<in> set (update_where Q f ms) \<Longrightarrow> (\<And>x. Q x \<Longrightarrow> mb_member (f x) = me) \<Longrightarrow> mb_member m \<noteq> me \<Longrightarrow> m \<in> set ms"
  by (auto simp: set_update_where split: if_splits)

lemma wake_members_woke:
  assumes "wake_members E ch sq p s = Inr (os, t)" and "who \<in> set (targets os)"
  shows "\<exists>m \<in> set (members s). mb_channel m = ch_channel ch \<and> mb_member m \<noteq> actor_str (po_sender p) \<and> may_wake ch p m who"
proof -
  let ?c = "ch_channel ch" and ?me = "actor_str (po_sender p)"
  let ?now = "env_clock E (draws s)"
  let ?replied = "case po_reply_to p of None \<Rightarrow> None | Some q \<Rightarrow> map_option en_sender (find_entry s ?c q)"
  let ?u = "s\<lparr>draws := Suc (draws s), members := update_where (\<lambda>m. mb_channel m = ?c \<and> mb_member m = ?me)
        (\<lambda>x. x\<lparr>mb_engaged_until := Some (?now + ch_engage_s ch)\<rparr>) (members s)\<rparr>"
  let ?ms = "sort_key mb_member (filter (\<lambda>m. mb_channel m = ?c \<and> mb_member m \<noteq> ?me) (members ?u))"
  have run: "mapT (wake_member E ch sq p ?replied ?now) ?ms ?u = Inr (os, t)"
    using assms(1) by (simp add: wake_members_def Let_def run_simps drawT_def update_member_def)
  have "m \<in> set (members s)" if "m \<in> set (members ?u)" "mb_member m \<noteq> ?me" for m
    using that by (auto elim: others_kept)
  then have ms: "set ?ms \<subseteq> {m \<in> set (members s). mb_channel m = ?c \<and> mb_member m \<noteq> ?me}" by auto
  have "Woke who \<in> set os" using assms(2) by (auto simp: targets_def List.map_filter_def split: wake_outcome.splits)
  moreover have "\<forall>x \<in> set os. \<exists>m \<in> set ?ms. \<forall>w. x = Woke w \<longrightarrow> may_wake ch p m w"
    by (rule mapT_results [OF run]) (auto dest: wake_member_woke)
  ultimately show ?thesis using ms by fastforce
qed

text \<open>
  A post wakes only those it may. Everyone it reports as woken is the inbox of a member of that
  channel other than the sender, with an inbox of its own (so never a person, who has none), and a muted
  member only when the post names it.
\<close>

theorem woken_may_wake:
  assumes "channel_append E c p s = Inr ((r, cg), t)" and "who \<in> set (ar_woken r)"
  shows "\<exists>m \<in> set (members s). mb_channel m = c \<and> mb_member m \<noteq> actor_str (po_sender p) \<and>
    mb_inbox m \<noteq> None \<and> map_option actor_from_str (mb_inbox m) = Some (Inr who) \<and>
    (mb_mode m = ModeMuted \<longrightarrow> mb_member m \<in> set (po_mentions p))"
proof -
  have "find_channel s c \<noteq> None"
    using assms(1) by (auto simp: channel_append_def bind_run queryT_def failT_def split: option.splits)
  then obtain ch where ch: "find_channel s c = Some ch" by auto
  have "\<exists>d. post_entry E ch p d s = Inr ((r, cg), t)"
  proof (cases "admission_of s ch p")
    case (TooDeep d)
    with assms ch have "ar_woken r = []"
      by (auto simp: channel_append_def bind_run queryT_def execT_def retT_def refused_def)
    with assms(2) show ?thesis by simp
  qed (use append_cases [OF assms(1) ch] assms(2) in \<open>auto simp: refused_def\<close>)
  then obtain d where post: "post_entry E ch p d s = Inr ((r, cg), t)" ..
  then obtain u os v where run: "wake_members E ch (ch_next_seq ch) p u = Inr (os, v)" and woken: "ar_woken r = targets os"
    and mem: "members u = update_where (\<lambda>m. mb_channel m = ch_channel ch \<and> mb_member m = actor_str (po_sender p) \<and>
        mb_cursor m < ch_next_seq ch) (\<lambda>m. m\<lparr>mb_cursor := ch_next_seq ch\<rparr>) (members s)"
    by (auto simp: post_entry_def Let_def bind_run queryT_def execT_def drawT_def retT_def write_entry_def
        update_channel_def update_member_def)
  from wake_members_woke [OF run] woken assms(2) obtain m where
    m: "m \<in> set (members u)" "mb_channel m = c" "mb_member m \<noteq> actor_str (po_sender p)" "may_wake ch p m who"
    using find_channel_name [OF ch] by auto
  then have "m \<in> set (members s)" unfolding mem by (elim others_kept) simp_all
  with m show ?thesis by (auto simp: may_wake_def)
qed

theorem woken_may_wake_witness:
  "\<exists>r cg t. channel_append demo_env ''room'' ((basic_post ann ''hey'')\<lparr>po_mentions := [''helper/h'']\<rparr>) demo_channel = Inr ((r, cg), t) \<and>
     ar_woken r = [helper] \<and> (\<exists>m \<in> set (members demo_channel). mb_inbox m = Some ''helper/h'')"
proof -
  let ?p = "(basic_post ann ''hey'')\<lparr>po_mentions := [''helper/h'']\<rparr>"
  have "map_sum id (\<lambda>x. ar_woken (fst (fst x))) (channel_append demo_env ''room'' ?p demo_channel) = Inr [helper]" by code_simp
  then obtain r cg t where r: "channel_append demo_env ''room'' ?p demo_channel = Inr ((r, cg), t)" "ar_woken r = [helper]"
    by (cases "channel_append demo_env ''room'' ?p demo_channel") auto
  from woken_may_wake [OF r(1), of helper] r(2) obtain m where
    "m \<in> set (members demo_channel)" "mb_channel m = ''room''" "mb_member m \<noteq> actor_str ann" "mb_inbox m \<noteq> None"
    by (auto simp: basic_post_def)
  moreover have "list_all (\<lambda>m. mb_member m \<noteq> actor_str ann \<longrightarrow> mb_inbox m \<noteq> None \<longrightarrow> mb_inbox m = Some ''helper/h'') (members demo_channel)"
    by code_simp
  ultimately show ?thesis using r by (auto simp: list_all_iff)
qed

section \<open>What a delete leaves\<close>

lemma row_untouched: "r \<in> set rs \<Longrightarrow> \<not> P r \<Longrightarrow> r \<in> set (update_where P f rs)"
  unfolding update_where_def set_map by (rule image_eqI [of _ _ r]) simp_all

text \<open>
  A delete erases the message everywhere, and only its author can. When \<open>channel_tombstone\<close> answers
  with a marker, the caller sent the message, afterwards neither the message nor any entry that recorded an
  edit of it has text or data, the message is marked deleted without mentions, and every other entry of the
  log is as it was.
\<close>

theorem tombstone_erases:
  assumes "channel_tombstone E c sq who s = Inr ((Some n, cg), t)"
  shows "(\<exists>e \<in> set (entries s). en_channel e = c \<and> en_seq e = sq \<and> en_sender e = actor_str who \<and> en_kind e = MessageEntry) \<and>
    (\<forall>e \<in> set (entries t). en_channel e = c \<longrightarrow>
       (en_seq e = sq \<and> en_kind e \<noteq> TombstoneEntry \<or> en_kind e = EditEntry \<and> en_reply_to e = Some sq) \<longrightarrow>
       en_text e = [] \<and> en_data e = None) \<and>
    (\<forall>e \<in> set (entries s). en_channel e = c \<and> (en_seq e = sq \<or> en_kind e = EditEntry \<and> en_reply_to e = Some sq) \<or>
       e \<in> set (entries t))"
proof -
  let ?msg = "\<lambda>x. en_channel x = c \<and> en_seq x = sq"
  let ?edit = "\<lambda>x. en_channel x = c \<and> en_kind x = EditEntry \<and> en_reply_to x = Some sq"
  from assms obtain ch e where own: "own_message s c sq who = Some (ch, e)"
    by (auto simp: channel_tombstone_def bind_run queryT_def retT_def split: option.splits)
  have "wp (channel_tombstone E c sq who) (\<lambda>_ t. \<exists>now m. en_kind m = TombstoneEntry \<and>
      entries t = update_where ?edit (\<lambda>x. x\<lparr>en_text := [], en_data := None\<rparr>)
      (update_where ?msg (\<lambda>x. x\<lparr>en_text := [], en_data := None, en_mentions := [], en_deleted_at := Some now\<rparr>) (entries s)) @ [m]) s"
    by (simp add: channel_tombstone_def own write_marker_def write_entry_def update_channel_def update_entries_def new_row_def)
       blast
  from wp_run [OF this assms] obtain now m where
    t: "entries t = update_where ?edit (\<lambda>x. x\<lparr>en_text := [], en_data := None\<rparr>)
      (update_where ?msg (\<lambda>x. x\<lparr>en_text := [], en_data := None, en_mentions := [], en_deleted_at := Some now\<rparr>) (entries s)) @ [m]"
    and m: "en_kind m = TombstoneEntry" by blast
  have own': "e \<in> set (entries s)" "?msg e" "en_sender e = actor_str who" "en_kind e = MessageEntry"
    using own_messageD [OF own] find_SomeD [of ?msg] by (auto simp: find_entry_def)
  have blank: "en_text x = [] \<and> en_data x = None"
    if x: "x \<in> set (entries t)" "en_channel x = c"
      "en_seq x = sq \<and> en_kind x \<noteq> TombstoneEntry \<or> en_kind x = EditEntry \<and> en_reply_to x = Some sq" for x
  proof -
    have "x \<noteq> m" using x(3) m by auto
    then obtain y where "y \<in> set (entries s)"
      "x = (let z = (if ?msg y then y\<lparr>en_text := [], en_data := None, en_mentions := [], en_deleted_at := Some now\<rparr> else y)
            in if ?edit z then z\<lparr>en_text := [], en_data := None\<rparr> else z)"
      using x(1) unfolding t by (auto simp: set_update_where Let_def)
    with x(2,3) show ?thesis by (auto simp: Let_def split: if_splits)
  qed
  have "y \<in> set (entries t)" if "y \<in> set (entries s)" "\<not> ?msg y" "\<not> ?edit y" for y
  proof -
    have "y \<in> set (update_where ?edit f (update_where ?msg g (entries s)))" for f g
      using that by (intro row_untouched)
    then show ?thesis unfolding t by simp
  qed
  with own' blank show ?thesis by blast
qed

lemma demo_edited_run:
  "\<exists>n cg t. channel_tombstone demo_env ''room'' 0 ann (after (channel_edit demo_env ''room'' 0 ann ''hullo'') demo_channel)
     = Inr ((Some n, cg), t)"
proof -
  let ?s = "after (channel_edit demo_env ''room'' 0 ann ''hullo'') demo_channel"
  have "map_sum id (\<lambda>x. fst (fst x)) (channel_tombstone demo_env ''room'' 0 ann ?s) = Inr (Some 2)" by code_simp
  then show ?thesis by (cases "channel_tombstone demo_env ''room'' 0 ann ?s") auto
qed

theorem tombstone_erases_witness:
  "\<exists>n cg t. channel_tombstone demo_env ''room'' 0 ann (after (channel_edit demo_env ''room'' 0 ann ''hullo'') demo_channel)
     = Inr ((Some n, cg), t) \<and>
     (\<forall>e \<in> set (entries t). en_channel e = ''room'' \<longrightarrow> en_kind e = EditEntry \<and> en_reply_to e = Some 0 \<longrightarrow> en_text e = [])"
proof -
  let ?s = "after (channel_edit demo_env ''room'' 0 ann ''hullo'') demo_channel"
  obtain n cg t where run: "channel_tombstone demo_env ''room'' 0 ann ?s = Inr ((Some n, cg), t)"
    using demo_edited_run by blast
  with tombstone_erases [OF run] show ?thesis by blast
qed

end
