(* ===== verification/Actions.thy ===== *)
theory Actions
  imports Kernel_Types
begin

text \<open>
  Code that runs outside a transaction (\<open>runtime/journal.py\<close>, \<open>runtime/worker.py\<close>): an exception
  unwinds, but what was done before it stays done. An action takes the state to the exception or the
  result and, in both cases, the state it leaves.
\<close>

type_synonym ('s, 'e, 'a) act = "'s \<Rightarrow> ('e + 'a) \<times> 's"

definition retA :: "'a \<Rightarrow> ('s, 'e, 'a) act" where
  "retA a s = (Inr a, s)"

definition raiseA :: "'e \<Rightarrow> ('s, 'e, 'a) act" where
  "raiseA e s = (Inl e, s)"

definition bindA :: "('s, 'e, 'a) act \<Rightarrow> ('a \<Rightarrow> ('s, 'e, 'b) act) \<Rightarrow> ('s, 'e, 'b) act" where
  "bindA m f s = (case m s of (Inl e, s') \<Rightarrow> (Inl e, s') | (Inr a, s') \<Rightarrow> f a s')"

abbreviation thenA :: "('s, 'e, unit) act \<Rightarrow> ('s, 'e, 'b) act \<Rightarrow> ('s, 'e, 'b) act" where
  "thenA m n \<equiv> bindA m (\<lambda>_. n)"

definition execA :: "('s \<Rightarrow> 's) \<Rightarrow> ('s, 'e, unit) act" where
  "execA u s = (Inr (), u s)"

definition queryA :: "('s \<Rightarrow> 'a) \<Rightarrow> ('s, 'e, 'a) act" where
  "queryA q s = (Inr (q s), s)"

text \<open>\<open>try: m except e: h e\<close>, and \<open>try: m finally: u\<close> where \<open>u\<close> cannot fail.\<close>

definition catchA :: "('s, 'e, 'a) act \<Rightarrow> ('e \<Rightarrow> ('s, 'e, 'a) act) \<Rightarrow> ('s, 'e, 'a) act" where
  "catchA m h s = (case m s of (Inl e, s') \<Rightarrow> h e s' | (Inr a, s') \<Rightarrow> (Inr a, s'))"

definition finallyA :: "('s, 'e, 'a) act \<Rightarrow> ('s \<Rightarrow> 's) \<Rightarrow> ('s, 'e, 'a) act" where
  "finallyA m u s = (case m s of (r, s') \<Rightarrow> (r, u s'))"

text \<open>\<open>except Exception: pass\<close>.\<close>

definition suppressA :: "('s, exn, unit) act \<Rightarrow> ('s, exn, unit) act" where
  "suppressA m = catchA m (\<lambda>e. if is_exception e then retA () else raiseA e)"

text \<open>An action of a part of the state, and a transaction, which leaves the state as it was if it fails.\<close>

definition onA :: "('s \<Rightarrow> 'p) \<Rightarrow> ('p \<Rightarrow> 's \<Rightarrow> 's) \<Rightarrow> ('p, 'e, 'a) act \<Rightarrow> ('s, 'e, 'a) act" where
  "onA get put m s = (case m (get s) of (r, p) \<Rightarrow> (r, put p s))"

abbreviation worldA :: "('w, 'e, 'a) act \<Rightarrow> ('j \<times> 'w, 'e, 'a) act" where
  "worldA \<equiv> onA snd (\<lambda>w s. (fst s, w))"

definition txA :: "('s, 'e, 'a) tx \<Rightarrow> ('s, 'e, 'a) act" where
  "txA m s = (case m s of Inl e \<Rightarrow> (Inl e, s) | Inr (a, t) \<Rightarrow> (Inr a, t))"

text \<open>What holds of the result and the state an action leaves, whether it raised or not.\<close>

definition leaves :: "('s, 'e, 'a) act \<Rightarrow> ('e + 'a \<Rightarrow> 's \<Rightarrow> bool) \<Rightarrow> 's \<Rightarrow> bool" where
  "leaves m Q s = (case m s of (r, s') \<Rightarrow> Q r s')"

named_theorems leaves_rules "what an action leaves"

lemma leaves_ret [simp, leaves_rules]: "leaves (retA a) Q = Q (Inr a)"
  by (simp add: fun_eq_iff leaves_def retA_def)

lemma leaves_raise [simp, leaves_rules]: "leaves (raiseA e) Q = Q (Inl e)"
  by (simp add: fun_eq_iff leaves_def raiseA_def)

lemma leaves_bind [leaves_rules]:
  "leaves (bindA m f) Q = leaves m (\<lambda>r. case r of Inl e \<Rightarrow> Q (Inl e) | Inr a \<Rightarrow> leaves (f a) Q)"
  by (simp add: fun_eq_iff leaves_def bindA_def split: sum.splits prod.splits)

lemma leaves_exec [simp, leaves_rules]: "leaves (execA u) Q = (\<lambda>s. Q (Inr ()) (u s))"
  by (simp add: fun_eq_iff leaves_def execA_def)

lemma leaves_query [simp, leaves_rules]: "leaves (queryA q) Q = (\<lambda>s. Q (Inr (q s)) s)"
  by (simp add: fun_eq_iff leaves_def queryA_def)

lemma leaves_catch [leaves_rules]:
  "leaves (catchA m h) Q = leaves m (\<lambda>r. case r of Inl e \<Rightarrow> leaves (h e) Q | Inr a \<Rightarrow> Q (Inr a))"
  by (simp add: fun_eq_iff leaves_def catchA_def split: sum.splits prod.splits)

lemma leaves_finally [simp, leaves_rules]: "leaves (finallyA m u) Q = leaves m (\<lambda>r s. Q r (u s))"
  by (simp add: fun_eq_iff leaves_def finallyA_def split: prod.splits)

lemma leaves_suppress [leaves_rules]:
  "leaves (suppressA m) Q = leaves m (\<lambda>r. case r of Inl e \<Rightarrow> if is_exception e then Q (Inr ()) else Q (Inl e) | Inr a \<Rightarrow> Q (Inr a))"
  by (simp add: fun_eq_iff leaves_def suppressA_def catchA_def retA_def raiseA_def split: sum.splits prod.splits)

lemma leaves_on [simp, leaves_rules]: "leaves (onA get put m) Q = (\<lambda>s. leaves m (\<lambda>r p. Q r (put p s)) (get s))"
  by (simp add: fun_eq_iff leaves_def onA_def split: prod.splits)

lemma leaves_mono: "leaves m Q s \<Longrightarrow> (\<And>r s'. m s = (r, s') \<Longrightarrow> Q r s' \<Longrightarrow> R r s') \<Longrightarrow> leaves m R s"
  by (auto simp: leaves_def split: prod.splits)

lemma leaves_run: "leaves m Q s \<Longrightarrow> m s = (r, s') \<Longrightarrow> Q r s'"
  by (simp add: leaves_def)

lemma leaves_intro: "(\<And>r s'. m s = (r, s') \<Longrightarrow> Q r s') \<Longrightarrow> leaves m Q s"
  by (auto simp: leaves_def split: prod.splits)

text \<open>The same as rules, for actions whose parts are known by what they leave.\<close>

definition either :: "('e \<Rightarrow> 's \<Rightarrow> bool) \<Rightarrow> ('a \<Rightarrow> 's \<Rightarrow> bool) \<Rightarrow> 'e + 'a \<Rightarrow> 's \<Rightarrow> bool" where
  "either F G r s = (case r of Inl e \<Rightarrow> F e s | Inr a \<Rightarrow> G a s)"

lemma either_simps [simp]: "either F G (Inl e) s = F e s" "either F G (Inr a) s = G a s"
  by (simp_all add: either_def)

lemma either_mono: "either F G r s \<Longrightarrow> (\<And>e. F e s \<Longrightarrow> F' e s) \<Longrightarrow> (\<And>a. G a s \<Longrightarrow> G' a s) \<Longrightarrow> either F' G' r s"
  by (cases r) simp_all

text \<open>A query: the rest runs with what it reads.\<close>

lemma leaves_query_bind [simp]: "leaves (bindA (queryA q) f) Q s = leaves (f (q s)) Q s"
  by (simp add: leaves_def bindA_def queryA_def)

lemma leaves_exec_bind [simp]: "leaves (bindA (execA u) f) Q s = leaves (f ()) Q (u s)"
  by (simp add: leaves_def bindA_def execA_def)

lemma leaves_weaken: "leaves m P s \<Longrightarrow> (\<And>r t. P r t \<Longrightarrow> Q r t) \<Longrightarrow> leaves m Q s"
  by (auto simp: leaves_def split: prod.splits)

lemma leaves_seq:
  "leaves m P s \<Longrightarrow> (\<And>e t. P (Inl e) t \<Longrightarrow> Q (Inl e) t) \<Longrightarrow> (\<And>a t. P (Inr a) t \<Longrightarrow> leaves (f a) Q t) \<Longrightarrow>
   leaves (bindA m f) Q s"
  unfolding leaves_bind by (erule leaves_weaken) (auto split: sum.splits)

lemma leaves_try:
  "leaves m P s \<Longrightarrow> (\<And>a t. P (Inr a) t \<Longrightarrow> Q (Inr a) t) \<Longrightarrow> (\<And>e t. P (Inl e) t \<Longrightarrow> leaves (h e) Q t) \<Longrightarrow>
   leaves (catchA m h) Q s"
  unfolding leaves_catch by (erule leaves_weaken) (auto split: sum.splits)

lemma leaves_suppressed:
  assumes "leaves m P s" and "\<And>r t. P r t \<Longrightarrow> Q r t" and "\<And>e t. P (Inl e) t \<Longrightarrow> is_exception e \<Longrightarrow> Q (Inr ()) t"
  shows "leaves (suppressA m) Q s"
  unfolding suppressA_def by (rule leaves_try [OF assms(1)]) (simp_all add: assms(2,3))

lemma leaves_tx [simp, leaves_rules]:
  "leaves (txA m) Q = (\<lambda>s. case m s of Inl e \<Rightarrow> Q (Inl e) s | Inr (a, t) \<Rightarrow> Q (Inr a) t)"
  by (simp add: fun_eq_iff leaves_def txA_def split: sum.splits prod.splits)

lemmas act_simps = retA_def raiseA_def bindA_def execA_def queryA_def catchA_def finallyA_def suppressA_def onA_def txA_def

text \<open>A relation every part of an action follows is one the action follows.\<close>

definition moves :: "('s \<Rightarrow> 's \<Rightarrow> bool) \<Rightarrow> ('s, 'e, 'a) act \<Rightarrow> bool" where
  "moves R m \<longleftrightarrow> (\<forall>s. R s (snd (m s)))"

lemma movesI: "(\<And>s r s'. m s = (r, s') \<Longrightarrow> R s s') \<Longrightarrow> moves R m"
  by (simp add: moves_def) (metis prod.collapse)

lemma moves_run: "moves R m \<Longrightarrow> m s = (r, s') \<Longrightarrow> R s s'"
  by (metis moves_def snd_conv)

lemma moves_case_option: "moves R m \<Longrightarrow> (\<And>x. moves R (f x)) \<Longrightarrow> moves R (case v of None \<Rightarrow> m | Some x \<Rightarrow> f x)"
  by (cases v) simp_all

lemma moves_case_sum: "(\<And>x. moves R (f x)) \<Longrightarrow> (\<And>x. moves R (g x)) \<Longrightarrow> moves R (case v of Inl x \<Rightarrow> f x | Inr x \<Rightarrow> g x)"
  by (cases v) simp_all

lemma moves_case_prod: "(\<And>x y. moves R (f x y)) \<Longrightarrow> moves R (case p of (x, y) \<Rightarrow> f x y)"
  by (cases p) simp

lemma moves_if: "moves R m \<Longrightarrow> moves R n \<Longrightarrow> moves R (if b then m else n)"
  by simp

locale act_frame =
  fixes R :: "'s \<Rightarrow> 's \<Rightarrow> bool"
  assumes act_refl: "R s s"
    and act_trans: "R s t \<Longrightarrow> R t u \<Longrightarrow> R s u"
begin

lemma act_ret: "moves R (retA a)"
  by (simp add: moves_def retA_def act_refl)

lemma act_raise: "moves R (raiseA e)"
  by (simp add: moves_def raiseA_def act_refl)

lemma act_query: "moves R (queryA q)"
  by (simp add: moves_def queryA_def act_refl)

lemma act_bind: "moves R m \<Longrightarrow> (\<And>a. moves R (f a)) \<Longrightarrow> moves R (bindA m f)"
  unfolding moves_def bindA_def
  by (auto split: prod.splits sum.splits) (metis act_trans snd_conv)+

lemma act_catch: "moves R m \<Longrightarrow> (\<And>e. moves R (h e)) \<Longrightarrow> moves R (catchA m h)"
  unfolding moves_def catchA_def
  by (auto split: prod.splits sum.splits) (metis act_trans snd_conv)+

lemma act_suppress: "moves R m \<Longrightarrow> moves R (suppressA m)"
  unfolding suppressA_def by (intro act_catch moves_if act_ret act_raise)

lemmas rules = act_ret act_raise act_query act_bind act_catch act_suppress moves_if moves_case_option
  moves_case_sum moves_case_prod

end

lemma moves_mono: "moves R m \<Longrightarrow> (\<And>s t. R s t \<Longrightarrow> S s t) \<Longrightarrow> moves S m"
  by (simp add: moves_def)

lemma moves_exec: "(\<And>s. R s (u s)) \<Longrightarrow> moves R (execA u)"
  by (simp add: moves_def execA_def)

lemma moves_fst: "(\<And>j. R j j) \<Longrightarrow> moves (\<lambda>s t. R (fst s) (fst t)) (onA snd (\<lambda>w s. (fst s, w)) m)"
  by (simp add: moves_def onA_def split: prod.splits)

end
