(* ===== verification/Effects.thy ===== *)
theory Effects
  imports Kernel_Types "HOL-Library.Multiset"
begin

text \<open>
  The identity of a journaled step (\<open>runtime/effects.py\<close>): the canonical JSON of its arguments, the
  digest of it, and the effect id made of the run, the position and the kind of the step. How Python
  prints a float and a datetime, SHA-256 as text, and the base64 in which pydantic writes and reads bytes, are
  the parameters \<open>codec\<close>.
\<close>

record codec =
  cx_float :: "rat \<Rightarrow> string"
  cx_time :: "seconds \<Rightarrow> string"
  cx_sha256 :: "string \<Rightarrow> string"
  cx_b64 :: "string \<Rightarrow> string"
  cx_unb64 :: "string \<Rightarrow> string option"

section \<open>Canonical JSON\<close>

definition hex_digit :: "nat \<Rightarrow> char" where
  "hex_digit n = ''0123456789abcdef'' ! (n mod 16)"

text \<open>A character of a JSON string literal, as \<open>json.dumps\<close> escapes it under \<open>ensure_ascii\<close>.\<close>

definition json_char :: "char \<Rightarrow> string" where
  "json_char c = (let n = of_char c :: nat in
     if c = CHR 0x22 then [CHR 0x5C, CHR 0x22]
     else if c = CHR 0x5C then [CHR 0x5C, CHR 0x5C]
     else if n = 10 then [CHR 0x5C, CHR ''n'']
     else if n = 13 then [CHR 0x5C, CHR ''r'']
     else if n = 9 then [CHR 0x5C, CHR ''t'']
     else if n = 12 then [CHR 0x5C, CHR ''f'']
     else if n = 8 then [CHR 0x5C, CHR ''b'']
     else if 32 \<le> n \<and> n \<le> 126 then [c]
     else [CHR 0x5C, CHR ''u'', CHR ''0'', CHR ''0'', hex_digit (n div 16), hex_digit n])"

definition json_string :: "string \<Rightarrow> string" where
  "json_string s = [CHR 0x22] @ concat (map json_char s) @ [CHR 0x22]"

text \<open>A member of an object: its key, and its text.\<close>

definition json_member :: "string \<Rightarrow> string \<Rightarrow> string \<times> string" where
  "json_member k v = (k, json_string k @ '':'' @ v)"

definition json_object :: "(string \<times> string) list \<Rightarrow> string" where
  "json_object ms = ''{'' @ join_with '','' (map snd (sort_key fst ms)) @ ''}''"

text \<open>
  \<open>json.dumps(value, sort_keys=True, separators=(",", ":"), default=_canonical_default)\<close>: the members
  of an object come by key; a datetime goes through \<open>_canonical_default\<close>.
\<close>

fun canonical_json :: "codec \<Rightarrow> json \<Rightarrow> string" where
  "canonical_json X JNull = ''null''"
| "canonical_json X (JBool b) = (if b then ''true'' else ''false'')"
| "canonical_json X (JInt i) = show_int i"
| "canonical_json X (JNum q) = cx_float X q"
| "canonical_json X (JStr s) = json_string s"
| "canonical_json X (JTime t) = json_object [json_member ''__datetime__'' (json_string (cx_time X t))]"
| "canonical_json X (JList js) = ''['' @ join_with '','' (map (canonical_json X) js) @ '']''"
| "canonical_json X (JObj kvs) = json_object (map (\<lambda>(k, v). json_member k (canonical_json X v)) kvs)"

section \<open>Identity\<close>

definition args_digest :: "codec \<Rightarrow> json \<Rightarrow> string" where
  "args_digest X args = take 32 (cx_sha256 X (canonical_json X args))"

definition id_text :: "codec \<Rightarrow> string \<Rightarrow> string \<Rightarrow> string \<Rightarrow> json \<Rightarrow> string" where
  "id_text X rid path kind args = canonical_json X
     (JObj [(''run_id'', JStr rid), (''path'', JStr path), (''kind'', JStr kind), (''args'', args)])"

definition make_id :: "codec \<Rightarrow> string \<Rightarrow> string \<Rightarrow> string \<Rightarrow> json \<Rightarrow> string" where
  "make_id X rid path kind args = take 16 (cx_sha256 X (id_text X rid path kind args))"

text \<open>The digest does not see the order in which a call happens to list its arguments.\<close>

lemma sort_key_mset:
  assumes "mset xs = mset ys" and "distinct (map f xs)"
  shows "sort_key f xs = sort_key f ys"
proof (rule sym, rule properties_for_sort_key)
  show m: "mset (sort_key f xs) = mset ys" using assms(1) by simp
  show "sorted (map f (sort_key f xs))" by simp
  have inj: "inj_on f (set ys)" "distinct xs" "distinct ys"
    using assms by (auto simp: distinct_map dest: mset_eq_setD mset_eq_imp_distinct_iff)
  have single: "filter (\<lambda>x. f k = f x) zs = [k]" if "k \<in> set zs" "distinct zs" "inj_on f (set zs)" for k zs
    using that
  proof (induction zs)
    case Nil
    then show ?case by simp
  next
    case (Cons z zs)
    have none: "filter (\<lambda>x. f z = f x) zs = []"
      using Cons.prems by (auto simp: filter_empty_conv inj_on_def)
    show ?case
    proof (cases "k = z")
      case True
      then show ?thesis using none by simp
    next
      case False
      then have "f k \<noteq> f z" using Cons.prems by (auto simp: inj_on_def)
      then show ?thesis using Cons False by simp
    qed
  qed
  show "filter (\<lambda>x. f k = f x) (sort_key f xs) = filter (\<lambda>x. f k = f x) ys" if "k \<in> set (sort_key f xs)" for k
  proof -
    have k: "k \<in> set ys" "set (sort_key f xs) = set ys" using that mset_eq_setD [OF m] by auto
    have "distinct (sort_key f xs)" using inj by simp
    then show ?thesis using single [OF k(1) inj(3) inj(1)] single [of k "sort_key f xs"] k inj that by simp
  qed
qed

lemma json_object_order:
  assumes "mset ms = mset ms'" and "distinct (map fst ms)"
  shows "json_object ms = json_object ms'"
  using sort_key_mset [OF assms] by (simp add: json_object_def)

lemma canonical_order:
  assumes "mset kvs = mset kvs'" and "distinct (map fst kvs)"
  shows "canonical_json X (JObj kvs) = canonical_json X (JObj kvs')"
proof -
  let ?m = "\<lambda>(k, v). json_member k (canonical_json X v)"
  have "mset (map ?m kvs) = mset (map ?m kvs')" using assms(1) by simp
  moreover have "map (fst \<circ> ?m) kvs = map fst kvs" by (simp add: json_member_def case_prod_beta)
  then have "distinct (map fst (map ?m kvs))" using assms(2) by (metis map_map)
  ultimately have "json_object (map ?m kvs) = json_object (map ?m kvs')" by (rule json_object_order)
  then show ?thesis by (simp only: canonical_json.simps)
qed

section \<open>Reading an identity back\<close>

definition hex_val :: "char \<Rightarrow> nat" where
  "hex_val c = (let n = of_char c in if n < 58 then n - 48 else n - 87)"

definition unescape :: "string \<Rightarrow> char \<times> string" where
  "unescape s = (case s of
     e # k # r \<Rightarrow>
       if e \<noteq> CHR 0x5C then (e, k # r)
       else if k = CHR ''n'' then (char_of (10 :: nat), r)
       else if k = CHR ''r'' then (char_of (13 :: nat), r)
       else if k = CHR ''t'' then (char_of (9 :: nat), r)
       else if k = CHR ''f'' then (char_of (12 :: nat), r)
       else if k = CHR ''b'' then (char_of (8 :: nat), r)
       else if k = CHR ''u'' then (char_of (hex_val (r ! 2) * 16 + hex_val (r ! 3)), drop 4 r)
       else (k, r)
   | [e] \<Rightarrow> (e, []))"

lemma hex_val_digit: "hex_val (hex_digit n) = n mod 16"
proof -
  have "\<forall>k \<in> set [0..<16]. hex_val (''0123456789abcdef'' ! k) = k" by code_simp
  moreover have "n mod 16 \<in> set [0..<16]" by simp
  ultimately show ?thesis unfolding hex_digit_def by blast
qed

lemma char_codes:
  "of_char c = (10 :: nat) \<longleftrightarrow> c = CHR 0x0A" "of_char c = (13 :: nat) \<longleftrightarrow> c = CHR 0x0D"
  "of_char c = (9 :: nat) \<longleftrightarrow> c = CHR 0x09" "of_char c = (12 :: nat) \<longleftrightarrow> c = CHR 0x0C"
  "of_char c = (8 :: nat) \<longleftrightarrow> c = CHR 0x08"
proof -
  have code: "of_char c = n \<longleftrightarrow> c = d" if "of_char d = n" for d and n :: nat
    using of_char_eq_iff [of c d, where 'a = nat] that by simp
  show "of_char c = (10 :: nat) \<longleftrightarrow> c = CHR 0x0A" "of_char c = (13 :: nat) \<longleftrightarrow> c = CHR 0x0D"
    "of_char c = (9 :: nat) \<longleftrightarrow> c = CHR 0x09" "of_char c = (12 :: nat) \<longleftrightarrow> c = CHR 0x0C"
    "of_char c = (8 :: nat) \<longleftrightarrow> c = CHR 0x08"
    by (rule code; simp)+
qed

lemma control_chars:
  "char_of (10 :: nat) = CHR 0x0A" "char_of (13 :: nat) = CHR 0x0D" "char_of (9 :: nat) = CHR 0x09"
  "char_of (12 :: nat) = CHR 0x0C" "char_of (8 :: nat) = CHR 0x08"
  by code_simp+

lemma unescape_char: "unescape (json_char c @ x) = (c, x)"
proof -
  define n where "n = (of_char c :: nat)"
  have "n < 256" by (simp add: n_def)
  then have "n div 16 < 16" by simp
  then have "(n div 16) mod 16 * 16 + n mod 16 = n" by simp
  then have "char_of (hex_val (hex_digit (n div 16)) * 16 + hex_val (hex_digit n)) = (char_of n :: char)"
    unfolding hex_val_digit by (rule arg_cong)
  then have hex: "char_of (hex_val (hex_digit (of_char c div 16)) * 16 + hex_val (hex_digit (of_char c))) = c"
    by (simp add: n_def)
  show ?thesis
  proof (cases "c \<in> {CHR 0x22, CHR 0x5C, CHR 0x0A, CHR 0x0D, CHR 0x09, CHR 0x0C, CHR 0x08}")
    case True
    then show ?thesis by (elim insertE emptyE) (simp_all add: unescape_def json_char_def control_chars)
  next
    case False
    then have other: "json_char c = (if 32 \<le> (of_char c :: nat) \<and> of_char c \<le> (126 :: nat) then [c]
        else [CHR 0x5C, CHR ''u'', CHR ''0'', CHR ''0'', hex_digit (of_char c div 16), hex_digit (of_char c)])"
      by (simp only: json_char_def Let_def char_codes insert_iff empty_iff if_False de_Morgan_disj simp_thms)
    from False have "c \<noteq> CHR 0x5C" by simp
    with other hex show ?thesis by (cases x) (simp_all add: unescape_def)
  qed
qed

lemma json_char_prefix: "json_char c @ x = json_char d @ y \<Longrightarrow> c = d \<and> x = y"
  by (metis unescape_char prod.inject)

lemma json_char_quote: "json_char c @ x \<noteq> CHR 0x22 # y"
  by (auto simp: json_char_def Let_def)

lemma json_string_prefix: "json_string a @ x = json_string b @ y \<Longrightarrow> a = b \<and> x = y"
proof -
  have "concat (map json_char a) @ CHR 0x22 # x = concat (map json_char b) @ CHR 0x22 # y \<Longrightarrow> a = b \<and> x = y"
  proof (induction a arbitrary: b)
    case Nil
    then show ?case using json_char_quote by (cases b) (auto dest: sym)
  next
    case (Cons c a)
    show ?case
    proof (cases b)
      case Nil
      with Cons.prems show ?thesis using json_char_quote [of c] by simp
    next
      case (Cons d b')
      with Cons.prems Cons.IH [of b'] show ?thesis by (auto dest: json_char_prefix)
    qed
  qed
  then show "json_string a @ x = json_string b @ y \<Longrightarrow> a = b \<and> x = y" by (simp add: json_string_def)
qed

lemma id_text_value:
  "id_text X rid path kind (JObj []) =
     ''{'' @ json_string ''args'' @ '':{},'' @ json_string ''kind'' @ '':'' @ json_string kind @ '','' @
     json_string ''path'' @ '':'' @ json_string path @ '','' @ json_string ''run_id'' @ '':'' @ json_string rid @ ''}''"
  by (simp add: id_text_def json_object_def json_member_def less_char_def less_eq_char_def)

lemma id_text_inj:
  "id_text X rid path kind (JObj []) = id_text X rid' path' kind' (JObj []) \<longleftrightarrow> rid = rid' \<and> path = path' \<and> kind = kind'"
  unfolding id_text_value using json_string_prefix [of rid "''}''" rid' "''}''"]
  by (auto dest!: json_string_prefix)

end
