(* ===== verification/Journal.thy ===== *)
theory Journal
  imports Run_Store Actions Effects "HOL-Library.AList"
begin

text \<open>
  The journal of one lease of a run (\<open>runtime/journal.py\<close>). A run is replayed from the top whenever it
  resumes; a step with a side effect is recognised by its position and answered from the record. The
  state of an action here is the journal and the world around it (the store, and whatever the steps
  touch), so that an exception keeps what was written before it. The fields \<open>jn_override\<close> and
  \<open>jn_current\<close> are the two context variables, as the running task sees them.
\<close>

section \<open>The record\<close>

datatype step_state = Completed | Pending | Absent

record known_step =
  kn_state :: step_state
  kn_kind :: string
  kn_digest :: string
  kn_value :: "json option"
  kn_ref :: "string option"

definition known_as :: "step_state \<Rightarrow> string \<Rightarrow> string \<Rightarrow> known_step" where
  "known_as st kind digest = \<lparr>kn_state = st, kn_kind = kind, kn_digest = digest, kn_value = None, kn_ref = None\<rparr>"

record journal =
  jn_run_id :: string
  jn_path_stack :: "nat list"
  jn_override :: "nat list option"
  jn_current :: "string option"
  jn_known :: "(string \<times> known_step) list"
  jn_by_path :: "(string \<times> string \<times> string) list"

definition blank_journal :: "string \<Rightarrow> journal" where
  "blank_journal rid = \<lparr>jn_run_id = rid, jn_path_stack = [0], jn_override = None, jn_current = None,
     jn_known = [], jn_by_path = []\<rparr>"

definition known_of :: "journal \<Rightarrow> string \<Rightarrow> known_step option" where
  "known_of j eid = map_of (jn_known j) eid"

definition set_known :: "string \<Rightarrow> known_step \<Rightarrow> journal \<Rightarrow> journal" where
  "set_known eid k j = j\<lparr>jn_known := AList.update eid k (jn_known j)\<rparr>"

definition set_path :: "string \<Rightarrow> string \<Rightarrow> string \<Rightarrow> journal \<Rightarrow> journal" where
  "set_path path kind digest j = j\<lparr>jn_by_path := AList.update path (kind, digest) (jn_by_path j)\<rparr>"

text \<open>\<open>payload[k]\<close> where the runtime writes text, \<open>payload.get(k, d)\<close>, and \<open>x or {}\<close>.\<close>

definition text_field :: "string \<Rightarrow> json \<Rightarrow> exn + string" where
  "text_field k p = (case jget k p of None \<Rightarrow> Inl (PyExn ''KeyError'' k)
     | Some v \<Rightarrow> (case v of JStr s \<Rightarrow> Inr s | _ \<Rightarrow> Inl (PyExn ''TypeError'' k)))"

definition text_or :: "string \<Rightarrow> string \<Rightarrow> json \<Rightarrow> string" where
  "text_or k d p = (case jget_str k p of None \<Rightarrow> d | Some s \<Rightarrow> s)"

fun falsy :: "json \<Rightarrow> bool" where
  "falsy JNull = True"
| "falsy (JBool b) = (\<not> b)"
| "falsy (JInt i) = (i = 0)"
| "falsy (JNum q) = (q = 0)"
| "falsy (JStr s) = (s = [])"
| "falsy (JTime t) = False"
| "falsy (JList js) = (js = [])"
| "falsy (JObj kvs) = (kvs = [])"

definition or_empty :: "json option \<Rightarrow> json" where
  "or_empty v = (case v of None \<Rightarrow> JObj [] | Some x \<Rightarrow> if falsy x then JObj [] else x)"

definition is_ok :: "json \<Rightarrow> exn + bool" where
  "is_ok p = (case jget ''status'' p of None \<Rightarrow> Inl (PyExn ''KeyError'' ''status'') | Some v \<Rightarrow> Inr (v = JStr ''ok''))"

text \<open>\<open>_fold\<close>; a malformed entry makes the constructor raise.\<close>

definition fold_intent :: "json \<Rightarrow> (journal, exn, unit) tx" where
  "fold_intent p =
     bindT (liftT (text_field ''effect_id'' p)) (\<lambda>eid.
     bindT (liftT (text_field ''path'' p)) (\<lambda>path.
     bindT (liftT (text_field ''kind'' p)) (\<lambda>kind.
     bindT (liftT (text_field ''digest'' p)) (\<lambda>digest.
     thenT (execT (set_path path kind digest))
    (execT (\<lambda>j. if map_option kn_state (known_of j eid) = Some Completed then j
                else set_known eid (known_as Pending kind digest) j))))))"

definition fold_ok :: "string \<Rightarrow> json \<Rightarrow> journal \<Rightarrow> journal" where
  "fold_ok eid p j =
     (let kind = (case known_of j eid of None \<Rightarrow> text_or ''kind'' [] p | Some k \<Rightarrow> kn_kind k);
          digest = (case known_of j eid of None \<Rightarrow> text_or ''digest'' [] p | Some k \<Rightarrow> kn_digest k);
          done = (known_as Completed kind digest)\<lparr>kn_value := Some (or_empty (jget ''value'' p)),
                    kn_ref := jget_str ''artifact_ref'' p\<rparr>
      in set_known eid done j)"

definition fold_result :: "json \<Rightarrow> (journal, exn, unit) tx" where
  "fold_result p =
     bindT (liftT (text_field ''effect_id'' p)) (\<lambda>eid.
     bindT (liftT (is_ok p)) (\<lambda>okay.
       if okay then
         thenT (execT (fold_ok eid p))
        (if jget ''path'' p = None then retT ()
         else bindT (liftT (text_field ''path'' p)) (\<lambda>path.
              execT (set_path path (text_or ''kind'' [] p) (text_or ''digest'' [] p))))
       else execT (set_known eid (known_as Absent [] []))))"

definition fold_entry :: "run_log_entry \<Rightarrow> (journal, exn, unit) tx" where
  "fold_entry e =
     (if le_kind e = ''effect.intent'' then fold_intent (le_payload e)
      else if le_kind e = ''effect.result'' then fold_result (le_payload e)
      else retT ())"

definition new_journal :: "string \<Rightarrow> run_log_entry list \<Rightarrow> exn + journal" where
  "new_journal rid es = map_sum id snd (forT fold_entry es (blank_journal rid))"

definition completed_steps :: "journal \<Rightarrow> nat" where
  "completed_steps j = length (filter (\<lambda>k. kn_state (snd k) = Completed) (jn_known j))"

section \<open>Paths\<close>

definition stack_of :: "journal \<Rightarrow> nat list" where
  "stack_of j = (case jn_override j of Some st \<Rightarrow> st | None \<Rightarrow> jn_path_stack j)"

definition set_stack :: "nat list \<Rightarrow> journal \<Rightarrow> journal" where
  "set_stack st j = (case jn_override j of Some _ \<Rightarrow> j\<lparr>jn_override := Some st\<rparr> | None \<Rightarrow> j\<lparr>jn_path_stack := st\<rparr>)"

definition path_text :: "nat list \<Rightarrow> string" where
  "path_text st = join_with ''.'' (map show_nat st)"

definition peek_path :: "journal \<Rightarrow> string" where
  "peek_path j = path_text (stack_of j)"

definition bump :: "nat \<Rightarrow> nat list \<Rightarrow> nat list" where
  "bump n st = butlast st @ [last st + n]"

definition index_error :: exn where
  "index_error = PyExn ''IndexError'' ''list index out of range''"

type_synonym ('w, 'a) jact = "(journal \<times> 'w, exn, 'a) act"

abbreviation jexec :: "(journal \<Rightarrow> journal) \<Rightarrow> ('w, unit) jact" where
  "jexec f \<equiv> execA (\<lambda>s. (f (fst s), snd s))"

abbreviation jquery :: "(journal \<Rightarrow> 'a) \<Rightarrow> ('w, 'a) jact" where
  "jquery f \<equiv> queryA (\<lambda>s. f (fst s))"

definition alloc_path :: "('w, string) jact" where
  "alloc_path = bindA (jquery stack_of) (\<lambda>st.
     if st = [] then raiseA index_error
     else thenA (jexec (set_stack (bump 1 st))) (retA (path_text st)))"

definition fork_scopes :: "nat \<Rightarrow> ('w, nat list list) jact" where
  "fork_scopes n = bindA (jquery stack_of) (\<lambda>st.
     if st = [] then raiseA index_error
     else thenA (jexec (set_stack (bump n st))) (retA (map (\<lambda>i. bump i st) [0..<n])))"

definition in_scope :: "nat list \<Rightarrow> ('w, 'a) jact \<Rightarrow> ('w, 'a) jact" where
  "in_scope st fn = bindA (jquery jn_override) (\<lambda>old.
     thenA (jexec (\<lambda>j. j\<lparr>jn_override := Some st\<rparr>))
    (finallyA fn (\<lambda>s. ((fst s)\<lparr>jn_override := old\<rparr>, snd s))))"

definition enter_scope :: "journal \<Rightarrow> journal" where
  "enter_scope j = set_stack (stack_of j @ [0]) j"

definition exit_scope :: "journal \<Rightarrow> journal" where
  "exit_scope j = set_stack (butlast (stack_of j)) j"

section \<open>The host\<close>

text \<open>
  What the journal is given: the commit of the lease, the blob store, and how JSON text is written and
  read (\<open>json.dumps(value, default=str)\<close>, \<open>json.loads\<close>).
\<close>

record 'w blobs =
  bl_resolve :: "string \<Rightarrow> ('w, exn, string) act"
  bl_store :: "string \<Rightarrow> ('w, exn, string) act"
  bl_pin :: "string \<Rightarrow> ('w, exn, unit) act"

record 'w host =
  ho_commit :: "new_entry list \<Rightarrow> ('w, exn, unit) act"
  ho_blobs :: "'w blobs option"
  ho_codec :: codec
  ho_dumps :: "json \<Rightarrow> string"
  ho_loads :: "string \<Rightarrow> json"

definition offload_bytes :: nat where
  "offload_bytes = 64 * 1024"

definition resolve :: "'w host \<Rightarrow> known_step \<Rightarrow> ('w, json) jact" where
  "resolve H k =
     (case kn_ref k of
        Some ref \<Rightarrow>
          if ref \<noteq> [] \<and> or_empty (kn_value k) = JObj [] then
            (case ho_blobs H of
               None \<Rightarrow> raiseA (PyExn ''RuntimeError'' (''journaled value is offloaded ('' @ ref @
                         '') but no blob store is configured''))
             | Some B \<Rightarrow> bindA (worldA (bl_resolve B ref)) (\<lambda>raw. retA (ho_loads H raw)))
          else retA (or_empty (kn_value k))
      | None \<Rightarrow> retA (or_empty (kn_value k)))"

definition offload :: "'w host \<Rightarrow> json \<Rightarrow> ('w, json \<times> string option) jact" where
  "offload H v = (case ho_blobs H of
       None \<Rightarrow> retA (v, None)
     | Some B \<Rightarrow>
         let text = ho_dumps H v in
         if length text \<le> offload_bytes then retA (v, None)
         else bindA (worldA (bl_store B text)) (\<lambda>ref.
              thenA (worldA (bl_pin B ref)) (retA (JObj [], Some ref))))"

text \<open>\<open>_record\<close>: up to three attempts; only an \<open>Exception\<close> is retried. The argument counts the attempts left.\<close>

fun record_try :: "'w host \<Rightarrow> nat \<Rightarrow> new_entry list \<Rightarrow> ('w, unit) jact" where
  "record_try H 0 es = worldA (ho_commit H es)"
| "record_try H (Suc n) es = catchA (worldA (ho_commit H es))
     (\<lambda>e. if is_exception e then record_try H n es else raiseA e)"

definition outcome_attempts :: nat where
  "outcome_attempts = 3"

definition record_outcome :: "'w host \<Rightarrow> new_entry list \<Rightarrow> ('w, unit) jact" where
  "record_outcome H es = record_try H (outcome_attempts - 1) es"

section \<open>Steps\<close>

record step_outcome =
  so_value :: json
  so_replayed :: bool
  so_effect_id :: string

definition quoted :: "string \<Rightarrow> string" where
  "quoted s = CHR 0x27 # s @ [CHR 0x27]"

definition diverged :: "string \<Rightarrow> string \<times> string \<Rightarrow> string \<Rightarrow> exn" where
  "diverged path prior kind = KernelExn NonDeterminismError
     (''replay diverged from the journal at path '' @ quoted path @ '': recorded '' @ quoted (fst prior) @
      '', now '' @ quoted kind @ (if fst prior = kind then '' with different arguments'' else [])) None"

definition identify :: "'w host \<Rightarrow> string \<Rightarrow> json \<Rightarrow> ('w, string \<times> string \<times> string) jact" where
  "identify H kind args =
     bindA alloc_path (\<lambda>path.
     bindA (jquery (\<lambda>j. (map_of (jn_by_path j) path, jn_run_id j))) (\<lambda>(prior, rid).
       let digest = args_digest (ho_codec H) args in
       case prior of
         Some p \<Rightarrow> if p \<noteq> (kind, digest) then raiseA (diverged path p kind)
                   else retA (path, make_id (ho_codec H) rid path kind (JObj []), digest)
       | None \<Rightarrow> retA (path, make_id (ho_codec H) rid path kind (JObj []), digest)))"

definition orphaned :: "string \<Rightarrow> string \<Rightarrow> exn" where
  "orphaned kind path = KernelExn OrphanedEffectError
     (kind @ '' at path '' @ quoted path @ '' was started and its outcome was never recorded; it is not '' @
      ''marked idempotent, so it will not be run again. Check whether it took effect.'') None"

text \<open>
  \<open>effect\<close> up to the point where the step is answered (\<open>Inl\<close>) or goes ahead under its path, its id
  and its digest (\<open>Inr\<close>).
\<close>

definition begin_effect ::
  "'w host \<Rightarrow> string \<Rightarrow> json \<Rightarrow> bool \<Rightarrow> ('w, step_outcome + string \<times> string \<times> string) jact" where
  "begin_effect H kind args idempotent =
     bindA (identify H kind args) (\<lambda>(path, eid, digest).
     bindA (jquery (\<lambda>j. known_of j eid)) (\<lambda>known.
       case known of
         Some k \<Rightarrow>
           if kn_state k = Completed then
             bindA (resolve H k) (\<lambda>v. retA (Inl \<lparr>so_value = v, so_replayed = True, so_effect_id = eid\<rparr>))
           else if kn_state k = Pending \<and> \<not> idempotent then raiseA (orphaned kind path)
           else retA (Inr (path, eid, digest))
       | None \<Rightarrow> retA (Inr (path, eid, digest))))"

definition intent_entry :: "string \<Rightarrow> string \<Rightarrow> string \<Rightarrow> string \<Rightarrow> bool \<Rightarrow> new_entry" where
  "intent_entry eid path kind digest idempotent = entry ''effect.intent''
     (JObj [(''effect_id'', JStr eid), (''path'', JStr path), (''kind'', JStr kind), (''digest'', JStr digest),
            (''idempotent'', JBool idempotent)]) None"

definition announce_intent :: "'w host \<Rightarrow> string \<Rightarrow> string \<Rightarrow> string \<Rightarrow> string \<Rightarrow> bool \<Rightarrow> ('w, unit) jact" where
  "announce_intent H kind path eid digest idempotent =
     bindA (jquery (\<lambda>j. map_option kn_state (known_of j eid))) (\<lambda>st.
       if st = Some Pending then retA ()
       else thenA (worldA (ho_commit H [intent_entry eid path kind digest idempotent]))
                  (jexec (set_known eid (known_as Pending kind digest))))"

definition bare_result :: "string \<Rightarrow> string \<Rightarrow> string \<Rightarrow> json \<Rightarrow> new_entry" where
  "bare_result eid status k v = entry ''effect.result''
     (JObj [(''effect_id'', JStr eid), (''status'', JStr status), (k, v)]) None"

text \<open>\<open>_abort\<close> and \<open>_fail\<close>: the record may be lost, the reason the step stopped is not masked.\<close>

definition give_up :: "'w host \<Rightarrow> string \<Rightarrow> new_entry \<Rightarrow> ('w, unit) jact" where
  "give_up H eid e = thenA (jexec (set_known eid (known_as Absent [] []))) (suppressA (record_outcome H [e]))"

definition abort_effect :: "'w host \<Rightarrow> string \<Rightarrow> string \<Rightarrow> ('w, unit) jact" where
  "abort_effect H eid reason = give_up H eid (bare_result eid ''aborted'' ''reason'' (JStr reason))"

definition failure_info :: "exn \<Rightarrow> error_info" where
  "failure_info e = (case e of KernelExn c msg _ \<Rightarrow> to_info c msg
     | PyExn _ msg \<Rightarrow> mk_error ''effect_failed'' (take 500 msg) False
     | _ \<Rightarrow> mk_error ''effect_failed'' [] False)"

definition fail_effect :: "'w host \<Rightarrow> string \<Rightarrow> exn \<Rightarrow> ('w, unit) jact" where
  "fail_effect H eid e = give_up H eid (bare_result eid ''error'' ''error'' (dump_error (failure_info e)))"

definition keyed :: "string \<Rightarrow> ('w, 'a) jact \<Rightarrow> ('w, 'a) jact" where
  "keyed eid m = bindA (jquery jn_current) (\<lambda>old.
     thenA (jexec (\<lambda>j. j\<lparr>jn_current := Some eid\<rparr>))
    (finallyA m (\<lambda>s. ((fst s)\<lparr>jn_current := old\<rparr>, snd s))))"

text \<open>The body under the step's key, with what is recorded when it stops without a value.\<close>

definition call_body :: "'w host \<Rightarrow> string \<Rightarrow> ('w, json) jact \<Rightarrow> ('w, json) jact" where
  "call_body H eid fn = keyed eid (catchA fn (\<lambda>e.
     if is_control_signal e then thenA (abort_effect H eid ''interrupted'') (raiseA e)
     else if is_exception e then thenA (fail_effect H eid e) (raiseA e)
     else raiseA e))"

definition ok_entry :: "string \<Rightarrow> string \<Rightarrow> string \<Rightarrow> string \<Rightarrow> string \<times> json \<Rightarrow> new_entry" where
  "ok_entry eid path kind digest value = entry ''effect.result''
     (JObj [(''effect_id'', JStr eid), (''path'', JStr path), (''kind'', JStr kind), (''digest'', JStr digest),
            (''status'', JStr ''ok''), value]) None"

definition stored_value :: "json \<times> string option \<Rightarrow> string \<times> json" where
  "stored_value sr = (case snd sr of
       Some ref \<Rightarrow> if ref \<noteq> [] then (''artifact_ref'', JStr ref) else (''value'', fst sr)
     | None \<Rightarrow> (''value'', fst sr))"

definition finish_effect :: "'w host \<Rightarrow> string \<Rightarrow> string \<Rightarrow> string \<Rightarrow> string \<Rightarrow> json \<Rightarrow> ('w, step_outcome) jact" where
  "finish_effect H kind path eid digest v =
     bindA (offload H v) (\<lambda>sr.
     thenA (record_outcome H [ok_entry eid path kind digest (stored_value sr)])
    (thenA (jexec (set_known eid ((known_as Completed kind digest)\<lparr>kn_value := Some v\<rparr>)))
    (retA \<lparr>so_value = v, so_replayed = False, so_effect_id = eid\<rparr>)))"

definition run_effect ::
  "'w host \<Rightarrow> string \<Rightarrow> string \<Rightarrow> string \<Rightarrow> string \<Rightarrow> bool \<Rightarrow> ('w, json) jact \<Rightarrow> ('w, step_outcome) jact" where
  "run_effect H kind path eid digest idempotent fn =
     thenA (jexec enter_scope)
    (finallyA
      (thenA (announce_intent H kind path eid digest idempotent)
      (bindA (call_body H eid fn) (finish_effect H kind path eid digest)))
      (\<lambda>s. (exit_scope (fst s), snd s)))"

definition effect :: "'w host \<Rightarrow> string \<Rightarrow> json \<Rightarrow> bool \<Rightarrow> ('w, json) jact \<Rightarrow> ('w, step_outcome) jact" where
  "effect H kind args idempotent fn =
     bindA (begin_effect H kind args idempotent) (\<lambda>b. case b of
         Inl out \<Rightarrow> retA out
       | Inr (path, eid, digest) \<Rightarrow> run_effect H kind path eid digest idempotent fn)"

text \<open>A step whose execution is itself a commit: the outcome is written in that commit.\<close>

definition record_atomic ::
  "'w host \<Rightarrow> string \<Rightarrow> json \<Rightarrow> (string \<Rightarrow> string \<Rightarrow> ('w, json \<times> (new_entry list \<Rightarrow> ('w, unit) jact)) jact)
     \<Rightarrow> ('w, step_outcome) jact" where
  "record_atomic H kind args build =
     bindA (identify H kind args) (\<lambda>(path, eid, digest).
     bindA (jquery (\<lambda>j. known_of j eid)) (\<lambda>known.
       if map_option kn_state known = Some Completed then
         bindA (resolve H (the known)) (\<lambda>v. retA \<lparr>so_value = v, so_replayed = True, so_effect_id = eid\<rparr>)
       else
         bindA (build path eid) (\<lambda>(v, do_commit).
         thenA (do_commit [(ok_entry eid path kind digest (''value'', v))\<lparr>ne_dedup := Some (''effect:'' @ eid)\<rparr>])
        (thenA (jexec (set_known eid ((known_as Completed kind digest)\<lparr>kn_value := Some v\<rparr>)))
        (retA \<lparr>so_value = v, so_replayed = False, so_effect_id = eid\<rparr>)))))"

definition peek :: "'w host \<Rightarrow> string \<Rightarrow> json \<Rightarrow> ('w, string \<times> string \<times> json option) jact" where
  "peek H kind args =
     bindA (identify H kind args) (\<lambda>(path, eid, digest).
     bindA (jquery (\<lambda>j. known_of j eid)) (\<lambda>known.
     retA (path, eid, case known of None \<Rightarrow> None
       | Some k \<Rightarrow> if kn_state k = Completed then kn_value k else None)))"

end
