(* ===== verification/Journal_Replay.thy ===== *)
theory Journal_Replay
  imports Journal
begin

text \<open>
  What the journal's fold makes of a log, and what a step leaves in it. The locale \<open>journal_port\<close> is
  the interface the journal relies on: a commit appends its entries to the log or changes nothing, and
  the blob store does not touch it; \<open>mark\<close> observes something of the world that neither of them
  changes. Everything about steps is proved in it.
\<close>

section \<open>What the log says of a step\<close>

definition about :: "string \<Rightarrow> run_log_entry \<Rightarrow> bool" where
  "about eid r \<longleftrightarrow> (le_kind r = ''effect.intent'' \<or> le_kind r = ''effect.result'') \<and>
     jget ''effect_id'' (le_payload r) = Some (JStr eid)"

definition state_step :: "string \<Rightarrow> step_state option \<Rightarrow> run_log_entry \<Rightarrow> step_state option" where
  "state_step eid st r =
     (if \<not> about eid r then st
      else if le_kind r = ''effect.intent'' then (if st = Some Completed then st else Some Pending)
      else if jget ''status'' (le_payload r) = Some (JStr ''ok'') then Some Completed else Some Absent)"

definition state_after :: "string \<Rightarrow> run_log_entry list \<Rightarrow> step_state option" where
  "state_after eid es = foldl (state_step eid) None es"

definition known_state :: "journal \<Rightarrow> string \<Rightarrow> step_state option" where
  "known_state j eid = map_option kn_state (known_of j eid)"

lemma state_after_snoc [simp]: "state_after eid (es @ [r]) = state_step eid (state_after eid es) r"
  by (simp add: state_after_def)

lemma state_after_snoc2 [simp]: "state_after eid (a @ b @ [r]) = state_step eid (state_after eid (a @ b)) r"
  using state_after_snoc [of eid "a @ b" r] by simp

lemma foldl_state_others: "\<forall>r \<in> set rows. \<not> about eid r \<Longrightarrow> foldl (state_step eid) st rows = st"
  by (induction rows arbitrary: st) (auto simp: state_step_def)

lemma state_after_others: "\<forall>r \<in> set rows. \<not> about eid r \<Longrightarrow> state_after eid (es @ rows) = state_after eid es"
  by (simp add: state_after_def foldl_state_others)

lemma known_of_set [simp]:
  "known_of (set_known e k j) x = (if x = e then Some k else known_of j x)"
  "known_of (set_path p a b j) x = known_of j x"
  by (simp_all add: known_of_def set_known_def set_path_def update_conv')

lemma known_state_set [simp]:
  "known_state (set_known e k j) x = (if x = e then Some (kn_state k) else known_state j x)"
  "known_state (set_path p a b j) x = known_state j x"
  by (simp_all add: known_state_def)

lemma known_as_state [simp]: "kn_state (known_as st kind digest) = st"
  by (simp add: known_as_def)

lemma fold_ok_state: "known_state (fold_ok eid p j) x = (if x = eid then Some Completed else known_state j x)"
  by (simp add: fold_ok_def Let_def known_as_def)

lemma text_field_get: "text_field k p = Inr s \<longleftrightarrow> jget k p = Some (JStr s)"
  by (auto simp: text_field_def split: option.splits json.splits)

lemma is_ok_get: "is_ok p = Inr b \<Longrightarrow> b \<longleftrightarrow> jget ''status'' p = Some (JStr ''ok'')"
  by (auto simp: is_ok_def split: option.splits)

lemma fold_entry_state:
  assumes "fold_entry r j = Inr (u, j')"
  shows "known_state j' eid = state_step eid (known_state j eid) r"
proof -
  have "wp (fold_entry r) (\<lambda>_ j'. known_state j' eid = state_step eid (known_state j eid) r) j"
    by (auto simp: fold_entry_def fold_intent_def fold_result_def text_field_get state_step_def about_def
        known_state_def [symmetric] fold_ok_state dest!: is_ok_get)
  from wp_run [OF this assms] show ?thesis .
qed

lemma fold_states:
  "forT fold_entry es j = Inr (u, j') \<Longrightarrow> known_state j' eid = foldl (state_step eid) (known_state j eid) es"
proof (induction es arbitrary: j)
  case Nil
  then show ?case by (simp add: retT_def)
next
  case (Cons r es)
  then obtain v k where "fold_entry r j = Inr (v, k)" "forT fold_entry es k = Inr (u, j')"
    by (auto simp: bind_run)
  then show ?case using Cons.IH fold_entry_state by fastforce
qed

lemma new_journal_run: "new_journal rid es = Inr j \<longleftrightarrow> forT fold_entry es (blank_journal rid) = Inr ((), j)"
  by (cases "forT fold_entry es (blank_journal rid)") (auto simp: new_journal_def)

text \<open>A journal read from a log is at the start of the run's scope, and knows of each step what the log says.\<close>

lemma new_journal_state:
  assumes "new_journal rid es = Inr j"
  shows "known_state j eid = state_after eid es"
  using assms fold_states [of es "blank_journal rid" _ j eid]
  by (simp add: new_journal_run state_after_def) (auto simp: known_state_def known_of_def blank_journal_def)

definition same_place :: "journal \<Rightarrow> journal \<Rightarrow> bool" where
  "same_place j k \<longleftrightarrow> jn_run_id k = jn_run_id j \<and> jn_path_stack k = jn_path_stack j \<and>
     jn_override k = jn_override j \<and> jn_current k = jn_current j"

interpretation place: frame same_place
  by unfold_locales (simp_all add: same_place_def)

lemma same_place_set [simp]:
  "same_place j (set_known e k j)" "same_place j (set_path p a b j)" "same_place j (fold_ok e q j)"
  by (simp_all add: same_place_def set_known_def set_path_def fold_ok_def Let_def)

lemma fold_entry_place: "stable same_place (fold_entry r)"
  unfolding fold_entry_def fold_intent_def fold_result_def
  by (intro place.rules stable_exec) (simp_all add: place.R_refl)

lemma new_journal_place: "new_journal rid es = Inr j \<Longrightarrow> same_place (blank_journal rid) j"
  using stable_run [OF place.for_each [OF fold_entry_place]] by (simp add: new_journal_run)

text \<open>The recorded kind and digest of a path change only with an entry that names the path.\<close>

definition at_path :: "string \<Rightarrow> run_log_entry \<Rightarrow> bool" where
  "at_path p r \<longleftrightarrow> (le_kind r = ''effect.intent'' \<or> le_kind r = ''effect.result'') \<and>
     jget ''path'' (le_payload r) = Some (JStr p)"

lemma by_path_set [simp]:
  "jn_by_path (set_known e k j) = jn_by_path j" "jn_by_path (fold_ok e q j) = jn_by_path j"
  "map_of (jn_by_path (set_path p a b j)) x = (if x = p then Some (a, b) else map_of (jn_by_path j) x)"
  by (simp_all add: set_known_def set_path_def fold_ok_def Let_def update_conv')

lemma fold_entry_other_path:
  assumes "fold_entry r j = Inr (u, j')" and "\<not> at_path p r"
  shows "map_of (jn_by_path j') p = map_of (jn_by_path j) p"
proof -
  have "wp (fold_entry r) (\<lambda>_ j'. map_of (jn_by_path j') p = map_of (jn_by_path j) p) j"
    using assms(2)
    by (auto simp: fold_entry_def fold_intent_def fold_result_def text_field_get at_path_def)
  from wp_run [OF this assms(1)] show ?thesis .
qed

lemma fold_other_paths:
  "forT fold_entry es j = Inr (u, j') \<Longrightarrow> \<forall>r \<in> set es. \<not> at_path p r \<Longrightarrow>
   map_of (jn_by_path j') p = map_of (jn_by_path j) p"
proof (induction es arbitrary: j)
  case Nil
  then show ?case by (simp add: retT_def)
next
  case (Cons r es)
  then obtain v k where "fold_entry r j = Inr (v, k)" "forT fold_entry es k = Inr (u, j')"
    by (auto simp: bind_run)
  then show ?case using Cons fold_entry_other_path by fastforce
qed

lemma forT_append: "forT f (xs @ ys) s = Inr (u, t) \<longleftrightarrow> (\<exists>v k. forT f xs s = Inr (v, k) \<and> forT f ys k = Inr (u, t))"
  by (induction xs arbitrary: s) (auto simp: bind_run retT_def)

section \<open>The interface of the journal\<close>

definition plain :: "new_entry \<Rightarrow> bool" where
  "plain e \<longleftrightarrow> ne_dedup e = None \<and> \<not> ne_ephemeral e"

definition says :: "new_entry \<Rightarrow> run_log_entry \<Rightarrow> bool" where
  "says e r \<longleftrightarrow> le_kind r = ne_kind e \<and> le_payload r = ne_payload e"

text \<open>An entry was written, or the attempt raised and nothing was; the journal in memory is \<open>j\<close>.\<close>

definition recorded ::
  "('w \<Rightarrow> run_log_entry list) \<Rightarrow> ('w \<Rightarrow> bool) \<Rightarrow> ('w \<Rightarrow> nat) \<Rightarrow> new_entry \<Rightarrow> journal \<Rightarrow> 'w \<Rightarrow> exn + 'a \<Rightarrow> journal \<times> 'w \<Rightarrow> bool" where
  "recorded trail ok mark e j w r s \<longleftrightarrow> fst s = j \<and> ok (snd s) \<and> mark (snd s) = mark w \<and>
     (case r of Inl _ \<Rightarrow> trail (snd s) = trail w | Inr _ \<Rightarrow> \<exists>x. trail (snd s) = trail w @ [x] \<and> says e x)"

lemma recordedD:
  "recorded trail ok mark e j w r s \<Longrightarrow> fst s = j \<and> ok (snd s) \<and> mark (snd s) = mark w \<and> (trail (snd s) = trail w \<or> (\<exists>x. trail (snd s) = trail w @ [x] \<and> says e x))"
  by (auto simp: recorded_def split: sum.splits)

definition still :: "('w \<Rightarrow> run_log_entry list) \<Rightarrow> ('w \<Rightarrow> bool) \<Rightarrow> ('w \<Rightarrow> nat) \<Rightarrow> journal \<Rightarrow> 'w \<Rightarrow> exn + 'a \<Rightarrow> journal \<times> 'w \<Rightarrow> bool" where
  "still trail ok mark j w r s \<longleftrightarrow> fst s = j \<and> ok (snd s) \<and> mark (snd s) = mark w \<and> trail (snd s) = trail w"

locale journal_port =
  fixes H :: "'w host" and trail :: "'w \<Rightarrow> run_log_entry list" and ok :: "'w \<Rightarrow> bool" and mark :: "'w \<Rightarrow> nat"
  assumes committed: "\<lbrakk>ok w; plain e; ho_commit H [e] w = (Inr u, w')\<rbrakk> \<Longrightarrow> ok w' \<and> mark w' = mark w \<and> (\<exists>r. trail w' = trail w @ [r] \<and> says e r)"
    and refused: "\<lbrakk>ok w; ho_commit H es w = (Inl x, w')\<rbrakk> \<Longrightarrow> ok w' \<and> mark w' = mark w \<and> trail w' = trail w"
    and blob_store: "\<lbrakk>ho_blobs H = Some B; ok w; bl_store B tx w = (c, w')\<rbrakk> \<Longrightarrow> ok w' \<and> mark w' = mark w \<and> trail w' = trail w"
    and blob_pin: "\<lbrakk>ho_blobs H = Some B; ok w; bl_pin B ref w = (d, w')\<rbrakk> \<Longrightarrow> ok w' \<and> mark w' = mark w \<and> trail w' = trail w"
    and blob_resolve: "\<lbrakk>ho_blobs H = Some B; ok w; bl_resolve B ref w = (c, w')\<rbrakk> \<Longrightarrow> ok w' \<and> mark w' = mark w \<and> trail w' = trail w"
begin

text \<open>One committed entry, or the trail as it was.\<close>

lemma commit_leaves:
  assumes "ok w" and "plain e"
  shows "leaves (worldA (ho_commit H [e])) (recorded trail ok mark e j w) (j, w)"
  using committed [OF assms] refused [OF assms(1)]
  by (auto simp: leaves_def onA_def recorded_def split: prod.splits sum.splits)

lemma record_leaves:
  assumes "ok w" and "plain e"
  shows "leaves (record_try H n [e]) (recorded trail ok mark e j w) (j, w)"
  using assms
proof (induction n arbitrary: w)
  case 0
  then show ?case using commit_leaves by simp
next
  case (Suc n)
  have retry: "leaves (if is_exception x then record_try H n [e] else raiseA x) (recorded trail ok mark e j w) s"
    if "recorded trail ok mark e j w (Inl x :: exn + unit) s" for x s
  proof (cases "is_exception x")
    case True
    from that have s: "s = (j, snd s)" "ok (snd s)" "mark (snd s) = mark w" "trail (snd s) = trail w"
      by (auto simp: recorded_def prod_eq_iff)
    then have "leaves (record_try H n [e]) (recorded trail ok mark e j (snd s)) s"
      using Suc.IH [of "snd s"] Suc.prems(2) by metis
    moreover have "recorded trail ok mark e j (snd s) = (recorded trail ok mark e j w :: exn + unit \<Rightarrow> _)"
      unfolding recorded_def fun_eq_iff s(3,4) by simp
    ultimately show ?thesis using True by simp
  next
    case False
    with that show ?thesis by simp
  qed
  show ?case
    unfolding record_try.simps
    by (rule leaves_try [OF commit_leaves [OF Suc.prems]], assumption, rule retry)
qed

lemma give_up_leaves:
  assumes "ok w" and "plain e"
  shows "leaves (give_up H eid e) (\<lambda>r s. fst s = set_known eid (known_as Absent [] []) j \<and> ok (snd s) \<and> mark (snd s) = mark w \<and>
      (trail (snd s) = trail w \<or> (\<exists>x. trail (snd s) = trail w @ [x] \<and> says e x))) (j, w)"
  unfolding give_up_def record_outcome_def leaves_bind leaves_exec sum.case fst_conv snd_conv
  by (rule leaves_suppressed [OF record_leaves [OF assms]]; drule recordedD) simp_all

lemma world_still:
  assumes "ok w" and "trail w = trail w0" and "mark w = mark w0" and "\<And>c w'. m w = (c, w') \<Longrightarrow> ok w' \<and> mark w' = mark w \<and> trail w' = trail w"
  shows "leaves (worldA m) (still trail ok mark j w0) (j, w)"
  using assms by (auto simp: leaves_def onA_def still_def split: prod.splits)

lemma still_pair: "still trail ok mark j w r s \<Longrightarrow> s = (j, snd s) \<and> ok (snd s) \<and> mark (snd s) = mark w \<and> trail (snd s) = trail w"
  by (auto simp: still_def prod_eq_iff)

lemma offload_still: "ok w \<Longrightarrow> leaves (offload H v) (still trail ok mark j w) (j, w)"
proof -
  assume w: "ok w"
  have pin: "leaves (worldA (bl_pin B ref)) (still trail ok mark j w) s"
    if "ho_blobs H = Some B" "still trail ok mark j w (r :: exn + string) s" for B ref r s
  proof -
    from that(2) have "s = (j, snd s)" "ok (snd s)" "mark (snd s) = mark w" "trail (snd s) = trail w" using still_pair by blast+
    then show ?thesis using world_still blob_pin [OF that(1)] by metis
  qed
  have store: "leaves (worldA (bl_store B x)) (still trail ok mark j w) (j, w)" if "ho_blobs H = Some B" for B x
    using w blob_store [OF that] by (intro world_still) auto
  show ?thesis
    unfolding offload_def Let_def
  proof (cases "ho_blobs H")
    case (Some B)
    have "leaves (bindA (worldA (bl_store B (ho_dumps H v))) (\<lambda>ref. thenA (worldA (bl_pin B ref)) (retA (JObj [], Some ref))))
        (still trail ok mark j w) (j, w)"
      by (rule leaves_seq [OF store [OF Some]], simp add: still_def, rule leaves_seq [OF pin [OF Some]])
        (simp_all add: still_def)
    then show "leaves (case ho_blobs H of None \<Rightarrow> retA (v, None) | Some B \<Rightarrow> if length (ho_dumps H v) \<le> offload_bytes
         then retA (v, None) else bindA (worldA (bl_store B (ho_dumps H v))) (\<lambda>ref. thenA (worldA (bl_pin B ref)) (retA (JObj [], Some ref))))
        (still trail ok mark j w) (j, w)"
      using Some w by (simp add: still_def)
  qed (simp add: still_def w)
qed

lemma resolve_still: "ok w \<Longrightarrow> leaves (resolve H k) (still trail ok mark j w) (j, w)"
proof -
  assume w: "ok w"
  have "leaves (bindA (worldA (bl_resolve B ref)) (\<lambda>raw. retA (ho_loads H raw))) (still trail ok mark j w) (j, w)"
    if "ho_blobs H = Some B" for B ref
    by (rule leaves_seq [OF world_still [OF w refl refl]]) (use blob_resolve [OF that w] in \<open>auto simp: still_def\<close>)
  then show ?thesis using w by (auto simp: resolve_def still_def split: option.splits)
qed

end

end
