(* ===== verification/Journal_Scope.thy ===== *)
theory Journal_Scope
  imports Journal_Replay
begin

text \<open>
  Positions. A step consumes one index of its scope however it ends; concurrent steps get the positions
  they would have had one after another; and distinct positions have distinct ids.
\<close>

section \<open>The stack of the running task\<close>

text \<open>Code that allocates positions in its own scope only.\<close>

definition same_scope :: "journal \<Rightarrow> journal \<Rightarrow> bool" where
  "same_scope j k \<longleftrightarrow> jn_run_id k = jn_run_id j \<and> jn_current k = jn_current j \<and>
     (jn_override k = None \<longleftrightarrow> jn_override j = None) \<and>
     (jn_override j \<noteq> None \<longrightarrow> jn_path_stack k = jn_path_stack j) \<and>
     length (stack_of k) = length (stack_of j) \<and> butlast (stack_of k) = butlast (stack_of j)"

lemma stack_set_stack [simp]: "stack_of (set_stack st j) = st"
  by (simp add: stack_of_def set_stack_def split: option.splits)

lemma known_set_stack [simp]:
  "known_of (set_stack st j) = known_of j" "jn_by_path (set_stack st j) = jn_by_path j"
  "jn_run_id (set_stack st j) = jn_run_id j" "jn_current (set_stack st j) = jn_current j"
  by (simp_all add: known_of_def set_stack_def fun_eq_iff split: option.splits)

lemma known_state_stack [simp]:
  "known_state (set_stack st j) = known_state j" "known_state (j\<lparr>jn_current := c\<rparr>) = known_state j"
  "known_state (j\<lparr>jn_override := v\<rparr>) = known_state j"
  by (simp_all add: known_state_def known_of_def set_stack_def fun_eq_iff split: option.splits)

lemma enter_exit: "stack_of (enter_scope j) = stack_of j @ [0]" "stack_of j \<noteq> [] \<Longrightarrow> stack_of (exit_scope j) = butlast (stack_of j)"
  by (simp_all add: enter_scope_def exit_scope_def)


lemma enter_known [simp]: "known_of (enter_scope j) = known_of j" "known_of (exit_scope j) = known_of j"
  by (simp_all add: enter_scope_def exit_scope_def)

definition next_step :: "journal \<Rightarrow> journal" where
  "next_step j = set_stack (bump 1 (stack_of j)) j"

lemma stack_set [simp]:
  "stack_of (set_known e k j) = stack_of j" "stack_of (j\<lparr>jn_current := c\<rparr>) = stack_of j"
  by (simp_all add: stack_of_def set_known_def split: option.splits)

lemma same_scope_refl: "same_scope j j"
  by (simp add: same_scope_def)

lemma same_scope_trans: "same_scope j k \<Longrightarrow> same_scope k l \<Longrightarrow> same_scope j l"
  by (simp add: same_scope_def)

lemma set_stack_scope:
  "length st = length (stack_of j) \<Longrightarrow> butlast st = butlast (stack_of j) \<Longrightarrow> same_scope j (set_stack st j)"
  by (auto simp: same_scope_def set_stack_def stack_of_def split: option.splits)

lemma next_step_scope: "stack_of j \<noteq> [] \<Longrightarrow> same_scope j (next_step j)"
  unfolding next_step_def by (rule set_stack_scope) (simp_all add: bump_def)

lemma next_step_stack [simp]: "stack_of (next_step j) = bump 1 (stack_of j)"
  by (simp add: next_step_def)

text \<open>The same, at the same position.\<close>

definition same_stack :: "journal \<Rightarrow> journal \<Rightarrow> bool" where
  "same_stack j k \<longleftrightarrow> same_scope j k \<and> stack_of k = stack_of j"

definition scoped :: "('w, 'a) jact \<Rightarrow> bool" where
  "scoped m \<longleftrightarrow> moves (\<lambda>s t. same_scope (fst s) (fst t)) m"

interpretation scope: act_frame "\<lambda>s t :: journal \<times> 'w. same_scope (fst s) (fst t)"
  by unfold_locales (blast intro: same_scope_refl same_scope_trans)+

interpretation stack: act_frame "\<lambda>s t :: journal \<times> 'w. same_stack (fst s) (fst t)"
  by unfold_locales (auto simp: same_stack_def intro: same_scope_refl same_scope_trans)

abbreviation keeps_stack :: "('w, 'a) jact \<Rightarrow> bool" where
  "keeps_stack \<equiv> moves (\<lambda>s t. same_stack (fst s) (fst t))"

lemma keeps_world: "keeps_stack (worldA m)"
  by (rule moves_fst) (simp add: same_stack_def same_scope_refl)

lemma keeps_known: "keeps_stack (jexec (set_known e k))"
  by (rule moves_exec) (simp add: same_stack_def same_scope_def, simp add: set_known_def)

lemma keeps_scoped: "keeps_stack m \<Longrightarrow> scoped m"
  unfolding scoped_def by (erule moves_mono) (simp add: same_stack_def)

lemma keeps_record: "keeps_stack (record_try H n es)"
  by (induction n) (auto intro!: stack.rules keeps_world)

lemma keeps_outcome: "keeps_stack (record_outcome H es)"
  by (simp add: record_outcome_def keeps_record)

lemma keeps_resolve: "keeps_stack (resolve H k)"
  unfolding resolve_def by (intro stack.rules keeps_world)

lemma keeps_offload: "keeps_stack (offload H v)"
  unfolding offload_def Let_def by (intro stack.rules keeps_world)

lemma keeps_announce: "keeps_stack (announce_intent H kind path eid digest idem)"
  unfolding announce_intent_def by (intro stack.rules keeps_world keeps_known)

lemma keeps_give_up: "keeps_stack (give_up H eid e)"
  unfolding give_up_def by (intro stack.rules keeps_known keeps_outcome)

lemma keeps_finish: "keeps_stack (finish_effect H kind path eid digest v)"
  unfolding finish_effect_def by (intro stack.rules keeps_known keeps_offload keeps_outcome)

lemmas keeps_steps = keeps_world keeps_known keeps_record keeps_outcome keeps_resolve keeps_offload
  keeps_announce keeps_give_up keeps_finish

lemma scoped_keyed:
  assumes "scoped m"
  shows "scoped (keyed eid m)"
  unfolding scoped_def
proof (rule movesI)
  fix s t :: "journal \<times> 'a" and r assume run: "keyed eid m s = (r, t)"
  obtain j w where s: "s = (j, w)" by (cases s)
  let ?k = "j\<lparr>jn_current := Some eid\<rparr>"
  from run s obtain u where u: "m (?k, w) = (r, u)" and t: "t = ((fst u)\<lparr>jn_current := jn_current j\<rparr>, snd u)"
    by (auto simp: keyed_def act_simps split: prod.splits)
  from assms u have "same_scope ?k (fst u)"
    unfolding scoped_def by (auto dest: moves_run)
  then show "same_scope (fst s) (fst t)"
    using s t by (simp add: same_scope_def)
qed

lemma scoped_call:
  assumes "scoped fn"
  shows "scoped (call_body H eid fn)"
  unfolding call_body_def abort_effect_def fail_effect_def
  by (rule scoped_keyed) (use assms in \<open>auto simp: scoped_def intro!: scope.rules keeps_give_up [THEN keeps_scoped, unfolded scoped_def]\<close>)

lemma keeps_run:
  assumes "scoped fn"
  shows "keeps_stack (run_effect H kind path eid digest idem fn)"
proof (rule movesI)
  fix s t :: "journal \<times> 'a" and r assume run: "run_effect H kind path eid digest idem fn s = (r, t)"
  let ?m = "thenA (announce_intent H kind path eid digest idem)
      (bindA (call_body H eid fn) (finish_effect H kind path eid digest))"
  obtain j w where s: "s = (j, w)" by (cases s)
  have "scoped ?m"
    using scoped_call [OF assms, of H eid] keeps_announce [THEN keeps_scoped] keeps_finish [THEN keeps_scoped]
    unfolding scoped_def by (intro scope.rules)
  moreover from run s obtain u where u: "?m (enter_scope j, w) = (r, u)" and t: "t = (exit_scope (fst u), snd u)"
    unfolding run_effect_def bindA_def [of "execA _"] execA_def finallyA_def by (auto split: prod.splits)
  ultimately have in_step: "same_scope (enter_scope j) (fst u)"
    unfolding scoped_def by (auto dest: moves_run)
  then have "stack_of (exit_scope (fst u)) = stack_of j"
    by (simp add: same_scope_def exit_scope_def enter_exit)
  with in_step show "same_stack (fst s) (fst t)"
    using s t by (auto simp: same_stack_def same_scope_def enter_scope_def exit_scope_def set_stack_def split: option.splits)
qed

section \<open>One call of \<open>effect\<close>\<close>

definition clash :: "'w host \<Rightarrow> string \<Rightarrow> json \<Rightarrow> journal \<Rightarrow> bool" where
  "clash H kind args j \<longleftrightarrow> (case map_of (jn_by_path j) (peek_path j) of
     None \<Rightarrow> False | Some p \<Rightarrow> p \<noteq> (kind, args_digest (ho_codec H) args))"

definition step_id :: "'w host \<Rightarrow> string \<Rightarrow> journal \<Rightarrow> string" where
  "step_id H kind j = make_id (ho_codec H) (jn_run_id j) (peek_path j) kind (JObj [])"

lemma identify_run:
  assumes "stack_of j \<noteq> []"
  shows "identify H kind args (j, w) =
    (if clash H kind args j
     then (Inl (diverged (peek_path j) (the (map_of (jn_by_path j) (peek_path j))) kind), (next_step j, w))
     else (Inr (peek_path j, step_id H kind j, args_digest (ho_codec H) args), (next_step j, w)))"
  using assms
  by (auto simp: identify_def alloc_path_def act_simps clash_def step_id_def next_step_def peek_path_def Let_def
      split: option.splits)

lemma known_next [simp]: "known_of (next_step j) = known_of j" "known_state (next_step j) = known_state j"
  by (simp_all add: next_step_def)

lemma effect_run:
  assumes "stack_of j \<noteq> []"
  shows "effect H kind args idem fn (j, w) =
    (if clash H kind args j
     then (Inl (diverged (peek_path j) (the (map_of (jn_by_path j) (peek_path j))) kind), (next_step j, w))
     else (case known_of j (step_id H kind j) of
         None \<Rightarrow> run_effect H kind (peek_path j) (step_id H kind j) (args_digest (ho_codec H) args) idem fn (next_step j, w)
       | Some k \<Rightarrow>
           if kn_state k = Completed then
             bindA (resolve H k) (\<lambda>v. retA \<lparr>so_value = v, so_replayed = True, so_effect_id = step_id H kind j\<rparr>) (next_step j, w)
           else if kn_state k = Pending \<and> \<not> idem then (Inl (orphaned kind (peek_path j)), (next_step j, w))
           else run_effect H kind (peek_path j) (step_id H kind j) (args_digest (ho_codec H) args) idem fn (next_step j, w)))"
  using assms
  by (auto simp: effect_def begin_effect_def identify_run bindA_def queryA_def retA_def raiseA_def
      split: option.splits prod.splits sum.splits)

lemma effect_place:
  assumes "scoped fn" and "stack_of j \<noteq> []"
  shows "same_stack (next_step j) (fst (snd (effect H kind args idem fn (j, w))))"
proof -
  have replayed: "keeps_stack (bindA (resolve H k) (\<lambda>v. retA \<lparr>so_value = v, so_replayed = True, so_effect_id = e\<rparr>))" for k e
    by (intro stack.rules keeps_resolve)
  from replayed keeps_run [OF assms(1)] show ?thesis
    unfolding effect_run [OF assms(2)] moves_def
    by (auto split: option.splits simp: same_stack_def same_scope_refl)
qed

lemma scoped_effect:
  assumes "scoped fn"
  shows "scoped (effect H kind args idem fn)"
  unfolding scoped_def
proof (rule movesI)
  fix s t :: "journal \<times> 'a" and r assume run: "effect H kind args idem fn s = (r, t)"
  obtain j w where s: "s = (j, w)" by (cases s)
  show "same_scope (fst s) (fst t)"
  proof (cases "stack_of j = []")
    case True
    with run s show ?thesis
      by (auto simp: effect_def begin_effect_def identify_def alloc_path_def act_simps same_scope_refl)
  next
    case False
    from effect_place [OF assms this, of H kind args idem w] run s have "same_scope (next_step j) (fst t)"
      by (simp add: same_stack_def)
    with next_step_scope [OF False] s show ?thesis by (auto elim: same_scope_trans)
  qed
qed

section \<open>Concurrent steps\<close>

text \<open>Positions taken one after another.\<close>

fun alloc_many :: "nat \<Rightarrow> ('w, string list) jact" where
  "alloc_many 0 = retA []"
| "alloc_many (Suc n) = bindA alloc_path (\<lambda>p. bindA (alloc_many n) (\<lambda>ps. retA (p # ps)))"

lemma bump_simps [simp]: "bump n st \<noteq> []" "st \<noteq> [] \<Longrightarrow> bump 0 st = st" "bump m (bump n st) = bump (n + m) st"
  by (simp_all add: bump_def)

lemma alloc_path_run: "stack_of j \<noteq> [] \<Longrightarrow> alloc_path (j, w) = (Inr (peek_path j), (next_step j, w))"
  by (simp add: alloc_path_def act_simps peek_path_def next_step_def)

lemma set_stack_twice [simp]: "set_stack st (set_stack st' j) = set_stack st j"
  by (simp add: set_stack_def split: option.splits)

lemma set_stack_same [simp]: "set_stack (stack_of j) j = j"
  by (simp add: set_stack_def stack_of_def split: option.splits)

lemma alloc_many_run:
  "stack_of j \<noteq> [] \<Longrightarrow> alloc_many n (j, w) =
     (Inr (map (\<lambda>i. path_text (bump i (stack_of j))) [0..<n]), (set_stack (bump n (stack_of j)) j, w))"
proof (induction n arbitrary: j)
  case 0
  then show ?case by (simp add: retA_def)
next
  case (Suc n)
  then have "alloc_many n (next_step j, w) = (Inr (map (\<lambda>i. path_text (bump i (stack_of (next_step j)))) [0..<n]),
      (set_stack (bump n (stack_of (next_step j))) (next_step j), w))"
    by (intro Suc.IH) simp
  then show ?case
    using Suc.prems unfolding upt_conv_Cons [OF zero_less_Suc] map_Suc_upt [symmetric]
    by (simp add: alloc_path_run bindA_def retA_def next_step_def peek_path_def o_def)
qed

lemma in_scope_alloc:
  assumes "st \<noteq> []"
  shows "in_scope st alloc_path (k, v) = (Inr (path_text st), (k, v))"
proof -
  have "jn_override (k\<lparr>jn_override := Some st\<rparr>) = Some st" by simp
  then have "stack_of (k\<lparr>jn_override := Some st\<rparr>) = st" by (simp add: stack_of_def)
  then show ?thesis
    using assms by (simp add: in_scope_def act_simps alloc_path_def set_stack_def)
qed

text \<open>
  Concurrent steps of a batch get, whatever the order they run in, exactly the paths that the same
  number of calls made one after another would get, and leave the scope at the same position.
\<close>

theorem fork_as_sequence:
  assumes "stack_of j \<noteq> []"
  shows "\<exists>stacks j'. fork_scopes n (j, w) = (Inr stacks, (j', w)) \<and>
    alloc_many n (j, w) = (Inr (map path_text stacks), (j', w)) \<and>
    (\<forall>st \<in> set stacks. \<forall>k v. in_scope st alloc_path (k, v) = (Inr (path_text st), (k, v :: 'w)))"
proof (intro exI conjI)
  show "fork_scopes n (j, w) = (Inr (map (\<lambda>i. bump i (stack_of j)) [0..<n]), (set_stack (bump n (stack_of j)) j, w))"
    using assms by (simp add: fork_scopes_def act_simps)
  show "alloc_many n (j, w) = (Inr (map path_text (map (\<lambda>i. bump i (stack_of j)) [0..<n])), (set_stack (bump n (stack_of j)) j, w))"
    by (simp add: alloc_many_run [OF assms] o_def)
qed (auto simp: in_scope_alloc)

theorem fork_as_sequence_witness:
  "\<exists>stacks j'. fork_scopes 3 (blank_journal ''r'', ()) = (Inr stacks, (j', ())) \<and>
    alloc_many 3 (blank_journal ''r'', ()) = (Inr (map path_text stacks), (j', ())) \<and>
    (\<forall>st \<in> set stacks. \<forall>k v. in_scope st alloc_path (k, v) = (Inr (path_text st), (k, v :: unit)))"
  by (rule fork_as_sequence) (simp add: blank_journal_def stack_of_def)

section \<open>Paths read back\<close>

definition digit_of :: "char \<Rightarrow> nat" where
  "digit_of c = of_char c - 48"

definition read_nat :: "string \<Rightarrow> nat" where
  "read_nat s = foldl (\<lambda>a c. 10 * a + digit_of c) 0 s"

fun split_at :: "char \<Rightarrow> string \<Rightarrow> string list" where
  "split_at c [] = [[]]"
| "split_at c (x # xs) = (if x = c then [] # split_at c xs
     else (case split_at c xs of [] \<Rightarrow> [[x]] | p # ps \<Rightarrow> (x # p) # ps))"

definition read_path :: "string \<Rightarrow> nat list" where
  "read_path s = map read_nat (split_at CHR ''.'' s)"

declare digit_char.simps [simp del]

lemma digit_code: "(of_char (digit_char n) :: nat) = 48 + n mod 10"
proof -
  have "48 + n mod 10 < 256" by simp
  then show ?thesis by (simp add: digit_char.simps of_char_of)
qed

lemma digit_of_char: "digit_of (digit_char n) = n mod 10"
  by (simp add: digit_of_def digit_code)

lemma digit_not_dot [simp]: "digit_char n \<noteq> CHR ''.''" "CHR ''.'' \<noteq> digit_char n"
proof -
  have "(of_char (digit_char n) :: nat) \<noteq> of_char (CHR ''.'')" unfolding digit_code by simp
  then show "digit_char n \<noteq> CHR ''.''" "CHR ''.'' \<noteq> digit_char n" by metis+
qed

lemma read_show_nat: "read_nat (show_nat n) = n"
  unfolding read_nat_def by (induction n rule: show_nat.induct) (subst show_nat.simps, simp add: digit_of_char)

lemma show_nat_text: "show_nat n \<noteq> []" "CHR ''.'' \<notin> set (show_nat n)"
  by (induction n rule: show_nat.induct) (subst show_nat.simps, simp)+

lemma split_at_plain: "c \<notin> set s \<Longrightarrow> split_at c s = [s]"
  by (induction s) auto

lemma split_at_head: "c \<notin> set s \<Longrightarrow> split_at c (s @ c # t) = s # split_at c t"
  by (induction s) auto

lemma read_back: "st \<noteq> [] \<Longrightarrow> read_path (path_text st) = st"
proof (induction st rule: induct_list012)
  case (3 x y ys)
  then show ?case
    by (simp add: read_path_def path_text_def split_at_head show_nat_text read_show_nat)
qed (simp_all add: read_path_def path_text_def split_at_plain show_nat_text read_show_nat)

lemma read_path_text_inj: "path_text p = path_text q \<Longrightarrow> p \<noteq> [] \<Longrightarrow> q \<noteq> [] \<Longrightarrow> p = q"
  by (metis read_back)

text \<open>
  The text of a position reads back as the position: two steps of a run have the same path exactly
  when they are at the same place of its tree.
\<close>

theorem read_path_text: "st \<noteq> [] \<Longrightarrow> read_path (path_text st) = st"
  by (rule read_back)

theorem read_path_text_witness: "read_path (path_text [0, 12, 305]) = [0, 12, 305]"
  by (rule read_path_text) simp

declare digit_char.simps [simp]

end
