(* ===== verification/Journal_Steps.thy ===== *)
theory Journal_Steps
  imports Journal_Scope
begin

text \<open>
  One step of a run, whatever its body does and however it ends: what it leaves in the log, that and
  that a step whose body took effect is never run again.
\<close>

section \<open>What a step leaves in the log\<close>

text \<open>
  A body may itself journal steps, in the scope it was given, and touch the world, but it does not
  write about the step it runs in.
\<close>

definition discreet :: "('w \<Rightarrow> run_log_entry list) \<Rightarrow> ('w \<Rightarrow> bool) \<Rightarrow> string \<Rightarrow> ('w, json) jact \<Rightarrow> bool" where
  "discreet trail ok eid fn \<longleftrightarrow> (\<forall>j w r j' w'. ok w \<longrightarrow> fn (j, w) = (r, (j', w')) \<longrightarrow>
     ok w' \<and> (\<exists>rows. trail w' = trail w @ rows \<and> (\<forall>x \<in> set rows. \<not> about eid x)))"

text \<open>A body that raises has not taken effect.\<close>

definition all_or_nothing :: "('w \<Rightarrow> nat) \<Rightarrow> ('w, json) jact \<Rightarrow> bool" where
  "all_or_nothing mark fn \<longleftrightarrow> (\<forall>s e s'. fn s = (Inl e, s') \<longrightarrow> mark (snd s') = mark (snd s))"

text \<open>The log has grown from \<open>w\<close>'s, and says one of \<open>sts\<close> of the step.\<close>

definition stands ::
  "('w \<Rightarrow> run_log_entry list) \<Rightarrow> ('w \<Rightarrow> bool) \<Rightarrow> string \<Rightarrow> 'w \<Rightarrow> step_state option set \<Rightarrow> journal \<times> 'w \<Rightarrow> bool" where
  "stands trail ok eid w sts s \<longleftrightarrow> ok (snd s) \<and> (\<exists>rows. trail (snd s) = trail w @ rows) \<and>
     state_after eid (trail (snd s)) \<in> sts"

lemma stands_mono: "stands trail ok eid w sts s \<Longrightarrow> sts \<subseteq> sts' \<Longrightarrow> stands trail ok eid w sts' s"
  by (auto simp: stands_def)

lemma stands_state: "stands trail ok eid w sts s \<Longrightarrow> state_after eid (trail (snd s)) \<in> sts"
  by (simp add: stands_def)

lemma says_intent:
  "says (intent_entry eid path kind digest idem) r \<Longrightarrow> about eid r"
  "says (intent_entry eid path kind digest idem) r \<Longrightarrow> st \<noteq> Some Completed \<Longrightarrow> state_step eid st r = Some Pending"
  by (auto simp: says_def intent_entry_def entry_def about_def state_step_def)

lemma says_absent:
  "status \<noteq> ''ok'' \<Longrightarrow> says (bare_result eid status k v) r \<Longrightarrow> state_step eid st r = Some Absent"
  by (auto simp: says_def bare_result_def entry_def about_def state_step_def)

lemma says_ok:
  "says (ok_entry eid path kind digest sv) r \<Longrightarrow> state_step eid st r = Some Completed"
  by (auto simp: says_def ok_entry_def entry_def about_def state_step_def)

lemma plain_entries [simp]:
  "plain (intent_entry eid path kind digest idem)" "plain (bare_result eid status k v)" "plain (ok_entry eid path kind digest sv)"
  by (simp_all add: plain_def intent_entry_def bare_result_def ok_entry_def entry_def)

text \<open>A value that stays in the log.\<close>

definition unoffloaded :: "'w host \<Rightarrow> json \<Rightarrow> bool" where
  "unoffloaded H v \<longleftrightarrow> ho_blobs H = None \<or> length (ho_dumps H v) \<le> offload_bytes"

text \<open>The last entry of the log is the result of the step.\<close>

definition closed_by ::
  "'w host \<Rightarrow> ('w \<Rightarrow> run_log_entry list) \<Rightarrow> string \<Rightarrow> string \<Rightarrow> string \<Rightarrow> string \<Rightarrow> json \<Rightarrow> 'w \<Rightarrow> bool" where
  "closed_by H trail eid path kind digest v w \<longleftrightarrow> (\<exists>es x sr. trail w = es @ [x] \<and>
     says (ok_entry eid path kind digest (stored_value sr)) x \<and> (unoffloaded H v \<longrightarrow> sr = (v, None)))"

text \<open>A journal that knows of the step \<open>eid\<close>, at its position, what a journal read from \<open>es\<close> knows.\<close>

definition resumed :: "run_log_entry list \<Rightarrow> string \<Rightarrow> journal \<Rightarrow> bool" where
  "resumed es eid k \<longleftrightarrow> (\<exists>j0. new_journal (jn_run_id k) es = Inr j0 \<and> known_of k eid = known_of j0 eid \<and>
     map_of (jn_by_path k) (peek_path k) = map_of (jn_by_path j0) (peek_path k))"

lemma resumed_state: "resumed es eid k \<Longrightarrow> known_state k eid = state_after eid es"
  using new_journal_state by (auto simp: resumed_def known_state_def)

lemma fold_entry_other_known:
  assumes "fold_entry r j = Inr (u, j')" and "\<not> about eid r"
  shows "known_of j' eid = known_of j eid"
proof -
  have "wp (fold_entry r) (\<lambda>_ j'. known_of j' eid = known_of j eid) j"
    using assms(2)
    by (auto simp: fold_entry_def fold_intent_def fold_result_def text_field_get about_def fold_ok_def Let_def)
  from wp_run [OF this assms(1)] show ?thesis .
qed

lemma fold_other_known:
  "forT fold_entry es j = Inr (u, j') \<Longrightarrow> \<forall>r \<in> set es. \<not> about eid r \<Longrightarrow> known_of j' eid = known_of j eid"
proof (induction es arbitrary: j)
  case Nil
  then show ?case by (simp add: retT_def)
next
  case (Cons r es)
  then obtain v k where "fold_entry r j = Inr (v, k)" "forT fold_entry es k = Inr (u, j')"
    by (auto simp: bind_run)
  then show ?case using Cons fold_entry_other_known by fastforce
qed

text \<open>The entry of a completed step, read back.\<close>

lemma fold_entry_ok:
  assumes "says (ok_entry eid path kind digest (''value'', v)) x" and "fold_entry x j = Inr (u, j')"
  shows "map_option kn_value (known_of j' eid) = Some (Some (or_empty (Some v)))"
    and "map_option kn_ref (known_of j' eid) = Some None" and "known_state j' eid = Some Completed"
    and "map_of (jn_by_path j') path = Some (kind, digest)"
proof -
  have "wp (fold_entry x) (\<lambda>_ j'. map_option kn_value (known_of j' eid) = Some (Some (or_empty (Some v))) \<and>
      map_option kn_ref (known_of j' eid) = Some None \<and> known_state j' eid = Some Completed \<and>
      map_of (jn_by_path j') path = Some (kind, digest)) j"
    using assms(1)
    by (auto simp: fold_entry_def fold_result_def says_def ok_entry_def entry_def text_field_def is_ok_def known_state_def
        fold_ok_def Let_def text_or_def known_as_def jget_str_def)
  from wp_run [OF this assms(2)]
  show "map_option kn_value (known_of j' eid) = Some (Some (or_empty (Some v)))"
    and "map_option kn_ref (known_of j' eid) = Some None" and "known_state j' eid = Some Completed"
    and "map_of (jn_by_path j') path = Some (kind, digest)" by simp_all
qed

lemma resumed_ok:
  assumes "resumed (es @ [x] @ rest) eid k" and "says (ok_entry eid (peek_path k) kind digest (''value'', v)) x"
    and "\<forall>r \<in> set rest. \<not> about eid r \<and> \<not> at_path (peek_path k) r"
  obtains kn where "known_of k eid = Some kn" and "kn_state kn = Completed" and "kn_ref kn = None"
    and "kn_value kn = Some (or_empty (Some v))" and "map_of (jn_by_path k) (peek_path k) = Some (kind, digest)"
proof -
  from assms(1) obtain j0 where j0: "new_journal (jn_run_id k) (es @ [x] @ rest) = Inr j0"
      "known_of k eid = known_of j0 eid" "map_of (jn_by_path k) (peek_path k) = map_of (jn_by_path j0) (peek_path k)"
    unfolding resumed_def by blast
  then obtain a b where ab: "fold_entry x a = Inr ((), b)" "forT fold_entry rest b = Inr ((), j0)"
    unfolding new_journal_run forT_append by (auto simp: bind_run retT_def)
  note row = fold_entry_ok [OF assms(2) ab(1)]
  have "known_of j0 eid = known_of b eid" "map_of (jn_by_path j0) (peek_path k) = map_of (jn_by_path b) (peek_path k)"
    using fold_other_known [OF ab(2)] fold_other_paths [OF ab(2)] assms(3) by blast+
  with row j0(2,3) that show thesis by (auto simp: known_state_def)
qed

text \<open>A journal that will answer the step at its position from the record.\<close>

definition answers :: "string \<Rightarrow> string \<Rightarrow> string \<Rightarrow> json \<Rightarrow> journal \<Rightarrow> bool" where
  "answers eid kind digest v k \<longleftrightarrow> map_of (jn_by_path k) (peek_path k) = Some (kind, digest) \<and>
     (\<exists>kn. known_of k eid = Some kn \<and> kn_state kn = Completed \<and> kn_ref kn = None \<and> kn_value kn = Some (or_empty (Some v)))"

lemma answered:
  assumes "answers (step_id H kind k) kind (args_digest (ho_codec H) args) v k" and "stack_of k \<noteq> []"
  shows "effect H kind args idem fn (k, w) =
    (Inr \<lparr>so_value = or_empty (Some v), so_replayed = True, so_effect_id = step_id H kind k\<rparr>, (next_step k, w))"
proof -
  have "or_empty (Some (or_empty (Some v))) = or_empty (Some v)" by (simp add: or_empty_def)
  with assms show ?thesis
    by (auto simp: effect_run answers_def clash_def resolve_def bindA_def retA_def)
qed

context journal_port
begin

abbreviation at_rest :: "string \<Rightarrow> 'w \<Rightarrow> step_state option set \<Rightarrow> journal \<times> 'w \<Rightarrow> bool" where
  "at_rest eid w sts s \<equiv> stands trail ok eid w sts s \<and> mark (snd s) = mark w"

lemma announce_step:
  assumes "ok w" and "state_after eid (trail w) = known_state j eid" and "known_state j eid \<noteq> Some Completed"
  shows "leaves (announce_intent H kind path eid digest idem)
    (either (\<lambda>_. at_rest eid w (- {Some Completed})) (\<lambda>_. at_rest eid w {Some Pending})) (j, w)"
proof (cases "known_state j eid = Some Pending")
  case True
  with assms show ?thesis by (simp add: announce_intent_def known_state_def stands_def)
next
  case False
  have "leaves (worldA (ho_commit H [intent_entry eid path kind digest idem])) (recorded trail ok mark (intent_entry eid path kind digest idem) j w) (j, w)"
    using commit_leaves assms(1) by simp
  then have "leaves (thenA (worldA (ho_commit H [intent_entry eid path kind digest idem])) (jexec (set_known eid (known_as Pending kind digest))))
    (either (\<lambda>_. at_rest eid w (- {Some Completed})) (\<lambda>_. at_rest eid w {Some Pending})) (j, w)"
    by (rule leaves_seq)
      (use assms in \<open>auto simp: recorded_def stands_def says_intent(2)\<close>)
  with False show ?thesis by (auto simp: announce_intent_def known_state_def)
qed

lemma give_up_step:
  assumes "at_rest eid w {Some Pending} (j, w1)" and "status \<noteq> ''ok''"
  shows "leaves (give_up H eid (bare_result eid status k v))
    (\<lambda>_. at_rest eid w {Some Pending, Some Absent}) (j, w1)"
proof -
  have "ok w1" using assms(1) by (simp add: stands_def)
  from give_up_leaves [OF this, of "bare_result eid status k v" eid j] show ?thesis
    by (rule leaves_weaken [OF _]) (use assms in \<open>auto simp: stands_def says_absent\<close>)
qed

lemma body_step:
  assumes "at_rest eid w {Some Pending} (j, w1)" and "discreet trail ok eid fn" and "all_or_nothing mark fn"
  shows "leaves (call_body H eid fn)
    (either (\<lambda>_. at_rest eid w {Some Pending, Some Absent}) (\<lambda>_. stands trail ok eid w {Some Pending})) (j, w1)"
proof -
  let ?k = "j\<lparr>jn_current := Some eid\<rparr>"
  have fn: "leaves fn (either (\<lambda>_. at_rest eid w {Some Pending}) (\<lambda>_. stands trail ok eid w {Some Pending})) (?k, w1)"
  proof (rule leaves_intro)
    fix r s' assume run: "fn (?k, w1) = (r, s')"
    obtain j' w' where s': "s' = (j', w')" by (cases s')
    from assms(1) obtain rows where w1: "ok w1" "trail w1 = trail w @ rows" "state_after eid (trail w1) = Some Pending"
      by (auto simp: stands_def)
    from assms(2) w1(1) run s' obtain rest where "ok w'" "trail w' = trail w1 @ rest" "\<forall>x \<in> set rest. \<not> about eid x"
      unfolding discreet_def by blast
    then have "stands trail ok eid w {Some Pending} s'"
      using w1 s' state_after_others [of rest eid "trail w1"] by (simp add: stands_def)
    then show "either (\<lambda>_. at_rest eid w {Some Pending}) (\<lambda>_. stands trail ok eid w {Some Pending}) r s'"
      using run assms(1,3) s' by (cases r) (auto simp: all_or_nothing_def)
  qed
  have stop: "leaves (thenA (give_up H eid (bare_result eid st k v)) (raiseA e))
      (either (\<lambda>_. at_rest eid w {Some Pending, Some Absent}) (\<lambda>_. stands trail ok eid w {Some Pending})) s"
    if "at_rest eid w {Some Pending} s" "st \<noteq> ''ok''" for st k v e s
  proof -
    obtain j1 w1 where s: "s = (j1, w1)" by (cases s)
    with that have "leaves (give_up H eid (bare_result eid st k v)) (\<lambda>_. at_rest eid w {Some Pending, Some Absent}) s"
      using give_up_step by simp
    then show ?thesis by (rule leaves_seq) simp_all
  qed
  have handled: "leaves (if is_control_signal e then thenA (abort_effect H eid ''interrupted'') (raiseA e)
       else if is_exception e then thenA (fail_effect H eid e) (raiseA e) else raiseA e)
      (either (\<lambda>_. at_rest eid w {Some Pending, Some Absent}) (\<lambda>_. stands trail ok eid w {Some Pending})) s"
    if "at_rest eid w {Some Pending} s" for e s
    unfolding abort_effect_def fail_effect_def
    using that by (auto intro: stop stands_mono)
  have "leaves (catchA fn (\<lambda>e. if is_control_signal e then thenA (abort_effect H eid ''interrupted'') (raiseA e)
       else if is_exception e then thenA (fail_effect H eid e) (raiseA e) else raiseA e))
      (either (\<lambda>_. at_rest eid w {Some Pending, Some Absent}) (\<lambda>_. stands trail ok eid w {Some Pending})) (?k, w1)"
    by (rule leaves_try [OF fn]) (simp, rule handled, simp)
  then show ?thesis
    unfolding call_body_def keyed_def
    by (simp, elim leaves_weaken) (auto simp: either_def stands_def split: sum.splits)
qed

lemma finish_row:
  assumes "ok w1"
  shows "leaves (finish_effect H kind path eid digest v)
    (\<lambda>r s. ok (snd s) \<and> (\<exists>rows. trail (snd s) = trail w1 @ rows) \<and> (case r of
        Inl _ \<Rightarrow> trail (snd s) = trail w1
      | Inr out \<Rightarrow> out = \<lparr>so_value = v, so_replayed = False, so_effect_id = eid\<rparr> \<and>
          (\<exists>x sr. trail (snd s) = trail w1 @ [x] \<and> says (ok_entry eid path kind digest (stored_value sr)) x \<and>
             (unoffloaded H v \<longrightarrow> sr = (v, None))))) (j, w1)"
proof -
  have written: "leaves (record_outcome H [e]) (recorded trail ok mark e j w1) s"
    if "still trail ok mark j w1 (r :: exn + json \<times> string option) s" "plain e" for r s e
  proof -
    from still_pair [OF that(1)] have s: "s = (j, snd s)" "ok (snd s)" "mark (snd s) = mark w1" "trail (snd s) = trail w1" by auto
    have "recorded trail ok mark e j (snd s) = (recorded trail ok mark e j w1 :: exn + unit \<Rightarrow> _)"
      unfolding recorded_def fun_eq_iff s(3,4) by simp
    with record_leaves [OF s(2) that(2), of _ j] s(1) show ?thesis by (metis record_outcome_def)
  qed
  have offl: "leaves (offload H v) (\<lambda>r s. still trail ok mark j w1 r s \<and> (unoffloaded H v \<longrightarrow> r = Inr (v, None))) (j, w1)"
  proof (rule leaves_intro)
    fix r s assume run: "offload H v (j, w1) = (r, s)"
    show "still trail ok mark j w1 r s \<and> (unoffloaded H v \<longrightarrow> r = Inr (v, None))"
      using leaves_run [OF offload_still [OF assms] run] run
      by (auto simp: unoffloaded_def offload_def retA_def split: option.splits)
  qed
  show ?thesis
    unfolding finish_effect_def
    by (rule leaves_seq [OF offl], use assms in \<open>simp add: still_def\<close>, rule leaves_seq [OF written], erule conjunct1, simp)
      (auto simp: recorded_def)
qed

lemma finish_step:
  assumes "stands trail ok eid w {Some Pending} (j, w1)"
  shows "leaves (finish_effect H kind path eid digest v)
    (either (\<lambda>_. stands trail ok eid w {Some Pending}) (\<lambda>_. stands trail ok eid w {Some Completed})) (j, w1)"
proof -
  have "ok w1" using assms by (simp add: stands_def)
  from finish_row [OF this] show ?thesis
    by (rule leaves_weaken) (use assms in \<open>auto simp: stands_def says_ok split: sum.splits\<close>)
qed

text \<open>
  After a step that went ahead, the log says it completed exactly when it returned. If it raised, the log
  says pending or absent; and if something of the body took effect, never absent.
\<close>

lemma effect_step:
  assumes "ok w" and "state_after eid (trail w) = known_state j eid" and "known_state j eid \<noteq> Some Completed"
    and "discreet trail ok eid fn" and "all_or_nothing mark fn"
  shows "leaves (run_effect H kind path eid digest idem fn)
    (either (\<lambda>_ s. stands trail ok eid w (- {Some Completed}) s \<and>
         (mark (snd s) = mark w \<or> state_after eid (trail (snd s)) = Some Pending))
      (\<lambda>out. stands trail ok eid w {Some Completed})) (j, w)"
proof -
  let ?Q = "either (\<lambda>_ s. stands trail ok eid w (- {Some Completed}) s \<and>
         (mark (snd s) = mark w \<or> state_after eid (trail (snd s)) = Some Pending))
      (\<lambda>_. stands trail ok eid w {Some Completed}) :: exn + step_outcome \<Rightarrow> _"
  have finish: "leaves (finish_effect H kind path eid digest v) ?Q s" if "stands trail ok eid w {Some Pending} s" for v s
  proof -
    obtain j1 w1 where s: "s = (j1, w1)" by (cases s)
    with that have "leaves (finish_effect H kind path eid digest v)
        (either (\<lambda>_. stands trail ok eid w {Some Pending}) (\<lambda>_. stands trail ok eid w {Some Completed})) s"
      using finish_step by simp
    then show ?thesis by (rule leaves_weaken) (erule either_mono, auto simp: stands_def)
  qed
  have call: "leaves (bindA (call_body H eid fn) (finish_effect H kind path eid digest)) ?Q s"
    if "at_rest eid w {Some Pending} s" for s
  proof -
    obtain j1 w1 where s: "s = (j1, w1)" by (cases s)
    with that have "leaves (call_body H eid fn)
        (either (\<lambda>_. at_rest eid w {Some Pending, Some Absent}) (\<lambda>_. stands trail ok eid w {Some Pending})) s"
      using body_step [OF _ assms(4,5)] by simp
    then show ?thesis by (rule leaves_seq) (auto intro: finish stands_mono dest: stands_state)
  qed
  have "leaves (thenA (announce_intent H kind path eid digest idem) (bindA (call_body H eid fn) (finish_effect H kind path eid digest)))
      ?Q (enter_scope j, w)"
    by (rule leaves_seq [OF announce_step]) (use assms in \<open>auto simp: enter_scope_def intro: call stands_mono\<close>)
  then show ?thesis
    unfolding run_effect_def by (simp, elim leaves_weaken) (auto simp: either_def stands_def split: sum.splits)
qed

text \<open>What a step that returned has written last.\<close>

lemma row_of_run:
  assumes "ok w" and "state_after eid (trail w) = known_state j eid" and "known_state j eid \<noteq> Some Completed"
    and "discreet trail ok eid fn" and "all_or_nothing mark fn"
  shows "leaves (run_effect H kind path eid digest idem fn)
    (either (\<lambda>_ _. True) (\<lambda>out s. closed_by H trail eid path kind digest (so_value out) (snd s))) (j, w)"
proof -
  let ?Q = "either (\<lambda>_ _. True) (\<lambda>out s. closed_by H trail eid path kind digest (so_value out) (snd s))
      :: exn + step_outcome \<Rightarrow> journal \<times> 'w \<Rightarrow> bool"
  have finish: "leaves (finish_effect H kind path eid digest v) ?Q s" if "ok (snd s)" for v s
    using finish_row [OF that, of kind path eid digest v "fst s"]
    by simp (erule leaves_weaken, fastforce simp: either_def closed_by_def split: sum.splits)
  have call: "leaves (bindA (call_body H eid fn) (finish_effect H kind path eid digest)) ?Q s"
    if "at_rest eid w {Some Pending} s" for s
  proof -
    obtain j1 w1 where s: "s = (j1, w1)" by (cases s)
    with that have "leaves (call_body H eid fn)
        (either (\<lambda>_. at_rest eid w {Some Pending, Some Absent}) (\<lambda>_. stands trail ok eid w {Some Pending})) s"
      using body_step [OF _ assms(4,5)] by simp
    then show ?thesis by (rule leaves_seq) (auto simp: stands_def intro: finish)
  qed
  have "leaves (thenA (announce_intent H kind path eid digest idem) (bindA (call_body H eid fn) (finish_effect H kind path eid digest)))
      ?Q (enter_scope j, w)"
    by (rule leaves_seq [OF announce_step]) (use assms in \<open>auto simp: enter_scope_def intro: call\<close>)
  then show ?thesis
    unfolding run_effect_def by (simp, elim leaves_weaken) (auto simp: either_def split: sum.splits)
qed

text \<open>A step that is settled, or in doubt and not idempotent, does not run its body.\<close>

lemma settled_step:
  assumes "ok w" and "stack_of j \<noteq> []" and "known_state j (step_id H kind j) \<in> {Some Completed, Some Pending}"
  shows "effect H kind args False fn (j, w) = effect H kind args False fn' (j, w)"
    and "leaves (effect H kind args False fn) (\<lambda>_ s. ok (snd s) \<and> mark (snd s) = mark w \<and> trail (snd s) = trail w) (j, w)"
proof -
  from assms(3) show "effect H kind args False fn (j, w) = effect H kind args False fn' (j, w)"
    unfolding effect_run [OF assms(2)] known_state_def by (auto split: option.splits)
  have "leaves (bindA (resolve H k) (\<lambda>v. retA (out v)))
      (\<lambda>_ s. ok (snd s) \<and> mark (snd s) = mark w \<and> trail (snd s) = trail w) (next_step j, w)" for k and out :: "json \<Rightarrow> step_outcome"
    by (rule leaves_seq [OF resolve_still [OF assms(1)]]) (simp_all add: still_def)
  with assms(1,3) show "leaves (effect H kind args False fn) (\<lambda>_ s. ok (snd s) \<and> mark (snd s) = mark w \<and> trail (snd s) = trail w) (j, w)"
    unfolding leaves_def effect_run [OF assms(2)] known_state_def by (auto split: option.splits)
qed

lemma first_run:
  assumes "ok w" and "stack_of j \<noteq> []" and "effect H kind args False fn (j, w) = (r, (j1, w1))" and "mark w1 \<noteq> mark w"
  obtains path digest where "known_state j (step_id H kind j) \<notin> {Some Completed, Some Pending}"
    and "run_effect H kind path (step_id H kind j) digest False fn (next_step j, w) = (r, (j1, w1))"
proof -
  have "known_state j (step_id H kind j) \<notin> {Some Completed, Some Pending}"
    using settled_step(2) [OF assms(1,2), where kind = kind and args = args and fn = fn] assms(3,4) by (auto simp: leaves_def)
  with assms that show thesis
    unfolding effect_run [OF assms(2)] known_state_def by (auto split: if_splits option.splits)
qed

text \<open>
  Once the body of a step took effect, any later journal of the run knows of it, at its position, that
  it completed or that it is in doubt.
\<close>

lemma settled_after:
  assumes w: "ok w" "state_after (step_id H kind j) (trail w) = known_state j (step_id H kind j)" "stack_of j \<noteq> []"
    and fn: "discreet trail ok (step_id H kind j) fn" "all_or_nothing mark fn"
    and run: "effect H kind args False fn (j, w) = (r, (j1, w1))" "mark w1 \<noteq> mark w"
    and later: "resumed (trail w1 @ rest) (step_id H kind j) k" "\<forall>x \<in> set rest. \<not> about (step_id H kind j) x"
  shows "known_state k (step_id H kind j) \<in> {Some Completed, Some Pending}"
proof -
  let ?eid = "step_id H kind j"
  from first_run [OF w(1,3) run] obtain path digest where fresh: "known_state j ?eid \<noteq> Some Completed"
    and ran: "run_effect H kind path ?eid digest False fn (next_step j, w) = (r, (j1, w1))" by blast
  have "state_after ?eid (trail w1) \<in> {Some Completed, Some Pending}"
    using leaves_run [OF effect_step [OF w(1), of ?eid "next_step j"] ran] w(2) fresh fn run(2)
    by (cases r) (auto simp: stands_def)
  then show ?thesis
    using later(2) resumed_state [OF later(1)] by (simp add: state_after_others)
qed

text \<open>Once a step returned, any later journal answers it with the value it returned.\<close>

lemma recorded_after:
  assumes w: "ok w" "state_after (step_id H kind j) (trail w) = known_state j (step_id H kind j)" "stack_of j \<noteq> []"
    and fn: "discreet trail ok (step_id H kind j) fn" "all_or_nothing mark fn"
    and run: "effect H kind args idem fn (j, w) = (Inr out, (j1, w1))" "\<not> so_replayed out" "unoffloaded H (so_value out)"
    and later: "resumed (trail w1 @ rest) (step_id H kind j) k" "peek_path k = peek_path j"
      "\<forall>x \<in> set rest. \<not> about (step_id H kind j) x \<and> \<not> at_path (peek_path j) x"
  shows "answers (step_id H kind j) kind (args_digest (ho_codec H) args) (so_value out) k"
proof -
  let ?eid = "step_id H kind j" and ?p = "peek_path j" and ?d = "args_digest (ho_codec H) args"
  have replay: "\<not> so_replayed out \<Longrightarrow> bindA (resolve H kn) (\<lambda>v. retA \<lparr>so_value = v, so_replayed = True, so_effect_id = ?eid\<rparr>) s \<noteq> (Inr out, s')" for kn s s'
    by (auto simp: bindA_def retA_def split: prod.splits sum.splits)
  with run(1,2) w(3) have ran: "run_effect H kind ?p ?eid ?d idem fn (next_step j, w) = (Inr out, (j1, w1))"
      and fresh: "known_state j ?eid \<noteq> Some Completed"
    unfolding effect_run [OF w(3)] known_state_def by (auto split: if_splits option.splits)
  have "leaves (run_effect H kind ?p ?eid ?d idem fn)
      (either (\<lambda>_ _. True) (\<lambda>out s. closed_by H trail ?eid ?p kind ?d (so_value out) (snd s))) (next_step j, w)"
    using row_of_run [OF w(1), where eid = ?eid and j = "next_step j" and kind = kind and path = ?p and fn = fn] w(2) fresh fn by simp
  from leaves_run [OF this ran] run(3) obtain es x where row: "trail w1 = es @ [x]"
      "says (ok_entry ?eid (peek_path k) kind ?d (''value'', so_value out)) x"
    by (auto simp: stored_value_def later(2) closed_by_def)
  from later(1) row(1) have "resumed (es @ [x] @ rest) ?eid k" by simp
  then show ?thesis
    by (rule resumed_ok [OF _ row(2)]) (use later(2,3) in \<open>auto simp: answers_def\<close>)
qed

end

end
