(* ===== verification/Journal_Store.thy ===== *)
theory Journal_Store
  imports Journal_Steps Demo
begin

text \<open>
  The journal over the run store: the commit the worker gives it (\<open>runtime/worker.py\<close>) is a commit of
  entries under the run's lease, and the log it is read from is the run's durable log. The world of a
  step is the database, the blob store, and everything else the step's body may touch.
\<close>

type_synonym ('b, 'x) world = "db \<times> 'b \<times> 'x"

definition commit_via :: "env \<Rightarrow> lease \<Rightarrow> new_entry list \<Rightarrow> (('b, 'x) world, exn, unit) act" where
  "commit_via E l es = onA fst (\<lambda>d s. (d, snd s))
     (txA (bindT (commit_run E l (empty_commit\<lparr>cm_entries := es\<rparr>)) (\<lambda>_. retT ())))"

definition in_blobs :: "('b, exn, 'a) act \<Rightarrow> (('b, 'x) world, exn, 'a) act" where
  "in_blobs m = onA (\<lambda>s. fst (snd s)) (\<lambda>b s. (fst s, b, snd (snd s))) m"

definition store_host :: "env \<Rightarrow> lease \<Rightarrow> 'b blobs option \<Rightarrow> codec \<Rightarrow> (json \<Rightarrow> string) \<Rightarrow> (string \<Rightarrow> json) \<Rightarrow> ('b, 'x) world host" where
  "store_host E l B X dumps loads = \<lparr>ho_commit = commit_via E l,
     ho_blobs = map_option (\<lambda>b. \<lparr>bl_resolve = (\<lambda>r. in_blobs (bl_resolve b r)), bl_store = (\<lambda>t. in_blobs (bl_store b t)),
                  bl_pin = (\<lambda>r. in_blobs (bl_pin b r))\<rparr>) B,
     ho_codec = X, ho_dumps = dumps, ho_loads = loads\<rparr>"

definition durable_log :: "string \<Rightarrow> db \<Rightarrow> run_log_entry list" where
  "durable_log rid s = (case read_events rid 0 None True s of Inr (es, _) \<Rightarrow> es | Inl _ \<Rightarrow> [])"

section \<open>A commit of one entry\<close>

definition durable_row :: "string \<Rightarrow> event_row \<Rightarrow> bool" where
  "durable_row rid e \<longleftrightarrow> ev_run_id e = rid \<and> 0 \<le> ev_seq e \<and> \<not> ev_ephemeral e"

lemma sort_key_id: "sorted (map f xs) \<Longrightarrow> sort_key f xs = xs"
  by (rule sort_key_id_if_sorted)

lemma durable_log_rows:
  assumes "log_inv s"
  shows "durable_log rid s = map ev_entry (filter (durable_row rid) (events s))"
proof -
  have "sorted_wrt log_before (filter (durable_row rid) (events s))"
    using assms by (simp add: log_inv_def sorted_wrt_filter)
  then have "sorted_wrt (\<lambda>e f. ev_seq e \<le> ev_seq f) (filter (durable_row rid) (events s))"
    by (rule sorted_wrt_mono_rel [rotated]) (auto simp: log_before_def durable_row_def)
  then have "sorted (map ev_seq (filter (durable_row rid) (events s)))"
    by (simp add: sorted_wrt_map)
  then show ?thesis
    by (simp add: durable_log_def read_events_def queryT_def durable_row_def [abs_def] Let_def sort_key_id)
qed

lemma commit_entry_row:
  assumes "plain e" and "commit_run E l (empty_commit\<lparr>cm_entries := [e]\<rparr>) s = Inr (c, t)"
  obtains now where "events t = events s @ [log_row (ls_run_id l) (last_seq s (ls_run_id l) + 1) e now]"
proof -
  have "wp (commit_run E l (empty_commit\<lparr>cm_entries := [e]\<rparr>))
      (\<lambda>_ t. \<exists>now. events t = events s @ [log_row (ls_run_id l) (last_seq s (ls_run_id l) + 1) e now]) s"
    using assms(1)
    by (auto simp: commit_run_def fenced_run_def commit_effects_def append_def ack_def drawT_def plain_def find_dedup_def
        empty_commit_def settle_outcome_def apply_outcome_def last_seq_def
        split: option.splits) (fastforce dest: find_run_SomeD)+
  from wp_run [OF this assms(2)] that show thesis by auto
qed

lemma commit_entry:
  assumes "log_inv s" and "plain e" and "commit_run E l (empty_commit\<lparr>cm_entries := [e]\<rparr>) s = Inr (c, t)"
  shows "log_inv t \<and> (\<exists>r. durable_log (ls_run_id l) t = durable_log (ls_run_id l) s @ [r] \<and> says e r)"
proof -
  from commit_entry_row [OF assms(2,3)] obtain now
    where t: "events t = events s @ [log_row (ls_run_id l) (last_seq s (ls_run_id l) + 1) e now]" .
  let ?row = "log_row (ls_run_id l) (last_seq s (ls_run_id l) + 1) e now"
  have "find_dedup s (ls_run_id l) (ne_dedup e) = None" using assms(2) by (simp add: plain_def find_dedup_def)
  from log_append [OF assms(1) this, of now] t have inv: "log_inv t" by (simp add: log_inv_def)
  have "durable_row (ls_run_id l) ?row"
    using last_seq_bound [of s "ls_run_id l"] assms(2) by (simp add: durable_row_def log_row_def plain_def)
  then have "durable_log (ls_run_id l) t = durable_log (ls_run_id l) s @ [ev_entry ?row]"
    by (simp add: durable_log_rows [OF inv] durable_log_rows [OF assms(1)] t)
  moreover have "says e (ev_entry ?row)" by (simp add: says_def log_row_def)
  ultimately show ?thesis using inv by blast
qed

interpretation store_port: journal_port "store_host E l B X dumps loads"
    "\<lambda>w. durable_log (ls_run_id l) (fst w)" "\<lambda>w. log_inv (fst w)" "\<lambda>w. f (snd (snd w))"
  for E l B X dumps loads f
proof unfold_locales
  show "log_inv (fst w') \<and> f (snd (snd w')) = f (snd (snd w)) \<and>
      (\<exists>r. durable_log (ls_run_id l) (fst w') = durable_log (ls_run_id l) (fst w) @ [r] \<and> says e r)"
    if "log_inv (fst w)" "plain e" "ho_commit (store_host E l B X dumps loads) [e] w = (Inr u, w')" for w e u w'
    using that commit_entry
    by (auto simp: store_host_def commit_via_def act_simps bindT_def retT_def split: sum.splits prod.splits)
qed (auto simp: store_host_def commit_via_def in_blobs_def act_simps split: sum.splits prod.splits)

section \<open>Demonstration\<close>

text \<open>A step that charges once: the third part of the world counts the charges.\<close>

definition plain_codec :: codec where
  "plain_codec = \<lparr>cx_float = (\<lambda>_. []), cx_time = (\<lambda>_. []), cx_sha256 = rev,
     cx_b64 = rev, cx_unb64 = (\<lambda>s. Some (rev s))\<rparr>"

definition demo_host :: "(unit, nat) world host" where
  "demo_host = store_host demo_env demo_lease None plain_codec (\<lambda>_. []) (\<lambda>_. JNull)"

definition charge :: "((unit, nat) world, json) jact" where
  "charge = (\<lambda>(j, d, b, n). (Inr (JInt 7), (j, d, b, Suc n)))"

definition demo_journal :: "db \<Rightarrow> journal" where
  "demo_journal d = (case new_journal ''r'' (durable_log ''r'' d) of Inr j \<Rightarrow> j | Inl _ \<Rightarrow> blank_journal ''r'')"

definition demo_first :: "(exn + step_outcome) \<times> journal \<times> (unit, nat) world" where
  "demo_first = effect demo_host ''charge'' (JObj []) False charge (demo_journal demo_running, demo_running, (), 0)"

end
