(* ===== verification/Content.thy ===== *)
theory Content
  imports Effects
begin

text \<open>
  Content blocks and conversation turns (\<open>types/content.py\<close>) and the estimate of their size in tokens
  (\<open>context/tokens.py\<close>). A HOL character stands for a code point below 256; the two the sources use above
  that keep the places of Windows-1252: the ellipsis is \<open>CHR 0x85\<close> and the dash \<open>CHR 0x97\<close>, so that lengths
  are those of the code.
\<close>

section \<open>Blocks\<close>

record media_block =
  mb_type :: string
  mb_media_type :: string
  mb_url :: "string option"
  mb_data :: "string option"
  mb_file_id :: "string option"
  mb_detail :: string
  mb_filename :: "string option"
  mb_transcript :: "string option"
  mb_storage_key :: "string option"

definition mk_media :: "media_block \<Rightarrow> string + media_block" where
  "mk_media m = (if length (filter (\<lambda>x. x \<noteq> None) [mb_url m, mb_data m, mb_file_id m]) = 1 then Inr m
     else Inl ''Exactly one of url, data, or file_id must be provided'')"

datatype content =
    TextBlock string
  | MediaBlock media_block
  | DataBlock json "string option"
  | ErrorBlock string string "json option" bool
  | ReasoningBlock string "string option" bool
  | ToolUseBlock string string json "string option" json
  | ToolResultBlock string string "content list" bool
  | UnknownBlock json

definition text_of :: "content \<Rightarrow> string option" where
  "text_of b = (case b of TextBlock t \<Rightarrow> Some t | _ \<Rightarrow> None)"

definition texts :: "content list \<Rightarrow> string list" where
  "texts bs = List.map_filter text_of bs"

definition is_tool_use :: "content \<Rightarrow> bool" where
  "is_tool_use b = (case b of ToolUseBlock _ _ _ _ _ \<Rightarrow> True | _ \<Rightarrow> False)"

text \<open>\<open>json.dumps(value, default=str)\<close>, with the separators of its default; objects in insertion order.\<close>

fun json_dumps :: "codec \<Rightarrow> json \<Rightarrow> string" where
  "json_dumps X JNull = ''null''"
| "json_dumps X (JBool b) = (if b then ''true'' else ''false'')"
| "json_dumps X (JInt i) = show_int i"
| "json_dumps X (JNum q) = cx_float X q"
| "json_dumps X (JStr s) = json_string s"
| "json_dumps X (JTime t) = json_string (cx_time X t)"
| "json_dumps X (JList js) = ''['' @ join_with '', '' (map (json_dumps X) js) @ '']''"
| "json_dumps X (JObj kvs) = ''{'' @ join_with '', '' (map (\<lambda>(k, v). json_string k @ '': '' @ json_dumps X v) kvs) @ ''}''"

section \<open>Turns\<close>

datatype role = SYSTEM | USER | ASSISTANT | TOOL

fun role_value :: "role \<Rightarrow> string" where
  "role_value SYSTEM = ''system''"
| "role_value USER = ''user''"
| "role_value ASSISTANT = ''assistant''"
| "role_value TOOL = ''tool''"

record chat_message =
  tm_role :: role
  tm_content :: "content list"
  tm_name :: "string option"
  tm_metadata :: json

definition turn :: "role \<Rightarrow> content list \<Rightarrow> chat_message" where
  "turn r bs = \<lparr>tm_role = r, tm_content = bs, tm_name = None, tm_metadata = JObj []\<rparr>"

definition message_text :: "chat_message \<Rightarrow> string" where
  "message_text m = concat (texts (tm_content m))"

definition tool_calls :: "chat_message \<Rightarrow> content list" where
  "tool_calls m = filter is_tool_use (tm_content m)"

section \<open>Sizes\<close>

definition default_chars_per_token :: rat where
  "default_chars_per_token = 4"

definition json_chars :: "codec \<Rightarrow> json \<Rightarrow> nat" where
  "json_chars X v = length (json_dumps X v)"

text \<open>\<open>_block_cost\<close>: characters of text, and a fixed number of tokens.\<close>

fun block_cost :: "codec \<Rightarrow> content \<Rightarrow> nat \<times> nat" where
  "block_cost X (TextBlock t) = (length t, 0)"
| "block_cost X (ReasoningBlock t _ _) = (length t, 0)"
| "block_cost X (ToolUseBlock _ name args _ _) = (length name + json_chars X args, 0)"
| "block_cost X (DataBlock d _) = (json_chars X d, 0)"
| "block_cost X (ErrorBlock ty msg _ _) = (length ty + length msg, 0)"
| "block_cost X (MediaBlock m) = (0, if mb_type m = ''image'' then (if mb_detail m = ''low'' then 100 else 1000) else 1500)"
| "block_cost X (ToolResultBlock _ _ bs _) = (sum_list (map fst (map (block_cost X) bs)), sum_list (map snd (map (block_cost X) bs)))"
| "block_cost X (UnknownBlock raw) = (json_chars X raw, 0)"

definition message_cost :: "codec \<Rightarrow> chat_message \<Rightarrow> nat \<times> nat" where
  "message_cost X m = (sum_list (map (fst \<circ> block_cost X) (tm_content m)), sum_list (map (snd \<circ> block_cost X) (tm_content m)) + 4)"

text \<open>\<open>int(x)\<close> of a number that is not negative.\<close>

definition estimate_message_tokens :: "codec \<Rightarrow> rat \<Rightarrow> chat_message \<Rightarrow> nat" where
  "estimate_message_tokens X cpt m = (case message_cost X m of (chars, fixed) \<Rightarrow> nat \<lfloor>of_nat chars / cpt\<rfloor> + fixed)"

definition estimate_tokens :: "codec \<Rightarrow> rat \<Rightarrow> chat_message list \<Rightarrow> nat" where
  "estimate_tokens X cpt ms = sum_list (map (estimate_message_tokens X cpt) ms)"

definition estimate_message_chars :: "codec \<Rightarrow> chat_message \<Rightarrow> nat" where
  "estimate_message_chars X m = (case message_cost X m of (chars, fixed) \<Rightarrow> chars + nat \<lfloor>of_nat fixed * default_chars_per_token\<rfloor>)"

lemma estimate_append [simp]: "estimate_tokens X cpt (xs @ ys) = estimate_tokens X cpt xs + estimate_tokens X cpt ys"
  by (simp add: estimate_tokens_def)

lemma estimate_Nil [simp]: "estimate_tokens X cpt [] = 0"
  by (simp add: estimate_tokens_def)

lemma estimate_Cons [simp]: "estimate_tokens X cpt (m # ms) = estimate_message_tokens X cpt m + estimate_tokens X cpt ms"
  by (simp add: estimate_tokens_def)

text \<open>Every turn costs at least its overhead.\<close>

lemma estimate_message_pos: "4 \<le> estimate_message_tokens X cpt m"
  by (simp add: estimate_message_tokens_def message_cost_def)

end
