(* ===== verification/Blocks.thy ===== *)
theory Blocks
  imports Content
begin

text \<open>
  Content blocks as text and as JSON (\<open>types/content.py\<close>): \<open>str(block)\<close>, \<open>model_dump\<close> and
  \<open>parse_content_block\<close>. Bytes go through pydantic's base64, which is part of \<open>codec\<close>; the wording of
  a failed validation is pydantic's and left out of the error.
\<close>

section \<open>Text\<close>

text \<open>\<open>repr\<close> of a JSON value that was frozen: a list is a tuple.\<close>

definition py_char :: "char \<Rightarrow> char \<Rightarrow> string" where
  "py_char q c = (let n = of_char c :: nat in
     if c = q \<or> c = CHR 0x5C then [CHR 0x5C, c]
     else if n = 10 then [CHR 0x5C, CHR ''n'']
     else if n = 13 then [CHR 0x5C, CHR ''r'']
     else if n = 9 then [CHR 0x5C, CHR ''t'']
     else if n < 32 \<or> (127 \<le> n \<and> n \<le> 160 \<and> n \<noteq> 133 \<and> n \<noteq> 151) \<or> n = 173
     then [CHR 0x5C, CHR ''x'', hex_digit (n div 16), hex_digit n]
     else [c])"

definition py_repr_str :: "string \<Rightarrow> string" where
  "py_repr_str s = (let q = if CHR 0x27 \<in> set s \<and> CHR 0x22 \<notin> set s then CHR 0x22 else CHR 0x27 in
     [q] @ concat (map (py_char q) s) @ [q])"

fun py_repr :: "codec \<Rightarrow> json \<Rightarrow> string" where
  "py_repr X JNull = ''None''"
| "py_repr X (JBool b) = (if b then ''True'' else ''False'')"
| "py_repr X (JInt i) = show_int i"
| "py_repr X (JNum q) = cx_float X q"
| "py_repr X (JStr s) = py_repr_str s"
| "py_repr X (JTime t) = py_repr_str (cx_time X t)"
| "py_repr X (JList js) = (let ts = map (py_repr X) js in
     ''('' @ (case ts of [t] \<Rightarrow> t @ '','' | _ \<Rightarrow> join_with '', '' ts) @ '')'')"
| "py_repr X (JObj kvs) = ''{'' @ join_with '', '' (map (\<lambda>(k, v). py_repr_str k @ '': '' @ py_repr X v) kvs) @ ''}''"

definition as_text :: "codec \<Rightarrow> json \<Rightarrow> string option" where
  "as_text X j = (case j of JStr s \<Rightarrow> Some s | JTime t \<Rightarrow> Some (cx_time X t) | _ \<Rightarrow> None)"

definition py_str :: "codec \<Rightarrow> json \<Rightarrow> string" where
  "py_str X j = (case as_text X j of Some s \<Rightarrow> s | None \<Rightarrow> py_repr X j)"

definition media_type_name :: "string \<Rightarrow> string" where
  "media_type_name ty = (if ty = ''image'' then ''Image'' else if ty = ''audio'' then ''Audio''
     else if ty = ''video'' then ''Video'' else ''Document'')"

definition truthy_text :: "string option \<Rightarrow> bool" where
  "truthy_text x \<longleftrightarrow> x \<noteq> None \<and> x \<noteq> Some []"

definition media_str :: "media_block \<Rightarrow> string" where
  "media_str m =
     (if truthy_text (mb_transcript m) then ''[Audio transcript: '' @ the (mb_transcript m) @ '']''
      else let ref = (if truthy_text (mb_filename m) then the (mb_filename m)
                      else if truthy_text (mb_url m) then the (mb_url m)
                      else if truthy_text (mb_file_id m) then ''file:'' @ the (mb_file_id m) else mb_media_type m) in
           ''['' @ media_type_name (mb_type m) @ '': '' @ ref @ '']'')"

definition newline :: string where
  "newline = [CHR 0x0A]"

fun block_str :: "codec \<Rightarrow> content \<Rightarrow> string" where
  "block_str X (TextBlock t) = t"
| "block_str X (MediaBlock m) = media_str m"
| "block_str X (DataBlock d _) = json_dumps X d"
| "block_str X (ErrorBlock ty msg _ _) = ''['' @ ty @ '']: '' @ msg"
| "block_str X (ReasoningBlock t _ red) = (if red then ''[Reasoning: redacted]'' else ''[Reasoning] '' @ t)"
| "block_str X (ToolUseBlock cid name _ _ _) = ''[ToolCall: '' @ name @ ''('' @ cid @ '')]''"
| "block_str X (ToolResultBlock cid _ bs err) = (let inner = join_with newline (map (block_str X) bs) in
     (if err then ''[ToolError'' else ''[ToolResult'') @ '': '' @ cid @ ''] '' @ (if inner = [] then ''(empty)'' else inner))"
| "block_str X (UnknownBlock raw) = ''[UnknownBlock: '' @ (case jget ''type'' raw of None \<Rightarrow> ''?'' | Some v \<Rightarrow> py_str X v) @ '']''"

definition content_blocks_to_str :: "codec \<Rightarrow> content list \<Rightarrow> string" where
  "content_blocks_to_str X bs = join_with newline (map (block_str X) bs)"

section \<open>To JSON\<close>

definition jopt :: "json option \<Rightarrow> json" where
  "jopt x = (case x of None \<Rightarrow> JNull | Some j \<Rightarrow> j)"

definition dump_media :: "codec \<Rightarrow> media_block \<Rightarrow> json" where
  "dump_media X m = JObj [(''type'', JStr (mb_type m)), (''media_type'', JStr (mb_media_type m)), (''url'', jopt_str (mb_url m)),
     (''data'', jopt_str (map_option (cx_b64 X) (mb_data m))), (''file_id'', jopt_str (mb_file_id m)),
     (''detail'', JStr (mb_detail m)), (''filename'', jopt_str (mb_filename m)), (''transcript'', jopt_str (mb_transcript m)),
     (''storage_key'', jopt_str (mb_storage_key m))]"

fun dump_block :: "codec \<Rightarrow> content \<Rightarrow> json" where
  "dump_block X (TextBlock t) = JObj [(''type'', JStr ''text''), (''text'', JStr t)]"
| "dump_block X (MediaBlock m) = dump_media X m"
| "dump_block X (DataBlock d sid) = JObj [(''type'', JStr ''data''), (''data'', d), (''schema_id'', jopt_str sid)]"
| "dump_block X (ErrorBlock ty msg det rec) = JObj [(''type'', JStr ''error''), (''error_type'', JStr ty), (''message'', JStr msg),
     (''details'', jopt det), (''recoverable'', JBool rec)]"
| "dump_block X (ReasoningBlock t sig red) = JObj [(''type'', JStr ''reasoning''), (''text'', JStr t),
     (''signature'', jopt_str sig), (''redacted'', JBool red)]"
| "dump_block X (ToolUseBlock cid name args err extra) = JObj [(''type'', JStr ''tool_use''), (''call_id'', JStr cid),
     (''tool_name'', JStr name), (''arguments'', args), (''arguments_error'', jopt_str err), (''extra'', extra)]"
| "dump_block X (ToolResultBlock cid name bs err) = JObj [(''type'', JStr ''tool_result''), (''call_id'', JStr cid),
     (''name'', JStr name), (''content'', JList (map (dump_block X) bs)), (''is_error'', JBool err)]"
| "dump_block X (UnknownBlock raw) = JObj [(''type'', JStr ''unknown''), (''raw'', raw)]"

section \<open>From JSON\<close>

text \<open>What pydantic makes of a value for a field; \<open>None\<close> is a validation error. A bool is read leniently.\<close>

definition as_object :: "json \<Rightarrow> json option" where
  "as_object j = (case j of JObj _ \<Rightarrow> Some j | _ \<Rightarrow> None)"

definition low_char :: "char \<Rightarrow> char" where
  "low_char c = (let n = of_char c :: nat in
     if (65 \<le> n \<and> n \<le> 90) \<or> (192 \<le> n \<and> n \<le> 222 \<and> n \<noteq> 215) then char_of (n + 32) else c)"

definition as_bool :: "json \<Rightarrow> bool option" where
  "as_bool j = (case j of JBool b \<Rightarrow> Some b
     | JInt i \<Rightarrow> if i = 0 then Some False else if i = 1 then Some True else None
     | JNum q \<Rightarrow> if q = 0 then Some False else if q = 1 then Some True else None
     | JStr s \<Rightarrow> (let t = map low_char s in
         if t \<in> {''1'', ''true'', ''t'', ''yes'', ''y'', ''on''} then Some True
         else if t \<in> {''0'', ''false'', ''f'', ''no'', ''n'', ''off''} then Some False else None)
     | _ \<Rightarrow> None)"

definition as_bytes :: "codec \<Rightarrow> json \<Rightarrow> string option" where
  "as_bytes X j = Option.bind (as_text X j) (cx_unb64 X)"

definition one_of :: "string list \<Rightarrow> json \<Rightarrow> string option" where
  "one_of xs j = (case j of JStr s \<Rightarrow> if s \<in> set xs then Some s else None | _ \<Rightarrow> None)"

definition nullable :: "(json \<Rightarrow> 'a option) \<Rightarrow> json \<Rightarrow> 'a option option" where
  "nullable f j = (if j = JNull then Some None else map_option Some (f j))"

text \<open>A field that must be there, and one with a default.\<close>

definition needed :: "string \<Rightarrow> (json \<Rightarrow> 'a option) \<Rightarrow> json \<Rightarrow> 'a option" where
  "needed k f j = Option.bind (jget k j) f"

definition having :: "string \<Rightarrow> (json \<Rightarrow> 'a option) \<Rightarrow> 'a \<Rightarrow> json \<Rightarrow> 'a option" where
  "having k f d j = (case jget k j of None \<Rightarrow> Some d | Some v \<Rightarrow> f v)"

definition media_types :: "string list" where
  "media_types = [''image'', ''audio'', ''video'', ''document'']"

definition parse_media :: "codec \<Rightarrow> json \<Rightarrow> media_block option" where
  "parse_media X j =
     Option.bind (needed ''type'' (one_of media_types) j) (\<lambda>ty.
     Option.bind (having ''media_type'' (as_text X) ''application/octet-stream'' j) (\<lambda>mt.
     Option.bind (having ''url'' (nullable (as_text X)) None j) (\<lambda>url.
     Option.bind (having ''data'' (nullable (as_bytes X)) None j) (\<lambda>d.
     Option.bind (having ''file_id'' (nullable (as_text X)) None j) (\<lambda>fid.
     Option.bind (having ''detail'' (one_of [''low'', ''high'', ''auto'']) ''auto'' j) (\<lambda>det.
     Option.bind (having ''filename'' (nullable (as_text X)) None j) (\<lambda>fname.
     Option.bind (having ''transcript'' (nullable (as_text X)) None j) (\<lambda>tr.
     Option.bind (having ''storage_key'' (nullable (as_text X)) None j) (\<lambda>sk.
     case mk_media \<lparr>mb_type = ty, mb_media_type = mt, mb_url = url, mb_data = d, mb_file_id = fid, mb_detail = det,
        mb_filename = fname, mb_transcript = tr, mb_storage_key = sk\<rparr> of Inl _ \<Rightarrow> None | Inr m \<Rightarrow> Some m)))))))))"

definition block_error :: "string \<Rightarrow> exn" where
  "block_error msg = KernelExn BlockValidationError msg None"

definition known_tags :: "string list" where
  "known_tags = [''text'', ''image'', ''audio'', ''video'', ''document'', ''data'', ''error'', ''reasoning'', ''tool_use'',
     ''tool_result'', ''unknown'']"

text \<open>The fields of the block named by the tag; \<open>inner\<close> is what the nested blocks of a tool result parse to.\<close>

definition fields_of :: "codec \<Rightarrow> string \<Rightarrow> content list \<Rightarrow> json \<Rightarrow> content option" where
  "fields_of X tag inner j =
     (if tag = ''text'' then map_option TextBlock (needed ''text'' (as_text X) j)
      else if tag \<in> set media_types then map_option MediaBlock (parse_media X j)
      else if tag = ''data'' then Option.bind (needed ''data'' as_object j) (\<lambda>d.
        map_option (DataBlock d) (having ''schema_id'' (nullable (as_text X)) None j))
      else if tag = ''error'' then Option.bind (needed ''error_type'' (as_text X) j) (\<lambda>ty.
        Option.bind (needed ''message'' (as_text X) j) (\<lambda>msg.
        Option.bind (having ''details'' (nullable as_object) None j) (\<lambda>det.
        map_option (ErrorBlock ty msg det) (having ''recoverable'' as_bool True j))))
      else if tag = ''reasoning'' then Option.bind (needed ''text'' (as_text X) j) (\<lambda>t.
        Option.bind (having ''signature'' (nullable (as_text X)) None j) (\<lambda>sig.
        map_option (ReasoningBlock t sig) (having ''redacted'' as_bool False j)))
      else if tag = ''tool_use'' then Option.bind (needed ''call_id'' (as_text X) j) (\<lambda>cid.
        Option.bind (needed ''tool_name'' (as_text X) j) (\<lambda>name.
        Option.bind (having ''arguments'' as_object (JObj []) j) (\<lambda>args.
        Option.bind (having ''arguments_error'' (nullable (as_text X)) None j) (\<lambda>err.
        map_option (ToolUseBlock cid name args err) (having ''extra'' as_object (JObj []) j)))))
      else if tag = ''tool_result'' then Option.bind (needed ''call_id'' (as_text X) j) (\<lambda>cid.
        Option.bind (having ''name'' (as_text X) [] j) (\<lambda>name.
        map_option (ToolResultBlock cid name inner) (having ''is_error'' as_bool False j)))
      else map_option UnknownBlock (having ''raw'' as_object (JObj []) j))"

text \<open>
  \<open>_coerce_blocks\<close>: what stands for a list of blocks. A text alone is one text block, an object alone is
  one block; the blocks inside a tool result are always read as if written by this version.
\<close>

definition nested_items :: "json \<Rightarrow> json list" where
  "nested_items j = (case jget ''content'' j of Some (JList js) \<Rightarrow> js | Some (JObj kvs) \<Rightarrow> [JObj kvs] | _ \<Rightarrow> [])"

definition nested_blocks :: "json \<Rightarrow> exn + content list \<Rightarrow> exn + content list" where
  "nested_blocks j parsed = (case jget ''content'' j of None \<Rightarrow> Inr []
     | Some v \<Rightarrow> (case v of JStr s \<Rightarrow> Inr [TextBlock s] | JList _ \<Rightarrow> parsed | JObj _ \<Rightarrow> parsed
         | _ \<Rightarrow> Inl (KernelExn BlockValidationError [] None)))"

fun sequence_results :: "('e + 'a) list \<Rightarrow> 'e + 'a list" where
  "sequence_results [] = Inr []"
| "sequence_results (r # rs) = (case r of Inl e \<Rightarrow> Inl e | Inr a \<Rightarrow> map_sum id (\<lambda>as. a # as) (sequence_results rs))"

definition failed_block :: "string \<Rightarrow> exn" where
  "failed_block why = block_error (''Failed to validate content block: '' @ why)"

definition parse_known :: "codec \<Rightarrow> string \<Rightarrow> (exn + content list) \<Rightarrow> json \<Rightarrow> exn + content" where
  "parse_known X tag inner j =
     (case (if tag = ''tool_result'' then nested_blocks j inner else Inr []) of
        Inl e \<Rightarrow> Inl (failed_block (exn_text e))
      | Inr bs \<Rightarrow> (case fields_of X tag bs j of None \<Rightarrow> Inl (failed_block []) | Some b \<Rightarrow> Inr b))"

definition unknown_tag :: "bool \<Rightarrow> string \<Rightarrow> json \<Rightarrow> exn + content" where
  "unknown_tag forward_compatible shown j = (if forward_compatible then Inr (UnknownBlock j)
     else Inl (block_error (''unknown content block type '' @ shown)))"

definition untagged :: "exn + content" where
  "untagged = Inl (block_error ''content block has no type'')"

definition parse_tagged :: "codec \<Rightarrow> bool \<Rightarrow> (exn + content list) \<Rightarrow> json \<Rightarrow> exn + content" where
  "parse_tagged X forward_compatible inner j = (case as_object j of None \<Rightarrow> Inl (failed_block [])
     | Some _ \<Rightarrow> (case jget ''type'' j of None \<Rightarrow> untagged
       | Some v \<Rightarrow> (case v of JNull \<Rightarrow> untagged
           | JList _ \<Rightarrow> Inl (PyExn ''TypeError'' ''unhashable type'')
           | JObj _ \<Rightarrow> Inl (PyExn ''TypeError'' ''unhashable type'')
           | JStr tag \<Rightarrow> if tag \<in> set known_tags then parse_known X tag inner j
               else unknown_tag forward_compatible (py_repr X v) j
           | _ \<Rightarrow> unknown_tag forward_compatible (py_repr X v) j)))"

lemma size_member: "(k, v) \<in> set kvs \<Longrightarrow> size v < Suc (size_list (size_prod (\<lambda>x. 0) size) kvs)"
  by (induction kvs) auto

lemma size_jget: "jget k j = Some v \<Longrightarrow> size v < size j"
  by (cases j) (auto dest!: map_of_SomeD size_member)

lemma size_element: "x \<in> set js \<Longrightarrow> size x < size (JList js)"
  by (induction js) auto

lemma size_nested: "x \<in> set (nested_items j) \<Longrightarrow> size x < size j"
proof -
  assume x: "x \<in> set (nested_items j)"
  then obtain v where v: "jget ''content'' j = Some v" by (cases "jget ''content'' j") (auto simp: nested_items_def)
  have "size x \<le> size v" using x v size_element [of x] by (cases v) (auto simp: nested_items_def less_imp_le)
  with size_jget [OF v] show ?thesis by simp
qed

function parse_content_block :: "codec \<Rightarrow> bool \<Rightarrow> json \<Rightarrow> exn + content" where
  "parse_content_block X forward_compatible j =
     parse_tagged X forward_compatible (sequence_results (map (parse_content_block X False) (nested_items j))) j"
  by pat_completeness auto

termination by (relation "measure (\<lambda>(X, fc, j). size j)") (auto intro: size_nested)

declare parse_content_block.simps [simp del]

section \<open>There and back\<close>

definition is_object :: "json \<Rightarrow> bool" where
  "is_object j \<longleftrightarrow> as_object j \<noteq> None"

definition source_count :: "media_block \<Rightarrow> nat" where
  "source_count m = length (filter (\<lambda>x. x \<noteq> None) [mb_url m, mb_data m, mb_file_id m])"

text \<open>Blocks as the classes admit them, and bytes that can be read back.\<close>

fun valid_block :: "content \<Rightarrow> bool" where
  "valid_block (MediaBlock m) \<longleftrightarrow> mb_type m \<in> set media_types \<and> mb_detail m \<in> {''low'', ''high'', ''auto''} \<and> source_count m = 1"
| "valid_block (DataBlock d _) \<longleftrightarrow> is_object d"
| "valid_block (ErrorBlock _ _ det _) \<longleftrightarrow> (case det of None \<Rightarrow> True | Some d \<Rightarrow> is_object d)"
| "valid_block (ToolUseBlock _ _ args _ extra) \<longleftrightarrow> is_object args \<and> is_object extra"
| "valid_block (ToolResultBlock _ _ bs _) \<longleftrightarrow> (\<forall>b\<in>set bs. valid_block b)"
| "valid_block (UnknownBlock raw) \<longleftrightarrow> is_object raw"
| "valid_block _ \<longleftrightarrow> True"

definition reads_bytes :: "codec \<Rightarrow> bool" where
  "reads_bytes X \<longleftrightarrow> (\<forall>d. cx_unb64 X (cx_b64 X d) = Some d)"

lemma sequence_map: "\<forall>x\<in>set xs. f (g x) = Inr x \<Longrightarrow> sequence_results (map f (map g xs)) = Inr xs"
  by (induction xs) simp_all

lemma as_text_JStr [simp]: "as_text X (JStr s) = Some s"
  by (simp add: as_text_def)

lemma nullable_text [simp]: "nullable (as_text X) (jopt_str x) = Some x"
  by (cases x) (simp_all add: nullable_def jopt_str_def)

lemma nullable_bytes [simp]: "reads_bytes X \<Longrightarrow> nullable (as_bytes X) (jopt_str (map_option (cx_b64 X) x)) = Some x"
  by (cases x) (simp_all add: nullable_def jopt_str_def as_bytes_def reads_bytes_def)

lemma as_object_is [simp]: "is_object d \<Longrightarrow> as_object d = Some d"
  by (cases d) (simp_all add: is_object_def as_object_def)

lemma as_object_JObj [simp]: "as_object (JObj kvs) = Some (JObj kvs)"
  by (simp add: as_object_def)

lemma as_object_null [simp]: "as_object JNull = None"
  by (simp add: as_object_def)

lemma nullable_object [simp]: "(case x of None \<Rightarrow> True | Some d \<Rightarrow> is_object d) \<Longrightarrow> nullable as_object (jopt x) = Some x"
  by (cases x) (auto simp: nullable_def jopt_def is_object_def)

lemma as_bool_JBool [simp]: "as_bool (JBool b) = Some b"
  by (simp add: as_bool_def)

lemma one_of_JStr [simp]: "s \<in> set xs \<Longrightarrow> one_of xs (JStr s) = Some s"
  by (simp add: one_of_def)

lemma parse_dump_media:
  assumes "reads_bytes X" and "valid_block (MediaBlock m)"
  shows "parse_media X (dump_media X m) = Some m"
  using assms by (simp add: parse_media_def dump_media_def needed_def having_def mk_media_def source_count_def)

lemma parse_dumped:
  assumes "jget ''type'' j = Some (JStr tag)" and "is_object j" and "tag \<in> set known_tags" and "tag \<noteq> ''tool_result''"
    and "fields_of X tag [] j = Some b"
  shows "parse_content_block X fc j = Inr b"
  using assms by (subst parse_content_block.simps) (simp add: parse_tagged_def parse_known_def)

text \<open>What was written is read back, whichever version reads it.\<close>

theorem parse_dump_block:
  assumes "reads_bytes X" and "valid_block b"
  shows "parse_content_block X fc (dump_block X b) = Inr b"
  using assms(2)
proof (induction b arbitrary: fc)
  case (MediaBlock m)
  then have "mb_type m \<in> set media_types" by simp
  then show ?case using parse_dump_media [OF assms(1) MediaBlock]
    by (intro parse_dumped [where tag = "mb_type m"]) (auto simp: dump_media_def is_object_def known_tags_def media_types_def fields_of_def)
next
  case (ToolResultBlock cid name bs err)
  then have "sequence_results (map (parse_content_block X False) (map (dump_block X) bs)) = Inr bs"
    by (intro sequence_map) simp
  then show ?case
    by (subst parse_content_block.simps)
      (simp add: parse_tagged_def parse_known_def nested_items_def nested_blocks_def fields_of_def media_types_def known_tags_def needed_def having_def)
qed (subst parse_content_block.simps,
    simp add: parse_tagged_def parse_known_def known_tags_def fields_of_def media_types_def needed_def having_def)+

text \<open>
  A block of a type this version does not know is carried unread, as long as it is not inside a tool result:
  there it makes the whole result unreadable.
\<close>

definition hologram :: json where
  "hologram = JObj [(''type'', JStr ''hologram'')]"

theorem nested_future_block_fails:
  "parse_content_block X True hologram = Inr (UnknownBlock hologram) \<and>
   (\<exists>msg. parse_content_block X True (JObj [(''type'', JStr ''tool_result''), (''call_id'', JStr ''c''), (''content'', JList [hologram])]) =
      Inl (block_error msg))"
proof
  have shown: "parse_content_block X fc hologram = unknown_tag fc (py_repr X (JStr ''hologram'')) hologram" for fc
    by (subst parse_content_block.simps) (simp add: parse_tagged_def hologram_def known_tags_def)
  then show "parse_content_block X True hologram = Inr (UnknownBlock hologram)" by (simp add: unknown_tag_def)
  show "\<exists>msg. parse_content_block X True (JObj [(''type'', JStr ''tool_result''), (''call_id'', JStr ''c''), (''content'', JList [hologram])]) =
      Inl (block_error msg)"
    by (subst parse_content_block.simps)
      (simp add: parse_tagged_def parse_known_def nested_items_def nested_blocks_def known_tags_def shown unknown_tag_def failed_block_def, rule exI, rule refl)
qed

end
