(* ===== verification/Context_Core.thy ===== *)
theory Context_Core
  imports Journal_Store Channel_Store Blocks
begin

text \<open>
  The handle an agent holds while it runs (\<open>runtime/context.py\<close>): the run's record, its journaled
  inputs, its budget and its model calls. A capability is an action on the journal and the world, and
  everything it asks of the store is a transaction. What the model and the tools answer is an argument.
\<close>

section \<open>The handle\<close>

text \<open>
  \<open>rc_cancelled\<close> is the cancellation token, which other tasks set while the run goes on: it reads off
  the world the reason the run was cancelled for. \<open>rc_random\<close> and \<open>rc_money\<close> are \<open>random.random\<close> and
  the printing of an amount.
\<close>

record ('b, 'x) run_context =
  rc_env :: env
  rc_lease :: lease
  rc_host :: "('b, 'x) world host"
  rc_tenant :: "string option"
  rc_supervision :: "supervision option"
  rc_deadline :: "seconds option"
  rc_trace :: "trace_context option"
  rc_cancelled :: "('b, 'x) world \<Rightarrow> string option"
  rc_agent :: actor
  rc_agent_budget :: "execution_budget option"
  rc_random :: "nat \<Rightarrow> rat"
  rc_money :: "rat \<Rightarrow> string"

type_synonym ('b, 'x, 'a) capability = "(('b, 'x) world, 'a) jact"

abbreviation rc_run :: "('b, 'x) run_context \<Rightarrow> string" where
  "rc_run C \<equiv> ls_run_id (rc_lease C)"

text \<open>A transaction of the store.\<close>

definition storeA :: "'a dbtx \<Rightarrow> ('b, 'x, 'a) capability" where
  "storeA m = worldA (onA fst (\<lambda>d s. (d, snd s)) (txA m))"

definition clockA :: "('b, 'x) run_context \<Rightarrow> ('b, 'x, seconds) capability" where
  "clockA C = storeA (drawT (env_clock (rc_env C)))"

text \<open>\<open>RunMeta.check\<close>.\<close>

definition ctx_check :: "('b, 'x) run_context \<Rightarrow> ('b, 'x, unit) capability" where
  "ctx_check C = bindA (queryA (\<lambda>s. rc_cancelled C (snd s))) (\<lambda>reason.
     case reason of
       Some r \<Rightarrow> raiseA (CancellationError r)
     | None \<Rightarrow> (case rc_deadline C of
           None \<Rightarrow> retA ()
         | Some due \<Rightarrow> bindA (clockA C) (\<lambda>now.
             if due < now then raiseA (CancellationError ''deadline exceeded'') else retA ())))"

definition trace_childA :: "('b, 'x) run_context \<Rightarrow> ('b, 'x, trace_context option) capability" where
  "trace_childA C = (case rc_trace C of
       None \<Rightarrow> retA None
     | Some t \<Rightarrow> bindA (storeA (drawT (env_span (rc_env C)))) (\<lambda>sid. retA (Some (trace_child t sid))))"

section \<open>The record\<close>

definition ctx_commit :: "('b, 'x) run_context \<Rightarrow> commit \<Rightarrow> ('b, 'x, commit_result) capability" where
  "ctx_commit C c = storeA (commit_run (rc_env C) (rc_lease C) c)"

definition commit_entries :: "('b, 'x) run_context \<Rightarrow> new_entry list \<Rightarrow> ('b, 'x, commit_result) capability" where
  "commit_entries C es = ctx_commit C (empty_commit\<lparr>cm_entries := es\<rparr>)"

definition commit_only :: "('b, 'x) run_context \<Rightarrow> new_entry list \<Rightarrow> ('b, 'x, unit) capability" where
  "commit_only C es = bindA (commit_entries C es) (\<lambda>_. retA ())"

definition first_seq :: "commit_result \<Rightarrow> ('s, exn, int) act" where
  "first_seq r = (case cr_seqs r of [] \<Rightarrow> raiseA index_error | n # _ \<Rightarrow> retA n)"

definition ctx_log :: "('b, 'x) run_context \<Rightarrow> string \<Rightarrow> json option \<Rightarrow> ('b, 'x, int) capability" where
  "ctx_log C kind payload = bindA (commit_entries C [entry kind (or_empty payload) None]) first_seq"

definition ctx_log_once :: "('b, 'x) run_context \<Rightarrow> string \<Rightarrow> json option \<Rightarrow> ('b, 'x, int) capability" where
  "ctx_log_once C kind payload = bindA alloc_path (\<lambda>path.
     bindA (commit_entries C [entry kind (or_empty payload) (Some (''once:'' @ path @ '':'' @ kind))]) first_seq)"

text \<open>Live output: a store failure loses it and nothing else.\<close>

definition live_entries :: "('b, 'x) run_context \<Rightarrow> new_entry list \<Rightarrow> ('b, 'x, unit) capability" where
  "live_entries C es = suppressA (storeA (append_ephemeral (rc_env C) (rc_lease C) es))"

definition ctx_live :: "('b, 'x) run_context \<Rightarrow> string \<Rightarrow> json option \<Rightarrow> ('b, 'x, unit) capability" where
  "ctx_live C kind payload = live_entries C [entry kind (or_empty payload) None]"

section \<open>Journaled inputs\<close>

text \<open>\<open>outcome.value[k]\<close>.\<close>

definition value_at :: "string \<Rightarrow> json \<Rightarrow> ('s, exn, json) act" where
  "value_at k v = (case jget k v of None \<Rightarrow> raiseA (PyExn ''KeyError'' k) | Some x \<Rightarrow> retA x)"

definition text_at :: "string \<Rightarrow> json \<Rightarrow> ('s, exn, string) act" where
  "text_at k v = bindA (value_at k v) (\<lambda>x. case x of JStr s \<Rightarrow> retA s | _ \<Rightarrow> raiseA (PyExn ''TypeError'' k))"

definition time_at :: "string \<Rightarrow> json \<Rightarrow> ('s, exn, seconds) act" where
  "time_at k v = bindA (value_at k v) (\<lambda>x. case x of JTime t \<Rightarrow> retA t | _ \<Rightarrow> raiseA (PyExn ''ValueError'' k))"

definition number_at :: "string \<Rightarrow> json \<Rightarrow> ('s, exn, rat) act" where
  "number_at k v = bindA (value_at k v) (\<lambda>x. case x of JNum q \<Rightarrow> retA q | JInt i \<Rightarrow> retA (of_int i)
     | _ \<Rightarrow> raiseA (PyExn ''ValueError'' k))"

definition ctx_now :: "('b, 'x) run_context \<Rightarrow> ('b, 'x, seconds) capability" where
  "ctx_now C = bindA (record_atomic (rc_host C) ''now'' (JObj []) (\<lambda>_ _.
       bindA (clockA C) (\<lambda>ts. retA (JObj [(''ts'', JTime ts)], commit_only C))))
     (\<lambda>out. time_at ''ts'' (so_value out))"

definition ctx_random :: "('b, 'x) run_context \<Rightarrow> ('b, 'x, rat) capability" where
  "ctx_random C = bindA (record_atomic (rc_host C) ''random'' (JObj []) (\<lambda>_ _.
       bindA (storeA (drawT (rc_random C))) (\<lambda>q. retA (JObj [(''value'', JNum q)], commit_only C))))
     (\<lambda>out. number_at ''value'' (so_value out))"

definition ctx_uuid :: "('b, 'x) run_context \<Rightarrow> ('b, 'x, string) capability" where
  "ctx_uuid C = bindA (record_atomic (rc_host C) ''uuid'' (JObj []) (\<lambda>_ _.
       bindA (storeA (drawT (env_uuid (rc_env C)))) (\<lambda>u. retA (JObj [(''value'', JStr u)], commit_only C))))
     (\<lambda>out. text_at ''value'' (so_value out))"

section \<open>The budget\<close>

definition exhausted_error :: "string \<Rightarrow> exn" where
  "exhausted_error msg = KernelExn BudgetExhaustedError msg None"

definition over_cap :: "bool \<Rightarrow> rat \<Rightarrow> rat option \<Rightarrow> bool" where
  "over_cap strict used cap = (case cap of None \<Rightarrow> False | Some c \<Rightarrow> if strict then c < used else c \<le> used)"

definition budget_of :: "('b, 'x) run_context \<Rightarrow> execution_budget option" where
  "budget_of C = (case rc_supervision C of Some sv \<Rightarrow> Some (sv_execution_budget sv) | None \<Rightarrow> rc_agent_budget C)"

definition bounded :: "execution_budget \<Rightarrow> bool" where
  "bounded b \<longleftrightarrow> eb_max_tokens b \<noteq> None \<or> eb_max_cost_usd b \<noteq> None \<or> eb_max_turns b \<noteq> None"

definition beyond :: "bool \<Rightarrow> string" where
  "beyond strict = (if strict then '' > '' else '' >= '')"

definition check_spend :: "('b, 'x) run_context \<Rightarrow> bool \<Rightarrow> execution_budget \<Rightarrow> spend \<Rightarrow> ('b, 'x, unit) capability" where
  "check_spend C strict b sp =
     (if over_cap strict (of_int (sn_tokens sp)) (map_option of_int (eb_max_tokens b))
      then raiseA (exhausted_error (''Token budget exceeded: '' @ show_int (sn_tokens sp) @ beyond strict @
             show_int (the (eb_max_tokens b))))
      else if over_cap strict (sn_cost_usd sp) (eb_max_cost_usd b)
      then raiseA (exhausted_error (''Cost budget exceeded: $'' @ rc_money C (sn_cost_usd sp) @ beyond strict @ ''$'' @
             rc_money C (the (eb_max_cost_usd b))))
      else if over_cap strict (of_int (sn_turns sp)) (map_option of_int (eb_max_turns b))
      then raiseA (exhausted_error (''Turn limit exceeded: '' @ show_int (sn_turns sp) @ beyond strict @
             show_int (the (eb_max_turns b))))
      else retA ())"

definition enforce_budget :: "('b, 'x) run_context \<Rightarrow> bool \<Rightarrow> ('b, 'x, unit) capability" where
  "enforce_budget C strict =
     bindA (storeA (run_accounts_exhausted (rc_run C) strict)) (\<lambda>account.
       case account of
         Some a \<Rightarrow> raiseA (exhausted_error (''Budget account '' @ a @ '' is exhausted''))
       | None \<Rightarrow> (case budget_of C of
           None \<Rightarrow> retA ()
         | Some b \<Rightarrow> if bounded b then bindA (storeA (tree_spend (rc_run C))) (check_spend C strict b)
                     else retA ()))"

section \<open>Model calls\<close>

record usage =
  us_input :: int
  us_cached :: int
  us_output :: int
  us_reasoning :: int
  us_cache_write :: int

definition total_tokens :: "usage \<Rightarrow> int" where
  "total_tokens u = us_input u + us_output u"

record llm_response =
  lr_content :: "content list"
  lr_usage :: usage
  lr_cost_usd :: rat
  lr_finish_reason :: string
  lr_response_id :: "string option"
  lr_served_model :: "string option"

definition response_text :: "llm_response \<Rightarrow> string" where
  "response_text r = concat (texts (lr_content r))"

definition reasoning_text :: "llm_response \<Rightarrow> string" where
  "reasoning_text r = join_with newline (List.map_filter (\<lambda>b. case b of ReasoningBlock t _ _ \<Rightarrow> Some t | _ \<Rightarrow> None) (lr_content r))"

definition serialize :: "codec \<Rightarrow> llm_response \<Rightarrow> json" where
  "serialize X r = JObj [(''content'', JList (map (dump_block X) (lr_content r))),
     (''usage'', JObj [(''input_tokens'', JInt (us_input (lr_usage r))), (''cached_tokens'', JInt (us_cached (lr_usage r))),
        (''output_tokens'', JInt (us_output (lr_usage r))), (''reasoning_tokens'', JInt (us_reasoning (lr_usage r))),
        (''cache_write_tokens'', JInt (us_cache_write (lr_usage r)))]),
     (''cost_usd'', JNum (lr_cost_usd r)), (''finish_reason'', JStr (lr_finish_reason r)),
     (''response_id'', jopt_str (lr_response_id r)), (''served_model'', jopt_str (lr_served_model r))]"

definition int_field :: "string \<Rightarrow> json \<Rightarrow> exn + int" where
  "int_field k j = (case jget k j of None \<Rightarrow> Inl (PyExn ''KeyError'' k)
     | Some v \<Rightarrow> (case v of JInt i \<Rightarrow> Inr i | _ \<Rightarrow> Inl (PyExn ''TypeError'' k)))"

text \<open>The items a value is iterated over.\<close>

definition iterated :: "json \<Rightarrow> exn + json list" where
  "iterated v = (case v of JList js \<Rightarrow> Inr js | JStr s \<Rightarrow> Inr (map (\<lambda>c. JStr [c]) s) | JObj kvs \<Rightarrow> Inr (map (JStr \<circ> fst) kvs)
     | _ \<Rightarrow> Inl (PyExn ''TypeError'' ''not iterable''))"

definition parse_blocks :: "codec \<Rightarrow> json \<Rightarrow> exn + content list" where
  "parse_blocks X v = (case iterated v of Inl e \<Rightarrow> Inl e
     | Inr js \<Rightarrow> sequence_results (map (parse_content_block X True) js))"

definition parse_usage :: "json \<Rightarrow> exn + usage" where
  "parse_usage u =
     (case (int_field ''input_tokens'' u, int_field ''cached_tokens'' u, int_field ''output_tokens'' u, int_field ''reasoning_tokens'' u) of
        (Inr a, Inr b, Inr c, Inr d) \<Rightarrow>
          (case jget ''cache_write_tokens'' u of
             None \<Rightarrow> Inr \<lparr>us_input = a, us_cached = b, us_output = c, us_reasoning = d, us_cache_write = 0\<rparr>
           | Some _ \<Rightarrow> map_sum id (\<lambda>w. \<lparr>us_input = a, us_cached = b, us_output = c, us_reasoning = d, us_cache_write = w\<rparr>)
                         (int_field ''cache_write_tokens'' u))
      | (Inl e, _) \<Rightarrow> Inl e | (_, Inl e, _) \<Rightarrow> Inl e | (_, _, Inl e, _) \<Rightarrow> Inl e | (_, _, _, Inl e) \<Rightarrow> Inl e)"

text \<open>\<open>FinishReason(...)\<close>: one of its values, or a \<open>ValueError\<close>.\<close>

definition finish_reasons :: "string list" where
  "finish_reasons = [''stop'', ''tool_calls'', ''length'', ''content_filter'', ''refusal'', ''error'', ''other'', ''unspecified'']"

definition parse_finish :: "json option \<Rightarrow> exn + string" where
  "parse_finish v = (case v of None \<Rightarrow> Inr ''unspecified''
     | Some x \<Rightarrow> (case x of JStr s \<Rightarrow> if s \<in> set finish_reasons then Inr s else Inl (PyExn ''ValueError'' s)
         | _ \<Rightarrow> Inl (PyExn ''ValueError'' ''finish_reason'')))"

definition deserialize :: "codec \<Rightarrow> json \<Rightarrow> exn + llm_response" where
  "deserialize X v =
     (case jget ''usage'' v of None \<Rightarrow> Inl (PyExn ''KeyError'' ''usage'')
      | Some u \<Rightarrow>
     (case jget ''content'' v of None \<Rightarrow> Inl (PyExn ''KeyError'' ''content'')
      | Some c \<Rightarrow>
     (case parse_blocks X c of Inl e \<Rightarrow> Inl e
      | Inr bs \<Rightarrow>
     (case parse_usage u of Inl e \<Rightarrow> Inl e
      | Inr us \<Rightarrow>
     (case parse_finish (jget ''finish_reason'' v) of Inl e \<Rightarrow> Inl e
      | Inr fr \<Rightarrow> Inr \<lparr>lr_content = bs, lr_usage = us,
          lr_cost_usd = (case jget ''cost_usd'' v of Some (JNum q) \<Rightarrow> q | Some (JInt i) \<Rightarrow> of_int i | _ \<Rightarrow> 0),
          lr_finish_reason = fr, lr_response_id = jget_str ''response_id'' v, lr_served_model = jget_str ''served_model'' v\<rparr>)))))"

definition liftA :: "'e + 'a \<Rightarrow> ('s, 'e, 'a) act" where
  "liftA r = (case r of Inl e \<Rightarrow> raiseA e | Inr a \<Rightarrow> retA a)"

text \<open>
  The entries a call leaves in the record, on a replay too; the second carries what the call cost.
\<close>

definition llm_entries :: "string \<Rightarrow> llm_response \<Rightarrow> string \<Rightarrow> new_entry list" where
  "llm_entries model r eid =
     [entry ''assistant.message'' (JObj [(''text'', JStr (response_text r)), (''reasoning'', JStr (reasoning_text r))])
        (Some (''assistant.message:'' @ eid)),
      (entry ''llm.call'' (JObj [(''model'', JStr model), (''tokens'', JInt (total_tokens (lr_usage r))),
           (''cost_usd'', JNum (lr_cost_usd r)), (''finish_reason'', JStr (lr_finish_reason r))])
        (Some (''llm.call:'' @ eid)))
        \<lparr>ne_spend := Some \<lparr>sn_tokens = total_tokens (lr_usage r), sn_cost_usd = lr_cost_usd r, sn_turns = 1\<rparr>\<rparr>]"

text \<open>
  \<open>llm\<close>; \<open>client\<close> is the model's name, or none is configured, and \<open>generate\<close> is the call itself
  (\<open>_generate\<close>: the middleware, the stream and the classification of the client's errors).
\<close>

definition ctx_llm ::
  "('b, 'x) run_context \<Rightarrow> string option \<Rightarrow> nat \<Rightarrow> ('b, 'x, llm_response) capability \<Rightarrow> ('b, 'x, llm_response) capability" where
  "ctx_llm C client msgs generate = (case client of
       None \<Rightarrow> raiseA (PyExn ''RuntimeError'' ''no LLM client: set agent.model before registering the agent'')
     | Some model \<Rightarrow>
         bindA (effect (rc_host C) ''llm'' (JObj [(''model'', JStr model), (''msg_count'', JInt (int msgs))]) True
             (thenA (enforce_budget C False) (bindA generate (\<lambda>r. retA (serialize (ho_codec (rc_host C)) r)))))
        (\<lambda>out. bindA (liftA (deserialize (ho_codec (rc_host C)) (so_value out))) (\<lambda>r.
         thenA (commit_only C (llm_entries model r (so_effect_id out)))
        (thenA (enforce_budget C True)
        (retA r)))))"

end
