(* ===== verification/Context_Talk.thy ===== *)
theory Context_Talk
  imports Context_Core
begin

text \<open>
  The rest of the handle (\<open>runtime/context.py\<close>): tools, messages and channels, questions to other
  agents, child runs and sleep. A send, a spawn and a question are one commit with their record; a wait
  claims its signal under its own position and suspends the run when there is nothing to claim.
\<close>

section \<open>Tools\<close>

text \<open>
  The result of an invocation (\<open>InvocationResult\<close>, \<open>tools/chain.py\<close>), as it is written to the journal and
  read back.
\<close>

record chain_file =
  cf_path :: string
  cf_media_type :: string
  cf_artifact_ref :: string

record invocation =
  iv_status :: string
  iv_text :: string
  iv_structured :: json
  iv_artifact_ref :: "string option"
  iv_files :: "chain_file list"
  iv_media :: "media_block list"

definition dump_file :: "chain_file \<Rightarrow> json" where
  "dump_file f = JObj [(''path'', JStr (cf_path f)), (''media_type'', JStr (cf_media_type f)), (''artifact_ref'', JStr (cf_artifact_ref f))]"

definition dump_invocation :: "codec \<Rightarrow> invocation \<Rightarrow> json" where
  "dump_invocation X r = JObj [(''status'', JStr (iv_status r)), (''text'', JStr (iv_text r)), (''structured'', iv_structured r),
     (''artifact_ref'', jopt_str (iv_artifact_ref r)), (''files'', JList (map dump_file (iv_files r))),
     (''media'', JList (map (dump_media X) (iv_media r)))]"

definition parse_file :: "codec \<Rightarrow> json \<Rightarrow> chain_file option" where
  "parse_file X j = Option.bind (needed ''path'' (as_text X) j) (\<lambda>p. Option.bind (needed ''media_type'' (as_text X) j) (\<lambda>t.
     map_option (\<lambda>r. \<lparr>cf_path = p, cf_media_type = t, cf_artifact_ref = r\<rparr>) (needed ''artifact_ref'' (as_text X) j)))"

definition list_of :: "(json \<Rightarrow> 'a option) \<Rightarrow> json \<Rightarrow> 'a list option" where
  "list_of f j = (case j of JList js \<Rightarrow> those (map f js) | _ \<Rightarrow> None)"

definition statuses :: "string list" where
  "statuses = [''ok'', ''error'', ''denied'']"

definition load_invocation :: "codec \<Rightarrow> json \<Rightarrow> exn + invocation" where
  "load_invocation X j =
     (case Option.bind (as_object j) (\<lambda>_. Option.bind (needed ''status'' (one_of statuses) j) (\<lambda>st.
        Option.bind (having ''text'' (as_text X) [] j) (\<lambda>t. Option.bind (having ''structured'' as_object (JObj []) j) (\<lambda>sc.
        Option.bind (having ''artifact_ref'' (nullable (as_text X)) None j) (\<lambda>ref.
        Option.bind (having ''files'' (list_of (parse_file X)) [] j) (\<lambda>fs.
        map_option (\<lambda>ms. \<lparr>iv_status = st, iv_text = t, iv_structured = sc, iv_artifact_ref = ref, iv_files = fs, iv_media = ms\<rparr>)
          (having ''media'' (list_of (parse_media X)) [] j))))))) of
        None \<Rightarrow> Inl (PyExn ''ValidationError'' ''InvocationResult'') | Some r \<Rightarrow> Inr r)"

text \<open>\<open>_attachment_url\<close>; \<open>b64\<close> is base64.\<close>

definition media_type_of :: "media_block \<Rightarrow> string" where
  "media_type_of m = (if mb_media_type m = [] then ''image/png'' else mb_media_type m)"

definition attachment_url :: "(string \<Rightarrow> string) \<Rightarrow> media_block \<Rightarrow> string option" where
  "attachment_url b64 m =
     (if truthy_text (mb_storage_key m) then Some (''object:'' @ the (mb_storage_key m))
      else if truthy_text (mb_url m) then mb_url m
      else (case mb_data m of None \<Rightarrow> None
        | Some d \<Rightarrow> Some (''data:'' @ media_type_of m @ '';base64,'' @ b64 d)))"

definition after_last_slash :: "string \<Rightarrow> string" where
  "after_last_slash s = rev (takeWhile (\<lambda>c. c \<noteq> CHR ''/'') (rev s))"

definition attachment :: "string \<Rightarrow> string \<Rightarrow> nat \<times> media_block \<times> string \<Rightarrow> json" where
  "attachment fresh name imu = (case imu of (i, m, url) \<Rightarrow> JObj [(''id'', JStr fresh),
     (''name'', JStr (name @ ''-'' @ show_nat i @ ''.'' @ after_last_slash (media_type_of m))),
     (''mime'', JStr (media_type_of m)),
     (''size'', JInt (int (length (case mb_data m of None \<Rightarrow> [] | Some d \<Rightarrow> d)))), (''url'', JStr url)])"

text \<open>Each attachment that has an address, with a fresh id.\<close>

fun attachmentsA :: "('b, 'x) run_context \<Rightarrow> (string \<Rightarrow> string) \<Rightarrow> string \<Rightarrow> nat \<Rightarrow> media_block list \<Rightarrow> ('b, 'x, json list) capability" where
  "attachmentsA C b64 name i [] = retA []"
| "attachmentsA C b64 name i (m # ms) = (case attachment_url b64 m of
       None \<Rightarrow> attachmentsA C b64 name (Suc i) ms
     | Some url \<Rightarrow> bindA (storeA (drawT (env_uuid (rc_env C)))) (\<lambda>fresh.
         bindA (attachmentsA C b64 name (Suc i) ms) (\<lambda>rest. retA (attachment fresh name (i, m, url) # rest))))"

definition log_tool_result ::
  "('b, 'x) run_context \<Rightarrow> (string \<Rightarrow> string) \<Rightarrow> string \<Rightarrow> string \<Rightarrow> invocation \<Rightarrow> ('b, 'x, unit) capability" where
  "log_tool_result C b64 eid name r =
     bindA (attachmentsA C b64 name 0 (iv_media r)) (\<lambda>atts.
     commit_only C [entry ''tool.result'' (JObj [(''call_id'', JStr eid), (''tool_name'', JStr name),
       (''ok'', JBool (iv_status r = ''ok'')), (''output'', JStr (iv_text r)),
       (''error'', if iv_status r = ''ok'' then JNull else JStr (if iv_text r = [] then ''tool error'' else iv_text r)),
       (''structured_content'', or_empty (Some (iv_structured r))), (''attachments'', JList atts)])
       (Some (''tool.result:'' @ eid))])"

text \<open>
  The tool invoker: whether the named tool says it may run twice, the call (through the agent's
  middleware), and base64.
\<close>

record ('b, 'x) invoker =
  in_idempotent :: "string \<Rightarrow> bool"
  in_invoke :: "string \<Rightarrow> json \<Rightarrow> ('b, 'x, invocation) capability"
  in_base64 :: "string \<Rightarrow> string"

definition tool_body :: "('b, 'x) run_context \<Rightarrow> ('b, 'x) invoker \<Rightarrow> string \<Rightarrow> json \<Rightarrow> ('b, 'x, json) capability" where
  "tool_body C I name args =
     bindA (jquery (\<lambda>j. case jn_current j of None \<Rightarrow> ''None'' | Some e \<Rightarrow> e)) (\<lambda>eid.
     thenA (commit_only C [entry ''tool.call'' (JObj [(''call_id'', JStr eid), (''tool_name'', JStr name), (''args'', args)])
              (Some (''tool.call:'' @ eid))])
    (bindA (in_invoke I name args) (\<lambda>r. retA (dump_invocation (ho_codec (rc_host C)) r))))"

definition ctx_tool ::
  "('b, 'x) run_context \<Rightarrow> ('b, 'x) invoker option \<Rightarrow> string \<Rightarrow> json option \<Rightarrow> ('b, 'x, invocation) capability" where
  "ctx_tool C ivk name args0 = (case ivk of
       None \<Rightarrow> raiseA (PyExn ''RuntimeError'' ''no ToolInvoker: set agent.tools before registering the agent'')
     | Some I \<Rightarrow> let args = or_empty args0 in
         bindA (effect (rc_host C) ''tool'' (JObj [(''name'', JStr name), (''args'', args)]) (in_idempotent I name)
                  (tool_body C I name args)) (\<lambda>out.
         bindA (liftA (load_invocation (ho_codec (rc_host C)) (so_value out))) (\<lambda>r.
         thenA (log_tool_result C (in_base64 I) (so_effect_id out) name r) (retA r))))"

text \<open>
  A batch. \<open>gather\<close> collects the result or the exception of every call, here run one after another in
  the order \<open>sched\<close> gives; then the first \<open>Exception\<close> in call order is raised, or failing that the first
  of the others.
\<close>

definition gatherA :: "('s, 'e, 'a) act \<Rightarrow> ('s, 'e, 'e + 'a) act" where
  "gatherA m s = (case m s of (r, s') \<Rightarrow> (Inr r, s'))"

fun run_calls :: "(nat \<Rightarrow> ('s, exn, 'a) act) \<Rightarrow> nat list \<Rightarrow> ('s, exn, (nat \<times> (exn + 'a)) list) act" where
  "run_calls call [] = retA []"
| "run_calls call (i # is) = bindA (gatherA (call i)) (\<lambda>r. bindA (run_calls call is) (\<lambda>rs. retA ((i, r) # rs)))"

definition raised :: "(exn + 'a) list \<Rightarrow> exn list" where
  "raised rs = List.map_filter (\<lambda>r. case r of Inl e \<Rightarrow> Some e | Inr _ \<Rightarrow> None) rs"

definition first_error :: "exn list \<Rightarrow> exn option" where
  "first_error es = (case List.find is_exception es of Some e \<Rightarrow> Some e
     | None \<Rightarrow> (case es of [] \<Rightarrow> None | e # _ \<Rightarrow> Some e))"

definition returned :: "(exn + 'a) list \<Rightarrow> 'a list" where
  "returned rs = List.map_filter (\<lambda>r. case r of Inl _ \<Rightarrow> None | Inr a \<Rightarrow> Some a) rs"

definition ctx_tool_batch ::
  "('b, 'x) run_context \<Rightarrow> ('b, 'x) invoker option \<Rightarrow> nat list \<Rightarrow> (string \<times> json) list \<Rightarrow> ('b, 'x, invocation list) capability" where
  "ctx_tool_batch C ivk sched calls =
     (if length calls \<le> 1 then
        (case calls of [] \<Rightarrow> retA [] | (n, a) # _ \<Rightarrow> bindA (ctx_tool C ivk n (Some a)) (\<lambda>r. retA [r]))
      else bindA (fork_scopes (length calls)) (\<lambda>stacks.
           bindA (run_calls (\<lambda>i. in_scope (stacks ! i) (ctx_tool C ivk (fst (calls ! i)) (Some (snd (calls ! i))))) sched) (\<lambda>done.
           let outcomes = List.map_filter (map_of done) [0..<length calls] in
           case first_error (raised outcomes) of Some e \<Rightarrow> raiseA e | None \<Rightarrow> retA (returned outcomes))))"

section \<open>Messages\<close>

definition tenant_of :: "('b, 'x) run_context \<Rightarrow> string" where
  "tenant_of C = (case rc_tenant C of None \<Rightarrow> ''default'' | Some t \<Rightarrow> if t = [] then ''default'' else t)"

definition deliver_to :: "('b, 'x) run_context \<Rightarrow> message \<Rightarrow> actor \<Rightarrow> delivery" where
  "deliver_to C msg who = \<lparr>dv_agent = who, dv_msg = msg, dv_tenant = tenant_of C, dv_accounts = []\<rparr>"

definition commit_with :: "('b, 'x) run_context \<Rightarrow> new_entry list \<Rightarrow> delivery list \<Rightarrow> ('b, 'x, unit) capability" where
  "commit_with C es ds = bindA (ctx_commit C (empty_commit\<lparr>cm_entries := es, cm_deliveries := ds\<rparr>)) (\<lambda>_. retA ())"

definition ctx_send :: "('b, 'x) run_context \<Rightarrow> actor \<Rightarrow> message \<Rightarrow> ('b, 'x, unit) capability" where
  "ctx_send C target msg =
     bindA (record_atomic (rc_host C) ''send'' (JObj [(''target'', JStr (actor_str target))]) (\<lambda>_ _.
       retA (JObj [(''target'', JStr (actor_str target))], \<lambda>es. commit_with C es [deliver_to C msg target])))
     (\<lambda>_. retA ())"

definition deliver_to_followers :: "('b, 'x) run_context \<Rightarrow> new_entry list \<Rightarrow> string \<Rightarrow> message \<Rightarrow> ('b, 'x, unit) capability" where
  "deliver_to_followers C es topic msg = bindA (storeA (followers_of topic)) (\<lambda>fs. commit_with C es (map (deliver_to C msg) fs))"

definition ctx_emit :: "('b, 'x) run_context \<Rightarrow> string \<Rightarrow> message \<Rightarrow> ('b, 'x, unit) capability" where
  "ctx_emit C topic msg =
     bindA (record_atomic (rc_host C) ''emit'' (JObj [(''topic'', JStr topic)]) (\<lambda>_ _.
       retA (JObj [(''topic'', JStr topic)], \<lambda>es. deliver_to_followers C es topic msg)))
     (\<lambda>_. retA ())"

definition ctx_reply :: "('b, 'x) run_context \<Rightarrow> message \<Rightarrow> json \<Rightarrow> ('b, 'x, unit) capability" where
  "ctx_reply C msg result = (case msg_reply_to msg of
       None \<Rightarrow> retA ()
     | Some rid \<Rightarrow> if rid = [] then retA ()
         else bindA (storeA (signalT rid (''reply:'' @ msg_correlation_id msg) result)) (\<lambda>_. retA ()))"

definition internal :: "('b, 'x) run_context \<Rightarrow> actor" where
  "internal C = Actor ''internal'' (rc_run C)"

definition ctx_follow :: "('b, 'x) run_context \<Rightarrow> string \<Rightarrow> ('b, 'x, unit) capability" where
  "ctx_follow C topic = storeA (follow (internal C) topic)"

definition ctx_unfollow :: "('b, 'x) run_context \<Rightarrow> string \<Rightarrow> ('b, 'x, unit) capability" where
  "ctx_unfollow C topic = storeA (unfollow (internal C) topic)"

end
