(* ===== verification/Context_Wait.thy ===== *)
theory Context_Wait
  imports Context_Talk
begin

text \<open>
  The handle, continued (\<open>runtime/context.py\<close>): channels, child runs, questions and sleep.
\<close>

section \<open>Channels\<close>

fun entry_kind_value :: "entry_kind \<Rightarrow> string" where
  "entry_kind_value MessageEntry = ''message''"
| "entry_kind_value SystemEntry = ''system''"
| "entry_kind_value EditEntry = ''edit''"
| "entry_kind_value ReactionEntry = ''reaction''"
| "entry_kind_value TombstoneEntry = ''tombstone''"

definition jopt_int :: "int option \<Rightarrow> json" where
  "jopt_int x = (case x of None \<Rightarrow> JNull | Some i \<Rightarrow> JInt i)"

definition jopt_time :: "seconds option \<Rightarrow> json" where
  "jopt_time x = (case x of None \<Rightarrow> JNull | Some t \<Rightarrow> JTime t)"

definition dump_actor :: "actor \<Rightarrow> json" where
  "dump_actor a = JObj [(''type'', JStr (actor_type a)), (''key'', JStr (actor_key a))]"

definition dump_channel_entry :: "channel_entry \<Rightarrow> json" where
  "dump_channel_entry e = JObj [(''channel'', JStr (ce_channel e)), (''seq'', JInt (ce_seq e)), (''id'', JStr (ce_id e)),
     (''sender'', dump_actor (ce_sender e)), (''kind'', JStr (entry_kind_value (ce_kind e))), (''text'', JStr (ce_text e)),
     (''mentions'', JList (map JStr (ce_mentions e))), (''reply_to'', jopt_int (ce_reply_to e)),
     (''caused_by'', jopt_str (ce_caused_by e)), (''cause_seq'', jopt_int (ce_cause_seq e)), (''depth'', JInt (ce_depth e)),
     (''data'', ce_data e), (''at'', JTime (ce_at e)), (''edited_at'', jopt_time (ce_edited_at e)),
     (''deleted_at'', jopt_time (ce_deleted_at e))]"

definition dump_append_result :: "append_result \<Rightarrow> json" where
  "dump_append_result r = JObj [(''seq'', jopt_int (ar_seq r)), (''id'', jopt_str (ar_id r)), (''stale'', JBool (ar_stale r)),
     (''paused'', JBool (ar_paused r)), (''latest'', JInt (ar_latest r)), (''woken'', JList (map dump_actor (ar_woken r)))]"

text \<open>\<open>post\<close>: the caller's arguments, with the agent, the run and the step's key put in.\<close>

definition own_post :: "('b, 'x) run_context \<Rightarrow> post \<Rightarrow> string option \<Rightarrow> post" where
  "own_post C p key = p\<lparr>po_sender := rc_agent C, po_caused_by := Some (rc_run C), po_kind := MessageEntry, po_dedup := key\<rparr>"

definition ctx_post :: "('b, 'x) run_context \<Rightarrow> string \<Rightarrow> post \<Rightarrow> ('b, 'x, json) capability" where
  "ctx_post C c p =
     bindA (effect (rc_host C) ''channel.post'' (JObj [(''channel'', JStr c), (''text'', JStr (po_text p))]) True
       (bindA (jquery jn_current) (\<lambda>key.
        bindA (storeA (channel_append (rc_env C) c (own_post C p key))) (\<lambda>(r, _). retA (dump_append_result r)))))
     (\<lambda>out. retA (so_value out))"

definition entries_value :: "channel_entry list \<Rightarrow> json" where
  "entries_value es = JObj [(''entries'', JList (map dump_channel_entry es))]"

definition ctx_recall_channel :: "('b, 'x) run_context \<Rightarrow> string \<Rightarrow> int \<Rightarrow> int \<Rightarrow> ('b, 'x, json) capability" where
  "ctx_recall_channel C c before limit =
     bindA (effect (rc_host C) ''channel.recall'' (JObj [(''channel'', JStr c), (''before'', JInt before)]) True
       (bindA (storeA (channel_read c (max (- 1) (before - limit - 1)) limit)) (\<lambda>es.
        retA (entries_value (filter (\<lambda>e. ce_seq e < before \<and> spoken (ce_kind e)) es)))))
     (\<lambda>out. value_at ''entries'' (so_value out))"

text \<open>The body of \<open>read_channel\<close>: what the agent has not read, and its cursor moved past it.\<close>

definition read_body :: "('b, 'x) run_context \<Rightarrow> string \<Rightarrow> int \<Rightarrow> ('b, 'x, json) capability" where
  "read_body C c limit =
     bindA (storeA (channel_members c)) (\<lambda>ms.
     let cursor = (case List.find (\<lambda>m. mem_agent m = rc_agent C) ms of None \<Rightarrow> - 1 | Some m \<Rightarrow> mem_cursor m) in
     bindA (storeA (channel_read c cursor limit)) (\<lambda>es.
     thenA (if es = [] then retA () else storeA (channel_mark_read c (rc_agent C) (ce_seq (last es))))
    (retA (entries_value (filter (\<lambda>e. spoken (ce_kind e)) es)))))"

definition ctx_read_channel :: "('b, 'x) run_context \<Rightarrow> string \<Rightarrow> int \<Rightarrow> ('b, 'x, json) capability" where
  "ctx_read_channel C c limit =
     bindA (effect (rc_host C) ''channel.read'' (JObj [(''channel'', JStr c)]) True (read_body C c limit))
     (\<lambda>out. value_at ''entries'' (so_value out))"

section \<open>Child runs\<close>

definition child_supervision :: "('b, 'x) run_context \<Rightarrow> actor \<Rightarrow> supervision option \<Rightarrow> ('b, 'x, supervision) capability" where
  "child_supervision C child given = (case given of
       Some sv \<Rightarrow> retA sv
     | None \<Rightarrow> (case rc_supervision C of
           Some sv \<Rightarrow> retA (spawn_child sv child RetainRun NORMAL None)
         | None \<Rightarrow> bindA (storeA (drawT (env_uuid (rc_env C)))) (\<lambda>tree.
             bindA (storeA (drawT (env_uuid (rc_env C)))) (\<lambda>session.
             retA (supervision_root tree session child None None None RetainPermanent NORMAL)))))"

definition child_spec ::
  "('b, 'x) run_context \<Rightarrow> actor \<Rightarrow> supervision \<Rightarrow> string \<Rightarrow> trace_context option \<Rightarrow> run_spec" where
  "child_spec C child sv rid trace = (basic_spec child (tenant_of C))\<lparr>rs_run_id := Some rid,
     rs_supervision := Some sv, rs_priority := sv_priority sv, rs_trace := trace\<rparr>"

definition boot_message :: "('b, 'x) run_context \<Rightarrow> message \<Rightarrow> string \<Rightarrow> message" where
  "boot_message C boot cid = boot\<lparr>msg_reply_to := Some (rc_run C), msg_correlation_id := cid\<rparr>"

definition spawn_build ::
  "('b, 'x) run_context \<Rightarrow> actor \<Rightarrow> message \<Rightarrow> supervision \<Rightarrow> string \<Rightarrow> string
     \<Rightarrow> ('b, 'x, json \<times> (new_entry list \<Rightarrow> ('b, 'x, unit) capability)) capability" where
  "spawn_build C child boot sv path eid =
     (let cid = rc_run C @ ''.'' @ path in
      bindA (storeA (drawT (env_uuid (rc_env C)))) (\<lambda>rid.
      bindA (trace_childA C) (\<lambda>trace.
      retA (JObj [(''run_id'', JStr rid), (''agent'', JStr (actor_str child)), (''correlation_id'', JStr cid)],
        \<lambda>es. bindA (ctx_commit C (empty_commit\<lparr>cm_entries := es,
            cm_spawns := [\<lparr>sw_effect_id = eid, sw_child = child_spec C child sv rid trace,
                           sw_boot = boot_message C boot cid\<rparr>]\<rparr>)) (\<lambda>_. retA ())))))"

definition addressA :: "string \<Rightarrow> ('s, exn, actor) act" where
  "addressA s = (case actor_from_str s of Inl e \<Rightarrow> raiseA (PyExn ''ValueError'' e) | Inr a \<Rightarrow> retA a)"

definition spawn_at :: "('b, 'x) run_context \<Rightarrow> actor \<Rightarrow> message \<Rightarrow> supervision option \<Rightarrow> ('b, 'x, run_handle) capability" where
  "spawn_at C child boot given =
     bindA (child_supervision C child given) (\<lambda>sv.
     bindA (record_atomic (rc_host C) ''spawn'' (JObj [(''agent'', JStr (actor_str child))]) (spawn_build C child boot sv)) (\<lambda>out.
     bindA (text_at ''run_id'' (so_value out)) (\<lambda>rid.
     bindA (bindA (text_at ''agent'' (so_value out)) addressA) (\<lambda>who.
     bindA (text_at ''correlation_id'' (so_value out)) (\<lambda>cid.
     retA \<lparr>rh_run_id = rid, rh_agent_id = who, rh_parent_run = rc_run C, rh_boot_correlation_id = Some cid\<rparr>)))))"

definition ctx_spawn :: "('b, 'x) run_context \<Rightarrow> actor \<Rightarrow> message \<Rightarrow> supervision option \<Rightarrow> ('b, 'x, run_handle) capability" where
  "ctx_spawn C child boot given = thenA (ctx_check C) (spawn_at C child boot given)"

definition root_key :: "('b, 'x) run_context \<Rightarrow> string" where
  "root_key C = (case rc_supervision C of None \<Rightarrow> rc_run C
     | Some sv \<Rightarrow> if actor_key (sv_root_id sv) \<noteq> [] then actor_key (sv_root_id sv) else actor_type (sv_root_id sv))"

definition child_address :: "('b, 'x) run_context \<Rightarrow> string \<Rightarrow> string \<Rightarrow> string + actor" where
  "child_address C ty path = mk_actor ty (root_key C @ ''/'' @ rc_run C @ ''.'' @ path)"

definition ctx_spawn_child :: "('b, 'x) run_context \<Rightarrow> string \<Rightarrow> message \<Rightarrow> supervision option \<Rightarrow> ('b, 'x, run_handle) capability" where
  "ctx_spawn_child C ty boot given = thenA (ctx_check C) (bindA (jquery peek_path) (\<lambda>path.
     case child_address C ty path of Inl e \<Rightarrow> raiseA (PyExn ''ValueError'' e) | Inr child \<Rightarrow> spawn_at C child boot given))"

text \<open>\<open>cancel\<close>: the walk of the tree may not end when the table holds a cycle of parents.\<close>

definition cancel_tx :: "env \<Rightarrow> string \<Rightarrow> string \<Rightarrow> (db \<Rightarrow> (exn + string list \<times> db) option)" where
  "cancel_tx E rid reason = request_cancel E rid reason True"

definition ctx_cancel :: "('b, 'x) run_context \<Rightarrow> run_handle \<Rightarrow> string \<Rightarrow> journal \<times> ('b, 'x) world \<Rightarrow> ((exn + unit) \<times> journal \<times> ('b, 'x) world) option" where
  "ctx_cancel C h reason s = (case cancel_tx (rc_env C) (rh_run_id h) reason (fst (snd s)) of
       None \<Rightarrow> None
     | Some (Inl e) \<Rightarrow> Some (Inl e, s)
     | Some (Inr (_, d)) \<Rightarrow> Some (Inr (), (fst s, d, snd (snd s))))"

record run_summary =
  rm_run_id :: string
  rm_status :: run_status
  rm_last_seq :: int
  rm_last_milestone :: "string option"

definition ctx_status :: "('b, 'x) run_context \<Rightarrow> run_handle \<Rightarrow> ('b, 'x, run_summary) capability" where
  "ctx_status C h =
     bindA (storeA (get_run (rh_run_id h))) (\<lambda>run.
     bindA (storeA (last_seqT (rh_run_id h))) (\<lambda>sq.
     bindA (if 0 \<le> sq then storeA (read_events (rh_run_id h) sq None False) else retA []) (\<lambda>es.
     retA \<lparr>rm_run_id = rh_run_id h, rm_status = (case run of None \<Rightarrow> PENDING | Some r \<Rightarrow> rr_status r), rm_last_seq = sq,
           rm_last_milestone = (if es = [] then None else Some (le_kind (last es)))\<rparr>)))"

section \<open>Waiting\<close>

record join_result =
  rz_run_id :: string
  rz_status :: run_status
  rz_output :: "json option"
  rz_error :: "string option"

definition suspendA :: "('b, 'x) run_context \<Rightarrow> wakeup \<Rightarrow> string \<Rightarrow> ('b, 'x, 'a) capability" where
  "suspendA C w reason = raiseA (SuspendInterrupt (rc_run C) w reason)"

definition wait_id :: "('b, 'x) run_context \<Rightarrow> string \<Rightarrow> json \<Rightarrow> ('b, 'x, string) capability" where
  "wait_id C kind args = bindA (peek (rc_host C) kind args) (\<lambda>(_, eid, _). retA eid)"

definition status_of_value :: "string \<Rightarrow> run_status option" where
  "status_of_value v = List.find (\<lambda>st. status_value st = v) [PENDING, RUNNING, SUSPENDED, COMPLETED, FAILED, CANCELLED]"

definition ctx_join :: "('b, 'x) run_context \<Rightarrow> run_handle \<Rightarrow> ('b, 'x, join_result) capability" where
  "ctx_join C h = thenA (ctx_check C) (
     let name = ''child:'' @ rh_run_id h in
     bindA (wait_id C ''join.wait'' (JObj [(''child_run'', JStr (rh_run_id h))])) (\<lambda>claim.
     bindA (storeA (consume (rc_run C) name claim)) (\<lambda>payload.
       case payload of
         None \<Rightarrow> suspendA C (signal_wakeup [name] None) (''join:'' @ rh_run_id h)
       | Some p \<Rightarrow>
           bindA (text_at ''status'' p) (\<lambda>v.
           case status_of_value v of
             None \<Rightarrow> raiseA (PyExn ''ValueError'' v)
           | Some st \<Rightarrow>
               thenA (commit_only C [entry ''join.completed'' (JObj [(''child_run'', JStr (rh_run_id h)),
                        (''status'', JStr (status_value st))]) (Some (''join:'' @ rh_run_id h))])
              (bindA (case jget ''error'' p of
                   Some (JObj e) \<Rightarrow> bindA (text_at ''message'' (JObj e)) (\<lambda>m. retA (Some m))
                 | _ \<Rightarrow> retA None) (\<lambda>err.
               retA \<lparr>rz_run_id = rh_run_id h, rz_status = st, rz_output = None, rz_error = err\<rparr>))))))"

definition ctx_sleep_until_signal :: "('b, 'x) run_context \<Rightarrow> string \<Rightarrow> ('b, 'x, json) capability" where
  "ctx_sleep_until_signal C name = thenA (ctx_check C) (
     bindA (wait_id C ''signal.wait'' (JObj [(''name'', JStr name)])) (\<lambda>claim.
     bindA (storeA (consume (rc_run C) name claim)) (\<lambda>payload.
       case payload of
         None \<Rightarrow> suspendA C (signal_wakeup [name] None) (''sleep_until_signal:'' @ name)
       | Some p \<Rightarrow>
           thenA (commit_only C [entry ''run.resumed'' (JObj [(''signal'', JStr name)]) (Some (''resumed:'' @ claim))])
          (retA p))))"

text \<open>\<open>isoformat\<close> prints an instant.\<close>

definition ctx_sleep_until :: "('b, 'x) run_context \<Rightarrow> (seconds \<Rightarrow> string) \<Rightarrow> seconds \<Rightarrow> ('b, 'x, unit) capability" where
  "ctx_sleep_until C isoformat due = thenA (ctx_check C) (bindA (clockA C) (\<lambda>now.
     if due \<le> now then retA () else suspendA C (timer_wakeup due) (''sleep_until:'' @ isoformat due)))"

section \<open>Questions\<close>

datatype ask_target = AskActor actor | AskHandle run_handle

record ask_outcome =
  ao_kind :: string
  ao_result :: "join_result option"
  ao_handle :: "run_handle option"

definition asked :: "('b, 'x) run_context \<Rightarrow> ask_target \<Rightarrow> ('b, 'x, run_handle) capability" where
  "asked C t = (case t of
       AskHandle h \<Rightarrow> retA h
     | AskActor a \<Rightarrow> bindA (storeA (drawT (env_uuid (rc_env C)))) (\<lambda>rid.
         retA \<lparr>rh_run_id = rid, rh_agent_id = a, rh_parent_run = rc_run C, rh_boot_correlation_id = None\<rparr>))"

definition boot_cid :: "ask_target \<Rightarrow> string option" where
  "boot_cid t = (case t of AskActor _ \<Rightarrow> None
     | AskHandle h \<Rightarrow> (case rh_boot_correlation_id h of None \<Rightarrow> None | Some c \<Rightarrow> if c = [] then None else Some c))"

text \<open>The question is sent, unless the target is a child that was booted with it.\<close>

definition ask_send :: "('b, 'x) run_context \<Rightarrow> actor \<Rightarrow> message \<Rightarrow> string \<Rightarrow> ('b, 'x, unit) capability" where
  "ask_send C who msg cid =
     bindA (record_atomic (rc_host C) ''ask.send'' (JObj [(''correlation_id'', JStr cid)]) (\<lambda>_ _.
       retA (JObj [], \<lambda>es. commit_with C
         (es @ [entry ''ask.sent'' (JObj [(''target'', JStr (actor_str who)), (''correlation_id'', JStr cid)]) (Some (''ask.sent:'' @ cid))])
         [deliver_to C (msg\<lparr>msg_reply_to := Some (rc_run C), msg_correlation_id := cid\<rparr>) who])))
     (\<lambda>_. retA ())"

definition ask_cid :: "('b, 'x) run_context \<Rightarrow> ask_target \<Rightarrow> actor \<Rightarrow> message \<Rightarrow> string option \<Rightarrow> ('b, 'x, string) capability" where
  "ask_cid C t who msg key = (case boot_cid t of
       Some c \<Rightarrow> retA c
     | None \<Rightarrow> bindA (jquery peek_path) (\<lambda>path.
         let cid = (if truthy_text key then the key else rc_run C @ ''.'' @ path) in
         thenA (ask_send C who msg cid) (retA cid)))"

definition ask_deadline :: "('b, 'x) run_context \<Rightarrow> string \<Rightarrow> seconds \<Rightarrow> ('b, 'x, seconds) capability" where
  "ask_deadline C cid timeout =
     bindA (record_atomic (rc_host C) ''ask.deadline'' (JObj [(''correlation_id'', JStr cid)]) (\<lambda>_ _.
       bindA (clockA C) (\<lambda>now. retA (JObj [(''deadline'', JTime (now + timeout))], commit_only C))))
     (\<lambda>out. time_at ''deadline'' (so_value out))"

fun first_signal :: "('b, 'x) run_context \<Rightarrow> string \<Rightarrow> string list \<Rightarrow> ('b, 'x, (string \<times> json) option) capability" where
  "first_signal C wid [] = retA None"
| "first_signal C wid (n # ns) = bindA (storeA (consume (rc_run C) n (wid @ '':'' @ n))) (\<lambda>payload.
     case payload of Some p \<Rightarrow> retA (Some (n, p)) | None \<Rightarrow> first_signal C wid ns)"

definition ask_over :: "('b, 'x) run_context \<Rightarrow> run_handle \<Rightarrow> string \<Rightarrow> string \<Rightarrow> ('b, 'x, ask_outcome) capability" where
  "ask_over C h cid kind =
     thenA (commit_only C [entry ''ask.timeout'' (JObj [(''correlation_id'', JStr cid), (''kind'', JStr kind)])
              (Some (''ask.timeout:'' @ cid))])
    (retA \<lparr>ao_kind = kind, ao_result = None, ao_handle = Some h\<rparr>)"

definition failed_kind :: "json \<Rightarrow> string" where
  "failed_kind p = (if jget ''kind'' p = Some (JStr ''target_cancelled'') then ''target_cancelled'' else ''target_failed'')"

definition ask_wait :: "('b, 'x) run_context \<Rightarrow> run_handle \<Rightarrow> string option \<Rightarrow> string \<Rightarrow> seconds \<Rightarrow> ('b, 'x, ask_outcome) capability" where
  "ask_wait C h child cid deadline =
     (let reply = ''reply:'' @ cid;
          names = [reply] @ (if truthy_text child then [''child:'' @ the child] else []) in
      bindA (wait_id C ''ask.wait'' (JObj [(''correlation_id'', JStr cid)])) (\<lambda>wid.
      bindA (first_signal C wid names) (\<lambda>got.
        case got of
          Some (n, p) \<Rightarrow>
            if n = reply then
              thenA (commit_only C [entry ''ask.replied'' (JObj [(''correlation_id'', JStr cid)]) (Some (''ask.replied:'' @ cid))])
             (retA \<lparr>ao_kind = ''replied'', ao_result = Some \<lparr>rz_run_id = (case child of None \<Rightarrow> [] | Some r \<Rightarrow> r),
                       rz_status = COMPLETED, rz_output = Some p, rz_error = None\<rparr>, ao_handle = None\<rparr>)
            else ask_over C h cid (failed_kind p)
        | None \<Rightarrow> bindA (clockA C) (\<lambda>now.
            if deadline \<le> now then ask_over C h cid ''timed_out''
            else suspendA C (signal_wakeup names (Some deadline)) (''ask:'' @ cid)))))"

definition ctx_ask ::
  "('b, 'x) run_context \<Rightarrow> ask_target \<Rightarrow> message \<Rightarrow> seconds \<Rightarrow> string option \<Rightarrow> ('b, 'x, ask_outcome) capability" where
  "ctx_ask C target msg timeout key = thenA (ctx_check C) (
     bindA (asked C target) (\<lambda>h.
     bindA (ask_cid C target (rh_agent_id h) msg key) (\<lambda>cid.
     bindA (ask_deadline C cid timeout) (\<lambda>deadline.
     ask_wait C h (case target of AskHandle h' \<Rightarrow> Some (rh_run_id h') | AskActor _ \<Rightarrow> None) cid deadline))))"

end
