(* ===== verification/Worker.thy ===== *)
theory Worker
  imports Context_Wait
begin

text \<open>
  The worker (\<open>runtime/worker.py\<close>, \<open>runtime/cancellation.py\<close>): one attempt at a leased run, from its
  log to the commit that ends it. The attempt's journal lives as long as the attempt; the world is what
  stays. The agent is an argument, and so is what other tasks of the worker do to it meanwhile: the
  reason it was told to stop with is read off the world when it is needed.
\<close>

section \<open>How a failure is recorded\<close>

definition crash_info :: "string \<Rightarrow> string \<Rightarrow> exn \<Rightarrow> error_info" where
  "crash_info rid agent e = mk_error ''agent_crashed'' (''['' @ agent @ '' in run '' @ rid @ ''] '' @ exn_text e) True"

definition classify_failure :: "exn \<Rightarrow> string \<Rightarrow> string \<Rightarrow> error_info \<times> bool" where
  "classify_failure e rid agent = (case e of
       KernelExn c msg _ \<Rightarrow>
         if is_subclass c MiddlewareTermination then (mk_error ''guardrail_tripped'' (''Request blocked: '' @ msg) False, False)
         else if is_subclass c BudgetExhaustedError then (mk_error ''budget_exhausted'' msg False, False)
         else (to_info c msg, class_retryable c)
     | _ \<Rightarrow> (crash_info rid agent e, True))"

text \<open>\<open>backoff\<close>; \<open>jitter\<close> is the factor drawn from 0.8 to 1.2, asked for only when there is a delay.\<close>

definition capped_delay :: "retry_policy \<Rightarrow> int \<Rightarrow> seconds" where
  "capped_delay p n = min (rp_backoff_s p * 2 ^ nat n) (rp_max_backoff_s p)"

definition backoff :: "retry_policy \<Rightarrow> int \<Rightarrow> rat \<Rightarrow> seconds" where
  "backoff p n jitter = (if capped_delay p n \<noteq> 0 then capped_delay p n * jitter else 0)"

section \<open>The cancellation token\<close>

text \<open>A callback is a child token's number; \<open>cancel\<close> returns the callbacks it calls.\<close>

record token =
  tk_cancelled :: bool
  tk_reason :: string
  tk_callbacks :: "nat list"

definition fresh_token :: token where
  "fresh_token = \<lparr>tk_cancelled = False, tk_reason = ''cancelled'', tk_callbacks = []\<rparr>"

definition cancel_token :: "string \<Rightarrow> token \<Rightarrow> token \<times> nat list" where
  "cancel_token reason t = (if tk_cancelled t then (t, [])
     else (t\<lparr>tk_cancelled := True, tk_reason := reason\<rparr>, tk_callbacks t))"

definition check_token :: "token \<Rightarrow> exn + unit" where
  "check_token t = (if tk_cancelled t then Inl (CancellationError (tk_reason t)) else Inr ())"

definition add_callback :: "nat \<Rightarrow> token \<Rightarrow> token \<times> nat list" where
  "add_callback c t = (if tk_cancelled t then (t, [c]) else (t\<lparr>tk_callbacks := tk_callbacks t @ [c]\<rparr>, []))"

section \<open>One attempt\<close>

record ('b, 'x) agent =
  ag_id :: actor
  ag_version :: string
  ag_run :: "message list \<Rightarrow> ('b, 'x, unit) capability"
  ag_history :: "(string \<Rightarrow> (('b, 'x) world, exn, unit) act) option"

text \<open>
  What the worker of an attempt brings: the reason the run's task was asked to stop with (empty when it
  was not) and the draw of \<open>random.uniform\<close>.
\<close>

record ('b, 'x) worker =
  wo_stop_reason :: "('b, 'x) world \<Rightarrow> string"
  wo_jitter :: "nat \<Rightarrow> rat"

definition storeW :: "'a dbtx \<Rightarrow> (('b, 'x) world, exn, 'a) act" where
  "storeW m = onA fst (\<lambda>d s. (d, snd s)) (txA m)"

definition deadline_of :: "lease \<Rightarrow> seconds option" where
  "deadline_of l = min_opt ((case ls_deadline l of None \<Rightarrow> [] | Some t \<Rightarrow> [t]) @
     (case (map_option sv_execution_budget (ls_supervision l), ls_started_at l) of
        (Some b, Some start) \<Rightarrow> (case eb_deadline_s b of None \<Rightarrow> [] | Some s \<Rightarrow> [start + s])
      | _ \<Rightarrow> []))"

definition drain_lease :: "lease \<Rightarrow> int \<Rightarrow> message list dbtx" where
  "drain_lease l limit = bindT (address (ls_agent l)) (\<lambda>who. drain who limit)"

definition ids_value :: "message list \<Rightarrow> json" where
  "ids_value ms = JObj [(''msg_ids'', JList (map (\<lambda>m. JStr (msg_id m)) ms))]"

definition text_items :: "json \<Rightarrow> string list" where
  "text_items v = (case v of JList js \<Rightarrow> List.map_filter (\<lambda>j. case j of JStr s \<Rightarrow> Some s | _ \<Rightarrow> None) js | _ \<Rightarrow> [])"

text \<open>\<open>[by_id[i] for i in ids if i in by_id]\<close>; of two messages with one id the later counts.\<close>

definition pick_messages :: "message list \<Rightarrow> string list \<Rightarrow> message list" where
  "pick_messages ms ids = List.map_filter (map_of (rev (map (\<lambda>m. (msg_id m, m)) ms))) ids"

text \<open>
  \<open>_journaled_drain\<close>. The inbox is read here before the step is identified, where the code reads it inside
  the step; reading changes nothing and identifying does not touch the store.
\<close>

definition journaled_drain :: "('b, 'x) run_context \<Rightarrow> ('b, 'x, message list) capability" where
  "journaled_drain C =
     bindA (storeA (drain_lease (rc_lease C) 100)) (\<lambda>fetched.
     bindA (record_atomic (rc_host C) ''inbox.drain'' (JObj []) (\<lambda>_ _. retA (ids_value fetched, commit_only C))) (\<lambda>out.
       if \<not> so_replayed out then retA fetched
       else bindA (storeA (drain_lease (rc_lease C) 1000)) (\<lambda>ms.
            bindA (value_at ''msg_ids'' (so_value out)) (\<lambda>ids. retA (pick_messages ms (text_items ids))))))"

definition was_started :: "run_log_entry list \<Rightarrow> bool" where
  "was_started es = list_ex (\<lambda>e. le_kind e = ''run.started'') es"

definition pinned_version :: "run_log_entry list \<Rightarrow> json option" where
  "pinned_version es = (case List.find (\<lambda>e. le_kind e = ''run.started'') es of None \<Rightarrow> None
     | Some e \<Rightarrow> (case jget ''agent_version'' (le_payload e) of Some JNull \<Rightarrow> None | v \<Rightarrow> v))"

definition version_error :: "lease \<Rightarrow> json \<Rightarrow> string \<Rightarrow> exn" where
  "version_error l pinned version = KernelExn NonDeterminismError
     (''run '' @ ls_run_id l @ '' was started by agent version '' @
      (case pinned of JStr s \<Rightarrow> quoted s | _ \<Rightarrow> ''?'') @ '' but this worker has '' @ quoted version @
      ''; replaying it could attach old results to new code'') None"

definition start_entry :: "lease \<Rightarrow> bool \<Rightarrow> string \<Rightarrow> new_entry" where
  "start_entry l before version = entry (if before then ''run.resumed'' else ''run.started'')
     (JObj [(''agent'', JStr (ls_agent l)), (''attempt'', JInt (ls_attempt l)), (''agent_version'', JStr version)])
     (Some (''lease:'' @ show_int (ls_epoch l)))"

text \<open>\<open>_clear_run_history\<close>: a failed deletion is logged and passed over.\<close>

fun clear_sessions :: "(string \<Rightarrow> (('b, 'x) world, exn, unit) act) \<Rightarrow> string list \<Rightarrow> (('b, 'x) world, exn, unit) act" where
  "clear_sessions del [] = retA ()"
| "clear_sessions del (s # ss) = thenA (suppressA (del s)) (clear_sessions del ss)"

definition sessions_of :: "string \<Rightarrow> message list \<Rightarrow> string list" where
  "sessions_of rid ms = (if ms = [] then [rid]
     else remdups (map (\<lambda>m. if msg_correlation_id m = [] then rid else msg_correlation_id m) ms))"

definition clear_history :: "('b, 'x) agent \<Rightarrow> string \<Rightarrow> message list \<Rightarrow> ('b, 'x, unit) capability" where
  "clear_history ag rid ms = (case ag_history ag of None \<Rightarrow> retA () | Some del \<Rightarrow> worldA (clear_sessions del (sessions_of rid ms)))"

definition finish_run :: "('b, 'x) run_context \<Rightarrow> ('b, 'x) agent \<Rightarrow> message list \<Rightarrow> ('b, 'x, unit) capability" where
  "finish_run C ag handled =
     bindA (ctx_commit C (empty_commit\<lparr>cm_ack := map msg_id handled, cm_outcome := Some (Final (Complete None))\<rparr>))
     (\<lambda>_. clear_history ag (rc_run C) handled)"

text \<open>What the task does once it has the journal.\<close>

definition drive :: "('b, 'x) run_context \<Rightarrow> ('b, 'x) agent \<Rightarrow> bool \<Rightarrow> ('b, 'x, unit) capability" where
  "drive C ag before =
     thenA (commit_only C [start_entry (rc_lease C) before (ag_version ag)])
    (bindA (journaled_drain C) (\<lambda>ms.
     thenA (ag_run ag ms) (finish_run C ag ms)))"

definition attempt_body :: "('b, 'x) run_context \<Rightarrow> ('b, 'x) agent \<Rightarrow> (('b, 'x) world, exn, unit) act" where
  "attempt_body C ag =
     bindA (storeW (read_events (rc_run C) 0 None True)) (\<lambda>es.
     case pinned_version es of
       Some v \<Rightarrow> if v \<noteq> JStr (ag_version ag) then raiseA (version_error (rc_lease C) v (ag_version ag))
                 else (\<lambda>w. case new_journal (rc_run C) es of Inl e \<Rightarrow> (Inl e, w)
                        | Inr j \<Rightarrow> (case drive C ag (was_started es) (j, w) of (r, s) \<Rightarrow> (r, snd s)))
     | None \<Rightarrow> (\<lambda>w. case new_journal (rc_run C) es of Inl e \<Rightarrow> (Inl e, w)
                | Inr j \<Rightarrow> (case drive C ag (was_started es) (j, w) of (r, s) \<Rightarrow> (r, snd s))))"

section \<open>How an attempt ends\<close>

definition is_lease_lost :: "exn \<Rightarrow> bool" where
  "is_lease_lost e = (case e of LeaseLostError _ _ \<Rightarrow> True | _ \<Rightarrow> False)"

definition commit_end :: "('b, 'x) run_context \<Rightarrow> commit \<Rightarrow> (('b, 'x) world, exn, unit) act" where
  "commit_end C c = catchA (bindA (storeW (commit_run (rc_env C) (rc_lease C) c)) (\<lambda>_. retA ()))
     (\<lambda>e. if is_lease_lost e then retA () else raiseA e)"

definition end_with :: "('b, 'x) run_context \<Rightarrow> outcome \<Rightarrow> (('b, 'x) world, exn, unit) act" where
  "end_with C out = commit_end C (empty_commit\<lparr>cm_outcome := Some out\<rparr>)"

definition deadline_info :: error_info where
  "deadline_info = mk_error ''deadline_exceeded'' ''the run's deadline passed'' False"

definition or_else :: "string \<Rightarrow> string \<Rightarrow> string" where
  "or_else a b = (if a \<noteq> [] then a else b)"

definition on_stop :: "('b, 'x) run_context \<Rightarrow> ('b, 'x) worker \<Rightarrow> exn \<Rightarrow> (('b, 'x) world, exn, string) act" where
  "on_stop C W stop = bindA (queryA (wo_stop_reason W)) (\<lambda>reason.
     if reason = ''lost'' then retA ''lost''
     else if stop = AsyncioCancelled \<and> reason = ''shutdown'' then raiseA stop
     else if reason = ''deadline'' \<or> contains_sub ''deadline'' (exn_text stop) then
       thenA (end_with C (Final (Fail deadline_info))) (retA ''failed'')
     else thenA (end_with C (Final (Cancel (or_else (or_else (removeprefix ''cancel:'' reason) (exn_text stop)) ''cancelled''))))
                (retA ''cancelled''))"

definition safe_drain :: "('b, 'x) run_context \<Rightarrow> (('b, 'x) world, exn, message list) act" where
  "safe_drain C = catchA (storeW (drain_lease (rc_lease C) 100)) (\<lambda>e. if is_exception e then retA [] else raiseA e)"

definition retry_after_of :: "exn \<Rightarrow> seconds option" where
  "retry_after_of e = (case e of KernelExn c _ hint \<Rightarrow> if is_subclass c RateLimitedError then hint else None | _ \<Rightarrow> None)"

definition retry_delay :: "exn \<Rightarrow> seconds \<Rightarrow> seconds" where
  "retry_delay e delay = (case retry_after_of e of None \<Rightarrow> delay | Some t \<Rightarrow> max delay t)"

definition jitterW :: "('b, 'x) worker \<Rightarrow> lease \<Rightarrow> (('b, 'x) world, exn, rat) act" where
  "jitterW W l = (if capped_delay (ls_retry_policy l) (ls_retry_count l) \<noteq> 0 then storeW (drawT (wo_jitter W)) else retA 1)"

definition on_failure :: "('b, 'x) run_context \<Rightarrow> ('b, 'x) worker \<Rightarrow> ('b, 'x) agent \<Rightarrow> exn \<Rightarrow> (('b, 'x) world, exn, string) act" where
  "on_failure C W ag e =
     (case classify_failure e (rc_run C) (actor_str (ag_id ag)) of (err, retryable) \<Rightarrow>
      bindA (safe_drain C) (\<lambda>mail.
        if retryable \<and> ls_retry_count (rc_lease C) < rp_max_retries (ls_retry_policy (rc_lease C)) then
          bindA (jitterW W (rc_lease C)) (\<lambda>u.
          thenA (end_with C (Retry err (retry_delay e (backoff (ls_retry_policy (rc_lease C)) (ls_retry_count (rc_lease C)) u))))
                (retA ''retrying''))
        else if retryable then
          thenA (commit_end C (empty_commit\<lparr>cm_nack := map (\<lambda>m. \<lparr>nk_msg_id = msg_id m, nk_error = err, nk_final = True\<rparr>) mail,
                   cm_outcome := Some (Final (Fail err))\<rparr>))
                (retA ''failed'')
        else
          thenA (commit_end C (empty_commit\<lparr>cm_ack := map msg_id mail, cm_outcome := Some (Final (Fail err))\<rparr>))
                (retA ''failed'')))"

definition is_stop :: "exn \<Rightarrow> bool" where
  "is_stop e = (case e of AsyncioCancelled \<Rightarrow> True | CancellationError _ \<Rightarrow> True | _ \<Rightarrow> False)"

text \<open>\<open>_run\<close>: how the attempt ended, or the exception that leaves the task.\<close>

definition run_attempt :: "('b, 'x) run_context \<Rightarrow> ('b, 'x) worker \<Rightarrow> ('b, 'x) agent \<Rightarrow> (('b, 'x) world, exn, string) act" where
  "run_attempt C W ag = catchA (thenA (attempt_body C ag) (retA ''completed'')) (\<lambda>e.
     case e of
       SuspendInterrupt _ w _ \<Rightarrow> thenA (end_with C (Suspend w)) (retA ''suspended'')
     | LeaseLostError _ _ \<Rightarrow> retA ''lost''
     | _ \<Rightarrow> if is_stop e then on_stop C W e else on_failure C W ag e)"

section \<open>The heartbeat\<close>

definition failures_before_lost :: nat where
  "failures_before_lost = 3"

definition stop_reason_of :: "heartbeat_result \<Rightarrow> string option" where
  "stop_reason_of r = (case r of HB_OK \<Rightarrow> None | HB_CANCEL_REQUESTED \<Rightarrow> Some ''cancel:cancel_requested''
     | HB_DEADLINE \<Rightarrow> Some ''deadline'' | HB_LOST \<Rightarrow> Some ''lost'')"

text \<open>The loop over what successive calls of the store's heartbeat gave; \<open>None\<close> is a call that raised.\<close>

fun watch :: "heartbeat_result option list \<Rightarrow> nat \<Rightarrow> string option" where
  "watch [] failures = None"
| "watch (None # bs) failures = (if Suc failures < failures_before_lost then watch bs (Suc failures) else stop_reason_of HB_LOST)"
| "watch (Some r # bs) failures = (case stop_reason_of r of None \<Rightarrow> watch bs 0 | Some reason \<Rightarrow> Some reason)"

definition heartbeat_interval :: "seconds \<Rightarrow> seconds" where
  "heartbeat_interval lease_s = max (lease_s / 3) (5/100)"

end
