(* ===== verification/Journal_Claims.thy ===== *)
theory Journal_Claims
  imports Journal_Store
begin

text \<open>
  What a run may rely on from its journal: a step that took effect is not run again, a step that returned
  is answered with its value, a step takes one position, and code that no longer matches its log is
  stopped.
\<close>

section \<open>Steps run once\<close>

lemma demo_log [simp]: "durable_log ''r'' demo_running = []"
  by code_simp

lemma demo_log_inv: "log_inv demo_running"
proof -
  have "events demo_running = []" by code_simp
  then show ?thesis by (simp add: log_inv_def)
qed

lemma charge_discreet: "discreet (\<lambda>w. durable_log rid (fst w)) (\<lambda>w. log_inv (fst w)) eid charge"
  by (auto simp: discreet_def charge_def)

lemma charge_whole: "all_or_nothing f charge"
  by (auto simp: all_or_nothing_def charge_def)

lemma charge_scoped: "scoped charge"
  by (auto simp: scoped_def moves_def charge_def same_scope_refl)

definition demo_start :: journal where
  "demo_start = blank_journal ''r''"

definition demo_after :: "(unit, nat) world" where
  "demo_after = snd (snd demo_first)"

definition demo_again :: journal where
  "demo_again = demo_journal (fst demo_after)"

lemma demo_start_place: "stack_of demo_start = [0]" "jn_run_id demo_start = ''r''" "peek_path demo_start = ''0''"
  by code_simp+

lemma demo_again_place: "stack_of demo_again = [0]" "jn_run_id demo_again = ''r''" "peek_path demo_again = ''0''"
  by code_simp+

lemma demo_start_fresh: "resumed [] eid demo_start"
  by (auto simp: resumed_def new_journal_run retT_def demo_start_def blank_journal_def)

lemma demo_first_run:
  "effect demo_host ''charge'' (JObj []) False charge (demo_start, demo_running, (), 0) =
     (Inr \<lparr>so_value = JInt 7, so_replayed = False, so_effect_id = step_id demo_host ''charge'' demo_start\<rparr>,
      (fst (snd demo_first), demo_after))"
  by code_simp

lemma demo_again_read: "new_journal ''r'' (durable_log ''r'' (fst demo_after)) = Inr demo_again"
  by code_simp

lemma demo_again_resumed: "resumed (durable_log ''r'' (fst demo_after)) eid demo_again"
  using demo_again_read demo_again_place(2) by (auto simp: resumed_def)

lemma demo_after_sound: "log_inv (fst demo_after)"
  by code_simp

text \<open>What is seen of a world: the durable log of a run, the store's invariant, and a count outside it.\<close>

abbreviation log_of :: "lease \<Rightarrow> ('b, 'x) world \<Rightarrow> run_log_entry list" where
  "log_of l w \<equiv> durable_log (ls_run_id l) (fst w)"

abbreviation sound :: "('b, 'x) world \<Rightarrow> bool" where
  "sound w \<equiv> log_inv (fst w)"

abbreviation seen :: "('x \<Rightarrow> nat) \<Rightarrow> ('b, 'x) world \<Rightarrow> nat" where
  "seen f w \<equiv> f (snd (snd w))"

lemma store_host_codec [simp]: "ho_codec (store_host E l B X dumps loads) = X"
  by (simp add: store_host_def)





text \<open>
  A step takes exactly one position of its scope, whether it is answered from the record, runs,
  raises, or is refused, and leaves the rest of the scope as it was; its body may run steps of its own.
\<close>

theorem step_takes_one_index:
  assumes "scoped fn" and "stack_of j \<noteq> []" and "effect H kind args idem fn (j, w) = (r, (j', w'))"
  shows "stack_of j' = bump 1 (stack_of j) \<and> same_scope j j'"
  using effect_place [OF assms(1,2), of H kind args idem w] assms(3) next_step_scope [OF assms(2)]
  by (auto simp: same_stack_def elim: same_scope_trans)

theorem step_takes_one_index_witness:
  "stack_of (fst (snd demo_first)) = [1] \<and> same_scope demo_start (fst (snd demo_first))"
  using step_takes_one_index [OF charge_scoped _ demo_first_run] demo_start_place(1)
  by (simp add: bump_def)

section \<open>Divergence\<close>

definition announces :: "string \<Rightarrow> string \<Rightarrow> string \<Rightarrow> run_log_entry \<Rightarrow> bool" where
  "announces path kind digest x \<longleftrightarrow> (\<exists>eid. (\<exists>idem. says (intent_entry eid path kind digest idem) x) \<or>
     (\<exists>sv. says (ok_entry eid path kind digest sv) x))"

lemma fold_announced:
  assumes "announces path kind digest x" and "fold_entry x j = Inr (u, j')"
  shows "map_of (jn_by_path j') path = Some (kind, digest)"
proof -
  have "wp (fold_entry x) (\<lambda>_ j'. map_of (jn_by_path j') path = Some (kind, digest)) j"
    using assms(1)
    by (auto simp: announces_def fold_entry_def fold_result_def fold_intent_def says_def ok_entry_def intent_entry_def entry_def
        text_field_def is_ok_def text_or_def jget_str_def)
  from wp_run [OF this assms(2)] show ?thesis .
qed

text \<open>
  C19. A run whose code asks, at a position its log has a step at, for a step of another kind or with other
  arguments, is stopped with NonDeterminismError before anything is done.
\<close>

theorem divergence_stops:
  assumes "new_journal rid (es @ [x] @ rest) = Inr j0" and "announces (peek_path k) kind digest x"
    and "\<forall>r \<in> set rest. \<not> at_path (peek_path k) r"
    and "map_of (jn_by_path k) (peek_path k) = map_of (jn_by_path j0) (peek_path k)" and "stack_of k \<noteq> []"
    and "(kind', args_digest (ho_codec H) args) \<noteq> (kind, digest)"
  shows "effect H kind' args idem fn (k, w) = (Inl (diverged (peek_path k) (kind, digest) kind'), (next_step k, w))"
proof -
  from assms(1) obtain a b where ab: "fold_entry x a = Inr ((), b)" "forT fold_entry rest b = Inr ((), j0)"
    unfolding new_journal_run forT_append by (auto simp: bind_run retT_def)
  have "map_of (jn_by_path k) (peek_path k) = Some (kind, digest)"
    using fold_announced [OF assms(2) ab(1)] fold_other_paths [OF ab(2) assms(3)] assms(4) by simp
  then show ?thesis using assms(5,6) by (auto simp: effect_run clash_def)
qed

theorem divergence_stops_witness:
  "effect demo_host ''refund'' (JObj []) False charge (demo_again, demo_after) =
     (Inl (diverged ''0'' (''charge'', ''}{'') ''refund''), (next_step demo_again, demo_after))"
proof -
  let ?es = "durable_log ''r'' (fst demo_after)"
  have read: "new_journal ''r'' ([hd ?es] @ [last ?es] @ []) = Inr demo_again" by code_simp
  have "says (ok_entry (step_id demo_host ''charge'' demo_start) ''0'' ''charge'' ''}{'' (''value'', JInt 7)) (last ?es)"
    by code_simp
  then have said: "announces (peek_path demo_again) ''charge'' ''}{'' (last ?es)"
    unfolding announces_def demo_again_place by blast
  have "effect demo_host ''refund'' (JObj []) False charge (demo_again, demo_after) =
     (Inl (diverged (peek_path demo_again) (''charge'', ''}{'') ''refund''), (next_step demo_again, demo_after))"
    by (rule divergence_stops [OF read said]) (simp_all add: demo_again_place)
  then show ?thesis by (simp add: demo_again_place)
qed

end
