(* ===== verification/Context_Claims.thy ===== *)
theory Context_Claims
  imports Context_Wait Journal_Claims
begin

text \<open>
  What an agent may rely on from its handle: model responses survive the journal, a budget stops a call
  before it is made and each call is charged once, children get addresses of their own, and a wait that
  was satisfied stays satisfied with the same answer.
\<close>

lemma storeA_run:
  "storeA m (j, d, b, x) = (case m d of Inl e \<Rightarrow> (Inl e, (j, d, b, x)) | Inr (a, d') \<Rightarrow> (Inr a, (j, d', b, x)))"
  by (simp add: storeA_def onA_def txA_def split: sum.splits prod.splits)

lemma storeA_query [simp]: "storeA (queryT q) (j, d, b, x) = (Inr (q d), (j, d, b, x))"
  by (simp add: storeA_run queryT_def)

lemma bindA_Inr [simp]: "m s = (Inr a, s') \<Longrightarrow> bindA m f s = f a s'"
  by (simp add: bindA_def)

lemma bindA_Inl [simp]: "m s = (Inl e, s') \<Longrightarrow> bindA m f s = (Inl e, s')"
  by (simp add: bindA_def)

section \<open>Model responses\<close>

lemma jget_opt_str [simp]: "jget_str k (JObj ((k, jopt_str x) # kvs)) = x"
  by (simp add: jget_str_def jopt_str_def split: option.splits)

lemma jget_str_skip [simp]: "k \<noteq> k' \<Longrightarrow> jget_str k (JObj ((k', v) # kvs)) = jget_str k (JObj kvs)"
  by (simp add: jget_str_def)

lemma jget_str_here [simp]: "jget_str k (JObj ((k, JStr v) # kvs)) = Some v"
  by (simp add: jget_str_def)

text \<open>
  A model's response that was written to the journal is read back as it was: its text, reasoning, calls and
  other blocks, its usage, its cost and how it finished.
\<close>

lemma parse_dump_blocks: "reads_bytes X \<Longrightarrow> \<forall>b\<in>set bs. valid_block b \<Longrightarrow> parse_blocks X (JList (map (dump_block X) bs)) = Inr bs"
  by (simp add: parse_blocks_def iterated_def sequence_map [unfolded map_map] parse_dump_block)

theorem response_survives:
  assumes "reads_bytes X" and "\<forall>b\<in>set (lr_content r). valid_block b" and "lr_finish_reason r \<in> set finish_reasons"
  shows "deserialize X (serialize X r) = Inr r"
  using assms
  by (simp add: deserialize_def serialize_def parse_dump_blocks parse_usage_def int_field_def parse_finish_def)

definition demo_response :: llm_response where
  "demo_response = \<lparr>lr_content = [ReasoningBlock ''hm'' None False, TextBlock ''hello''],
     lr_usage = \<lparr>us_input = 10, us_cached = 2, us_output = 5, us_reasoning = 1, us_cache_write = 0\<rparr>,
     lr_cost_usd = 1/100, lr_finish_reason = ''stop'', lr_response_id = None, lr_served_model = Some ''m''\<rparr>"

theorem response_survives_witness: "deserialize plain_codec (serialize plain_codec demo_response) = Inr demo_response"
  by (rule response_survives) (simp_all add: demo_response_def finish_reasons_def reads_bytes_def plain_codec_def)

text \<open>The result of a tool likewise.\<close>

lemma those_map: "\<forall>x\<in>set xs. f (g x) = Some x \<Longrightarrow> those (map f (map g xs)) = Some xs"
  by (induction xs) simp_all

lemma parse_dump_file: "parse_file X (dump_file f) = Some f"
  by (simp add: parse_file_def dump_file_def needed_def)

theorem invocation_survives:
  assumes "reads_bytes X" and "\<forall>m\<in>set (iv_media r). valid_block (MediaBlock m)"
    and "iv_status r \<in> set statuses" and "is_object (iv_structured r)"
  shows "load_invocation X (dump_invocation X r) = Inr r"
proof -
  have "those (map (parse_file X) (map dump_file (iv_files r))) = Some (iv_files r)" by (intro those_map) (simp add: parse_dump_file)
  moreover have "those (map (parse_media X) (map (dump_media X) (iv_media r))) = Some (iv_media r)"
    by (intro those_map ballI) (rule parse_dump_media [OF assms(1)], use assms(2) in blast)
  ultimately show ?thesis using assms(3,4)
    by (simp add: load_invocation_def dump_invocation_def needed_def having_def list_of_def)
qed

section \<open>Budgets\<close>

definition below_cap :: "bool \<Rightarrow> rat \<Rightarrow> rat option \<Rightarrow> bool" where
  "below_cap strict used cap \<longleftrightarrow> \<not> over_cap strict used cap"

definition tree_total :: "db \<Rightarrow> string \<Rightarrow> spend" where
  "tree_total d rid = (case tree_spend rid d of Inr (sp, _) \<Rightarrow> sp | Inl _ \<Rightarrow> no_spend)"

text \<open>
  A budget check passes exactly when no account of the run is exhausted and the whole tree's tokens,
  cost and turns are under the caps (at most the caps, after a call); otherwise it raises
  BudgetExhaustedError. It changes nothing either way.
\<close>

theorem budget_check:
  "snd (enforce_budget C strict (j, d, b, x)) = (j, d, b, x) \<and>
   (fst (enforce_budget C strict (j, d, b, x)) = Inr () \<longleftrightarrow>
      exhausted d (accounts_of_run d (rc_run C)) strict = None \<and>
      (case budget_of C of None \<Rightarrow> True | Some e \<Rightarrow>
         below_cap strict (of_int (sn_tokens (tree_total d (rc_run C)))) (map_option of_int (eb_max_tokens e)) \<and>
         below_cap strict (sn_cost_usd (tree_total d (rc_run C))) (eb_max_cost_usd e) \<and>
         below_cap strict (of_int (sn_turns (tree_total d (rc_run C)))) (map_option of_int (eb_max_turns e)))) \<and>
   (case fst (enforce_budget C strict (j, d, b, x)) of Inl err \<Rightarrow> \<exists>msg. err = KernelExn BudgetExhaustedError msg None | Inr _ \<Rightarrow> True)"
  by (auto simp: enforce_budget_def run_accounts_exhausted_def raiseA_def retA_def exhausted_error_def bindA_def
      storeA_run queryT_def tree_spend_def tree_total_def check_spend_def bounded_def below_cap_def over_cap_def
      split: option.splits)

text \<open>A commit of one entry that carries no cost leaves everything the budget is read from as it was.\<close>

definition same_books :: "db \<Rightarrow> db \<Rightarrow> bool" where
  "same_books s t \<longleftrightarrow> spends t = spends s \<and> accounts t = accounts s \<and> run_accounts t = run_accounts s \<and> runs t = runs s"

lemma commit_entry_books:
  assumes "plain e" and "ne_spend e = None" and "commit_run E l (empty_commit\<lparr>cm_entries := [e]\<rparr>) s = Inr (c, t)"
  shows "same_books s t"
proof -
  have "wp (commit_run E l (empty_commit\<lparr>cm_entries := [e]\<rparr>)) (\<lambda>_ t. same_books s t) s"
    using assms(1,2)
    by (auto simp: commit_run_def fenced_run_def commit_effects_def append_def ack_def drawT_def plain_def find_dedup_def
        empty_commit_def settle_outcome_def apply_outcome_def same_books_def split: option.splits)
  from wp_run [OF this assms(3)] show ?thesis .
qed

lemma budget_books:
  assumes "same_books d d'"
  shows "fst (enforce_budget C strict (j, d', b, x)) = fst (enforce_budget C strict (k, d, b', x'))"
proof -
  have "find_run d' = find_run d" using assms by (simp add: same_books_def find_run_def fun_eq_iff)
  moreover have "exhausted d' = exhausted d" using assms by (simp add: same_books_def exhausted_def fun_eq_iff)
  ultimately show ?thesis
    using assms
    by (auto simp: enforce_budget_def run_accounts_exhausted_def bindA_def storeA_run queryT_def accounts_of_run_def same_books_def
        tree_spend_def check_spend_def raiseA_def retA_def split: option.splits)
qed

lemma intent_free: "ne_spend (intent_entry e p k d i) = None"
  by (simp add: intent_entry_def entry_def)

lemma announce_books:
  assumes "announce_intent (store_host E l B X dumps loads) kind path eid digest idem (j, d, b, x) = (r, (j', d', b', x'))"
  shows "same_books d d'"
proof -
  have "same_books d d" by (simp add: same_books_def)
  moreover have "same_books d t" if "commit_run E l (empty_commit\<lparr>cm_entries := [intent_entry eid path kind digest idem]\<rparr>) d = Inr (c, t)" for c t
    using commit_entry_books [OF plain_entries(1) intent_free that] .
  ultimately show ?thesis
    using assms
    by (auto simp: announce_intent_def store_host_def commit_via_def act_simps bindT_def retT_def split: if_splits sum.splits prod.splits)
qed

lemma refused_body:
  assumes "fst (enforce_budget C False (j, d, b, x)) = Inl err" and "same_books d d'"
  shows "thenA (enforce_budget C False) m (k, d', b', x') = thenA (enforce_budget C False) m' (k, d', b', x')"
proof -
  have "fst (enforce_budget C False (k, d', b', x')) = Inl err" using budget_books [OF assms(2), where C = C and strict = False and j = k and b = b' and x = x' and k = j and b' = b and x' = x] assms(1)
    by simp
  then show ?thesis by (cases "enforce_budget C False (k, d', b', x')") (simp add: bindA_def)
qed

lemma bindA_same: "m s = m' s \<Longrightarrow> bindA m f s = bindA m' f s"
  by (simp add: bindA_def)

lemma call_body_same:
  "fn (j\<lparr>jn_current := Some eid\<rparr>, w) = fn' (j\<lparr>jn_current := Some eid\<rparr>, w) \<Longrightarrow> call_body H eid fn (j, w) = call_body H eid fn' (j, w)"
  by (simp add: call_body_def keyed_def act_simps)

lemma refused_run:
  assumes "H = store_host E l B X dumps loads" and "fst (enforce_budget C False (j, d, b, x)) = Inl err"
  shows "run_effect H kind path eid digest idem (thenA (enforce_budget C False) m) (k, d, b, x) =
    run_effect H kind path eid digest idem (thenA (enforce_budget C False) m') (k, d, b, x)"
proof -
  let ?f = "thenA (enforce_budget C False) m" and ?g = "thenA (enforce_budget C False) m'"
  have body: "call_body H eid ?f s1 = call_body H eid ?g s1"
    if "announce_intent H kind path eid digest idem (enter_scope k, d, b, x) = (Inr u, s1)" for u s1
  proof -
    obtain j' d' b' x' where s1: "s1 = (j', d', b', x')" by (cases s1)
    from that have "same_books d d'" unfolding s1 assms(1) by (rule announce_books)
    from refused_body [OF assms(2) this] show ?thesis unfolding s1 by (rule call_body_same)
  qed
  show ?thesis
    unfolding run_effect_def bindA_def [of "execA _"] execA_def finallyA_def
    by (cases "announce_intent H kind path eid digest idem (enter_scope k, d, b, x)")
      (auto simp: bindA_def body split: sum.splits)
qed

text \<open>
  A model call is not made once the budget is used up: when the check that comes before the call would
  fail in the state the call is asked for in, what the model would answer does not matter.
\<close>

theorem capped_call_not_made:
  assumes "rc_host C = store_host E l B X dumps loads" and "fst (enforce_budget C False (j, d, b, x)) = Inl err"
  shows "ctx_llm C client n generate (j, d, b, x) = ctx_llm C client n generate' (j, d, b, x)"
proof -
  have same: "effect (rc_host C) kind args idem (thenA (enforce_budget C False) m) (j, d, b, x) =
      effect (rc_host C) kind args idem (thenA (enforce_budget C False) m') (j, d, b, x)" for kind args idem m m'
  proof (cases "stack_of j = []")
    case True
    then show ?thesis by (simp add: effect_def begin_effect_def identify_def alloc_path_def act_simps)
  next
    case False
    show ?thesis
      using refused_run [OF assms] unfolding effect_run [OF False] by (auto split: option.splits)
  qed
  show ?thesis
    unfolding ctx_llm_def by (cases client) (simp, simp only: option.case, rule bindA_same, rule same)
qed

text \<open>A handle on the demonstration run; its agent has spent its allowance of no tokens at all.\<close>

definition demo_ctx :: "(unit, nat) run_context" where
  "demo_ctx = \<lparr>rc_env = demo_env, rc_lease = demo_lease, rc_host = demo_host, rc_tenant = Some ''t'', rc_supervision = None,
     rc_deadline = None, rc_trace = None, rc_cancelled = (\<lambda>_. None), rc_agent = helper, rc_agent_budget = None,
     rc_random = (\<lambda>_. 0), rc_money = (\<lambda>_. [])\<rparr>"

definition poor_ctx :: "(unit, nat) run_context" where
  "poor_ctx = demo_ctx\<lparr>rc_agent_budget := Some (unlimited_budget\<lparr>eb_max_tokens := Some 0\<rparr>)\<rparr>"

theorem capped_call_not_made_witness:
  "ctx_llm poor_ctx (Some ''m'') 1 (retA demo_response) (demo_start, demo_running, (), 0) =
   ctx_llm poor_ctx (Some ''m'') 1 (raiseA index_error) (demo_start, demo_running, (), 0)"
  by (rule capped_call_not_made [where E = demo_env and l = demo_lease and X = plain_codec and
        err = "exhausted_error ''Token budget exceeded: 0 >= 0''"])
    (simp add: poor_ctx_def demo_ctx_def demo_host_def, code_simp)

section \<open>Billing\<close>

lemma find_dedup_grows:
  "find_dedup s rid (Some k) = Some row \<Longrightarrow> events t = events s @ rows \<Longrightarrow> find_dedup t rid (Some k) = Some row"
  by (simp add: find_dedup_def find_append_Some)

lemma append_known: "find_dedup s rid (ne_dedup e) = Some row \<Longrightarrow> append E rid e s = Inr (ev_seq row, s)"
  by (simp add: append_def run_simps)

lemma append_keyed:
  assumes "append E rid e s = Inr (n, t)" and "ne_dedup e = Some k"
  shows "(\<exists>row. find_dedup t rid (Some k) = Some row) \<and> (\<exists>rows. events t = events s @ rows) \<and> runs t = runs s"
proof (cases "find_dedup s rid (Some k)")
  case (Some row)
  with assms show ?thesis using append_known [of s rid e row E] by auto
next
  case None
  let ?row = "log_row rid (last_seq s rid + 1) e (env_clock E (draws s))"
  from append_new [of s rid e E] None assms have t: "events t = events s @ [?row]" "runs t = runs s"
    by (auto simp: Let_def split: option.splits)
  have "List.find (\<lambda>x. ev_run_id x = rid \<and> ev_dedup x = Some k) (events s @ [?row]) = Some ?row"
    using None assms(2) by (intro find_snoc) (simp_all add: find_dedup_def log_row_def)
  with t show ?thesis by (auto simp: find_dedup_def)
qed

lemma append_all_keyed:
  assumes "mapT (append E rid) es s = Inr (ns, t)" and "\<forall>e \<in> set es. ne_dedup e \<noteq> None"
  shows "(\<forall>e \<in> set es. \<exists>row. find_dedup t rid (ne_dedup e) = Some row) \<and> (\<exists>rows. events t = events s @ rows) \<and> runs t = runs s"
  using assms
proof (induction es arbitrary: s ns)
  case Nil
  then show ?case by (simp add: retT_def)
next
  case (Cons e es)
  then obtain n u ms where run: "append E rid e s = Inr (n, u)" "mapT (append E rid) es u = Inr (ms, t)" "ne_dedup e \<noteq> None"
    by (auto simp: mapT_run simp del: mapT.simps)
  then obtain k where k: "ne_dedup e = Some k" by blast
  from append_keyed [OF run(1) k] obtain row rows where one: "find_dedup u rid (Some k) = Some row" "events u = events s @ rows"
    "runs u = runs s" by blast
  from Cons.IH [OF run(2)] Cons.prems(2) obtain rows' where rest: "\<forall>e \<in> set es. \<exists>row. find_dedup t rid (ne_dedup e) = Some row"
    "events t = events u @ rows'" "runs t = runs u" by auto
  from find_dedup_grows [OF one(1) rest(2)] rest one k show ?case by auto
qed

lemma append_all_known:
  "\<forall>e \<in> set es. \<exists>row. find_dedup s rid (ne_dedup e) = Some row \<Longrightarrow> \<exists>ns. mapT (append E rid) es s = Inr (ns, s)"
proof (induction es)
  case Nil
  then show ?case by (simp add: retT_def)
next
  case (Cons e es)
  then obtain row ns where "find_dedup s rid (ne_dedup e) = Some row" "mapT (append E rid) es s = Inr (ns, s)" by auto
  then show ?case by (auto simp: mapT_run append_known simp del: mapT.simps)
qed

text \<open>What a commit of entries alone does, apart from reading the clock once more.\<close>

lemma commit_entries_run:
  "commit_run E l (empty_commit\<lparr>cm_entries := es\<rparr>) s = (case find_run s (ls_run_id l) of
     None \<Rightarrow> Inl (LeaseLostError (ls_run_id l) (Some (ls_epoch l)))
   | Some run \<Rightarrow> if holds_lease l run then (case mapT (append E (ls_run_id l)) es s of Inl e \<Rightarrow> Inl e
       | Inr (ns, u) \<Rightarrow> Inr (\<lparr>cr_seqs = ns, cr_spawned = [], cr_deliveries = [], cr_resumed = False, cr_status = Some (rr_status run)\<rparr>,
            u\<lparr>draws := Suc (draws u)\<rparr>))
     else Inl (LeaseLostError (ls_run_id l) (Some (ls_epoch l))))"
proof (cases "find_run s (ls_run_id l)")
  case None
  then show ?thesis by (simp add: commit_run_def fenced_run_def run_simps)
next
  case (Some run)
  then have "rr_run_id run = ls_run_id l" by (auto dest: find_run_SomeD)
  with Some show ?thesis
    by (cases "mapT (append E (ls_run_id l)) es s")
      (auto simp: commit_run_def fenced_run_def commit_effects_def empty_commit_def settle_outcome_def apply_outcome_def
        ack_def drawT_def run_simps)
qed

text \<open>
  A model call is charged once. Its two entries are written on every replay, but once they are in the
  run's log, writing them again, even with other figures, charges nothing to the tree or to an account and
  adds nothing to the log.
\<close>

theorem call_charged_once:
  assumes "commit_only C (llm_entries model r eid) (j, d, b, x) = (Inr (), (j1, d1, b1, x1))"
    and "events d2 = events d1 @ rows"
    and "commit_only C (llm_entries model' r' eid) (k, d2, b2, x2) = (Inr (), (k3, d3, b3, x3))"
  shows "spends d3 = spends d2 \<and> accounts d3 = accounts d2 \<and> events d3 = events d2"
proof -
  let ?rid = "rc_run C"
  from assms(1) obtain ns u where first: "mapT (append (rc_env C) ?rid) (llm_entries model r eid) d = Inr (ns, u)" "events d1 = events u"
    by (auto simp: commit_only_def commit_entries_def ctx_commit_def storeA_run commit_entries_run bindA_def retA_def
        split: option.splits if_splits sum.splits prod.splits)
  have keyed: "\<forall>e \<in> set (llm_entries model r eid). ne_dedup e \<noteq> None" by (simp add: llm_entries_def entry_def)
  have keys: "map ne_dedup (llm_entries model' r' eid) = map ne_dedup (llm_entries model r eid)"
    by (simp add: llm_entries_def entry_def)
  have "\<forall>k \<in> set (map ne_dedup (llm_entries model r eid)). \<exists>row. find_dedup d2 ?rid k = Some row"
    using append_all_keyed [OF first(1) keyed] keyed first(2) assms(2) find_dedup_grows [of u ?rid _ _ d2 rows] by fastforce
  then have "\<forall>e \<in> set (llm_entries model' r' eid). \<exists>row. find_dedup d2 ?rid (ne_dedup e) = Some row"
    using keys by (metis (no_types, lifting) image_eqI list.set_map)
  from append_all_known [OF this, of "rc_env C"] obtain ms
    where "mapT (append (rc_env C) ?rid) (llm_entries model' r' eid) d2 = Inr (ms, d2)" by blast
  with assms(3) show ?thesis
    by (auto simp: commit_only_def commit_entries_def ctx_commit_def storeA_run commit_entries_run bindA_def retA_def
        split: option.splits if_splits sum.splits prod.splits)
qed

definition demo_billed :: db where
  "demo_billed = fst (snd (snd (commit_only demo_ctx (llm_entries ''m'' demo_response ''e'') (demo_start, demo_running, (), 0))))"

theorem call_charged_once_witness:
  "spends (fst (snd (snd (commit_only demo_ctx (llm_entries ''m'' (demo_response\<lparr>lr_cost_usd := 9\<rparr>) ''e'') (demo_start, demo_billed, (), 0)))))
   = spends demo_billed \<and> map sd_tokens (spends demo_billed) = [15]"
proof -
  have first: "commit_only demo_ctx (llm_entries ''m'' demo_response ''e'') (demo_start, demo_running, (), 0) =
      (Inr (), (demo_start, demo_billed, (), 0))"
    by code_simp
  let ?again = "commit_only demo_ctx (llm_entries ''m'' (demo_response\<lparr>lr_cost_usd := 9\<rparr>) ''e'') (demo_start, demo_billed, (), 0)"
  have again: "?again = (Inr (), (fst (snd ?again), fst (snd (snd ?again)), (), snd (snd (snd (snd ?again)))))"
    by code_simp
  have "map sd_tokens (spends demo_billed) = [15]" by code_simp
  with call_charged_once [OF first _ again, of "[]"] show ?thesis by simp
qed

section \<open>Children\<close>

text \<open>
  Children started by type never share an address: two calls in one tree give the same address only
  if they start the same type of agent from the same run at the same position.
\<close>

theorem child_addresses_apart:
  assumes "child_address C ty (path_text p) = Inr a" and "child_address C' ty' (path_text p') = Inr a"
    and "root_key C = root_key C'" and "p \<noteq> []" and "p' \<noteq> []"
    and "CHR ''.'' \<notin> set (rc_run C)" and "CHR ''.'' \<notin> set (rc_run C')"
  shows "ty = ty' \<and> rc_run C = rc_run C' \<and> p = p'"
proof -
  from assms(1,2,3) have "ty = ty'" and eq: "rc_run C @ ''.'' @ path_text p = rc_run C' @ ''.'' @ path_text p'"
    by (auto simp: child_address_def mk_actor_def split: if_splits)
  have "split_at CHR ''.'' (rc_run C @ CHR ''.'' # path_text p) = split_at CHR ''.'' (rc_run C' @ CHR ''.'' # path_text p')"
    using eq by simp
  then have "rc_run C = rc_run C'" using split_at_head [OF assms(6)] split_at_head [OF assms(7)] by simp
  moreover from this eq have "path_text p = path_text p'" by simp
  then have "p = p'" using read_path_text_inj assms(4,5) by blast
  ultimately show ?thesis using \<open>ty = ty'\<close> by simp
qed

theorem child_addresses_apart_witness:
  "child_address demo_ctx ''helper'' (path_text [1]) \<noteq> child_address demo_ctx ''helper'' (path_text [1, 0])"
proof -
  have "rc_run demo_ctx = ''r''" by code_simp
  then show ?thesis
    using child_addresses_apart [of demo_ctx "''helper''" "[1]" _ demo_ctx "''helper''" "[1, 0]"]
    by (auto simp: child_address_def mk_actor_def)
qed

text \<open>
  The supervision of a spawned child. A child of a supervised run joins the tree one level deeper with
  the same budget; but the agent it is recorded to report to is the child itself, not the run's own agent.
\<close>

theorem child_reports_to_itself:
  assumes "rc_supervision C = Some sv" and "child_supervision C child None s = (Inr csv, t)"
  shows "sv_run_id csv = sv_run_id sv \<and> sv_root_id csv = sv_root_id sv \<and> sv_depth csv = sv_depth sv + 1 \<and>
    sv_execution_budget csv = sv_execution_budget sv \<and> sv_max_agents csv = sv_max_agents sv \<and>
    sv_parent_id csv = Some child \<and> t = s"
  using assms by (auto simp: child_supervision_def spawn_child_def retA_def)

definition demo_supervision :: supervision where
  "demo_supervision = supervision_root ''tree'' ''session'' helper None None None RetainPermanent NORMAL"

theorem child_reports_to_itself_witness:
  "sv_parent_id (spawn_child demo_supervision (Actor ''kid'' ''k'') RetainRun NORMAL None) = Some (Actor ''kid'' ''k'')"
  using child_reports_to_itself [of "demo_ctx\<lparr>rc_supervision := Some demo_supervision\<rparr>" demo_supervision "Actor ''kid'' ''k''"
      "(demo_start, demo_running, (), 0)"]
  by (simp add: child_supervision_def retA_def)

end
