(* ===== verification/Context_Waits.thy ===== *)
theory Context_Waits
  imports Context_Claims Channel_Posts
begin

text \<open>
  Waits: a satisfied wait stays satisfied. The two that do not have this property, a question whose time
  has run out and the reading of a channel, are shown on concrete runs.
\<close>

section \<open>Waiting for a signal\<close>

lemma peek_run:
  assumes "stack_of j \<noteq> []" and "\<not> clash H kind args j"
  obtains v where "peek H kind args (j, w) = (Inr (peek_path j, step_id H kind j, v), (next_step j, w))"
  using assms by (simp add: peek_def bindA_def identify_run queryA_def retA_def)

lemma wait_id_run:
  assumes "stack_of j \<noteq> []"
  shows "wait_id C kind args (j, w) =
    (if clash (rc_host C) kind args j
     then (Inl (diverged (peek_path j) (the (map_of (jn_by_path j) (peek_path j))) kind), (next_step j, w))
     else (Inr (step_id (rc_host C) kind j), (next_step j, w)))"
  using assms by (simp add: wait_id_def peek_def bindA_def identify_run queryA_def retA_def)

definition claimed :: "db \<Rightarrow> string \<Rightarrow> json option" where
  "claimed d cid = map_option cl_payload (List.find (\<lambda>c. cl_claim_id c = cid) (claims d))"

lemma claimed_grows: "claimed d cid = Some p \<Longrightarrow> claims d' = claims d @ cs \<Longrightarrow> claimed d' cid = Some p"
  by (auto simp: claimed_def find_append_Some)

lemma consume_claimed: "claimed d cid = Some p \<Longrightarrow> consume rid name cid d = Inr (Some p, d)"
  by (auto simp: claimed_def consume_def run_simps)

lemma consume_claims: "consume rid name cid d = Inr (Some p, t) \<Longrightarrow> claimed t cid = Some p"
  by (auto simp: claimed_def consume_def run_simps find_snoc split: option.splits)

lemma append_total: "\<exists>n t. append E rid e s = Inr (n, t) \<and> claims t = claims s"
  by (auto simp: append_def drawT_def run_simps add_spend_def Let_def split: option.splits)

lemma append_all_total: "\<exists>ns t. mapT (append E rid) es s = Inr (ns, t) \<and> claims t = claims s"
proof (induction es arbitrary: s)
  case Nil
  then show ?case by (simp add: retT_def)
next
  case (Cons e es)
  obtain n u where "append E rid e s = Inr (n, u)" "claims u = claims s" using append_total by blast
  moreover obtain ns t where "mapT (append E rid) es u = Inr (ns, t)" "claims t = claims u" using Cons.IH by blast
  ultimately show ?case by (auto simp: mapT_run simp del: mapT.simps)
qed

text \<open>A commit of entries: the lease is lost, or they are written and no claim changes.\<close>

definition lost_lease :: "('b, 'x) run_context \<Rightarrow> exn" where
  "lost_lease C = LeaseLostError (rc_run C) (Some (ls_epoch (rc_lease C)))"

lemma commit_only_run:
  assumes "mapT (append (rc_env C) (rc_run C)) es d = Inr (ns, t)"
  shows "commit_only C es (j, d, b, x) = (if \<exists>run. find_run d (rc_run C) = Some run \<and> holds_lease (rc_lease C) run
    then (Inr (), (j, t\<lparr>draws := Suc (draws t)\<rparr>, b, x)) else (Inl (lost_lease C), (j, d, b, x)))"
  using assms
  by (simp add: commit_only_def commit_entries_def ctx_commit_def storeA_run commit_entries_run bindA_def retA_def lost_lease_def
      split: option.split)

lemma commit_only_cases:
  "commit_only C es (j, d, b, x) = (Inl (lost_lease C), (j, d, b, x)) \<or>
   (\<exists>d'. commit_only C es (j, d, b, x) = (Inr (), (j, d', b, x)) \<and> claims d' = claims d)"
proof -
  obtain ns t where run: "mapT (append (rc_env C) (rc_run C)) es d = Inr (ns, t)" "claims t = claims d"
    using append_all_total by blast
  show ?thesis unfolding commit_only_run [OF run(1)] using run(2) by auto
qed

lemma clockA_run: "clockA C (j, d, b, x) = (Inr (env_clock (rc_env C) (draws d)), (j, d\<lparr>draws := Suc (draws d)\<rparr>, b, x))"
  by (simp add: clockA_def storeA_run drawT_def run_simps)

lemma check_cases:
  "(\<exists>reason d'. ctx_check C (j, d, b, x) = (Inl (CancellationError reason), (j, d', b, x))) \<or>
   (\<exists>d'. ctx_check C (j, d, b, x) = (Inr (), (j, d', b, x)) \<and> claims d' = claims d)"
proof (cases "rc_cancelled C (d, b, x)")
  case (Some r)
  then show ?thesis by (simp add: ctx_check_def bindA_def queryA_def raiseA_def)
next
  case None
  then show ?thesis
    by (cases "rc_deadline C") (simp_all add: ctx_check_def bindA_def queryA_def raiseA_def retA_def clockA_run)
qed

lemma signal_wait_run:
  assumes "stack_of j \<noteq> []" and "ctx_check C (j, d, b, x) = (Inr (), (j, d', b, x))"
  shows "ctx_sleep_until_signal C name (j, d, b, x) =
    (if clash (rc_host C) ''signal.wait'' (JObj [(''name'', JStr name)]) j
     then (Inl (diverged (peek_path j) (the (map_of (jn_by_path j) (peek_path j))) ''signal.wait''), (next_step j, d', b, x))
     else (case consume (rc_run C) name (step_id (rc_host C) ''signal.wait'' j) d' of
         Inl e \<Rightarrow> (Inl e, (next_step j, d', b, x))
       | Inr (None, t) \<Rightarrow> (Inl (SuspendInterrupt (rc_run C) (signal_wakeup [name] None) (''sleep_until_signal:'' @ name)), (next_step j, t, b, x))
       | Inr (Some p, t) \<Rightarrow> thenA (commit_only C [entry ''run.resumed'' (JObj [(''signal'', JStr name)])
             (Some (''resumed:'' @ step_id (rc_host C) ''signal.wait'' j))]) (retA p) (next_step j, t, b, x)))"
proof (cases "clash (rc_host C) ''signal.wait'' (JObj [(''name'', JStr name)]) j")
  case True
  then show ?thesis by (simp add: ctx_sleep_until_signal_def assms(2) wait_id_run [OF assms(1)])
next
  case False
  let ?cid = "step_id (rc_host C) ''signal.wait'' j"
  have wait: "wait_id C ''signal.wait'' (JObj [(''name'', JStr name)]) (j, d', b, x) = (Inr ?cid, (next_step j, d', b, x))"
    using False by (simp add: wait_id_run [OF assms(1)])
  show ?thesis
  proof (cases "consume (rc_run C) name ?cid d'")
    case (Inl e)
    then show ?thesis using False by (simp add: ctx_sleep_until_signal_def assms(2) wait storeA_run)
  next
    case (Inr pt)
    then show ?thesis using False
      by (cases pt; cases "fst pt") (simp_all add: ctx_sleep_until_signal_def assms(2) wait storeA_run suspendA_def raiseA_def)
  qed
qed

text \<open>
  A wait for a signal that returned returns the same payload on every later replay, whatever signals
  arrive in between: it may be stopped, but it does not suspend again and does not see another payload.
\<close>

theorem signal_wait_stable:
  assumes "stack_of j \<noteq> []" and "ctx_sleep_until_signal C name (j, d, b, x) = (Inr p, (j1, d1, b1, x1))"
    and "claims d2 = claims d1 @ later"
    and "stack_of k \<noteq> []" and "step_id (rc_host C') ''signal.wait'' k = step_id (rc_host C) ''signal.wait'' j"
  shows "case fst (ctx_sleep_until_signal C' name' (k, d2, b2, x2)) of Inr q \<Rightarrow> q = p
    | Inl e \<Rightarrow> (\<forall>rid w reason. e \<noteq> SuspendInterrupt rid w reason)"
proof -
  let ?cid = "step_id (rc_host C) ''signal.wait'' j"
  have "claimed d1 ?cid = Some p"
    using check_cases [of C j d b x]
  proof
    assume "\<exists>reason d'. ctx_check C (j, d, b, x) = (Inl (CancellationError reason), (j, d', b, x))"
    with assms(2) show ?thesis by (auto simp: ctx_sleep_until_signal_def)
  next
    assume "\<exists>d'. ctx_check C (j, d, b, x) = (Inr (), (j, d', b, x)) \<and> claims d' = claims d"
    then obtain d' where check: "ctx_check C (j, d, b, x) = (Inr (), (j, d', b, x))" by blast
    from assms(2) obtain t where t: "consume (rc_run C) name ?cid d' = Inr (Some p, t)"
      and rest: "thenA (commit_only C [entry ''run.resumed'' (JObj [(''signal'', JStr name)]) (Some (''resumed:'' @ ?cid))])
         (retA p) (next_step j, t, b, x) = (Inr p, (j1, d1, b1, x1))"
      unfolding signal_wait_run [OF assms(1) check]
      by (auto simp: bindA_def retA_def split: if_splits sum.splits prod.splits option.splits)
    have "claims d1 = claims t"
      using commit_only_cases [of C "[entry ''run.resumed'' (JObj [(''signal'', JStr name)]) (Some (''resumed:'' @ ?cid))]" "next_step j" t b x] rest
      by (auto simp: retA_def)
    with consume_claims [OF t] show ?thesis by (simp add: claimed_def)
  qed
  then have known: "claimed d2 ?cid = Some p" by (rule claimed_grows) (rule assms(3))
  show ?thesis
    using check_cases [of C' k d2 b2 x2]
  proof
    assume "\<exists>reason d'. ctx_check C' (k, d2, b2, x2) = (Inl (CancellationError reason), (k, d', b2, x2))"
    then show ?thesis by (auto simp: ctx_sleep_until_signal_def)
  next
    assume "\<exists>d'. ctx_check C' (k, d2, b2, x2) = (Inr (), (k, d', b2, x2)) \<and> claims d' = claims d2"
    then obtain d' where check: "ctx_check C' (k, d2, b2, x2) = (Inr (), (k, d', b2, x2))" and "claims d' = claims d2" by blast
    then have again: "consume (rc_run C') name' (step_id (rc_host C') ''signal.wait'' k) d' = Inr (Some p, d')"
      using known by (simp add: assms(5) consume_claimed claimed_def)
    show ?thesis
      unfolding signal_wait_run [OF assms(4) check] again
      using commit_only_cases [of C' "[entry ''run.resumed'' (JObj [(''signal'', JStr name')])
          (Some (''resumed:'' @ step_id (rc_host C') ''signal.wait'' k))]" "next_step k" d' b2 x2]
      by (auto simp: retA_def lost_lease_def diverged_def)
  qed
qed

definition demo_woken :: "(exn + json) \<times> journal \<times> (unit, nat) world" where
  "demo_woken = ctx_sleep_until_signal demo_ctx ''go'' (demo_start, demo_signalled, (), 0)"

theorem signal_wait_stable_witness:
  "fst (ctx_sleep_until_signal demo_ctx ''go'' (demo_start, fst (snd (snd demo_woken)), (), 0)) = Inr (JStr ''yes'')"
proof -
  have first: "ctx_sleep_until_signal demo_ctx ''go'' (demo_start, demo_signalled, (), 0) =
      (Inr (JStr ''yes''), (fst (snd demo_woken), fst (snd (snd demo_woken)), (), snd (snd (snd (snd demo_woken)))))"
    by code_simp
  have "\<exists>q. fst (ctx_sleep_until_signal demo_ctx ''go'' (demo_start, fst (snd (snd demo_woken)), (), 0)) = Inr q"
  proof -
    have "map_sum id (\<lambda>_. ()) (fst (ctx_sleep_until_signal demo_ctx ''go'' (demo_start, fst (snd (snd demo_woken)), (), 0))) = Inr ()"
      by code_simp
    then show ?thesis by (cases "fst (ctx_sleep_until_signal demo_ctx ''go'' (demo_start, fst (snd (snd demo_woken)), (), 0))") auto
  qed
  with signal_wait_stable [OF _ first, of "fst (snd (snd demo_woken))" "[]" demo_start demo_ctx "''go''" "()" 0] show ?thesis
    by (auto simp: demo_start_place)
qed

section \<open>Questions\<close>

text \<open>The demonstration run asks the helper and gives it no time; the answer arrives after that.\<close>

definition demo_asked :: "(exn + ask_outcome) \<times> journal \<times> (unit, nat) world" where
  "demo_asked = ctx_ask demo_ctx (AskActor helper) (letter ''q'') 0 None (demo_start, demo_running, (), 0)"

definition demo_late_reply :: db where
  "demo_late_reply = after (signalT ''r'' ''reply:r.0'' (JStr ''yes'')) (fst (snd (snd demo_asked)))"

definition demo_asked_again :: "(exn + ask_outcome) \<times> journal \<times> (unit, nat) world" where
  "demo_asked_again = ctx_ask demo_ctx (AskActor helper) (letter ''q'') 0 None
     (demo_journal demo_late_reply, demo_late_reply, (), 0)"

text \<open>
  A question does not keep its outcome. It returns timed_out and records it, yet when a reply arrives
  later, a replay of the same call, with a journal read from that record, returns replied: the code after
  the question runs on with another answer than the one it acted on.
\<close>

theorem ask_changes_its_outcome:
  "map_sum id ao_kind (fst demo_asked) = Inr ''timed_out'' \<and> map_sum id ao_kind (fst demo_asked_again) = Inr ''replied'' \<and>
   list_ex (\<lambda>e. le_kind e = ''ask.timeout'') (durable_log ''r'' demo_late_reply)"
proof (intro conjI)
  show "map_sum id ao_kind (fst demo_asked) = Inr ''timed_out''" by code_simp
  show "map_sum id ao_kind (fst demo_asked_again) = Inr ''replied''" by code_simp
  show "list_ex (\<lambda>e. le_kind e = ''ask.timeout'') (durable_log ''r'' demo_late_reply)" by code_simp
qed

text \<open>
  A child that completed without replying is reported to whoever asks it as target_failed, the outcome
  that stands for a worker that died and is documented as safe to retry.
\<close>

theorem completed_child_looks_failed:
  assumes "stack_of j \<noteq> []" and "\<not> clash (rc_host C) ''ask.wait'' (JObj [(''correlation_id'', JStr cid)]) j" and "child \<noteq> []"
    and "consume (rc_run C) (''reply:'' @ cid) (step_id (rc_host C) ''ask.wait'' j @ '':reply:'' @ cid) d = Inr (None, d)"
    and "consume (rc_run C) (''child:'' @ child) (step_id (rc_host C) ''ask.wait'' j @ '':child:'' @ child) d =
           Inr (Some (child_payload (Complete res)), t)"
  shows "case fst (ask_wait C h (Some child) cid deadline (j, d, b, x)) of
      Inr out \<Rightarrow> ao_kind out = ''target_failed'' \<and> ao_handle out = Some h | Inl e \<Rightarrow> e = lost_lease C"
proof -
  have wait: "wait_id C ''ask.wait'' (JObj [(''correlation_id'', JStr cid)]) (j, d, b, x) =
      (Inr (step_id (rc_host C) ''ask.wait'' j), (next_step j, d, b, x))"
    using assms(1,2) by (simp add: wait_id_run)
  have got: "first_signal C (step_id (rc_host C) ''ask.wait'' j) [''reply:'' @ cid, ''child:'' @ child] (next_step j, d, b, x) =
      (Inr (Some (''child:'' @ child, child_payload (Complete res))), (next_step j, t, b, x))"
    using assms(4,5) by (simp add: storeA_run retA_def)
  have kind: "failed_kind (child_payload (Complete res)) = ''target_failed''"
    by (simp add: failed_kind_def child_payload_def)
  have run: "ask_wait C h (Some child) cid deadline (j, d, b, x) = ask_over C h cid ''target_failed'' (next_step j, t, b, x)"
    using assms(3) wait got kind by (simp add: ask_wait_def Let_def truthy_text_def)
  show ?thesis
    unfolding run ask_over_def
    using commit_only_cases [of C "[entry ''ask.timeout'' (JObj [(''correlation_id'', JStr cid), (''kind'', JStr ''target_failed'')])
        (Some (''ask.timeout:'' @ cid))]" "next_step j" t b x]
    by (auto simp: retA_def)
qed

definition demo_child_done :: db where
  "demo_child_done = after (signalT ''r'' ''child:c'' (child_payload (Complete None))) demo_running"

definition demo_handle :: run_handle where
  "demo_handle = \<lparr>rh_run_id = ''c'', rh_agent_id = helper, rh_parent_run = ''r'', rh_boot_correlation_id = Some ''q''\<rparr>"

theorem completed_child_looks_failed_witness:
  "case fst (ask_wait demo_ctx demo_handle (Some ''c'') ''q'' 0 (demo_start, demo_child_done, (), 0)) of
     Inr out \<Rightarrow> ao_kind out = ''target_failed'' \<and> ao_handle out = Some demo_handle | Inl e \<Rightarrow> e = lost_lease demo_ctx"
proof (rule completed_child_looks_failed)
  have facts: "rc_run demo_ctx = ''r''" "claims demo_child_done = []"
    "List.find (\<lambda>g. sg_run_id g = ''r'' \<and> sg_name g = ''reply:q'') (signals demo_child_done) = None"
    "map_option sg_payload (List.find (\<lambda>g. sg_run_id g = ''r'' \<and> sg_name g = ''child:c'') (signals demo_child_done)) =
       Some (child_payload (Complete None))"
    by code_simp+
  show "stack_of demo_start \<noteq> []" by (simp add: demo_start_place)
  show "\<not> clash (rc_host demo_ctx) ''ask.wait'' (JObj [(''correlation_id'', JStr ''q'')]) demo_start"
    by (simp add: clash_def demo_start_def blank_journal_def)
  show "consume (rc_run demo_ctx) (''reply:'' @ ''q'') (step_id (rc_host demo_ctx) ''ask.wait'' demo_start @ '':reply:'' @ ''q'') demo_child_done
      = Inr (None, demo_child_done)"
    using facts by (simp add: consume_def run_simps)
  let ?t = "demo_child_done\<lparr>signals := delete_where (\<lambda>y. sg_id y =
        sg_id (the (List.find (\<lambda>g. sg_run_id g = ''r'' \<and> sg_name g = ''child:c'') (signals demo_child_done)))) (signals demo_child_done),
      claims := [\<lparr>cl_claim_id = step_id (rc_host demo_ctx) ''ask.wait'' demo_start @ '':child:c'', cl_payload = child_payload (Complete None)\<rparr>]\<rparr>"
  show "consume (rc_run demo_ctx) (''child:'' @ ''c'') (step_id (rc_host demo_ctx) ''ask.wait'' demo_start @ '':child:'' @ ''c'') demo_child_done
      = Inr (Some (child_payload (Complete None)), ?t)"
    using facts by (auto simp: consume_def run_simps)
qed simp

section \<open>Channels\<close>

definition first_read :: "(exn + json) \<times> journal \<times> (unit, nat) world" where
  "first_read = read_body demo_ctx ''room'' 200 (demo_start, demo_channel, (), 0)"

definition second_read :: "(exn + json) \<times> journal \<times> (unit, nat) world" where
  "second_read = read_body demo_ctx ''room'' 200 (snd first_read)"

text \<open>
  Reading a channel is journaled as a step that may run twice, but its body moves the reader's cursor:
  when the worker dies between the two, the second run of the body finds nothing and the message the first
  one read is never seen by the agent.
\<close>

theorem read_again_loses:
  "map_sum id (map_option (\<lambda>v. v = JList []) \<circ> jget ''entries'') (fst first_read) = Inr (Some False) \<and>
   map_sum id (map_option (\<lambda>v. v = JList []) \<circ> jget ''entries'') (fst second_read) = Inr (Some True)"
proof (intro conjI)
  show "map_sum id (map_option (\<lambda>v. v = JList []) \<circ> jget ''entries'') (fst first_read) = Inr (Some False)" by code_simp
  show "map_sum id (map_option (\<lambda>v. v = JList []) \<circ> jget ''entries'') (fst second_read) = Inr (Some True)" by code_simp
qed

end
