(* ===== verification/Worker_Claims.thy ===== *)
theory Worker_Claims
  imports Worker Context_Waits
begin

text \<open>
  What an attempt at a run may and may not do: without its lease it changes nothing, retries are bounded
  and delayed, a heartbeat stops it when the store says so or cannot be reached, and a replay is given the
  messages of the first attempt.
\<close>

section \<open>Without the lease\<close>

definition stale :: "lease \<Rightarrow> db \<Rightarrow> bool" where
  "stale l d \<longleftrightarrow> (case find_run d (ls_run_id l) of None \<Rightarrow> True | Some run \<Rightarrow> \<not> holds_lease l run)"

lemma find_run_draws [simp]: "find_run (d\<lparr>draws := n\<rparr>) = find_run d"
  by (simp add: find_run_def fun_eq_iff)

lemma stale_draws [simp]: "stale l (d\<lparr>draws := n\<rparr>) = stale l d"
  by (simp add: stale_def)

lemma stale_commit: "stale l d \<Longrightarrow> commit_run E l c d = Inl (LeaseLostError (ls_run_id l) (Some (ls_epoch l)))"
  by (auto simp: stale_def commit_run_def fenced_run_def run_simps dest: find_run_SomeD split: option.splits)

lemma draws_same [simp]: "\<exists>n. d = d\<lparr>draws := n\<rparr>"
  by (rule exI [of _ "draws d"]) simp

text \<open>From a world in which the lease is lost, only the counter of clock readings and random draws moves.\<close>

definition idles :: "lease \<Rightarrow> ('b, 'x) world \<Rightarrow> ('b, 'x) world \<Rightarrow> bool" where
  "idles l w w' \<longleftrightarrow> (stale l (fst w) \<longrightarrow> snd w' = snd w \<and> (\<exists>n. fst w' = (fst w)\<lparr>draws := n\<rparr>))"

interpretation idle: act_frame "idles l :: ('b, 'x) world \<Rightarrow> ('b, 'x) world \<Rightarrow> bool" for l
proof
  show "idles l s s" for s :: "('b, 'x) world" by (auto simp: idles_def)
  show "idles l s u" if "idles l s t" and "idles l t u" for s t u :: "('b, 'x) world"
    using that by (auto simp: idles_def)
qed

lemma storeW_run: "storeW m (d, bx) = (case m d of Inl e \<Rightarrow> (Inl e, (d, bx)) | Inr (a, d') \<Rightarrow> (Inr a, (d', bx)))"
  by (simp add: storeW_def onA_def txA_def split: sum.splits prod.splits)

lemma idles_draw: "moves (idles l) (storeW (drawT f))"
  by (auto simp: moves_def idles_def storeW_run drawT_def run_simps)

lemma drain_lease_run:
  "drain_lease k n d = (case actor_from_str (ls_agent k) of Inl e \<Rightarrow> Inl (PyExn ''ValueError'' e) | Inr who \<Rightarrow> drain who n d)"
  by (simp add: drain_lease_def address_def liftT_def bindT_def failT_def retT_def split: sum.split)

lemma drain_same: "drain who n d = Inr (ms, d') \<Longrightarrow> d' = d"
  by (simp add: drain_def queryT_def)

lemma idles_drain: "moves (idles l) (storeW (drain_lease k n))"
  by (auto simp: moves_def idles_def storeW_run drain_lease_run dest: drain_same split: sum.splits)

lemma idles_commit: "rc_lease C = l \<Longrightarrow> moves (idles l) (storeW (commit_run (rc_env C) (rc_lease C) c))"
  by (auto simp: moves_def idles_def storeW_run stale_commit split: sum.splits prod.splits)

lemma idles_end: "moves (idles (rc_lease C)) (commit_end C c)"
  unfolding commit_end_def by (intro idle.rules idles_commit) simp

lemma idles_handle:
  "moves (idles (rc_lease C)) (case e of
       SuspendInterrupt r w m \<Rightarrow> thenA (end_with C (Suspend w)) (retA ''suspended'')
     | LeaseLostError r n \<Rightarrow> retA ''lost''
     | _ \<Rightarrow> if is_stop e then on_stop C W e else on_failure C W ag e)"
proof -
  have "moves (idles (rc_lease C)) (on_stop C W e)"
    unfolding on_stop_def end_with_def by (intro idle.rules idles_end)
  moreover have "moves (idles (rc_lease C)) (on_failure C W ag e)"
    unfolding on_failure_def end_with_def safe_drain_def jitterW_def by (intro idle.rules idles_end idles_drain idles_draw)
  moreover have "moves (idles (rc_lease C)) (thenA (end_with C (Suspend w)) (retA ''suspended''))" for w
    unfolding end_with_def by (intro idle.rules idles_end)
  ultimately show ?thesis by (auto intro: idle.rules split: exn.split)
qed

text \<open>An attempt whose agent would start is stopped at its first commit, before the agent is asked anything.\<close>

lemma stale_drive:
  assumes "stale (rc_lease C) d"
  shows "drive C ag before (j, d, b, x) = (Inl (lost_lease C), (j, d, b, x))"
proof -
  have "\<not> (\<exists>run. find_run d (rc_run C) = Some run \<and> holds_lease (rc_lease C) run)"
    using assms by (auto simp: stale_def split: option.splits)
  then have "commit_only C [e] (j, d, b, x) = (Inl (lost_lease C), (j, d, b, x))" for e
    by (simp add: commit_only_def commit_entries_def ctx_commit_def storeA_run stale_commit [OF assms] lost_lease_def)
  then show ?thesis by (simp add: drive_def)
qed

lemma stale_body:
  assumes "stale (rc_lease C) d"
  shows "snd (attempt_body C ag (d, b, x)) = (d, b, x)"
    and "ag_version ag' = ag_version ag \<Longrightarrow> attempt_body C ag' (d, b, x) = attempt_body C ag (d, b, x)"
  by (auto simp: attempt_body_def bindA_def storeW_run read_events_def queryT_def raiseA_def stale_drive [OF assms]
      split: option.splits sum.splits)

text \<open>
  C34. An attempt whose lease is no longer in force changes nothing: not the tables, not the blobs, not the
  outside world. What the agent would have done does not matter, since it is not called.
\<close>

theorem stale_attempt_stops:
  assumes "stale (rc_lease C) d"
  shows "snd (snd (run_attempt C W ag (d, b, x))) = (b, x) \<and>
    (\<exists>n. fst (snd (run_attempt C W ag (d, b, x))) = d\<lparr>draws := n\<rparr>) \<and>
    run_attempt C W (ag\<lparr>ag_run := other\<rparr>) (d, b, x) = run_attempt C W ag (d, b, x)"
proof -
  let ?m = "thenA (attempt_body C ag) (retA ''completed'')"
  have start: "snd (?m (d, b, x)) = (d, b, x)"
    using stale_body(1) [OF assms, of ag b x] by (cases "attempt_body C ag (d, b, x)") (auto simp: bindA_def retA_def split: sum.splits)
  have "idles (rc_lease C) (d, b, x) (snd (run_attempt C W ag (d, b, x)))"
  proof -
    obtain r s where Pair: "?m (d, b, x) = (r, s)" by (cases "?m (d, b, x)")
    with start have s: "s = (d, b, x)" by simp
    show ?thesis
    proof (cases r)
      case (Inl e)
      have "run_attempt C W ag (d, b, x) = (case e of
            SuspendInterrupt r w m \<Rightarrow> thenA (end_with C (Suspend w)) (retA ''suspended'')
          | LeaseLostError r n \<Rightarrow> retA ''lost''
          | _ \<Rightarrow> if is_stop e then on_stop C W e else on_failure C W ag e) (d, b, x)"
        using Pair by (simp add: run_attempt_def catchA_def Inl s)
      then show ?thesis using idles_handle [where C = C and e = e and W = W and ag = ag] by (simp add: moves_def)
    next
      case (Inr a)
      then show ?thesis using Pair s by (simp add: run_attempt_def catchA_def idle.act_refl)
    qed
  qed
  moreover have "run_attempt C W (ag\<lparr>ag_run := other\<rparr>) (d, b, x) = run_attempt C W ag (d, b, x)"
  proof -
    have handler: "on_failure C W (ag\<lparr>ag_run := other\<rparr>) = on_failure C W ag" by (rule ext) (simp add: on_failure_def)
    have "attempt_body C (ag\<lparr>ag_run := other\<rparr>) (d, b, x) = attempt_body C ag (d, b, x)"
      by (rule stale_body(2) [OF assms]) simp
    then have "thenA (attempt_body C (ag\<lparr>ag_run := other\<rparr>)) (retA ''completed'') (d, b, x) = ?m (d, b, x)"
      by (rule bindA_same)
    then show ?thesis by (simp only: run_attempt_def catchA_def handler)
  qed
  ultimately show ?thesis using assms unfolding idles_def fst_conv snd_conv by blast
qed

section \<open>Heartbeats\<close>

text \<open>The store said to stop, or three beats in a row failed.\<close>

definition quiet :: "heartbeat_result option list \<Rightarrow> bool" where
  "quiet bs \<longleftrightarrow> (\<forall>r. Some r \<in> set bs \<longrightarrow> r = HB_OK) \<and> \<not> (\<exists>us vs. bs = us @ replicate failures_before_lost None @ vs)"

lemma quiet_run: "(\<exists>us vs. Some r # bs = us @ replicate 3 None @ vs) \<longleftrightarrow> (\<exists>us vs. bs = us @ replicate 3 None @ vs)"
proof
  assume "\<exists>us vs. Some r # bs = us @ replicate 3 None @ vs"
  then obtain us vs where "Some r # bs = us @ replicate 3 None @ vs" by blast
  then show "\<exists>us vs. bs = us @ replicate 3 None @ vs" by (cases us) (auto simp: eval_nat_numeral)
next
  assume "\<exists>us vs. bs = us @ replicate 3 None @ vs"
  then obtain us vs where "bs = us @ replicate 3 None @ vs" by blast
  then have "Some r # bs = (Some r # us) @ replicate 3 None @ vs" by simp
  then show "\<exists>us vs. Some r # bs = us @ replicate 3 None @ vs" by blast
qed

lemma quiet_after: 
  assumes "k < 3"
  shows "(\<exists>us vs. replicate k None @ Some r # bs = us @ replicate 3 None @ vs) \<longleftrightarrow> (\<exists>us vs. bs = us @ replicate 3 None @ vs)"
proof -
  have "k = 0 \<or> k = 1 \<or> k = 2" using assms by auto
  then show ?thesis
    using quiet_run [of r bs] by (elim disjE) (auto simp: eval_nat_numeral Cons_eq_append_conv)
qed

lemma watch_quiet: "k < 3 \<Longrightarrow> watch bs k = None \<longleftrightarrow> (\<forall>r. Some r \<in> set bs \<longrightarrow> r = HB_OK) \<and>
    \<not> (\<exists>us vs. replicate k None @ bs = us @ replicate 3 None @ vs)"
proof (induction bs arbitrary: k)
  case Nil
  then have "length (replicate k (None :: heartbeat_result option)) < 3" by simp
  then show ?case by (auto dest: arg_cong [of _ _ length])
next
  case (Cons b bs)
  show ?case
  proof (cases b)
    case None
    have shift: "replicate k None @ None # bs = replicate (Suc k) None @ bs"
      by (simp add: replicate_app_Cons_same)
    show ?thesis
    proof (cases "Suc k < 3")
      case True
      then show ?thesis using Cons.IH [of "Suc k"] by (simp add: None shift failures_before_lost_def)
    next
      case False
      with Cons.prems have "Suc k = 3" by simp
      then have "replicate k None @ None # bs = [] @ replicate 3 None @ bs" unfolding shift by simp
      then have "\<exists>us vs. replicate k None @ None # bs = us @ replicate 3 None @ vs" by blast
      then show ?thesis using False by (simp add: None failures_before_lost_def stop_reason_of_def)
    qed
  next
    case (Some r)
    have "watch bs 0 = None \<longleftrightarrow> (\<forall>r. Some r \<in> set bs \<longrightarrow> r = HB_OK) \<and> \<not> (\<exists>us vs. bs = us @ replicate 3 None @ vs)"
      using Cons.IH [of 0] by simp
    then show ?thesis
      using quiet_after [OF Cons.prems, of r bs] by (cases r) (auto simp: Some stop_reason_of_def)
  qed
qed

text \<open>
  The heartbeat lets a task go on exactly as long as every answer of the store was OK and fewer than
  three calls in a row failed.
\<close>

theorem heartbeat_watches: "watch bs 0 = None \<longleftrightarrow> quiet bs"
  using watch_quiet [of 0 bs] by (simp add: quiet_def failures_before_lost_def)

section \<open>Retries\<close>

text \<open>
  The delay before a retry is never negative and at most a fifth more than the policy's ceiling; it
  is that much more for the largest draw once the exponential delay has reached the ceiling.
\<close>

theorem backoff_bounds:
  assumes "0 \<le> rp_backoff_s p" and "0 \<le> rp_max_backoff_s p" and "4/5 \<le> u" and "u \<le> 6/5"
  shows "0 \<le> backoff p n u \<and> backoff p n u \<le> rp_max_backoff_s p * (6/5) \<and>
    (rp_max_backoff_s p \<le> rp_backoff_s p * 2 ^ nat n \<longrightarrow> backoff p n (6/5) = rp_max_backoff_s p * (6/5))"
proof -
  have cap: "0 \<le> capped_delay p n" "capped_delay p n \<le> rp_max_backoff_s p" using assms(1,2) by (simp_all add: capped_delay_def)
  then have "capped_delay p n * u \<le> rp_max_backoff_s p * (6/5)" using assms(3,4) by (intro mult_mono) simp_all
  moreover have "0 \<le> capped_delay p n * u" using cap(1) assms(3) by simp
  moreover have "0 \<le> rp_max_backoff_s p * (6/5)" using assms(2) by simp
  ultimately show ?thesis by (auto simp: backoff_def capped_delay_def min_def split: if_splits)
qed

theorem backoff_bounds_witness:
  "rp_max_backoff_s default_retry_policy = 300 \<and> backoff default_retry_policy 7 (6/5) = 360"
  using backoff_bounds [of default_retry_policy "6/5" 7] by (simp add: default_retry_policy_def)

lemma appended_runs:
  assumes "append E rid e s = Inr (n, t)"
  shows "runs t = runs s"
proof (cases "find_dedup s rid (ne_dedup e)")
  case (Some row)
  with assms show ?thesis using append_known [of s rid e row E] by auto
next
  case None
  from append_new [of s rid e E] None assms show ?thesis by (auto simp: Let_def split: option.splits)
qed

lemma retry_row_after:
  assumes "retry E rid err delay s = Inr (u, t)" and "find_run s rid = Some run"
  shows "find_run t rid = Some (retry_row (env_clock E (draws s) + max delay 0) run)"
proof -
  let ?due = "env_clock E (draws s) + max delay 0"
  let ?s = "clear_wakes rid (update_run rid (retry_row ?due) (s\<lparr>draws := Suc (draws s)\<rparr>))"
  from assms(1) obtain n where "append E rid (entry ''run.retrying'' (JObj [(''error'', dump_error err), (''delay_s'', JNum delay)]) None) ?s = Inr (n, t)"
    unfolding retry_def bind_run drawT_def by (auto simp: queryT_def execT_def retT_def)
  then have "runs t = runs ?s" by (rule appended_runs)
  moreover have "find_run (update_run rid (retry_row ?due) s) rid = Some (retry_row ?due run)"
    using assms(2) find_update_run [of "retry_row ?due" rid s rid] by (simp add: retry_row_def park_row_def)
  ultimately show ?thesis by (simp add: find_run_def update_run_def clear_wakes_def)
qed

lemma commit_retry:
  assumes "find_run d (ls_run_id l) = Some run" and "\<not> rr_cancel_requested run"
    and "commit_run E l (empty_commit\<lparr>cm_outcome := Some (Retry err delay)\<rparr>) d = Inr (res, t)"
  shows "find_run t (ls_run_id l) = Some (retry_row (env_clock E (Suc (draws d)) + max delay 0) run)"
proof -
  have "rr_run_id run = ls_run_id l" using assms(1) by (auto dest: find_run_SomeD)
  with assms obtain u where "retry E (ls_run_id l) err delay (d\<lparr>draws := Suc (draws d)\<rparr>) = Inr (u, t)"
    by (auto simp: commit_run_def fenced_run_def commit_effects_def empty_commit_def settle_outcome_def apply_outcome_def
        ack_def drawT_def run_simps split: if_splits sum.splits prod.splits)
  from retry_row_after [OF this] assms(1) show ?thesis by simp
qed

lemma commit_retry_total:
  assumes "find_run d (ls_run_id l) = Some run" and "\<not> rr_cancel_requested run" and "holds_lease l run"
  shows "\<exists>res t. commit_run E l (empty_commit\<lparr>cm_outcome := Some (Retry err delay)\<rparr>) d = Inr (res, t)"
proof -
  have "\<exists>u t. retry E rid err delay s = Inr (u, t)" for rid s
    using append_total [of E rid _ "clear_wakes rid (update_run rid _ (s\<lparr>draws := Suc (draws s)\<rparr>))"]
    by (fastforce simp: retry_def bind_run drawT_def queryT_def execT_def retT_def)
  then show ?thesis using assms
    by (auto simp: commit_run_def fenced_run_def commit_effects_def empty_commit_def settle_outcome_def apply_outcome_def
        ack_def drawT_def bind_run queryT_def execT_def retT_def guardT_def)
qed

lemma safe_drain_run:
  "(\<exists>ms. safe_drain C (d, b, x) = (Inr ms, (d, b, x)))"
  by (cases "actor_from_str (ls_agent (rc_lease C))")
    (simp_all add: safe_drain_def catchA_def storeW_run drain_lease_run drain_def queryT_def is_exception_def retA_def)

lemma commit_end_run:
  "commit_end C c (d, b, x) = (case commit_run (rc_env C) (rc_lease C) c d of
     Inl e \<Rightarrow> if is_lease_lost e then (Inr (), (d, b, x)) else (Inl e, (d, b, x)) | Inr (res, d') \<Rightarrow> (Inr (), (d', b, x)))"
  by (simp add: commit_end_def catchA_def bindA_def storeW_run retA_def raiseA_def split: sum.splits prod.splits)

lemma jitter_run:
  "\<exists>u n. jitterW W l (d, b, x) = (Inr u, (d\<lparr>draws := n\<rparr>, b, x))"
proof (cases "capped_delay (ls_retry_policy l) (ls_retry_count l) \<noteq> 0")
  case True
  then show ?thesis by (simp add: jitterW_def storeW_run drawT_def run_simps) blast
next
  case False
  then have "jitterW W l (d, b, x) = (Inr 1, (d\<lparr>draws := draws d\<rparr>, b, x))" by (simp add: jitterW_def retA_def)
  then show ?thesis by blast
qed


definition demo_agent :: "(message list \<Rightarrow> (unit, nat, unit) capability) \<Rightarrow> (unit, nat) agent" where
  "demo_agent body = \<lparr>ag_id = helper, ag_version = ''1'', ag_run = body, ag_history = None\<rparr>"

definition demo_worker :: "(unit, nat) worker" where
  "demo_worker = \<lparr>wo_stop_reason = (\<lambda>_. []), wo_jitter = (\<lambda>_. 1)\<rparr>"

definition demo_crashed :: "(exn + string) \<times> (unit, nat) world" where
  "demo_crashed = on_failure demo_ctx demo_worker (demo_agent (\<lambda>_. retA ())) index_error (demo_running, (), 0)"


theorem stale_attempt_stops_witness:
  "snd (snd (run_attempt demo_ctx demo_worker (demo_agent (\<lambda>_ (j, d, b, n). (Inr (), (j, d, b, Suc n)))) (demo_reclaimed, (), 0))) = ((), 0)"
proof -
  have "stale (rc_lease demo_ctx) demo_reclaimed" by code_simp
  from stale_attempt_stops [OF this] show ?thesis by simp
qed

section \<open>Replayed mail\<close>

lemma map_of_messages:
  "distinct (map msg_id ms) \<Longrightarrow> m \<in> set ms \<Longrightarrow> map_of (rev (map (\<lambda>m. (msg_id m, m)) ms)) (msg_id m) = Some m"
  by (subst map_of_eq_Some_iff) (auto simp: rev_map [symmetric] o_def)

lemma pick_all:
  assumes "distinct (map msg_id all)" and "set ms \<subseteq> set all"
  shows "pick_messages all (map msg_id ms) = ms"
  using assms(2)
proof (induction ms)
  case (Cons m ms)
  then show ?case using map_of_messages [OF assms(1), of m] by (simp add: pick_messages_def)
qed (simp add: pick_messages_def)

lemma text_items_strings [simp]: "text_items (JList (map (\<lambda>m. JStr (f m)) ms)) = map f ms"
  by (induction ms) (simp_all add: text_items_def)

text \<open>What the first drain leaves in the log.\<close>

lemma commit_only_keyed:
  assumes "log_inv d" and "find_dedup d (rc_run C) (ne_dedup e) = None" and "\<not> ne_ephemeral e" and "ne_spend e = None"
    and "commit_only C [e] (j, d, b, x) = (Inr u, (j1, d1, b1, x1))"
  shows "\<exists>r. durable_log (rc_run C) d1 = durable_log (rc_run C) d @ [r] \<and> says e r"
proof -
  let ?row = "log_row (rc_run C) (last_seq d (rc_run C) + 1) e (env_clock (rc_env C) (draws d))"
  let ?t = "d\<lparr>draws := Suc (draws d), events := events d @ [?row]\<rparr>"
  have "mapT (append (rc_env C) (rc_run C)) [e] d = Inr ([last_seq d (rc_run C) + 1], ?t)"
    using append_new [OF assms(2), of "rc_env C"] assms(4) by (simp add: run_simps Let_def)
  from commit_only_run [OF this, of j b x] assms(5) have ev: "events d1 = events d @ [?row]" by (auto split: if_splits)
  have "log_inv (d\<lparr>events := events d @ [?row]\<rparr>)" by (rule log_append [OF assms(1,2)])
  then have inv: "log_inv d1" by (simp add: log_inv_def ev)
  have "durable_row (rc_run C) ?row"
    using last_seq_bound [of d "rc_run C"] assms(3) by (simp add: durable_row_def log_row_def)
  then have "durable_log (rc_run C) d1 = durable_log (rc_run C) d @ [ev_entry ?row]"
    by (simp add: durable_log_rows [OF inv] durable_log_rows [OF assms(1)] ev)
  moreover have "says e (ev_entry ?row)" by (simp add: says_def log_row_def)
  ultimately show ?thesis by blast
qed

lemma record_new:
  assumes "stack_of j \<noteq> []" and "\<not> clash H kind args j" and "known_state j (step_id H kind j) \<noteq> Some Completed"
    and "build (peek_path j) (step_id H kind j) (next_step j, w) = (Inr (v, commit), s)"
  shows "record_atomic H kind args build (j, w) =
    bindA (commit [(ok_entry (step_id H kind j) (peek_path j) kind (args_digest (ho_codec H) args) (''value'', v))
                     \<lparr>ne_dedup := Some (''effect:'' @ step_id H kind j)\<rparr>]) (\<lambda>_.
    thenA (jexec (set_known (step_id H kind j) ((known_as Completed kind (args_digest (ho_codec H) args))\<lparr>kn_value := Some v\<rparr>)))
          (retA \<lparr>so_value = v, so_replayed = False, so_effect_id = step_id H kind j\<rparr>)) s"
proof -
  have ident: "identify H kind args (j, w) = (Inr (peek_path j, step_id H kind j, args_digest (ho_codec H) args), (next_step j, w))"
    using assms(2) by (simp add: identify_run [OF assms(1)])
  have fresh: "map_option kn_state (known_of j (step_id H kind j)) \<noteq> Some Completed"
    using assms(3) by (simp add: known_state_def)
  show ?thesis
    unfolding record_atomic_def bindA_Inr [of "identify H kind args" "(j, w)", OF ident] prod.case
    using fresh assms(4) by (auto simp: bindA_def [of "queryA _"] queryA_def)
qed

lemma drain_recorded:
  assumes "stack_of j \<noteq> []" and "\<not> clash (rc_host C) ''inbox.drain'' (JObj []) j"
    and "known_state j (step_id (rc_host C) ''inbox.drain'' j) \<noteq> Some Completed"
    and "log_inv d" and "find_dedup d (rc_run C) (Some (''effect:'' @ step_id (rc_host C) ''inbox.drain'' j)) = None"
    and "journaled_drain C (j, d, b, x) = (Inr ms, (j1, d1, b1, x1))"
  shows "\<exists>r. durable_log (rc_run C) d1 = durable_log (rc_run C) d @ [r] \<and>
    says (ok_entry (step_id (rc_host C) ''inbox.drain'' j) (peek_path j) ''inbox.drain'' (args_digest (ho_codec (rc_host C)) (JObj []))
            (''value'', ids_value ms)) r"
proof -
  let ?e = "(ok_entry (step_id (rc_host C) ''inbox.drain'' j) (peek_path j) ''inbox.drain'' (args_digest (ho_codec (rc_host C)) (JObj []))
            (''value'', ids_value ms))\<lparr>ne_dedup := Some (''effect:'' @ step_id (rc_host C) ''inbox.drain'' j)\<rparr>"
  obtain fetched where fetched: "storeA (drain_lease (rc_lease C) 100) (j, d, b, x) = (Inr fetched, (j, d, b, x))"
    using assms(6) by (cases "actor_from_str (ls_agent (rc_lease C))")
      (auto simp: journaled_drain_def bindA_def storeA_run drain_lease_run drain_def queryT_def)
  have build: "retA (ids_value fetched, commit_only C) (next_step j, (d, b, x)) = (Inr (ids_value fetched, commit_only C), (next_step j, d, b, x))"
    by (simp add: retA_def)
  note step = record_new [where build = "\<lambda>_ _. retA (ids_value fetched, commit_only C)", OF assms(1,2,3) build]
  obtain u s1 where first: "commit_only C [(ok_entry (step_id (rc_host C) ''inbox.drain'' j) (peek_path j) ''inbox.drain''
        (args_digest (ho_codec (rc_host C)) (JObj [])) (''value'', ids_value fetched))
        \<lparr>ne_dedup := Some (''effect:'' @ step_id (rc_host C) ''inbox.drain'' j)\<rparr>] (next_step j, d, b, x) = (Inr u, s1)"
      "fetched = ms" "snd s1 = (d1, b1, x1)"
    using assms(6) unfolding journaled_drain_def bindA_Inr [of "storeA _" "(j, d, b, x)", OF fetched]
    by (auto simp: bindA_def [of "record_atomic _ _ _ _"] step bindA_def [of "commit_only _ _"] bindA_def [of "execA _"] execA_def retA_def
      split: sum.splits prod.splits if_splits)
  then have "commit_only C [?e] (next_step j, d, b, x) = (Inr u, (fst s1, d1, b1, x1))" by (metis prod.collapse)
  from commit_only_keyed [OF assms(4) _ _ _ this] assms(5) show ?thesis by (simp add: says_def ok_entry_def entry_def)
qed

lemma drain_answered:
  assumes "stack_of k \<noteq> []" and "actor_from_str (ls_agent (rc_lease C)) = Inr who"
    and "answers (step_id (rc_host C) ''inbox.drain'' k) ''inbox.drain'' (args_digest (ho_codec (rc_host C)) (JObj [])) (ids_value ms) k"
    and "drain who 1000 d = Inr (now_there, d)" and "set ms \<subseteq> set now_there" and "distinct (map msg_id now_there)"
  shows "journaled_drain C (k, d, b, x) = (Inr ms, (next_step k, d, b, x))"
proof -
  from assms(3) obtain kn where kn: "\<not> clash (rc_host C) ''inbox.drain'' (JObj []) k"
      "known_of k (step_id (rc_host C) ''inbox.drain'' k) = Some kn" "kn_state kn = Completed" "kn_ref kn = None"
      "kn_value kn = Some (ids_value ms)"
    by (auto simp: answers_def clash_def or_empty_def ids_value_def split: if_splits)
  obtain fetched where fetched: "storeA (drain_lease (rc_lease C) 100) (k, d, b, x) = (Inr fetched, (k, d, b, x))"
    by (simp add: storeA_run drain_lease_run assms(2) drain_def queryT_def)
  have there: "storeA (drain_lease (rc_lease C) 1000) (next_step k, d, b, x) = (Inr now_there, (next_step k, d, b, x))"
    by (simp add: storeA_run drain_lease_run assms(2,4))
  have step: "record_atomic (rc_host C) ''inbox.drain'' (JObj []) build (k, d, b, x) =
      (Inr \<lparr>so_value = ids_value ms, so_replayed = True, so_effect_id = step_id (rc_host C) ''inbox.drain'' k\<rparr>, (next_step k, d, b, x))" for build
    using kn by (simp add: record_atomic_def identify_run [OF assms(1)] bindA_def queryA_def resolve_def retA_def or_empty_def ids_value_def)
  show ?thesis
    by (simp add: journaled_drain_def fetched step there value_at_def ids_value_def retA_def pick_all [OF assms(6,5)])
qed

text \<open>
  A replay is given exactly the messages the first attempt drained, in the same order, whatever has
  arrived since: a later holder of the run, whose journal is read from the log that the first drain wrote
  to, drains them again as long as they are in the inbox, where they stay until the run acknowledges them.
\<close>

theorem drain_replays:
  assumes "stack_of j \<noteq> []" and "\<not> clash (rc_host C) ''inbox.drain'' (JObj []) j"
    and "known_state j (step_id (rc_host C) ''inbox.drain'' j) \<noteq> Some Completed"
    and "log_inv d" and "find_dedup d (rc_run C) (Some (''effect:'' @ step_id (rc_host C) ''inbox.drain'' j)) = None"
    and first: "journaled_drain C (j, d, b, x) = (Inr ms, (j1, d1, b1, x1))"
    and later: "durable_log (rc_run C) d2 = durable_log (rc_run C) d1 @ rest"
      "\<forall>r \<in> set rest. \<not> about (step_id (rc_host C) ''inbox.drain'' j) r \<and> \<not> at_path (peek_path j) r"
    and again: "resumed (durable_log (rc_run C) d2) (step_id (rc_host C) ''inbox.drain'' j) k" "stack_of k = stack_of j" "jn_run_id k = jn_run_id j"
      "ho_codec (rc_host C') = ho_codec (rc_host C)"
    and inbox: "actor_from_str (ls_agent (rc_lease C')) = Inr who" "drain who 1000 d2 = Inr (now_there, d2)"
      "set ms \<subseteq> set now_there" "distinct (map msg_id now_there)"
  shows "journaled_drain C' (k, d2, b2, x2) = (Inr ms, (next_step k, d2, b2, x2))"
proof (rule drain_answered [OF _ inbox(1) _ inbox(2,3,4)])
  show "stack_of k \<noteq> []" using assms(1) again(2) by simp
  have same: "peek_path k = peek_path j" "step_id (rc_host C') ''inbox.drain'' k = step_id (rc_host C) ''inbox.drain'' j"
    using again by (simp_all add: peek_path_def step_id_def)
  from drain_recorded [OF assms(1-5) first] obtain r where r: "durable_log (rc_run C) d1 = durable_log (rc_run C) d @ [r]"
    "says (ok_entry (step_id (rc_host C) ''inbox.drain'' j) (peek_path k) ''inbox.drain'' (args_digest (ho_codec (rc_host C)) (JObj []))
            (''value'', ids_value ms)) r" by (auto simp: same)
  have "resumed (durable_log (rc_run C) d @ [r] @ rest) (step_id (rc_host C) ''inbox.drain'' j) k"
    using again(1) by (simp add: later(1) r(1))
  from resumed_ok [OF this r(2)] later(2) same(1)
  show "answers (step_id (rc_host C') ''inbox.drain'' k) ''inbox.drain'' (args_digest (ho_codec (rc_host C')) (JObj [])) (ids_value ms) k"
    unfolding answers_def same again(4) by metis
qed

text \<open>The demonstration run drains its one letter; another arrives; a replay is given the first alone.\<close>

definition demo_drained :: "(exn + message list) \<times> journal \<times> (unit, nat) world" where
  "demo_drained = journaled_drain demo_ctx (demo_start, demo_running, (), 0)"

definition demo_more_mail :: db where
  "demo_more_mail = after (deliver demo_env (mail_of ''a'') True) (fst (snd (snd demo_drained)))"

theorem drain_replays_witness:
  "fst (journaled_drain demo_ctx (demo_journal demo_more_mail, demo_more_mail, (), 0)) = Inr [letter ''m'']"
proof -
  let ?k = "demo_journal demo_more_mail"
  have facts: "rc_run demo_ctx = ''r''" "find_dedup demo_running ''r'' (Some (''effect:'' @ step_id (rc_host demo_ctx) ''inbox.drain'' demo_start)) = None"
    "known_state demo_start (step_id (rc_host demo_ctx) ''inbox.drain'' demo_start) = None" "map_of (jn_by_path demo_start) (peek_path demo_start) = None"
    "ls_agent (rc_lease demo_ctx) = actor_str helper" "actor_from_str (actor_str helper) = Inr helper" "stack_of ?k = stack_of demo_start" "jn_run_id ?k = jn_run_id demo_start" "jn_run_id demo_start = ''r''"
    by code_simp+
  have same_log: "durable_log ''r'' demo_more_mail = durable_log ''r'' (fst (snd (snd demo_drained)))" by code_simp
  have first: "journaled_drain demo_ctx (demo_start, demo_running, (), 0) =
      (Inr [letter ''m''], (fst (snd demo_drained), fst (snd (snd demo_drained)), (), snd (snd (snd (snd demo_drained)))))"
    by code_simp
  have mail: "drain helper 1000 demo_more_mail = Inr ([letter ''m'', letter ''a''], demo_more_mail)" by code_simp
  have read: "new_journal ''r'' (durable_log ''r'' demo_more_mail) = Inr ?k" by code_simp
  have "journaled_drain demo_ctx (?k, demo_more_mail, (), 0) = (Inr [letter ''m''], (next_step ?k, demo_more_mail, (), 0))"
    by (rule drain_replays [OF _ _ _ _ _ first, where rest = "[]" and who = helper and now_there = "[letter ''m'', letter ''a'']"])
      (use facts same_log mail read demo_start_place demo_log_inv in \<open>auto simp: clash_def resumed_def letter_def\<close>)
  then show ?thesis by simp
qed

section \<open>Mail nobody read\<close>

text \<open>
  The agent of the demonstration run is busy with its one letter when another arrives; then it stops with
  an error that is not retried.
\<close>

definition demo_busy :: "message list \<Rightarrow> (unit, nat, unit) capability" where
  "demo_busy = (\<lambda>_. bindA (storeA (deliver demo_env (mail_of ''late'') True)) (\<lambda>_. raiseA (KernelExn PermanentError ''no'' None)))"

definition demo_ended :: "(exn + string) \<times> (unit, nat) world" where
  "demo_ended = run_attempt demo_ctx demo_worker (demo_agent demo_busy) (demo_running, (), 0)"

text \<open>
  A failure that is not retried acknowledges the whole inbox, the messages the agent never saw
  included: the letter that arrived during the attempt is neither pending nor a dead letter afterwards, and
  delivered once more it is refused as known.
\<close>

theorem failure_swallows_mail:
  "fst demo_ended = Inr ''failed'' \<and> inbox (fst (snd demo_ended)) = [] \<and> dead (fst (snd demo_ended)) = [] \<and>
   list_ex (\<lambda>p. pr_agent p = actor_str helper \<and> pr_msg_id p = ''late'') (processed (fst (snd demo_ended)))"
proof (intro conjI)
  show "fst demo_ended = Inr ''failed''" by code_simp
  show "inbox (fst (snd demo_ended)) = []" by code_simp
  show "dead (fst (snd demo_ended)) = []" by code_simp
  show "list_ex (\<lambda>p. pr_agent p = actor_str helper \<and> pr_msg_id p = ''late'') (processed (fst (snd demo_ended)))" by code_simp
qed

end
