(* ===== verification/Worker_Table.thy ===== *)
theory Worker_Table
  imports Worker
begin

text \<open>
  The tables of a worker (\<open>Worker\<close> of \<open>runtime/worker.py\<close>): which runs it is executing, their tokens and
  the reasons they were told to stop with. The three are dictionaries by run, while a task is an object:
  two tasks of one run share their entries. What may happen between two awaits is one event, and a
  worker's life is a sequence of events.
\<close>

section \<open>The state\<close>

text \<open>An asyncio task running \<open>_run\<close>: its lease, its token, whether its body has begun and whether \<open>Task.cancel\<close> was called.\<close>

record task =
  ta_lease :: lease
  ta_token :: token
  ta_begun :: bool
  ta_cancelled :: bool

abbreviation ta_run :: "task \<Rightarrow> string" where
  "ta_run t \<equiv> ls_run_id (ta_lease t)"

text \<open>
  \<open>_tasks\<close>, \<open>_tokens\<close> and \<open>_stop_reason\<close>, the leases \<open>_poll\<close> has yet to resolve, and the tasks that have not
  ended, by number. A token is named by the task that made it.
\<close>

record worker_state =
  wk_running :: bool
  wk_tasks :: "(string \<times> nat) list"
  wk_tokens :: "(string \<times> nat) list"
  wk_stop_reason :: "(string \<times> string) list"
  wk_batch :: "lease list"
  wk_live :: "(nat \<times> task) list"
  wk_next :: nat

definition new_worker :: worker_state where
  "new_worker = \<lparr>wk_running = True, wk_tasks = [], wk_tokens = [], wk_stop_reason = [], wk_batch = [], wk_live = [], wk_next = 0\<rparr>"

section \<open>The operations\<close>

definition free_slots :: "nat \<Rightarrow> worker_state \<Rightarrow> int" where
  "free_slots max_concurrency w = int max_concurrency - int (length (wk_tasks w))"

text \<open>\<open>_poll\<close> up to the loop over the leases.\<close>

definition poll :: "env \<Rightarrow> string \<Rightarrow> nat \<Rightarrow> seconds \<Rightarrow> seconds \<Rightarrow> worker_state \<Rightarrow> worker_state dbtx" where
  "poll E worker_id max_concurrency lease_s now w =
     bindT (if 0 < free_slots max_concurrency w then lease_runs E worker_id (free_slots max_concurrency w) lease_s now else retT [])
     (\<lambda>ls. retT (w\<lparr>wk_batch := ls\<rparr>))"

definition new_task :: "lease \<Rightarrow> task" where
  "new_task l = \<lparr>ta_lease = l, ta_token = fresh_token, ta_begun = False, ta_cancelled = False\<rparr>"

text \<open>One turn of that loop; \<open>registered\<close> says whether the resolver knows the lease's agent.\<close>

definition take_lease :: "(string \<Rightarrow> bool) \<Rightarrow> worker_state \<Rightarrow> worker_state" where
  "take_lease registered w = (case wk_batch w of [] \<Rightarrow> w
     | l # ls \<Rightarrow> if registered (ls_agent l) then
         w\<lparr>wk_batch := ls, wk_tasks := AList.update (ls_run_id l) (wk_next w) (wk_tasks w),
           wk_live := wk_live w @ [(wk_next w, new_task l)], wk_next := Suc (wk_next w)\<rparr>
       else w\<lparr>wk_batch := ls\<rparr>)"

definition change_task :: "nat \<Rightarrow> (task \<Rightarrow> task) \<Rightarrow> worker_state \<Rightarrow> worker_state" where
  "change_task n f w = w\<lparr>wk_live := map (\<lambda>(m, t). (m, if m = n then f t else t)) (wk_live w)\<rparr>"

text \<open>The first turn of a task: \<open>_run\<close> registers its token, or never starts if the task was cancelled before.\<close>

definition begin_task :: "nat \<Rightarrow> worker_state \<Rightarrow> worker_state" where
  "begin_task n w = (case map_of (wk_live w) n of None \<Rightarrow> w
     | Some t \<Rightarrow> if ta_begun t then w
         else if ta_cancelled t then w\<lparr>wk_live := AList.delete n (wk_live w)\<rparr>
         else change_task n (\<lambda>t. t\<lparr>ta_begun := True\<rparr>) (w\<lparr>wk_tokens := AList.update (ta_run t) n (wk_tokens w)\<rparr>))"

text \<open>The \<open>finally\<close> of \<open>_run\<close>: what is filed under the run is taken out, whoever filed it.\<close>

definition end_task :: "nat \<Rightarrow> worker_state \<Rightarrow> worker_state" where
  "end_task n w = (case map_of (wk_live w) n of None \<Rightarrow> w
     | Some t \<Rightarrow> if \<not> ta_begun t then w
         else w\<lparr>wk_live := AList.delete n (wk_live w), wk_tasks := AList.delete (ta_run t) (wk_tasks w),
                wk_tokens := AList.delete (ta_run t) (wk_tokens w), wk_stop_reason := AList.delete (ta_run t) (wk_stop_reason w)\<rparr>)"

definition stop_task :: "task \<Rightarrow> task" where
  "stop_task t = t\<lparr>ta_cancelled := True\<rparr>"

definition fire_token :: "string \<Rightarrow> task \<Rightarrow> task" where
  "fire_token reason t = t\<lparr>ta_token := fst (cancel_token reason (ta_token t))\<rparr>"

text \<open>\<open>cancel_local\<close>. A task is done when it is no longer live.\<close>

definition cancel_local :: "string \<Rightarrow> string \<Rightarrow> worker_state \<Rightarrow> bool \<times> worker_state" where
  "cancel_local rid reason w = (case map_of (wk_tasks w) rid of None \<Rightarrow> (False, w)
     | Some n \<Rightarrow> if map_of (wk_live w) n = None then (False, w)
         else (True, change_task n stop_task
            ((case map_of (wk_tokens w) rid of None \<Rightarrow> id | Some m \<Rightarrow> change_task m (fire_token reason))
              (w\<lparr>wk_stop_reason := AList.update rid (''cancel:'' @ reason) (wk_stop_reason w)\<rparr>))))"

text \<open>The end of \<open>_heartbeat\<close>, when it has a reason to stop its task.\<close>

definition heartbeat_stop :: "nat \<Rightarrow> string \<Rightarrow> worker_state \<Rightarrow> worker_state" where
  "heartbeat_stop n reason w = (case map_of (wk_live w) n of None \<Rightarrow> w
     | Some t \<Rightarrow> if \<not> ta_begun t then w else change_task n (stop_task \<circ> fire_token reason)
         (w\<lparr>wk_stop_reason := AList.update (ta_run t) reason (wk_stop_reason w)\<rparr>))"

text \<open>\<open>stop\<close> up to waiting for the tasks: no more polling, and every task is cancelled for shutdown unless it already has a reason.\<close>

definition shut_down :: "worker_state \<Rightarrow> worker_state" where
  "shut_down w = fold (\<lambda>(rid, n) v. change_task n stop_task
       (v\<lparr>wk_stop_reason := (case map_of (wk_stop_reason v) rid of None \<Rightarrow> AList.update rid ''shutdown'' (wk_stop_reason v)
          | Some _ \<Rightarrow> wk_stop_reason v)\<rparr>)) (wk_tasks w) (w\<lparr>wk_running := False, wk_batch := []\<rparr>)"

section \<open>Lives of a worker\<close>

inductive worker_step :: "nat \<Rightarrow> worker_state \<Rightarrow> worker_state \<Rightarrow> bool" for max_concurrency where
  polls: "wk_running w \<Longrightarrow> wk_batch w = [] \<Longrightarrow> poll E worker_id max_concurrency lease_s now w d = Inr (w', d') \<Longrightarrow> worker_step max_concurrency w w'"
| takes: "wk_running w \<Longrightarrow> worker_step max_concurrency w (take_lease registered w)"
| begins: "worker_step max_concurrency w (begin_task n w)"
| ends: "worker_step max_concurrency w (end_task n w)"
| cancels: "worker_step max_concurrency w (snd (cancel_local rid reason w))"
| beats: "worker_step max_concurrency w (heartbeat_stop n reason w)"
| shuts: "worker_step max_concurrency w (shut_down w)"

text \<open>
  The two things that must not happen for the tables to be right: a lease is taken on a run of which a
  task is still there, and a task is dropped that was cancelled before its first turn.
\<close>

definition orderly :: "worker_state \<Rightarrow> bool" where
  "orderly w \<longleftrightarrow> (\<forall>l \<in> set (wk_batch w). \<forall>(n, t) \<in> set (wk_live w). ta_run t \<noteq> ls_run_id l) \<and>
     distinct (map ls_run_id (wk_batch w)) \<and> (\<forall>(n, t) \<in> set (wk_live w). ta_cancelled t \<longrightarrow> ta_begun t)"

inductive orderly_life :: "nat \<Rightarrow> worker_state \<Rightarrow> bool" for max_concurrency where
  born: "orderly_life max_concurrency new_worker"
| lives: "orderly_life max_concurrency w \<Longrightarrow> orderly w \<Longrightarrow> worker_step max_concurrency w w' \<Longrightarrow> orderly_life max_concurrency w'"

end
