(* ===== verification/Worker_Life.thy ===== *)
theory Worker_Life
  imports Worker_Table Context_Claims
begin

text \<open>
  What the tables of a worker are good for: as long as no run is taken while a task of it is still there,
  they list exactly the tasks there are and no more than the worker may run; and what goes wrong otherwise.
\<close>

section \<open>Tables that are right\<close>

definition filed :: "worker_state \<Rightarrow> (string \<times> nat) list" where
  "filed w = map (\<lambda>(n, t). (ta_run t, n)) (wk_live w)"

definition tables_right :: "nat \<Rightarrow> worker_state \<Rightarrow> bool" where
  "tables_right max_concurrency w \<longleftrightarrow>
     wk_tasks w = filed w \<and> distinct (map fst (filed w)) \<and> distinct (map fst (wk_live w)) \<and>
     (\<forall>(n, t) \<in> set (wk_live w). n < wk_next w) \<and>
     length (wk_live w) + length (wk_batch w) \<le> max_concurrency"

lemma update_absent: "k \<notin> fst ` set xs \<Longrightarrow> AList.update k v xs = xs @ [(k, v)]"
  by (induction xs) auto

lemma filed_length [simp]: "length (filed w) = length (wk_live w)"
  by (simp add: filed_def)

lemma filed_names: "fst ` set (filed w) = (\<lambda>(n, t). ta_run t) ` set (wk_live w)"
  by (force simp: filed_def)

lemma filed_change [simp]: "(\<And>t. ta_lease (f t) = ta_lease t) \<Longrightarrow> filed (change_task n f w) = filed w"
  by (auto simp: filed_def change_task_def)

lemma change_simps [simp]:
  "wk_tasks (change_task n f w) = wk_tasks w" "wk_batch (change_task n f w) = wk_batch w"
  "wk_next (change_task n f w) = wk_next w" "length (wk_live (change_task n f w)) = length (wk_live w)"
  "map fst (wk_live (change_task n f w)) = map fst (wk_live w)" "wk_running (change_task n f w) = wk_running w"
  by (auto simp: change_task_def split: prod.splits)

lemma change_numbers: "fst ` set (wk_live (change_task n f w)) = fst ` set (wk_live w)"
  by (metis change_simps(5) list.set_map)

lemma right_numbers: "(\<forall>(n, t) \<in> set (wk_live w). n < k) \<longleftrightarrow> (\<forall>n \<in> fst ` set (wk_live w). n < k)"
  by auto

lemma right_change:
  assumes "tables_right c w" and "\<And>t. ta_lease (f t) = ta_lease t"
  shows "tables_right c (change_task n f w)"
  using assms by (simp add: tables_right_def right_numbers change_numbers)

lemma right_other [simp]:
  "tables_right c (w\<lparr>wk_tokens := ts\<rparr>) = tables_right c w" "tables_right c (w\<lparr>wk_stop_reason := rs\<rparr>) = tables_right c w"
  by (simp_all add: tables_right_def filed_def)

lemma lease_kept [simp]:
  "ta_lease (stop_task t) = ta_lease t" "ta_lease (fire_token r t) = ta_lease t" "ta_lease (t\<lparr>ta_begun := b\<rparr>) = ta_lease t"
  by (simp_all add: stop_task_def fire_token_def)

lemma right_take:
  assumes "tables_right c w" and "orderly w"
  shows "tables_right c (take_lease registered w)"
proof (cases "wk_batch w")
  case Nil
  with assms(1) show ?thesis by (simp add: take_lease_def)
next
  case (Cons l ls)
  let ?n = "wk_next w"
  have absent: "ls_run_id l \<notin> fst ` set (wk_tasks w)"
    using assms Cons by (auto simp: orderly_def tables_right_def filed_names)
  have unused: "?n \<notin> fst ` set (wk_live w)" using assms(1) by (auto simp: tables_right_def)
  show ?thesis
    using assms(1) Cons absent unused
    by (auto simp: take_lease_def tables_right_def update_absent filed_def new_task_def)
qed

lemma right_end:
  assumes "tables_right c w"
  shows "tables_right c (end_task n w)"
proof (cases "map_of (wk_live w) n")
  case None
  with assms show ?thesis by (simp add: end_task_def)
next
  case (Some t)
  have here: "(n, t) \<in> set (wk_live w)" using Some by (rule map_of_SomeD)
  have one: "ta_run t \<noteq> ta_run s \<longleftrightarrow> n \<noteq> m" if "(m, s) \<in> set (wk_live w)" for m s
  proof -
    have files: "(ta_run t, n) \<in> set (wk_tasks w)" "(ta_run s, m) \<in> set (wk_tasks w)"
      using assms here that by (force simp: tables_right_def filed_def)+
    have "distinct (map fst (wk_tasks w))" "distinct (map fst (wk_live w))" using assms by (simp_all add: tables_right_def)
    then show ?thesis using files here that by (auto dest: eq_key_imp_eq_value)
  qed
  have "AList.delete (ta_run t) (filed w) = map (\<lambda>(n, t). (ta_run t, n)) (AList.delete n (wk_live w))"
    unfolding AList.delete_eq filed_def filter_map
    by (rule arg_cong [of _ _ "map _"], rule filter_cong) (auto dest: one)
  moreover have "length (AList.delete n (wk_live w)) + length (wk_batch w) \<le> c"
    using assms by (auto simp: AList.delete_eq tables_right_def intro: le_trans [OF add_le_mono1 [OF length_filter_le]])
  moreover have "distinct (map fst (filed (w\<lparr>wk_live := AList.delete n (wk_live w)\<rparr>)))" "distinct (map fst (AList.delete n (wk_live w)))"
    using assms by (auto simp: tables_right_def filed_def AList.delete_eq intro!: distinct_map_filter)
  ultimately show ?thesis
    using assms Some by (auto simp: end_task_def tables_right_def filed_def AList.delete_eq)
qed

lemma right_begin:
  assumes "tables_right c w" and "orderly w"
  shows "tables_right c (begin_task n w)"
  using assms
  by (auto simp: begin_task_def orderly_def intro!: right_change split: option.splits dest!: map_of_SomeD)

lemma right_cancel: "tables_right c w \<Longrightarrow> tables_right c (snd (cancel_local rid reason w))"
  by (auto simp: cancel_local_def intro!: right_change split: option.splits)

lemma right_beat: "tables_right c w \<Longrightarrow> tables_right c (heartbeat_stop n reason w)"
  by (auto simp: heartbeat_stop_def intro!: right_change split: option.splits)

lemma right_fold:
  "tables_right c w \<Longrightarrow> tables_right c (fold (\<lambda>(rid, n) v. change_task n stop_task (v\<lparr>wk_stop_reason := f rid v\<rparr>)) xs w)"
proof (induction xs arbitrary: w)
  case (Cons x xs)
  have "tables_right c (change_task (snd x) stop_task (w\<lparr>wk_stop_reason := f (fst x) w\<rparr>))"
    by (rule right_change) (simp_all add: Cons.prems)
  from Cons.IH [OF this] show ?case by (cases x) simp
qed simp

lemma right_shut: "tables_right c w \<Longrightarrow> tables_right c (shut_down w)"
  unfolding shut_down_def by (rule right_fold) (simp add: tables_right_def filed_def)

lemma claims_number:
  "mapT f xs s = Inr (ys, t) \<Longrightarrow> length ys = length xs"
proof (induction xs arbitrary: s ys)
  case Nil
  then show ?case by (simp add: retT_def)
next
  case (Cons x xs)
  then show ?case by (auto simp: mapT_run simp del: mapT.simps)
qed

lemma lease_number:
  assumes "lease_runs E worker_id capacity lease_s now s = Inr (ls, t)"
  shows "int (length ls) \<le> max capacity 0"
proof (cases "0 < capacity")
  case True
  with lease_runs_split [OF assms] obtain u where
    "mapT (claim worker_id (now + lease_s) now) (candidates u capacity) u = Inr (ls, t)" by blast
  from claims_number [OF this] candidates_length [of u capacity] show ?thesis by simp
next
  case False
  with lease_runs_split [OF assms] show ?thesis by auto
qed

lemma right_poll:
  assumes "tables_right c w" and "wk_batch w = []" and "poll E worker_id c lease_s now w d = Inr (w', d')"
  shows "tables_right c w'"
proof -
  obtain ls where w': "w' = w\<lparr>wk_batch := ls\<rparr>" and few: "ls = [] \<or> int (length ls) \<le> free_slots c w"
    using assms(3) lease_number [of E worker_id "free_slots c w" lease_s now d]
    by (auto simp: poll_def bind_run retT_def split: if_splits)
  have "length (wk_tasks w) = length (wk_live w)" using assms(1) by (simp add: tables_right_def)
  then show ?thesis
    using assms(1) few by (auto simp: w' tables_right_def filed_def free_slots_def)
qed

lemma right_step:
  assumes "worker_step c w w'" and "tables_right c w" and "orderly w"
  shows "tables_right c w'"
  using assms(1)
  by cases (auto intro: right_poll right_take right_end right_begin right_cancel right_beat right_shut assms(2,3))

lemma orderly_right: "orderly_life c w \<Longrightarrow> tables_right c w"
proof (induction rule: orderly_life.induct)
  case born
  then show ?case by (simp add: tables_right_def new_worker_def filed_def)
next
  case (lives w w')
  then show ?case by (auto intro: right_step)
qed

lemma right_found:
  assumes "tables_right c w"
  shows "map_of (wk_tasks w) rid = Some n \<longleftrightarrow> (\<exists>t. (n, t) \<in> set (wk_live w) \<and> ta_run t = rid)"
proof -
  have "map_of (wk_tasks w) rid = Some n \<longleftrightarrow> (rid, n) \<in> set (wk_tasks w)"
    using assms by (intro map_of_eq_Some_iff) (simp add: tables_right_def)
  then show ?thesis using assms by (auto simp: tables_right_def filed_def)
qed

text \<open>
  A worker runs at most \<open>max_concurrency\<close> runs and knows each of them, however polling, endings,
  cancels and heartbeats interleave, as long as no run is taken while a task of it is still there and no
  task is cancelled before its first turn: its table lists exactly the tasks there are.
\<close>

theorem worker_knows_its_runs:
  assumes "orderly_life c w"
  shows "length (wk_live w) \<le> c \<and>
    (\<forall>rid n. map_of (wk_tasks w) rid = Some n \<longleftrightarrow> (\<exists>t. (n, t) \<in> set (wk_live w) \<and> ta_run t = rid))"
proof -
  have "tables_right c w" using assms by (rule orderly_right)
  then have "length (wk_live w) \<le> c" "\<forall>rid n. map_of (wk_tasks w) rid = Some n \<longleftrightarrow> (\<exists>t. (n, t) \<in> set (wk_live w) \<and> ta_run t = rid)"
    by (simp add: tables_right_def, intro allI right_found)
  then show ?thesis ..
qed

section \<open>A life in which a run comes back too soon\<close>

text \<open>
  The worker leases \<open>r\<close> and runs it; the run sleeps and is woken at once; the worker leases it again
  before the first task has left the table.
\<close>

definition polled :: "worker_state \<times> db \<Rightarrow> worker_state \<times> db" where
  "polled wd = (case poll demo_env ''w'' 2 30 200 (fst wd) (snd wd) of Inr r \<Rightarrow> r | Inl _ \<Rightarrow> wd)"

definition started_next :: "worker_state \<times> db \<Rightarrow> worker_state \<times> db" where
  "started_next wd = (begin_task (wk_next (fst wd)) (take_lease (\<lambda>_. True) (fst wd)), snd wd)"

definition in_store :: "'a dbtx \<Rightarrow> worker_state \<times> db \<Rightarrow> worker_state \<times> db" where
  "in_store m wd = (fst wd, after m (snd wd))"

definition life_first :: "worker_state \<times> db" where
  "life_first = started_next (polled (new_worker, demo_pending))"

definition life_again :: "worker_state \<times> db" where
  "life_again = started_next (polled (in_store (signalT ''r'' ''go'' JNull) (in_store (commit_run demo_env
     (ta_lease (snd (hd (wk_live (fst life_first))))) (empty_commit\<lparr>cm_outcome := Some (Suspend (signal_wakeup [''go''] None))\<rparr>)) life_first)))"

definition life_forgotten :: "worker_state \<times> db" where
  "life_forgotten = (end_task 0 (fst life_again), snd life_again)"

definition life_crowded :: "worker_state \<times> db" where
  "life_crowded = started_next (started_next (polled (in_store (create_run demo_env (demo_spec ''b'') [])
     (in_store (create_run demo_env (demo_spec ''a'') []) life_forgotten))))"

lemma polled_step:
  assumes "wk_running (fst wd)" and "wk_batch (fst wd) = []"
  shows "fst (polled wd) = fst wd \<or> worker_step 2 (fst wd) (fst (polled wd))"
proof (cases "poll demo_env ''w'' 2 30 200 (fst wd) (snd wd)")
  case (Inr r)
  then show ?thesis
    using worker_step.polls [OF assms, of demo_env "''w''" 2 30 200 "snd wd" "fst r" "snd r"] by (simp add: polled_def)
qed (simp add: polled_def)

lemma polled_steps:
  "wk_running (fst wd) \<Longrightarrow> wk_batch (fst wd) = [] \<Longrightarrow> (worker_step 2)\<^sup>*\<^sup>* (fst wd) (fst (polled wd))"
  using polled_step [of wd] by auto

lemma started_steps: "wk_running (fst wd) \<Longrightarrow> (worker_step 2)\<^sup>*\<^sup>* (fst wd) (fst (started_next wd))"
  unfolding started_next_def fst_conv by (rule rtranclp_trans [where r = "worker_step 2", OF r_into_rtranclp r_into_rtranclp], erule takes, rule begins)

lemma poll_running: "poll E worker_id c lease_s now w d = Inr (w', d') \<Longrightarrow> wk_running w' = wk_running w"
  by (auto simp: poll_def bind_run retT_def split: if_splits)

lemma polled_running [simp]: "wk_running (fst (polled wd)) = wk_running (fst wd)"
  by (auto simp: polled_def poll_running split: sum.splits)

lemma started_running [simp]: "wk_running (fst (started_next wd)) = wk_running (fst wd)"
  by (simp add: started_next_def begin_task_def take_lease_def split: option.splits list.splits)

lemma end_running [simp]: "wk_running (end_task n w) = wk_running w"
  by (simp add: end_task_def split: option.splits)

lemma turn_steps:
  "wk_running (fst wd) \<Longrightarrow> wk_batch (fst wd) = [] \<Longrightarrow> (worker_step 2)\<^sup>*\<^sup>* (fst wd) (fst (started_next (polled wd)))"
  using rtranclp_trans [OF polled_steps started_steps] by simp

lemma in_store_fst [simp]: "fst (in_store m wd) = fst wd"
  by (simp add: in_store_def)

lemma crowded_lives: "(worker_step 2)\<^sup>*\<^sup>* new_worker (fst life_crowded)"
proof -
  let ?q = "in_store (signalT ''r'' ''go'' JNull) (in_store (commit_run demo_env
     (ta_lease (snd (hd (wk_live (fst life_first))))) (empty_commit\<lparr>cm_outcome := Some (Suspend (signal_wakeup [''go''] None))\<rparr>)) life_first)"
  let ?r = "in_store (create_run demo_env (demo_spec ''b'') []) (in_store (create_run demo_env (demo_spec ''a'') []) life_forgotten)"
  have idle: "wk_batch (fst life_first) = []" by code_simp
  have idle': "wk_batch (fst life_forgotten) = []" by code_simp
  have runs: "wk_running (fst life_first)" "wk_running (fst life_forgotten)" "wk_running new_worker"
    by (simp_all add: life_forgotten_def life_again_def life_first_def new_worker_def)
  have "(worker_step 2)\<^sup>*\<^sup>* new_worker (fst life_first)"
    using turn_steps [of "(new_worker, demo_pending)"] unfolding life_first_def by (simp add: new_worker_def)
  also have "(worker_step 2)\<^sup>*\<^sup>* (fst life_first) (fst life_again)"
    using turn_steps [of ?q] idle runs unfolding life_again_def by simp
  also have "(worker_step 2)\<^sup>*\<^sup>* (fst life_again) (fst life_forgotten)"
    unfolding life_forgotten_def fst_conv by (rule r_into_rtranclp, rule ends)
  also have "(worker_step 2)\<^sup>*\<^sup>* (fst life_forgotten) (fst life_crowded)"
    using rtranclp_trans [OF turn_steps [of ?r] started_steps] idle' runs
    unfolding life_crowded_def by simp
  finally show ?thesis .
qed

lemma first_orderly: "orderly_life 2 (fst life_first)"
proof -
  let ?p = "polled (new_worker, demo_pending)"
  have calm: "orderly new_worker" "wk_running (fst ?p)" by (simp_all add: orderly_def new_worker_def)
  have calm': "orderly (fst ?p)" "orderly (take_lease (\<lambda>_. True) (fst ?p))" by code_simp+
  have "orderly_life 2 (fst ?p)"
    using polled_step [of "(new_worker, demo_pending)"] orderly_life.born [of 2] orderly_life.lives [OF orderly_life.born calm(1)]
    by (auto simp: new_worker_def)
  from orderly_life.lives [OF orderly_life.lives [OF this calm'(1) takes [OF calm(2)]] calm'(2) begins] show ?thesis
    unfolding life_first_def started_next_def fst_conv .
qed

theorem worker_knows_its_runs_witness:
  "length (wk_live (fst life_first)) \<le> 2 \<and> map_of (wk_tasks (fst life_first)) ''r'' = Some 0"
proof -
  have "length (wk_live (fst life_first)) \<le> 2 \<and>
      (map_of (wk_tasks (fst life_first)) ''r'' = Some 0 \<longleftrightarrow> (\<exists>t. (0, t) \<in> set (wk_live (fst life_first)) \<and> ta_run t = ''r''))"
    using worker_knows_its_runs [OF first_orderly] by blast
  moreover have "\<exists>p \<in> set (wk_live (fst life_first)). fst p = 0 \<and> ta_run (snd p) = ''r''" by code_simp
  ultimately show ?thesis by force
qed

text \<open>
  Following its steps, a worker loses sight of a run it executes. The end of a run's first task takes the second one out
  of the table: the worker then cannot cancel that run, and runs more than its maximum of two at once.
\<close>

theorem worker_forgets_a_run:
  "(worker_step 2)\<^sup>*\<^sup>* new_worker (fst life_crowded) \<and>
   map_option (\<lambda>t. (ta_run t, ta_begun t)) (map_of (wk_live (fst life_crowded)) 1) = Some (''r'', True) \<and>
   fst (cancel_local ''r'' ''stop'' (fst life_crowded)) = False \<and>
   length (wk_live (fst life_crowded)) = 3"
proof (intro conjI)
  show "(worker_step 2)\<^sup>*\<^sup>* new_worker (fst life_crowded)" by (rule crowded_lives)
  show "map_option (\<lambda>t. (ta_run t, ta_begun t)) (map_of (wk_live (fst life_crowded)) 1) = Some (''r'', True)" by code_simp
  show "fst (cancel_local ''r'' ''stop'' (fst life_crowded)) = False" by code_simp
  show "length (wk_live (fst life_crowded)) = 3" by code_simp
qed

end
