(* ===== verification/Run_Due.thy ===== *)
theory Run_Due
  imports Run_Claims
begin

text \<open>
  No run that can go on is left behind: a worker with room to spare takes every run that is queued, that
  was abandoned by its worker, or whose timer is due, unless a deadline ended it first.
\<close>

definition awake :: "run_row \<Rightarrow> bool" where
  "awake r \<longleftrightarrow> rr_status r = PENDING \<or> is_terminal (rr_status r)"

definition awake_kept :: "db \<Rightarrow> db \<Rightarrow> bool" where
  "awake_kept s t \<longleftrightarrow> (\<forall>r \<in> set (runs s). awake r \<longrightarrow> (\<exists>q \<in> set (runs t). rr_run_id q = rr_run_id r \<and> awake q))"

lemma awake_sub: "set (runs s) \<subseteq> set (runs t) \<Longrightarrow> awake_kept s t"
  by (force simp: awake_kept_def)

lemma awake_update:
  assumes "\<And>r. r \<in> set (runs s) \<Longrightarrow> P r \<Longrightarrow> awake r \<Longrightarrow> awake (f r)" and "\<And>r. rr_run_id (f r) = rr_run_id r"
    and "runs t = update_where P f (runs s)"
  shows "awake_kept s t"
  unfolding awake_kept_def
proof (intro ballI impI)
  fix r assume "r \<in> set (runs s)" "awake r"
  then have "(if P r then f r else r) \<in> set (runs t)" "awake (if P r then f r else r)" "rr_run_id (if P r then f r else r) = rr_run_id r"
    using assms by (auto simp: set_update_where)
  then show "\<exists>q \<in> set (runs t). rr_run_id q = rr_run_id r \<and> awake q" by blast
qed

lemma awake_wake: "awake_kept s (make_pending rid s)"
  by (rule awake_update [where f = wake_row]) (auto simp: wake_row_def awake_def)

lemma awake_signal: "awake_kept s (snd (signal_run rid name payload s))"
proof (cases "runs (snd (signal_run rid name payload s)) = runs s")
  case True
  then show ?thesis by (simp add: awake_sub)
next
  case False
  then have "runs (snd (signal_run rid name payload s)) = runs (make_pending rid s)"
    using runs_signal [of rid name payload s] by simp
  then show ?thesis using awake_wake [of s rid] by (simp add: awake_kept_def)
qed

lemma awake_trans: "awake_kept s t \<Longrightarrow> awake_kept t u \<Longrightarrow> awake_kept s u"
  unfolding awake_kept_def by metis

interpretation awake: run_frame awake_kept
proof unfold_locales
  fix s rid f now
  show "awake_kept s (end_run rid f now s)"
    by (rule awake_update [where f = "end_row f now"]) (auto simp: end_row_def awake_def)
  show "awake_kept s (update_run rid (\<lambda>r. r\<lparr>rr_cancel_requested := True\<rparr>) s)"
    by (rule awake_update [where f = "\<lambda>r. r\<lparr>rr_cancel_requested := True\<rparr>"]) (auto simp: update_run_def awake_def)
  show "awake_kept s (reclaim_expired now s)"
    by (rule awake_update [where f = reclaim_row and P = "expired now"]) (auto simp: reclaim_expired_def reclaim_row_def awake_def)
qed (auto intro: awake_sub awake_wake awake_signal awake_trans simp: drop_ephemeral_def simp del: tables_make_pending)

section \<open>What the housekeeping wakes\<close>

lemma woken_one:
  assumes "r \<in> set (runs s)" and "rr_status r = SUSPENDED"
  shows "\<exists>q \<in> set (runs (make_pending (rr_run_id r) s)). rr_run_id q = rr_run_id r \<and> awake q"
proof -
  have "wake_row r \<in> set (runs (make_pending (rr_run_id r) s))" using assms(1) by (auto simp: set_update_where)
  moreover have "rr_run_id (wake_row r) = rr_run_id r" "awake (wake_row r)" using assms(2) by (simp_all add: wake_row_def awake_def)
  ultimately show ?thesis by blast
qed

text \<open>Once a run is awake, waking others does not put it back; and it is awake after its own turn.\<close>

lemma woken_all:
  assumes "\<exists>q \<in> set (runs s). rr_run_id q = rid \<and> (awake q \<or> rr_status q = SUSPENDED \<and> rid \<in> set (map rr_run_id rows))"
  shows "\<exists>q \<in> set (runs (foldl (\<lambda>s r. make_pending (rr_run_id r) s) s rows)). rr_run_id q = rid \<and> awake q"
  using assms
proof (induction rows arbitrary: s)
  case Nil
  then show ?case by simp
next
  case (Cons r rows)
  from Cons.prems obtain q where q: "q \<in> set (runs s)" "rr_run_id q = rid"
    "awake q \<or> rr_status q = SUSPENDED \<and> rid \<in> set (map rr_run_id (r # rows))" by blast
  let ?t = "make_pending (rr_run_id r) s"
  have "\<exists>p \<in> set (runs ?t). rr_run_id p = rid \<and> (awake p \<or> rr_status p = SUSPENDED \<and> rid \<in> set (map rr_run_id rows))"
  proof (cases "rr_run_id r = rid \<and> rr_status q = SUSPENDED")
    case True
    with woken_one [OF q(1)] q(2) show ?thesis by auto
  next
    case False
    have "(if rr_run_id q = rr_run_id r then wake_row q else q) \<in> set (runs ?t)" using q(1) by (auto simp: set_update_where)
    moreover have "rr_run_id (if rr_run_id q = rr_run_id r then wake_row q else q) = rid" using q(2) by (simp add: wake_row_def)
    moreover have "awake (if rr_run_id q = rr_run_id r then wake_row q else q) \<or>
        rr_status (if rr_run_id q = rr_run_id r then wake_row q else q) = SUSPENDED \<and> rid \<in> set (map rr_run_id rows)"
      using q(2,3) False by (auto simp: wake_row_def awake_def)
    ultimately show ?thesis by blast
  qed
  from Cons.IH [OF this] show ?case by simp
qed

definition can_go_on :: "seconds \<Rightarrow> run_row \<Rightarrow> bool" where
  "can_go_on now r \<longleftrightarrow> rr_status r = PENDING \<or> expired now r \<or> timer_due now r"

lemma sweep_wakes:
  assumes "sweep E now s = Inr (x, u)" and "r \<in> set (runs s)" and "can_go_on now r"
  shows "\<exists>q \<in> set (runs u). rr_run_id q = rr_run_id r \<and> awake q"
proof -
  let ?s = "reclaim_expired now s"
  let ?rows = "filter (timer_due now) (runs ?s)"
  let ?t = "foldl (\<lambda>s r. make_pending (rr_run_id r) s) ?s ?rows"
  let ?r = "if expired now r then reclaim_row r else r"
  have "?r \<in> set (runs ?s)" using assms(2) by (auto simp: reclaim_expired_def set_update_where)
  moreover have "rr_run_id ?r = rr_run_id r" by (simp add: reclaim_row_def)
  moreover have "awake ?r \<or> rr_status ?r = SUSPENDED \<and> timer_due now ?r"
    using assms(3) by (auto simp: can_go_on_def awake_def reclaim_row_def expired_def timer_due_def)
  ultimately have "\<exists>q \<in> set (runs ?s). rr_run_id q = rr_run_id r \<and> (awake q \<or> rr_status q = SUSPENDED \<and> rr_run_id r \<in> set (map rr_run_id ?rows))"
    by (intro bexI [of _ ?r]) (auto intro: rev_image_eqI)
  from woken_all [OF this] have up: "\<exists>q \<in> set (runs ?t). rr_run_id q = rr_run_id r \<and> awake q" .
  have fired: "fire_timers now ?s = Inr ((), ?t)" by (simp add: fire_timers_def bindT_def queryT_def forT_exec)
  have "thenT (expire_deadlines E now) (execT (drop_ephemeral now)) ?t = Inr (x, u)"
    using assms(1) fired by (simp add: sweep_def bindT_def [of "execT (reclaim_expired now)"] bindT_def [of "fire_timers now"]
        execT_def [of "reclaim_expired now"])
  moreover have "stable awake_kept (thenT (expire_deadlines E now) (execT (drop_ephemeral now)))"
    by (intro awake.primitive_rules awake.deadlines_rule stable_exec awake.dropped)
  ultimately have "awake_kept ?t u" by (blast dest: stable_run)
  with up show ?thesis unfolding awake_kept_def by metis
qed

text \<open>
  C32. No run that can go on is left behind. When a lease call hands out fewer leases than it was asked
  for, every run that was queued, abandoned or due before it is afterwards either running under one of
  these leases or ended.
\<close>

theorem due_runs_leased:
  assumes "reachable E s" and "lease_runs E worker capacity lease_s now s = Inr (ls, t)" and "int (length ls) < capacity"
    and "r \<in> set (runs s)" and "can_go_on now r"
  shows "\<exists>q. find_run t (rr_run_id r) = Some q \<and>
    (is_terminal (rr_status q) \<or> (\<exists>l \<in> set ls. ls_run_id l = rr_run_id r \<and> ls_worker_id l = worker \<and> holds_lease l q))"
proof -
  have inv: "sched_inv s" using reachable_inv [OF assms(1)] by (simp add: store_inv_def)
  obtain u where u: "sweep E now s = Inr ((), u)"
    and run: "mapT (claim worker (now + lease_s) now) (candidates u capacity) u = Inr (ls, t)"
    using lease_runs_split [OF assms(2)] assms(3) by auto
  have uinv: "sched_inv u" using kept_run [OF sched.sweep_rule u inv] .
  note granted = claims_result [OF candidates_pending [OF uinv] run]
  from sweep_wakes [OF u assms(4,5)] obtain q where q: "q \<in> set (runs u)" "rr_run_id q = rr_run_id r" "awake q" by blast
  have found: "find_run u (rr_run_id r) = Some q"
    using q(1,2) find_run_unique sched_invD(1) [OF uinv] by metis
  have "length (candidates u capacity) = length ls" using granted by (metis length_map)
  then have all: "candidates u capacity = map rr_run_id (sort_key (\<lambda>r. (tenant_rank (pending_runs u) r, claim_key r)) (pending_runs u))"
    using assms(3) by (simp add: candidates_def Let_def)
  show ?thesis
  proof (cases "rr_status q = PENDING")
    case True
    then have "rr_run_id r \<in> set (candidates u capacity)" using q(1,2) by (auto simp: all pending_runs_def intro: rev_image_eqI)
    then obtain l where l: "l \<in> set ls" "ls_run_id l = rr_run_id r" using granted by (metis imageE list.set_map)
    with granted obtain q' where "find_run t (rr_run_id r) = Some q'" "holds_lease l q'" "ls_worker_id l = worker"
      by (auto simp: holds_def split: option.splits)
    with l show ?thesis by blast
  next
    case False
    then have "rr_run_id r \<notin> set (candidates u capacity)"
      using candidates_pending [OF uinv, of capacity] q(1,2) by (auto simp: pending_ids_def)
    then have "find_run t (rr_run_id r) = Some q" using granted found by simp
    with q(3) False show ?thesis by (simp add: awake_def)
  qed
qed

theorem due_runs_leased_witness:
  "\<exists>q. find_run (after (lease_runs demo_env ''v'' 2 30 300) demo_running) ''r'' = Some q \<and>
    (is_terminal (rr_status q) \<or> rr_worker_id q = Some ''v'')"
proof -
  let ?m = "lease_runs demo_env ''v'' 2 30 300 demo_running"
  have facts: "(case ?m of Inr (ls, t) \<Rightarrow> int (length ls) = 1 | Inl _ \<Rightarrow> False)"
    "map rr_run_id (runs demo_running) = [''r'']" "list_all (can_go_on 300) (runs demo_running)"
    by code_simp+
  then obtain ls t where run: "?m = Inr (ls, t)" and one: "int (length ls) < 2" by (auto split: sum.splits)
  from facts(2,3) obtain r where r: "r \<in> set (runs demo_running)" "can_go_on 300 r" "rr_run_id r = ''r''"
    by (auto simp: map_eq_Cons_conv)
  from due_runs_leased [OF reachable_running run one r(1,2)] r(3) show ?thesis
    by (auto simp: after_def run holds_lease_def)
qed

end
