(* ===== verification/Run_Mailbox.thy ===== *)
theory Run_Mailbox
  imports Run_Delivery
begin

text \<open>
  The inbox as its users see it: a message to an agent is unseen, waiting or handled. This abstract
  mailbox has two operations, and the tables \<open>rt_inbox\<close> and \<open>rt_processed\<close> with the store's transactions
  implement it.
\<close>

section \<open>The abstract mailbox\<close>

datatype mail_stage = Unseen | Waiting | Handled

type_synonym mailbox = "string \<times> string \<Rightarrow> mail_stage"

definition offer :: "string \<Rightarrow> string \<Rightarrow> mailbox \<Rightarrow> bool \<times> mailbox" where
  "offer agent mid box = (if box (agent, mid) = Unseen then (True, box((agent, mid) := Waiting)) else (False, box))"

definition settle :: "string \<Rightarrow> string \<Rightarrow> mailbox \<Rightarrow> mailbox" where
  "settle agent mid box = box((agent, mid) := Handled)"

text \<open>The mailbox the tables stand for.\<close>

definition stage :: "db \<Rightarrow> mailbox" where
  "stage s = (\<lambda>(agent, mid). if in_inbox s agent mid then Waiting else if is_processed s agent mid then Handled else Unseen)"

section \<open>The tables implement it\<close>

lemma stage_same: "inbox t = inbox s \<Longrightarrow> processed t = processed s \<Longrightarrow> stage t = stage s"
  by (simp add: stage_def in_inbox_def is_processed_def fun_eq_iff)

lemma wake_agent_mail: "wp (wake_agent E d) (\<lambda>_ t. inbox t = inbox s \<and> processed t = processed s) s"
  by (auto simp: wake_agent_def insert_run_def split: option.splits)

lemma wake_agent_accepts: "wp (wake_agent E d) (\<lambda>r _. dr_accepted r) s"
  by (auto simp: wake_agent_def insert_run_def delivered_def split: option.splits)

lemma stage_put:
  assumes "stage s (actor_str (dv_agent d), msg_id (dv_msg d)) = Unseen"
  shows "stage (put_inbox d s) = (stage s)((actor_str (dv_agent d), msg_id (dv_msg d)) := Waiting)"
  using assms by (auto simp: stage_def in_inbox_def is_processed_def put_inbox_def fun_eq_iff split: if_splits)

lemma accept_stage:
  "accept d s = Inr (stage s (actor_str (dv_agent d), msg_id (dv_msg d)) = Unseen,
     if stage s (actor_str (dv_agent d), msg_id (dv_msg d)) = Unseen then put_inbox d s else s)"
  by (simp add: accept_def stage_def Let_def run_simps)

lemma stage_deliver:
  assumes "deliver E d wake s = Inr (r, t)"
  shows "offer (actor_str (dv_agent d)) (msg_id (dv_msg d)) (stage s) = (dr_accepted r, stage t)"
proof (cases "stage s (actor_str (dv_agent d), msg_id (dv_msg d)) = Unseen")
  case True
  have "dr_accepted r \<and> inbox t = inbox (put_inbox d s) \<and> processed t = processed (put_inbox d s)"
  proof (cases wake)
    case wake: True
    with assms True have "wake_agent E d (put_inbox d s) = Inr (r, t)" by (simp add: deliver_def bindT_def accept_stage)
    with wp_run [OF wp_conj [OF wake_agent_accepts wake_agent_mail] this] show ?thesis by simp
  next
    case False
    with assms True show ?thesis by (auto simp: deliver_def bindT_def accept_stage retT_def delivered_def)
  qed
  then have "dr_accepted r" "stage t = stage (put_inbox d s)" by (auto intro: stage_same)
  with stage_put [OF True] True show ?thesis by (simp add: offer_def)
next
  case False
  with assms show ?thesis by (auto simp: deliver_def bindT_def accept_stage retT_def delivered_def offer_def)
qed

lemma stage_ack_one: "stage (ack_one agent now mid s) = settle agent mid (stage s)"
  by (auto simp: stage_def settle_def ack_one_def Let_def in_inbox_def is_processed_def fun_eq_iff)

lemma stage_acks: "stage (foldl (\<lambda>s mid. ack_one agent now mid s) s mids) = fold (settle agent) mids (stage s)"
  by (induction mids arbitrary: s) (simp_all add: stage_ack_one)

lemma stage_draws [simp]: "stage (s\<lparr>draws := n\<rparr>) = stage s"
  by (rule stage_same) simp_all

lemma ack_run:
  "ack E agent mids s = Inr ((), foldl (\<lambda>s mid. ack_one agent now mid s) (s\<lparr>draws := Suc (draws s)\<rparr>) mids)"
  if "now = env_clock E (draws s)"
proof -
  have "drawT (env_clock E) s = Inr (now, s\<lparr>draws := Suc (draws s)\<rparr>)" by (simp add: drawT_def run_simps that)
  then show ?thesis by (simp add: ack_def bindT_def [of "drawT _"] forT_exec)
qed

lemma stage_ack: "ack E agent mids s = Inr ((), t) \<Longrightarrow> stage t = fold (settle agent) mids (stage s)"
  using ack_run [of _ E s agent mids] by (auto simp: stage_acks)

lemma stage_nack:
  assumes "nack E agent mid err fin s = Inr ((), t)"
  shows "stage t = stage s \<or> stage s (agent, mid) = Waiting \<and> stage t = settle agent mid (stage s)"
proof (cases "List.find (\<lambda>i. ib_agent i = agent \<and> ib_msg_id i = mid) (inbox s)")
  case None
  with assms show ?thesis by (simp add: nack_def run_simps)
next
  case (Some i)
  have "in_inbox s agent mid" using find_SomeD [OF Some] by (auto simp: in_inbox_def)
  then have waits: "stage s (agent, mid) = Waiting" by (simp add: stage_def)
  show ?thesis
  proof (cases "ib_attempts i + 1 < env_max_attempts E \<and> \<not> fin")
    case True
    let ?u = "s\<lparr>inbox := update_where (\<lambda>i. ib_agent i = agent \<and> ib_msg_id i = mid) (\<lambda>j. j\<lparr>ib_attempts := ib_attempts i + 1\<rparr>) (inbox s)\<rparr>"
    from assms Some True have t: "t = ?u" by (simp add: nack_def Let_def run_simps)
    have "in_inbox ?u = in_inbox s" by (simp add: in_inbox_map fun_eq_iff map_update_where)
    moreover have "is_processed ?u = is_processed s" by (simp add: is_processed_def fun_eq_iff)
    ultimately have "stage ?u = stage s" by (simp only: stage_def)
    then show ?thesis unfolding t ..
  next
    case False
    from assms Some False obtain de where "ack E agent [mid] (put_dead agent mid (ib_tenant i) de s) = Inr ((), t)"
      by (auto simp: nack_def Let_def bindT_def queryT_def execT_def address_def liftT_def failT_def retT_def split: sum.splits if_splits)
    from stage_ack [OF this] have "stage t = settle agent mid (stage (put_dead agent mid (ib_tenant i) de s))" by simp
    moreover have "stage (put_dead agent mid (ib_tenant i) de s) = stage s" by (rule stage_same) (simp_all add: put_dead_def)
    ultimately show ?thesis using waits by simp
  qed
qed

text \<open>
  C33. The inbox implements the abstract mailbox. Delivering is offering: the message is accepted exactly
  if it was unseen and then waits, otherwise nothing changes. Acknowledging settles the messages, in the
  inbox or not. A negative acknowledgement leaves the mailbox as it is, or settles the message if it waited.
\<close>

theorem inbox_refines_mailbox:
  "(case deliver E d wake s of Inl _ \<Rightarrow> True
     | Inr (r, t) \<Rightarrow> offer (actor_str (dv_agent d)) (msg_id (dv_msg d)) (stage s) = (dr_accepted r, stage t)) \<and>
   (case ack E agent mids s of Inl _ \<Rightarrow> False | Inr (_, t) \<Rightarrow> stage t = fold (settle agent) mids (stage s)) \<and>
   (case nack E agent mid err fin s of Inl _ \<Rightarrow> True
     | Inr (_, t) \<Rightarrow> stage t = stage s \<or> stage s (agent, mid) = Waiting \<and> stage t = settle agent mid (stage s))"
  using stage_deliver [of E d wake s] stage_ack [of E agent mids s] stage_nack [of E agent mid err fin s] ack_run [of _ E s agent mids]
  by (auto split: sum.splits)

end
