(* ===== verification/Compaction.thy ===== *)
theory Compaction
  imports Blocks Actions
begin

text \<open>
  The strategies that shorten a conversation before it is sent to a model (\<open>context/compaction\<close>), their
  composition, and the coordinator that runs them in the phases of a turn. A strategy may call a model, so
  it is an action on the world; the deterministic ones are functions of the history.
\<close>

type_synonym 'w strategy = "chat_message list \<Rightarrow> ('w, exn, chat_message list) act"

definition pureS :: "(chat_message list \<Rightarrow> chat_message list) \<Rightarrow> 'w strategy" where
  "pureS f = (\<lambda>h. retA (f h))"

section \<open>Windows\<close>

text \<open>\<open>drop_orphaned_tool_results\<close>.\<close>

definition drop_orphaned_tool_results :: "chat_message list \<Rightarrow> chat_message list" where
  "drop_orphaned_tool_results window = dropWhile (\<lambda>m. tm_role m = TOOL) window"

text \<open>\<open>history[-n:]\<close>: for \<open>n = 0\<close> the slice is the whole list.\<close>

definition last_messages :: "int \<Rightarrow> 'a list \<Rightarrow> 'a list" where
  "last_messages n h = (if 0 < n then drop (length h - nat n) h else drop (nat (- n)) h)"

definition sliding_window :: "int \<Rightarrow> chat_message list \<Rightarrow> chat_message list" where
  "sliding_window max_messages h = (if int (length h) \<le> max_messages then h
     else drop_orphaned_tool_results (last_messages max_messages h))"

text \<open>The newest turns of which the running total of \<open>cost\<close> stays within the bound.\<close>

fun newest_within :: "(chat_message \<Rightarrow> nat) \<Rightarrow> int \<Rightarrow> nat \<Rightarrow> chat_message list \<Rightarrow> chat_message list" where
  "newest_within cost bound acc [] = []"
| "newest_within cost bound acc (m # ms) = (if bound < int (acc + cost m) then []
     else m # newest_within cost bound (acc + cost m) ms)"

definition truncate_by_chars :: "codec \<Rightarrow> int \<Rightarrow> chat_message list \<Rightarrow> chat_message list" where
  "truncate_by_chars X max_chars h =
     drop_orphaned_tool_results (rev (newest_within (estimate_message_chars X) max_chars 0 (rev h)))"

definition truncation :: "codec \<Rightarrow> int option \<Rightarrow> int option \<Rightarrow> chat_message list \<Rightarrow> chat_message list" where
  "truncation X max_messages max_chars h =
     (let h1 = (case max_messages of None \<Rightarrow> h
          | Some n \<Rightarrow> if n < int (length h) then drop_orphaned_tool_results (last_messages n h) else h)
      in case max_chars of None \<Rightarrow> h1 | Some c \<Rightarrow> truncate_by_chars X c h1)"

section \<open>Old tool calls\<close>

definition is_tool_call_turn :: "chat_message \<Rightarrow> bool" where
  "is_tool_call_turn m \<longleftrightarrow> tm_role m = ASSISTANT \<and> list_ex is_tool_use (tm_content m)"

definition is_tool_result_turn :: "chat_message \<Rightarrow> bool" where
  "is_tool_result_turn m \<longleftrightarrow> tm_role m = TOOL"

text \<open>\<open>_find_groups\<close> from index \<open>i\<close> on: the first and last index of every call with its results.\<close>

function find_groups :: "nat \<Rightarrow> chat_message list \<Rightarrow> (nat \<times> nat) list" where
  "find_groups i [] = []"
| "find_groups i (m # ms) = (if is_tool_call_turn m
     then let k = length (takeWhile is_tool_result_turn ms) in (i, i + k) # find_groups (i + k + 1) (drop k ms)
     else find_groups (i + 1) ms)"
  by pat_completeness auto

termination by (relation "measure (\<lambda>(i, ms). length ms)") auto

definition selective_tool_call :: "int \<Rightarrow> chat_message list \<Rightarrow> chat_message list" where
  "selective_tool_call keep h =
     (let groups = find_groups 0 h in
      if int (length groups) \<le> keep then h
      else let remove = concat (map (\<lambda>(start, last). [start ..< last + 1]) (take (nat (int (length groups) - keep)) groups))
           in map snd (filter (\<lambda>(i, m). i \<notin> set remove) (enumerate 0 h)))"

section \<open>Long tool results\<close>

definition truncated_mark :: "nat \<Rightarrow> string" where
  "truncated_mark n = [CHR 0x0A, CHR 0x85] @ '' ['' @ show_nat n @ '' chars truncated]''"

definition truncate_result :: "nat \<Rightarrow> content \<Rightarrow> content \<times> bool" where
  "truncate_result max_chars b = (case b of ToolResultBlock cid name bs err \<Rightarrow>
       (let ts = texts bs; total = sum_list (map length ts) in
        if total \<le> max_chars then (b, False)
        else (ToolResultBlock cid name
               (TextBlock (take max_chars (join_with [CHR 0x0A] ts) @ truncated_mark (total - max_chars)) #
                filter (\<lambda>c. text_of c = None) bs) False, True))
     | _ \<Rightarrow> (b, False))"

definition compact_result :: "nat \<Rightarrow> content \<Rightarrow> content \<times> bool" where
  "compact_result max_chars b = (case b of ToolResultBlock _ _ _ err \<Rightarrow> if err then (b, False) else truncate_result max_chars b
     | _ \<Rightarrow> (b, False))"

definition compact_tool_message :: "nat \<Rightarrow> chat_message \<Rightarrow> chat_message" where
  "compact_tool_message max_chars m = (let rs = map (compact_result max_chars) (tm_content m) in
     if tm_role m \<noteq> TOOL \<or> \<not> list_ex snd rs then m
     else (turn TOOL (map fst rs))\<lparr>tm_name := tm_name m\<rparr>)"

definition tool_result_compaction :: "nat \<Rightarrow> chat_message list \<Rightarrow> chat_message list" where
  "tool_result_compaction max_chars h = map (compact_tool_message max_chars) h"

section \<open>Summaries\<close>

definition summary_prefix :: string where
  "summary_prefix = ''[Earlier conversation summary]''"

text \<open>\<open>str.strip()\<close> and \<open>str.upper()\<close> on the characters of the model.\<close>

definition is_space :: "char \<Rightarrow> bool" where
  "is_space c \<longleftrightarrow> (let n = of_char c :: nat in n \<in> {9, 10, 11, 12, 13, 28, 29, 30, 31, 32, 133, 160})"

definition strip :: "string \<Rightarrow> string" where
  "strip s = rev (dropWhile is_space (rev (dropWhile is_space s)))"

fun role_label :: "role \<Rightarrow> string" where
  "role_label SYSTEM = ''SYSTEM''"
| "role_label USER = ''USER''"
| "role_label ASSISTANT = ''ASSISTANT''"
| "role_label TOOL = ''TOOL''"

definition is_summary :: "chat_message \<Rightarrow> bool" where
  "is_summary m \<longleftrightarrow> tm_role m = SYSTEM \<and> list_ex (starts_with summary_prefix) (texts (tm_content m))"

definition extract_summary_text :: "chat_message \<Rightarrow> string" where
  "extract_summary_text m = (case List.find (starts_with summary_prefix) (texts (tm_content m)) of
     None \<Rightarrow> [] | Some t \<Rightarrow> strip (drop (length summary_prefix) t))"

definition message_lines :: "chat_message \<Rightarrow> string list" where
  "message_lines m = (if tm_role m = SYSTEM
     then map (\<lambda>t. ''SUMMARY: '' @ strip (drop (length summary_prefix) t)) (filter (starts_with summary_prefix) (texts (tm_content m)))
     else let text = join_with '' '' (filter (\<lambda>t. t \<noteq> []) (texts (tm_content m))) in
          if text \<noteq> [] then [role_label (tm_role m) @ '': '' @ text] else [])"

definition messages_to_text :: "chat_message list \<Rightarrow> string" where
  "messages_to_text ms = join_with [CHR 0x0A] (concat (map message_lines ms))"

definition make_summary_message :: "string \<Rightarrow> chat_message" where
  "make_summary_message s = turn SYSTEM [TextBlock (summary_prefix @ [CHR 0x0A] @ s)]"

text \<open>\<open>_split\<close>: what is summarised, and the recent turns that are kept.\<close>

definition split_recent :: "codec \<Rightarrow> rat \<Rightarrow> int \<Rightarrow> chat_message list \<Rightarrow> chat_message list \<times> chat_message list" where
  "split_recent X cpt budget h = (let recent = rev (newest_within (estimate_message_tokens X cpt) budget 0 (rev h)) in
     (take (length h - length recent) h, recent))"

text \<open>
  The model's \<open>generate\<close> on one prompt under a system instruction, whether the summary is an update, gives
  the text of its response; an exception of it is replaced by a placeholder.
\<close>

type_synonym 'w summarizer = "bool \<Rightarrow> chat_message \<Rightarrow> ('w, exn, string) act"

definition summary_prompt :: "chat_message list \<Rightarrow> string \<Rightarrow> string" where
  "summary_prompt ms existing = (if existing \<noteq> []
     then ''Existing summary:'' @ [CHR 0x0A] @ existing @ [CHR 0x0A, CHR 0x0A] @ ''New messages to incorporate:'' @ [CHR 0x0A] @ messages_to_text ms
     else ''Conversation to summarize:'' @ [CHR 0x0A, CHR 0x0A] @ messages_to_text ms)"

definition get_summary :: "'w summarizer \<Rightarrow> chat_message list \<Rightarrow> string \<Rightarrow> ('w, exn, string) act" where
  "get_summary generate ms existing =
     catchA (bindA (generate (existing \<noteq> []) (turn USER [TextBlock (summary_prompt ms existing)])) (\<lambda>t. retA (strip t)))
       (\<lambda>e. if is_exception e
            then retA (''[Summary unavailable '' @ [CHR 0x97] @ '' '' @ show_nat (length ms) @ '' earlier messages omitted]'') else raiseA e)"

definition summarization :: "codec \<Rightarrow> rat \<Rightarrow> int \<Rightarrow> int \<Rightarrow> 'w summarizer \<Rightarrow> 'w strategy" where
  "summarization X cpt recent_token_budget min_old_tokens generate h =
     (case split_recent X cpt recent_token_budget h of (old, recent) \<Rightarrow>
      if int (estimate_tokens X cpt old) < min_old_tokens then retA h
      else let leading = (old \<noteq> [] \<and> is_summary (hd old)) in
           bindA (get_summary generate (if leading then tl old else old) (if leading then extract_summary_text (hd old) else []))
             (\<lambda>s. retA (make_summary_message s # recent)))"

section \<open>Composition\<close>

fun pipeline :: "'w strategy list \<Rightarrow> 'w strategy" where
  "pipeline [] h = retA h"
| "pipeline (f # fs) h = bindA (f h) (pipeline fs)"

fun until_fits :: "codec \<Rightarrow> rat \<Rightarrow> int \<Rightarrow> 'w strategy list \<Rightarrow> 'w strategy" where
  "until_fits X cpt budget [] h = retA h"
| "until_fits X cpt budget (f # fs) h = bindA (f h) (\<lambda>h'.
     if int (estimate_tokens X cpt h') \<le> budget then retA h' else until_fits X cpt budget fs h')"

text \<open>\<open>TokenBudgetComposedStrategy.compact\<close>.\<close>

definition token_budget_composed :: "codec \<Rightarrow> rat \<Rightarrow> int \<Rightarrow> 'w strategy list \<Rightarrow> 'w strategy" where
  "token_budget_composed X cpt budget fs h =
     (if int (estimate_tokens X cpt h) \<le> budget then retA h else until_fits X cpt budget fs h)"

definition token_budget_pipeline :: "codec \<Rightarrow> int \<Rightarrow> 'w strategy" where
  "token_budget_pipeline X budget = pipeline [token_budget_composed X 4 budget
     [pureS (tool_result_compaction 1500), pureS (selective_tool_call 5), pureS (truncation X None (Some 200000))]]"

section \<open>The coordinator\<close>

definition over_budget :: "nat \<Rightarrow> int \<Rightarrow> exn" where
  "over_budget n budget = KernelExn BudgetExhaustedError
     (''Context exceeds token budget ('' @ show_nat n @ '' > '' @ show_int budget @ '') even after dropping all non-system turns'') None"

text \<open>The loop that drops the oldest turn, and the results of a dropped call with it.\<close>

function drop_until_fits :: "(chat_message list \<Rightarrow> nat) \<Rightarrow> int \<Rightarrow> chat_message list \<Rightarrow> chat_message list" where
  "drop_until_fits cost budget [] = []"
| "drop_until_fits cost budget (m # ms) = (if budget < int (cost (m # ms))
     then drop_until_fits cost budget (drop_orphaned_tool_results ms) else m # ms)"
  by pat_completeness auto

termination by (relation "measure (\<lambda>(cost, budget, ms). length ms)")
    (auto simp: drop_orphaned_tool_results_def less_Suc_eq_le length_dropWhile_le)

definition split_system :: "chat_message list \<Rightarrow> chat_message list \<times> chat_message list" where
  "split_system ms = (case ms of m # rest \<Rightarrow> if tm_role m = SYSTEM then ([m], rest) else ([], ms) | [] \<Rightarrow> ([], []))"

definition deterministic_fallback :: "codec \<Rightarrow> rat \<Rightarrow> chat_message list \<Rightarrow> int option \<Rightarrow> exn + chat_message list" where
  "deterministic_fallback X cpt ms budget = (case budget of None \<Rightarrow> Inr ms
     | Some b \<Rightarrow> if ms = [] \<or> int (estimate_tokens X cpt ms) \<le> b then Inr ms
         else (case split_system ms of (prefix, working) \<Rightarrow>
           (let result = prefix @ drop_until_fits (\<lambda>ws. estimate_tokens X cpt (prefix @ ws)) b working in
            if b < int (estimate_tokens X cpt result) then Inl (over_budget (estimate_tokens X cpt result) b) else Inr result)))"

definition liftE :: "exn + 'a \<Rightarrow> ('w, exn, 'a) act" where
  "liftE r = (case r of Inl e \<Rightarrow> raiseA e | Inr a \<Rightarrow> retA a)"

definition compact_pre_llm :: "codec \<Rightarrow> rat \<Rightarrow> 'w strategy option \<Rightarrow> int option \<Rightarrow> 'w strategy" where
  "compact_pre_llm X cpt pre budget ms =
     bindA (case pre of None \<Rightarrow> liftE (deterministic_fallback X cpt ms budget)
        | Some f \<Rightarrow> catchA (f ms) (\<lambda>e. if is_exception e then liftE (deterministic_fallback X cpt ms budget) else raiseA e))
     (\<lambda>out. case budget of None \<Rightarrow> retA out
        | Some b \<Rightarrow> if b < int (estimate_tokens X cpt out) then liftE (deterministic_fallback X cpt out budget) else retA out)"

definition compact_post_tool :: "(content \<Rightarrow> ('w, exn, content) act) option \<Rightarrow> content option \<Rightarrow> ('w, exn, content) act" where
  "compact_post_tool strategy block = (case block of
       None \<Rightarrow> raiseA (PyExn ''ValueError'' ''tool_content must be provided in CompactionContext for POST_TOOL phase'')
     | Some b \<Rightarrow> (case strategy of None \<Rightarrow> retA b
        | Some f \<Rightarrow> catchA (f b) (\<lambda>e. if is_exception e then retA b else raiseA e)))"

definition compact_post_turn :: "('w, exn, 'c option) act option \<Rightarrow> ('w, exn, 'c option) act" where
  "compact_post_turn summarizer = (case summarizer of None \<Rightarrow> retA None
     | Some f \<Rightarrow> catchA f (\<lambda>e. if is_exception e then retA None else raiseA e))"

end
