(* ===== verification/Thread_Store.thy ===== *)
theory Thread_Store
  imports Compaction
begin

text \<open>
  Threads (\<open>stores/threads.py\<close>, \<open>stores/thread_tables.py\<close>): the history of a session is a graph of immutable
  nodes, a branch is a movable head in it, a checkpoint summarises what comes before a node. A row holds the
  object it was written from: \<open>_payload\<close> and \<open>_node\<close> are inverse, and a time is ordered as the text of its
  ISO form, \<open>cx_time\<close>. Every method of \<open>Threads\<close> is one transaction.
\<close>

section \<open>Rows\<close>

record message_node =
  mn_id :: string
  mn_parent_id :: "string option"
  mn_session_id :: string
  mn_run_id :: string
  mn_payload :: chat_message
  mn_workspace_snapshot_id :: "string option"
  mn_created_at :: seconds

record branch =
  br_id :: string
  br_session_id :: string
  br_name :: "string option"
  br_head :: "string option"
  br_forked_from :: "string option"
  br_version :: int
  br_created_at :: seconds

record checkpoint =
  hc_id :: string
  hc_session_id :: string
  hc_anchor :: string
  hc_summary :: string
  hc_state :: json
  hc_parent :: "string option"
  hc_created_at :: seconds

record thread_db =
  td_nodes :: "message_node list"
  td_branches :: "branch list"
  td_checkpoints :: "checkpoint list"

type_synonym 'a thread_tx = "(thread_db, exn, 'a) tx"

definition no_threads :: thread_db where
  "no_threads = \<lparr>td_nodes = [], td_branches = [], td_checkpoints = []\<rparr>"

text \<open>\<open>f'{x}'\<close> of an optional string.\<close>

definition opt_text :: "string option \<Rightarrow> string" where
  "opt_text x = (case x of None \<Rightarrow> ''None'' | Some s \<Rightarrow> s)"

definition in_quotes :: "string \<Rightarrow> string" where
  "in_quotes s = [CHR 0x27] @ s @ [CHR 0x27]"

definition dag_error :: "string \<Rightarrow> exn" where
  "dag_error msg = KernelExn DAGIntegrityError msg None"

text \<open>\<open>_conflict\<close>; the fields that repeat what its text says are left out.\<close>

definition head_conflict :: "string \<Rightarrow> exn" where
  "head_conflict msg = KernelExn BranchHeadConflictError msg None"

section \<open>Reading\<close>

definition node_at :: "string \<Rightarrow> thread_db \<Rightarrow> message_node option" where
  "node_at nid db = List.find (\<lambda>n. mn_id n = nid) (td_nodes db)"

definition is_branch :: "string \<Rightarrow> string \<Rightarrow> branch \<Rightarrow> bool" where
  "is_branch sid bid b \<longleftrightarrow> br_session_id b = sid \<and> br_id b = bid"

definition branch_at :: "string \<Rightarrow> string \<Rightarrow> thread_db \<Rightarrow> branch option" where
  "branch_at sid bid db = List.find (is_branch sid bid) (td_branches db)"

definition get_node :: "string \<Rightarrow> message_node option thread_tx" where
  "get_node nid = queryT (node_at nid)"

definition get_branch :: "string \<Rightarrow> string \<Rightarrow> branch option thread_tx" where
  "get_branch sid bid = queryT (branch_at sid bid)"

definition list_branches :: "codec \<Rightarrow> string \<Rightarrow> branch list thread_tx" where
  "list_branches X sid = queryT (\<lambda>db. sort_key (\<lambda>b. (cx_time X (br_created_at b), br_id b))
     (filter (\<lambda>b. br_session_id b = sid) (td_branches db)))"

definition get_checkpoint :: "string \<Rightarrow> checkpoint option thread_tx" where
  "get_checkpoint cid = queryT (\<lambda>db. List.find (\<lambda>c. hc_id c = cid) (td_checkpoints db))"

definition checkpoints_of :: "codec \<Rightarrow> string \<Rightarrow> thread_db \<Rightarrow> checkpoint list" where
  "checkpoints_of X sid db = sort_key (\<lambda>c. (cx_time X (hc_created_at c), hc_id c))
     (filter (\<lambda>c. hc_session_id c = sid) (td_checkpoints db))"

definition list_checkpoints :: "codec \<Rightarrow> string \<Rightarrow> checkpoint list thread_tx" where
  "list_checkpoints X sid = queryT (checkpoints_of X sid)"

section \<open>Nodes\<close>

definition same_node :: "message_node \<Rightarrow> message_node \<Rightarrow> bool" where
  "same_node existing node \<longleftrightarrow> mn_parent_id existing = mn_parent_id node \<and> mn_session_id existing = mn_session_id node \<and>
     mn_run_id existing = mn_run_id node \<and> mn_payload existing = mn_payload node"

definition check_same :: "message_node \<Rightarrow> message_node \<Rightarrow> unit thread_tx" where
  "check_same existing node = guardT (same_node existing node)
     (dag_error (''Node '' @ in_quotes (mn_id node) @ '' already exists with different contents''))"

definition check_parent :: "message_node \<Rightarrow> unit thread_tx" where
  "check_parent node = (case mn_parent_id node of None \<Rightarrow> retT ()
     | Some pid \<Rightarrow> if pid = mn_id node then failT (dag_error (''Node '' @ in_quotes (mn_id node) @ '' cannot have itself as parent''))
         else bindT (get_node pid) (\<lambda>parent. case parent of
              None \<Rightarrow> failT (dag_error (''Parent node '' @ in_quotes pid @ '' does not exist''))
            | Some p \<Rightarrow> guardT (mn_session_id p = mn_session_id node)
                (dag_error (''Parent node belongs to session '' @ in_quotes (mn_session_id p) @ '', expected '' @ in_quotes (mn_session_id node)))))"

text \<open>\<open>INSERT .. ON CONFLICT DO NOTHING\<close>: whether the row went in.\<close>

definition insert_node :: "message_node \<Rightarrow> bool thread_tx" where
  "insert_node node = bindT (get_node (mn_id node)) (\<lambda>old. if old \<noteq> None then retT False
     else thenT (execT (td_nodes_update (\<lambda>ns. ns @ [node]))) (retT True))"

text \<open>
  \<open>_append_node\<close>. The second look, after an insert that another writer was faster than, finds the row that
  was inserted.
\<close>

definition append_node :: "message_node \<Rightarrow> unit thread_tx" where
  "append_node node = bindT (get_node (mn_id node)) (\<lambda>existing. case existing of Some e \<Rightarrow> check_same e node
     | None \<Rightarrow> thenT (check_parent node) (bindT (insert_node node) (\<lambda>inserted. if inserted then retT ()
         else bindT (get_node (mn_id node)) (\<lambda>again. case again of Some e \<Rightarrow> check_same e node | None \<Rightarrow> retT ()))))"

section \<open>Branches\<close>

definition insert_branch :: "branch \<Rightarrow> bool thread_tx" where
  "insert_branch b = bindT (get_branch (br_session_id b) (br_id b)) (\<lambda>old. if old \<noteq> None then retT False
     else thenT (execT (td_branches_update (\<lambda>bs. bs @ [b]))) (retT True))"

definition new_branch :: "seconds \<Rightarrow> string \<Rightarrow> string \<Rightarrow> string option \<Rightarrow> string option \<Rightarrow> branch" where
  "new_branch now sid bid head forked = \<lparr>br_id = bid, br_session_id = sid, br_name = None, br_head = head,
     br_forked_from = forked, br_version = 0, br_created_at = now\<rparr>"

text \<open>\<open>assert x is not None\<close>.\<close>

definition assert_some :: "'a option \<Rightarrow> 'a thread_tx" where
  "assert_some x = (case x of None \<Rightarrow> failT (PyExn ''AssertionError'' []) | Some a \<Rightarrow> retT a)"

definition ensure_branch :: "seconds \<Rightarrow> string \<Rightarrow> string \<Rightarrow> string option \<Rightarrow> branch thread_tx" where
  "ensure_branch now sid bid head = bindT (insert_branch (new_branch now sid bid head None))
     (\<lambda>_. bindT (get_branch sid bid) assert_some)"

text \<open>\<open>UPDATE .. WHERE session_id = ? AND id = ? AND version = ?\<close>: the number of rows changed.\<close>

definition swap_branch :: "branch \<Rightarrow> (branch \<Rightarrow> branch) \<Rightarrow> nat thread_tx" where
  "swap_branch b f = (let P = (\<lambda>x. is_branch (br_session_id b) (br_id b) x \<and> br_version x = br_version b) in
     bindT (queryT (\<lambda>db. length (filter P (td_branches db)))) (\<lambda>n.
       thenT (execT (td_branches_update (update_where P (\<lambda>x. (f x)\<lparr>br_version := br_version x + 1\<rparr>)))) (retT n)))"

definition changed_concurrently :: "string \<Rightarrow> exn" where
  "changed_concurrently bid = head_conflict (''Branch '' @ in_quotes bid @ '' was changed concurrently'')"

definition swapped :: "branch \<Rightarrow> (branch \<Rightarrow> branch) \<Rightarrow> branch thread_tx" where
  "swapped b f = bindT (swap_branch b f) (\<lambda>n. thenT (guardT (n \<noteq> 0) (changed_concurrently (br_id b)))
     (bindT (get_branch (br_session_id b) (br_id b)) assert_some))"

definition advance :: "branch \<Rightarrow> string \<Rightarrow> branch thread_tx" where
  "advance b head = swapped b (\<lambda>x. x\<lparr>br_head := Some head, br_name := br_name b\<rparr>)"

definition no_such_branch :: "string \<Rightarrow> string \<Rightarrow> string \<Rightarrow> exn" where
  "no_such_branch what bid sid = KernelExn BranchNotFoundError
     (what @ '' '' @ in_quotes bid @ '' not found in session '' @ in_quotes sid) None"

definition rename_branch :: "string \<Rightarrow> string \<Rightarrow> string \<Rightarrow> branch thread_tx" where
  "rename_branch sid bid name = bindT (get_branch sid bid) (\<lambda>b. case b of
       None \<Rightarrow> failT (no_such_branch ''Branch'' bid sid)
     | Some b \<Rightarrow> swapped b (\<lambda>x. x\<lparr>br_name := Some name\<rparr>))"

text \<open>
  \<open>_check_expectations\<close>. \<open>None\<close> for the expected head is \<open>_UNSET\<close>.
\<close>

definition check_expectations :: "branch \<Rightarrow> string option option \<Rightarrow> int option \<Rightarrow> string \<Rightarrow> unit thread_tx" where
  "check_expectations b expected_head expected_version suffix =
     thenT (case expected_head of None \<Rightarrow> retT ()
        | Some h \<Rightarrow> guardT (br_head b = h) (head_conflict (''Branch head conflict'' @ suffix @ '': expected '' @
             in_quotes (opt_text h) @ '', actual '' @ in_quotes (opt_text (br_head b)))))
       (case expected_version of None \<Rightarrow> retT ()
        | Some v \<Rightarrow> guardT (br_version b = v) (head_conflict (''Branch version conflict'' @ suffix @ '': expected '' @
             show_int v @ '', actual '' @ show_int (br_version b))))"

definition set_branch_head :: "string \<Rightarrow> string \<Rightarrow> string \<Rightarrow> string option option \<Rightarrow> int option \<Rightarrow> branch thread_tx" where
  "set_branch_head sid bid new_head expected_head expected_version = bindT (get_branch sid bid) (\<lambda>b. case b of
       None \<Rightarrow> failT (no_such_branch ''Branch'' bid sid)
     | Some b \<Rightarrow> thenT (check_expectations b expected_head expected_version [])
         (bindT (get_node new_head) (\<lambda>n. case n of
            None \<Rightarrow> failT (dag_error (''New head node '' @ in_quotes new_head @ '' does not exist''))
          | Some n \<Rightarrow> thenT (guardT (mn_session_id n = sid) (dag_error (''New head node belongs to session '' @
                in_quotes (mn_session_id n) @ '', expected '' @ in_quotes sid)))
              (advance b new_head))))"

definition append_and_advance :: "seconds \<Rightarrow> message_node \<Rightarrow> string \<Rightarrow> string option option \<Rightarrow> int option \<Rightarrow> branch thread_tx" where
  "append_and_advance now node bid expected_head expected_version =
     bindT (get_branch (mn_session_id node) bid) (\<lambda>existing.
       let b = (case existing of Some b \<Rightarrow> b | None \<Rightarrow> new_branch now (mn_session_id node) bid None None) in
       thenT (guardT (mn_parent_id node = br_head b) (head_conflict (''Cannot advance branch '' @ in_quotes bid @ '': node parent '' @
           in_quotes (opt_text (mn_parent_id node)) @ '' does not match current head '' @ in_quotes (opt_text (br_head b)))))
         (thenT (check_expectations b expected_head expected_version '' on advance'')
           (thenT (append_node node)
             (if existing \<noteq> None then advance b (mn_id node)
              else let created = b\<lparr>br_head := Some (mn_id node), br_version := 1\<rparr> in
                bindT (insert_branch created) (\<lambda>inserted. if inserted then retT created
                  else failT (head_conflict (''Branch '' @ in_quotes bid @ '' was created concurrently'')))))))"

section \<open>Forks\<close>

text \<open>
  The recursive query of \<open>fork_branch\<close>: the node and its ancestors, over the \<open>UNION ALL\<close> of a number of
  steps. The number of nodes is enough, since a node comes after its parent.
\<close>

fun ancestry_ids :: "nat \<Rightarrow> thread_db \<Rightarrow> string option \<Rightarrow> string list" where
  "ancestry_ids 0 db cur = []"
| "ancestry_ids (Suc k) db cur = (case cur of None \<Rightarrow> [] | Some nid \<Rightarrow> (case node_at nid db of None \<Rightarrow> []
     | Some n \<Rightarrow> mn_id n # ancestry_ids k db (mn_parent_id n)))"

definition is_ancestor :: "string \<Rightarrow> string \<Rightarrow> thread_db \<Rightarrow> bool" where
  "is_ancestor nid head db \<longleftrightarrow> nid \<in> set (ancestry_ids (length (td_nodes db)) db (Some head))"

definition fork_target :: "string \<Rightarrow> string \<Rightarrow> branch \<Rightarrow> string option \<Rightarrow> string option thread_tx" where
  "fork_target sid source_id source from_id = (case br_head source of
       None \<Rightarrow> (case from_id of None \<Rightarrow> retT None
         | Some f \<Rightarrow> failT (dag_error (''Cannot fork from node '' @ in_quotes f @ '' on empty branch '' @ in_quotes source_id)))
     | Some head \<Rightarrow> (case from_id of None \<Rightarrow> retT (Some head)
         | Some f \<Rightarrow> bindT (get_node f) (\<lambda>target. case target of
              None \<Rightarrow> failT (dag_error (''Fork node '' @ in_quotes f @ '' does not exist''))
            | Some t \<Rightarrow> thenT (guardT (mn_session_id t = sid) (dag_error (''Fork node belongs to session '' @ in_quotes (mn_session_id t) @ '', expected '' @ in_quotes sid)))
                (bindT (queryT (is_ancestor f head)) (\<lambda>found. if found then retT (Some f)
                   else failT (dag_error (''Node '' @ in_quotes f @ '' is not an ancestor of source branch head '' @ in_quotes head)))))))"

definition branch_exists :: "string \<Rightarrow> string \<Rightarrow> exn" where
  "branch_exists bid sid = KernelExn BranchAlreadyExistsError (''Branch '' @ in_quotes bid @ '' already exists in session '' @ in_quotes sid) None"

definition fork_branch :: "seconds \<Rightarrow> string \<Rightarrow> string \<Rightarrow> string \<Rightarrow> string option \<Rightarrow> branch thread_tx" where
  "fork_branch now sid source_id new_id from_id =
     bindT (get_branch sid new_id) (\<lambda>taken. thenT (guardT (taken = None) (branch_exists new_id sid))
       (bindT (get_branch sid source_id) (\<lambda>source. case source of
            None \<Rightarrow> failT (no_such_branch ''Source branch'' source_id sid)
          | Some source \<Rightarrow> bindT (fork_target sid source_id source from_id) (\<lambda>target.
              let forked = new_branch now sid new_id target target in
              bindT (insert_branch forked) (\<lambda>inserted. if inserted then retT forked else failT (branch_exists new_id sid))))))"

section \<open>Checkpoints and deletion\<close>

text \<open>\<open>INSERT .. ON CONFLICT (id) DO UPDATE\<close> of every column.\<close>

definition put_checkpoint :: "checkpoint \<Rightarrow> checkpoint list \<Rightarrow> checkpoint list" where
  "put_checkpoint c cs = (if exists_where (\<lambda>x. hc_id x = hc_id c) cs then update_where (\<lambda>x. hc_id x = hc_id c) (\<lambda>_. c) cs else cs @ [c])"

definition save_checkpoint :: "checkpoint \<Rightarrow> unit thread_tx" where
  "save_checkpoint c = bindT (get_node (hc_anchor c)) (\<lambda>anchor. case anchor of
       None \<Rightarrow> failT (dag_error (''Checkpoint anchor node '' @ in_quotes (hc_anchor c) @ '' does not exist''))
     | Some n \<Rightarrow> thenT (guardT (mn_session_id n = hc_session_id c) (dag_error (''Checkpoint anchor belongs to session '' @
           in_quotes (mn_session_id n) @ '', expected '' @ in_quotes (hc_session_id c))))
         (execT (td_checkpoints_update (put_checkpoint c))))"

definition delete_branch :: "string \<Rightarrow> string \<Rightarrow> unit thread_tx" where
  "delete_branch sid bid = (if bid = ''main'' then failT (PyExn ''ValueError'' ''cannot delete the main branch'')
     else execT (td_branches_update (delete_where (is_branch sid bid))))"

text \<open>The sessions a deletion is about: one, or all that \<open>under\<close> a name finds.\<close>

definition rstrip_slash :: "string \<Rightarrow> string" where
  "rstrip_slash s = rev (dropWhile (\<lambda>c. c = CHR ''/'') (rev s))"

definition under_name :: "string \<Rightarrow> string \<Rightarrow> bool" where
  "under_name name x \<longleftrightarrow> (let stripped = rstrip_slash name; stem = (if stripped = [] then name else stripped) in
     x = stem \<or> take (length stem + 1) x = stem @ ''/'')"

definition delete_sessions :: "(string \<Rightarrow> bool) \<Rightarrow> thread_db \<Rightarrow> thread_db" where
  "delete_sessions P db = \<lparr>td_nodes = delete_where (P \<circ> mn_session_id) (td_nodes db),
     td_branches = delete_where (P \<circ> br_session_id) (td_branches db),
     td_checkpoints = delete_where (P \<circ> hc_session_id) (td_checkpoints db)\<rparr>"

definition delete_session :: "string \<Rightarrow> unit thread_tx" where
  "delete_session sid = execT (delete_sessions (\<lambda>x. x = sid))"

definition threads_erase_under :: "string \<Rightarrow> nat thread_tx" where
  "threads_erase_under name = bindT (queryT (\<lambda>db. length (filter (under_name name \<circ> mn_session_id) (td_nodes db))))
     (\<lambda>n. thenT (execT (delete_sessions (under_name name))) (retT n))"

end
