(* ===== verification/Task_Store.thy ===== *)
theory Task_Store
  imports Thread_Store
begin

text \<open>
  Task boards (\<open>stores/tasks.py\<close>, \<open>stores/task_tables.py\<close>): the board of an agent on a branch of a
  conversation and its items, in the order of their \<open>seq\<close>. Every method of \<open>Tasks\<close> is one transaction. The
  ids that \<open>uuid4\<close> makes and the text of the current time are arguments.
\<close>

section \<open>Rows\<close>

datatype task_status = PLANNED | IN_PROGRESS | BLOCKED | SUCCEEDED | FAILED | ABANDONED

fun task_status_value :: "task_status \<Rightarrow> string" where
  "task_status_value PLANNED = ''planned''"
| "task_status_value IN_PROGRESS = ''in_progress''"
| "task_status_value BLOCKED = ''blocked''"
| "task_status_value SUCCEEDED = ''succeeded''"
| "task_status_value FAILED = ''failed''"
| "task_status_value ABANDONED = ''abandoned''"

record board_row =
  bd_id :: string
  bd_conversation_id :: string
  bd_agent_id :: string
  bd_agent_label :: string
  bd_parent_agent_id :: "string option"
  bd_branch_id :: string
  bd_max_retries :: int
  bd_created_at :: string

record task_item =
  it_id :: string
  it_board_id :: string
  it_title :: string
  it_status :: task_status
  it_position :: int
  it_retry_count :: int
  it_note :: string

record task_db =
  tk_boards :: "board_row list"
  tk_items :: "task_item list"

text \<open>\<open>TaskList\<close>: a board with its tasks.\<close>

record task_list =
  tl_board :: board_row
  tl_tasks :: "task_item list"

type_synonym 'a task_tx = "(task_db, exn, 'a) tx"

definition no_tasks :: task_db where
  "no_tasks = \<lparr>tk_boards = [], tk_items = []\<rparr>"

section \<open>Reading\<close>

definition items_of :: "string \<Rightarrow> task_db \<Rightarrow> task_item list" where
  "items_of bid db = sort_key it_position (filter (\<lambda>i. it_board_id i = bid) (tk_items db))"

definition board_of :: "task_db \<Rightarrow> board_row \<Rightarrow> task_list" where
  "board_of db b = \<lparr>tl_board = b, tl_tasks = items_of (bd_id b) db\<rparr>"

definition board_row_at :: "string \<Rightarrow> task_db \<Rightarrow> board_row option" where
  "board_row_at bid db = List.find (\<lambda>b. bd_id b = bid) (tk_boards db)"

definition is_item :: "string \<Rightarrow> string \<Rightarrow> task_item \<Rightarrow> bool" where
  "is_item bid tid i \<longleftrightarrow> it_board_id i = bid \<and> it_id i = tid"

definition read_task :: "string \<Rightarrow> string \<Rightarrow> task_db \<Rightarrow> task_item option" where
  "read_task bid tid db = List.find (is_item bid tid) (tk_items db)"

definition get_task_list :: "string \<Rightarrow> task_list option task_tx" where
  "get_task_list bid = queryT (\<lambda>db. map_option (board_of db) (board_row_at bid db))"

definition boards_by_conversation :: "string \<Rightarrow> string \<Rightarrow> task_db \<Rightarrow> board_row list" where
  "boards_by_conversation cid branch db = sort_key bd_created_at
     (filter (\<lambda>b. bd_conversation_id b = cid \<and> bd_branch_id b = branch) (tk_boards db))"

definition get_boards_by_conversation :: "string \<Rightarrow> string \<Rightarrow> task_list list task_tx" where
  "get_boards_by_conversation cid branch = queryT (\<lambda>db. map (board_of db) (boards_by_conversation cid branch db))"

text \<open>The board of the root agent, else the first.\<close>

definition primary_board :: "task_list list \<Rightarrow> task_list option" where
  "primary_board bs = (case List.find (\<lambda>b. bd_agent_id (tl_board b) = []) bs of
     Some b \<Rightarrow> Some b | None \<Rightarrow> if bs = [] then None else Some (hd bs))"

definition get_by_conversation :: "string \<Rightarrow> string \<Rightarrow> task_list option task_tx" where
  "get_by_conversation cid branch = bindT (get_boards_by_conversation cid branch) (\<lambda>bs. retT (primary_board bs))"

section \<open>Writing\<close>

definition titles :: "string list \<Rightarrow> string list" where
  "titles ts = map strip (filter (\<lambda>t. strip t \<noteq> []) ts)"

definition board_conflict :: exn where
  "board_conflict = PyExn ''IntegrityError'' ''UNIQUE constraint failed''"

definition insert_item :: "task_item \<Rightarrow> unit task_tx" where
  "insert_item i = bindT (queryT (\<lambda>db. exists_where (\<lambda>x. it_id x = it_id i) (tk_items db))) (\<lambda>taken.
     thenT (guardT (\<not> taken) board_conflict) (execT (tk_items_update (\<lambda>is. is @ [i]))))"

definition board_clash :: "board_row \<Rightarrow> board_row \<Rightarrow> bool" where
  "board_clash b x \<longleftrightarrow> bd_id x = bd_id b \<or>
     (bd_conversation_id x = bd_conversation_id b \<and> bd_agent_id x = bd_agent_id b \<and> bd_branch_id x = bd_branch_id b)"

definition insert_board :: "board_row \<Rightarrow> unit task_tx" where
  "insert_board b = bindT (queryT (\<lambda>db. exists_where (board_clash b) (tk_boards db))) (\<lambda>taken.
     thenT (guardT (\<not> taken) board_conflict) (execT (tk_boards_update (\<lambda>bs. bs @ [b]))))"

definition new_item :: "(nat \<Rightarrow> string) \<Rightarrow> string \<Rightarrow> int \<Rightarrow> nat \<times> string \<Rightarrow> task_item" where
  "new_item ids bid start p = (case p of (n, title) \<Rightarrow> \<lparr>it_id = ids n, it_board_id = bid, it_title = title, it_status = PLANNED,
     it_position = start + int n, it_retry_count = 0, it_note = []\<rparr>)"

definition new_items :: "(nat \<Rightarrow> string) \<Rightarrow> string \<Rightarrow> int \<Rightarrow> string list \<Rightarrow> task_item list" where
  "new_items ids bid start ts = map (new_item ids bid start) (enumerate 0 (titles ts))"

text \<open>The boards of a key, and what deletes boards with their items.\<close>

definition has_key :: "string \<Rightarrow> string \<Rightarrow> string \<Rightarrow> board_row \<Rightarrow> bool" where
  "has_key cid agent branch b \<longleftrightarrow> bd_conversation_id b = cid \<and> bd_agent_id b = agent \<and> bd_branch_id b = branch"

definition delete_boards :: "(board_row \<Rightarrow> bool) \<Rightarrow> task_db \<Rightarrow> task_db" where
  "delete_boards P db = \<lparr>tk_boards = delete_where P (tk_boards db),
     tk_items = delete_where (\<lambda>i. exists_where (\<lambda>b. P b \<and> bd_id b = it_board_id i) (tk_boards db)) (tk_items db)\<rparr>"

definition create_task_list :: "string \<Rightarrow> (nat \<Rightarrow> string) \<Rightarrow> string \<Rightarrow> string \<Rightarrow> string list \<Rightarrow> string \<Rightarrow> string \<Rightarrow> string option \<Rightarrow>
    int \<Rightarrow> string \<Rightarrow> task_list task_tx" where
  "create_task_list board_id ids now cid task_titles agent label parent max_retries branch =
     thenT (execT (delete_boards (has_key cid agent branch)))
       (thenT (insert_board \<lparr>bd_id = board_id, bd_conversation_id = cid, bd_agent_id = agent, bd_agent_label = label,
            bd_parent_agent_id = parent, bd_branch_id = branch, bd_max_retries = max_retries, bd_created_at = now\<rparr>)
         (thenT (forT insert_item (new_items ids board_id 0 task_titles))
           (bindT (queryT (board_row_at board_id)) (\<lambda>row. case row of
                None \<Rightarrow> failT (PyExn ''TypeError'' [])
              | Some row \<Rightarrow> queryT (\<lambda>db. board_of db row)))))"

text \<open>An \<open>UPDATE\<close> of one task, which returns it when a row was changed.\<close>

definition change_item :: "string \<Rightarrow> string \<Rightarrow> (task_db \<Rightarrow> task_item \<Rightarrow> bool) \<Rightarrow> (task_item \<Rightarrow> task_item) \<Rightarrow> task_item option task_tx" where
  "change_item bid tid cond f = bindT (queryT (\<lambda>db. exists_where (\<lambda>i. is_item bid tid i \<and> cond db i) (tk_items db))) (\<lambda>changed.
     thenT (execT (\<lambda>db. tk_items_update (update_where (\<lambda>i. is_item bid tid i \<and> cond db i) f) db))
       (if changed then queryT (read_task bid tid) else retT None))"

definition update_status :: "string \<Rightarrow> string \<Rightarrow> task_status \<Rightarrow> string \<Rightarrow> task_item option task_tx" where
  "update_status bid tid status note = change_item bid tid (\<lambda>_ _. True)
     (\<lambda>i. i\<lparr>it_status := status, it_note := if note \<noteq> [] then note else it_note i\<rparr>)"

definition update_task_title :: "string \<Rightarrow> string \<Rightarrow> string \<Rightarrow> task_item option task_tx" where
  "update_task_title bid tid title = change_item bid tid (\<lambda>_ _. True) (\<lambda>i. i\<lparr>it_title := strip title\<rparr>)"

definition force_retry :: "string \<Rightarrow> string \<Rightarrow> task_item option task_tx" where
  "force_retry bid tid = change_item bid tid (\<lambda>_ _. True) (\<lambda>i. i\<lparr>it_retry_count := 0, it_status := IN_PROGRESS, it_note := []\<rparr>)"

text \<open>\<open>retry_count < (SELECT max_retries ..)\<close> is not true when there is no board.\<close>

definition increment_retry :: "string \<Rightarrow> string \<Rightarrow> task_item option task_tx" where
  "increment_retry bid tid = change_item bid tid
     (\<lambda>db i. case board_row_at bid db of None \<Rightarrow> False | Some b \<Rightarrow> it_retry_count i < bd_max_retries b)
     (\<lambda>i. i\<lparr>it_retry_count := it_retry_count i + 1, it_status := IN_PROGRESS\<rparr>)"

definition next_position :: "string \<Rightarrow> task_db \<Rightarrow> int" where
  "next_position bid db = (let ps = map it_position (filter (\<lambda>i. it_board_id i = bid) (tk_items db)) in
     if ps = [] then 0 else coalesce_max (hd ps) ps + 1)"

definition add_tasks :: "(nat \<Rightarrow> string) \<Rightarrow> string \<Rightarrow> string list \<Rightarrow> task_item list task_tx" where
  "add_tasks ids bid ts = bindT (queryT (board_row_at bid)) (\<lambda>b. if b = None then retT []
     else bindT (queryT (next_position bid)) (\<lambda>start. let new = new_items ids bid start ts in
       thenT (forT insert_item new) (retT new)))"

definition delete_task :: "string \<Rightarrow> string \<Rightarrow> bool task_tx" where
  "delete_task bid tid = bindT (queryT (\<lambda>db. exists_where (is_item bid tid) (tk_items db))) (\<lambda>found.
     thenT (execT (tk_items_update (delete_where (is_item bid tid)))) (retT found))"

text \<open>The end of a run: what was left in progress on the main branch is taken as done.\<close>

definition settling :: "string \<Rightarrow> task_db \<Rightarrow> board_row list" where
  "settling cid db = filter (\<lambda>b. exists_where (\<lambda>i. it_board_id i = bd_id b \<and> it_status i = IN_PROGRESS) (tk_items db))
     (boards_by_conversation cid ''main'' db)"

definition settle_board :: "board_row \<Rightarrow> unit task_tx" where
  "settle_board b = execT (tk_items_update (update_where (\<lambda>i. it_board_id i = bd_id b \<and> it_status i = IN_PROGRESS)
     (\<lambda>i. i\<lparr>it_status := SUCCEEDED\<rparr>)))"

definition settle_conversation :: "string \<Rightarrow> task_list list task_tx" where
  "settle_conversation cid = bindT (queryT (settling cid)) (\<lambda>rows.
     thenT (forT settle_board rows) (queryT (\<lambda>db. map (board_of db) rows)))"

definition tasks_erase_under :: "string \<Rightarrow> nat task_tx" where
  "tasks_erase_under name = bindT (queryT (\<lambda>db. length (filter (under_name name \<circ> bd_conversation_id) (tk_boards db))))
     (\<lambda>n. thenT (execT (delete_boards (under_name name \<circ> bd_conversation_id))) (retT n))"

end
