(* ===== verification/Tenancy.thy ===== *)
theory Tenancy
  imports Thread_Store
begin

text \<open>
  The names of a tenant (\<open>stores/scoped.py\<close>): a tenant's name is escaped so that it has no slash, and what a caller
  names is put under it. Different tenants never share a prefix, so a name belongs to one tenant only.
\<close>

section \<open>Names of a tenant\<close>

text \<open>\<open>urllib.parse.quote(s, safe='')\<close>: the bytes of UTF-8, escaped but for the unreserved ones.\<close>

definition unreserved :: "char \<Rightarrow> bool" where
  "unreserved c \<longleftrightarrow> c \<in> set ''ABCDEFGHIJKLMNOPQRSTUVWXYZabcdefghijklmnopqrstuvwxyz0123456789_.-~''"

definition upper_hex :: "nat \<Rightarrow> char" where
  "upper_hex n = ''0123456789ABCDEF'' ! (n mod 16)"

definition percent :: "nat \<Rightarrow> string" where
  "percent n = [CHR ''%'', upper_hex (n div 16), upper_hex n]"

definition quote_char :: "char \<Rightarrow> string" where
  "quote_char c = (let n = of_char c :: nat in
     if unreserved c then [c] else if n < 128 then percent n else percent (192 + n div 64) @ percent (128 + n mod 64))"

definition quote :: "string \<Rightarrow> string" where
  "quote s = concat (map quote_char s)"

text \<open>\<open>_Prefixer\<close>.\<close>

definition tenant_prefix :: "string \<Rightarrow> string" where
  "tenant_prefix tenant = quote tenant @ ''/''"

definition strip_prefix :: "string \<Rightarrow> string \<Rightarrow> string" where
  "strip_prefix p name = drop (length p) name"

abbreviation owns :: "string \<Rightarrow> string \<Rightarrow> bool" where
  "owns p name \<equiv> starts_with p name"

section \<open>One owner\<close>

lemma upper_hex_no_slash: "upper_hex n \<noteq> CHR ''/''"
proof -
  have "\<forall>k<16. ''0123456789ABCDEF'' ! k \<noteq> CHR ''/''" by code_simp
  then show ?thesis by (simp add: upper_hex_def)
qed

lemma upper_hex_unreserved: "unreserved (upper_hex n)"
proof -
  have "\<forall>k<16. unreserved (''0123456789ABCDEF'' ! k)" by code_simp
  then show ?thesis by (simp add: upper_hex_def)
qed

lemma upper_hex_inj: "upper_hex m = upper_hex n \<Longrightarrow> m mod 16 = n mod 16"
proof -
  have "\<forall>i<16. \<forall>k<16. ''0123456789ABCDEF'' ! i = ''0123456789ABCDEF'' ! k \<longrightarrow> i = k" by code_simp
  then show "upper_hex m = upper_hex n \<Longrightarrow> m mod 16 = n mod 16" by (simp add: upper_hex_def)
qed

lemma percent_inj: "m < 256 \<Longrightarrow> n < 256 \<Longrightarrow> percent m = percent n \<Longrightarrow> m = n"
proof -
  assume lt: "m < 256" "n < 256" and eq: "percent m = percent n"
  have "m div 16 mod 16 = n div 16 mod 16" "m mod 16 = n mod 16" using eq by (auto simp: percent_def dest: upper_hex_inj)
  then have "m div 16 = n div 16" "m mod 16 = n mod 16" using lt by (auto simp: less_mult_imp_div_less)
  then show "m = n" by (metis div_mult_mod_eq)
qed

lemma unreserved_plain: "unreserved c \<Longrightarrow> c \<noteq> CHR ''/'' \<and> c \<noteq> CHR ''%''"
  by (auto simp: unreserved_def)

lemma quote_simps [simp]: "quote [] = []" "quote (c # s) = quote_char c @ quote s"
  by (simp_all add: quote_def)

text \<open>What follows a in_quotes character tells where it ends.\<close>

definition code_of :: "char \<Rightarrow> nat" where
  "code_of c = of_char c"

lemma code_lt: "code_of c < 256"
  by (simp add: code_of_def)

lemma code_inj: "code_of c = code_of d \<Longrightarrow> c = d"
  by (simp add: code_of_def)

lemma quote_char_cases:
  obtains "unreserved c" "quote_char c = [c]"
  | "\<not> unreserved c" "code_of c < 128" "quote_char c = percent (code_of c)"
  | "\<not> unreserved c" "128 \<le> code_of c" "quote_char c = percent (192 + code_of c div 64) @ percent (128 + code_of c mod 64)"
  unfolding quote_char_def code_of_def Let_def by (cases "unreserved c"; cases "(of_char c :: nat) < 128") auto

lemma percent_no_slash: "CHR ''/'' \<notin> set (percent n)"
  using upper_hex_no_slash [of n] upper_hex_no_slash [of "n div 16"] by (auto simp: percent_def)

lemma quote_char_no_slash: "CHR ''/'' \<notin> set (quote_char c)"
  by (cases c rule: quote_char_cases) (auto simp: percent_no_slash dest: unreserved_plain)

lemma quote_char_nonempty: "quote_char c \<noteq> []"
  by (cases c rule: quote_char_cases) (simp_all add: percent_def)

lemma quote_no_slash: "CHR ''/'' \<notin> set (quote s)"
  by (induction s) (simp_all add: quote_char_no_slash)

text \<open>A in_quotes character does not begin with a slash.\<close>

lemma quote_char_slash: "quote_char c @ xs \<noteq> CHR ''/'' # ys"
  using quote_char_no_slash [of c] quote_char_nonempty [of c] by (cases "quote_char c") auto

lemma percent_append: "percent m @ xs = percent n @ ys \<Longrightarrow> m < 256 \<Longrightarrow> n < 256 \<Longrightarrow> m = n \<and> xs = ys"
  using percent_inj by (auto simp: percent_def)

lemma percent_head: "percent n @ xs = c # ys \<Longrightarrow> c = CHR ''%''"
  by (simp add: percent_def)

lemma quote_char_prefix: "quote_char c @ xs = quote_char d @ ys \<Longrightarrow> c = d \<and> xs = ys"
proof -
  assume eq: "quote_char c @ xs = quote_char d @ ys"
  have lt: "code_of c < 256" "code_of d < 256" by (rule code_lt)+
  have small: "192 + code_of c div 64 < 256" "192 + code_of d div 64 < 256" "128 + code_of c mod 64 < 256" "128 + code_of d mod 64 < 256"
    using lt by auto
  show ?thesis
  proof (cases c rule: quote_char_cases; cases d rule: quote_char_cases)
    assume "unreserved c" "quote_char c = [c]" "unreserved d" "quote_char d = [d]"
    then show ?thesis using eq by simp
  next
    assume c: "\<not> unreserved c" "code_of c < 128" "quote_char c = percent (code_of c)"
      and d: "\<not> unreserved d" "code_of d < 128" "quote_char d = percent (code_of d)"
    then have "code_of c = code_of d \<and> xs = ys" using eq lt by (intro percent_append) simp_all
    then show ?thesis using code_inj by blast
  next
    assume c: "\<not> unreserved c" "128 \<le> code_of c" "quote_char c = percent (192 + code_of c div 64) @ percent (128 + code_of c mod 64)"
      and d: "\<not> unreserved d" "128 \<le> code_of d" "quote_char d = percent (192 + code_of d div 64) @ percent (128 + code_of d mod 64)"
    have e: "percent (192 + code_of c div 64) @ (percent (128 + code_of c mod 64) @ xs) =
        percent (192 + code_of d div 64) @ (percent (128 + code_of d mod 64) @ ys)" using eq c(3) d(3) by simp
    from percent_append [OF e small(1,2)] have hi: "192 + code_of c div 64 = 192 + code_of d div 64"
      and e2: "percent (128 + code_of c mod 64) @ xs = percent (128 + code_of d mod 64) @ ys" by simp_all
    from percent_append [OF e2 small(3,4)] have lo: "code_of c mod 64 = code_of d mod 64" and "xs = ys" by simp_all
    moreover have "code_of c = code_of d" using hi lo by (metis add_left_cancel div_mult_mod_eq)
    ultimately show ?thesis using code_inj by blast
  next
    assume c: "\<not> unreserved c" "code_of c < 128" "quote_char c = percent (code_of c)"
      and d: "\<not> unreserved d" "128 \<le> code_of d" "quote_char d = percent (192 + code_of d div 64) @ percent (128 + code_of d mod 64)"
    have "percent (code_of c) @ xs = percent (192 + code_of d div 64) @ (percent (128 + code_of d mod 64) @ ys)" using eq c(3) d(3) by simp
    from percent_append [OF this lt(1) small(2)] show ?thesis using c(2) by simp
  next
    assume c: "\<not> unreserved c" "128 \<le> code_of c" "quote_char c = percent (192 + code_of c div 64) @ percent (128 + code_of c mod 64)"
      and d: "\<not> unreserved d" "code_of d < 128" "quote_char d = percent (code_of d)"
    have "percent (192 + code_of c div 64) @ (percent (128 + code_of c mod 64) @ xs) = percent (code_of d) @ ys" using eq c(3) d(3) by simp
    from percent_append [OF this small(1) lt(2)] show ?thesis using d(2) by simp
  qed (use eq in \<open>auto simp: percent_def dest: unreserved_plain\<close>)
qed

lemma quote_inj: "quote s @ CHR ''/'' # xs = quote t @ CHR ''/'' # ys \<Longrightarrow> s = t \<and> xs = ys"
proof (induction s arbitrary: t)
  case Nil
  then show ?case by (cases t) (auto dest: quote_char_slash [THEN notE] sym)
next
  case (Cons c s)
  show ?case
  proof (cases t)
    case Nil
    then show ?thesis using Cons.prems quote_char_slash by simp
  next
    case (Cons d t')
    have "quote_char c @ (quote s @ CHR ''/'' # xs) = quote_char d @ (quote t' @ CHR ''/'' # ys)"
      using Cons.prems Cons by simp
    from quote_char_prefix [OF this] show ?thesis using Cons.IH [of t'] Cons by simp
  qed
qed

text \<open>A name lies under one tenant.\<close>

lemma starts_with_append: "starts_with p s \<longleftrightarrow> (\<exists>x. s = p @ x)"
  by (auto simp: starts_with_def) (metis append_take_drop_id)

theorem one_owner: "owns (tenant_prefix a) name \<Longrightarrow> owns (tenant_prefix b) name \<Longrightarrow> a = b"
  by (auto simp: starts_with_append tenant_prefix_def dest: quote_inj)

end
