(* ===== verification/Task_Tool.thy ===== *)
theory Task_Tool
  imports Task_Store Tenancy
begin

text \<open>
  The tool by which an agent keeps its board (\<open>integrations/tools/task_manager/tool.py\<close>) over the boards of its
  tenant (\<open>_ScopedTaskStore\<close>, \<open>stores/scoped.py\<close>). The tool remembers, by conversation and agent, the board it
  works on; a call is a sequence of transactions on the store.
\<close>

section \<open>The boards of a tenant\<close>

definition board_out :: "string \<Rightarrow> task_list \<Rightarrow> task_list" where
  "board_out p b = b\<lparr>tl_board := (tl_board b)\<lparr>bd_conversation_id := strip_prefix p (bd_conversation_id (tl_board b))\<rparr>\<rparr>"

definition board_owned :: "string \<Rightarrow> string \<Rightarrow> bool task_tx" where
  "board_owned p bid = bindT (get_task_list bid) (\<lambda>b. retT (case b of None \<Rightarrow> False | Some b \<Rightarrow> owns p (bd_conversation_id (tl_board b))))"

definition if_owned :: "string \<Rightarrow> string \<Rightarrow> 'a \<Rightarrow> 'a task_tx \<Rightarrow> 'a task_tx" where
  "if_owned p bid dflt m = bindT (board_owned p bid) (\<lambda>mine. if mine then m else retT dflt)"

definition s_create_task_list :: "string \<Rightarrow> string \<Rightarrow> (nat \<Rightarrow> string) \<Rightarrow> string \<Rightarrow> string \<Rightarrow> string list \<Rightarrow> string \<Rightarrow> string \<Rightarrow>
    string option \<Rightarrow> int \<Rightarrow> string \<Rightarrow> task_list task_tx" where
  "s_create_task_list p board_id ids now cid ts agent label parent max_retries branch =
     bindT (create_task_list board_id ids now (p @ cid) ts agent label parent max_retries branch) (\<lambda>b. retT (board_out p b))"

definition s_get_task_list :: "string \<Rightarrow> string \<Rightarrow> task_list option task_tx" where
  "s_get_task_list p bid = bindT (get_task_list bid) (\<lambda>b. retT (case b of None \<Rightarrow> None
     | Some b \<Rightarrow> if owns p (bd_conversation_id (tl_board b)) then Some (board_out p b) else None))"

definition s_get_by_conversation :: "string \<Rightarrow> string \<Rightarrow> string \<Rightarrow> task_list option task_tx" where
  "s_get_by_conversation p cid branch = bindT (get_by_conversation (p @ cid) branch) (\<lambda>b. retT (map_option (board_out p) b))"

definition s_get_boards_by_conversation :: "string \<Rightarrow> string \<Rightarrow> string \<Rightarrow> task_list list task_tx" where
  "s_get_boards_by_conversation p cid branch = bindT (get_boards_by_conversation (p @ cid) branch) (\<lambda>bs. retT (map (board_out p) bs))"

definition s_settle_conversation :: "string \<Rightarrow> string \<Rightarrow> task_list list task_tx" where
  "s_settle_conversation p cid = bindT (settle_conversation (p @ cid)) (\<lambda>bs. retT (map (board_out p) bs))"

definition s_update_status :: "string \<Rightarrow> string \<Rightarrow> string \<Rightarrow> task_status \<Rightarrow> string \<Rightarrow> task_item option task_tx" where
  "s_update_status p bid tid status note = if_owned p bid None (update_status bid tid status note)"

definition s_add_tasks :: "string \<Rightarrow> (nat \<Rightarrow> string) \<Rightarrow> string \<Rightarrow> string list \<Rightarrow> task_item list task_tx" where
  "s_add_tasks p ids bid ts = if_owned p bid [] (add_tasks ids bid ts)"

definition s_delete_task :: "string \<Rightarrow> string \<Rightarrow> string \<Rightarrow> bool task_tx" where
  "s_delete_task p bid tid = if_owned p bid False (delete_task bid tid)"

definition s_increment_retry :: "string \<Rightarrow> string \<Rightarrow> string \<Rightarrow> task_item option task_tx" where
  "s_increment_retry p bid tid = if_owned p bid None (increment_retry bid tid)"

definition s_force_retry :: "string \<Rightarrow> string \<Rightarrow> string \<Rightarrow> task_item option task_tx" where
  "s_force_retry p bid tid = if_owned p bid None (force_retry bid tid)"

definition s_update_task_title :: "string \<Rightarrow> string \<Rightarrow> string \<Rightarrow> string \<Rightarrow> task_item option task_tx" where
  "s_update_task_title p bid tid title = if_owned p bid None (update_task_title bid tid title)"

section \<open>Finding a task\<close>

text \<open>\<open>str.lower()\<close> on the characters of the model.\<close>

definition lower_char :: "char \<Rightarrow> char" where
  "lower_char c = (let n = of_char c :: nat in
     if (65 \<le> n \<and> n \<le> 90) \<or> (192 \<le> n \<and> n \<le> 222 \<and> n \<noteq> 215) then char_of (n + 32) else c)"

definition lower_text :: "string \<Rightarrow> string" where
  "lower_text s = map lower_char s"

text \<open>\<open>int(s)\<close> of a decimal: white space around it, a sign, single underscores between digits.\<close>

definition digit_value :: "char \<Rightarrow> int option" where
  "digit_value c = (let n = of_char c :: nat in if 48 \<le> n \<and> n \<le> 57 then Some (int n - 48) else None)"

fun digits_value :: "int \<Rightarrow> string \<Rightarrow> int option" where
  "digits_value acc [] = Some acc"
| "digits_value acc (c # cs) = (if c = CHR ''_'' then
      (case cs of [] \<Rightarrow> None | d # ds \<Rightarrow> (case digit_value d of None \<Rightarrow> None | Some v \<Rightarrow> digits_value (acc * 10 + v) ds))
    else case digit_value c of None \<Rightarrow> None | Some v \<Rightarrow> digits_value (acc * 10 + v) cs)"

definition py_nat :: "string \<Rightarrow> int option" where
  "py_nat s = (case s of [] \<Rightarrow> None | c # cs \<Rightarrow> (case digit_value c of None \<Rightarrow> None | Some v \<Rightarrow> digits_value v cs))"

definition py_int :: "string \<Rightarrow> int option" where
  "py_int s = (case strip s of [] \<Rightarrow> None
     | c # cs \<Rightarrow> if c = CHR ''-'' then map_option uminus (py_nat cs) else if c = CHR ''+'' then py_nat cs else py_nat (c # cs))"

definition dedupe_titles :: "string list \<Rightarrow> string list" where
  "dedupe_titles ts = snd (foldl (\<lambda>(seen, out) t. let key = lower_text (strip t) in
     if key \<noteq> [] \<and> key \<notin> set seen then (seen @ [key], out @ [t]) else (seen, out)) ([], []) ts)"

definition first_status_of :: "task_status \<Rightarrow> task_item list \<Rightarrow> string option" where
  "first_status_of status ts = map_option it_id (List.find (\<lambda>t. it_status t = status) ts)"

definition first_with_status :: "string \<Rightarrow> task_status \<Rightarrow> string \<Rightarrow> string option task_tx" where
  "first_with_status p status bid = (if bid = [] then retT None else bindT (s_get_task_list p bid) (\<lambda>found.
     retT (case found of None \<Rightarrow> None | Some found \<Rightarrow> first_status_of status (tl_tasks found))))"

text \<open>\<open>xs[i]\<close> when the index is in range.\<close>

definition nth_opt :: "int \<Rightarrow> 'a list \<Rightarrow> 'a option" where
  "nth_opt i xs = (if 0 \<le> i \<and> i < int (length xs) then Some (xs ! nat i) else None)"

definition by_number :: "string \<Rightarrow> task_status \<Rightarrow> task_item list \<Rightarrow> string option" where
  "by_number tid status ts = (case py_int tid of None \<Rightarrow> None
     | Some n \<Rightarrow> (case nth_opt (n - 1) (filter (\<lambda>t. it_status t = status) ts) of Some t \<Rightarrow> Some (it_id t)
         | None \<Rightarrow> map_option it_id (nth_opt (n - 1) ts)))"

text \<open>What a task id given by the model stands for among the tasks of the board.\<close>

definition resolve_task :: "string \<Rightarrow> task_status \<Rightarrow> task_item list \<Rightarrow> string option" where
  "resolve_task tid status ts = (if \<exists>t\<in>set ts. it_id t = tid then Some tid
     else case by_number tid status ts of Some x \<Rightarrow> Some x
       | None \<Rightarrow> (case List.find (\<lambda>t. contains_sub (lower_text tid) (lower_text (it_title t))) ts of Some t \<Rightarrow> Some (it_id t)
           | None \<Rightarrow> first_status_of status ts))"

definition resolve_task_id :: "string \<Rightarrow> string option \<Rightarrow> task_status \<Rightarrow> string \<Rightarrow> string option task_tx" where
  "resolve_task_id p tid status bid = bindT (s_get_task_list p bid) (\<lambda>found. case found of None \<Rightarrow> retT None
     | Some found \<Rightarrow> if tid = None \<or> tid = Some [] then first_with_status p status bid
         else retT (resolve_task (the tid) status (tl_tasks found)))"

section \<open>The tool\<close>

text \<open>The board pointers of the tool beside the store.\<close>

record tool_state =
  ts_db :: task_db
  ts_lists :: "((string \<times> string) \<times> string) list"

type_synonym 'a tool_act = "(tool_state, exn, 'a) act"

definition storeT :: "'a task_tx \<Rightarrow> 'a tool_act" where
  "storeT m = onA ts_db (\<lambda>d s. s\<lparr>ts_db := d\<rparr>) (txA m)"

definition remember :: "string \<times> string \<Rightarrow> string \<Rightarrow> tool_state \<Rightarrow> tool_state" where
  "remember key bid s = s\<lparr>ts_lists := (key, bid) # filter (\<lambda>x. fst x \<noteq> key) (ts_lists s)\<rparr>"

text \<open>A result: a message and the board, or an error.\<close>

datatype tool_result = BoardResult string "task_list option" | ErrResult string

definition board_result :: "string \<Rightarrow> string \<Rightarrow> string \<Rightarrow> tool_result tool_act" where
  "board_result p bid msg = bindA (storeT (s_get_task_list p bid)) (\<lambda>b. retA (BoardResult msg b))"

text \<open>Who calls: the tenant, the conversation and the agent of the run.\<close>

record caller =
  ca_tenant :: "string option"
  ca_thread :: string
  ca_agent :: string
  ca_label :: string
  ca_parent :: "string option"

definition caller_prefix :: "caller \<Rightarrow> string" where
  "caller_prefix c = tenant_prefix (case ca_tenant c of None \<Rightarrow> ''default'' | Some t \<Rightarrow> if t = [] then ''default'' else t)"

definition conversation_id :: "caller \<Rightarrow> string option \<Rightarrow> string" where
  "conversation_id c thread_id = (if ca_thread c \<noteq> [] then ca_thread c else
     case thread_id of Some t \<Rightarrow> (if t = [] then ''default'' else t) | None \<Rightarrow> ''default'')"

definition cache_key :: "caller \<Rightarrow> string option \<Rightarrow> string \<times> string" where
  "cache_key c thread_id = (conversation_id c thread_id, ca_agent c)"

text \<open>\<open>reset\<close>, by the thread itself.\<close>

definition reset_tool :: "caller \<Rightarrow> tool_state \<Rightarrow> tool_state" where
  "reset_tool c s = s\<lparr>ts_lists := filter (\<lambda>x. fst x \<noteq> (ca_thread c, ca_agent c)) (ts_lists s)\<rparr>"

datatype tool_call =
    CreateList "string list option" int
  | StartTask "string option"
  | CompleteTask "string option"
  | FailTask "string option" "string option"
  | BlockTask "string option" "string option"
  | RetryTask "string option" int
  | AddTask "string list option"
  | DeleteTask "string option"
  | UpdateTitle "string option" "string option"

definition numbered :: "string list \<Rightarrow> string" where
  "numbered ts = join_with [CHR 0x0A] (map (\<lambda>(i, t). ''  '' @ show_nat (i + 1) @ ''. '' @ t) (enumerate 0 ts))"

text \<open>\<open>if not tasks\<close>.\<close>

definition given :: "string list option \<Rightarrow> string list" where
  "given ts = (case ts of None \<Rightarrow> [] | Some ts \<Rightarrow> ts)"

definition given_text :: "string option \<Rightarrow> string" where
  "given_text t = (case t of None \<Rightarrow> [] | Some t \<Rightarrow> t)"

definition create_list :: "string \<Rightarrow> (nat \<Rightarrow> string) \<Rightarrow> string \<Rightarrow> caller \<Rightarrow> string option \<Rightarrow> string list option \<Rightarrow> int \<Rightarrow> tool_result tool_act" where
  "create_list board_id ids now c thread_id tasks max_retries = (if given tasks = [] then retA (ErrResult ''tasks[] is required for create_list'')
     else let ts = dedupe_titles (given tasks) in
       bindA (storeT (s_create_task_list (caller_prefix c) board_id ids now (conversation_id c thread_id) ts (ca_agent c) (ca_label c) (ca_parent c) max_retries ''main''))
         (\<lambda>found. thenA (execA (remember (cache_key c thread_id) (bd_id (tl_board found))))
           (retA (BoardResult (''Task board created ('' @ show_nat (length ts) @ '' tasks):'' @ [CHR 0x0A] @ numbered ts @ [CHR 0x0A, CHR 0x0A] @
              ''Now call start_task before each step and complete_task after.'') (Some found)))))"

text \<open>The loop that completes what was left in progress. Its fuel is the number of tasks, each turn completing one.\<close>

fun complete_stale :: "nat \<Rightarrow> string \<Rightarrow> string \<Rightarrow> unit tool_act" where
  "complete_stale 0 p bid = retA ()"
| "complete_stale (Suc k) p bid = bindA (storeT (first_with_status p IN_PROGRESS bid)) (\<lambda>stale. case stale of
       None \<Rightarrow> retA ()
     | Some tid \<Rightarrow> bindA (storeT (s_update_status p bid tid SUCCEEDED [])) (\<lambda>_. complete_stale k p bid))"

definition not_found :: "string \<Rightarrow> string" where
  "not_found tid = ''Task not found after resolution (id='' @ in_quotes tid @ '').''"

definition move_task :: "string \<Rightarrow> string \<Rightarrow> string \<Rightarrow> task_status \<Rightarrow> string \<Rightarrow> string \<Rightarrow> tool_result tool_act" where
  "move_task p bid tid status note verb = bindA (storeT (s_update_status p bid tid status note)) (\<lambda>u. case u of
       None \<Rightarrow> retA (ErrResult (not_found tid))
     | Some t \<Rightarrow> board_result p bid (verb @ '': '' @ it_title t))"

text \<open>The first of two kinds of task that the id resolves to.\<close>

definition resolve_either :: "string \<Rightarrow> string option \<Rightarrow> task_status \<Rightarrow> task_status \<Rightarrow> string \<Rightarrow> string option tool_act" where
  "resolve_either p tid s1 s2 bid = bindA (storeT (resolve_task_id p tid s1 bid)) (\<lambda>r. case r of Some x \<Rightarrow> retA (Some x)
     | None \<Rightarrow> storeT (resolve_task_id p tid s2 bid))"

definition start_task :: "string \<Rightarrow> string \<Rightarrow> string option \<Rightarrow> tool_result tool_act" where
  "start_task p bid tid = bindA (queryA (\<lambda>s. length (tk_items (ts_db s)))) (\<lambda>n. thenA (complete_stale n p bid)
     (bindA (resolve_either p tid PLANNED BLOCKED bid) (\<lambda>r. case r of None \<Rightarrow> retA (ErrResult ''No planned or blocked tasks to start.'')
        | Some x \<Rightarrow> move_task p bid x IN_PROGRESS [] ''Started'')))"

definition complete_task :: "string \<Rightarrow> string \<Rightarrow> string option \<Rightarrow> tool_result tool_act" where
  "complete_task p bid tid = bindA (storeT (resolve_task_id p tid IN_PROGRESS bid)) (\<lambda>r. case r of
       None \<Rightarrow> retA (ErrResult ''No in-progress tasks to complete.'') | Some x \<Rightarrow> move_task p bid x SUCCEEDED [] ''Completed'')"

definition fail_task :: "string \<Rightarrow> string \<Rightarrow> string option \<Rightarrow> string option \<Rightarrow> tool_result tool_act" where
  "fail_task p bid tid note = bindA (resolve_either p tid IN_PROGRESS BLOCKED bid) (\<lambda>r. case r of
       None \<Rightarrow> retA (ErrResult ''No in-progress or blocked task to mark as failed.'')
     | Some x \<Rightarrow> move_task p bid x FAILED (given_text note) ''Marked as failed'')"

definition block_task :: "string \<Rightarrow> string \<Rightarrow> string option \<Rightarrow> string option \<Rightarrow> tool_result tool_act" where
  "block_task p bid tid note = bindA (storeT (resolve_task_id p tid IN_PROGRESS bid)) (\<lambda>r. case r of
       None \<Rightarrow> retA (ErrResult ''No in-progress task to block.'') | Some x \<Rightarrow> move_task p bid x BLOCKED (given_text note) ''Blocked'')"

definition retry_task :: "string \<Rightarrow> string \<Rightarrow> string option \<Rightarrow> int \<Rightarrow> tool_result tool_act" where
  "retry_task p bid tid max_retries = bindA (storeT (resolve_task_id p tid FAILED bid)) (\<lambda>r. case r of
       None \<Rightarrow> retA (ErrResult ''No failed task found to retry.'')
     | Some x \<Rightarrow> bindA (storeT (s_increment_retry p bid x)) (\<lambda>u. case u of
         None \<Rightarrow> bindA (storeT (s_update_status p bid x ABANDONED [])) (\<lambda>a.
             board_result p bid (''Task '' @ in_quotes (case a of Some t \<Rightarrow> it_title t | None \<Rightarrow> x) @ '' has exhausted all retries and is now abandoned.''))
       | Some t \<Rightarrow> bindA (storeT (s_get_task_list p bid)) (\<lambda>found.
             board_result p bid (''Retrying '' @ in_quotes (it_title t) @ '' (attempt '' @ show_int (it_retry_count t) @ ''/'' @
               show_int (case found of Some found \<Rightarrow> bd_max_retries (tl_board found) | None \<Rightarrow> max_retries) @ '').''))))"

definition add_task :: "(nat \<Rightarrow> string) \<Rightarrow> string \<Rightarrow> string \<Rightarrow> string list option \<Rightarrow> tool_result tool_act" where
  "add_task ids p bid tasks = (if given tasks = [] then retA (ErrResult ''tasks[] is required for add_task'')
     else bindA (storeT (s_get_task_list p bid)) (\<lambda>b.
       let existing = (case b of None \<Rightarrow> [] | Some b \<Rightarrow> map (\<lambda>t. lower_text (strip (it_title t))) (tl_tasks b));
           fresh = filter (\<lambda>t. lower_text (strip t) \<notin> set existing) (dedupe_titles (given tasks)) in
       if fresh = [] then board_result p bid (''No new tasks added '' @ [CHR 0x97] @ '' all titles already exist on the board.'')
       else bindA (storeT (s_add_tasks p ids bid fresh)) (\<lambda>new. board_result p bid (''Added '' @ show_nat (length new) @ '' task(s).''))))"

definition remove_task :: "string \<Rightarrow> string \<Rightarrow> string option \<Rightarrow> tool_result tool_act" where
  "remove_task p bid tid = (if given_text tid = [] then retA (ErrResult ''task_id is required for delete_task'')
     else bindA (storeT (s_delete_task p bid (given_text tid))) (\<lambda>gone. if gone then board_result p bid (''Deleted task '' @ given_text tid @ ''.'')
       else retA (ErrResult (''Task '' @ in_quotes (given_text tid) @ '' not found.''))))"

definition retitle_task :: "string \<Rightarrow> string \<Rightarrow> string option \<Rightarrow> string option \<Rightarrow> tool_result tool_act" where
  "retitle_task p bid tid title = (if given_text tid = [] \<or> given_text title = [] then retA (ErrResult ''task_id and title are required for update_title'')
     else bindA (storeT (s_update_task_title p bid (given_text tid) (given_text title))) (\<lambda>u. case u of
         None \<Rightarrow> retA (ErrResult (''Task '' @ in_quotes (given_text tid) @ '' not found.''))
       | Some t \<Rightarrow> board_result p bid (''Renamed task to: '' @ it_title t)))"

text \<open>The board a call is about: the one remembered, else the primary board of the conversation.\<close>

definition active_board :: "caller \<Rightarrow> string option \<Rightarrow> string option tool_act" where
  "active_board c thread_id = bindA (queryA (\<lambda>s. map_of (ts_lists s) (cache_key c thread_id))) (\<lambda>known.
     if known \<noteq> None \<and> known \<noteq> Some [] then retA known
     else bindA (storeT (s_get_by_conversation (caller_prefix c) (conversation_id c thread_id) ''main'')) (\<lambda>b. case b of
           None \<Rightarrow> retA None
         | Some b \<Rightarrow> thenA (execA (remember (cache_key c thread_id) (bd_id (tl_board b)))) (retA (Some (bd_id (tl_board b))))))"

definition on_board :: "(nat \<Rightarrow> string) \<Rightarrow> string \<Rightarrow> string \<Rightarrow> tool_call \<Rightarrow> tool_result tool_act" where
  "on_board ids p bid call = (case call of
       CreateList _ _ \<Rightarrow> retA (ErrResult [])
     | StartTask tid \<Rightarrow> start_task p bid tid
     | CompleteTask tid \<Rightarrow> complete_task p bid tid
     | FailTask tid note \<Rightarrow> fail_task p bid tid note
     | BlockTask tid note \<Rightarrow> block_task p bid tid note
     | RetryTask tid max_retries \<Rightarrow> retry_task p bid tid max_retries
     | AddTask tasks \<Rightarrow> add_task ids p bid tasks
     | DeleteTask tid \<Rightarrow> remove_task p bid tid
     | UpdateTitle tid title \<Rightarrow> retitle_task p bid tid title)"

definition execute_tool :: "string \<Rightarrow> (nat \<Rightarrow> string) \<Rightarrow> string \<Rightarrow> caller \<Rightarrow> string option \<Rightarrow> tool_call \<Rightarrow> tool_result tool_act" where
  "execute_tool board_id ids now c thread_id call = (case call of
       CreateList tasks max_retries \<Rightarrow> create_list board_id ids now c thread_id tasks max_retries
     | _ \<Rightarrow> bindA (active_board c thread_id) (\<lambda>b. case b of
           None \<Rightarrow> retA (ErrResult ''No active task board. Call action=create_list first.'')
         | Some bid \<Rightarrow> on_board ids (caller_prefix c) bid call))"

end
