(* ===== verification/History.thy ===== *)
theory History
  imports Thread_Store
begin

text \<open>
  The views of a thread (\<open>context/history.py\<close>): the ancestry of a node, the checkpoint that applies to it, and
  the turns of a branch; the window that is built of them (\<open>context/builder.py\<close>), and the checkpoint that is
  proposed after a turn (\<open>context/compaction/threshold.py\<close>). They only read, so they are functions of the tables.
\<close>

section \<open>Ancestry\<close>

text \<open>
  \<open>DefaultHistoryResolver.resolve_ancestry\<close>, the loop: what was visited, the chain so far from the leaf up,
  and the next node. It ends because every turn visits another node of the table.
\<close>

definition cycle_error :: "string \<Rightarrow> exn" where
  "cycle_error nid = dag_error (''Cycle detected in ancestry path at node '' @ in_quotes nid)"

definition broken_error :: "string \<Rightarrow> exn" where
  "broken_error nid = dag_error (''Broken DAG: ancestor node '' @ in_quotes nid @ '' not found'')"

lemma node_at_id: "node_at nid db = Some n \<Longrightarrow> mn_id n = nid \<and> n \<in> set (td_nodes db)"
  by (auto simp: node_at_def dest: find_SomeD)

function walk_ancestry :: "thread_db \<Rightarrow> string option \<Rightarrow> string set \<Rightarrow> message_node list \<Rightarrow> string option \<Rightarrow> exn + message_node list" where
  "walk_ancestry db stop visited chain None = Inr (rev chain)"
| "walk_ancestry db stop visited chain (Some cur) = (if cur \<in> visited then Inl (cycle_error cur)
     else if stop = Some cur then Inr (rev chain)
     else case node_at cur db of None \<Rightarrow> Inl (broken_error cur)
       | Some n \<Rightarrow> walk_ancestry db stop (insert cur visited) (chain @ [n]) (mn_parent_id n))"
  by pat_completeness auto

termination
proof (relation "measure (\<lambda>(db, stop, visited, chain, cur). card (mn_id ` set (td_nodes db) - visited) + (if cur = None then 0 else 1))")
  fix db :: thread_db and stop :: "string option" and visited chain cur n
  assume new: "cur \<notin> visited" and n: "node_at cur db = Some n"
  let ?left = "mn_id ` set (td_nodes db) - visited"
  have "cur \<in> ?left" using node_at_id [OF n] new by auto
  then have "card (?left - {cur}) < card ?left" by (intro card_Diff1_less) simp_all
  moreover have "?left - {cur} = mn_id ` set (td_nodes db) - insert cur visited" by auto
  ultimately have "card (mn_id ` set (td_nodes db) - insert cur visited) < card ?left" by simp
  then show "((db, stop, insert cur visited, chain @ [n], mn_parent_id n), (db, stop, visited, chain, Some cur)) \<in>
      measure (\<lambda>(db, stop, visited, chain, cur). card (mn_id ` set (td_nodes db) - visited) + (if cur = None then 0 else 1))"
    by simp
qed simp

definition resolve_ancestry :: "thread_db \<Rightarrow> string \<Rightarrow> string option \<Rightarrow> exn + message_node list" where
  "resolve_ancestry db leaf stop = walk_ancestry db stop {} [] (Some leaf)"

section \<open>Checkpoints\<close>

text \<open>\<open>max(xs, key=...)\<close>: the first of the greatest.\<close>

definition first_max :: "('a \<Rightarrow> 'k::linorder) \<Rightarrow> 'a \<Rightarrow> 'a list \<Rightarrow> 'a" where
  "first_max key x xs = foldl (\<lambda>best y. if key best < key y then y else best) x xs"

text \<open>\<open>by_anchor[node.id]\<close>, and the choice among its checkpoints.\<close>

definition newest_at :: "checkpoint list \<Rightarrow> string \<Rightarrow> checkpoint option" where
  "newest_at cps nid = (case filter (\<lambda>c. hc_anchor c = nid) cps of [] \<Rightarrow> None | c # cs \<Rightarrow> Some (first_max hc_created_at c cs))"

fun first_some :: "('a \<Rightarrow> 'b option) \<Rightarrow> 'a list \<Rightarrow> 'b option" where
  "first_some f [] = None"
| "first_some f (x # xs) = (case f x of None \<Rightarrow> first_some f xs | Some y \<Rightarrow> Some y)"

definition find_applicable_checkpoint :: "codec \<Rightarrow> thread_db \<Rightarrow> string \<Rightarrow> exn + checkpoint option" where
  "find_applicable_checkpoint X db leaf = (case node_at leaf db of
       None \<Rightarrow> Inl (dag_error (''Leaf node '' @ in_quotes leaf @ '' not found''))
     | Some n \<Rightarrow> let cps = checkpoints_of X (mn_session_id n) db in
         if cps = [] then Inr None
         else (case resolve_ancestry db leaf None of Inl e \<Rightarrow> Inl e
           | Inr ancestry \<Rightarrow> Inr (first_some (newest_at cps \<circ> mn_id) (rev ancestry))))"

section \<open>The window\<close>

record memory_injection =
  mi_directives :: "content list"
  mi_relevant :: "content list"

record window =
  cw_messages :: "chat_message list"
  cw_leaf :: "string option"
  cw_checkpoint :: "string option"
  cw_tokens :: nat

text \<open>\<open>bool(v)\<close>, and \<open>m.metadata.get(k)\<close> as a condition.\<close>

definition truthy :: "json \<Rightarrow> bool" where
  "truthy v = (case v of JNull \<Rightarrow> False | JBool b \<Rightarrow> b | JInt i \<Rightarrow> i \<noteq> 0 | JNum q \<Rightarrow> q \<noteq> 0 | JStr s \<Rightarrow> s \<noteq> []
     | JTime _ \<Rightarrow> True | JList vs \<Rightarrow> vs \<noteq> [] | JObj kvs \<Rightarrow> kvs \<noteq> [])"

definition flagged :: "string \<Rightarrow> chat_message \<Rightarrow> bool" where
  "flagged k m \<longleftrightarrow> (case jget k (tm_metadata m) of None \<Rightarrow> False | Some v \<Rightarrow> truthy v)"

definition summary_turn :: "checkpoint \<Rightarrow> chat_message" where
  "summary_turn c = \<lparr>tm_role = USER, tm_content = [TextBlock (''[Conversation Summary]:'' @ [CHR 0x0A] @ hc_summary c)], tm_name = None,
     tm_metadata = JObj [(''is_checkpoint_summary'', JBool True), (''checkpoint_id'', JStr (hc_id c)), (''anchor_message_id'', JStr (hc_anchor c))]\<rparr>"

definition memory_turn :: "content list \<Rightarrow> chat_message" where
  "memory_turn bs = \<lparr>tm_role = USER, tm_content = bs, tm_name = None, tm_metadata = JObj [(''is_memory_context'', JBool True)]\<rparr>"

text \<open>What follows the anchor; all of it, when the anchor is not among the nodes.\<close>

definition after_anchor :: "string \<Rightarrow> message_node list \<Rightarrow> message_node list" where
  "after_anchor anchor nodes = (if list_ex (\<lambda>n. mn_id n = anchor) nodes
     then tl (dropWhile (\<lambda>n. mn_id n \<noteq> anchor) nodes) else nodes)"

definition working_nodes :: "checkpoint option \<Rightarrow> message_node list \<Rightarrow> message_node list" where
  "working_nodes cp nodes = (case cp of None \<Rightarrow> nodes | Some c \<Rightarrow> after_anchor (hc_anchor c) nodes)"

definition last_id :: "message_node list \<Rightarrow> string option" where
  "last_id ns = (if ns = [] then None else Some (mn_id (last ns)))"

definition leaf_of :: "checkpoint option \<Rightarrow> message_node list \<Rightarrow> string option" where
  "leaf_of cp nodes = (let w = working_nodes cp nodes in
     if w \<noteq> [] then last_id w else case cp of Some c \<Rightarrow> Some (hc_anchor c) | None \<Rightarrow> last_id nodes)"

text \<open>The system turn: the instruction, then the directives of memory.\<close>

definition directives_text :: "codec \<Rightarrow> content list \<Rightarrow> string" where
  "directives_text X bs = join_with [CHR 0x0A, CHR 0x0A] (map (\<lambda>b. case b of TextBlock t \<Rightarrow> t | _ \<Rightarrow> block_str X b) bs)"

definition effective_system :: "codec \<Rightarrow> string option \<Rightarrow> memory_injection option \<Rightarrow> string option" where
  "effective_system X sys mem = (case mem of None \<Rightarrow> sys
     | Some i \<Rightarrow> if mi_directives i = [] then sys
         else let d = directives_text X (mi_directives i) in
           (case sys of Some s \<Rightarrow> Some (if s = [] then d else s @ [CHR 0x0A, CHR 0x0A] @ d) | None \<Rightarrow> Some d))"

definition with_summary :: "checkpoint option \<Rightarrow> chat_message list \<Rightarrow> chat_message list" where
  "with_summary cp ms = (case cp of None \<Rightarrow> ms | Some c \<Rightarrow> if strip (hc_summary c) = [] then ms else summary_turn c # ms)"

definition with_memory :: "memory_injection option \<Rightarrow> chat_message list \<Rightarrow> chat_message list" where
  "with_memory mem ms = (case mem of None \<Rightarrow> ms | Some i \<Rightarrow> if mi_relevant i = [] then ms else memory_turn (mi_relevant i) # ms)"

definition with_system :: "string option \<Rightarrow> chat_message list \<Rightarrow> chat_message list" where
  "with_system sys ms = (case sys of None \<Rightarrow> ms | Some s \<Rightarrow>
     if s = [] \<or> (ms \<noteq> [] \<and> tm_role (hd ms) = SYSTEM) then ms else turn SYSTEM [TextBlock s] # ms)"

text \<open>What the truncation keeps: a system turn, then a summary, then memory, each only when it comes next.\<close>

definition pop_if :: "(chat_message \<Rightarrow> bool) \<Rightarrow> chat_message list \<times> chat_message list \<Rightarrow> chat_message list \<times> chat_message list" where
  "pop_if P s = (case s of (prefix, m # ms) \<Rightarrow> if P m then (prefix @ [m], ms) else s | _ \<Rightarrow> s)"

definition protected_split :: "chat_message list \<Rightarrow> chat_message list \<times> chat_message list" where
  "protected_split ms = pop_if (flagged ''is_memory_context'') (pop_if (flagged ''is_checkpoint_summary'')
     (pop_if (\<lambda>m. tm_role m = SYSTEM) ([], ms)))"

definition truncate_window :: "codec \<Rightarrow> rat \<Rightarrow> int \<Rightarrow> chat_message list \<Rightarrow> chat_message list" where
  "truncate_window X cpt budget ms = (case protected_split ms of (prefix, working) \<Rightarrow>
     prefix @ drop_until_fits (\<lambda>ws. estimate_tokens X cpt (prefix @ ws)) budget working)"

definition window_messages :: "codec \<Rightarrow> message_node list \<Rightarrow> checkpoint option \<Rightarrow> string option \<Rightarrow> memory_injection option \<Rightarrow> chat_message list" where
  "window_messages X nodes cp sys mem = with_system (effective_system X sys mem)
     (with_memory mem (with_summary cp (map mn_payload (working_nodes cp nodes))))"

definition build_window :: "codec \<Rightarrow> rat \<Rightarrow> message_node list \<Rightarrow> checkpoint option \<Rightarrow> int option \<Rightarrow>
    string option \<Rightarrow> memory_injection option \<Rightarrow> window" where
  "build_window X cpt nodes cp budget sys mem =
     (let ms = window_messages X nodes cp sys mem;
          kept = (case budget of None \<Rightarrow> ms
            | Some b \<Rightarrow> if ms = [] \<or> int (estimate_tokens X cpt ms) \<le> b then ms else truncate_window X cpt b ms)
      in \<lparr>cw_messages = kept, cw_leaf = leaf_of cp nodes, cw_checkpoint = map_option hc_id cp, cw_tokens = estimate_tokens X cpt kept\<rparr>)"

section \<open>A branch as a transcript\<close>

text \<open>\<open>project_messages\<close> with the default builder.\<close>

definition project_messages :: "codec \<Rightarrow> thread_db \<Rightarrow> string \<Rightarrow> string \<Rightarrow> exn + chat_message list" where
  "project_messages X db sid bid = (case branch_at sid bid db of None \<Rightarrow> Inr []
     | Some b \<Rightarrow> (case br_head b of None \<Rightarrow> Inr []
         | Some head \<Rightarrow> (case resolve_ancestry db head None of Inl e \<Rightarrow> Inl e
             | Inr nodes \<Rightarrow> (case find_applicable_checkpoint X db head of Inl e \<Rightarrow> Inl e
                 | Inr cp \<Rightarrow> Inr (cw_messages (build_window X default_chars_per_token nodes cp None None None))))))"

section \<open>A checkpoint after a turn\<close>

record compaction_context =
  cc_session_id :: string
  cc_messages :: "chat_message list"
  cc_leaf :: "string option"
  cc_existing :: "checkpoint option"

text \<open>\<open>new_id\<close> and \<open>now\<close> are what \<open>uuid4\<close> and the clock give.\<close>

definition create_checkpoint :: "codec \<Rightarrow> int option \<Rightarrow> int option \<Rightarrow> (compaction_context \<Rightarrow> string) option \<Rightarrow> string \<Rightarrow> seconds \<Rightarrow>
    compaction_context \<Rightarrow> checkpoint option" where
  "create_checkpoint X turns tokens summary_builder new_id now ctx =
     (case cc_leaf ctx of None \<Rightarrow> None
      | Some leaf \<Rightarrow> if leaf = [] then None
          else let n = length (cc_messages ctx);
                 due = ((case turns of None \<Rightarrow> False | Some k \<Rightarrow> k \<le> int n) \<or>
                        (case tokens of None \<Rightarrow> False | Some k \<Rightarrow> k \<le> int (estimate_tokens X default_chars_per_token (cc_messages ctx))))
               in if \<not> due then None
                  else Some \<lparr>hc_id = new_id, hc_session_id = cc_session_id ctx, hc_anchor = leaf,
                    hc_summary = (case summary_builder of Some f \<Rightarrow> f ctx | None \<Rightarrow> ''Auto-generated checkpoint at turn '' @ show_nat n @
                       '' covering '' @ show_nat n @ '' messages up to node '' @ in_quotes leaf @ ''.''),
                    hc_state = JObj [], hc_parent = map_option hc_id (cc_existing ctx), hc_created_at = now\<rparr>)"

end
