(* ===== verification/Thread_Inv.thy ===== *)
theory Thread_Inv
  imports History
begin

text \<open>
  The invariant of the threads: the nodes are in an order in which a parent comes before its children, a branch
  points at a node of its session, keys are unique. Every operation of the store keeps it.
\<close>

lemma wp_seq: "wp m P s \<Longrightarrow> (\<And>a t. P a t \<Longrightarrow> wp (f a) Q t) \<Longrightarrow> wp (bindT m f) Q s"
  by (auto elim: wp_mono)

section \<open>Rooted nodes\<close>

inductive rooted :: "message_node list \<Rightarrow> bool" where
  no_nodes: "rooted []"
| new_root: "rooted ns \<Longrightarrow> mn_id n \<notin> mn_id ` set ns \<Longrightarrow> mn_parent_id n = None \<Longrightarrow> rooted (ns @ [n])"
| new_child: "rooted ns \<Longrightarrow> mn_id n \<notin> mn_id ` set ns \<Longrightarrow> p \<in> set ns \<Longrightarrow> mn_parent_id n = Some (mn_id p) \<Longrightarrow>
    mn_session_id p = mn_session_id n \<Longrightarrow> rooted (ns @ [n])"

lemma rooted_distinct: "rooted ns \<Longrightarrow> distinct (map mn_id ns)"
  by (induction rule: rooted.induct) auto

text \<open>Dropping whole sessions keeps it.\<close>

lemma rooted_filter: "rooted ns \<Longrightarrow> rooted (filter (\<lambda>n. P (mn_session_id n)) ns)"
proof (induction rule: rooted.induct)
  case no_nodes
  then show ?case by (simp add: rooted.no_nodes)
next
  case (new_root ns n)
  then show ?case by (auto intro: rooted.new_root)
next
  case (new_child ns n p)
  then show ?case by (auto intro!: rooted.new_child [where p = p])
qed

definition in_session :: "message_node list \<Rightarrow> string \<Rightarrow> string \<Rightarrow> bool" where
  "in_session ns sid nid \<longleftrightarrow> (\<exists>n\<in>set ns. mn_id n = nid \<and> mn_session_id n = sid)"

definition threads_ok :: "thread_db \<Rightarrow> bool" where
  "threads_ok db \<longleftrightarrow> rooted (td_nodes db) \<and>
     distinct (map (\<lambda>b. (br_session_id b, br_id b)) (td_branches db)) \<and>
     distinct (map hc_id (td_checkpoints db)) \<and>
     (\<forall>b\<in>set (td_branches db). \<forall>h. br_head b = Some h \<longrightarrow> in_session (td_nodes db) (br_session_id b) h) \<and>
     (\<forall>c\<in>set (td_checkpoints db). in_session (td_nodes db) (hc_session_id c) (hc_anchor c))"

lemma threads_ok_empty: "threads_ok no_threads"
  by (simp add: threads_ok_def no_threads_def rooted.no_nodes)

lemma in_session_append: "in_session ns sid nid \<Longrightarrow> in_session (ns @ ms) sid nid"
  by (auto simp: in_session_def)

lemma node_at_in_session: "node_at nid db = Some n \<Longrightarrow> in_session (td_nodes db) (mn_session_id n) nid"
  by (auto simp: in_session_def dest: node_at_id)

lemma node_at_None: "node_at nid db = None \<longleftrightarrow> nid \<notin> mn_id ` set (td_nodes db)"
  by (auto simp: node_at_def find_None_iff)

lemma branch_at_Some: "branch_at sid bid db = Some b \<Longrightarrow> b \<in> set (td_branches db) \<and> br_session_id b = sid \<and> br_id b = bid"
  by (auto simp: branch_at_def is_branch_def dest: find_SomeD)

lemma branch_at_None: "branch_at sid bid db = None \<longleftrightarrow> (sid, bid) \<notin> (\<lambda>b. (br_session_id b, br_id b)) ` set (td_branches db)"
  by (auto simp: branch_at_def is_branch_def find_None_iff)

lemma branch_at_snoc: "branch_at sid bid (td_branches_update (\<lambda>bs. bs @ [b]) s) =
    (case branch_at sid bid s of Some x \<Rightarrow> Some x | None \<Rightarrow> if is_branch sid bid b then Some b else None)"
proof -
  have "List.find P (xs @ [b]) = (case List.find P xs of Some x \<Rightarrow> Some x | None \<Rightarrow> if P b then Some b else None)" for P xs
    by (induction xs) auto
  then show ?thesis by (simp add: branch_at_def)
qed

lemma branch_at_swap:
  assumes "\<And>x. br_session_id (f x) = br_session_id x \<and> br_id (f x) = br_id x"
  shows "branch_at sid bid (td_branches_update (update_where P f) s) = map_option (\<lambda>x. if P x then f x else x) (branch_at sid bid s)"
  unfolding branch_at_def by (simp add: find_update_where is_branch_def assms)

section \<open>What the operations keep\<close>

text \<open>A parent that was checked.\<close>

definition parent_there :: "message_node \<Rightarrow> thread_db \<Rightarrow> bool" where
  "parent_there node db \<longleftrightarrow> (\<forall>p. mn_parent_id node = Some p \<longrightarrow> in_session (td_nodes db) (mn_session_id node) p)"

lemma check_parent_wp: "wp (check_parent node) (\<lambda>_ t. t = s \<and> parent_there node s) s"
proof (cases "mn_parent_id node")
  case None
  then show ?thesis by (simp add: check_parent_def parent_there_def)
next
  case (Some pid)
  then show ?thesis
    by (cases "node_at pid s") (auto simp: check_parent_def parent_there_def get_node_def dest: node_at_in_session)
qed

lemma threads_ok_node:
  assumes ok: "threads_ok db" and new: "node_at (mn_id node) db = None" and parent: "parent_there node db"
  shows "threads_ok (td_nodes_update (\<lambda>ns. ns @ [node]) db)"
proof -
  have fresh: "mn_id node \<notin> mn_id ` set (td_nodes db)" using new by (simp add: node_at_None)
  have nodes: "rooted (td_nodes db)" using ok by (simp add: threads_ok_def)
  have "rooted (td_nodes db @ [node])"
  proof (cases "mn_parent_id node")
    case None
    then show ?thesis using nodes fresh by (rule_tac rooted.new_root)
  next
    case (Some pid)
    then obtain p where "p \<in> set (td_nodes db)" "mn_id p = pid" "mn_session_id p = mn_session_id node"
      using parent by (auto simp: parent_there_def in_session_def)
    then show ?thesis using nodes fresh Some by (rule_tac p = p in rooted.new_child) simp_all
  qed
  then show ?thesis using ok by (simp add: threads_ok_def in_session_append)
qed

text \<open>What is known after a node was appended: it is there, and nothing else has changed.\<close>

definition node_added :: "message_node \<Rightarrow> thread_db \<Rightarrow> thread_db \<Rightarrow> bool" where
  "node_added node s t \<longleftrightarrow> (\<exists>e. node_at (mn_id node) s = Some e \<and> same_node e node \<and> t = s) \<or>
     (node_at (mn_id node) s = None \<and> parent_there node s \<and> t = td_nodes_update (\<lambda>ns. ns @ [node]) s)"

lemma append_node_wp: "wp (append_node node) (\<lambda>_. node_added node s) s"
proof (cases "node_at (mn_id node) s")
  case (Some e)
  then show ?thesis by (simp add: append_node_def get_node_def check_same_def node_added_def)
next
  case None
  have "wp (bindT (insert_node node) (\<lambda>inserted. if inserted then retT () else bindT (get_node (mn_id node))
      (\<lambda>again. case again of Some e \<Rightarrow> check_same e node | None \<Rightarrow> retT ()))) (\<lambda>_. node_added node s) s" if "parent_there node s"
    using None that by (simp add: insert_node_def get_node_def node_added_def)
  with check_parent_wp [of node s] None show ?thesis
    by (simp add: append_node_def get_node_def) (auto elim!: wp_mono)
qed

lemma node_added_ok: "node_added node s t \<Longrightarrow> threads_ok s \<Longrightarrow> threads_ok t"
  by (auto simp: node_added_def intro: threads_ok_node)

lemma node_added_in: "node_added node s t \<Longrightarrow> in_session (td_nodes t) (mn_session_id node) (mn_id node)"
  by (auto simp: node_added_def same_node_def in_session_def dest!: node_at_id)

lemma node_added_branches [simp]: "node_added node s t \<Longrightarrow> branch_at sid bid t = branch_at sid bid s"
  by (auto simp: node_added_def branch_at_def)

subsection \<open>Branches\<close>

definition branch_valid :: "branch \<Rightarrow> thread_db \<Rightarrow> bool" where
  "branch_valid b db \<longleftrightarrow> (\<forall>h. br_head b = Some h \<longrightarrow> in_session (td_nodes db) (br_session_id b) h)"

lemma insert_branch_wp:
  "wp (insert_branch b) (\<lambda>r t. if branch_at (br_session_id b) (br_id b) s = None then r \<and> t = td_branches_update (\<lambda>bs. bs @ [b]) s
     else \<not> r \<and> t = s) s"
  by (auto simp: insert_branch_def get_branch_def)

lemma threads_ok_insert:
  "threads_ok s \<Longrightarrow> branch_valid b s \<Longrightarrow> branch_at (br_session_id b) (br_id b) s = None \<Longrightarrow>
   threads_ok (td_branches_update (\<lambda>bs. bs @ [b]) s)"
  by (auto simp: threads_ok_def branch_valid_def branch_at_None)

lemma insert_branch_ok: "threads_ok s \<Longrightarrow> branch_valid b s \<Longrightarrow> wp (insert_branch b) (\<lambda>_. threads_ok) s"
  by (rule wp_mono [OF insert_branch_wp]) (auto intro: threads_ok_insert split: if_splits)

lemma threads_ok_swap:
  assumes "threads_ok s" and "\<And>x. is_branch sid bid x \<Longrightarrow> x \<in> set (td_branches s) \<Longrightarrow> branch_valid (f x) s"
    and "\<And>x. br_session_id (f x) = br_session_id x \<and> br_id (f x) = br_id x"
  shows "threads_ok (td_branches_update (update_where (\<lambda>x. is_branch sid bid x \<and> br_version x = v) (\<lambda>x. (f x)\<lparr>br_version := k x\<rparr>)) s)"
proof -
  have "map (\<lambda>b. (br_session_id b, br_id b)) (update_where (\<lambda>x. is_branch sid bid x \<and> br_version x = v) (\<lambda>x. (f x)\<lparr>br_version := k x\<rparr>) bs)
      = map (\<lambda>b. (br_session_id b, br_id b)) bs" for bs
    by (rule map_update_where) (simp add: assms(3))
  then show ?thesis using assms unfolding threads_ok_def
    by (simp add: set_update_where) (auto simp: branch_valid_def)
qed

text \<open>A successful compare-and-swap changed the one row it read.\<close>

lemma swapped_wp:
  assumes "branch_at (br_session_id b) (br_id b) s = Some b"
  shows "wp (swapped b f) (\<lambda>r t. t = td_branches_update (update_where (\<lambda>x. is_branch (br_session_id b) (br_id b) x \<and> br_version x = br_version b)
      (\<lambda>x. (f x)\<lparr>br_version := br_version x + 1\<rparr>)) s \<and> branch_at (br_session_id b) (br_id b) t = Some r) s"
  by (auto simp: swapped_def swap_branch_def get_branch_def assert_some_def Let_def split: option.split)

lemma advance_wp:
  assumes "threads_ok s" and "branch_at (br_session_id b) (br_id b) s = Some b" and "in_session (td_nodes s) (br_session_id b) h"
  shows "wp (advance b h) (\<lambda>_. threads_ok) s"
  unfolding advance_def
proof (rule wp_mono [OF swapped_wp [OF assms(2)]])
  fix r t
  assume "t = td_branches_update (update_where (\<lambda>x. is_branch (br_session_id b) (br_id b) x \<and> br_version x = br_version b)
      (\<lambda>x. (x\<lparr>br_head := Some h, br_name := br_name b\<rparr>)\<lparr>br_version := br_version x + 1\<rparr>)) s \<and> branch_at (br_session_id b) (br_id b) t = Some r"
  moreover have "threads_ok (td_branches_update (update_where (\<lambda>x. is_branch (br_session_id b) (br_id b) x \<and> br_version x = br_version b)
      (\<lambda>x. (x\<lparr>br_head := Some h, br_name := br_name b\<rparr>)\<lparr>br_version := br_version x + 1\<rparr>)) s)"
    by (rule threads_ok_swap [OF assms(1)]) (use assms(3) in \<open>auto simp: branch_valid_def is_branch_def\<close>)
  ultimately show "threads_ok t" by simp
qed

lemma ensure_branch_ok:
  assumes "threads_ok s" and "\<And>h. head = Some h \<Longrightarrow> in_session (td_nodes s) sid h"
  shows "wp (ensure_branch now sid bid head) (\<lambda>_. threads_ok) s"
proof (cases "branch_at sid bid s")
  case None
  have "branch_valid (new_branch now sid bid head None) s" using assms(2) by (simp add: branch_valid_def new_branch_def)
  then have "threads_ok (td_branches_update (\<lambda>bs. bs @ [new_branch now sid bid head None]) s)"
    using None by (intro threads_ok_insert assms(1)) (simp_all add: new_branch_def)
  with None show ?thesis
    by (simp add: ensure_branch_def insert_branch_def get_branch_def new_branch_def assert_some_def split: option.split)
next
  case (Some b)
  then show ?thesis using assms(1)
    by (simp add: ensure_branch_def insert_branch_def get_branch_def new_branch_def assert_some_def)
qed

lemma rename_branch_ok:
  assumes "threads_ok s"
  shows "wp (rename_branch sid bid name) (\<lambda>_. threads_ok) s"
proof (cases "branch_at sid bid s")
  case None
  then show ?thesis by (simp add: rename_branch_def get_branch_def)
next
  case (Some b)
  have b: "br_session_id b = sid" "br_id b = bid" using branch_at_Some [OF Some] by simp_all
  have "wp (swapped b (\<lambda>x. x\<lparr>br_name := Some name\<rparr>)) (\<lambda>_. threads_ok) s"
  proof (rule wp_mono [OF swapped_wp], simp add: b Some)
    fix r t
    assume "t = td_branches_update (update_where (\<lambda>x. is_branch (br_session_id b) (br_id b) x \<and> br_version x = br_version b)
        (\<lambda>x. (x\<lparr>br_name := Some name\<rparr>)\<lparr>br_version := br_version x + 1\<rparr>)) s \<and> branch_at (br_session_id b) (br_id b) t = Some r"
    moreover have "threads_ok (td_branches_update (update_where (\<lambda>x. is_branch (br_session_id b) (br_id b) x \<and> br_version x = br_version b)
        (\<lambda>x. (x\<lparr>br_name := Some name\<rparr>)\<lparr>br_version := br_version x + 1\<rparr>)) s)"
      by (rule threads_ok_swap [OF assms]) (use assms in \<open>auto simp: branch_valid_def threads_ok_def\<close>)
    ultimately show "threads_ok t" by simp
  qed
  with Some show ?thesis by (simp add: rename_branch_def get_branch_def)
qed

lemma check_expectations_wp: "wp (check_expectations b h v sfx) (\<lambda>_ t. t = s \<and> (\<forall>x. h = Some x \<longrightarrow> br_head b = x) \<and>
    (\<forall>x. v = Some x \<longrightarrow> br_version b = x)) s"
  by (cases h; cases v) (simp_all add: check_expectations_def)

lemma set_branch_head_ok:
  assumes "threads_ok s"
  shows "wp (set_branch_head sid bid h eh ev) (\<lambda>_. threads_ok) s"
proof (cases "branch_at sid bid s")
  case None
  then show ?thesis by (simp add: set_branch_head_def get_branch_def)
next
  case (Some b)
  have b: "br_session_id b = sid" "br_id b = bid" using branch_at_Some [OF Some] by simp_all
  have "wp (bindT (get_node h) (\<lambda>n. case n of None \<Rightarrow> failT (dag_error (''New head node '' @ in_quotes h @ '' does not exist''))
      | Some n \<Rightarrow> thenT (guardT (mn_session_id n = sid) (dag_error (''New head node belongs to session '' @
                in_quotes (mn_session_id n) @ '', expected '' @ in_quotes sid))) (advance b h))) (\<lambda>_. threads_ok) s"
  proof (cases "node_at h s")
    case None
    then show ?thesis by (simp add: get_node_def)
  next
    case (Some n)
    then show ?thesis using advance_wp [OF assms, of b h] \<open>branch_at sid bid s = Some b\<close> b node_at_in_session [OF Some]
      by (auto simp: get_node_def)
  qed
  then have "wp (thenT (check_expectations b eh ev []) (bindT (get_node h) (\<lambda>n. case n of
      None \<Rightarrow> failT (dag_error (''New head node '' @ in_quotes h @ '' does not exist''))
      | Some n \<Rightarrow> thenT (guardT (mn_session_id n = sid) (dag_error (''New head node belongs to session '' @
                in_quotes (mn_session_id n) @ '', expected '' @ in_quotes sid))) (advance b h)))) (\<lambda>_. threads_ok) s"
    by (intro wp_seq [OF check_expectations_wp]) simp
  with Some show ?thesis by (simp add: set_branch_head_def get_branch_def)
qed

lemma in_session_update [simp]: "in_session (td_nodes (td_branches_update f s)) = in_session (td_nodes s)"
  by (simp add: fun_eq_iff)

text \<open>What \<open>append_and_advance\<close> leaves: the node on top of the head, the branch on the node.\<close>

definition advanced :: "message_node \<Rightarrow> string \<Rightarrow> thread_db \<Rightarrow> branch \<Rightarrow> thread_db \<Rightarrow> bool" where
  "advanced node bid s b t \<longleftrightarrow> (\<exists>u. node_added node s u \<and>
     mn_parent_id node = (case branch_at (mn_session_id node) bid s of None \<Rightarrow> None | Some b \<Rightarrow> br_head b) \<and>
     td_nodes t = td_nodes u \<and> td_checkpoints t = td_checkpoints u \<and>
     branch_at (mn_session_id node) bid t = Some b \<and> br_head b = Some (mn_id node) \<and>
     (\<forall>sid' bid'. (sid', bid') \<noteq> (mn_session_id node, bid) \<longrightarrow> branch_at sid' bid' t = branch_at sid' bid' s))"

lemma checked_append_wp:
  assumes "\<And>u. node_added node s u \<Longrightarrow> wp m Q u"
  shows "wp (check_expectations b eh ev sfx) (\<lambda>_. wp (append_node node) (\<lambda>_. wp m Q)) s"
  by (rule wp_mono [OF check_expectations_wp]) (auto intro: wp_mono [OF append_node_wp] assms)

lemma append_and_advance_wp:
  assumes "threads_ok s"
  shows "wp (append_and_advance now node bid eh ev) (\<lambda>b t. threads_ok t \<and> advanced node bid s b t) s"
proof (cases "branch_at (mn_session_id node) bid s")
  case None
  let ?b = "new_branch now (mn_session_id node) bid None None"
  have head0: "br_head ?b = None" by (simp add: new_branch_def)
  let ?c = "?b\<lparr>br_head := Some (mn_id node), br_version := 1\<rparr>"
  have "wp (bindT (insert_branch ?c) (\<lambda>inserted. if inserted then retT ?c else failT (head_conflict msg)))
      (\<lambda>b t. threads_ok t \<and> advanced node bid s b t) u" if u: "node_added node s u" "mn_parent_id node = None" for u msg
  proof -
    have "threads_ok u" using node_added_ok [OF u(1) assms] .
    moreover have "branch_valid ?c u" using node_added_in [OF u(1)] by (simp add: branch_valid_def new_branch_def)
    ultimately have ok: "threads_ok (td_branches_update (\<lambda>bs. bs @ [?c]) u)"
      using None u(1) by (intro threads_ok_insert) (simp_all add: new_branch_def)
    have absent: "branch_at (mn_session_id node) bid u = None" using None u(1) by simp
    have "advanced node bid s ?c (td_branches_update (\<lambda>bs. bs @ [?c]) u)"
      unfolding advanced_def using None u absent
      by (intro exI [of _ u]) (auto simp: branch_at_snoc new_branch_def is_branch_def split: option.split)
    with ok absent show ?thesis by (simp add: insert_branch_def get_branch_def new_branch_def)
  qed
  note created = this [unfolded wp_bind]
  show ?thesis
    unfolding append_and_advance_def using None
    by (simp add: get_branch_def Let_def head0) (intro impI checked_append_wp, rule created)
next
  case (Some b)
  have b: "br_session_id b = mn_session_id node" "br_id b = bid" using branch_at_Some [OF Some] by simp_all
  have "wp (advance b (mn_id node)) (\<lambda>b t. threads_ok t \<and> advanced node bid s b t) u"
    if u: "node_added node s u" "mn_parent_id node = br_head b" for u
  proof -
    have here: "branch_at (br_session_id b) (br_id b) u = Some b" using u(1) b Some by simp
    have ok: "threads_ok u" by (rule node_added_ok [OF u(1) assms])
    have swap: "wp (advance b (mn_id node)) (\<lambda>r t. advanced node bid s r t) u"
      unfolding advance_def
    proof (rule wp_mono [OF swapped_wp [OF here]], elim conjE)
      fix r t
      assume t: "t = td_branches_update (update_where (\<lambda>x. is_branch (br_session_id b) (br_id b) x \<and> br_version x = br_version b)
          (\<lambda>x. (x\<lparr>br_head := Some (mn_id node), br_name := br_name b\<rparr>)\<lparr>br_version := br_version x + 1\<rparr>)) u"
        and r: "branch_at (br_session_id b) (br_id b) t = Some r"
      have at_t: "branch_at sid' bid' t = map_option (\<lambda>x. if is_branch (br_session_id b) (br_id b) x \<and> br_version x = br_version b
          then (x\<lparr>br_head := Some (mn_id node), br_name := br_name b\<rparr>)\<lparr>br_version := br_version x + 1\<rparr> else x) (branch_at sid' bid' s)"
        for sid' bid' unfolding t by (subst branch_at_swap) (simp_all add: node_added_branches [OF u(1)])
      have head: "br_head r = Some (mn_id node)" using r unfolding at_t by (auto simp: b Some is_branch_def)
      have other: "branch_at sid' bid' t = branch_at sid' bid' s" if "(sid', bid') \<noteq> (mn_session_id node, bid)" for sid' bid'
        unfolding at_t using that by (cases "branch_at sid' bid' s") (auto simp: b is_branch_def dest: branch_at_Some)
      have "td_nodes t = td_nodes u" "td_checkpoints t = td_checkpoints u" by (simp_all add: t)
      then show "advanced node bid s r t" unfolding advanced_def using u r b Some head other by auto
    qed
    have "in_session (td_nodes u) (br_session_id b) (mn_id node)" using node_added_in [OF u(1)] b by simp
    from wp_conj [OF advance_wp [OF ok here this] swap] show ?thesis .
  qed
  then show ?thesis
    unfolding append_and_advance_def using Some
    by (simp add: get_branch_def Let_def) (intro impI checked_append_wp, simp)
qed

subsection \<open>Forks, checkpoints, deletion\<close>

lemma fork_target_wp:
  assumes "threads_ok s" and "branch_at sid source_id s = Some source"
  shows "wp (fork_target sid source_id source from_id) (\<lambda>r t. t = s \<and> (\<forall>h. r = Some h \<longrightarrow> in_session (td_nodes s) sid h)) s"
proof -
  have "br_head source = Some h \<Longrightarrow> in_session (td_nodes s) sid h" for h
    using assms(1) branch_at_Some [OF assms(2)] by (auto simp: threads_ok_def)
  then show ?thesis
    by (auto simp: fork_target_def get_node_def dest: node_at_in_session split: option.split)
qed

lemma fork_branch_ok:
  assumes "threads_ok s"
  shows "wp (fork_branch now sid source_id new_id from_id) (\<lambda>_. threads_ok) s"
proof (cases "branch_at sid new_id s = None \<and> branch_at sid source_id s \<noteq> None")
  case False
  then show ?thesis by (auto simp: fork_branch_def get_branch_def split: option.split)
next
  case True
  then obtain source where source: "branch_at sid source_id s = Some source" by auto
  have kept: "wp (insert_branch (new_branch now sid new_id target target)) (\<lambda>_. threads_ok) s"
    if "\<forall>h. target = Some h \<longrightarrow> in_session (td_nodes s) sid h" for target
    using that by (intro insert_branch_ok assms) (simp add: branch_valid_def new_branch_def)
  have insert: "wp (insert_branch (new_branch now sid new_id target target)) (\<lambda>i. wp (if i then retT (new_branch now sid new_id target target) else failT e) (\<lambda>_. threads_ok)) s"
    if "\<forall>h. target = Some h \<longrightarrow> in_session (td_nodes s) sid h" for target e
    by (rule wp_mono [OF kept [OF that]]) simp
  show ?thesis using True source
    by (simp add: fork_branch_def get_branch_def Let_def)
       (auto intro!: wp_mono [OF fork_target_wp [OF assms source]] insert)
qed

lemma save_checkpoint_ok:
  assumes "threads_ok s"
  shows "wp (save_checkpoint c) (\<lambda>_. threads_ok) s"
proof -
  have "threads_ok (td_checkpoints_update (put_checkpoint c) s)" if "in_session (td_nodes s) (hc_session_id c) (hc_anchor c)"
  proof -
    have "map hc_id (update_where (\<lambda>x. hc_id x = hc_id c) (\<lambda>_. c) cs) = map hc_id cs" for cs
      by (rule map_update_where) simp
    then show ?thesis using assms that by (auto simp: threads_ok_def put_checkpoint_def set_update_where)
  qed
  then show ?thesis by (auto simp: save_checkpoint_def get_node_def dest: node_at_in_session split: option.split)
qed

lemma threads_ok_delete_branches: "threads_ok s \<Longrightarrow> threads_ok (td_branches_update (delete_where P) s)"
  by (auto simp: threads_ok_def)

lemma in_session_filter: "in_session ns sid nid \<Longrightarrow> \<not> P sid \<Longrightarrow> in_session (delete_where (P \<circ> mn_session_id) ns) sid nid"
  by (auto simp: in_session_def)

lemma threads_ok_delete_sessions: "threads_ok s \<Longrightarrow> threads_ok (delete_sessions P s)"
  using rooted_filter [of "td_nodes s" "\<lambda>x. \<not> P x"]
  by (auto simp: threads_ok_def delete_sessions_def in_session_filter) (simp add: delete_where_def)

section \<open>Every history of operations\<close>

text \<open>
  The operations that write, as steps; the readers change nothing. \<open>ensure_branch\<close> stores whatever head it is
  given: its callers give none, or a node of the session.
\<close>

inductive thread_step :: "thread_db \<Rightarrow> thread_db \<Rightarrow> bool" where
  appends: "append_node node s = Inr (r, t) \<Longrightarrow> thread_step s t"
| ensures: "(\<And>h. head = Some h \<Longrightarrow> in_session (td_nodes s) sid h) \<Longrightarrow> ensure_branch now sid bid head s = Inr (b, t) \<Longrightarrow> thread_step s t"
| renames: "rename_branch sid bid name s = Inr (b, t) \<Longrightarrow> thread_step s t"
| sets_head: "set_branch_head sid bid h eh ev s = Inr (b, t) \<Longrightarrow> thread_step s t"
| advances: "append_and_advance now node bid eh ev s = Inr (b, t) \<Longrightarrow> thread_step s t"
| forks: "fork_branch now sid source new from s = Inr (b, t) \<Longrightarrow> thread_step s t"
| checkpoints: "save_checkpoint c s = Inr (r, t) \<Longrightarrow> thread_step s t"
| deletes_branch: "delete_branch sid bid s = Inr (r, t) \<Longrightarrow> thread_step s t"
| deletes_session: "delete_session sid s = Inr (r, t) \<Longrightarrow> thread_step s t"
| erases: "threads_erase_under name s = Inr (k, t) \<Longrightarrow> thread_step s t"

inductive thread_reach :: "thread_db \<Rightarrow> bool" where
  threads_start: "thread_reach no_threads"
| threads_more: "thread_reach s \<Longrightarrow> thread_step s t \<Longrightarrow> thread_reach t"

lemma thread_step_ok: "thread_step s t \<Longrightarrow> threads_ok s \<Longrightarrow> threads_ok t"
proof (induction rule: thread_step.induct)
  case (appends node s r t)
  then show ?case using wp_run [OF append_node_wp] node_added_ok by blast
next
  case (ensures head s sid now bid b t)
  show ?case by (rule wp_run [OF ensure_branch_ok [OF ensures(3)] ensures(2)]) (rule ensures(1))
next
  case (advances now node bid eh ev s b t)
  then show ?case using wp_run [OF append_and_advance_wp] by blast
next
  case (deletes_branch sid bid s r t)
  then show ?case
    by (auto simp: delete_branch_def failT_def execT_def intro: threads_ok_delete_branches split: if_splits)
next
  case (deletes_session sid s r t)
  then show ?case by (auto simp: delete_session_def execT_def intro: threads_ok_delete_sessions)
next
  case (erases name s k t)
  then show ?case by (auto simp: threads_erase_under_def run_simps intro: threads_ok_delete_sessions)
qed (blast dest: wp_run [OF rename_branch_ok] wp_run [OF set_branch_head_ok] wp_run [OF fork_branch_ok] wp_run [OF save_checkpoint_ok])+

lemma thread_reach_ok: "thread_reach s \<Longrightarrow> threads_ok s"
  by (induction rule: thread_reach.induct) (auto intro: threads_ok_empty thread_step_ok)

end
