(* ===== verification/Scoped_Threads.thy ===== *)
theory Scoped_Threads
  imports Tenancy Thread_Inv
begin

text \<open>
  The threads as one tenant sees them (\<open>_ScopedThreadStore\<close>, \<open>stores/scoped.py\<close>): every session it names is put
  under the tenant, and a node or a checkpoint asked for by its id is shown only when it is the tenant's. \<open>p\<close> is
  the prefix of the tenant.
\<close>

definition node_in :: "string \<Rightarrow> message_node \<Rightarrow> message_node" where
  "node_in p n = n\<lparr>mn_session_id := p @ mn_session_id n\<rparr>"

definition node_out :: "string \<Rightarrow> message_node \<Rightarrow> message_node" where
  "node_out p n = n\<lparr>mn_session_id := strip_prefix p (mn_session_id n)\<rparr>"

definition branch_out :: "string \<Rightarrow> branch \<Rightarrow> branch" where
  "branch_out p b = b\<lparr>br_session_id := strip_prefix p (br_session_id b)\<rparr>"

definition cp_out :: "string \<Rightarrow> checkpoint \<Rightarrow> checkpoint" where
  "cp_out p c = c\<lparr>hc_session_id := strip_prefix p (hc_session_id c)\<rparr>"

definition mine :: "string \<Rightarrow> string \<Rightarrow> message_node option thread_tx" where
  "mine p nid = bindT (get_node nid) (\<lambda>n. retT (case n of None \<Rightarrow> None
     | Some n \<Rightarrow> if owns p (mn_session_id n) then Some n else None))"

definition t_append_node :: "string \<Rightarrow> message_node \<Rightarrow> unit thread_tx" where
  "t_append_node p n = append_node (node_in p n)"

definition t_get_node :: "string \<Rightarrow> string \<Rightarrow> message_node option thread_tx" where
  "t_get_node p nid = bindT (mine p nid) (\<lambda>n. retT (map_option (node_out p) n))"

definition t_get_branch :: "string \<Rightarrow> string \<Rightarrow> string \<Rightarrow> branch option thread_tx" where
  "t_get_branch p sid bid = bindT (get_branch (p @ sid) bid) (\<lambda>b. retT (map_option (branch_out p) b))"

definition t_list_branches :: "codec \<Rightarrow> string \<Rightarrow> string \<Rightarrow> branch list thread_tx" where
  "t_list_branches X p sid = bindT (list_branches X (p @ sid)) (\<lambda>bs. retT (map (branch_out p) bs))"

text \<open>\<open>{x!r}\<close> of an id without quotes in it.\<close>

definition not_in_scope :: "string \<Rightarrow> exn" where
  "not_in_scope h = PyExn ''ValueError'' (''head '' @ in_quotes h @ '' is not a node of this scope'')"

definition check_mine :: "string \<Rightarrow> string \<Rightarrow> exn \<Rightarrow> unit thread_tx" where
  "check_mine p nid e = bindT (mine p nid) (\<lambda>n. guardT (n \<noteq> None) e)"

definition t_ensure_branch :: "seconds \<Rightarrow> string \<Rightarrow> string \<Rightarrow> string \<Rightarrow> string option \<Rightarrow> branch thread_tx" where
  "t_ensure_branch now p sid bid head = thenT (case head of None \<Rightarrow> retT () | Some h \<Rightarrow> check_mine p h (not_in_scope h))
     (bindT (ensure_branch now (p @ sid) bid head) (\<lambda>b. retT (branch_out p b)))"

definition t_rename_branch :: "string \<Rightarrow> string \<Rightarrow> string \<Rightarrow> string \<Rightarrow> branch thread_tx" where
  "t_rename_branch p sid bid name = bindT (rename_branch (p @ sid) bid name) (\<lambda>b. retT (branch_out p b))"

definition t_fork_branch :: "seconds \<Rightarrow> string \<Rightarrow> string \<Rightarrow> string \<Rightarrow> string \<Rightarrow> string option \<Rightarrow> branch thread_tx" where
  "t_fork_branch now p sid source new_id from_id =
     bindT (fork_branch now (p @ sid) source new_id from_id) (\<lambda>b. retT (branch_out p b))"

text \<open>An expected head of \<open>None\<close> is no expectation here.\<close>

definition t_set_branch_head :: "string \<Rightarrow> string \<Rightarrow> string \<Rightarrow> string \<Rightarrow> string option \<Rightarrow> int option \<Rightarrow> branch thread_tx" where
  "t_set_branch_head p sid bid h expected_head expected_version = thenT (check_mine p h (not_in_scope h))
     (bindT (set_branch_head (p @ sid) bid h (map_option Some expected_head) expected_version) (\<lambda>b. retT (branch_out p b)))"

definition t_append_and_advance :: "seconds \<Rightarrow> string \<Rightarrow> message_node \<Rightarrow> string \<Rightarrow> string option \<Rightarrow> int option \<Rightarrow> branch thread_tx" where
  "t_append_and_advance now p n bid expected_head expected_version =
     bindT (append_and_advance now (node_in p n) bid (map_option Some expected_head) expected_version) (\<lambda>b. retT (branch_out p b))"

definition t_save_checkpoint :: "string \<Rightarrow> checkpoint \<Rightarrow> unit thread_tx" where
  "t_save_checkpoint p c = thenT (check_mine p (hc_anchor c) (PyExn ''ValueError'' ''a checkpoint must anchor on a node of its own scope''))
     (save_checkpoint (c\<lparr>hc_session_id := p @ hc_session_id c\<rparr>))"

definition t_get_checkpoint :: "string \<Rightarrow> string \<Rightarrow> checkpoint option thread_tx" where
  "t_get_checkpoint p cid = bindT (get_checkpoint cid) (\<lambda>c. retT (case c of None \<Rightarrow> None
     | Some c \<Rightarrow> if owns p (hc_session_id c) then Some (cp_out p c) else None))"

definition t_list_checkpoints :: "codec \<Rightarrow> string \<Rightarrow> string \<Rightarrow> checkpoint list thread_tx" where
  "t_list_checkpoints X p sid = bindT (list_checkpoints X (p @ sid)) (\<lambda>cs. retT (map (cp_out p) cs))"

definition t_delete_branch :: "string \<Rightarrow> string \<Rightarrow> string \<Rightarrow> unit thread_tx" where
  "t_delete_branch p sid bid = delete_branch (p @ sid) bid"

definition t_delete_session :: "string \<Rightarrow> string \<Rightarrow> unit thread_tx" where
  "t_delete_session p sid = delete_session (p @ sid)"

text \<open>\<open>Tenant.erase\<close> and \<open>Tenant.erase_conversation\<close> (\<open>stores/tenant.py\<close>), of the threads.\<close>

definition erase_tenant_threads :: "string \<Rightarrow> nat thread_tx" where
  "erase_tenant_threads tenant = threads_erase_under (quote tenant)"

definition erase_conversation_threads :: "string \<Rightarrow> string \<Rightarrow> nat thread_tx" where
  "erase_conversation_threads tenant cid = threads_erase_under (quote tenant @ ''/'' @ cid)"

section \<open>What a tenant can change\<close>

text \<open>The rows of everybody else.\<close>

definition others_same :: "string \<Rightarrow> thread_db \<Rightarrow> thread_db \<Rightarrow> bool" where
  "others_same p s t \<longleftrightarrow> filter (\<lambda>n. \<not> owns p (mn_session_id n)) (td_nodes t) = filter (\<lambda>n. \<not> owns p (mn_session_id n)) (td_nodes s) \<and>
     filter (\<lambda>b. \<not> owns p (br_session_id b)) (td_branches t) = filter (\<lambda>b. \<not> owns p (br_session_id b)) (td_branches s) \<and>
     filter (\<lambda>c. \<not> owns p (hc_session_id c)) (td_checkpoints t) = filter (\<lambda>c. \<not> owns p (hc_session_id c)) (td_checkpoints s)"

interpretation others: frame "others_same p" for p
  by unfold_locales (auto simp: others_same_def)

lemma owns_append [simp]: "owns p (p @ x)"
  by (simp add: starts_with_append)

lemma others_insert_node: "owns p (mn_session_id n) \<Longrightarrow> stable (others_same p) (insert_node n)"
  unfolding insert_node_def get_node_def
  by (intro others.rules stable_exec) (simp add: others_same_def)

lemma others_check_same: "stable (others_same p) (check_same e n)"
  unfolding check_same_def by (rule others.guard)

lemma others_append_node: "owns p (mn_session_id n) \<Longrightarrow> stable (others_same p) (append_node n)"
  unfolding append_node_def check_parent_def get_node_def
  by (intro others.rules others_insert_node others_check_same)

lemma others_insert_branch: "owns p (br_session_id b) \<Longrightarrow> stable (others_same p) (insert_branch b)"
  unfolding insert_branch_def get_branch_def
  by (intro others.rules stable_exec) (simp add: others_same_def)

lemma filter_update_where: "(\<And>r. P r \<Longrightarrow> \<not> Q r \<and> \<not> Q (f r)) \<Longrightarrow> filter Q (update_where P f rs) = filter Q rs"
  unfolding update_where_def by (induction rs) auto

lemma others_swapped:
  assumes "owns p (br_session_id b)" and "\<And>x. br_session_id (f x) = br_session_id x"
  shows "stable (others_same p) (swapped b f)"
  unfolding swapped_def swap_branch_def get_branch_def assert_some_def Let_def using assms
  by (intro others.rules stable_exec) (auto simp: others_same_def is_branch_def intro!: filter_update_where)

lemma others_check: "stable (others_same p) (check_expectations b eh ev sfx)"
  unfolding check_expectations_def by (intro others.rules)

text \<open>A branch that was read by its key is a branch of that session.\<close>

lemma others_read_branch:
  assumes "\<And>b. br_session_id b = sid \<Longrightarrow> stable (others_same p) (f (Some b))" and "stable (others_same p) (f None)"
  shows "stable (others_same p) (bindT (get_branch sid bid) f)"
proof (rule stableI)
  fix s
  show "wp (bindT (get_branch sid bid) f) (\<lambda>_. others_same p s) s"
    using assms by (cases "branch_at sid bid s") (auto simp: get_branch_def dest: branch_at_Some intro!: stable_wp)
qed

lemma others_advance: "owns p (br_session_id b) \<Longrightarrow> stable (others_same p) (advance b h)"
  unfolding advance_def by (rule others_swapped) simp_all

lemma others_mine: "stable (others_same p) (check_mine q nid e)"
  unfolding check_mine_def mine_def get_node_def by (intro others.rules)

lemma new_branch_session [simp]: "br_session_id (new_branch now sid bid h f) = sid"
  by (simp add: new_branch_def)

lemma others_save: "(\<And>s. R s \<Longrightarrow> \<forall>x\<in>set (td_checkpoints s). hc_id x = hc_id c \<longrightarrow> owns p (hc_session_id x)) \<Longrightarrow> R s \<Longrightarrow>
    wp (save_checkpoint (c\<lparr>hc_session_id := p @ hc_session_id c\<rparr>)) (\<lambda>_. others_same p s) s"
proof -
  assume own: "\<And>s. R s \<Longrightarrow> \<forall>x\<in>set (td_checkpoints s). hc_id x = hc_id c \<longrightarrow> owns p (hc_session_id x)" and R: "R s"
  let ?c = "c\<lparr>hc_session_id := p @ hc_session_id c\<rparr>"
  have "filter (\<lambda>c. \<not> owns p (hc_session_id c)) (update_where (\<lambda>x. hc_id x = hc_id c) (\<lambda>_. ?c) cs) = filter (\<lambda>c. \<not> owns p (hc_session_id c)) cs"
    if "\<forall>x\<in>set cs. hc_id x = hc_id c \<longrightarrow> owns p (hc_session_id x)" for cs
    using that by (induction cs) (auto simp: update_where_def)
  then have "others_same p s (td_checkpoints_update (put_checkpoint ?c) s)"
    using own [OF R] by (auto simp: others_same_def put_checkpoint_def)
  then show ?thesis by (simp add: save_checkpoint_def get_node_def split: option.split)
qed

text \<open>The calls that write.\<close>

datatype thread_call =
    AppendNode message_node
  | EnsureBranch string string "string option"
  | RenameBranch string string string
  | ForkBranch string string string "string option"
  | SetHead string string string "string option" "int option"
  | Advance message_node string "string option" "int option"
  | SaveCheckpoint checkpoint
  | DeleteBranch string string
  | DeleteSession string

definition ignoreT :: "('s, 'e, 'a) tx \<Rightarrow> ('s, 'e, unit) tx" where
  "ignoreT m = bindT m (\<lambda>_. retT ())"

definition thread_call_of :: "seconds \<Rightarrow> string \<Rightarrow> thread_call \<Rightarrow> unit thread_tx" where
  "thread_call_of now p c = (case c of
       AppendNode n \<Rightarrow> t_append_node p n
     | EnsureBranch sid bid h \<Rightarrow> ignoreT (t_ensure_branch now p sid bid h)
     | RenameBranch sid bid name \<Rightarrow> ignoreT (t_rename_branch p sid bid name)
     | ForkBranch sid src new f \<Rightarrow> ignoreT (t_fork_branch now p sid src new f)
     | SetHead sid bid h eh ev \<Rightarrow> ignoreT (t_set_branch_head p sid bid h eh ev)
     | Advance n bid eh ev \<Rightarrow> ignoreT (t_append_and_advance now p n bid eh ev)
     | SaveCheckpoint c \<Rightarrow> t_save_checkpoint p c
     | DeleteBranch sid bid \<Rightarrow> t_delete_branch p sid bid
     | DeleteSession sid \<Rightarrow> t_delete_session p sid)"

lemma others_ensure: "stable (others_same p) (ensure_branch now (p @ sid) bid h)"
  unfolding ensure_branch_def get_branch_def assert_some_def
  by (intro others.rules others_insert_branch) simp

lemma others_rename: "stable (others_same p) (rename_branch (p @ sid) bid name)"
  unfolding rename_branch_def by (rule others_read_branch) (auto intro!: others_swapped others.rules)

lemma others_set_head: "stable (others_same p) (set_branch_head (p @ sid) bid h eh ev)"
  unfolding set_branch_head_def get_node_def
  by (rule others_read_branch) (auto intro!: others_advance others_check others.rules)

lemma others_append_advance: "stable (others_same p) (append_and_advance now (node_in p n) bid eh ev)"
  unfolding append_and_advance_def Let_def
  by (rule others_read_branch) (auto simp: node_in_def intro!: others_advance others_check others_append_node others_insert_branch others.rules)

lemma others_fork: "stable (others_same p) (fork_branch now (p @ sid) src new f)"
  unfolding fork_branch_def fork_target_def get_branch_def get_node_def Let_def
  by (auto intro!: others_insert_branch others.rules)

lemma others_delete_sessions: "(\<And>x. P x \<Longrightarrow> owns p x) \<Longrightarrow> others_same p s (delete_sessions P s)"
proof -
  assume P: "\<And>x. P x \<Longrightarrow> owns p x"
  have keep: "filter (\<lambda>r. \<not> owns p (k r)) (delete_where (P \<circ> k) rs) = filter (\<lambda>r. \<not> owns p (k r)) rs" for k :: "'r \<Rightarrow> string" and rs
    using P by (induction rs) (auto simp: delete_where_def)
  show ?thesis unfolding others_same_def delete_sessions_def by (simp add: keep)
qed

lemma owns_node_in: "owns p (mn_session_id (node_in p n))"
  by (simp add: node_in_def)

lemma others_calls:
  "stable (others_same p) (t_append_node p n)"
  "stable (others_same p) (ignoreT (t_ensure_branch now p sid bid h))"
  "stable (others_same p) (ignoreT (t_rename_branch p sid bid name))"
  "stable (others_same p) (ignoreT (t_fork_branch now p sid src new f))"
  "stable (others_same p) (ignoreT (t_set_branch_head p sid bid nid eh ev))"
  "stable (others_same p) (ignoreT (t_append_and_advance now p n bid eh ev))"
  unfolding ignoreT_def t_append_node_def t_ensure_branch_def t_rename_branch_def t_fork_branch_def
    t_set_branch_head_def t_append_and_advance_def
  by (intro others.rules others_mine others_ensure others_rename others_fork others_set_head others_append_advance others_append_node owns_node_in)+

text \<open>
  C13. A call of a tenant changes no row of anybody else, except that saving a checkpoint takes over a row of its id,
  whoever has it.
\<close>

theorem tenant_changes_its_own:
  assumes "thread_call_of now p c s = Inr ((), t)"
    and "\<And>k x. c = SaveCheckpoint k \<Longrightarrow> x \<in> set (td_checkpoints s) \<Longrightarrow> hc_id x = hc_id k \<Longrightarrow> owns p (hc_session_id x)"
  shows "others_same p s t"
proof -
  have "wp (thread_call_of now p c) (\<lambda>_. others_same p s) s"
  proof (cases c)
    case (SaveCheckpoint k)
    have first: "wp (check_mine p (hc_anchor k) e) (\<lambda>_ u. u = s) s" for e
      by (simp add: check_mine_def mine_def get_node_def)
    have "wp (save_checkpoint (k\<lparr>hc_session_id := p @ hc_session_id k\<rparr>)) (\<lambda>_. others_same p s) s"
      by (rule others_save [where R = "\<lambda>u. u = s"]) (use assms(2) [OF SaveCheckpoint] in auto)
    then have "wp (t_save_checkpoint p k) (\<lambda>_. others_same p s) s"
      unfolding t_save_checkpoint_def by (intro wp_seq [OF first]) simp
    then show ?thesis by (simp add: thread_call_of_def SaveCheckpoint)
  next
    case (DeleteBranch sid bid)
    have "others_same p s (td_branches_update (delete_where (is_branch (p @ sid) bid)) s)"
    proof -
      have "filter (\<lambda>b. \<not> owns p (br_session_id b)) (delete_where (is_branch (p @ sid) bid) bs) = filter (\<lambda>b. \<not> owns p (br_session_id b)) bs" for bs
        by (induction bs) (auto simp: delete_where_def is_branch_def)
      then show ?thesis by (simp add: others_same_def)
    qed
    then show ?thesis by (simp add: thread_call_of_def DeleteBranch t_delete_branch_def delete_branch_def)
  next
    case (DeleteSession sid)
    then show ?thesis by (simp add: thread_call_of_def t_delete_session_def delete_session_def) (rule others_delete_sessions, simp)
  qed (auto simp: thread_call_of_def simp del: wp_bind intro!: stable_wp others_calls)
  then show ?thesis using assms(1) by (simp add: wp_def)
qed

end
