(* ===== verification/Thread_Claims.thy ===== *)
theory Thread_Claims
  imports Thread_Inv
begin

text \<open>
  What the threads promise: the ancestry of a branch can always be read, appending extends it by one node and
  leaves the other branches alone, a fork starts at an ancestor, the checkpoint that applies is the nearest one,
  and a branch moves by compare-and-swap.
\<close>

section \<open>The line of a node\<close>

text \<open>The nodes from the root down to a node, by their parents.\<close>

inductive lineage :: "message_node list \<Rightarrow> string option \<Rightarrow> message_node list \<Rightarrow> bool" where
  line_start: "lineage ns None []"
| line_more: "List.find (\<lambda>x. mn_id x = nid) ns = Some n \<Longrightarrow> lineage ns (mn_parent_id n) c \<Longrightarrow> lineage ns (Some nid) (c @ [n])"

inductive_cases lineage_NoneE: "lineage ns None c"
inductive_cases lineage_SomeE: "lineage ns (Some nid) c"

lemma lineage_append: "lineage ns cur c \<Longrightarrow> lineage (ns @ ms) cur c"
  by (induction rule: lineage.induct) (auto intro: lineage.intros find_append_Some)

lemma lineage_unique: "lineage ns cur c \<Longrightarrow> lineage ns cur d \<Longrightarrow> d = c"
proof (induction arbitrary: d rule: lineage.induct)
  case (line_start ns)
  then show ?case by (rule lineage_NoneE)
next
  case (line_more nid ns n c)
  from line_more(4) obtain m e where "List.find (\<lambda>x. mn_id x = nid) ns = Some m" "lineage ns (mn_parent_id m) e" "d = e @ [m]"
    by (rule lineage_SomeE)
  with line_more(1,3) show ?case by simp
qed

lemma lineage_set: "lineage ns cur c \<Longrightarrow> set c \<subseteq> set ns"
  by (induction rule: lineage.induct) (auto dest: find_SomeD)

definition line_of :: "string \<Rightarrow> message_node list \<Rightarrow> message_node list \<Rightarrow> bool" where
  "line_of sid ns c \<longleftrightarrow> distinct (map mn_id c) \<and> (\<forall>n\<in>set c. mn_session_id n = sid) \<and> set c \<subseteq> set ns"

lemma find_by_id: "distinct (map mn_id ns) \<Longrightarrow> n \<in> set ns \<Longrightarrow> List.find (\<lambda>x. mn_id x = mn_id n) ns = Some n"
  by (induction ns) auto

lemma find_fresh: "mn_id m \<notin> mn_id ` set ns \<Longrightarrow> List.find (\<lambda>x. mn_id x = mn_id m) (ns @ [m]) = Some m"
proof (rule find_snoc)
  assume new: "mn_id m \<notin> mn_id ` set ns"
  have "mn_id x \<noteq> mn_id m" if "x \<in> set ns" for x using new imageI [OF that, of mn_id] by auto
  then show "List.find (\<lambda>x. mn_id x = mn_id m) ns = None" by (simp add: find_None_iff)
qed simp

text \<open>Every node of a rooted list has its line, in its session and without repeats.\<close>

lemma rooted_lineage: "rooted ns \<Longrightarrow> n \<in> set ns \<Longrightarrow> \<exists>c. lineage ns (Some (mn_id n)) c \<and> line_of (mn_session_id n) ns c"
proof (induction arbitrary: n rule: rooted.induct)
  case no_nodes
  then show ?case by simp
next
  case (new_root ns m)
  show ?case
  proof (cases "n \<in> set ns")
    case True
    then show ?thesis using new_root.IH [OF True] by (auto simp: line_of_def intro: lineage_append)
  next
    case False
    then have "n = m" using new_root.prems by simp
    moreover have "List.find (\<lambda>x. mn_id x = mn_id m) (ns @ [m]) = Some m"
      by (rule find_fresh [OF new_root.hyps(2)])
    moreover have "lineage (ns @ [m]) (mn_parent_id m) []" using new_root.hyps(3) by (simp add: line_start)
    ultimately have "n = m" "lineage (ns @ [m]) (Some (mn_id m)) ([] @ [m])" by (simp_all only: line_more)
    then show ?thesis by (intro exI [of _ "[] @ [m]"]) (simp add: line_of_def)
  qed
next
  case (new_child ns m p)
  show ?case
  proof (cases "n \<in> set ns")
    case True
    then show ?thesis using new_child.IH [OF True] by (auto simp: line_of_def intro: lineage_append)
  next
    case False
    then have n: "n = m" using new_child.prems by simp
    obtain c where c: "lineage ns (Some (mn_id p)) c" "line_of (mn_session_id p) ns c"
      using new_child.IH [OF new_child.hyps(3)] by blast
    have "List.find (\<lambda>x. mn_id x = mn_id m) (ns @ [m]) = Some m"
      by (rule find_fresh [OF new_child.hyps(2)])
    moreover have "lineage (ns @ [m]) (mn_parent_id m) c"
      using lineage_append [OF c(1)] new_child.hyps(4) by simp
    ultimately have "lineage (ns @ [m]) (Some (mn_id m)) (c @ [m])" by (rule line_more)
    moreover have "line_of (mn_session_id m) (ns @ [m]) (c @ [m])"
      using c(2) new_child.hyps(2,5) by (auto simp: line_of_def)
    ultimately show ?thesis using n by blast
  qed
qed

section \<open>The resolver reads the line\<close>

lemma walk_lineage:
  "lineage (td_nodes db) cur c \<Longrightarrow> distinct (map mn_id c) \<Longrightarrow> visited \<inter> mn_id ` set c = {} \<Longrightarrow>
   walk_ancestry db None visited chain cur = Inr (c @ rev chain)"
proof (induction "td_nodes db" cur c arbitrary: visited chain rule: lineage.induct)
  case line_start
  then show ?case by simp
next
  case (line_more nid n c)
  have at_n: "node_at nid db = Some n" "mn_id n = nid" using line_more(1) by (auto simp: node_at_def dest: find_SomeD)
  have "walk_ancestry db None (insert nid visited) (chain @ [n]) (mn_parent_id n) = Inr (c @ rev (chain @ [n]))"
    using line_more(4,5) at_n by (intro line_more(3)) auto
  then show ?case using line_more(5) at_n by simp
qed

lemma resolve_lineage:
  "lineage (td_nodes db) (Some nid) c \<Longrightarrow> distinct (map mn_id c) \<Longrightarrow> resolve_ancestry db nid None = Inr c"
  using walk_lineage [of db "Some nid" c "{}" "[]"] by (simp add: resolve_ancestry_def)

lemma resolves:
  assumes "threads_ok db" and "in_session (td_nodes db) sid nid"
  obtains c where "resolve_ancestry db nid None = Inr c" "lineage (td_nodes db) (Some nid) c" "line_of sid (td_nodes db) c"
proof -
  obtain n where "n \<in> set (td_nodes db)" "mn_id n = nid" "mn_session_id n = sid" using assms(2) by (auto simp: in_session_def)
  then show thesis using rooted_lineage [of "td_nodes db" n] assms(1) resolve_lineage [of db nid] that
    by (auto simp: threads_ok_def line_of_def)
qed

section \<open>The query of a fork\<close>

lemma ancestry_lineage: "lineage (td_nodes db) cur c \<Longrightarrow> length c \<le> k \<Longrightarrow> ancestry_ids k db cur = rev (map mn_id c)"
proof (induction "td_nodes db" cur c arbitrary: k rule: lineage.induct)
  case line_start
  then show ?case by (cases k) simp_all
next
  case (line_more nid n c)
  obtain k' where "k = Suc k'" "length c \<le> k'" using line_more(4) by (cases k) auto
  then show ?case using line_more(1,3) by (simp add: node_at_def)
qed

lemma line_length: "line_of sid ns c \<Longrightarrow> length c \<le> length ns"
  unfolding line_of_def by (metis card_length card_mono distinct_card distinct_map le_trans List.finite_set)

lemma is_ancestor_line:
  assumes "lineage (td_nodes db) (Some head) c" and "line_of sid (td_nodes db) c"
  shows "is_ancestor nid head db \<longleftrightarrow> nid \<in> mn_id ` set c"
  unfolding is_ancestor_def ancestry_lineage [OF assms(1) line_length [OF assms(2)]] by simp

section \<open>The history of a branch\<close>

fun linked :: "string option \<Rightarrow> message_node list \<Rightarrow> bool" where
  "linked prev [] \<longleftrightarrow> True"
| "linked prev (n # ns) \<longleftrightarrow> mn_parent_id n = prev \<and> linked (Some (mn_id n)) ns"

lemma linked_snoc: "linked prev (c @ [n]) \<longleftrightarrow> linked prev c \<and> mn_parent_id n = (if c = [] then prev else Some (mn_id (last c)))"
  by (induction c arbitrary: prev) auto

lemma lineage_linked: "lineage ns cur c \<Longrightarrow> linked None c \<and> last_id c = cur"
  by (induction rule: lineage.induct) (auto simp: linked_snoc last_id_def dest: find_SomeD split: if_splits)

definition history_of :: "thread_db \<Rightarrow> string \<Rightarrow> string \<Rightarrow> exn + message_node list" where
  "history_of db sid bid = (case branch_at sid bid db of None \<Rightarrow> Inr [] | Some b \<Rightarrow>
     (case br_head b of None \<Rightarrow> Inr [] | Some h \<Rightarrow> resolve_ancestry db h None))"

definition branch_head :: "thread_db \<Rightarrow> string \<Rightarrow> string \<Rightarrow> string option" where
  "branch_head db sid bid = (case branch_at sid bid db of None \<Rightarrow> None | Some b \<Rightarrow> br_head b)"

lemma history_lineage:
  assumes "threads_ok db"
  obtains c where "history_of db sid bid = Inr c" "lineage (td_nodes db) (branch_head db sid bid) c" "line_of sid (td_nodes db) c"
proof (cases "branch_head db sid bid")
  case None
  then show thesis using that [of "[]"]
    by (auto simp: history_of_def branch_head_def line_of_def line_start split: option.splits)
next
  case (Some h)
  then obtain b where b: "branch_at sid bid db = Some b" "br_head b = Some h" by (auto simp: branch_head_def split: option.splits)
  then have "in_session (td_nodes db) sid h" using assms branch_at_Some [OF b(1)] by (auto simp: threads_ok_def)
  from resolves [OF assms this] show thesis using that b by (auto simp: history_of_def branch_head_def)
qed

lemma history_same:
  assumes "threads_ok s" and "threads_ok t" and "branch_head t sid bid = branch_head s sid' bid'" and "\<exists>ms. td_nodes t = td_nodes s @ ms"
  shows "history_of t sid bid = history_of s sid' bid'"
proof -
  obtain c where c: "history_of s sid' bid' = Inr c" "lineage (td_nodes s) (branch_head s sid' bid') c" using history_lineage [OF assms(1)] .
  obtain d where d: "history_of t sid bid = Inr d" "lineage (td_nodes t) (branch_head t sid bid) d" using history_lineage [OF assms(2)] .
  have "lineage (td_nodes t) (branch_head t sid bid) c" using c(2) assms(3,4) lineage_append by auto
  then show ?thesis using c(1) d(1) lineage_unique [OF _ d(2)] by simp
qed


section \<open>Appending\<close>

lemma added_nodes: "node_added node s t \<Longrightarrow> \<exists>ms. td_nodes t = td_nodes s @ ms"
  by (auto simp: node_added_def)

lemma added_at: "node_added node s t \<Longrightarrow> \<exists>n. node_at (mn_id node) t = Some n \<and> same_node n node"
  by (auto simp: node_added_def node_at_def same_node_def find_snoc)

text \<open>The node that is stored, and the state that is left.\<close>

lemma advanced_history:
  assumes "threads_ok s" and "threads_ok t" and "advanced node bid s b t" and "history_of s (mn_session_id node) bid = Inr c"
  obtains n where "history_of t (mn_session_id node) bid = Inr (c @ [n])" "node_at (mn_id node) t = Some n" "same_node n node"
proof -
  from assms(3) obtain u where u: "node_added node s u" "td_nodes t = td_nodes u"
      "mn_parent_id node = branch_head s (mn_session_id node) bid" "branch_head t (mn_session_id node) bid = Some (mn_id node)"
    by (auto simp: advanced_def branch_head_def split: option.splits)
  obtain n where n: "node_at (mn_id node) t = Some n" "same_node n node" using added_at [OF u(1)] u(2) by (auto simp: node_at_def)
  have "lineage (td_nodes s) (branch_head s (mn_session_id node) bid) c"
    using history_lineage [OF assms(1), of "mn_session_id node" bid] assms(4) by auto
  then have "lineage (td_nodes t) (mn_parent_id n) c"
    using added_nodes [OF u(1)] u(2,3) n(2) lineage_append by (auto simp: same_node_def)
  then have line: "lineage (td_nodes t) (Some (mn_id node)) (c @ [n])" using n(1) by (auto simp: node_at_def intro: line_more)
  obtain d where d: "history_of t (mn_session_id node) bid = Inr d" "lineage (td_nodes t) (Some (mn_id node)) d"
    using history_lineage [OF assms(2), of "mn_session_id node" bid] u(4) by metis
  with lineage_unique [OF line d(2)] n that show thesis by simp
qed

theorem append_extends_history:
  assumes "thread_reach s" and "append_and_advance now node bid eh ev s = Inr (b, t)"
    and "history_of s (mn_session_id node) bid = Inr c"
  shows "\<exists>n. history_of t (mn_session_id node) bid = Inr (c @ [n]) \<and> same_node n node \<and>
    (\<forall>sid' bid'. (sid', bid') \<noteq> (mn_session_id node, bid) \<longrightarrow> history_of t sid' bid' = history_of s sid' bid')"
proof -
  have s: "threads_ok s" using thread_reach_ok [OF assms(1)] .
  have t: "threads_ok t" and adv: "advanced node bid s b t" using wp_run [OF append_and_advance_wp [OF s] assms(2)] by simp_all
  obtain n where n: "history_of t (mn_session_id node) bid = Inr (c @ [n])" "same_node n node"
    using advanced_history [OF s t adv assms(3)] by blast
  have "history_of t sid' bid' = history_of s sid' bid'" if "(sid', bid') \<noteq> (mn_session_id node, bid)" for sid' bid'
  proof (rule history_same [OF s t])
    show "branch_head t sid' bid' = branch_head s sid' bid'" using adv that unfolding advanced_def branch_head_def by metis
    show "\<exists>ms. td_nodes t = td_nodes s @ ms" using adv added_nodes by (auto simp: advanced_def)
  qed
  with n show ?thesis by blast
qed

section \<open>Forking\<close>

lemma lineage_prefix: "lineage ns cur c \<Longrightarrow> n \<in> set c \<Longrightarrow> \<exists>d e. c = d @ e \<and> lineage ns (Some (mn_id n)) d"
proof (induction rule: lineage.induct)
  case (line_more nid ns m c)
  show ?case
  proof (cases "n = m")
    case True
    have "mn_id m = nid" using line_more(1) by (auto dest: find_SomeD)
    then have "lineage ns (Some (mn_id n)) (c @ [m])" using line_more(1,2) True by (auto intro: lineage.line_more)
    then show ?thesis by blast
  next
    case False
    then obtain d e where "c = d @ e" "lineage ns (Some (mn_id n)) d" using line_more by auto
    then show ?thesis by (intro exI [of _ d] exI [of _ "e @ [m]"]) simp
  qed
qed simp

text \<open>
  C10. A fork from a message succeeds only for a message of the source's history, and the new branch then has the
  history up to that message; the source keeps its own.
\<close>

theorem fork_takes_prefix:
  assumes "thread_reach s" and "fork_branch now sid source new_id (Some f) s = Inr (b, t)" and "history_of s sid source = Inr c"
  shows "\<exists>d e. c = d @ e \<and> last_id d = Some f \<and> history_of t sid new_id = Inr d \<and> history_of t sid source = Inr c"
proof -
  have s: "threads_ok s" using thread_reach_ok [OF assms(1)] .
  have t: "threads_ok t" using wp_run [OF fork_branch_ok [OF s] assms(2)] .
  from assms(2) obtain src head where src: "branch_at sid source s = Some src" "br_head src = Some head"
      and free: "branch_at sid new_id s = None" and anc: "is_ancestor f head s"
      and t_def: "t = td_branches_update (\<lambda>bs. bs @ [new_branch now sid new_id (Some f) (Some f)]) s"
    by (auto simp: fork_branch_def fork_target_def insert_branch_def get_branch_def get_node_def run_simps Let_def new_branch_def
        split: option.splits sum.splits prod.splits if_splits)
  have c: "lineage (td_nodes s) (Some head) c" "line_of sid (td_nodes s) c"
    using history_lineage [OF s, of sid source] assms(3) src by (auto simp: branch_head_def)
  then obtain n where n: "n \<in> set c" "mn_id n = f" using anc is_ancestor_line by auto
  then obtain d e where d: "c = d @ e" "lineage (td_nodes s) (Some f) d" using lineage_prefix [OF c(1)] by blast
  have heads: "branch_head t sid new_id = Some f" "branch_head t sid source = branch_head s sid source"
    using free src by (auto simp: branch_head_def t_def branch_at_snoc new_branch_def is_branch_def)
  have nodes: "td_nodes t = td_nodes s" by (simp add: t_def)
  obtain d' where d': "history_of t sid new_id = Inr d'" "lineage (td_nodes t) (Some f) d'"
    using history_lineage [OF t, of sid new_id] heads(1) by metis
  have "history_of t sid source = history_of s sid source" by (rule history_same [OF s t heads(2)]) (simp add: nodes)
  moreover have "d' = d" using lineage_unique [OF d(2)] d'(2) nodes by simp
  ultimately show ?thesis using d d'(1) assms(3) lineage_linked [OF d(2)] by auto
qed

section \<open>The checkpoint that applies\<close>

lemma first_max_in: "first_max key x xs \<in> set (x # xs)"
  unfolding first_max_def by (induction xs arbitrary: x) auto

lemma first_max_greatest: "y \<in> set (x # xs) \<Longrightarrow> key y \<le> key (first_max key x xs)"
proof -
  have base: "key z \<le> key (first_max key z ys)" for z ys
  proof (induction ys arbitrary: z)
    case (Cons y ys)
    have "key z \<le> key (if key z < key y then y else z)" by auto
    also have "\<dots> \<le> key (first_max key (if key z < key y then y else z) ys)" by (rule Cons.IH)
    finally show ?case by (simp add: first_max_def)
  qed (simp add: first_max_def)
  show "y \<in> set (x # xs) \<Longrightarrow> key y \<le> key (first_max key x xs)"
  proof (induction xs arbitrary: x)
    case (Cons z zs)
    have step: "first_max key x (z # zs) = first_max key (if key x < key z then z else x) zs" by (simp add: first_max_def)
    show ?case
    proof (cases "y = x \<and> key x < key z \<or> y = z \<and> \<not> key x < key z")
      case True
      then have "key y \<le> key (if key x < key z then z else x)" by auto
      also have "\<dots> \<le> key (first_max key x (z # zs))" unfolding step by (rule base)
      finally show ?thesis .
    next
      case False
      then have "y \<in> set ((if key x < key z then z else x) # zs)" using Cons.prems by auto
      from Cons.IH [OF this] show ?thesis unfolding step .
    qed
  qed (simp add: first_max_def)
qed

lemma newest_at_Some: "newest_at cps nid = Some c \<Longrightarrow> c \<in> set cps \<and> hc_anchor c = nid \<and> (\<forall>d\<in>set cps. hc_anchor d = nid \<longrightarrow> hc_created_at d \<le> hc_created_at c)"
proof -
  assume a: "newest_at cps nid = Some c"
  then obtain x xs where f: "filter (\<lambda>c. hc_anchor c = nid) cps = x # xs" "c = first_max hc_created_at x xs"
    by (auto simp: newest_at_def split: list.splits)
  have in_f: "y \<in> set (x # xs) \<longleftrightarrow> y \<in> set cps \<and> hc_anchor y = nid" for y
    unfolding f(1) [symmetric] by simp
  have "c \<in> set (x # xs)" unfolding f(2) by (rule first_max_in)
  then show ?thesis using in_f first_max_greatest [of _ x xs hc_created_at] f(2) by blast
qed

lemma newest_at_None: "newest_at cps nid = None \<longleftrightarrow> (\<forall>c\<in>set cps. hc_anchor c \<noteq> nid)"
proof (cases "filter (\<lambda>c. hc_anchor c = nid) cps")
  case Nil
  then show ?thesis by (auto simp: newest_at_def filter_empty_conv)
next
  case (Cons x xs)
  then have "x \<in> set cps \<and> hc_anchor x = nid" by (auto simp: filter_eq_Cons_iff)
  then show ?thesis using Cons by (auto simp: newest_at_def)
qed

lemma first_some_split: "first_some f (rev xs) = Some y \<Longrightarrow> \<exists>as x bs. xs = as @ x # bs \<and> f x = Some y \<and> (\<forall>b\<in>set bs. f b = None)"
proof (induction xs rule: rev_induct)
  case (snoc x xs)
  show ?case
  proof (cases "f x")
    case None
    then obtain as z bs where "xs = as @ z # bs" "f z = Some y" "\<forall>b\<in>set bs. f b = None" using snoc by auto
    with None show ?thesis by (intro exI [of _ as] exI [of _ z] exI [of _ "bs @ [x]"]) auto
  next
    case (Some z)
    then show ?thesis using snoc.prems by (intro exI [of _ xs] exI [of _ x] exI [of _ "[]"]) auto
  qed
qed simp

lemma first_some_None: "first_some f xs = None \<longleftrightarrow> (\<forall>x\<in>set xs. f x = None)"
  by (induction xs) (auto split: option.split)

lemma set_checkpoints_of: "set (checkpoints_of X sid db) = {c \<in> set (td_checkpoints db). hc_session_id c = sid}"
  by (auto simp: checkpoints_of_def)

lemma node_in_session: "threads_ok db \<Longrightarrow> in_session (td_nodes db) sid nid \<Longrightarrow> \<exists>n. node_at nid db = Some n \<and> mn_session_id n = sid"
  using find_by_id [of "td_nodes db"] rooted_distinct by (auto simp: threads_ok_def in_session_def node_at_def)

lemma find_applicable:
  assumes "threads_ok db" and "in_session (td_nodes db) sid leaf" and "resolve_ancestry db leaf None = Inr c"
  shows "find_applicable_checkpoint X db leaf = Inr (first_some (newest_at (checkpoints_of X sid db) \<circ> mn_id) (rev c))"
proof -
  obtain n where n: "node_at leaf db = Some n" "mn_session_id n = sid" using node_in_session [OF assms(1,2)] by blast
  have "first_some (newest_at [] \<circ> mn_id) (rev c) = None" by (simp add: first_some_None newest_at_def)
  then show ?thesis using n assms(3) by (simp add: find_applicable_checkpoint_def Let_def)
qed

text \<open>
  C11. The checkpoint that applies to a node lies on its line; no checkpoint of the session lies nearer, and none at
  the same node is newer. None applies only when none lies on the line.
\<close>

theorem checkpoint_is_nearest:
  assumes "thread_reach db" and "in_session (td_nodes db) sid leaf"
  shows "\<exists>c. resolve_ancestry db leaf None = Inr c \<and> (case find_applicable_checkpoint X db leaf of
     Inl e \<Rightarrow> False
   | Inr None \<Rightarrow> \<forall>k\<in>set (td_checkpoints db). hc_session_id k = sid \<longrightarrow> hc_anchor k \<notin> mn_id ` set c
   | Inr (Some k) \<Rightarrow> k \<in> set (td_checkpoints db) \<and> hc_session_id k = sid \<and>
       (\<exists>as n bs. c = as @ n # bs \<and> hc_anchor k = mn_id n \<and>
         (\<forall>j\<in>set (td_checkpoints db). hc_session_id j = sid \<longrightarrow> hc_anchor j \<notin> mn_id ` set bs \<and>
            (hc_anchor j = hc_anchor k \<longrightarrow> hc_created_at j \<le> hc_created_at k))))"
proof -
  have ok: "threads_ok db" using thread_reach_ok [OF assms(1)] .
  obtain c where c: "resolve_ancestry db leaf None = Inr c" using resolves [OF ok assms(2)] by blast
  let ?cps = "checkpoints_of X sid db"
  have find: "find_applicable_checkpoint X db leaf = Inr (first_some (newest_at ?cps \<circ> mn_id) (rev c))"
    by (rule find_applicable [OF ok assms(2) c])
  show ?thesis
  proof (cases "first_some (newest_at ?cps \<circ> mn_id) (rev c)")
    case None
    then have "\<forall>n\<in>set c. \<forall>k\<in>set ?cps. hc_anchor k \<noteq> mn_id n" by (simp add: first_some_None newest_at_None)
    then show ?thesis using c find None by (auto simp: set_checkpoints_of)
  next
    case (Some k)
    then obtain as n bs where k: "c = as @ n # bs" "newest_at ?cps (mn_id n) = Some k" "\<forall>b\<in>set bs. newest_at ?cps (mn_id b) = None"
      using first_some_split [OF Some] by auto
    from newest_at_Some [OF k(2)] k(3) have "k \<in> set ?cps" "hc_anchor k = mn_id n"
        "\<forall>j\<in>set ?cps. hc_anchor j = mn_id n \<longrightarrow> hc_created_at j \<le> hc_created_at k" "\<forall>j\<in>set ?cps. hc_anchor j \<notin> mn_id ` set bs"
      by (auto simp: newest_at_None)
    then have "k \<in> set (td_checkpoints db) \<and> hc_session_id k = sid \<and> (\<exists>as n bs. c = as @ n # bs \<and> hc_anchor k = mn_id n \<and>
         (\<forall>j\<in>set (td_checkpoints db). hc_session_id j = sid \<longrightarrow> hc_anchor j \<notin> mn_id ` set bs \<and>
            (hc_anchor j = hc_anchor k \<longrightarrow> hc_created_at j \<le> hc_created_at k)))"
      using k(1) by (simp add: set_checkpoints_of) blast
    then show ?thesis using c find Some by simp
  qed
qed

section \<open>A turn in the transcript\<close>

lemma in_session_id: "in_session ns sid nid \<Longrightarrow> nid \<in> mn_id ` set ns"
  by (auto simp: in_session_def)

lemma checkpoint_anchored: "threads_ok db \<Longrightarrow> k \<in> set (checkpoints_of X sid db) \<Longrightarrow> node_at nid db = None \<Longrightarrow> hc_anchor k \<noteq> nid"
  using in_session_id by (fastforce simp: set_checkpoints_of threads_ok_def node_at_None)

lemma project_messages_history:
  assumes "threads_ok db" and "history_of db sid bid = Inr c"
  shows "project_messages X db sid bid = Inr (let cp = first_some (newest_at (checkpoints_of X sid db) \<circ> mn_id) (rev c) in
    with_summary cp (map mn_payload (working_nodes cp c)))"
proof (cases "branch_head db sid bid")
  case None
  then have "c = []" using assms(2) by (auto simp: history_of_def branch_head_def split: option.splits)
  then show ?thesis using None
    by (auto simp: project_messages_def branch_head_def with_summary_def working_nodes_def split: option.splits)
next
  case (Some h)
  then obtain b where b: "branch_at sid bid db = Some b" "br_head b = Some h" by (auto simp: branch_head_def split: option.splits)
  then have ins: "in_session (td_nodes db) sid h" using assms(1) branch_at_Some [OF b(1)] by (auto simp: threads_ok_def)
  have c: "resolve_ancestry db h None = Inr c" using assms(2) b by (simp add: history_of_def)
  show ?thesis using b c find_applicable [OF assms(1) ins c]
    by (simp add: project_messages_def build_window_def window_messages_def with_system_def effective_system_def with_memory_def Let_def)
qed

lemma after_anchor_snoc: "list_ex (\<lambda>n. mn_id n = a) ns \<Longrightarrow> after_anchor a (ns @ [m]) = after_anchor a ns @ [m]"
proof -
  assume "list_ex (\<lambda>n. mn_id n = a) ns"
  then have ex: "\<exists>n\<in>set ns. mn_id n = a" by (simp add: list_ex_iff)
  then have "dropWhile (\<lambda>n. mn_id n \<noteq> a) ns \<noteq> []" by (auto simp: dropWhile_eq_Nil_conv)
  moreover have "dropWhile (\<lambda>n. mn_id n \<noteq> a) (ns @ [m]) = dropWhile (\<lambda>n. mn_id n \<noteq> a) ns @ [m]"
    using ex by (auto simp: dropWhile_append)
  ultimately show ?thesis using ex by (simp add: after_anchor_def list_ex_iff)
qed

lemma transcript_snoc:
  assumes s: "threads_ok s" and "append_and_advance now node bid eh ev s = Inr (b, t)" and "node_at (mn_id node) s = None"
    and "project_messages X s (mn_session_id node) bid = Inr ms"
  shows "project_messages X t (mn_session_id node) bid = Inr (ms @ [mn_payload node])"
proof -
  let ?sid = "mn_session_id node"
  have t: "threads_ok t" and adv: "advanced node bid s b t" using wp_run [OF append_and_advance_wp [OF s] assms(2)] by simp_all
  obtain c where c: "history_of s ?sid bid = Inr c" using history_lineage [OF s] by blast
  obtain n where n: "history_of t ?sid bid = Inr (c @ [n])" "same_node n node" "node_at (mn_id node) t = Some n"
    using advanced_history [OF s t adv c] by blast
  have payload: "mn_payload n = mn_payload node" using n(2) by (simp add: same_node_def)
  have cps: "checkpoints_of X ?sid t = checkpoints_of X ?sid s" and ids: "mn_id n = mn_id node"
    using adv n(3) by (auto simp: advanced_def node_added_def checkpoints_of_def dest: node_at_id)
  have "\<forall>k\<in>set (checkpoints_of X ?sid s). hc_anchor k \<noteq> mn_id node"
    using checkpoint_anchored [OF s _ assms(3)] by blast
  then have none: "newest_at (checkpoints_of X ?sid s) (mn_id n) = None" by (simp add: newest_at_None ids)
  let ?cp = "first_some (newest_at (checkpoints_of X ?sid s) \<circ> mn_id) (rev c)"
  have "working_nodes ?cp (c @ [n]) = working_nodes ?cp c @ [n]"
  proof (cases ?cp)
    case (Some k)
    then obtain as m bs where "c = as @ m # bs" "newest_at (checkpoints_of X ?sid s) (mn_id m) = Some k"
      using first_some_split [OF Some] by auto
    then have "list_ex (\<lambda>x. mn_id x = hc_anchor k) c" by (auto dest: newest_at_Some)
    then show ?thesis using Some by (simp add: working_nodes_def after_anchor_snoc)
  qed (simp add: working_nodes_def)
  moreover have "with_summary cp (xs @ [m]) = with_summary cp xs @ [m]" for cp xs m
    by (simp add: with_summary_def split: option.split)
  ultimately have "project_messages X t ?sid bid = Inr (with_summary ?cp (map mn_payload (working_nodes ?cp c)) @ [mn_payload node])"
    unfolding project_messages_history [OF t n(1)] cps by (simp add: none payload Let_def)
  moreover have "ms = with_summary ?cp (map mn_payload (working_nodes ?cp c))"
    using assms(4) unfolding project_messages_history [OF s c] by (simp add: Let_def)
  ultimately show ?thesis by simp
qed

text \<open>
  A turn that is appended to a branch appears at the end of its transcript, and what was there before it stays
  as it was, whatever checkpoints there are.
\<close>

theorem transcript_grows:
  assumes "thread_reach s" and "append_and_advance now node bid eh ev s = Inr (b, t)" and "node_at (mn_id node) s = None"
    and "project_messages X s (mn_session_id node) bid = Inr ms"
  shows "project_messages X t (mn_session_id node) bid = Inr (ms @ [mn_payload node])"
  by (rule transcript_snoc [OF thread_reach_ok [OF assms(1)] assms(2-)])

section \<open>Compare and swap\<close>

text \<open>Of two writers that both read a branch at one version, the second is refused.\<close>

theorem one_writer_wins:
  assumes "set_branch_head sid bid h eh (Some v) s = Inr (b, t)"
  shows "\<exists>msg. set_branch_head sid bid h' None (Some v) t = Inl (head_conflict msg)"
proof -
  obtain b0 where b0: "branch_at sid bid s = Some b0" using assms
    by (auto simp: set_branch_head_def get_branch_def run_simps split: option.splits)
  have key: "br_session_id b0 = sid" "br_id b0 = bid" using branch_at_Some [OF b0] by simp_all
  from assms b0 have v: "br_version b0 = v" and adv: "advance b0 h s = Inr (b, t)"
    by (auto simp: set_branch_head_def check_expectations_def get_branch_def get_node_def run_simps split: option.splits if_splits)
  have "branch_at (br_session_id b0) (br_id b0) s = Some b0" using b0 key by simp
  from wp_run [OF swapped_wp [OF this] adv [unfolded advance_def]]
  have t: "t = td_branches_update (update_where (\<lambda>x. is_branch (br_session_id b0) (br_id b0) x \<and> br_version x = br_version b0)
      (\<lambda>x. (x\<lparr>br_head := Some h, br_name := br_name b0\<rparr>)\<lparr>br_version := br_version x + 1\<rparr>)) s" by simp
  have "branch_at sid bid t = Some ((b0\<lparr>br_head := Some h, br_name := br_name b0\<rparr>)\<lparr>br_version := v + 1\<rparr>)"
    unfolding t by (subst branch_at_swap) (simp_all add: b0 key v is_branch_def)
  then show ?thesis
    by (simp add: set_branch_head_def check_expectations_def get_branch_def run_simps) (rule exI, rule refl)
qed

section \<open>Erasing\<close>

text \<open>A name covers itself and what lies below it, and nothing that only starts with the same letters.\<close>

lemma rstrip_noslash: "CHR ''/'' \<notin> set s \<Longrightarrow> rstrip_slash s = s"
proof -
  assume a: "CHR ''/'' \<notin> set s"
  have "dropWhile (\<lambda>c. c = CHR ''/'') (rev s) = rev s" using a by (cases "rev s") (auto simp: dropWhile_eq_self_iff dest: arg_cong [of _ _ set])
  then show ?thesis by (simp add: rstrip_slash_def)
qed

lemma under_plain: "CHR ''/'' \<notin> set name \<Longrightarrow> name \<noteq> [] \<Longrightarrow> under_name name x \<longleftrightarrow> x = name \<or> (\<exists>y. x = name @ ''/'' @ y)"
proof -
  assume a: "CHR ''/'' \<notin> set name" "name \<noteq> []"
  have "take (length name + 1) x = name @ ''/'' \<longleftrightarrow> (\<exists>y. x = name @ ''/'' @ y)"
  proof
    assume "take (length name + 1) x = name @ ''/''"
    then have "x = (name @ ''/'') @ drop (length name + 1) x" by (metis append_take_drop_id)
    then show "\<exists>y. x = name @ ''/'' @ y" by (metis append.assoc)
  qed auto
  then show ?thesis using a by (simp add: under_name_def rstrip_noslash)
qed

text \<open>
  Erasing a name removes every session at or below it, its branches and checkpoints, and keeps every row of every
  other session.
\<close>

theorem erase_under_exact:
  assumes "threads_erase_under name s = Inr (k, t)"
  shows "(\<forall>n\<in>set (td_nodes t). \<not> under_name name (mn_session_id n)) \<and> (\<forall>b\<in>set (td_branches t). \<not> under_name name (br_session_id b)) \<and>
    (\<forall>sid bid. \<not> under_name name sid \<longrightarrow> branch_at sid bid t = branch_at sid bid s) \<and>
    (\<forall>sid. \<not> under_name name sid \<longrightarrow> checkpoints_of X sid t = checkpoints_of X sid s) \<and>
    (\<forall>nid n. node_at nid s = Some n \<and> \<not> under_name name (mn_session_id n) \<longrightarrow> n \<in> set (td_nodes t)) \<and>
    length (td_nodes t) + k = length (td_nodes s)"
proof -
  have t: "t = delete_sessions (under_name name) s" and k: "k = length (filter (under_name name \<circ> mn_session_id) (td_nodes s))"
    using assms by (auto simp: threads_erase_under_def run_simps)
  have "branch_at sid bid t = branch_at sid bid s" if "\<not> under_name name sid" for sid bid
  proof -
    have "List.find (is_branch sid bid) (delete_where (under_name name \<circ> br_session_id) bs) = List.find (is_branch sid bid) bs" for bs
      using that by (induction bs) (auto simp: delete_where_def is_branch_def)
    then show ?thesis by (simp add: t delete_sessions_def branch_at_def)
  qed
  moreover have "checkpoints_of X sid t = checkpoints_of X sid s" if "\<not> under_name name sid" for sid
  proof -
    have "filter (\<lambda>c. hc_session_id c = sid) (delete_where (under_name name \<circ> hc_session_id) cs) = filter (\<lambda>c. hc_session_id c = sid) cs" for cs :: "checkpoint list"
      using that by (induction cs) (auto simp: delete_where_def)
    then show ?thesis by (simp add: t delete_sessions_def checkpoints_of_def)
  qed
  moreover have "length (delete_where P xs) + length (filter P xs) = length xs" for P and xs :: "message_node list"
    by (induction xs) (simp_all add: delete_where_def)
  ultimately show ?thesis unfolding k
    by (auto simp: t delete_sessions_def dest: node_at_id)
qed

end
