(* ===== verification/Compaction_Claims.thy ===== *)
theory Compaction_Claims
  imports Compaction
begin

text \<open>
  What the strategies of \<open>context/compaction\<close> promise: no result of a tool is left without its call, the
  bounds they are given hold, and what the coordinator hands to a model fits its budget.
\<close>

section \<open>Calls and their results\<close>

text \<open>Every tool turn follows a call, or another result of it; \<open>ok\<close> says whether one may come first.\<close>

fun paired_from :: "bool \<Rightarrow> chat_message list \<Rightarrow> bool" where
  "paired_from ok [] \<longleftrightarrow> True"
| "paired_from ok (m # ms) \<longleftrightarrow> (if is_tool_result_turn m then ok \<and> paired_from True ms
     else paired_from (is_tool_call_turn m) ms)"

definition paired :: "chat_message list \<Rightarrow> bool" where
  "paired ms \<longleftrightarrow> paired_from False ms"

definition keeps_pairs :: "'w strategy \<Rightarrow> bool" where
  "keeps_pairs f \<longleftrightarrow> (\<forall>h w. paired h \<longrightarrow> leaves (f h) (either (\<lambda>_ _. True) (\<lambda>r _. paired r)) w)"

lemma tool_turns: "is_tool_result_turn m \<longleftrightarrow> tm_role m = TOOL" "is_tool_call_turn m \<Longrightarrow> tm_role m \<noteq> TOOL"
  by (simp_all add: is_tool_result_turn_def is_tool_call_turn_def)

lemma paired_any: "paired_from ok ms \<Longrightarrow> paired_from True ms"
  by (cases ms) (auto split: if_splits)

lemma paired_unheaded: "ms = [] \<or> \<not> is_tool_result_turn (hd ms) \<Longrightarrow> paired_from ok ms \<longleftrightarrow> paired_from ok' ms"
  by (cases ms) auto

lemma paired_tail: "paired_from ok (m # ms) \<Longrightarrow> paired_from True ms"
  by (auto split: if_splits dest: paired_any)

lemma paired_drop: "paired_from ok ms \<Longrightarrow> paired_from True (drop n ms)"
proof (induction n arbitrary: ok ms)
  case 0
  then show ?case by (simp add: paired_any)
next
  case (Suc n)
  then show ?case by (cases ms) (auto dest: paired_tail simp del: paired_from.simps(2))
qed

lemma paired_dropped: "paired_from ok ms \<Longrightarrow> paired (drop_orphaned_tool_results ms)"
  unfolding paired_def drop_orphaned_tool_results_def
  by (induction ms arbitrary: ok) (auto simp: is_tool_result_turn_def split: if_splits)

lemma window_paired: "paired h \<Longrightarrow> paired (drop_orphaned_tool_results (drop n h))"
  unfolding paired_def [of h] by (rule paired_dropped [OF paired_drop])

lemma dropped_suffix: "\<exists>n. drop_orphaned_tool_results ms = drop n ms"
  unfolding drop_orphaned_tool_results_def by (metis dropWhile_eq_drop)

lemma last_messages_drop: "\<exists>n. last_messages k h = drop n h"
  by (auto simp: last_messages_def)

lemma newest_within_take: "\<exists>n. newest_within cost b acc ms = take n ms"
proof (induction ms arbitrary: acc)
  case (Cons m ms)
  then obtain n where "newest_within cost b (acc + cost m) ms = take n ms" by blast
  then have "newest_within cost b acc (m # ms) = take (if b < int (acc + cost m) then 0 else Suc n) (m # ms)" by simp
  then show ?case by blast
qed simp

lemma newest_within_suffix: "\<exists>n. rev (newest_within cost b acc (rev ms)) = drop n ms"
  using newest_within_take [of cost b acc "rev ms"] by (auto simp: take_rev)

lemma newest_within_bound: "newest_within cost b acc ms \<noteq> [] \<Longrightarrow> int (acc + sum_list (map cost (newest_within cost b acc ms))) \<le> b"
proof (induction ms arbitrary: acc)
  case (Cons m ms)
  then have "\<not> b < int (acc + cost m)" by (auto split: if_splits)
  with Cons.IH [of "acc + cost m"] show ?case
    by (cases "newest_within cost b (acc + cost m) ms = []") (simp_all add: add.assoc)
qed simp

subsection \<open>Windows keep them\<close>

lemma sliding_window_paired: "paired h \<Longrightarrow> paired (sliding_window n h)"
  using last_messages_drop [of n h] by (auto simp: sliding_window_def intro: window_paired)

lemma truncate_by_chars_paired: "paired h \<Longrightarrow> paired (truncate_by_chars X c h)"
  using newest_within_suffix [of "estimate_message_chars X" c 0 h] by (auto simp: truncate_by_chars_def intro: window_paired)

lemma truncation_paired: "paired h \<Longrightarrow> paired (truncation X n c h)"
proof -
  assume h: "paired h"
  have "paired (drop_orphaned_tool_results (last_messages k h))" for k
    using last_messages_drop [of k h] h by (auto intro: window_paired)
  with h have "paired (case n of None \<Rightarrow> h | Some n \<Rightarrow> if n < int (length h) then drop_orphaned_tool_results (last_messages n h) else h)"
    by (simp split: option.splits)
  then show ?thesis by (simp add: truncation_def Let_def truncate_by_chars_paired split: option.splits)
qed

subsection \<open>Removing old calls\<close>

lemma find_groups_from: "(a, b) \<in> set (find_groups i ms) \<Longrightarrow> i \<le> a"
  by (induction i ms rule: find_groups.induct) (fastforce simp: Let_def split: if_splits)+

definition removed :: "(nat \<times> nat) list \<Rightarrow> nat set" where
  "removed gs = (\<Union>(a, b)\<in>set gs. {a ..< b + 1})"

lemma removed_simps [simp]: "removed [] = {}" "removed ((a, b) # gs) = {a ..< b + 1} \<union> removed gs"
  by (auto simp: removed_def)

lemma removed_from: "j \<in> removed (take k (find_groups i ms)) \<Longrightarrow> i \<le> j"
  unfolding removed_def by (auto dest!: in_set_takeD find_groups_from)

text \<open>What remains at the indices of \<open>ms\<close> from \<open>i\<close> on when those of \<open>R\<close> are removed.\<close>

definition keep_from :: "nat \<Rightarrow> nat set \<Rightarrow> chat_message list \<Rightarrow> chat_message list" where
  "keep_from i R ms = map snd (filter (\<lambda>(j, m). j \<notin> R) (enumerate i ms))"

lemma keep_from_Nil [simp]: "keep_from i R [] = []"
  by (simp add: keep_from_def)

lemma keep_from_Cons [simp]: "keep_from i R (m # ms) = (if i \<in> R then keep_from (Suc i) R ms else m # keep_from (Suc i) R ms)"
  by (simp add: keep_from_def)

lemma keep_from_empty [simp]: "keep_from i {} ms = ms"
  by (induction ms arbitrary: i) simp_all

lemma keep_from_gone: "{i ..< i + k} \<subseteq> R \<Longrightarrow> k \<le> length ms \<Longrightarrow> keep_from i R ms = keep_from (i + k) R (drop k ms)"
proof (induction k arbitrary: i ms)
  case (Suc k)
  then obtain m rest where "ms = m # rest" by (cases ms) auto
  moreover have "i \<in> R" "{Suc i ..< Suc i + k} \<subseteq> R" using Suc.prems(1) by auto
  ultimately show ?case using Suc.IH [of "Suc i" rest] Suc.prems(2) by simp
qed simp

lemma keep_from_cong: "(\<And>j. i \<le> j \<Longrightarrow> j \<in> R \<longleftrightarrow> j \<in> R') \<Longrightarrow> keep_from i R ms = keep_from i R' ms"
proof (induction ms arbitrary: i)
  case (Cons m ms)
  moreover have "keep_from (Suc i) R ms = keep_from (Suc i) R' ms" using Cons.IH [of "Suc i"] Cons.prems by auto
  ultimately show ?case by auto
qed simp

lemma results_end: "drop (length (takeWhile P ms)) ms = [] \<or> \<not> P (hd (drop (length (takeWhile P ms)) ms))"
  by (metis dropWhile_eq_drop hd_dropWhile)

lemma removed_groups_paired: "paired_from ok ms \<Longrightarrow> paired_from ok (keep_from i (removed (take k (find_groups i ms))) ms)"
proof (induction i ms arbitrary: ok k rule: find_groups.induct)
  case (2 i m ms)
  let ?R = "removed (take k (find_groups i (m # ms)))"
  show ?case
  proof (cases "is_tool_call_turn m")
    case False
    then have R: "?R = removed (take k (find_groups (i + 1) ms))" by simp
    then have "i \<notin> ?R" using removed_from by fastforce
    then show ?thesis using 2(2) [OF False] 2(3) False R by (auto split: if_splits)
  next
    case True
    let ?k = "length (takeWhile is_tool_result_turn ms)"
    let ?rest = "drop ?k ms"
    have groups: "find_groups i (m # ms) = (i, i + ?k) # find_groups (i + ?k + 1) ?rest" using True by (simp add: Let_def)
    show ?thesis
    proof (cases k)
      case 0
      then show ?thesis using 2(3) by simp
    next
      case (Suc k')
      let ?S = "removed (take k' (find_groups (i + ?k + 1) ?rest))"
      have R: "?R = {i ..< i + ?k + 1} \<union> ?S" using groups Suc by simp
      have "keep_from i ?R (m # ms) = keep_from (i + (?k + 1)) ?R (drop (?k + 1) (m # ms))"
        using R by (intro keep_from_gone) (auto simp: length_takeWhile_le)
      also have "\<dots> = keep_from (i + ?k + 1) ?S ?rest" using R by (auto intro!: keep_from_cong)
      finally have eq: "keep_from i ?R (m # ms) = keep_from (i + ?k + 1) ?S ?rest" .
      have "paired_from True ?rest" using paired_drop [OF 2(3), of "?k + 1"] by simp
      then have "paired_from ok ?rest" using paired_unheaded [OF results_end] by blast
      then show ?thesis using 2(1) [OF True refl] eq by simp
    qed
  qed
qed simp

lemma removed_concat: "set (concat (map (\<lambda>(start, last). [start ..< last + 1]) gs)) = removed gs"
  by (induction gs) auto

lemma selective_keeps: "selective_tool_call keep h = (if int (length (find_groups 0 h)) \<le> keep then h
    else keep_from 0 (removed (take (nat (int (length (find_groups 0 h)) - keep)) (find_groups 0 h))) h)"
  unfolding selective_tool_call_def Let_def keep_from_def removed_concat by (rule refl)

lemma selective_paired: "paired h \<Longrightarrow> paired (selective_tool_call keep h)"
  by (simp add: selective_keeps paired_def removed_groups_paired)

subsection \<open>Shortening results\<close>

lemma compact_tool_message_role [simp]: "tm_role (compact_tool_message n m) = tm_role m"
  by (simp add: compact_tool_message_def turn_def Let_def)

lemma compact_tool_message_call [simp]: "is_tool_call_turn (compact_tool_message n m) = is_tool_call_turn m"
  by (auto simp: is_tool_call_turn_def compact_tool_message_def turn_def Let_def)

lemma compacted_results_paired: "paired h \<Longrightarrow> paired (tool_result_compaction n h)"
proof -
  have "paired_from ok h \<Longrightarrow> paired_from ok (map (compact_tool_message n) h)" for ok
    by (induction h arbitrary: ok) (auto simp: is_tool_result_turn_def)
  then show "paired h \<Longrightarrow> paired (tool_result_compaction n h)" by (simp add: paired_def tool_result_compaction_def)
qed

subsection \<open>The fallback\<close>

lemma drop_until_fits_suffix: "\<exists>n. drop_until_fits cost b ms = drop n ms"
proof (induction cost b ms rule: drop_until_fits.induct)
  case (2 cost b m ms)
  show ?case
  proof (cases "b < int (cost (m # ms))")
    case True
    then obtain n where "drop_until_fits cost b (m # ms) = drop n (drop_orphaned_tool_results ms)" using 2 by auto
    moreover obtain k where "drop_orphaned_tool_results ms = drop k ms" using dropped_suffix by blast
    ultimately have "drop_until_fits cost b (m # ms) = drop (Suc (n + k)) (m # ms)" by simp
    then show ?thesis by blast
  next
    case False
    then have "drop_until_fits cost b (m # ms) = drop 0 (m # ms)" by simp
    then show ?thesis by blast
  qed
qed simp

lemma drop_until_fits_paired: "paired ms \<Longrightarrow> paired (drop_until_fits cost b ms)"
proof (induction cost b ms rule: drop_until_fits.induct)
  case (2 cost b m ms)
  have "paired (drop_orphaned_tool_results ms)" using window_paired [OF 2(2), of 1] by simp
  with 2 show ?case by simp
qed simp

lemma system_turn: "tm_role m = SYSTEM \<Longrightarrow> \<not> is_tool_result_turn m \<and> \<not> is_tool_call_turn m"
  by (simp add: is_tool_result_turn_def is_tool_call_turn_def)

lemma paired_system: "tm_role m = SYSTEM \<Longrightarrow> paired (m # ms) \<longleftrightarrow> paired ms"
  by (simp add: paired_def system_turn)

text \<open>What the fallback returns: the history, or the system turn with the newest turns.\<close>

lemma fallback_cases:
  assumes "deterministic_fallback X cpt ms budget = Inr r"
  obtains "r = ms"
  | m rest b where "ms = m # rest" "tm_role m = SYSTEM" "r = m # drop_until_fits (\<lambda>ws. estimate_tokens X cpt (m # ws)) b rest"
  | b where "split_system ms = ([], ms)" "r = drop_until_fits (\<lambda>ws. estimate_tokens X cpt ws) b ms"
proof (cases budget)
  case None
  then show thesis using assms that(1) by (simp add: deterministic_fallback_def)
next
  case (Some b)
  show thesis
  proof (cases "ms = [] \<or> int (estimate_tokens X cpt ms) \<le> b")
    case True
    then show thesis using assms Some that(1) by (simp add: deterministic_fallback_def)
  next
    case False
    then obtain m rest where ms: "ms = m # rest" by (cases ms) auto
    show thesis
    proof (cases "tm_role m = SYSTEM")
      case True
      then have "r = m # drop_until_fits (\<lambda>ws. estimate_tokens X cpt (m # ws)) b rest"
        using assms Some False ms by (simp add: deterministic_fallback_def split_system_def Let_def split: if_splits)
      then show thesis using that(2) ms True by blast
    next
      case other: False
      then have "split_system ms = ([], ms)" "r = drop_until_fits (\<lambda>ws. estimate_tokens X cpt ws) b ms"
        using assms Some False ms by (simp_all add: deterministic_fallback_def split_system_def Let_def split: if_splits)
      then show thesis using that(3) by blast
    qed
  qed
qed

lemma fallback_paired:
  assumes "paired ms" and "deterministic_fallback X cpt ms b = Inr r"
  shows "paired r"
  using assms(2)
proof (cases rule: fallback_cases)
  case 1
  then show ?thesis using assms(1) by simp
next
  case (2 m rest b')
  then show ?thesis using assms(1) by (simp add: paired_system drop_until_fits_paired)
next
  case (3 b')
  then show ?thesis using assms(1) by (simp add: drop_until_fits_paired)
qed

lemma fallback_fits: "deterministic_fallback X cpt ms (Some b) = Inr r \<Longrightarrow> ms \<noteq> [] \<Longrightarrow> int (estimate_tokens X cpt r) \<le> b"
  by (auto simp: deterministic_fallback_def Let_def split: if_splits prod.splits)

section \<open>Strategies\<close>

lemma leaves_lift: "leaves (liftE r) Q = Q r"
  by (cases r) (simp_all add: liftE_def)

lemma keeps_pure: "(\<And>h. paired h \<Longrightarrow> paired (f h)) \<Longrightarrow> keeps_pairs (pureS f)"
  by (simp add: keeps_pairs_def pureS_def)

lemma pairs_run: "keeps_pairs f \<Longrightarrow> paired h \<Longrightarrow> leaves (f h) (either (\<lambda>_ _. True) (\<lambda>r _. paired r)) w"
  by (simp add: keeps_pairs_def)

lemma keeps_pipeline: "(\<And>f. f \<in> set fs \<Longrightarrow> keeps_pairs f) \<Longrightarrow> keeps_pairs (pipeline fs)"
proof (induction fs)
  case Nil
  then show ?case by (simp add: keeps_pairs_def)
next
  case (Cons f fs)
  then have f: "keeps_pairs f" and fs: "keeps_pairs (pipeline fs)" by simp_all
  have "leaves (pipeline (f # fs) h) (either (\<lambda>_ _. True) (\<lambda>r _. paired r)) w" if "paired h" for h w
    unfolding pipeline.simps by (rule leaves_seq [OF pairs_run [OF f that]]) (simp_all add: pairs_run [OF fs])
  then show ?case by (simp add: keeps_pairs_def)
qed

lemma keeps_until: "(\<And>f. f \<in> set fs \<Longrightarrow> keeps_pairs f) \<Longrightarrow> keeps_pairs (until_fits X cpt b fs)"
proof (induction fs)
  case Nil
  then show ?case by (simp add: keeps_pairs_def)
next
  case (Cons f fs)
  then have f: "keeps_pairs f" and fs: "keeps_pairs (until_fits X cpt b fs)" by simp_all
  have "leaves (until_fits X cpt b (f # fs) h) (either (\<lambda>_ _. True) (\<lambda>r _. paired r)) w" if "paired h" for h w
    unfolding until_fits.simps by (rule leaves_seq [OF pairs_run [OF f that]]) (simp_all add: pairs_run [OF fs])
  then show ?case by (simp add: keeps_pairs_def)
qed

lemma keeps_composed: "(\<And>f. f \<in> set fs \<Longrightarrow> keeps_pairs f) \<Longrightarrow> keeps_pairs (token_budget_composed X cpt b fs)"
  using keeps_until [of fs X cpt b] by (simp add: keeps_pairs_def token_budget_composed_def)

lemma keeps_budget_pipeline: "keeps_pairs (token_budget_pipeline X b)"
  unfolding token_budget_pipeline_def
  by (rule keeps_pipeline)
     (auto intro!: keeps_composed keeps_pure compacted_results_paired selective_paired truncation_paired)

lemma fallback_leaves: "paired ms \<Longrightarrow> leaves (liftE (deterministic_fallback X cpt ms b)) (either (\<lambda>_ _. True) (\<lambda>r _. paired r)) w"
  unfolding leaves_lift by (cases "deterministic_fallback X cpt ms b") (auto intro: fallback_paired)

lemma keeps_pre_llm:
  assumes "\<And>f. pre = Some f \<Longrightarrow> keeps_pairs f"
  shows "keeps_pairs (compact_pre_llm X cpt pre budget)"
proof -
  have first: "leaves (case pre of None \<Rightarrow> liftE (deterministic_fallback X cpt ms budget)
       | Some f \<Rightarrow> catchA (f ms) (\<lambda>e. if is_exception e then liftE (deterministic_fallback X cpt ms budget) else raiseA e))
     (either (\<lambda>_ _. True) (\<lambda>r _. paired r)) w" if "paired ms" for ms w
  proof (cases pre)
    case None
    then show ?thesis using that by (simp add: fallback_leaves)
  next
    case (Some f)
    have "leaves (catchA (f ms) (\<lambda>e. if is_exception e then liftE (deterministic_fallback X cpt ms budget) else raiseA e))
       (either (\<lambda>_ _. True) (\<lambda>r _. paired r)) w"
      by (rule leaves_try [OF pairs_run [OF assms [OF Some] that]]) (simp_all add: fallback_leaves that)
    with Some show ?thesis by simp
  qed
  have "leaves (compact_pre_llm X cpt pre budget ms) (either (\<lambda>_ _. True) (\<lambda>r _. paired r)) w" if "paired ms" for ms w
    unfolding compact_pre_llm_def
    by (rule leaves_seq [OF first [OF that]]) (auto simp: fallback_leaves split: option.split)
  then show ?thesis by (simp add: keeps_pairs_def)
qed


text \<open>
  C30. Under a budget the coordinator hands out a history that fits it, or raises, whatever the strategy does.
\<close>

theorem compaction_fits:
  assumes "compact_pre_llm X cpt pre (Some b) h w = (Inr r, w')" and "0 \<le> b"
  shows "int (estimate_tokens X cpt r) \<le> b"
proof -
  let ?fits = "either (\<lambda>_ _. True) (\<lambda>r _. int (estimate_tokens X cpt r) \<le> b)"
  have last: "leaves (if b < int (estimate_tokens X cpt a) then liftE (deterministic_fallback X cpt a (Some b)) else retA a) ?fits t" for a t
  proof (cases "b < int (estimate_tokens X cpt a)")
    case True
    then have "a \<noteq> []" using assms(2) by auto
    then show ?thesis using True fallback_fits [of X cpt a b]
      by (cases "deterministic_fallback X cpt a (Some b)") (simp_all add: leaves_lift)
  qed simp
  have any: "leaves m (\<lambda>_ _. True) t" for m t
    by (simp add: leaves_def split: prod.splits)
  have "leaves (compact_pre_llm X cpt pre (Some b) h) ?fits w"
    unfolding compact_pre_llm_def by (rule leaves_seq [OF any]) (simp_all add: last)
  from leaves_run [OF this assms(1)] show ?thesis by simp
qed

lemma fallback_keeps_system:
  assumes "deterministic_fallback X cpt (m # rest) b = Inr r" and "tm_role m = SYSTEM"
  shows "\<exists>n. r = m # drop n rest"
  using assms(1)
proof (cases rule: fallback_cases)
  case 1
  then show ?thesis by (metis drop0)
next
  case (2 m' rest' b')
  then show ?thesis using drop_until_fits_suffix by (metis list.inject)
next
  case (3 b')
  then show ?thesis using assms(2) by (simp add: split_system_def)
qed

section \<open>On a conversation\<close>

definition sample_codec :: codec where
  "sample_codec = \<lparr>cx_float = (\<lambda>_. []), cx_time = (\<lambda>_. []), cx_sha256 = (\<lambda>s. s),
     cx_b64 = rev, cx_unb64 = (\<lambda>s. Some (rev s))\<rparr>"

definition sample_talk :: "chat_message list" where
  "sample_talk = [turn USER [TextBlock ''please read the two files and compare them''],
     turn ASSISTANT [ToolUseBlock ''c1'' ''read'' (JObj []) None (JObj [])],
     turn TOOL [ToolResultBlock ''c1'' ''read'' [TextBlock ''some contents''] False],
     turn ASSISTANT [TextBlock ''they agree'']]"


theorem compaction_fits_witness:
  "int (estimate_tokens sample_codec 4 (drop 3 sample_talk)) \<le> 12"
proof (rule compaction_fits [where h = sample_talk and pre = "Some (token_budget_pipeline sample_codec 10)" and w = "()" and w' = "()"])
  show "compact_pre_llm sample_codec 4 (Some (token_budget_pipeline sample_codec 10)) (Some 12) sample_talk () = (Inr (drop 3 sample_talk), ())"
    by code_simp
qed simp

text \<open>
  \<open>SummarizationStrategy._split\<close> has no such care: the recent turns it keeps may begin with the result of
  a call that went into the summary.
\<close>

theorem summary_leaves_an_orphan:
  "\<exists>r. summarization sample_codec 4 15 1 (\<lambda>_ _. retA ''two files'') sample_talk () = (Inr r, ()) \<and> paired sample_talk \<and> \<not> paired r"
proof -
  let ?r = "make_summary_message ''two files'' # drop 2 sample_talk"
  have "summarization sample_codec 4 15 1 (\<lambda>_ _. retA ''two files'') sample_talk () = (Inr ?r, ())" by code_simp
  moreover have "paired sample_talk" by code_simp
  moreover have "\<not> paired ?r" by code_simp
  ultimately show ?thesis by blast
qed

text \<open>A window of no messages is the whole history: the slice \<open>history[-0:]\<close> is.\<close>

theorem window_of_nothing: "truncation X (Some 0) None h = drop_orphaned_tool_results h"
  by (cases h) (auto simp: truncation_def last_messages_def drop_orphaned_tool_results_def)

theorem window_bounded: "0 < n \<Longrightarrow> int (length (sliding_window n h)) \<le> n"
proof -
  assume n: "0 < n"
  have "length (drop_orphaned_tool_results ms) \<le> length ms" for ms
    by (simp add: drop_orphaned_tool_results_def length_dropWhile_le)
  from this [of "last_messages n h"] n show ?thesis
    unfolding sliding_window_def last_messages_def by auto
qed

end
