(* ===== verification/Window_Claims.thy ===== *)
theory Window_Claims
  imports History Compaction_Claims
begin

text \<open>
  What \<open>DefaultContextBuilder\<close> promises of a window: the budget, the turns that are protected, calls with their
  results; and where it does not keep what it promises.
\<close>

section \<open>The budget\<close>

lemma drop_until_fits_fits: "drop_until_fits cost b ms = [] \<or> int (cost (drop_until_fits cost b ms)) \<le> b"
  by (induction cost b ms rule: drop_until_fits.induct) auto

lemma truncate_window_cases:
  obtains n where "truncate_window X cpt b ms = fst (protected_split ms) @ drop n (snd (protected_split ms))"
    and "n \<ge> length (snd (protected_split ms)) \<or> int (estimate_tokens X cpt (truncate_window X cpt b ms)) \<le> b"
proof -
  obtain p w where pw: "protected_split ms = (p, w)" by (cases "protected_split ms")
  let ?d = "drop_until_fits (\<lambda>ws. estimate_tokens X cpt (p @ ws)) b w"
  have t: "truncate_window X cpt b ms = p @ ?d" by (simp only: truncate_window_def pw prod.case)
  obtain n where n: "?d = drop n w" using drop_until_fits_suffix by blast
  have "n \<ge> length w \<or> int (estimate_tokens X cpt (p @ ?d)) \<le> b"
    using drop_until_fits_fits [of "\<lambda>ws. estimate_tokens X cpt (p @ ws)" b w] n by auto
  then show thesis using that [of n] t n pw by simp
qed

lemma protected_split_append: "fst (protected_split ms) @ snd (protected_split ms) = ms"
proof -
  have pop: "fst (pop_if P s) @ snd (pop_if P s) = fst s @ snd s" for P s
    by (cases s) (auto simp: pop_if_def split: list.split)
  show ?thesis by (simp only: protected_split_def pop) simp
qed

text \<open>
  A window under a budget is the full window with some of the turns after the protected ones left out, the oldest
  first; it fits the budget unless only the protected turns are left. Its size is what it says it is.
\<close>

theorem window_under_budget:
  "let full = window_messages X nodes cp sys mem; w = build_window X cpt nodes cp (Some b) sys mem in
   (\<exists>n. cw_messages w = full \<or> cw_messages w = fst (protected_split full) @ drop n (snd (protected_split full))) \<and>
   (int (cw_tokens w) \<le> b \<or> cw_messages w = [] \<or> cw_messages w = fst (protected_split full)) \<and>
   cw_tokens w = estimate_tokens X cpt (cw_messages w)"
proof -
  let ?full = "window_messages X nodes cp sys mem"
  let ?w = "build_window X cpt nodes cp (Some b) sys mem"
  obtain n where n: "truncate_window X cpt b ?full = fst (protected_split ?full) @ drop n (snd (protected_split ?full))"
      "n \<ge> length (snd (protected_split ?full)) \<or> int (estimate_tokens X cpt (truncate_window X cpt b ?full)) \<le> b"
    using truncate_window_cases [of X cpt b ?full] by blast
  have w: "cw_messages ?w = (if ?full = [] \<or> int (estimate_tokens X cpt ?full) \<le> b then ?full else truncate_window X cpt b ?full)"
      "cw_tokens ?w = estimate_tokens X cpt (cw_messages ?w)" by (simp_all add: build_window_def Let_def)
  show ?thesis unfolding Let_def w(2)
    using n w(1) by (cases "?full = [] \<or> int (estimate_tokens X cpt ?full) \<le> b") auto
qed

section \<open>Calls and results\<close>

lemma plain_turns_paired: "\<not> is_tool_result_turn m \<Longrightarrow> \<not> is_tool_call_turn m \<Longrightarrow> paired (m # ms) \<longleftrightarrow> paired ms"
  by (simp add: paired_def)

lemma user_turns [simp]: "\<not> is_tool_result_turn (summary_turn c)" "\<not> is_tool_call_turn (summary_turn c)"
    "\<not> is_tool_result_turn (memory_turn bs)" "\<not> is_tool_call_turn (memory_turn bs)"
    "\<not> is_tool_result_turn (turn SYSTEM bs)" "\<not> is_tool_call_turn (turn SYSTEM bs)"
  by (simp_all add: summary_turn_def memory_turn_def turn_def is_tool_result_turn_def is_tool_call_turn_def)

lemma full_window_paired: "paired (map mn_payload (working_nodes cp nodes)) \<Longrightarrow> paired (window_messages X nodes cp sys mem)"
  unfolding window_messages_def with_system_def with_memory_def with_summary_def
  by (auto simp: plain_turns_paired split: option.split)

definition unmarked :: "chat_message \<Rightarrow> bool" where
  "unmarked m \<longleftrightarrow> \<not> flagged ''is_memory_context'' m \<and> \<not> flagged ''is_checkpoint_summary'' m"

text \<open>Without a checkpoint the builder never parts a result from its call, whatever the budget.\<close>

lemma pop_if_cases: "pop_if P (p, ms) = (p, ms) \<or> (\<exists>m rest. ms = m # rest \<and> P m \<and> pop_if P (p, ms) = (p @ [m], rest))"
  by (cases ms) (auto simp: pop_if_def)

definition safe_split :: "chat_message list \<times> chat_message list \<Rightarrow> bool" where
  "safe_split s \<longleftrightarrow> (\<forall>m\<in>set (fst s). \<not> is_tool_result_turn m \<and> \<not> is_tool_call_turn m) \<and> paired (snd s)"

lemma pop_if_safe:
  assumes "safe_split s" and "\<And>m. m \<in> set (snd s) \<Longrightarrow> P m \<Longrightarrow> \<not> is_tool_result_turn m \<and> \<not> is_tool_call_turn m"
  shows "safe_split (pop_if P s) \<and> set (snd (pop_if P s)) \<subseteq> set (snd s)"
proof (cases s)
  case (Pair p ms)
  show ?thesis
  proof (cases ms)
    case Nil
    then show ?thesis using assms Pair by (simp add: pop_if_def)
  next
    case (Cons m rest)
    then show ?thesis using assms Pair by (auto simp: pop_if_def safe_split_def plain_turns_paired)
  qed
qed

lemma protected_safe:
  assumes "paired ms" and "\<And>m. m \<in> set ms \<Longrightarrow> \<not> unmarked m \<Longrightarrow> \<not> is_tool_result_turn m \<and> \<not> is_tool_call_turn m"
  shows "safe_split (protected_split ms)"
proof -
  let ?a = "pop_if (\<lambda>m. tm_role m = SYSTEM) ([], ms)"
  let ?b = "pop_if (flagged ''is_checkpoint_summary'') ?a"
  have start: "safe_split ([], ms)" using assms(1) by (simp add: safe_split_def)
  have a: "safe_split ?a \<and> set (snd ?a) \<subseteq> set ms"
    using pop_if_safe [OF start, of "\<lambda>m. tm_role m = SYSTEM"] system_turn by simp
  have b: "safe_split ?b \<and> set (snd ?b) \<subseteq> set (snd ?a)"
    using a assms(2) by (intro pop_if_safe) (auto simp: unmarked_def)
  show ?thesis unfolding protected_split_def
    using pop_if_safe [of ?b "flagged ''is_memory_context''"] a b assms(2) by (auto simp: unmarked_def)
qed

lemma safe_append: "(\<And>m. m \<in> set p \<Longrightarrow> \<not> is_tool_result_turn m \<and> \<not> is_tool_call_turn m) \<Longrightarrow> paired (p @ w) \<longleftrightarrow> paired w"
  by (induction p) (simp_all add: plain_turns_paired)

lemma after_anchor_subset: "set (after_anchor a ns) \<subseteq> set ns"
proof -
  have "set (tl xs) \<subseteq> set xs" for xs :: "message_node list" by (cases xs) auto
  from this [of "dropWhile (\<lambda>n. mn_id n \<noteq> a) ns"] have "set (tl (dropWhile (\<lambda>n. mn_id n \<noteq> a) ns)) \<subseteq> set ns"
    by (auto dest: set_dropWhileD)
  then show ?thesis by (simp add: after_anchor_def)
qed

lemma marked_turns: "m \<in> set (window_messages X nodes cp sys mem) \<Longrightarrow> \<not> unmarked m \<Longrightarrow>
    m \<in> mn_payload ` set nodes \<or> (\<not> is_tool_result_turn m \<and> \<not> is_tool_call_turn m)"
proof -
  assume m: "m \<in> set (window_messages X nodes cp sys mem)"
  have "set (working_nodes cp nodes) \<subseteq> set nodes"
    using after_anchor_subset by (auto simp: working_nodes_def split: option.splits)
  then show ?thesis using m
    by (auto simp: window_messages_def with_system_def with_memory_def with_summary_def split: option.splits if_splits)
qed

theorem builder_keeps_calls:
  assumes "paired (map mn_payload nodes)" and "\<forall>n\<in>set nodes. unmarked (mn_payload n)"
  shows "paired (cw_messages (build_window X cpt nodes None budget sys mem))"
proof -
  let ?full = "window_messages X nodes None sys mem"
  have full: "paired ?full" using assms(1) by (intro full_window_paired) (simp add: working_nodes_def)
  have "safe_split (protected_split ?full)" using full marked_turns assms(2) by (intro protected_safe) blast+
  then have "paired (truncate_window X cpt b ?full)" for b
    by (cases "protected_split ?full") (simp add: truncate_window_def safe_split_def safe_append drop_until_fits_paired)
  then show ?thesis using full by (simp add: build_window_def Let_def split: option.split)
qed

section \<open>Where it does not\<close>

definition sample_node :: "string \<Rightarrow> string option \<Rightarrow> chat_message \<Rightarrow> message_node" where
  "sample_node nid parent m = \<lparr>mn_id = nid, mn_parent_id = parent, mn_session_id = ''s'', mn_run_id = [], mn_payload = m,
     mn_workspace_snapshot_id = None, mn_created_at = 0\<rparr>"

definition sample_nodes :: "message_node list" where
  "sample_nodes = [sample_node ''n0'' None (sample_talk ! 0), sample_node ''n1'' (Some ''n0'') (sample_talk ! 1),
     sample_node ''n2'' (Some ''n1'') (sample_talk ! 2), sample_node ''n3'' (Some ''n2'') (sample_talk ! 3)]"

definition sample_checkpoint :: "string \<Rightarrow> checkpoint" where
  "sample_checkpoint anchor = \<lparr>hc_id = ''k'', hc_session_id = ''s'', hc_anchor = anchor, hc_summary = ''they compare files'',
     hc_state = JObj [], hc_parent = None, hc_created_at = 0\<rparr>"

theorem builder_keeps_calls_witness:
  "paired (cw_messages (build_window sample_codec 4 sample_nodes None (Some 12) None None))"
proof (rule builder_keeps_calls)
  show "paired (map mn_payload sample_nodes)" by code_simp
  show "\<forall>n\<in>set sample_nodes. unmarked (mn_payload n)" by code_simp
qed

text \<open>A checkpoint anchored at a call: the window begins with its result.\<close>

theorem checkpoint_parts_a_call:
  "paired (map mn_payload sample_nodes) \<and>
   \<not> paired (cw_messages (build_window sample_codec 4 sample_nodes (Some (sample_checkpoint ''n1'')) None None None))"
proof
  show "paired (map mn_payload sample_nodes)" by code_simp
  show "\<not> paired (cw_messages (build_window sample_codec 4 sample_nodes (Some (sample_checkpoint ''n1'')) None None None))"
    by code_simp
qed

text \<open>
  Memory is put before the summary, but the truncation looks for a summary before it looks for memory: with
  memory in the window the summary of everything before the checkpoint is not protected, and goes first.
\<close>

theorem memory_unprotects_summary:
  assumes "mi_relevant i \<noteq> []" and "strip (hc_summary k) \<noteq> []" and "effective_system X sys (Some i) = None"
  shows "protected_split (window_messages X nodes (Some k) sys (Some i)) =
    ([memory_turn (mi_relevant i)], summary_turn k # map mn_payload (working_nodes (Some k) nodes))"
  using assms
  by (simp add: window_messages_def with_system_def with_memory_def with_summary_def protected_split_def pop_if_def
      memory_turn_def summary_turn_def flagged_def truthy_def)

theorem summary_goes_first:
  "\<exists>b. let mem = \<lparr>mi_directives = [], mi_relevant = [TextBlock ''likes tea'']\<rparr>; k = sample_checkpoint ''n2'';
     w = build_window sample_codec 4 sample_nodes (Some k) (Some b) None (Some mem) in
   cw_messages w = [memory_turn (mi_relevant mem), sample_talk ! 3] \<and> summary_turn k \<notin> set (cw_messages w)"
proof
  show "let mem = \<lparr>mi_directives = [], mi_relevant = [TextBlock ''likes tea'']\<rparr>; k = sample_checkpoint ''n2'';
     w = build_window sample_codec 4 sample_nodes (Some k) (Some 15) None (Some mem) in
   cw_messages w = [memory_turn (mi_relevant mem), sample_talk ! 3] \<and> summary_turn k \<notin> set (cw_messages w)"
    by code_simp
qed

text \<open>A system instruction, and the directives of memory with it, are dropped when the history opens with a system turn.\<close>

theorem system_instruction_ignored:
  assumes "ns \<noteq> []" and "tm_role (mn_payload (hd ns)) = SYSTEM" and "mi_relevant i = []"
  shows "window_messages X ns None sys (Some i) = map mn_payload ns"
  using assms by (cases ns) (auto simp: window_messages_def with_system_def with_memory_def with_summary_def working_nodes_def split: option.split)

end
