(* ===== verification/Thread_Samples.thy ===== *)
theory Thread_Samples
  imports Thread_Claims Window_Claims
begin

text \<open>The claims on threads at a concrete one: four turns on the branch \<open>main\<close> of a session.\<close>

fun sample_db :: "nat \<Rightarrow> thread_db" where
  "sample_db 0 = no_threads"
| "sample_db (Suc k) = (case append_and_advance 0 (sample_nodes ! k) ''main'' None None (sample_db k) of
     Inl e \<Rightarrow> sample_db k | Inr (b, t) \<Rightarrow> t)"

lemma sample_reach: "thread_reach (sample_db k)"
  by (induction k) (auto intro: thread_reach.intros thread_step.intros split: sum.split)

lemma not_isl: "\<not> isl x \<Longrightarrow> \<exists>b t. x = Inr (b, t)"
  by (cases x) auto


theorem append_extends_history_witness:
  "\<exists>b t n. append_and_advance 0 (sample_nodes ! 3) ''main'' None None (sample_db 3) = Inr (b, t) \<and>
    history_of t ''s'' ''main'' = Inr (take 3 sample_nodes @ [n]) \<and> same_node n (sample_nodes ! 3)"
proof -
  have "\<not> isl (append_and_advance 0 (sample_nodes ! 3) ''main'' None None (sample_db 3))" by code_simp
  then obtain b t where op: "append_and_advance 0 (sample_nodes ! 3) ''main'' None None (sample_db 3) = Inr (b, t)"
    using not_isl by blast
  have sid: "mn_session_id (sample_nodes ! 3) = ''s''" by code_simp
  have "history_of (sample_db 3) (mn_session_id (sample_nodes ! 3)) ''main'' = Inr (take 3 sample_nodes)" by code_simp
  from append_extends_history [OF sample_reach op this] op show ?thesis unfolding sid by blast
qed

theorem fork_takes_prefix_witness:
  "\<exists>b t d e. fork_branch 0 ''s'' ''main'' ''try'' (Some ''n1'') (sample_db 4) = Inr (b, t) \<and> sample_nodes = d @ e \<and> last_id d = Some ''n1'' \<and>
    history_of t ''s'' ''try'' = Inr d"
proof -
  have "\<not> isl (fork_branch 0 ''s'' ''main'' ''try'' (Some ''n1'') (sample_db 4))" by code_simp
  then obtain b t where op: "fork_branch 0 ''s'' ''main'' ''try'' (Some ''n1'') (sample_db 4) = Inr (b, t)"
    using not_isl by blast
  have "history_of (sample_db 4) ''s'' ''main'' = Inr sample_nodes" by code_simp
  from fork_takes_prefix [OF sample_reach op this] op show ?thesis by blast
qed

theorem checkpoint_is_nearest_witness:
  "\<exists>c. resolve_ancestry (sample_db 4) ''n3'' None = Inr c \<and>
    (\<forall>k\<in>set (td_checkpoints (sample_db 4)). hc_session_id k = ''s'' \<longrightarrow> hc_anchor k \<notin> mn_id ` set c)"
proof -
  have here: "in_session (td_nodes (sample_db 4)) ''s'' ''n3''" by code_simp
  have none: "find_applicable_checkpoint sample_codec (sample_db 4) ''n3'' = Inr None" by code_simp
  show ?thesis using checkpoint_is_nearest [OF sample_reach here, of sample_codec] unfolding none by simp
qed

theorem transcript_grows_witness:
  "\<exists>b t. append_and_advance 0 (sample_nodes ! 3) ''main'' None None (sample_db 3) = Inr (b, t) \<and>
    project_messages sample_codec t ''s'' ''main'' = Inr (take 3 sample_talk @ [mn_payload (sample_nodes ! 3)])"
proof -
  have "\<not> isl (append_and_advance 0 (sample_nodes ! 3) ''main'' None None (sample_db 3))" by code_simp
  then obtain b t where op: "append_and_advance 0 (sample_nodes ! 3) ''main'' None None (sample_db 3) = Inr (b, t)"
    using not_isl by blast
  have sid: "mn_session_id (sample_nodes ! 3) = ''s''" by code_simp
  have new: "node_at (mn_id (sample_nodes ! 3)) (sample_db 3) = None" by code_simp
  have "project_messages sample_codec (sample_db 3) (mn_session_id (sample_nodes ! 3)) ''main'' = Inr (take 3 sample_talk)" by code_simp
  from transcript_grows [OF sample_reach op new this] op show ?thesis unfolding sid by blast
qed

theorem one_writer_wins_witness:
  "\<exists>b t msg. set_branch_head ''s'' ''main'' ''n1'' None (Some 4) (sample_db 4) = Inr (b, t) \<and>
    set_branch_head ''s'' ''main'' ''n0'' None (Some 4) t = Inl (head_conflict msg)"
proof -
  have "\<not> isl (set_branch_head ''s'' ''main'' ''n1'' None (Some 4) (sample_db 4))" by code_simp
  then obtain b t where op: "set_branch_head ''s'' ''main'' ''n1'' None (Some 4) (sample_db 4) = Inr (b, t)"
    using not_isl by blast
  from one_writer_wins [OF op, of "''n0''"] op show ?thesis by blast
qed

end
