(* ===== verification/Tenant_Claims.thy ===== *)
theory Tenant_Claims
  imports Scoped_Threads Thread_Samples
begin

text \<open>
  What a tenant sees of the threads and what erasing it leaves, and where the fence has a hole: a checkpoint is
  written by its id alone.
\<close>

section \<open>What a tenant sees\<close>

definition only :: "string \<Rightarrow> thread_db \<Rightarrow> thread_db" where
  "only p = delete_sessions (\<lambda>x. \<not> owns p x)"

definition answer :: "('s, 'e, 'a) tx \<Rightarrow> 's \<Rightarrow> 'e + 'a" where
  "answer m s = (case m s of Inl e \<Rightarrow> Inl e | Inr (a, _) \<Rightarrow> Inr a)"

lemma answer_simps [simp]: "answer (retT a) s = Inr a" "answer (queryT q) s = Inr (q s)"
    "answer (bindT (queryT q) f) s = answer (f (q s)) s"
  by (simp_all add: answer_def run_simps)

lemma find_owned: "distinct (map k xs) \<Longrightarrow> (case List.find (\<lambda>x. k x = i) xs of None \<Rightarrow> None | Some x \<Rightarrow> if P x then Some x else None) =
    (case List.find (\<lambda>x. k x = i) (filter P xs) of None \<Rightarrow> None | Some x \<Rightarrow> if P x then Some x else None)"
proof (induction xs)
  case (Cons x xs)
  have "k y \<noteq> k x" if "y \<in> set xs" for y using Cons.prems imageI [OF that, of k] by auto
  then have "List.find (\<lambda>y. k y = k x) (filter P xs) = None" by (simp add: find_None_iff)
  with Cons show ?case by auto
qed simp

lemma only_parts: "td_nodes (only p s) = filter (\<lambda>n. owns p (mn_session_id n)) (td_nodes s)"
    "td_branches (only p s) = filter (\<lambda>b. owns p (br_session_id b)) (td_branches s)"
    "td_checkpoints (only p s) = filter (\<lambda>c. owns p (hc_session_id c)) (td_checkpoints s)"
  by (simp_all add: only_def delete_sessions_def delete_where_def comp_def)

lemma branch_at_only: "owns p sid \<Longrightarrow> branch_at sid bid (only p s) = branch_at sid bid s"
proof -
  assume own: "owns p sid"
  have "List.find (is_branch sid bid) (filter (\<lambda>b. owns p (br_session_id b)) bs) = List.find (is_branch sid bid) bs" for bs :: "branch list"
    using own by (induction bs) (auto simp: is_branch_def)
  then show ?thesis by (simp add: branch_at_def only_parts)
qed

lemma owned_session: "owns p x \<and> x = p @ sid \<longleftrightarrow> x = p @ sid"
  by auto

text \<open>
  C14. What a tenant reads is what it would read if nobody else had any rows.\<close>

theorem tenant_sees_its_own:
  assumes "threads_ok s"
  shows "answer (t_get_node p nid) s = answer (t_get_node p nid) (only p s) \<and>
    answer (t_get_branch p sid bid) s = answer (t_get_branch p sid bid) (only p s) \<and>
    answer (t_list_branches X p sid) s = answer (t_list_branches X p sid) (only p s) \<and>
    answer (t_get_checkpoint p cid) s = answer (t_get_checkpoint p cid) (only p s) \<and>
    answer (t_list_checkpoints X p sid) s = answer (t_list_checkpoints X p sid) (only p s)"
proof -
  have ids: "distinct (map mn_id (td_nodes s))" "distinct (map hc_id (td_checkpoints s))"
    using assms rooted_distinct by (auto simp: threads_ok_def)
  have node: "(case node_at nid s of None \<Rightarrow> None | Some n \<Rightarrow> if owns p (mn_session_id n) then Some n else None) =
      (case node_at nid (only p s) of None \<Rightarrow> None | Some n \<Rightarrow> if owns p (mn_session_id n) then Some n else None)"
    unfolding node_at_def only_parts by (rule find_owned [OF ids(1)])
  have cp: "(case List.find (\<lambda>c. hc_id c = cid) (td_checkpoints s) of None \<Rightarrow> None | Some c \<Rightarrow> if owns p (hc_session_id c) then Some c else None) =
      (case List.find (\<lambda>c. hc_id c = cid) (td_checkpoints (only p s)) of None \<Rightarrow> None | Some c \<Rightarrow> if owns p (hc_session_id c) then Some c else None)"
    unfolding only_parts by (rule find_owned [OF ids(2)])
  have out: "(case x of None \<Rightarrow> None | Some c \<Rightarrow> if owns p (hc_session_id c) then Some (cp_out p c) else None) =
      map_option (cp_out p) (case x of None \<Rightarrow> None | Some c \<Rightarrow> if owns p (hc_session_id c) then Some c else None)" for x
    by (cases x) simp_all
  have "answer (t_get_node p nid) s = answer (t_get_node p nid) (only p s)"
    unfolding t_get_node_def mine_def get_node_def answer_def run_simps by (simp add: node)
  moreover have "answer (t_get_checkpoint p cid) s = answer (t_get_checkpoint p cid) (only p s)"
    unfolding t_get_checkpoint_def get_checkpoint_def answer_def run_simps by (simp add: out cp)
  ultimately show ?thesis
    by (simp add: t_get_branch_def get_branch_def branch_at_only t_list_branches_def list_branches_def t_list_checkpoints_def
        list_checkpoints_def checkpoints_of_def only_parts owned_session)
qed

section \<open>Erasing a tenant\<close>

lemma under_quote: "tenant \<noteq> [] \<Longrightarrow> under_name (quote tenant) x \<longleftrightarrow> x = quote tenant \<or> owns (tenant_prefix tenant) x"
  using under_plain [OF quote_no_slash, of tenant x] quote_char_nonempty
  by (cases tenant) (auto simp: starts_with_append tenant_prefix_def)

lemma delete_where_delete: "delete_where P (delete_where Q rs) = filter (\<lambda>r. \<not> P r) (delete_where Q rs)"
  by (simp add: delete_where_def)

lemma nothing_left: "tenant \<noteq> [] \<Longrightarrow> filter (\<lambda>r. owns (tenant_prefix tenant) (k r)) (delete_where (under_name (quote tenant) \<circ> k) rs) = []"
  by (induction rs) (auto simp: delete_where_def under_quote)

lemma others_left: "tenant \<noteq> [] \<Longrightarrow> \<not> owns (tenant_prefix tenant) sid \<Longrightarrow> sid \<noteq> quote tenant \<Longrightarrow>
    filter (\<lambda>r. k r = sid) (delete_where (under_name (quote tenant) \<circ> k) rs) = filter (\<lambda>r. k r = sid) rs"
  by (induction rs) (auto simp: delete_where_def under_quote)

text \<open>
  Erasing a tenant removes all it has, and every row that neither belongs to it nor lies in the session that is
  named like it stays.
\<close>

theorem erase_tenant_exact:
  assumes "erase_tenant_threads tenant s = Inr (k, t)" and "tenant \<noteq> []"
  shows "only (tenant_prefix tenant) t = no_threads \<and>
    (\<forall>sid. \<not> owns (tenant_prefix tenant) sid \<and> sid \<noteq> quote tenant \<longrightarrow>
       filter (\<lambda>n. mn_session_id n = sid) (td_nodes t) = filter (\<lambda>n. mn_session_id n = sid) (td_nodes s) \<and>
       filter (\<lambda>b. br_session_id b = sid) (td_branches t) = filter (\<lambda>b. br_session_id b = sid) (td_branches s) \<and>
       filter (\<lambda>c. hc_session_id c = sid) (td_checkpoints t) = filter (\<lambda>c. hc_session_id c = sid) (td_checkpoints s))"
proof -
  have t: "t = delete_sessions (under_name (quote tenant)) s"
    using assms(1) by (auto simp: erase_tenant_threads_def threads_erase_under_def run_simps)
  have "only (tenant_prefix tenant) t = no_threads"
    by (simp add: t only_def delete_sessions_def no_threads_def nothing_left [OF assms(2), unfolded comp_def] delete_where_delete comp_def)
  then show ?thesis by (simp add: t delete_sessions_def others_left [OF assms(2), unfolded comp_def] comp_def)
qed

text \<open>The conversation without a name is the whole tenant: its trailing slash is stripped.\<close>

theorem erase_no_conversation: "tenant \<noteq> [] \<Longrightarrow> erase_conversation_threads tenant [] = erase_tenant_threads tenant"
proof -
  assume "tenant \<noteq> []"
  then have ne: "quote tenant \<noteq> []" using quote_char_nonempty by (cases tenant) auto
  have "rstrip_slash (quote tenant @ ''/'') = rstrip_slash (quote tenant)" by (simp add: rstrip_slash_def)
  then have "under_name (quote tenant @ ''/'') = under_name (quote tenant)"
    using rstrip_noslash [OF quote_no_slash] ne by (simp add: fun_eq_iff under_name_def)
  then show ?thesis by (simp add: erase_conversation_threads_def erase_tenant_threads_def threads_erase_under_def)
qed

section \<open>Two tenants\<close>

definition tenant_node :: "string \<Rightarrow> message_node" where
  "tenant_node nid = sample_node nid None (turn USER [TextBlock ''hello''])"

text \<open>Tenants \<open>a\<close> and \<open>b\<close>, each with one node in a session \<open>s\<close>; \<open>a\<close> has a checkpoint \<open>k\<close> on its own.\<close>

definition two_tenants :: thread_db where
  "two_tenants = \<lparr>td_nodes = [node_in ''a/'' (tenant_node ''n1''), node_in ''b/'' (tenant_node ''n2'')],
     td_branches = [], td_checkpoints = [(sample_checkpoint ''n1'')\<lparr>hc_session_id := ''a/s''\<rparr>]\<rparr>"

definition the_tables :: "exn + 'a \<times> thread_db \<Rightarrow> thread_db" where
  "the_tables r = (case r of Inl e \<Rightarrow> no_threads | Inr (a, t) \<Rightarrow> t)"

lemma the_tables_run: "\<not> isl r \<Longrightarrow> r = Inr (u, the_tables r)" for u :: unit
  by (cases r) (auto simp: the_tables_def)

lemma two_tenants_reach: "thread_reach two_tenants"
proof -
  let ?a = "the_tables (t_append_node ''a/'' (tenant_node ''n1'') no_threads)"
  let ?b = "the_tables (t_append_node ''b/'' (tenant_node ''n2'') ?a)"
  have a: "t_append_node ''a/'' (tenant_node ''n1'') no_threads = Inr ((), ?a)" by (rule the_tables_run) code_simp
  have b: "t_append_node ''b/'' (tenant_node ''n2'') ?a = Inr ((), ?b)" by (rule the_tables_run) code_simp
  have c: "t_save_checkpoint ''a/'' (sample_checkpoint ''n1'') ?b = Inr ((), two_tenants)" by code_simp
  have "thread_reach ?a" using a unfolding t_append_node_def by (blast intro: thread_reach.intros thread_step.appends)
  then have r: "thread_reach ?b" using b unfolding t_append_node_def by (blast intro: thread_reach.intros thread_step.appends)
  have "save_checkpoint ((sample_checkpoint ''n1'')\<lparr>hc_session_id := ''a/s''\<rparr>) ?b = Inr ((), two_tenants)" by code_simp
  then show ?thesis using r by (blast intro: thread_reach.intros thread_step.checkpoints)
qed

theorem tenant_changes_its_own_witness:
  "others_same (tenant_prefix ''b'') two_tenants (the_tables (thread_call_of 0 (tenant_prefix ''b'') (DeleteSession ''s'') two_tenants)) \<and>
   td_nodes (the_tables (thread_call_of 0 (tenant_prefix ''b'') (DeleteSession ''s'') two_tenants)) = [node_in ''a/'' (tenant_node ''n1'')]"
proof
  show "others_same (tenant_prefix ''b'') two_tenants (the_tables (thread_call_of 0 (tenant_prefix ''b'') (DeleteSession ''s'') two_tenants))"
  proof (rule tenant_changes_its_own)
    show "thread_call_of 0 (tenant_prefix ''b'') (DeleteSession ''s'') two_tenants =
      Inr ((), the_tables (thread_call_of 0 (tenant_prefix ''b'') (DeleteSession ''s'') two_tenants))"
      by (rule the_tables_run) code_simp
  qed simp
  show "td_nodes (the_tables (thread_call_of 0 (tenant_prefix ''b'') (DeleteSession ''s'') two_tenants)) = [node_in ''a/'' (tenant_node ''n1'')]"
    by code_simp
qed

theorem tenant_sees_its_own_witness:
  "answer (t_get_node ''b/'' ''n1'') two_tenants = Inr None \<and>
   answer (t_get_node ''b/'' ''n1'') two_tenants = answer (t_get_node ''b/'' ''n1'') (only ''b/'' two_tenants)"
proof
  show "answer (t_get_node ''b/'' ''n1'') two_tenants = Inr None" by code_simp
  show "answer (t_get_node ''b/'' ''n1'') two_tenants = answer (t_get_node ''b/'' ''n1'') (only ''b/'' two_tenants)"
    using tenant_sees_its_own [OF thread_reach_ok [OF two_tenants_reach], of "''b/''" "''n1''"] by blast
qed

theorem erase_tenant_exact_witness:
  "\<exists>k t. erase_tenant_threads ''a'' two_tenants = Inr (k, t) \<and> only (tenant_prefix ''a'') t = no_threads \<and>
     filter (\<lambda>n. mn_session_id n = ''b/s'') (td_nodes t) = [node_in ''b/'' (tenant_node ''n2'')]"
proof -
  have "\<not> isl (erase_tenant_threads ''a'' two_tenants)" by code_simp
  then obtain k t where op: "erase_tenant_threads ''a'' two_tenants = Inr (k, t)" using not_isl by blast
  have "\<not> owns (tenant_prefix ''a'') ''b/s'' \<and> ''b/s'' \<noteq> quote ''a''" by code_simp
  then have "only (tenant_prefix ''a'') t = no_threads" and
      "filter (\<lambda>n. mn_session_id n = ''b/s'') (td_nodes t) = filter (\<lambda>n. mn_session_id n = ''b/s'') (td_nodes two_tenants)"
    using erase_tenant_exact [OF op] by simp_all
  moreover have "filter (\<lambda>n. mn_session_id n = ''b/s'') (td_nodes two_tenants) = [node_in ''b/'' (tenant_node ''n2'')]" by code_simp
  ultimately show ?thesis using op by auto
qed

text \<open>
  Tenant \<open>b\<close> saves a checkpoint under the id that the checkpoint of tenant \<open>a\<close> has: the row is overwritten, and
  \<open>a\<close> has no checkpoint any more.
\<close>

theorem checkpoint_taken_over:
  "let t = the_tables (t_save_checkpoint ''b/'' (sample_checkpoint ''n2'') two_tenants) in
   answer (t_list_checkpoints sample_codec ''a/'' ''s'') two_tenants = Inr [sample_checkpoint ''n1''] \<and>
   answer (t_list_checkpoints sample_codec ''a/'' ''s'') t = Inr [] \<and>
   answer (t_list_checkpoints sample_codec ''b/'' ''s'') t = Inr [sample_checkpoint ''n2'']"
  unfolding Let_def by (intro conjI; code_simp)

end
