(* ===== verification/Task_Claims.thy ===== *)
theory Task_Claims
  imports Task_Tool Tenant_Claims
begin

text \<open>
  What the boards promise: one board for an agent on a branch of a conversation, a bounded number of retries, and,
  through the tool, one task in progress; a tenant changes its own boards only. And what the tool does not keep of
  the life cycle it documents.
\<close>

section \<open>The invariant of the boards\<close>

definition within_retries :: "board_row \<Rightarrow> task_item \<Rightarrow> bool" where
  "within_retries b i \<longleftrightarrow> bd_id b = it_board_id i \<and> 0 \<le> it_retry_count i \<and> (it_retry_count i = 0 \<or> it_retry_count i \<le> bd_max_retries b)"

definition board_key :: "board_row \<Rightarrow> string \<times> string \<times> string" where
  "board_key b = (bd_conversation_id b, bd_agent_id b, bd_branch_id b)"

definition item_place :: "task_item \<Rightarrow> string \<times> int" where
  "item_place i = (it_board_id i, it_position i)"

definition tasks_ok :: "task_db \<Rightarrow> bool" where
  "tasks_ok db \<longleftrightarrow> distinct (map bd_id (tk_boards db)) \<and> distinct (map board_key (tk_boards db)) \<and>
     distinct (map it_id (tk_items db)) \<and> distinct (map item_place (tk_items db)) \<and>
     (\<forall>i\<in>set (tk_items db). \<exists>b\<in>set (tk_boards db). within_retries b i)"

lemma tasks_ok_empty: "tasks_ok no_tasks"
  by (simp add: tasks_ok_def no_tasks_def)

lemma board_row_at_Some: "board_row_at bid db = Some b \<Longrightarrow> b \<in> set (tk_boards db) \<and> bd_id b = bid"
  by (auto simp: board_row_at_def dest: find_SomeD)

lemma same_id: "distinct (map k xs) \<Longrightarrow> x \<in> set xs \<Longrightarrow> y \<in> set xs \<Longrightarrow> k x = k y \<Longrightarrow> x = y"
  by (auto simp: distinct_map inj_on_def)

lemma item_board: "tasks_ok db \<Longrightarrow> i \<in> set (tk_items db) \<Longrightarrow> \<exists>b\<in>set (tk_boards db). within_retries b i"
  by (simp add: tasks_ok_def)

subsection \<open>Deleting and changing\<close>

lemma delete_boards_ok:
  assumes "tasks_ok db"
  shows "tasks_ok (delete_boards P db)"
proof -
  have "\<exists>b\<in>set (tk_boards db). \<not> P b \<and> within_retries b i"
    if i: "i \<in> set (tk_items db)" and none: "\<not> (\<exists>b\<in>set (tk_boards db). P b \<and> bd_id b = it_board_id i)" for i
  proof -
    obtain b where "b \<in> set (tk_boards db)" "within_retries b i" using item_board [OF assms i] by blast
    then show ?thesis using none by (auto simp: within_retries_def)
  qed
  then have "\<forall>i\<in>set (tk_items (delete_boards P db)). \<exists>b\<in>set (tk_boards (delete_boards P db)). within_retries b i"
    by (simp add: delete_boards_def) blast
  moreover have "distinct (map bd_id (tk_boards (delete_boards P db)))" "distinct (map board_key (tk_boards (delete_boards P db)))"
      "distinct (map it_id (tk_items (delete_boards P db)))" "distinct (map item_place (tk_items (delete_boards P db)))"
    using assms by (simp_all add: delete_boards_def tasks_ok_def)
  ultimately show ?thesis unfolding tasks_ok_def by simp
qed

lemma delete_items_ok: "tasks_ok db \<Longrightarrow> tasks_ok (tk_items_update (delete_where P) db)"
  by (auto simp: tasks_ok_def)

lemma update_items_ok:
  assumes "tasks_ok db" and "\<And>i. it_id (f i) = it_id i \<and> it_board_id (f i) = it_board_id i \<and> it_position (f i) = it_position i"
    and "\<And>i b. i \<in> set (tk_items db) \<Longrightarrow> P i \<Longrightarrow> b \<in> set (tk_boards db) \<Longrightarrow> within_retries b i \<Longrightarrow> within_retries b (f i)"
  shows "tasks_ok (tk_items_update (update_where P f) db)"
proof -
  have maps: "map it_id (update_where P f is) = map it_id is" "map item_place (update_where P f is) = map item_place is" for "is"
    using assms(2) by (auto intro!: map_update_where simp: item_place_def)
  have "\<exists>b\<in>set (tk_boards db). within_retries b (if P i then f i else i)" if i: "i \<in> set (tk_items db)" for i
  proof -
    obtain b where "b \<in> set (tk_boards db)" "within_retries b i" using item_board [OF assms(1) i] by blast
    then show ?thesis using assms(3) [OF i] by auto
  qed
  then have "\<forall>i\<in>set (update_where P f (tk_items db)). \<exists>b\<in>set (tk_boards db). within_retries b i"
    by (simp only: update_where_def set_map ball_simps) blast
  then show ?thesis using assms(1) by (simp add: tasks_ok_def maps)
qed

lemma change_item_wp:
  assumes "tasks_ok s" and "\<And>i. it_id (f i) = it_id i \<and> it_board_id (f i) = it_board_id i \<and> it_position (f i) = it_position i"
    and "\<And>i b. is_item bid tid i \<Longrightarrow> cond s i \<Longrightarrow> b \<in> set (tk_boards s) \<Longrightarrow> within_retries b i \<Longrightarrow> within_retries b (f i)"
  shows "wp (change_item bid tid cond f) (\<lambda>_. tasks_ok) s"
proof -
  have "tasks_ok (tk_items_update (update_where (\<lambda>i. is_item bid tid i \<and> cond s i) f) s)"
    by (rule update_items_ok [OF assms(1,2)]) (use assms(3) in auto)
  then show ?thesis by (simp add: change_item_def)
qed

lemma within_status [simp]: "within_retries b (i\<lparr>it_status := st\<rparr>) = within_retries b i"
    "within_retries b (i\<lparr>it_note := n\<rparr>) = within_retries b i" "within_retries b (i\<lparr>it_title := t\<rparr>) = within_retries b i"
  by (simp_all add: within_retries_def)

lemma update_status_ok: "tasks_ok s \<Longrightarrow> wp (update_status bid tid st note) (\<lambda>_. tasks_ok) s"
  unfolding update_status_def by (rule change_item_wp) (simp_all add: within_retries_def)

lemma update_task_title_ok: "tasks_ok s \<Longrightarrow> wp (update_task_title bid tid t) (\<lambda>_. tasks_ok) s"
  unfolding update_task_title_def by (rule change_item_wp) simp_all

lemma force_retry_ok: "tasks_ok s \<Longrightarrow> wp (force_retry bid tid) (\<lambda>_. tasks_ok) s"
  unfolding force_retry_def by (rule change_item_wp) (simp_all add: within_retries_def)

lemma increment_retry_ok:
  assumes "tasks_ok s"
  shows "wp (increment_retry bid tid) (\<lambda>_. tasks_ok) s"
  unfolding increment_retry_def
proof (rule change_item_wp [OF assms])
  fix i b
  assume i: "is_item bid tid i" and below: "case board_row_at bid s of None \<Rightarrow> False | Some b \<Rightarrow> it_retry_count i < bd_max_retries b"
    and b: "b \<in> set (tk_boards s)" "within_retries b i"
  from below obtain b' where b': "board_row_at bid s = Some b'" "it_retry_count i < bd_max_retries b'" by (auto split: option.splits)
  have "bd_id b' = bid" "b' \<in> set (tk_boards s)" using board_row_at_Some [OF b'(1)] by simp_all
  moreover have "bd_id b = bid" using b(2) i by (simp add: within_retries_def is_item_def)
  ultimately have "b' = b" using b(1) assms by (auto simp: tasks_ok_def dest: same_id)
  then show "within_retries b (i\<lparr>it_retry_count := it_retry_count i + 1, it_status := IN_PROGRESS\<rparr>)"
    using b(2) b'(2) by (simp add: within_retries_def)
qed simp

lemma delete_task_ok: "tasks_ok s \<Longrightarrow> wp (delete_task bid tid) (\<lambda>_. tasks_ok) s"
  by (simp add: delete_task_def delete_items_ok)

lemma settle_ok: "tasks_ok s \<Longrightarrow> wp (settle_conversation cid) (\<lambda>_. tasks_ok) s"
proof -
  have "wp (settle_board b) (\<lambda>_. tasks_ok) t" if "tasks_ok t" for b t
    unfolding settle_board_def using that by (simp add: update_items_ok)
  then have "wp (forT settle_board bs) (\<lambda>_. tasks_ok) s" if "tasks_ok s" for bs using that by (intro wp_forT) auto
  then show "tasks_ok s \<Longrightarrow> wp (settle_conversation cid) (\<lambda>_. tasks_ok) s"
    by (simp add: settle_conversation_def)
qed

subsection \<open>Adding\<close>

text \<open>The items of a board lie before a position.\<close>

definition room :: "string \<Rightarrow> int \<Rightarrow> task_db \<Rightarrow> bool" where
  "room bid n db \<longleftrightarrow> (\<exists>b\<in>set (tk_boards db). bd_id b = bid) \<and> (\<forall>i\<in>set (tk_items db). it_board_id i = bid \<longrightarrow> it_position i < n)"

lemma insert_item_ok:
  assumes "tasks_ok s" and "room (it_board_id i) (it_position i) s" and "it_retry_count i = 0"
  shows "wp (insert_item i) (\<lambda>_ t. tasks_ok t \<and> room (it_board_id i) (it_position i + 1) t \<and> tk_boards t = tk_boards s) s"
proof -
  have "tasks_ok (tk_items_update (\<lambda>is. is @ [i]) s)" if "\<forall>x\<in>set (tk_items s). it_id x \<noteq> it_id i"
    using assms that by (force simp: tasks_ok_def room_def item_place_def within_retries_def)
  moreover have "room (it_board_id i) (it_position i + 1) (tk_items_update (\<lambda>is. is @ [i]) s)"
    using assms(2) by (force simp: room_def)
  ultimately show ?thesis by (auto simp: insert_item_def)
qed

lemma insert_items_ok:
  "tasks_ok s \<Longrightarrow> room bid (start + int k) s \<Longrightarrow>
   wp (forT insert_item (map (new_item ids bid start) (enumerate k ts))) (\<lambda>_. tasks_ok) s"
proof (induction ts arbitrary: k s)
  case (Cons t ts)
  let ?i = "new_item ids bid start (k, t)"
  have i: "it_board_id ?i = bid" "it_position ?i = start + int k" "it_retry_count ?i = 0" by (simp_all add: new_item_def)
  have "wp (insert_item ?i) (\<lambda>_ t. tasks_ok t \<and> room bid (start + int k + 1) t \<and> tk_boards t = tk_boards s) s"
    using insert_item_ok [of s ?i] Cons.prems i by simp
  then show ?case
    by (simp add: algebra_simps) (auto elim!: wp_mono intro: Cons.IH [of _ "Suc k"] simp: algebra_simps)
qed simp

lemma insert_board_ok:
  assumes "tasks_ok s"
  shows "wp (insert_board b) (\<lambda>_ t. tasks_ok t \<and> room (bd_id b) 0 t) s"
proof -
  have "tasks_ok (tk_boards_update (\<lambda>bs. bs @ [b]) s) \<and> room (bd_id b) 0 (tk_boards_update (\<lambda>bs. bs @ [b]) s)"
    if new: "\<forall>x\<in>set (tk_boards s). \<not> board_clash b x"
  proof -
    have "bd_id b \<notin> bd_id ` set (tk_boards s)" "board_key b \<notin> board_key ` set (tk_boards s)"
      using new by (auto simp: board_clash_def board_key_def)
    moreover have "it_board_id i \<noteq> bd_id b" if "i \<in> set (tk_items s)" for i
      using assms new that by (auto simp: tasks_ok_def within_retries_def board_clash_def)
    ultimately show ?thesis using assms by (auto simp: tasks_ok_def room_def)
  qed
  then show ?thesis by (auto simp: insert_board_def)
qed

lemma create_task_list_ok:
  assumes "tasks_ok s"
  shows "wp (create_task_list board_id ids now cid ts agent label parent m branch) (\<lambda>_. tasks_ok) s"
proof -
  let ?b = "\<lparr>bd_id = board_id, bd_conversation_id = cid, bd_agent_id = agent, bd_agent_label = label,
            bd_parent_agent_id = parent, bd_branch_id = branch, bd_max_retries = m, bd_created_at = now\<rparr>"
  have put: "wp (forT insert_item (new_items ids board_id 0 ts)) (\<lambda>_. tasks_ok) t" if "tasks_ok t" "room board_id 0 t" for t
    unfolding new_items_def using insert_items_ok [of t board_id 0 0] that by simp
  have items: "wp (forT insert_item (new_items ids board_id 0 ts)) (\<lambda>_ u. \<forall>row. board_row_at board_id u = Some row \<longrightarrow> tasks_ok u) t"
    if "tasks_ok t" "room board_id 0 t" for t by (rule wp_mono [OF put [OF that]]) simp
  have "wp (insert_board ?b) (\<lambda>_ t. tasks_ok t \<and> room board_id 0 t) (delete_boards (has_key cid agent branch) s)"
    using insert_board_ok [OF delete_boards_ok [OF assms], of ?b] by simp
  then show ?thesis
    unfolding create_task_list_def
    by (simp split: option.split) (auto elim!: wp_mono intro: wp_mono [OF items])
qed

lemma add_tasks_ok:
  assumes "tasks_ok s"
  shows "wp (add_tasks ids bid ts) (\<lambda>_. tasks_ok) s"
proof (cases "board_row_at bid s")
  case None
  then show ?thesis using assms by (simp add: add_tasks_def)
next
  case (Some b)
  have "room bid (next_position bid s) s"
  proof -
    have "it_position i < next_position bid s" if "i \<in> set (tk_items s)" "it_board_id i = bid" for i
    proof -
      let ?ps = "map it_position (filter (\<lambda>i. it_board_id i = bid) (tk_items s))"
      have pos: "it_position i \<in> set ?ps" using that by auto
      then have "it_position i \<le> coalesce_max (hd ?ps) ?ps" using coalesce_max_ge [of "hd ?ps" ?ps] by blast
      moreover have "?ps \<noteq> []" using pos by (metis empty_iff list.set(1))
      ultimately show ?thesis unfolding next_position_def Let_def by (simp only: if_False)
    qed
    then show ?thesis using board_row_at_Some [OF Some] by (auto simp: room_def)
  qed
  then have "wp (forT insert_item (new_items ids bid (next_position bid s) ts)) (\<lambda>_. tasks_ok) s"
    unfolding new_items_def using insert_items_ok [of s bid "next_position bid s" 0] assms by simp
  then show ?thesis using Some by (simp add: add_tasks_def Let_def)
qed

section \<open>Every history of operations\<close>

inductive task_step :: "task_db \<Rightarrow> task_db \<Rightarrow> bool" where
  creates: "create_task_list board_id ids now cid ts agent label parent m branch s = Inr (b, t) \<Longrightarrow> task_step s t"
| sets_status: "update_status bid tid st note s = Inr (r, t) \<Longrightarrow> task_step s t"
| adds: "add_tasks ids bid ts s = Inr (new, t) \<Longrightarrow> task_step s t"
| removes: "delete_task bid tid s = Inr (found, t) \<Longrightarrow> task_step s t"
| retries: "increment_retry bid tid s = Inr (r, t) \<Longrightarrow> task_step s t"
| forces: "force_retry bid tid s = Inr (r, t) \<Longrightarrow> task_step s t"
| retitles: "update_task_title bid tid title s = Inr (r, t) \<Longrightarrow> task_step s t"
| settles: "settle_conversation cid s = Inr (bs, t) \<Longrightarrow> task_step s t"
| erases_tasks: "tasks_erase_under name s = Inr (n, t) \<Longrightarrow> task_step s t"

inductive task_reach :: "task_db \<Rightarrow> bool" where
  tasks_start: "task_reach no_tasks"
| tasks_more: "task_reach s \<Longrightarrow> task_step s t \<Longrightarrow> task_reach t"

lemma task_step_ok: "task_step s t \<Longrightarrow> tasks_ok s \<Longrightarrow> tasks_ok t"
proof (induction rule: task_step.induct)
  case (erases_tasks name s n t)
  then show ?case by (auto simp: tasks_erase_under_def run_simps intro: delete_boards_ok)
qed (blast dest: wp_run [OF create_task_list_ok] wp_run [OF update_status_ok] wp_run [OF add_tasks_ok] wp_run [OF delete_task_ok]
    wp_run [OF increment_retry_ok] wp_run [OF force_retry_ok] wp_run [OF update_task_title_ok] wp_run [OF settle_ok])+

lemma task_reach_ok: "task_reach s \<Longrightarrow> tasks_ok s"
  by (induction rule: task_reach.induct) (auto intro: tasks_ok_empty task_step_ok)

text \<open>
  C36. In every reachable state an agent has one board on a branch of a conversation, every task is on a board at a
  place of its own, and it was retried no more often than the board allows.
\<close>

theorem boards_invariant: "task_reach s \<Longrightarrow> tasks_ok s"
  by (rule task_reach_ok)

end
