(* ===== verification/Tool_Claims.thy ===== *)
theory Tool_Claims
  imports Task_Claims
begin

text \<open>
  The tool of the boards: one task in progress at a time, changes inside the tenant only; and where the tool does
  not keep the life cycle it documents, or works on a board that is not the caller's.
\<close>

section \<open>Reading through the fence\<close>

definition owned_in :: "string \<Rightarrow> string \<Rightarrow> task_db \<Rightarrow> bool" where
  "owned_in p bid db \<longleftrightarrow> (case board_row_at bid db of None \<Rightarrow> False | Some b \<Rightarrow> owns p (bd_conversation_id b))"

lemma if_owned_run: "if_owned p bid d m db = (if owned_in p bid db then m db else Inr (d, db))"
  by (simp add: if_owned_def board_owned_def get_task_list_def owned_in_def board_of_def run_simps split: option.split)

lemma s_get_task_list_run: "s_get_task_list p bid db =
    Inr (if owned_in p bid db then Some (board_out p (board_of db (the (board_row_at bid db)))) else None, db)"
  by (simp add: s_get_task_list_def get_task_list_def owned_in_def board_of_def run_simps split: option.split)

lemma tasks_out [simp]: "tl_tasks (board_out p b) = tl_tasks b" "tl_tasks (board_of db r) = items_of (bd_id r) db"
    "tl_board (board_of db r) = r" "bd_id (tl_board (board_out p b)) = bd_id (tl_board b)"
  by (simp_all add: board_out_def board_of_def)

lemma owned_row: "owned_in p bid db \<Longrightarrow> bd_id (the (board_row_at bid db)) = bid"
  by (auto simp: owned_in_def dest: board_row_at_Some split: option.splits)

lemma first_with_status_run: "bid \<noteq> [] \<Longrightarrow> first_with_status p st bid db =
    Inr (if owned_in p bid db then first_status_of st (items_of bid db) else None, db)"
  by (simp add: first_with_status_def bindT_def s_get_task_list_run retT_def owned_row)

lemma resolve_task_id_run: "bid \<noteq> [] \<Longrightarrow> \<exists>r. resolve_task_id p tid st bid db = Inr (r, db) \<and> (\<not> owned_in p bid db \<longrightarrow> r = None)"
  by (auto simp: resolve_task_id_def bindT_def s_get_task_list_run retT_def first_with_status_run)

abbreviation set_status :: "string \<Rightarrow> string \<Rightarrow> task_status \<Rightarrow> task_db \<Rightarrow> task_db" where
  "set_status bid tid st \<equiv> tk_items_update (update_where (is_item bid tid) (it_status_update (\<lambda>_. st)))"

lemma update_status_run: "\<exists>r. update_status bid tid st [] db = Inr (r, set_status bid tid st db)"
  by (simp add: update_status_def change_item_def run_simps)

section \<open>One task in progress\<close>

definition busy :: "string \<Rightarrow> task_db \<Rightarrow> task_item list" where
  "busy bid db = filter (\<lambda>i. it_board_id i = bid \<and> it_status i = IN_PROGRESS) (tk_items db)"

lemma update_where_simps: "update_where P f [] = []" "update_where P f (x # xs) = (if P x then f x else x) # update_where P f xs"
  by (simp_all add: update_where_def)

lemma busy_done: "busy bid (set_status bid tid SUCCEEDED db) =
    filter (\<lambda>i. it_id i \<noteq> tid) (busy bid db)"
proof -
  have "filter (\<lambda>i. it_board_id i = bid \<and> it_status i = IN_PROGRESS) (update_where (is_item bid tid) (it_status_update (\<lambda>_. SUCCEEDED)) xs)
      = filter (\<lambda>i. it_id i \<noteq> tid) (filter (\<lambda>i. it_board_id i = bid \<and> it_status i = IN_PROGRESS) xs)" for xs :: "task_item list"
    by (induction xs) (auto simp: update_where_simps is_item_def)
  then show ?thesis by (simp add: busy_def)
qed

lemma stale_busy: "first_status_of IN_PROGRESS (items_of bid db) = Some tid \<Longrightarrow> \<exists>i\<in>set (busy bid db). it_id i = tid"
  by (auto simp: first_status_of_def items_of_def busy_def dest!: find_SomeD)

lemma none_stale: "first_status_of IN_PROGRESS (items_of bid db) = None \<Longrightarrow> busy bid db = []"
  by (auto simp: first_status_of_def items_of_def busy_def find_None_iff filter_empty_conv)

lemma owned_items [simp]: "owned_in p bid (tk_items_update f db) = owned_in p bid db"
  by (simp add: owned_in_def board_row_at_def)

definition board_ready :: "string \<Rightarrow> string \<Rightarrow> task_db \<Rightarrow> bool" where
  "board_ready p bid db \<longleftrightarrow> owned_in p bid db \<and> distinct (map it_id (tk_items db))"

lemma complete_stale_leaves:
  "board_ready p bid (ts_db s) \<Longrightarrow> bid \<noteq> [] \<Longrightarrow> length (busy bid (ts_db s)) \<le> k \<Longrightarrow>
   leaves (complete_stale k p bid) (\<lambda>r t. board_ready p bid (ts_db t) \<and> busy bid (ts_db t) = []) s"
proof (induction k arbitrary: s)
  case 0
  then show ?case by simp
next
  case (Suc k)
  show ?case
  proof (cases "first_status_of IN_PROGRESS (items_of bid (ts_db s))")
    case None
    then show ?thesis using Suc.prems none_stale
      by (simp add: leaves_bind storeT_def first_with_status_run board_ready_def)
  next
    case (Some tid)
    let ?db = "set_status bid tid SUCCEEDED (ts_db s)"
    obtain r where upd: "s_update_status p bid tid SUCCEEDED [] (ts_db s) = Inr (r, ?db)"
      using Suc.prems(1) update_status_run [of bid tid SUCCEEDED "ts_db s"] by (auto simp: s_update_status_def if_owned_run board_ready_def)
    have "length (busy bid ?db) < length (busy bid (ts_db s))"
      unfolding busy_done using stale_busy [OF Some] by (auto intro: length_filter_less)
    then have less: "length (busy bid ?db) \<le> k" using Suc.prems(3) by simp
    have "map it_id (update_where (is_item bid tid) (it_status_update (\<lambda>_. SUCCEEDED)) is) = map it_id is" for "is"
      by (rule map_update_where) simp
    then have ready: "board_ready p bid ?db" using Suc.prems(1) by (simp add: board_ready_def)
    have "leaves (complete_stale k p bid) (\<lambda>r t. board_ready p bid (ts_db t) \<and> busy bid (ts_db t) = []) (s\<lparr>ts_db := ?db\<rparr>)"
      using ready less Suc.prems(2) by (intro Suc.IH) simp_all
    then show ?thesis using Suc.prems Some upd
      by (simp add: leaves_bind storeT_def first_with_status_run board_ready_def)
  qed
qed

lemma one_started: "distinct (map it_id (tk_items db)) \<Longrightarrow> busy bid db = [] \<Longrightarrow>
    length (busy bid (set_status bid tid IN_PROGRESS db)) \<le> 1"
proof -
  have "distinct (map it_id xs) \<Longrightarrow> filter (\<lambda>i. it_board_id i = bid \<and> it_status i = IN_PROGRESS) xs = [] \<Longrightarrow>
      length (filter (\<lambda>i. it_board_id i = bid \<and> it_status i = IN_PROGRESS) (update_where (is_item bid tid) (it_status_update (\<lambda>_. IN_PROGRESS)) xs)) \<le>
      (if tid \<in> it_id ` set xs then 1 else 0)" for xs :: "task_item list"
    by (induction xs) (auto simp: update_where_simps is_item_def split: if_splits)
  from this [of "tk_items db"] show "distinct (map it_id (tk_items db)) \<Longrightarrow> busy bid db = [] \<Longrightarrow>
      length (busy bid (set_status bid tid IN_PROGRESS db)) \<le> 1"
    by (simp add: busy_def split: if_splits)
qed

lemma shown_busy: "length (filter (\<lambda>i. it_status i = IN_PROGRESS) (items_of bid db)) = length (busy bid db)"
proof -
  have "mset (filter P (sort_key k xs)) = mset (filter P xs)" for P and k :: "task_item \<Rightarrow> int" and xs by simp
  then have "length (filter P (sort_key k xs)) = length (filter P xs)" for P and k :: "task_item \<Rightarrow> int" and xs
    by (metis size_mset)
  then show ?thesis by (simp add: items_of_def busy_def conj_commute)
qed

definition one_shown :: "exn + tool_result \<Rightarrow> bool" where
  "one_shown r \<longleftrightarrow> (case r of Inr (BoardResult msg (Some b)) \<Rightarrow> length (filter (\<lambda>i. it_status i = IN_PROGRESS) (tl_tasks b)) \<le> 1 | _ \<Rightarrow> True)"

lemma one_shown_simps [simp]: "one_shown (Inl e)" "one_shown (Inr (ErrResult m))" "one_shown (Inr (BoardResult m None))"
    "one_shown (Inr (BoardResult m (Some b))) \<longleftrightarrow> length (filter (\<lambda>i. it_status i = IN_PROGRESS) (tl_tasks b)) \<le> 1"
  by (simp_all add: one_shown_def)

lemma board_result_shown: "length (busy bid (ts_db s)) \<le> 1 \<Longrightarrow> leaves (board_result p bid msg) (\<lambda>r t. one_shown r) s"
  by (simp add: board_result_def leaves_bind storeT_def s_get_task_list_run shown_busy owned_row split: if_splits)

lemma move_started_shown:
  assumes "distinct (map it_id (tk_items (ts_db s)))" and "busy bid (ts_db s) = []"
  shows "leaves (move_task p bid tid IN_PROGRESS [] verb) (\<lambda>r t. one_shown r) s"
proof -
  obtain r where upd: "update_status bid tid IN_PROGRESS [] (ts_db s) = Inr (r, set_status bid tid IN_PROGRESS (ts_db s))"
    using update_status_run by blast
  have "leaves (board_result p bid msg) (\<lambda>r t. one_shown r) (s\<lparr>ts_db := set_status bid tid IN_PROGRESS (ts_db s)\<rparr>)" for msg
    using one_started [OF assms] by (intro board_result_shown) simp
  then show ?thesis using upd
    by (simp add: move_task_def leaves_bind storeT_def s_update_status_def if_owned_run split: option.split)
qed

lemma start_task_shown:
  assumes "tasks_ok (ts_db s)" and "bid \<noteq> []"
  shows "leaves (start_task p bid tid) (\<lambda>r t. one_shown r) s"
proof (cases "owned_in p bid (ts_db s)")
  case False
  have "leaves (complete_stale k p bid) (\<lambda>r t. r = Inr () \<and> t = s) s" for k
    by (cases k) (simp_all add: leaves_bind storeT_def first_with_status_run assms(2) False)
  then have stale: "leaves (complete_stale k p bid) (\<lambda>r t. r = Inr () \<and> t = s) s" for k .
  have "resolve_task_id p tid st bid (ts_db s) = Inr (None, ts_db s)" for st using resolve_task_id_run [OF assms(2)] False by metis
  then have none: "leaves (resolve_either p tid st1 st2 bid) (\<lambda>r t. r = Inr None) s" for st1 st2
    by (simp add: resolve_either_def leaves_bind storeT_def)
  have "leaves (bindA (resolve_either p tid PLANNED BLOCKED bid) (\<lambda>r. case r of None \<Rightarrow> retA (ErrResult ''No planned or blocked tasks to start.'')
        | Some x \<Rightarrow> move_task p bid x IN_PROGRESS [] ''Started'')) (\<lambda>r t. one_shown r) s"
    by (rule leaves_seq [OF none]) auto
  then show ?thesis unfolding start_task_def leaves_query_bind by (intro leaves_seq [OF stale]) auto
next
  case True
  have ready: "board_ready p bid (ts_db s)" using True assms(1) by (simp add: board_ready_def tasks_ok_def)
  have read: "leaves (resolve_either p tid st1 st2 bid) (\<lambda>r t. ts_db t = ts_db u) u" for st1 st2 u
  proof -
    obtain r1 where r1: "resolve_task_id p tid st1 bid (ts_db u) = Inr (r1, ts_db u)" using resolve_task_id_run [OF assms(2)] by blast
    obtain r2 where "resolve_task_id p tid st2 bid (ts_db u) = Inr (r2, ts_db u)" using resolve_task_id_run [OF assms(2)] by blast
    with r1 show ?thesis by (cases r1) (simp_all add: resolve_either_def leaves_bind storeT_def)
  qed
  have "leaves (bindA (resolve_either p tid PLANNED BLOCKED bid) (\<lambda>r. case r of None \<Rightarrow> retA (ErrResult ''No planned or blocked tasks to start.'')
        | Some x \<Rightarrow> move_task p bid x IN_PROGRESS [] ''Started'')) (\<lambda>r t. one_shown r) u"
    if "board_ready p bid (ts_db u)" "busy bid (ts_db u) = []" for u
    using that by (intro leaves_seq [OF read]) (auto simp: board_ready_def intro!: move_started_shown split: option.split)
  moreover have "length (busy bid (ts_db s)) \<le> length (tk_items (ts_db s))" by (simp add: busy_def)
  ultimately show ?thesis unfolding start_task_def leaves_query_bind
    by (intro leaves_seq [OF complete_stale_leaves [OF ready assms(2)]]) auto
qed

lemma primary_in: "primary_board bs = Some b \<Longrightarrow> b \<in> set bs"
  by (auto simp: primary_board_def dest: find_SomeD split: option.splits if_splits)

lemma found_board:
  assumes "\<forall>b\<in>set (tk_boards db). bd_id b \<noteq> []"
  shows "\<exists>r. s_get_by_conversation p cid branch db = Inr (r, db) \<and> (\<forall>b. r = Some b \<longrightarrow> bd_id (tl_board b) \<noteq> [])"
  using assms by (auto simp: s_get_by_conversation_def get_by_conversation_def get_boards_by_conversation_def run_simps
      boards_by_conversation_def dest!: primary_in)

text \<open>
  C37. When an agent starts a task, the board it is shown has at most one task in progress, whatever was left so.
  The ids of boards are those of \<open>uuid4\<close> and never empty.
\<close>

theorem one_task_at_a_time:
  assumes "task_reach (ts_db s)" and "\<forall>b\<in>set (tk_boards (ts_db s)). bd_id b \<noteq> []"
    and "execute_tool board_id ids now c thread_id (StartTask tid) s = (Inr (BoardResult msg (Some b)), t)"
  shows "length (filter (\<lambda>i. it_status i = IN_PROGRESS) (tl_tasks b)) \<le> 1"
proof -
  have ok: "tasks_ok (ts_db s)" by (rule task_reach_ok [OF assms(1)])
  let ?Q = "\<lambda>r u. ts_db u = ts_db s \<and> (\<forall>bid. r = Inr (Some bid) \<longrightarrow> bid \<noteq> [])"
  obtain r where r: "s_get_by_conversation (caller_prefix c) (conversation_id c thread_id) ''main'' (ts_db s) = Inr (r, ts_db s)"
      "\<forall>b. r = Some b \<longrightarrow> bd_id (tl_board b) \<noteq> []"
    using found_board [OF assms(2)] by blast
  have "leaves (active_board c thread_id) ?Q s"
    unfolding active_board_def leaves_query_bind using r
    by (cases r) (auto simp: leaves_bind storeT_def remember_def)
  then have "leaves (execute_tool board_id ids now c thread_id (StartTask tid)) (\<lambda>r t. one_shown r) s"
    unfolding execute_tool_def tool_call.case
    by (rule leaves_seq) (use ok start_task_shown in \<open>auto simp: on_board_def split: option.split\<close>)
  from leaves_run [OF this assms(3)] show ?thesis by simp
qed

end
