(* ===== verification/Tool_Fence.thy ===== *)
theory Tool_Fence
  imports Tool_Claims
begin

text \<open>
  The tool of a tenant changes no board and no task of another tenant, whatever ids it is given: every call of
  \<open>execute\<close> moves the boards along \<open>board_fence\<close>, shown operation by operation.
\<close>

section \<open>The boards of others\<close>

definition foreign :: "string \<Rightarrow> task_db \<Rightarrow> board_row list" where
  "foreign p db = filter (\<lambda>b. \<not> owns p (bd_conversation_id b)) (tk_boards db)"

definition foreign_items :: "string \<Rightarrow> task_db \<Rightarrow> task_item list" where
  "foreign_items p db = filter (\<lambda>i. it_board_id i \<in> bd_id ` set (foreign p db)) (tk_items db)"

definition fenced :: "string \<Rightarrow> task_db \<Rightarrow> task_db \<Rightarrow> bool" where
  "fenced p s t \<longleftrightarrow> foreign p t = foreign p s \<and> foreign_items p t = foreign_items p s"

definition board_fence :: "string \<Rightarrow> task_db \<Rightarrow> task_db \<Rightarrow> bool" where
  "board_fence p s t \<longleftrightarrow> (tasks_ok s \<longrightarrow> tasks_ok t \<and> fenced p s t)"

interpretation boards: frame "board_fence p" for p
  by unfold_locales (auto simp: board_fence_def fenced_def)

interpretation tool: act_frame "\<lambda>s t. board_fence p (ts_db s) (ts_db t)" for p
proof
  show "board_fence p (ts_db s) (ts_db s)" for s by (rule boards.R_refl)
  show "board_fence p (ts_db s) (ts_db u)" if "board_fence p (ts_db s) (ts_db t)" "board_fence p (ts_db t) (ts_db u)" for s t u
    using that by (rule boards.R_trans)
qed

lemma owned_not_foreign: "tasks_ok db \<Longrightarrow> owned_in p bid db \<Longrightarrow> bid \<notin> bd_id ` set (foreign p db)"
  by (auto simp: owned_in_def foreign_def tasks_ok_def dest!: board_row_at_Some dest: same_id split: option.splits)

lemma board_not_foreign: "tasks_ok db \<Longrightarrow> b \<in> set (tk_boards db) \<Longrightarrow> owns p (bd_conversation_id b) \<Longrightarrow> bd_id b \<notin> bd_id ` set (foreign p db)"
  by (auto simp: foreign_def tasks_ok_def dest: same_id)

lemma fence_wp: "(\<And>s. tasks_ok s \<Longrightarrow> wp m (\<lambda>_. tasks_ok) s) \<Longrightarrow> (\<And>s. tasks_ok s \<Longrightarrow> wp m (\<lambda>_. fenced p s) s) \<Longrightarrow> stable (board_fence p) m"
proof (rule stableI)
  fix s
  assume ok: "\<And>s. tasks_ok s \<Longrightarrow> wp m (\<lambda>_. tasks_ok) s" and fence: "\<And>s. tasks_ok s \<Longrightarrow> wp m (\<lambda>_. fenced p s) s"
  show "wp m (\<lambda>_. board_fence p s) s"
  proof (cases "tasks_ok s")
    case True
    from wp_conj [OF ok [OF True] fence [OF True]] show ?thesis by (rule wp_mono) (simp add: board_fence_def)
  next
    case False
    then show ?thesis by (intro wp_intro) (simp add: board_fence_def)
  qed
qed

section \<open>Operation by operation\<close>

lemma foreign_same [simp]: "foreign p (tk_items_update f s) = foreign p s"
    "owns p (bd_conversation_id b) \<Longrightarrow> foreign p (tk_boards_update (\<lambda>bs. bs @ [b]) s) = foreign p s"
  by (simp_all add: foreign_def)

lemma foreign_items_insert [simp]: "it_board_id i \<notin> bd_id ` set (foreign p s) \<Longrightarrow>
    foreign_items p (tk_items_update (\<lambda>is. is @ [i]) s) = foreign_items p s"
  by (simp add: foreign_items_def)

lemma fenced_items: "(\<And>i. P i \<Longrightarrow> it_board_id i \<notin> bd_id ` set (foreign p s) \<and> it_board_id (f i) = it_board_id i) \<Longrightarrow>
    fenced p s (tk_items_update (update_where P f) s)"
proof -
  assume P: "\<And>i. P i \<Longrightarrow> it_board_id i \<notin> bd_id ` set (foreign p s) \<and> it_board_id (f i) = it_board_id i"
  let ?Q = "\<lambda>i. it_board_id i \<in> bd_id ` set (foreign p s)"
  have "filter ?Q (update_where P f xs) = filter ?Q xs" for xs
    by (rule filter_update_where) (use P in metis)
  then show ?thesis by (simp add: fenced_def foreign_items_def)
qed

lemma fenced_change: "bid \<notin> bd_id ` set (foreign p s) \<Longrightarrow> (\<And>i. it_board_id (f i) = it_board_id i) \<Longrightarrow> wp (change_item bid tid cond f) (\<lambda>_. fenced p s) s"
  by (auto simp: change_item_def is_item_def intro!: fenced_items)

text \<open>An operation on one board, behind the question who owns it.\<close>

lemma fence_if_owned:
  assumes "\<And>s. tasks_ok s \<Longrightarrow> wp m (\<lambda>_. tasks_ok) s"
    and "\<And>s. tasks_ok s \<Longrightarrow> bid \<notin> bd_id ` set (foreign p s) \<Longrightarrow> wp m (\<lambda>_. fenced p s) s"
  shows "stable (board_fence p) (if_owned p bid d m)"
proof (rule fence_wp)
  fix s assume "tasks_ok s"
  then show "wp (if_owned p bid d m) (\<lambda>_. tasks_ok) s" using assms(1) by (auto simp: wp_def if_owned_run split: sum.splits)
  show "wp (if_owned p bid d m) (\<lambda>_. fenced p s) s"
    using assms(2) [OF \<open>tasks_ok s\<close> owned_not_foreign [OF \<open>tasks_ok s\<close>]] by (auto simp: wp_def if_owned_run fenced_def split: sum.splits)
qed

lemma fenced_insert_items: "\<forall>i\<in>set is. it_board_id i \<notin> bd_id ` set (foreign p s) \<Longrightarrow>
    wp (forT insert_item is) (\<lambda>_ t. fenced p s t) s"
proof -
  assume own: "\<forall>i\<in>set is. it_board_id i \<notin> bd_id ` set (foreign p s)"
  show ?thesis
  proof (rule wp_forT [where I = "fenced p s"])
    fix i t
    assume "i \<in> set is" "fenced p s t"
    then show "wp (insert_item i) (\<lambda>_. fenced p s) t"
      using own by (simp add: insert_item_def fenced_def)
  qed (simp add: fenced_def)
qed

lemma new_items_board: "i \<in> set (new_items ids bid start ts) \<Longrightarrow> it_board_id i = bid"
  by (auto simp: new_items_def new_item_def)

lemma fenced_add: "bid \<notin> bd_id ` set (foreign p s) \<Longrightarrow> wp (add_tasks ids bid ts) (\<lambda>_. fenced p s) s"
  by (auto simp: add_tasks_def Let_def fenced_def [of p s s] dest!: new_items_board intro!: fenced_insert_items)

lemma fenced_delete: "bid \<notin> bd_id ` set (foreign p s) \<Longrightarrow> wp (delete_task bid tid) (\<lambda>_. fenced p s) s"
proof -
  assume own: "bid \<notin> bd_id ` set (foreign p s)"
  have "filter (\<lambda>i. it_board_id i \<in> F) (delete_where (is_item bid tid) xs) = filter (\<lambda>i. it_board_id i \<in> F) xs" if "bid \<notin> F" for F and xs :: "task_item list"
    using that by (induction xs) (auto simp: delete_where_def is_item_def)
  then show ?thesis using own by (simp add: delete_task_def fenced_def foreign_def foreign_items_def)
qed

lemma fenced_delete_boards:
  assumes "tasks_ok s" and "\<And>b. P b \<Longrightarrow> owns p (bd_conversation_id b)"
  shows "fenced p s (delete_boards P s)"
proof -
  have boards: "filter (\<lambda>b. \<not> owns p (bd_conversation_id b)) (delete_where P bs) = filter (\<lambda>b. \<not> owns p (bd_conversation_id b)) bs" for bs
    using assms(2) by (induction bs) (auto simp: delete_where_def)
  let ?F = "bd_id ` set (foreign p s)" and ?Q = "\<lambda>i. exists_where (\<lambda>b. P b \<and> bd_id b = it_board_id i) (tk_boards s)"
  have "\<not> ?Q i" if "it_board_id i \<in> ?F" for i
  proof
    assume "?Q i"
    then obtain b where "b \<in> set (tk_boards s)" "P b" "bd_id b = it_board_id i" by auto
    then show False using board_not_foreign [OF assms(1), of b p] assms(2) that by simp
  qed
  then have "filter (\<lambda>i. it_board_id i \<in> ?F) (delete_where ?Q xs) = filter (\<lambda>i. it_board_id i \<in> ?F) xs" for xs :: "task_item list"
    by (induction xs) (auto simp: delete_where_def)
  then show ?thesis by (simp add: fenced_def foreign_def foreign_items_def delete_boards_def boards)
qed

lemma fenced_trans: "fenced p s t \<Longrightarrow> fenced p t u \<Longrightarrow> fenced p s u"
  by (simp add: fenced_def)

lemma fenced_create:
  assumes "tasks_ok s"
  shows "wp (create_task_list board_id ids now (p @ cid) ts agent label parent m branch) (\<lambda>_. fenced p s) s"
proof -
  let ?b = "\<lparr>bd_id = board_id, bd_conversation_id = p @ cid, bd_agent_id = agent, bd_agent_label = label,
            bd_parent_agent_id = parent, bd_branch_id = branch, bd_max_retries = m, bd_created_at = now\<rparr>"
  let ?s = "delete_boards (has_key (p @ cid) agent branch) s"
  have del: "fenced p s ?s" by (rule fenced_delete_boards [OF assms]) (simp add: has_key_def)
  have clash: "\<forall>x\<in>set (tk_boards ?s). \<not> board_clash ?b x \<Longrightarrow> board_id \<notin> bd_id ` set (foreign p ?s)"
    by (auto simp: board_clash_def foreign_def)
  have ins: "wp (insert_board ?b) (\<lambda>_ t. fenced p ?s t \<and> board_id \<notin> bd_id ` set (foreign p t)) ?s"
    by (auto simp: insert_board_def fenced_def foreign_items_def clash)
  have items: "wp (forT insert_item (new_items ids board_id 0 ts)) (\<lambda>_ u. fenced p s u) t"
    if "fenced p ?s t" "board_id \<notin> bd_id ` set (foreign p t)" for t
    by (rule wp_mono [OF fenced_insert_items [of _ p t]]) (use that del in \<open>auto dest: new_items_board intro: fenced_trans\<close>)
  show ?thesis
    unfolding create_task_list_def
    by (simp split: option.split) (rule wp_mono [OF ins], auto intro!: wp_mono [OF items])
qed

lemma fenced_settle:
  assumes "tasks_ok s"
  shows "wp (settle_conversation (p @ cid)) (\<lambda>_. fenced p s) s"
proof -
  have mine: "bd_id b \<notin> bd_id ` set (foreign p s)" if "b \<in> set (settling (p @ cid) s)" for b
    using that by (intro board_not_foreign [OF assms]) (auto simp: settling_def boards_by_conversation_def)
  have "wp (forT settle_board (settling (p @ cid) s)) (\<lambda>_. fenced p s) s"
  proof (rule wp_forT)
    fix b t
    assume "b \<in> set (settling (p @ cid) s)" "fenced p s t"
    then have "bd_id b \<notin> bd_id ` set (foreign p t)" using mine by (simp add: fenced_def)
    then have "fenced p t (tk_items_update (update_where (\<lambda>i. it_board_id i = bd_id b \<and> it_status i = IN_PROGRESS) (\<lambda>i. i\<lparr>it_status := SUCCEEDED\<rparr>)) t)"
      by (intro fenced_items) auto
    then show "wp (settle_board b) (\<lambda>_. fenced p s) t"
      using fenced_trans [OF \<open>fenced p s t\<close>] by (simp add: settle_board_def)
  qed (simp add: fenced_def)
  then show ?thesis by (simp add: settle_conversation_def)
qed

lemma fence_ops:
  "stable (board_fence p) (s_update_status p bid tid st note)"
  "stable (board_fence p) (s_update_task_title p bid tid title)"
  "stable (board_fence p) (s_increment_retry p bid tid)"
  "stable (board_fence p) (s_force_retry p bid tid)"
  "stable (board_fence p) (s_add_tasks p ids bid ts)"
  "stable (board_fence p) (s_delete_task p bid tid)"
  unfolding s_update_status_def s_update_task_title_def s_increment_retry_def s_force_retry_def s_add_tasks_def s_delete_task_def
  by (intro fence_if_owned update_status_ok update_task_title_ok increment_retry_ok force_retry_ok add_tasks_ok delete_task_ok; assumption?;
      simp add: update_status_def update_task_title_def increment_retry_def force_retry_def fenced_change fenced_add fenced_delete)+

lemma fence_create: "stable (board_fence p) (s_create_task_list p board_id ids now cid ts agent label parent m branch)"
  unfolding s_create_task_list_def
  by (intro boards.bind boards.ret fence_wp create_task_list_ok fenced_create)

lemma fence_settle: "stable (board_fence p) (s_settle_conversation p cid)"
  unfolding s_settle_conversation_def
  by (intro boards.bind boards.ret fence_wp settle_ok fenced_settle)

lemma fence_reads:
  "stable (board_fence p) (s_get_task_list p bid)" "stable (board_fence p) (s_get_by_conversation p cid branch)"
  "stable (board_fence p) (first_with_status p st bid)" "stable (board_fence p) (resolve_task_id p tid st bid)"
  unfolding first_with_status_def resolve_task_id_def s_get_task_list_def s_get_by_conversation_def get_by_conversation_def
    get_boards_by_conversation_def get_task_list_def
  by (intro boards.rules)+

section \<open>The tool\<close>

lemma moves_store: "stable (board_fence p) m \<Longrightarrow> moves (\<lambda>s t. board_fence p (ts_db s) (ts_db t)) (storeT m)"
  unfolding moves_def storeT_def onA_def txA_def
  by (auto dest: stable_run simp: boards.R_refl split: sum.splits prod.splits)

lemma moves_remember: "moves (\<lambda>s t. board_fence p (ts_db s) (ts_db t)) (execA (remember key bid))"
  by (rule moves_exec) (simp add: remember_def boards.R_refl)

lemmas tool_moves = tool.rules moves_store moves_remember fence_ops fence_create fence_reads

lemma moves_board_result: "moves (\<lambda>s t. board_fence p (ts_db s) (ts_db t)) (board_result p bid msg)"
  unfolding board_result_def by (intro tool_moves)

lemma moves_move_task: "moves (\<lambda>s t. board_fence p (ts_db s) (ts_db t)) (move_task p bid tid st note verb)"
  unfolding move_task_def by (intro tool_moves moves_board_result)

lemma moves_complete_stale: "moves (\<lambda>s t. board_fence p (ts_db s) (ts_db t)) (complete_stale k p bid)"
  by (induction k) (auto intro!: tool_moves)

lemma moves_resolve_either: "moves (\<lambda>s t. board_fence p (ts_db s) (ts_db t)) (resolve_either p tid st1 st2 bid)"
  unfolding resolve_either_def by (intro tool_moves)

lemma moves_on_board: "moves (\<lambda>s t. board_fence p (ts_db s) (ts_db t)) (on_board ids p bid call)"
proof (cases call)
  case (AddTask tasks)
  then show ?thesis unfolding on_board_def add_task_def Let_def
    by (auto intro!: tool_moves moves_board_result)
qed (unfold on_board_def start_task_def complete_task_def fail_task_def block_task_def retry_task_def remove_task_def retitle_task_def,
    auto intro!: tool_moves moves_board_result moves_move_task moves_complete_stale moves_resolve_either)

text \<open>
  C29. Whatever a caller asks of the tool, the boards of other tenants and the tasks on them are what they were.
\<close>

theorem tool_stays_in_tenant:
  assumes "task_reach (ts_db s)" and "execute_tool board_id ids now c thread_id call s = (r, t)"
  shows "foreign (caller_prefix c) (ts_db t) = foreign (caller_prefix c) (ts_db s) \<and>
    foreign_items (caller_prefix c) (ts_db t) = foreign_items (caller_prefix c) (ts_db s)"
proof -
  let ?p = "caller_prefix c"
  have active: "moves (\<lambda>s t. board_fence ?p (ts_db s) (ts_db t)) (active_board c thread_id)"
    unfolding active_board_def by (intro tool_moves)
  have "moves (\<lambda>s t. board_fence ?p (ts_db s) (ts_db t)) (execute_tool board_id ids now c thread_id call)"
  proof (cases call)
    case (CreateList tasks m)
    then show ?thesis unfolding execute_tool_def create_list_def Let_def by (auto intro!: tool_moves)
  qed (unfold execute_tool_def, auto intro!: tool.act_bind active tool_moves moves_on_board)
  then have "board_fence ?p (ts_db s) (ts_db t)" using assms(2) by (auto simp: moves_def dest: spec [of _ s])
  then show ?thesis using task_reach_ok [OF assms(1)] by (simp add: board_fence_def fenced_def)
qed

section \<open>Concrete boards\<close>

text \<open>The claims on boards at concrete ones, and what goes wrong there.\<close>

definition sample_ids :: "string \<Rightarrow> nat \<Rightarrow> string" where
  "sample_ids x n = x @ show_nat n"

definition new_board :: "string \<Rightarrow> string \<Rightarrow> string \<Rightarrow> task_db \<Rightarrow> task_db" where
  "new_board bid conv agent db = (case create_task_list bid (sample_ids bid) ''2026'' conv [''plan'', ''write''] agent [] None 3 ''main'' db of
     Inl e \<Rightarrow> db | Inr (b, t) \<Rightarrow> t)"

lemma new_board_reach: "task_reach db \<Longrightarrow> task_reach (new_board bid conv agent db)"
  by (auto simp: new_board_def intro: task_reach.intros task_step.creates split: sum.split)

text \<open>Boards of tenants \<open>a\<close> and \<open>b\<close> in conversations of the same name, and of a subagent of \<open>a\<close>.\<close>

definition sample_boards :: task_db where
  "sample_boards = new_board ''B'' ''b/chat'' [] (new_board ''S'' ''a/chat'' ''sub'' (new_board ''A'' ''a/chat'' [] no_tasks))"

lemma sample_boards_reach: "task_reach sample_boards"
  unfolding sample_boards_def by (intro new_board_reach tasks_start)

definition agent_of :: "string \<Rightarrow> string \<Rightarrow> caller" where
  "agent_of tenant agent = \<lparr>ca_tenant = Some tenant, ca_thread = ''chat'', ca_agent = agent, ca_label = [], ca_parent = None\<rparr>"

definition restarted :: tool_state where
  "restarted = \<lparr>ts_db = sample_boards, ts_lists = []\<rparr>"

definition call_tool :: "caller \<Rightarrow> tool_call \<Rightarrow> tool_state \<Rightarrow> (exn + tool_result) \<times> tool_state" where
  "call_tool c call = execute_tool ''N'' (sample_ids ''N'') ''2026'' c None call"

definition status_of :: "string \<Rightarrow> tool_state \<Rightarrow> task_status option" where
  "status_of tid s = map_option it_status (List.find (\<lambda>i. it_id i = tid) (tk_items (ts_db s)))"

theorem boards_invariant_witness: "tasks_ok sample_boards \<and> length (tk_items sample_boards) = 6"
proof
  show "tasks_ok sample_boards" by (rule boards_invariant [OF sample_boards_reach])
  show "length (tk_items sample_boards) = 6" by code_simp
qed

lemma restarted_db [simp]: "ts_db restarted = sample_boards"
  by (simp add: restarted_def)

theorem tool_stays_in_tenant_witness:
  "foreign (caller_prefix (agent_of ''a'' [])) (ts_db (snd (call_tool (agent_of ''a'' []) (StartTask None) restarted))) =
    filter (\<lambda>b. bd_id b = ''B'') (tk_boards sample_boards)"
proof -
  have reach: "task_reach (ts_db restarted)" using sample_boards_reach by simp
  have "foreign (caller_prefix (agent_of ''a'' [])) (ts_db (snd (call_tool (agent_of ''a'' []) (StartTask None) restarted))) =
      foreign (caller_prefix (agent_of ''a'' [])) (ts_db restarted)"
    unfolding call_tool_def by (rule tool_stays_in_tenant [OF reach prod.collapse [symmetric], THEN conjunct1])
  moreover have "foreign (caller_prefix (agent_of ''a'' [])) (ts_db restarted) = filter (\<lambda>b. bd_id b = ''B'') (tk_boards sample_boards)"
    by code_simp
  ultimately show ?thesis by simp
qed

text \<open>A board the tool shows.\<close>

definition shown :: "(exn + tool_result) \<times> tool_state \<Rightarrow> task_list" where
  "shown r = (case fst r of Inr (BoardResult m (Some b)) \<Rightarrow> b | _ \<Rightarrow> board_of no_tasks (hd (tk_boards sample_boards)))"

definition said :: "(exn + tool_result) \<times> tool_state \<Rightarrow> string" where
  "said r = (case fst r of Inr (BoardResult m b) \<Rightarrow> m | Inr (ErrResult m) \<Rightarrow> m | Inl e \<Rightarrow> [])"

theorem one_task_at_a_time_witness:
  "length (filter (\<lambda>i. it_status i = IN_PROGRESS) (tl_tasks (shown (call_tool (agent_of ''a'' []) (StartTask None) restarted)))) \<le> 1 \<and>
   map it_status (tl_tasks (shown (call_tool (agent_of ''a'' []) (StartTask None) restarted))) = [IN_PROGRESS, PLANNED]"
proof
  let ?r = "call_tool (agent_of ''a'' []) (StartTask None) restarted"
  show "length (filter (\<lambda>i. it_status i = IN_PROGRESS) (tl_tasks (shown ?r))) \<le> 1"
  proof (rule one_task_at_a_time [where s = restarted and msg = "''Started: plan''" and t = "snd ?r" and c = "agent_of ''a'' []"
        and thread_id = None and tid = None and board_id = "''N''" and ids = "sample_ids ''N''" and now = "''2026''"])
    show "task_reach (ts_db restarted)" using sample_boards_reach by simp
    show "\<forall>b\<in>set (tk_boards (ts_db restarted)). bd_id b \<noteq> []" by code_simp
    show "execute_tool ''N'' (sample_ids ''N'') ''2026'' (agent_of ''a'' []) None (StartTask None) restarted =
      (Inr (BoardResult ''Started: plan'' (Some (shown ?r))), snd ?r)" by code_simp
  qed
  show "map it_status (tl_tasks (shown ?r)) = [IN_PROGRESS, PLANNED]" by code_simp
qed

section \<open>What the documentation says otherwise\<close>

text \<open>
  An id that the caller gives is taken whatever the status of its task: a task that has succeeded, which is
  documented as terminal, is started again.
\<close>

theorem terminal_task_restarts:
  "let a = agent_of ''a'' []; s1 = snd (call_tool a (StartTask None) restarted); s2 = snd (call_tool a (CompleteTask None) s1);
     s3 = snd (call_tool a (StartTask (Some ''A0'')) s2) in
   status_of ''A0'' s2 = Some SUCCEEDED \<and> status_of ''A0'' s3 = Some IN_PROGRESS"
  by code_simp

text \<open>
  After a restart the pointers are gone, and a subagent that has a board of its own is given the one of the root
  agent.
\<close>

theorem subagent_takes_root_board:
  "let s = snd (call_tool (agent_of ''a'' ''sub'') (StartTask None) restarted) in
   status_of ''A0'' s = Some IN_PROGRESS \<and> status_of ''S0'' s = Some PLANNED"
  by code_simp

text \<open>
  The pointers are kept by conversation and agent without the tenant: once an agent of one tenant has worked on
  its board, that of another tenant in a conversation of the same name no longer finds its own.
\<close>

theorem pointer_of_another_tenant:
  "said (call_tool (agent_of ''b'' []) (StartTask None) restarted) = ''Started: plan'' \<and>
   said (call_tool (agent_of ''b'' []) (StartTask None) (snd (call_tool (agent_of ''a'' []) (StartTask None) restarted))) =
     ''No planned or blocked tasks to start.''"
proof
  show "said (call_tool (agent_of ''b'' []) (StartTask None) restarted) = ''Started: plan''" by code_simp
  show "said (call_tool (agent_of ''b'' []) (StartTask None) (snd (call_tool (agent_of ''a'' []) (StartTask None) restarted))) =
     ''No planned or blocked tasks to start.''" by code_simp
qed

end
