(* ===== verification/Invoker.thy ===== *)
theory Invoker
  imports Context_Wait
begin

text \<open>
  Tools and how a call to one is enforced: the contracts of \<open>tools/protocols.py\<close>, \<open>tools/approval.py\<close> and
  \<open>tools/chain.py\<close>, the registry of \<open>tools/toolbox.py\<close>, and \<open>runtime/tool_invoker.py\<close>. A tool, an approval
  handler and a blob store are arguments; an action under a time limit is given the limit and raises
  \<open>TimeoutError\<close> when it was cut short.
\<close>

section \<open>Risk\<close>

datatype tool_risk = SafeRisk | HighRisk | CriticalRisk

fun risk_rank :: "tool_risk \<Rightarrow> nat" where
  "risk_rank SafeRisk = 0"
| "risk_rank HighRisk = 1"
| "risk_rank CriticalRisk = 2"

fun risk_value :: "tool_risk \<Rightarrow> string" where
  "risk_value SafeRisk = ''safe''"
| "risk_value HighRisk = ''high''"
| "risk_value CriticalRisk = ''critical''"

instantiation tool_risk :: linorder
begin

definition less_eq_tool_risk :: "tool_risk \<Rightarrow> tool_risk \<Rightarrow> bool" where
  "a \<le> b \<longleftrightarrow> risk_rank a \<le> risk_rank b"

definition less_tool_risk :: "tool_risk \<Rightarrow> tool_risk \<Rightarrow> bool" where
  "a < b \<longleftrightarrow> risk_rank a < risk_rank b"

instance
proof
  fix a b :: tool_risk
  show "a \<le> b \<Longrightarrow> b \<le> a \<Longrightarrow> a = b" by (cases a; cases b) (simp_all add: less_eq_tool_risk_def)
qed (auto simp: less_eq_tool_risk_def less_tool_risk_def)

end

section \<open>Policy, calls and records\<close>

record chain_policy =
  pl_max_tool_calls :: int
  pl_call_timeout_s :: rat
  pl_approval_timeout_s :: rat
  pl_total_timeout_s :: rat
  pl_max_inline_result_bytes :: int
  pl_max_risk_unapproved :: tool_risk

definition chain_defaults :: chain_policy where
  "chain_defaults = \<lparr>pl_max_tool_calls = 50, pl_call_timeout_s = 60, pl_approval_timeout_s = 55, pl_total_timeout_s = 300,
     pl_max_inline_result_bytes = 4096, pl_max_risk_unapproved = SafeRisk\<rparr>"

definition direct_call_policy :: chain_policy where
  "direct_call_policy = chain_defaults\<lparr>pl_max_tool_calls := 10000, pl_call_timeout_s := 600, pl_approval_timeout_s := 300,
     pl_total_timeout_s := 3600\<rparr>"

record tool_call_request =
  tc_name :: string
  tc_arguments :: "(string \<times> json) list"
  tc_call_id :: string

record tool_execution_result =
  te_content :: "content list"
  te_is_error :: bool
  te_structured :: json

record call_record =
  ca_tool :: string
  ca_args_digest :: string
  ca_status :: string
  ca_duration_ms :: int

text \<open>\<open>InvokerSession\<close>: what a chain of calls, or a run's calls, have in common.\<close>

record session =
  ss_call_count :: int
  ss_trace :: "call_record list"
  ss_pinned_refs :: "string list"

definition open_session :: session where
  "open_session = \<lparr>ss_call_count = 0, ss_trace = [], ss_pinned_refs = []\<rparr>"

text \<open>An action with the session at hand: it is the first part of what the run's own code keeps.\<close>

type_synonym ('b, 'y, 'a) bench = "('b, session \<times> 'y, 'a) capability"

definition sessionA :: "(session \<Rightarrow> session) \<Rightarrow> ('b, 'y, unit) bench" where
  "sessionA f = execA (\<lambda>(j, d, b, ss, y). (j, d, b, f ss, y))"

definition session_of :: "journal \<times> ('b, session \<times> 'y) world \<Rightarrow> session" where
  "session_of s = (case s of (j, d, b, ss, y) \<Rightarrow> ss)"

section \<open>Approval\<close>

datatype approval_decision = APPROVED | DENIED | SKIPPED | MODIFIED

fun decision_value :: "approval_decision \<Rightarrow> string" where
  "decision_value APPROVED = ''approved''"
| "decision_value DENIED = ''denied''"
| "decision_value SKIPPED = ''skipped''"
| "decision_value MODIFIED = ''modified''"

record approval_result =
  av_decision :: approval_decision
  av_modified_args :: "(string \<times> json) list option"
  av_decided_by :: "string option"
  av_decided_at :: "seconds option"
  av_reason :: "string option"

record approval_request =
  aq_call :: tool_call_request
  aq_risk :: tool_risk
  aq_agent :: actor
  aq_run_id :: string
  aq_context :: json

definition invalid_value :: "string \<Rightarrow> exn" where
  "invalid_value msg = PyExn ''ValidationError'' msg"

definition args_only_when_modified :: "approval_result \<Rightarrow> exn + approval_result" where
  "args_only_when_modified r =
     (if av_decision r = MODIFIED \<and> av_modified_args r = None then Inl (invalid_value ''a MODIFIED decision needs `modified_args`'')
      else if av_decision r \<noteq> MODIFIED \<and> av_modified_args r \<noteq> None
      then Inl (invalid_value ''`modified_args` is only meaningful for a MODIFIED decision'') else Inr r)"

text \<open>\<open>ApprovalResult.from_response\<close>; \<open>parse_time\<close> is \<open>datetime.fromisoformat\<close>.\<close>

definition truthy_at :: "string \<Rightarrow> json \<Rightarrow> bool" where
  "truthy_at k j \<longleftrightarrow> (case jget k j of None \<Rightarrow> False | Some v \<Rightarrow> \<not> falsy v)"

definition decided_time :: "(string \<Rightarrow> seconds option) \<Rightarrow> json option \<Rightarrow> exn + seconds option" where
  "decided_time parse_time v = (case v of None \<Rightarrow> Inr None
     | Some x \<Rightarrow> (case x of JTime t \<Rightarrow> Inr (Some t)
         | JStr s \<Rightarrow> (case parse_time s of None \<Rightarrow> Inl (PyExn ''ValueError'' s) | Some t \<Rightarrow> Inr (Some t))
         | _ \<Rightarrow> Inr None))"

definition optional_text :: "codec \<Rightarrow> json option \<Rightarrow> string option option" where
  "optional_text X v = (case v of None \<Rightarrow> Some None | Some x \<Rightarrow> nullable (as_text X) x)"

definition object_items :: "json \<Rightarrow> (string \<times> json) list option" where
  "object_items j = (case j of JObj kvs \<Rightarrow> Some kvs | _ \<Rightarrow> None)"

definition response_decision :: "json \<Rightarrow> approval_decision" where
  "response_decision j =
     (if truthy_at ''session_disconnected'' j \<or> truthy_at ''timed_out'' j then DENIED
      else if jget ''action'' j = Some (JStr ''modify'') then MODIFIED
      else if jget ''action'' j = Some (JStr ''approve'') then APPROVED else DENIED)"

definition response_args :: "json \<Rightarrow> (string \<times> json) list option option" where
  "response_args j = (if response_decision j \<noteq> MODIFIED then Some None
     else if truthy_at ''modified_arguments'' j then map_option Some (Option.bind (jget ''modified_arguments'' j) object_items)
     else Some (Some []))"

definition from_response :: "codec \<Rightarrow> (string \<Rightarrow> seconds option) \<Rightarrow> json \<Rightarrow> exn + approval_result" where
  "from_response X parse_time j = (case as_object j of None \<Rightarrow> Inl (PyExn ''AttributeError'' ''get'')
     | Some _ \<Rightarrow> (case decided_time parse_time (jget ''decided_at'' j) of Inl e \<Rightarrow> Inl e
       | Inr due \<Rightarrow>
           (case (optional_text X (jget ''decided_by'' j), optional_text X (if truthy_at ''reason'' j then jget ''reason'' j else None), response_args j) of
              (Some who, Some why, Some args) \<Rightarrow> args_only_when_modified \<lparr>av_decision = response_decision j, av_modified_args = args,
                 av_decided_by = who, av_decided_at = due, av_reason = why\<rparr>
            | _ \<Rightarrow> Inl (invalid_value ''ApprovalResult''))))"

definition approval_signal :: "string \<Rightarrow> string" where
  "approval_signal rid = ''hitl:'' @ rid"

text \<open>A handler: whether it waits for a signal, and what it answers within a time limit.\<close>

record ('b, 'y) approval_handler =
  ah_suspends :: bool
  ah_request :: "rat option \<Rightarrow> approval_request \<Rightarrow> ('b, 'y, approval_result) bench"

definition durable_approval :: "('b, 'y) approval_handler" where
  "durable_approval = \<lparr>ah_suspends = True, ah_request = (\<lambda>_ _. raiseA (PyExn ''RuntimeError''
     ''DurableApproval waits for a signal (runtime.decide); it is never asked directly''))\<rparr>"

definition plain_decision :: "approval_decision \<Rightarrow> approval_result" where
  "plain_decision d = \<lparr>av_decision = d, av_modified_args = None, av_decided_by = None, av_decided_at = None, av_reason = None\<rparr>"

definition auto_approve :: "(nat \<Rightarrow> seconds) \<Rightarrow> tool_risk \<Rightarrow> string \<Rightarrow> ('b, 'y) approval_handler" where
  "auto_approve clock up_to by = \<lparr>ah_suspends = False, ah_request = (\<lambda>_ q. bindA (storeA (drawT clock)) (\<lambda>now.
     let allowed = aq_risk q \<le> up_to in
     retA ((plain_decision (if allowed then APPROVED else DENIED))\<lparr>av_decided_by := Some by, av_decided_at := Some now,
       av_reason := Some (''risk '' @ risk_value (aq_risk q) @ '' is '' @ (if allowed then ''within'' else ''above'') @ '' '' @ risk_value up_to)\<rparr>)))\<rparr>"

text \<open>What an agent may declare: a handler, or a bare callback that says yes or no.\<close>

datatype ('b, 'y) approval_port =
    Handler "('b, 'y) approval_handler"
  | Callback "rat option \<Rightarrow> string \<Rightarrow> (string \<times> json) list \<Rightarrow> ('b, 'y, bool) bench"

definition callback_approval :: "(rat option \<Rightarrow> string \<Rightarrow> (string \<times> json) list \<Rightarrow> ('b, 'y, bool) bench) \<Rightarrow> ('b, 'y) approval_handler" where
  "callback_approval f = \<lparr>ah_suspends = False, ah_request = (\<lambda>limit q.
     bindA (f limit (tc_name (aq_call q)) (tc_arguments (aq_call q))) (\<lambda>yes. retA (plain_decision (if yes then APPROVED else DENIED))))\<rparr>"

fun handler_of :: "('b, 'y) approval_port \<Rightarrow> ('b, 'y) approval_handler" where
  "handler_of (Handler h) = h"
| "handler_of (Callback f) = callback_approval f"

section \<open>Tools\<close>

text \<open>An argument as a tool receives it: what the caller sent, or the bytes a reference stood for.\<close>

datatype argument = Sent json | Fetched string

text \<open>
  A tool by its attributes: \<open>to_described\<close> and \<open>to_has_specs\<close> say that \<open>description\<close> is a text and
  \<open>provider_specs\<close> a dict; \<open>to_handle_call\<close> is whether the attribute is there, and callable.
\<close>

record ('b, 'y) tool =
  to_name :: string
  to_described :: bool
  to_has_specs :: bool
  to_call_types :: "string list option"
  to_handle_call :: "bool option"
  to_risk :: "tool_risk option"
  to_idempotent :: "bool option"
  to_concurrency_safe :: bool
  to_suspends :: bool
  to_classify_risk :: "((string \<times> json) list \<Rightarrow> ('b, 'y, tool_risk \<times> string option) bench) option"
  to_execute :: "rat option \<Rightarrow> (string \<times> argument) list \<Rightarrow> ('b, 'y, tool_execution_result) bench"

definition is_provider_defined_tool :: "('b, 'y) tool \<Rightarrow> bool" where
  "is_provider_defined_tool t \<longleftrightarrow> to_name t \<noteq> [] \<and> to_described t \<and> to_has_specs t \<and>
     (case to_call_types t of None \<Rightarrow> False | Some cs \<Rightarrow> \<forall>c\<in>set cs. c \<noteq> []) \<and> to_handle_call t = Some True"

definition is_hosted_tool :: "('b, 'y) tool \<Rightarrow> bool" where
  "is_hosted_tool t \<longleftrightarrow> to_name t \<noteq> [] \<and> to_described t \<and> to_has_specs t \<and> to_handle_call t = None"

definition is_concurrency_safe :: "('b, 'y) tool option \<Rightarrow> bool" where
  "is_concurrency_safe t = (case t of None \<Rightarrow> False | Some t \<Rightarrow> to_concurrency_safe t)"

type_synonym ('b, 'y) toolbox = "(string \<times> ('b, 'y) tool) list"

definition check_declaration :: "('b, 'y) tool \<Rightarrow> exn + unit" where
  "check_declaration t = (if is_hosted_tool t \<or> (to_risk t \<noteq> None \<and> to_idempotent t \<noteq> None) then Inr ()
     else Inl (KernelExn ToolDeclarationError (to_name t) None))"

definition toolbox_add :: "('b, 'y) tool \<Rightarrow> ('b, 'y) toolbox \<Rightarrow> exn + ('b, 'y) toolbox" where
  "toolbox_add t B = (case check_declaration t of Inl e \<Rightarrow> Inl e | Inr _ \<Rightarrow> Inr (AList.update (to_name t) t B))"

definition toolbox_get :: "('b, 'y) toolbox \<Rightarrow> string \<Rightarrow> ('b, 'y) tool option" where
  "toolbox_get B name = map_of B name"

definition toolbox_all :: "('b, 'y) toolbox \<Rightarrow> ('b, 'y) tool list" where
  "toolbox_all B = map snd B"

definition toolbox_names :: "('b, 'y) toolbox \<Rightarrow> string list" where
  "toolbox_names B = map fst B"

definition toolbox_by_risk :: "tool_risk \<Rightarrow> ('b, 'y) toolbox \<Rightarrow> ('b, 'y) tool list" where
  "toolbox_by_risk r B = filter (\<lambda>t. to_risk t = Some r) (map snd B)"

section \<open>The invoker\<close>

record 'b blob_store =
  bs_store :: "string \<Rightarrow> string \<Rightarrow> ('b, exn, string) act"
  bs_resolve :: "string \<Rightarrow> ('b, exn, string) act"
  bs_pin :: "string \<Rightarrow> ('b, exn, unit) act"
  bs_unpin :: "string \<Rightarrow> ('b, exn, unit) act"

text \<open>\<open>ti_millis\<close> are the readings of the monotonic clock, \<open>ti_parse_time\<close> is \<open>datetime.fromisoformat\<close>.\<close>

record ('b, 'y) tool_invoker =
  ti_registry :: "('b, 'y) toolbox"
  ti_approval :: "('b, 'y) approval_handler option"
  ti_store :: "'b blob_store option"
  ti_policy :: chain_policy
  ti_codec :: codec
  ti_millis :: "nat \<Rightarrow> int"
  ti_parse_time :: "string \<Rightarrow> seconds option"

definition blobA :: "('b, exn, 'a) act \<Rightarrow> ('b, 'y, 'a) bench" where
  "blobA m = worldA (in_blobs m)"

definition failed_call :: "string \<Rightarrow> string \<Rightarrow> invocation" where
  "failed_call st t = \<lparr>iv_status = st, iv_text = t, iv_structured = JObj [], iv_artifact_ref = None, iv_files = [], iv_media = []\<rparr>"

definition shown_tool :: "string \<Rightarrow> string" where
  "shown_tool name = ''Tool '' @ quoted name"

text \<open>The gate of the registry: why a tool may not be called here.\<close>

definition type_gate :: "string \<Rightarrow> ('b, 'y) tool option \<Rightarrow> string option" where
  "type_gate name t = (case t of None \<Rightarrow> Some (''Unknown tool: '' @ quoted name)
     | Some t \<Rightarrow>
         if is_hosted_tool t then Some (shown_tool name @ '' is provider-hosted and cannot be called from a chain.'')
         else if is_provider_defined_tool t then Some (shown_tool name @ '' is provider-defined and cannot be called from a chain.'')
         else if name = ''tool_chain'' then Some ''Recursive tool_chain calls are not allowed.'' else None)"

definition is_timeout :: "exn \<Rightarrow> bool" where
  "is_timeout e = (case e of PyExn n _ \<Rightarrow> n = ''TimeoutError'' | _ \<Rightarrow> False)"

definition or_timed_out :: "('s, exn, 'a) act \<Rightarrow> 'a \<Rightarrow> ('s, exn, 'a) act" where
  "or_timed_out m a = catchA m (\<lambda>e. if is_timeout e then retA a else raiseA e)"

definition tool_risk_of :: "('b, 'y) tool \<Rightarrow> (string \<times> json) list \<Rightarrow> ('b, 'y, tool_risk \<times> string option) bench" where
  "tool_risk_of t args = (case to_classify_risk t of Some classify \<Rightarrow> classify args
     | None \<Rightarrow> (case to_risk t of Some r \<Rightarrow> retA (r, None) | None \<Rightarrow> raiseA (PyExn ''AttributeError'' ''risk'')))"

definition or_blank :: "string option \<Rightarrow> string" where
  "or_blank x = (case x of None \<Rightarrow> [] | Some s \<Rightarrow> s)"

definition journal_decision ::
  "('b, session \<times> 'y) run_context option \<Rightarrow> string \<Rightarrow> string \<Rightarrow> tool_risk \<Rightarrow> approval_result \<Rightarrow> ('b, 'y, unit) bench" where
  "journal_decision C rid name risk r = (case C of None \<Rightarrow> retA ()
     | Some c \<Rightarrow> bindA (ctx_log_once c ''approval.decided'' (Some (JObj [(''request_id'', JStr rid), (''tool_name'', JStr name),
         (''risk'', JStr (risk_value risk)), (''decision'', JStr (decision_value (av_decision r))),
         (''decided_by'', jopt_str (av_decided_by r)),
         (''decided_at'', case av_decided_at r of None \<Rightarrow> JNull | Some t \<Rightarrow> JStr (cx_time (ho_codec (rc_host c)) t)),
         (''reason'', jopt_str (av_reason r)), (''modified'', JBool (av_decision r = MODIFIED))]))) (\<lambda>_. retA ()))"

text \<open>A decision that waits for a signal, and one asked for at once; \<open>Inl\<close> is that nobody answered in time.\<close>

definition decide_by_signal ::
  "('b, 'y) tool_invoker \<Rightarrow> ('b, session \<times> 'y) run_context \<Rightarrow> tool_call_request \<Rightarrow> tool_risk \<Rightarrow> string option
     \<Rightarrow> ('b, 'y, invocation + string \<times> approval_result) bench" where
  "decide_by_signal I c call risk summary =
     bindA (ctx_uuid c) (\<lambda>rid.
     thenA (suppressA (bindA (ctx_log_once c ''approval.requested'' (Some (JObj [(''request_id'', JStr rid),
              (''tool_name'', JStr (tc_name call)), (''args'', JObj (tc_arguments call)), (''risk'', JStr (risk_value risk)),
              (''summary'', JStr (or_blank summary))]))) (\<lambda>_. retA ())))
    (bindA (ctx_sleep_until_signal c (approval_signal rid)) (\<lambda>payload.
     bindA (liftA (from_response (ti_codec I) (ti_parse_time I) payload)) (\<lambda>r. retA (Inr (rid, r))))))"

definition request_of :: "tool_call_request \<Rightarrow> tool_risk \<Rightarrow> string option \<Rightarrow> approval_request" where
  "request_of call risk summary = \<lparr>aq_call = call, aq_risk = risk, aq_agent = Actor ''internal'' (tc_call_id call),
     aq_run_id = tc_call_id call, aq_context = JObj [(''source'', JStr ''tool_chain''), (''summary'', JStr (or_blank summary))]\<rparr>"

definition late_approval :: "('b, 'y) tool_invoker \<Rightarrow> string \<Rightarrow> invocation" where
  "late_approval I name = failed_call ''denied'' (''Approval for '' @ quoted name @ '' timed out after '' @
     cx_float (ti_codec I) (pl_approval_timeout_s (ti_policy I)) @
     ''s. Call this tool directly outside the chain for interactive approval.'')"

definition decide_at_once ::
  "('b, 'y) tool_invoker \<Rightarrow> ('b, 'y) approval_handler \<Rightarrow> tool_call_request \<Rightarrow> tool_risk \<Rightarrow> string option
     \<Rightarrow> ('b, 'y, invocation + string \<times> approval_result) bench" where
  "decide_at_once I H call risk summary =
     or_timed_out (bindA (ah_request H (Some (pl_approval_timeout_s (ti_policy I))) (request_of call risk summary))
         (\<lambda>r. retA (Inr (tc_call_id call, r))))
       (Inl (late_approval I (tc_name call)))"

text \<open>The answer, put on record and then followed: \<open>Inr\<close> is the call that may go ahead.\<close>

definition follow_decision ::
  "('b, session \<times> 'y) run_context option \<Rightarrow> tool_call_request \<Rightarrow> tool_risk \<Rightarrow> invocation + string \<times> approval_result
     \<Rightarrow> ('b, 'y, invocation + tool_call_request) bench" where
  "follow_decision C call risk reply = (case reply of Inl iv \<Rightarrow> retA (Inl iv)
     | Inr (rid, r) \<Rightarrow> thenA (journal_decision C rid (tc_name call) risk r)
         (case av_decision r of
            MODIFIED \<Rightarrow> retA (Inr (call\<lparr>tc_arguments := (case av_modified_args r of None \<Rightarrow> [] | Some a \<Rightarrow> a)\<rparr>))
          | APPROVED \<Rightarrow> retA (Inr call)
          | _ \<Rightarrow> retA (Inl (failed_call ''denied'' (''Approval denied for tool '' @ quoted (tc_name call) @ ''.'')))))"

definition no_handler :: "string \<Rightarrow> tool_risk \<Rightarrow> invocation" where
  "no_handler name risk = failed_call ''denied'' (shown_tool name @ '' has risk='' @ risk_value risk @
     '' which requires approval, but no ApprovalHandler is configured. Call this tool directly outside the chain.'')"

definition decide ::
  "('b, 'y) tool_invoker \<Rightarrow> ('b, session \<times> 'y) run_context option \<Rightarrow> ('b, 'y) approval_handler \<Rightarrow> tool_call_request \<Rightarrow> tool_risk
     \<Rightarrow> string option \<Rightarrow> ('b, 'y, invocation + string \<times> approval_result) bench" where
  "decide I C H call risk summary = (case C of
       Some c \<Rightarrow> if ah_suspends H then decide_by_signal I c call risk summary else decide_at_once I H call risk summary
     | None \<Rightarrow> decide_at_once I H call risk summary)"

definition approval_gate ::
  "('b, 'y) tool_invoker \<Rightarrow> ('b, session \<times> 'y) run_context option \<Rightarrow> ('b, 'y) tool \<Rightarrow> tool_call_request
     \<Rightarrow> ('b, 'y, invocation + tool_call_request) bench" where
  "approval_gate I C t call = bindA (tool_risk_of t (tc_arguments call)) (\<lambda>(risk, summary).
     if risk \<le> pl_max_risk_unapproved (ti_policy I) then retA (Inr call)
     else (case ti_approval I of None \<Rightarrow> retA (Inl (no_handler (tc_name call) risk))
       | Some H \<Rightarrow> bindA (decide I C H call risk summary) (follow_decision C call risk)))"

section \<open>Arguments and results\<close>

definition artifact_ref :: "codec \<Rightarrow> json \<Rightarrow> string option" where
  "artifact_ref X v = map_option (py_str X) (jget ''$artifact'' v)"

text \<open>An argument that names an artifact becomes its bytes, or stays what it was when it cannot be fetched.\<close>

definition fetch_argument :: "'b blob_store \<Rightarrow> json \<Rightarrow> string \<Rightarrow> ('b, 'y, argument) bench" where
  "fetch_argument B v ref = catchA (bindA (blobA (bs_resolve B ref)) (\<lambda>bytes. retA (Fetched bytes)))
     (\<lambda>e. if is_exception e then retA (Sent v) else raiseA e)"

fun resolve_inbound_refs :: "codec \<Rightarrow> 'b blob_store option \<Rightarrow> (string \<times> json) list \<Rightarrow> ('b, 'y, (string \<times> argument) list) bench" where
  "resolve_inbound_refs X B [] = retA []"
| "resolve_inbound_refs X B ((k, v) # kvs) = bindA (case (B, artifact_ref X v) of
       (Some b, Some ref) \<Rightarrow> fetch_argument b v ref | _ \<Rightarrow> retA (Sent v)) (\<lambda>a.
     bindA (resolve_inbound_refs X B kvs) (\<lambda>rest. retA ((k, a) # rest)))"

text \<open>The length of a text in UTF-8; the ellipsis and the dash take three bytes.\<close>

definition utf8_bytes :: "char \<Rightarrow> nat" where
  "utf8_bytes c = (let n = of_char c :: nat in if n < 128 then 1 else if n = 133 \<or> n = 151 then 3 else 2)"

definition utf8_length :: "string \<Rightarrow> nat" where
  "utf8_length s = sum_list (map utf8_bytes s)"

definition media_of :: "content list \<Rightarrow> media_block list" where
  "media_of bs = List.map_filter (\<lambda>b. case b of MediaBlock m \<Rightarrow> Some m | _ \<Rightarrow> None) bs"

definition is_media :: "content \<Rightarrow> bool" where
  "is_media b = (case b of MediaBlock _ \<Rightarrow> True | _ \<Rightarrow> False)"

definition result_text :: "codec \<Rightarrow> content list \<Rightarrow> string" where
  "result_text X bs = content_blocks_to_str X (filter (\<lambda>b. \<not> is_media b) bs)"

text \<open>Bytes are stored, pinned, and remembered by the session.\<close>

definition store_pinned :: "'b blob_store \<Rightarrow> string \<Rightarrow> string \<Rightarrow> ('b, 'y, string) bench" where
  "store_pinned B bytes ctype = bindA (blobA (bs_store B bytes ctype)) (\<lambda>ref.
     thenA (blobA (bs_pin B ref)) (thenA (sessionA (\<lambda>ss. ss\<lparr>ss_pinned_refs := ss_pinned_refs ss @ [ref]\<rparr>)) (retA ref)))"

definition chain_file_of :: "string \<Rightarrow> nat \<Rightarrow> media_block \<Rightarrow> string \<Rightarrow> chain_file" where
  "chain_file_of name n m ref = \<lparr>cf_path = ''/workspace/media/'' @ name @ ''_'' @ show_nat n @ ''.png'',
     cf_media_type = media_type_of m, cf_artifact_ref = ref\<rparr>"

fun offload_media :: "'b blob_store \<Rightarrow> string \<Rightarrow> nat \<Rightarrow> media_block list \<Rightarrow> ('b, 'y, chain_file list) bench" where
  "offload_media B name n [] = retA []"
| "offload_media B name n (m # ms) = (case mb_data m of None \<Rightarrow> offload_media B name n ms
     | Some d \<Rightarrow> bindA (store_pinned B d (media_type_of m)) (\<lambda>ref.
         bindA (offload_media B name (Suc n) ms) (\<lambda>fs. retA (chain_file_of name n m ref # fs))))"

definition shape_result :: "('b, 'y) tool_invoker \<Rightarrow> string \<Rightarrow> tool_execution_result \<Rightarrow> ('b, 'y, invocation) bench" where
  "shape_result I name r =
     (let media = media_of (te_content r); t = result_text (ti_codec I) (te_content r);
          cap = pl_max_inline_result_bytes (ti_policy I);
          answer = (\<lambda>t ref fs. \<lparr>iv_status = if te_is_error r then ''error'' else ''ok'', iv_text = t,
            iv_structured = te_structured r, iv_artifact_ref = ref, iv_files = fs, iv_media = media\<rparr>) in
      bindA (case ti_store I of None \<Rightarrow> retA [] | Some B \<Rightarrow> offload_media B name 0 media) (\<lambda>fs.
      case ti_store I of None \<Rightarrow> retA (answer t None fs)
      | Some B \<Rightarrow> if int (utf8_length t) \<le> cap then retA (answer t None fs)
          else bindA (store_pinned B t ''text/plain'') (\<lambda>ref. retA (answer (take (nat cap) t @ [CHR 0x85]) (Some ref) fs))))"

section \<open>One call\<close>

definition ctx_checked :: "('b, session \<times> 'y) run_context option \<Rightarrow> ('b, 'y, unit) bench" where
  "ctx_checked C = (case C of None \<Rightarrow> retA () | Some c \<Rightarrow> ctx_check c)"

definition tool_timed_out :: "('b, 'y) tool_invoker \<Rightarrow> string \<Rightarrow> invocation" where
  "tool_timed_out I name = failed_call ''error'' (shown_tool name @ '' timed out after '' @
     cx_float (ti_codec I) (pl_call_timeout_s (ti_policy I)) @ ''s.'')"

text \<open>The tool itself, under the time limit unless it says that it suspends.\<close>

definition run_tool :: "('b, 'y) tool_invoker \<Rightarrow> ('b, 'y) tool \<Rightarrow> string \<Rightarrow> (string \<times> argument) list
    \<Rightarrow> ('b, 'y, invocation + tool_execution_result) bench" where
  "run_tool I t name args =
     (if to_suspends t then bindA (to_execute t None args) (\<lambda>r. retA (Inr r))
      else or_timed_out (bindA (to_execute t (Some (pl_call_timeout_s (ti_policy I))) args) (\<lambda>r. retA (Inr r)))
             (Inl (tool_timed_out I name)))"

text \<open>
  What is told to a listener while a call goes on. A listener that fails is not heard of; \<open>sink\<close> is given
  the step, its text, its number, the agent and the run.
\<close>

type_synonym ('b, 'y) progress_sink = "string \<Rightarrow> string \<Rightarrow> int \<Rightarrow> actor \<Rightarrow> string \<Rightarrow> ('b, 'y, unit) bench"

definition emit_progress ::
  "('b, 'y) progress_sink option \<Rightarrow> ('b, session \<times> 'y) run_context option \<Rightarrow> string \<Rightarrow> string \<Rightarrow> ('b, 'y, unit) bench" where
  "emit_progress sink C step text = (case sink of None \<Rightarrow> retA ()
     | Some f \<Rightarrow> bindA (queryA (\<lambda>s. ss_call_count (session_of s))) (\<lambda>n. suppressA (case C of
         None \<Rightarrow> f step text n (Actor ''internal'' ''tool_invoker'') []
       | Some c \<Rightarrow> f step text n (rc_agent c) (rc_run c))))"

definition go_ahead ::
  "('b, 'y) tool_invoker \<Rightarrow> ('b, session \<times> 'y) run_context option \<Rightarrow> ('b, 'y) progress_sink option \<Rightarrow> ('b, 'y) tool
     \<Rightarrow> string \<Rightarrow> tool_call_request \<Rightarrow> ('b, 'y, invocation) bench" where
  "go_ahead I C sink t name call =
     bindA (resolve_inbound_refs (ti_codec I) (ti_store I) (tc_arguments call)) (\<lambda>args.
     thenA (ctx_checked C)
    (thenA (emit_progress sink C ''tool_call'' (''Executing tool '' @ name))
    (bindA (run_tool I t name args) (\<lambda>r. case r of Inl iv \<Rightarrow> retA iv
      | Inr res \<Rightarrow> thenA (emit_progress sink C ''tool_result'' (''Tool '' @ name @ '' finished'')) (shape_result I name res)))))"

definition chain_exhausted :: "('b, 'y) tool_invoker \<Rightarrow> invocation" where
  "chain_exhausted I = failed_call ''error'' (''Chain budget exhausted: max_tool_calls='' @ show_int (pl_max_tool_calls (ti_policy I)))"

definition dispatch ::
  "('b, 'y) tool_invoker \<Rightarrow> ('b, session \<times> 'y) run_context option \<Rightarrow> ('b, 'y) progress_sink option \<Rightarrow> tool_call_request
     \<Rightarrow> ('b, 'y, invocation) bench" where
  "dispatch I C sink call = (let t = toolbox_get (ti_registry I) (tc_name call) in
     case type_gate (tc_name call) t of Some why \<Rightarrow> retA (failed_call ''error'' why)
     | None \<Rightarrow> bindA (approval_gate I C (the t) call) (\<lambda>g. case g of Inl iv \<Rightarrow> retA iv
         | Inr call' \<Rightarrow> go_ahead I C sink (the t) (tc_name call) call'))"

definition invoke_inner ::
  "('b, 'y) tool_invoker \<Rightarrow> ('b, session \<times> 'y) run_context option \<Rightarrow> ('b, 'y) progress_sink option \<Rightarrow> tool_call_request
     \<Rightarrow> ('b, 'y, invocation) bench" where
  "invoke_inner I C sink call =
     bindA (queryA (\<lambda>s. ss_call_count (session_of s))) (\<lambda>n.
     if pl_max_tool_calls (ti_policy I) \<le> n then retA (chain_exhausted I)
     else thenA (sessionA (\<lambda>ss. ss\<lparr>ss_call_count := ss_call_count ss + 1\<rparr>)) (dispatch I C sink call))"

text \<open>\<open>json.dumps(arguments, sort_keys=True, default=str)\<close>, and its digest.\<close>

fun json_sorted :: "codec \<Rightarrow> json \<Rightarrow> string" where
  "json_sorted X (JList js) = ''['' @ join_with '', '' (map (json_sorted X) js) @ '']''"
| "json_sorted X (JObj kvs) = ''{'' @ join_with '', '' (map (\<lambda>(k, v). json_string k @ '': '' @ v)
     (sort_key fst (map (\<lambda>(k, v). (k, json_sorted X v)) kvs))) @ ''}''"
| "json_sorted X j = json_dumps X j"

definition call_digest :: "codec \<Rightarrow> (string \<times> json) list \<Rightarrow> string" where
  "call_digest X args = take 16 (cx_sha256 X (json_sorted X (JObj args)))"

definition exn_name :: "exn \<Rightarrow> string" where
  "exn_name e = (case e of KernelExn c _ _ \<Rightarrow> class_name c | PyExn n _ \<Rightarrow> n | SuspendInterrupt _ _ _ \<Rightarrow> ''SuspendInterrupt''
     | CancellationError _ \<Rightarrow> ''CancellationError'' | LeaseLostError _ _ \<Rightarrow> ''LeaseLostError'' | AsyncioCancelled \<Rightarrow> ''CancelledError'')"

definition invoker_error :: "exn \<Rightarrow> invocation" where
  "invoker_error e = failed_call ''error'' (''Invoker error: '' @ exn_name e @ '': '' @ exn_text e)"

text \<open>The \<open>finally\<close> clause: a record of the call, whose status stays ok when the call was interrupted.\<close>

definition trace_call :: "('b, 'y) tool_invoker \<Rightarrow> tool_call_request \<Rightarrow> int \<Rightarrow> exn + invocation \<Rightarrow> ('b, 'y, unit) bench" where
  "trace_call I call start r = bindA (storeA (drawT (ti_millis I))) (\<lambda>now.
     sessionA (\<lambda>ss. ss\<lparr>ss_trace := ss_trace ss @ [\<lparr>ca_tool = tc_name call, ca_args_digest = call_digest (ti_codec I) (tc_arguments call),
       ca_status = (case r of Inr iv \<Rightarrow> iv_status iv | Inl _ \<Rightarrow> ''ok''), ca_duration_ms = now - start\<rparr>]\<rparr>))"

definition afterA :: "('s, 'e, 'a) act \<Rightarrow> ('e + 'a \<Rightarrow> ('s, 'e, unit) act) \<Rightarrow> ('s, 'e, 'a) act" where
  "afterA m g s = (case m s of (r, t) \<Rightarrow> (case g r t of (Inl e, u) \<Rightarrow> (Inl e, u) | (Inr _, u) \<Rightarrow> (r, u)))"

definition invoke ::
  "('b, 'y) tool_invoker \<Rightarrow> ('b, session \<times> 'y) run_context option \<Rightarrow> ('b, 'y) progress_sink option \<Rightarrow> tool_call_request
     \<Rightarrow> ('b, 'y, invocation) bench" where
  "invoke I C sink call = bindA (storeA (drawT (ti_millis I))) (\<lambda>start.
     afterA (catchA (invoke_inner I C sink call) (\<lambda>e. if is_exception e then retA (invoker_error e) else raiseA e))
       (trace_call I call start))"

text \<open>\<open>InvokerSession.close\<close>: what cannot be unpinned is left pinned.\<close>

fun unpin_all :: "'b blob_store \<Rightarrow> string list \<Rightarrow> ('b, 'y, unit) bench" where
  "unpin_all B [] = retA ()"
| "unpin_all B (r # rs) = thenA (suppressA (blobA (bs_unpin B r))) (unpin_all B rs)"

definition close_session :: "('b, 'y) tool_invoker \<Rightarrow> ('b, 'y, unit) bench" where
  "close_session I = (case ti_store I of None \<Rightarrow> retA ()
     | Some B \<Rightarrow> bindA (queryA (\<lambda>s. ss_pinned_refs (session_of s))) (\<lambda>refs.
         thenA (unpin_all B refs) (sessionA (\<lambda>ss. ss\<lparr>ss_pinned_refs := []\<rparr>))))"

section \<open>From an agent to its invoker\<close>

record ('b, 'y) tool_owner =
  ow_tools :: "('b, 'y) toolbox option"
  ow_approval_handler :: "('b, 'y) approval_port option"
  ow_tool_policy :: "chain_policy option"
  ow_approval_required_risk :: "tool_risk option"
  ow_blob_store :: "'b blob_store option"

text \<open>The level just below the one from which approval is required.\<close>

definition level_below :: "tool_risk \<Rightarrow> tool_risk" where
  "level_below r = (case r of CriticalRisk \<Rightarrow> HighRisk | HighRisk \<Rightarrow> SafeRisk | SafeRisk \<Rightarrow> SafeRisk)"

definition policy_of :: "('b, 'y) tool_owner \<Rightarrow> chain_policy" where
  "policy_of A = (let p = (case ow_tool_policy A of None \<Rightarrow> direct_call_policy | Some p \<Rightarrow> p) in
     case ow_approval_required_risk A of None \<Rightarrow> p | Some r \<Rightarrow> p\<lparr>pl_max_risk_unapproved := level_below r\<rparr>)"

definition build_invoker :: "codec \<Rightarrow> (nat \<Rightarrow> int) \<Rightarrow> (string \<Rightarrow> seconds option) \<Rightarrow> ('b, 'y) tool_owner \<Rightarrow> ('b, 'y) tool_invoker" where
  "build_invoker X millis parse_time A = \<lparr>ti_registry = (case ow_tools A of None \<Rightarrow> [] | Some B \<Rightarrow> B),
     ti_approval = map_option handler_of (ow_approval_handler A), ti_store = ow_blob_store A, ti_policy = policy_of A,
     ti_codec = X, ti_millis = millis, ti_parse_time = parse_time\<rparr>"

text \<open>
  The invoker as the run's handle uses it: every call has a fresh id, and goes through the agent's middleware,
  which wraps the call.
\<close>

definition invoker_port ::
  "('b, 'y) tool_invoker \<Rightarrow> ('b, session \<times> 'y) run_context \<Rightarrow> (string \<Rightarrow> string)
     \<Rightarrow> (('b, 'y, invocation) bench \<Rightarrow> ('b, 'y, invocation) bench) \<Rightarrow> ('b, session \<times> 'y) invoker" where
  "invoker_port I C b64 middleware = \<lparr>
     in_idempotent = (\<lambda>name. case toolbox_get (ti_registry I) name of None \<Rightarrow> False | Some t \<Rightarrow> to_idempotent t = Some True),
     in_invoke = (\<lambda>name args. bindA (storeA (drawT (env_uuid (rc_env C)))) (\<lambda>cid.
        middleware (invoke I (Some C) None \<lparr>tc_name = name,
          tc_arguments = (case object_items args of None \<Rightarrow> [] | Some kvs \<Rightarrow> kvs), tc_call_id = cid\<rparr>))),
     in_base64 = b64\<rparr>"

end
