(* ===== verification/Side.thy ===== *)
theory Side
  imports Context_Wait Journal_Scope
begin

text \<open>
  The world of a run has a part of its own beyond the database and the blob store. \<open>side\<close> is that part;
  a capability of the handle leaves it alone, so it follows every reflexive and transitive relation on it.
  The locale \<open>side_frame\<close> is the interface of the proofs about what an agent keeps there.
\<close>

definition side :: "journal \<times> ('b, 'x) world \<Rightarrow> 'x" where
  "side s = snd (snd (snd s))"

lemma side_tuple [simp]: "side (j, d, b, x) = x"
  by (simp add: side_def)

definition keeps_side :: "(('b, 'x) world, 'e, 'a) act \<Rightarrow> bool" where
  "keeps_side m \<longleftrightarrow> (\<forall>w. snd (snd (snd (m w))) = snd (snd w))"

text \<open>A host that touches the database and the blobs only, as the one over the run store does.\<close>

definition quiet_host :: "('b, 'x) world host \<Rightarrow> bool" where
  "quiet_host H \<longleftrightarrow> (\<forall>es. keeps_side (ho_commit H es)) \<and>
     (\<forall>B. ho_blobs H = Some B \<longrightarrow> (\<forall>r. keeps_side (bl_resolve B r)) \<and> (\<forall>t. keeps_side (bl_store B t)) \<and> (\<forall>r. keeps_side (bl_pin B r)))"

lemma quiet_store_host: "quiet_host (store_host E l B X dumps loads)"
  by (auto simp: quiet_host_def keeps_side_def store_host_def commit_via_def in_blobs_def onA_def split: prod.splits)

lemma moves_leaves: "moves R m \<Longrightarrow> leaves m (\<lambda>r t. R s t) s"
  by (auto simp: leaves_def dest: moves_run split: prod.splits)

locale side_frame =
  fixes S :: "'x \<Rightarrow> 'x \<Rightarrow> bool"
  assumes S_refl: "S x x"
    and S_trans: "S x y \<Longrightarrow> S y z \<Longrightarrow> S x z"
begin

sublocale act_frame "\<lambda>s t :: journal \<times> ('b, 'x) world. S (side s) (side t)"
  by unfold_locales (auto intro: S_refl S_trans)

abbreviation follows :: "('b, 'x, 'a) capability \<Rightarrow> bool" where
  "follows \<equiv> moves (\<lambda>s t. S (side s) (side t))"

lemma side_store: "follows (storeA m)"
  by (auto simp: moves_def storeA_def onA_def txA_def side_def S_refl split: sum.splits prod.splits)

lemma side_world: "keeps_side m \<Longrightarrow> follows (worldA m)"
  by (auto simp: moves_def onA_def keeps_side_def side_def S_refl split: prod.splits) (metis S_refl snd_conv)

lemma side_journal: "follows (jexec f)"
  by (rule moves_exec) (simp add: side_def S_refl)

lemma side_lift: "follows (liftA r)"
  unfolding liftA_def by (intro rules)

lemma side_blobs: "follows (worldA (in_blobs m))"
  by (rule side_world) (auto simp: keeps_side_def in_blobs_def onA_def split: prod.splits)

lemma side_alloc: "follows alloc_path"
  unfolding alloc_path_def by (intro rules side_journal)

lemma side_resolve: "quiet_host H \<Longrightarrow> follows (resolve H k)"
  unfolding resolve_def by (cases "ho_blobs H") (auto simp: quiet_host_def split: option.split intro!: rules side_world)

lemma side_identify: "follows (identify H kind args)"
  unfolding identify_def Let_def by (intro rules side_alloc side_journal)

text \<open>What comes after an action may depend on what it returned.\<close>

lemma follows_bind_result:
  assumes "\<And>s. leaves m (\<lambda>r t. S (side s) (side t) \<and> (case r of Inl e \<Rightarrow> True | Inr a \<Rightarrow> follows (f a))) s"
  shows "follows (bindA m f)"
proof (rule movesI)
  fix s r t
  assume run: "bindA m f s = (r, t)"
  obtain x u where m: "m s = (x, u)" by (cases "m s")
  have u: "S (side s) (side u)" and f: "case x of Inl e \<Rightarrow> True | Inr a \<Rightarrow> follows (f a)"
    using leaves_run [OF assms m] by simp_all
  show "S (side s) (side t)"
  proof (cases x)
    case (Inr a)
    then have "S (side u) (side t)" using f run m by (auto simp: bindA_def dest: moves_run)
    then show ?thesis by (rule S_trans [OF u])
  qed (use u run m in \<open>auto simp: bindA_def\<close>)
qed

definition builds :: "('b, 'x, json \<times> (new_entry list \<Rightarrow> ('b, 'x, unit) capability)) capability \<Rightarrow> bool" where
  "builds m \<longleftrightarrow> (\<forall>s. leaves m (\<lambda>r t. S (side s) (side t) \<and>
     (case r of Inl e \<Rightarrow> True | Inr (v, c) \<Rightarrow> \<forall>es. follows (c es))) s)"

lemma follows_build:
  assumes "builds m" and "\<And>v. follows (g v)"
  shows "follows (bindA m (\<lambda>(v, do_commit). thenA (do_commit (es v)) (g v)))"
proof (rule follows_bind_result)
  fix s
  have "leaves m (\<lambda>r t. S (side s) (side t) \<and> (case r of Inl e \<Rightarrow> True | Inr (v, c) \<Rightarrow> \<forall>es. follows (c es))) s"
    using assms(1) unfolding builds_def by blast
  then show "leaves m (\<lambda>r t. S (side s) (side t) \<and> (case r of Inl e \<Rightarrow> True
      | Inr p \<Rightarrow> follows (case p of (v, do_commit) \<Rightarrow> thenA (do_commit (es v)) (g v)))) s"
    by (rule leaves_weaken) (auto split: sum.splits intro!: act_bind assms(2))
qed

lemma side_atomic: "quiet_host H \<Longrightarrow> (\<And>path eid. builds (build path eid)) \<Longrightarrow> follows (record_atomic H kind args build)"
  unfolding record_atomic_def
  by (intro rules side_identify side_resolve side_journal follows_build)

lemmas side_rules = rules side_store side_journal side_lift side_alloc side_blobs

lemma side_commit: "follows (ctx_commit C c)"
  unfolding ctx_commit_def by (rule side_store)

lemma side_commit_only: "follows (commit_only C es)"
  unfolding commit_only_def commit_entries_def by (intro rules side_commit)

lemma side_log_once: "follows (ctx_log_once C kind p)"
  unfolding ctx_log_once_def commit_entries_def first_seq_def by (intro side_rules side_commit) (auto split: list.split intro: rules)

lemma builds_draw:
  fixes C :: "('b, 'x) run_context"
  shows "builds (bindA (storeA m) (\<lambda>x. retA (v x, commit_only C)))"
  unfolding builds_def
proof (rule allI)
  fix s :: "journal \<times> ('b, 'x) world"
  obtain r t where run: "storeA m s = (r, t)" by (cases "storeA m s")
  have "S (side s) (side t)" using moves_run [OF side_store run] .
  with run show "leaves (bindA (storeA m) (\<lambda>x. retA (v x, commit_only C))) (\<lambda>r t. S (side s) (side t) \<and>
      (case r of Inl e \<Rightarrow> True | Inr (v, c) \<Rightarrow> \<forall>es. follows (c es))) s"
    by (cases r) (simp_all add: leaves_def bindA_def retA_def side_commit_only)
qed

lemma side_uuid: "quiet_host (rc_host C) \<Longrightarrow> follows (ctx_uuid C)"
  unfolding ctx_uuid_def text_at_def value_at_def
  by (intro rules side_atomic builds_draw) (auto split: json.split option.split intro!: rules)

lemma side_check: "follows (ctx_check C)"
  unfolding ctx_check_def clockA_def by (intro side_rules)

lemma side_signal: "follows (ctx_sleep_until_signal C name)"
  unfolding ctx_sleep_until_signal_def wait_id_def peek_def suspendA_def
  by (intro side_rules side_check side_identify side_commit_only)

end

end
