(* ===== verification/Invoker_Claims.thy ===== *)
theory Invoker_Claims
  imports Invoker Side
begin

text \<open>
  What the enforcement of tool calls guarantees: every call leaves one record and counts against the cap, a
  tool above the level of risk that passes unapproved is not reached without an approval, and a level of
  required approval is the level that is asked for, except at the lowest.
\<close>

section \<open>What a call does to the session\<close>

text \<open>The parts that are not the invoker's own: tools, their classifiers, the approval handler, the listener.\<close>

definition parts_follow :: "(session \<times> 'y \<Rightarrow> session \<times> 'y \<Rightarrow> bool) \<Rightarrow> ('b, 'y) tool_invoker \<Rightarrow> ('b, 'y) progress_sink option \<Rightarrow> bool" where
  "parts_follow S I sink \<longleftrightarrow>
     (\<forall>t\<in>snd ` set (ti_registry I).
        (\<forall>f args. to_classify_risk t = Some f \<longrightarrow> moves (\<lambda>s t. S (side s) (side t)) (f args)) \<and>
        (\<forall>limit args. moves (\<lambda>s t. S (side s) (side t)) (to_execute t limit args))) \<and>
     (\<forall>H limit q. ti_approval I = Some H \<longrightarrow> moves (\<lambda>s t. S (side s) (side t)) (ah_request H limit q)) \<and>
     (\<forall>f step text n a r. sink = Some f \<longrightarrow> moves (\<lambda>s t. S (side s) (side t)) (f step text n a r))"

definition quiet_context :: "('b, 'x) run_context option \<Rightarrow> bool" where
  "quiet_context C \<longleftrightarrow> (\<forall>c. C = Some c \<longrightarrow> quiet_host (rc_host c))"

locale call_frame = side_frame S for S :: "session \<times> 'y \<Rightarrow> session \<times> 'y \<Rightarrow> bool" +
  assumes S_pins: "S (ss, y) (ss\<lparr>ss_pinned_refs := refs\<rparr>, y)"
begin

lemma call_blob: "follows (blobA m)"
  unfolding blobA_def by (rule side_blobs)

lemma call_pin: "follows (sessionA (\<lambda>ss. ss\<lparr>ss_pinned_refs := ss_pinned_refs ss @ [r]\<rparr>))"
  unfolding sessionA_def by (rule moves_exec) (auto simp: S_pins split: prod.splits)

lemma call_store: "follows (store_pinned B bytes ctype)"
  unfolding store_pinned_def by (intro rules call_blob call_pin)

lemma call_offload: "follows (offload_media B name n ms)"
  by (induction B name n ms rule: offload_media.induct) (auto intro!: rules call_store split: option.split)

lemma call_shape: "follows (shape_result I name r)"
  unfolding shape_result_def Let_def by (intro rules call_offload call_store)

lemma call_fetch: "follows (fetch_argument B v r)"
  unfolding fetch_argument_def by (intro rules call_blob)

lemma call_refs: "follows (resolve_inbound_refs X B args)"
  by (induction X B args rule: resolve_inbound_refs.induct) (auto intro!: rules call_fetch split: option.split)

lemma call_timed: "follows m \<Longrightarrow> follows (or_timed_out m a)"
  unfolding or_timed_out_def by (intro rules)

lemma call_journal: "follows (journal_decision C rid name risk r)"
  unfolding journal_decision_def by (intro rules side_log_once)

lemma call_follow: "follows (follow_decision C call risk reply)"
  unfolding follow_decision_def by (auto split: sum.split approval_decision.split intro!: rules call_journal)

lemma call_signal: "quiet_host (rc_host c) \<Longrightarrow> follows (decide_by_signal I c call risk summary)"
  unfolding decide_by_signal_def by (intro side_rules side_uuid side_log_once side_signal)

lemma call_risk: "parts_follow S I sink \<Longrightarrow> t \<in> snd ` set (ti_registry I) \<Longrightarrow> follows (tool_risk_of t args)"
  unfolding tool_risk_of_def parts_follow_def by (cases "to_classify_risk t") (auto intro!: rules split: option.split)

lemma call_at_once: "parts_follow S I sink \<Longrightarrow> ti_approval I = Some H \<Longrightarrow> follows (decide_at_once I H call risk summary)"
  unfolding decide_at_once_def parts_follow_def by (intro rules call_timed) blast

lemma call_decide:
  assumes "parts_follow S I sink" and "ti_approval I = Some H" and "quiet_context C"
  shows "follows (decide I C H call risk summary)"
  using assms(3) call_at_once [OF assms(1,2)] by (cases C) (simp_all add: decide_def quiet_context_def call_signal)

lemma call_gate:
  assumes "parts_follow S I sink" and "t \<in> snd ` set (ti_registry I)" and "quiet_context C"
  shows "follows (approval_gate I C t call)"
proof (cases "ti_approval I")
  case None
  then show ?thesis unfolding approval_gate_def by (simp only: option.case) (intro rules call_risk [OF assms(1,2)])
next
  case (Some H)
  then show ?thesis unfolding approval_gate_def
    by (simp only: option.case) (intro rules call_risk [OF assms(1,2)] call_decide [OF assms(1) Some assms(3)] call_follow)
qed

lemma call_progress: "parts_follow S I sink \<Longrightarrow> follows (emit_progress sink C step text)"
  unfolding emit_progress_def parts_follow_def by (cases sink; cases C) (auto intro!: rules)

lemma call_run: "parts_follow S I sink \<Longrightarrow> t \<in> snd ` set (ti_registry I) \<Longrightarrow> follows (run_tool I t name args)"
  unfolding run_tool_def parts_follow_def by (auto intro!: rules call_timed)

lemma call_ahead: "parts_follow S I sink \<Longrightarrow> t \<in> snd ` set (ti_registry I) \<Longrightarrow> follows (go_ahead I C sink t name call)"
  unfolding go_ahead_def ctx_checked_def
  by (intro rules call_refs call_progress call_run call_shape side_check)

lemma call_dispatch:
  assumes "parts_follow S I sink" and "quiet_context C"
  shows "follows (dispatch I C sink call)"
proof (cases "type_gate (tc_name call) (toolbox_get (ti_registry I) (tc_name call))")
  case None
  then have "the (toolbox_get (ti_registry I) (tc_name call)) \<in> snd ` set (ti_registry I)"
    by (cases "toolbox_get (ti_registry I) (tc_name call)") (auto simp: type_gate_def toolbox_get_def dest!: map_of_SomeD intro: rev_image_eqI)
  with None show ?thesis unfolding dispatch_def Let_def
    by (simp only: option.case) (intro rules call_gate [OF assms(1)] call_ahead [OF assms(1)] assms(2))
qed (simp add: dispatch_def act_ret)

end

text \<open>Records and the count of calls are the invoker's own; what it pins is remembered besides.\<close>

definition own_records :: "session \<times> 'y \<Rightarrow> session \<times> 'y \<Rightarrow> bool" where
  "own_records a b \<longleftrightarrow> ss_trace (fst b) = ss_trace (fst a) \<and> ss_call_count (fst b) = ss_call_count (fst a)"

interpretation records: call_frame own_records
  by unfold_locales (simp_all add: own_records_def)

lemma session_side: "session_of s = fst (side s)"
  by (cases s) (simp add: session_of_def side_def)

definition counted :: "('b, 'y) tool_invoker \<Rightarrow> session \<Rightarrow> int" where
  "counted I ss = (if pl_max_tool_calls (ti_policy I) \<le> ss_call_count ss then ss_call_count ss else ss_call_count ss + 1)"

lemma inner_records:
  assumes "parts_follow own_records I sink" and "quiet_context C"
  shows "leaves (invoke_inner I C sink call) (\<lambda>r t. ss_trace (session_of t) = ss_trace (session_of s) \<and>
      ss_call_count (session_of t) = counted I (session_of s)) s"
proof (cases "pl_max_tool_calls (ti_policy I) \<le> ss_call_count (session_of s)")
  case True
  then show ?thesis by (simp add: invoke_inner_def counted_def)
next
  case False
  have "leaves (dispatch I C sink call) (\<lambda>r t. own_records (side u) (side t)) u" for u
    by (rule moves_leaves [OF records.call_dispatch [OF assms]])
  then show ?thesis unfolding invoke_inner_def leaves_query_bind sessionA_def if_not_P [OF False] leaves_exec_bind
    by (rule leaves_weaken) (cases s, use False in \<open>simp add: session_side own_records_def counted_def\<close>)
qed

lemma leaves_after:
  assumes "leaves m P s" and "\<And>r t. P r t \<Longrightarrow> leaves (g r) (\<lambda>x u. Q (case x of Inl e \<Rightarrow> Inl e | Inr _ \<Rightarrow> r) u) t"
  shows "leaves (afterA m g) Q s"
proof (rule leaves_intro)
  fix r u
  assume run: "afterA m g s = (r, u)"
  obtain x t where m: "m s = (x, t)" by (cases "m s")
  obtain y v where g: "g x t = (y, v)" by (cases "g x t")
  have "Q (case y of Inl e \<Rightarrow> Inl e | Inr _ \<Rightarrow> x) v" using assms(2) [OF leaves_run [OF assms(1) m]] g by (simp add: leaves_def)
  then show "Q r u" using run m g by (cases y) (auto simp: afterA_def)
qed

definition record_of :: "('b, 'y) tool_invoker \<Rightarrow> tool_call_request \<Rightarrow> exn + invocation \<Rightarrow> int \<Rightarrow> call_record" where
  "record_of I call r d = \<lparr>ca_tool = tc_name call, ca_args_digest = call_digest (ti_codec I) (tc_arguments call),
     ca_status = (case r of Inl e \<Rightarrow> ''ok'' | Inr iv \<Rightarrow> iv_status iv), ca_duration_ms = d\<rparr>"

lemma draws_aside: "leaves (storeA (drawT (f :: nat \<Rightarrow> int))) (\<lambda>r t. (\<exists>n. r = Inr n) \<and> session_of t = session_of s) s"
  by (cases s) (simp add: leaves_def storeA_def onA_def txA_def drawT_def run_simps session_of_def)

lemma traces:
  "leaves (trace_call I call start r) (\<lambda>x u. (\<exists>v. x = Inr v) \<and> ss_call_count (session_of u) = ss_call_count (session_of t) \<and>
     (\<exists>d. ss_trace (session_of u) = ss_trace (session_of t) @ [record_of I call r d])) t"
  unfolding trace_call_def sessionA_def
  by (rule leaves_seq [OF draws_aside]) (auto simp: session_of_def record_of_def split: sum.split)

text \<open>
  C21. Every call leaves one record, under the name and the arguments it was made with, whether it was answered,
  refused or failed; one that was interrupted is recorded as ok. It counts once, and never beyond the cap.
\<close>

theorem every_call_recorded:
  assumes "parts_follow own_records I sink" and "quiet_context C" and "invoke I C sink call s = (r, t)"
  shows "(\<exists>d. ss_trace (session_of t) = ss_trace (session_of s) @ [record_of I call r d]) \<and>
    (\<forall>e. r = Inl e \<longrightarrow> \<not> is_exception e) \<and> ss_call_count (session_of t) = counted I (session_of s)"
proof -
  let ?Q = "\<lambda>r t. (\<exists>d. ss_trace (session_of t) = ss_trace (session_of s) @ [record_of I call r d]) \<and>
    (\<forall>e. r = Inl e \<longrightarrow> \<not> is_exception e) \<and> ss_call_count (session_of t) = counted I (session_of s)"
  have inner: "leaves (invoke_inner I C sink call) (\<lambda>r t. ss_trace (session_of t) = ss_trace (session_of s) \<and>
      ss_call_count (session_of t) = counted I (session_of s)) u" if "session_of u = session_of s" for u
    using inner_records [OF assms(1,2), of call u] unfolding that .
  have caught: "leaves (catchA (invoke_inner I C sink call) (\<lambda>e. if is_exception e then retA (invoker_error e) else raiseA e))
      (\<lambda>r t. (\<forall>e. r = Inl e \<longrightarrow> \<not> is_exception e) \<and> ss_trace (session_of t) = ss_trace (session_of s) \<and>
         ss_call_count (session_of t) = counted I (session_of s)) u" if "session_of u = session_of s" for u
    by (rule leaves_try [OF inner [OF that]]) simp_all
  have "leaves (invoke I C sink call) ?Q s"
    unfolding invoke_def
    by (rule leaves_seq [OF draws_aside], simp) (intro leaves_after [OF caught] leaves_weaken [OF traces], auto)
  from leaves_run [OF this assms(3)] show ?thesis .
qed

section \<open>Approval\<close>

text \<open>A tool is above the level that passes unapproved, and nobody approves the call.\<close>

definition refuses :: "('b, 'y) tool_invoker \<Rightarrow> ('b, session \<times> 'y) run_context option \<Rightarrow> ('b, 'y) tool \<Rightarrow> tool_call_request \<Rightarrow> bool" where
  "refuses I C t call \<longleftrightarrow>
     (\<forall>s. leaves (tool_risk_of t (tc_arguments call)) (\<lambda>r _. \<forall>risk summary. r = Inr (risk, summary) \<longrightarrow>
        pl_max_risk_unapproved (ti_policy I) < risk) s) \<and>
     (\<forall>H risk summary s. ti_approval I = Some H \<longrightarrow> leaves (decide I C H call risk summary)
        (\<lambda>r _. \<forall>rid a. r = Inr (Inr (rid, a)) \<longrightarrow> av_decision a \<in> {DENIED, SKIPPED}) s)"

text \<open>The same tools, one of them with another body.\<close>

definition with_body :: "string \<Rightarrow> (rat option \<Rightarrow> (string \<times> argument) list \<Rightarrow> ('b, 'y, tool_execution_result) bench)
    \<Rightarrow> ('b, 'y) toolbox \<Rightarrow> ('b, 'y) toolbox" where
  "with_body name f B = map (\<lambda>(n, t). (n, if n = name then t\<lparr>to_execute := f\<rparr> else t)) B"

lemma get_with_body: "toolbox_get (with_body name f B) n = map_option (\<lambda>t. if n = name then t\<lparr>to_execute := f\<rparr> else t) (toolbox_get B n)"
  by (induction B) (auto simp: with_body_def toolbox_get_def)

lemma gate_refuses:
  assumes "refuses I C t call"
  shows "leaves (approval_gate I C t call) (\<lambda>g _. \<forall>c. g \<noteq> Inr (Inr c)) s"
  unfolding approval_gate_def
proof (rule leaves_seq [where P = "\<lambda>r _. \<forall>risk summary. r = Inr (risk, summary) \<longrightarrow> pl_max_risk_unapproved (ti_policy I) < risk"], goal_cases)
  case 1
  show ?case using assms unfolding refuses_def by blast
next
  case (3 a u)
  have journal: "leaves (journal_decision C rid n k r) (\<lambda>_ _. True) v" for rid n k r v by (rule leaves_intro) simp
  have "leaves (bindA (decide I C H call risk summary) (follow_decision C call risk)) (\<lambda>g _. \<forall>c. g \<noteq> Inr (Inr c)) u"
    if "ti_approval I = Some H" for H risk summary
  proof (rule leaves_seq [where P = "\<lambda>r _. \<forall>rid a. r = Inr (Inr (rid, a)) \<longrightarrow> av_decision a \<in> {DENIED, SKIPPED}"], goal_cases)
    case 1
    show ?case using assms that unfolding refuses_def by blast
  next
    case (3 b v)
    then show ?case unfolding follow_decision_def
      by (cases b) (auto intro!: leaves_seq [OF journal] split: prod.split)
  qed simp
  with 3 show ?case by (cases a; cases "ti_approval I") auto
qed simp

lemma bind_unreached:
  assumes "\<And>s. leaves m (\<lambda>r _. \<forall>c. r \<noteq> Inr (Inr c)) s"
  shows "bindA m (\<lambda>g. case g of Inl iv \<Rightarrow> f iv | Inr c \<Rightarrow> h c) = bindA m (\<lambda>g. case g of Inl iv \<Rightarrow> f iv | Inr c \<Rightarrow> h' c)"
proof
  fix s
  show "bindA m (\<lambda>g. case g of Inl iv \<Rightarrow> f iv | Inr c \<Rightarrow> h c) s = bindA m (\<lambda>g. case g of Inl iv \<Rightarrow> f iv | Inr c \<Rightarrow> h' c) s"
    using assms [of s] by (auto simp: bindA_def leaves_def split: prod.splits sum.splits)
qed

lemma decide_with_body: "decide (I\<lparr>ti_registry := B\<rparr>) C H call risk summary = decide I C H call risk summary"
  by (cases C) (simp_all add: decide_def decide_by_signal_def decide_at_once_def late_approval_def)

lemma gate_with_body: "approval_gate (I\<lparr>ti_registry := B\<rparr>) C (t\<lparr>to_execute := f\<rparr>) call = approval_gate I C t call"
proof -
  have "tool_risk_of (t\<lparr>to_execute := f\<rparr>) args = tool_risk_of t args" for args
    by (cases "to_classify_risk t") (simp_all add: tool_risk_of_def)
  then show ?thesis by (cases "ti_approval I") (simp_all add: approval_gate_def decide_with_body cong: if_cong)
qed


text \<open>
  Approval required from a level upward is asked for from that level upward; but the lowest level can not be
  required: safe tools pass.
\<close>

theorem approval_level:
  assumes "ow_approval_required_risk A = Some required"
  shows "risk \<le> pl_max_risk_unapproved (policy_of A) \<longleftrightarrow> (if required = SafeRisk then risk = SafeRisk else risk < required)"
  using assms by (cases required; cases risk) (simp_all add: policy_of_def level_below_def less_eq_tool_risk_def less_tool_risk_def)

section \<open>An agent with three tools\<close>

text \<open>A tool that counts how often it ran.\<close>

definition counting :: "(unit, nat, tool_execution_result) bench" where
  "counting = (\<lambda>(j, d, b, ss, n). (Inr \<lparr>te_content = [TextBlock ''done''], te_is_error = False, te_structured = JObj []\<rparr>, (j, d, b, ss, Suc n)))"

definition demo_tool :: "string \<Rightarrow> tool_risk \<Rightarrow> (unit, nat) tool" where
  "demo_tool name risk = \<lparr>to_name = name, to_described = True, to_has_specs = False, to_call_types = None, to_handle_call = None,
     to_risk = Some risk, to_idempotent = Some True, to_concurrency_safe = False, to_suspends = False, to_classify_risk = None,
     to_execute = (\<lambda>_ _. counting)\<rparr>"

definition demo_invoker :: "(unit, nat) approval_handler option \<Rightarrow> (unit, nat) tool_invoker" where
  "demo_invoker H = \<lparr>ti_registry = map (\<lambda>t. (to_name t, t)) [demo_tool ''look'' SafeRisk, demo_tool ''mail'' HighRisk, demo_tool ''wipe'' CriticalRisk],
     ti_approval = H, ti_store = None, ti_policy = direct_call_policy, ti_codec = plain_codec, ti_millis = int, ti_parse_time = (\<lambda>_. None)\<rparr>"

definition demo_call :: "string \<Rightarrow> tool_call_request" where
  "demo_call name = \<lparr>tc_name = name, tc_arguments = [], tc_call_id = ''c''\<rparr>"

text \<open>What a call answers, how often a tool ran, and the trace it leaves.\<close>

definition demo_invoked :: "(unit, nat) approval_handler option \<Rightarrow> string \<Rightarrow> string \<times> nat \<times> string list" where
  "demo_invoked H name = (case invoke (demo_invoker H) None None (demo_call name) (blank_journal ''r'', empty_db, (), open_session, 0) of
     (r, j, d, b, ss, n) \<Rightarrow> (case r of Inl e \<Rightarrow> ''raised'' | Inr iv \<Rightarrow> iv_status iv, n, map ca_status (ss_trace ss)))"

lemma demo_policy:
  "demo_invoked None ''look'' = (''ok'', 1, [''ok''])" "demo_invoked None ''mail'' = (''denied'', 0, [''denied''])"
  "demo_invoked (Some (auto_approve (\<lambda>_. 0) HighRisk ''policy'')) ''mail'' = (''ok'', 1, [''ok''])"
  "demo_invoked (Some (auto_approve (\<lambda>_. 0) HighRisk ''policy'')) ''wipe'' = (''denied'', 0, [''denied''])"
  "demo_invoked None ''tool_chain'' = (''error'', 0, [''error''])"
  by code_simp+

lemma demo_parts: "parts_follow own_records (demo_invoker None) None"
  by (auto simp: parts_follow_def demo_invoker_def demo_tool_def moves_def counting_def own_records_def)

lemma demo_refuses: "refuses (demo_invoker None) None (demo_tool ''mail'' HighRisk) (demo_call ''mail'')"
  by (auto simp: refuses_def tool_risk_of_def demo_tool_def demo_invoker_def direct_call_policy_def chain_defaults_def less_tool_risk_def)

theorem every_call_recorded_witness:
  "\<exists>r t. invoke (demo_invoker None) None None (demo_call ''look'') (blank_journal ''r'', empty_db, (), open_session, 0) = (r, t) \<and>
     (\<exists>d. ss_trace (session_of t) = [record_of (demo_invoker None) (demo_call ''look'') r d])"
proof -
  obtain r t where run: "invoke (demo_invoker None) None None (demo_call ''look'') (blank_journal ''r'', empty_db, (), open_session, 0) = (r, t)"
    by (cases "invoke (demo_invoker None) None None (demo_call ''look'') (blank_journal ''r'', empty_db, (), open_session, 0)")
  have "quiet_context (None :: (unit, session \<times> nat) run_context option)" by (simp add: quiet_context_def)
  from every_call_recorded [OF demo_parts this run] run show ?thesis by (auto simp: session_of_def open_session_def)
qed


theorem approval_level_witness:
  "\<not> HighRisk \<le> pl_max_risk_unapproved (policy_of \<lparr>ow_tools = None, ow_approval_handler = None, ow_tool_policy = None,
     ow_approval_required_risk = Some HighRisk, ow_blob_store = None\<rparr>)"
  by (subst approval_level [where required = HighRisk]) (simp_all add: less_tool_risk_def)

end
