(* ===== verification/Models.thy ===== *)
theory Models
  imports Context_Core
begin

text \<open>
  What the runtime knows of a model: what it can see and what it costs (\<open>models/protocols.py\<close>), the conversation
  fitted to it (\<open>models/modalities.py\<close>), the arguments of a tool call it wrote (\<open>models/tool_arguments.py\<close>), and
  a provider's failure as an error of the kernel (\<open>models/errors.py\<close>). The model itself is an argument.
\<close>

section \<open>Capabilities and cost\<close>

record model_capabilities =
  mc_model_id :: string
  mc_context_window :: "int option"
  mc_input_modalities :: "string list"
  mc_input_cost :: rat
  mc_cached_cost :: "rat option"
  mc_write_cost :: "rat option"
  mc_output_cost :: rat

definition accepts :: "model_capabilities \<Rightarrow> string \<Rightarrow> bool" where
  "accepts caps modality \<longleftrightarrow> modality \<in> set (mc_input_modalities caps)"

definition or_rate :: "rat option \<Rightarrow> rat \<Rightarrow> rat" where
  "or_rate r d = (case r of None \<Rightarrow> d | Some q \<Rightarrow> q)"

text \<open>Cache reads and writes are both inside the input tokens; each is billed at its own rate.\<close>

definition cost_usd :: "model_capabilities \<Rightarrow> usage \<Rightarrow> rat" where
  "cost_usd caps u =
     (let special = min (us_cached u + us_cache_write u) (us_input u); uncached = max (us_input u - special) 0 in
      (of_int uncached * mc_input_cost caps + of_int (us_cached u) * or_rate (mc_cached_cost caps) (mc_input_cost caps)
       + of_int (us_cache_write u) * or_rate (mc_write_cost caps) (mc_input_cost caps)
       + of_int (us_output u) * mc_output_cost caps) / 1000000)"

section \<open>What a model can see\<close>

text \<open>A note in place of what cannot be shown, in a turn or inside a tool result.\<close>

definition media_placeholder :: "model_capabilities \<Rightarrow> media_block \<Rightarrow> content" where
  "media_placeholder caps m = TextBlock (''['' @ mb_type m @ '' not shown: '' @ mc_model_id caps @ '' cannot take '' @ mb_type m @ '' input'' @
     (if truthy_text (mb_filename m) then ''; file: '' @ the (mb_filename m) else []) @
     (if truthy_text (mb_transcript m) then ''; transcript: '' @ the (mb_transcript m) else []) @ '']'')"

fun fit_block :: "model_capabilities \<Rightarrow> content \<Rightarrow> content" where
  "fit_block caps (MediaBlock m) = (if accepts caps (mb_type m) then MediaBlock m else media_placeholder caps m)"
| "fit_block caps (ToolResultBlock cid name bs err) = ToolResultBlock cid name (map (fit_block caps) bs) err"
| "fit_block caps b = b"

definition fit_message :: "model_capabilities \<Rightarrow> chat_message \<Rightarrow> chat_message" where
  "fit_message caps m = m\<lparr>tm_content := map (fit_block caps) (tm_content m)\<rparr>"

definition fit_to_capabilities :: "model_capabilities \<Rightarrow> chat_message list \<Rightarrow> chat_message list" where
  "fit_to_capabilities caps ms = map (fit_message caps) ms"

text \<open>The media of a block, at any depth.\<close>

fun media_in :: "content \<Rightarrow> media_block list" where
  "media_in (MediaBlock m) = [m]"
| "media_in (ToolResultBlock cid name bs err) = concat (map media_in bs)"
| "media_in b = []"

section \<open>Arguments of a call\<close>

text \<open>
  \<open>raw\<close> is what the client got from the model: an object, or a text. \<open>loads\<close> is \<open>json.loads\<close>, which gives
  the message of its error or the value.
\<close>

definition parse_tool_arguments :: "(string \<Rightarrow> string + json) \<Rightarrow> json \<Rightarrow> json \<times> string option" where
  "parse_tool_arguments loads raw = (case raw of JObj kvs \<Rightarrow> (JObj kvs, None)
     | JStr s \<Rightarrow> if s = [] then (JObj [], None) else (case loads s of
           Inl msg \<Rightarrow> (JObj [], Some (''arguments were not valid JSON ('' @ msg @ ''): '' @ take 500 s))
         | Inr v \<Rightarrow> (case v of JObj kvs \<Rightarrow> (JObj kvs, None)
             | _ \<Rightarrow> (JObj [], Some (''arguments must be a JSON object, got: '' @ take 500 s))))
     | _ \<Rightarrow> (JObj [], None))"

section \<open>Failures of a provider\<close>

text \<open>
  An exception as the classifier looks at it: its text, the integers under \<open>status_code\<close> and \<open>code\<close>, the number under
  \<open>retry_after\<close>, the headers of its response, and what it was raised from.
\<close>

datatype fault = Fault (fl_text: string) (fl_status_code: "int option") (fl_code: "int option") (fl_retry_after: "rat option")
  (fl_headers: "(string \<times> string) list option") (fl_cause: "fault option") (fl_context: "fault option")

definition raised_from :: "fault \<Rightarrow> fault option" where
  "raised_from f = (case fl_cause f of Some c \<Rightarrow> Some c | None \<Rightarrow> fl_context f)"

fun chain_of :: "nat \<Rightarrow> fault option \<Rightarrow> fault list" where
  "chain_of n None = []"
| "chain_of 0 (Some f) = []"
| "chain_of (Suc n) (Some f) = f # chain_of n (raised_from f)"

text \<open>\<open>_chain\<close>: at most five.\<close>

definition chain_up :: "fault \<Rightarrow> fault list" where
  "chain_up f = chain_of 5 (Some f)"

fun first_of :: "('a \<Rightarrow> 'b option) \<Rightarrow> 'a list \<Rightarrow> 'b option" where
  "first_of g [] = None"
| "first_of g (x # xs) = (case g x of Some y \<Rightarrow> Some y | None \<Rightarrow> first_of g xs)"

definition status_in :: "fault \<Rightarrow> int option" where
  "status_in f = (case fl_status_code f of Some n \<Rightarrow> Some n | None \<Rightarrow> fl_code f)"

definition http_status_of :: "fault list \<Rightarrow> int option" where
  "http_status_of chain = first_of status_in chain"

definition asked_wait :: "fault \<Rightarrow> rat option" where
  "asked_wait f = (case fl_retry_after f of Some q \<Rightarrow> if 0 \<le> q then Some q else None | None \<Rightarrow> None)"

text \<open>A header that is a number of so many seconds; \<open>num\<close> is \<open>float(...)\<close>.\<close>

definition header_wait :: "(string \<Rightarrow> rat option) \<Rightarrow> (string \<times> string) list \<Rightarrow> string \<times> rat \<Rightarrow> rat option" where
  "header_wait num hs nk = (case map_of hs (fst nk) of None \<Rightarrow> None
     | Some raw \<Rightarrow> (case num raw of None \<Rightarrow> None | Some q \<Rightarrow> if 0 \<le> q * snd nk then Some (q * snd nk) else None))"

definition headers_of :: "fault list \<Rightarrow> (string \<times> string) list" where
  "headers_of chain = (case first_of fl_headers chain of None \<Rightarrow> [] | Some hs \<Rightarrow> hs)"

definition provider_retry_after :: "(string \<Rightarrow> rat option) \<Rightarrow> fault list \<Rightarrow> rat option" where
  "provider_retry_after num chain = (case first_of asked_wait chain of Some q \<Rightarrow> Some q
     | None \<Rightarrow> first_of (header_wait num (headers_of chain)) [(''retry-after-ms'', 1 / 1000), (''retry-after'', 1)])"

definition error_words :: "fault list \<Rightarrow> string" where
  "error_words chain = map low_char (join_with '' '' (map fl_text chain))"

definition context_overflow_markers :: "string list" where
  "context_overflow_markers = [''context_length_exceeded'', ''context length'', ''context window'', ''maximum context'', ''prompt is too long'',
     ''too many tokens'', ''input token count'', ''exceeds the maximum number of tokens'', ''reduce the length'', ''request too large'']"

definition content_filter_markers :: "string list" where
  "content_filter_markers = [''content_filter'', ''content management policy'', ''content policy'', ''responsible ai'', ''safety_ratings'',
     ''blocked by safety'']"

definition mentions :: "string list \<Rightarrow> string \<Rightarrow> bool" where
  "mentions markers t = list_ex (\<lambda>m. contains_sub m t) markers"

definition permanent_status :: "int list" where
  "permanent_status = [400, 401, 403, 404, 413, 422]"

text \<open>The kernel's error for a failure with this chain, if it has a meaning of its own.\<close>

definition meaning_of :: "(string \<Rightarrow> rat option) \<Rightarrow> fault \<Rightarrow> exn option" where
  "meaning_of num f =
     (let chain = chain_up f; status = http_status_of chain; words = error_words chain; as = (\<lambda>c. Some (KernelExn c (fl_text f) None)) in
      if status = Some 429 then Some (KernelExn RateLimitedError (fl_text f) (provider_retry_after num chain))
      else if status = Some 401 \<or> status = Some 403 then as AuthError
      else if (status = None \<or> status \<in> {Some 400, Some 413, Some 422}) \<and> mentions context_overflow_markers words then as ContextLengthError
      else if (status = None \<or> status \<in> {Some 400, Some 413, Some 422}) \<and> mentions content_filter_markers words then as ContentFilterError
      else (case status of Some n \<Rightarrow> if n \<in> set permanent_status then as PermanentError else None | None \<Rightarrow> None))"

text \<open>\<open>look\<close> is the exception with its attributes.\<close>

definition classify_llm_error :: "(string \<Rightarrow> rat option) \<Rightarrow> (exn \<Rightarrow> fault) \<Rightarrow> exn \<Rightarrow> exn" where
  "classify_llm_error num look e = (case e of KernelExn c msg w \<Rightarrow> e
     | _ \<Rightarrow> (case meaning_of num (look e) of Some k \<Rightarrow> k | None \<Rightarrow> e))"

section \<open>Lemmas\<close>

lemma accepted_media:
  "m \<in> set (media_in (fit_block caps b)) \<Longrightarrow> accepts caps (mb_type m)"
  by (induction caps b rule: fit_block.induct) (auto simp: media_placeholder_def split: if_splits)

lemma fit_block_twice: "fit_block caps (fit_block caps b) = fit_block caps b"
  by (induction caps b rule: fit_block.induct) (simp_all add: media_placeholder_def)

lemma fit_block_same: "(\<forall>m\<in>set (media_in b). accepts caps (mb_type m)) \<Longrightarrow> fit_block caps b = b"
  by (induction caps b rule: fit_block.induct) (auto intro: map_idI)

lemma fit_keeps_calls: "is_tool_use (fit_block caps b) = is_tool_use b"
  by (cases b) (simp_all add: is_tool_use_def media_placeholder_def)

text \<open>
  A model is shown only what it can take: after fitting, all media, also inside tool results, are of accepted kinds;
  turns that had nothing else are unchanged, and fitting again changes nothing.
\<close>

theorem fitted_to_model:
  "(\<forall>m\<in>set (fit_to_capabilities caps ms). \<forall>b\<in>set (tm_content m). \<forall>x\<in>set (media_in b). accepts caps (mb_type x)) \<and>
   fit_to_capabilities caps (fit_to_capabilities caps ms) = fit_to_capabilities caps ms \<and>
   ((\<forall>m\<in>set ms. \<forall>b\<in>set (tm_content m). \<forall>x\<in>set (media_in b). accepts caps (mb_type x)) \<longrightarrow> fit_to_capabilities caps ms = ms)"
proof (intro conjI impI)
  show "\<forall>m\<in>set (fit_to_capabilities caps ms). \<forall>b\<in>set (tm_content m). \<forall>x\<in>set (media_in b). accepts caps (mb_type x)"
    by (auto simp: fit_to_capabilities_def fit_message_def dest: accepted_media)
  show "fit_to_capabilities caps (fit_to_capabilities caps ms) = fit_to_capabilities caps ms"
    by (simp add: fit_to_capabilities_def fit_message_def fit_block_twice)
next
  assume ok: "\<forall>m\<in>set ms. \<forall>b\<in>set (tm_content m). \<forall>x\<in>set (media_in b). accepts caps (mb_type x)"
  have "fit_message caps m = m" if "m \<in> set ms" for m
  proof -
    have "map (fit_block caps) (tm_content m) = tm_content m" using ok that by (intro map_idI) (auto intro: fit_block_same)
    then show ?thesis by (simp add: fit_message_def)
  qed
  then show "fit_to_capabilities caps ms = ms" by (simp add: fit_to_capabilities_def map_idI)
qed

text \<open>
  The cost adds up when the tokens do: as long as what was read from and written to the cache is part of the input,
  each token is billed once. A provider that reports more cached than input tokens is billed for more than it says.
\<close>

lemma cost_adds_up:
  assumes "us_cached u + us_cache_write u \<le> us_input u"
  shows "cost_usd caps u = (of_int (us_input u - us_cached u - us_cache_write u) * mc_input_cost caps
     + of_int (us_cached u) * or_rate (mc_cached_cost caps) (mc_input_cost caps)
     + of_int (us_cache_write u) * or_rate (mc_write_cost caps) (mc_input_cost caps) + of_int (us_output u) * mc_output_cost caps) / 1000000"
  using assms by (simp add: cost_usd_def Let_def min_absorb1 max_absorb1 algebra_simps)

text \<open>A classified failure keeps its meaning when it is classified again, and a kernel error is never reinterpreted.\<close>

lemma meaning_kernel: "meaning_of num f = Some k \<Longrightarrow> \<exists>c w. k = KernelExn c (fl_text f) w"
  unfolding meaning_of_def Let_def by (auto split: if_splits option.splits)

lemma classify_kernel: "classify_llm_error num look (KernelExn c msg w) = KernelExn c msg w"
  by (simp add: classify_llm_error_def)

lemma classify_cases: "classify_llm_error num look e = e \<or> (\<exists>c msg w. classify_llm_error num look e = KernelExn c msg w)"
  by (cases e; cases "meaning_of num (look e)") (auto simp: classify_llm_error_def dest: meaning_kernel)

lemma classify_twice: "classify_llm_error num look (classify_llm_error num look e) = classify_llm_error num look e"
  using classify_cases [of num look e] classify_kernel by metis

end
