(* ===== verification/Middleware.thy ===== *)
theory Middleware
  imports Models Invoker Compaction
begin

text \<open>
  Middleware (\<open>middleware\<close>): one shape of interceptor around a turn, a model call or a tool call, the pipeline that
  nests them, and each of those that come with the runtime except the guardrails. What a middleware keeps between calls is a part of the state that
  two functions read and write. Logging is left out, the clock readings it takes are not.
\<close>

section \<open>The context\<close>

datatype middleware_stage = TurnStage | ChatStage | ToolStage

record tool_call_record =
  tr_name :: string
  tr_call_id :: string
  tr_arguments :: json
  tr_result :: string
  tr_is_error :: bool
  tr_duration_ms :: rat

record agent_result =
  ar_output :: string
  ar_status :: string
  ar_tool_calls :: "tool_call_record list"
  ar_run_id :: string

text \<open>What \<open>metadata\<close> may hold: a value, or a schema, which reads a text or fails.\<close>

datatype meta = Plain json | Schema "string \<Rightarrow> json option"

record 't middleware_context =
  mx_stage :: middleware_stage
  mx_agent_name :: string
  mx_run_id :: string
  mx_metadata :: "(string \<times> meta) list"
  mx_session_id :: "string option"
  mx_messages :: "chat_message list option"
  mx_turn_result :: "agent_result option"
  mx_user_message_seq :: "int option"
  mx_system_instructions :: "string option"
  mx_tools :: "'t list option"
  mx_chat_result :: "llm_response option"
  mx_function_name :: "string option"
  mx_arguments :: "json option"
  mx_tool_result :: "invocation option"

definition blank_context :: "middleware_stage \<Rightarrow> string \<Rightarrow> string \<Rightarrow> 't middleware_context" where
  "blank_context st name rid = \<lparr>mx_stage = st, mx_agent_name = name, mx_run_id = rid, mx_metadata = [], mx_session_id = None, mx_messages = None,
     mx_turn_result = None, mx_user_message_seq = None, mx_system_instructions = None, mx_tools = None, mx_chat_result = None,
     mx_function_name = None, mx_arguments = None, mx_tool_result = None\<rparr>"

section \<open>The pipeline\<close>

text \<open>A step of the chain works on the context and the state; \<open>mw_process\<close> is given what comes next.\<close>

type_synonym ('s, 't) link = "('t middleware_context \<times> 's, exn, unit) act"

record ('s, 't) middleware =
  mw_stages :: "middleware_stage list option"
  mw_process :: "('s, 't) link \<Rightarrow> ('s, 't) link"

definition attends :: "middleware_stage \<Rightarrow> ('s, 't) middleware \<Rightarrow> bool" where
  "attends st m \<longleftrightarrow> (case mw_stages m of None \<Rightarrow> True | Some sts \<Rightarrow> st \<in> set sts)"

fun build_chain :: "('s, 't) middleware list \<Rightarrow> ('s, 't) link \<Rightarrow> ('s, 't) link" where
  "build_chain [] final = final"
| "build_chain (m # ms) final = mw_process m (build_chain ms final)"

definition execute :: "('s, 't) middleware list \<Rightarrow> ('s, 't) link \<Rightarrow> ('s, 't) link" where
  "execute ms final = bindA (queryA (\<lambda>s. mx_stage (fst s))) (\<lambda>st. build_chain (filter (attends st) ms) final)"

definition contextA :: "('t middleware_context \<Rightarrow> 't middleware_context) \<Rightarrow> ('s, 't) link" where
  "contextA f = execA (\<lambda>(c, s). (f c, s))"

section \<open>Interceptors\<close>

text \<open>\<open>AuditLoggerMiddleware\<close>: the clock is read before and after.\<close>

definition audit_logger :: "('s, exn, rat) act \<Rightarrow> ('s, 't) middleware" where
  "audit_logger clock = \<lparr>mw_stages = Some [TurnStage], mw_process = (\<lambda>cont. bindA (worldA clock) (\<lambda>_.
     catchA (thenA cont (bindA (worldA clock) (\<lambda>_. retA ())))
       (\<lambda>e. if is_exception e then bindA (worldA clock) (\<lambda>_. raiseA e) else raiseA e)))\<rparr>"

text \<open>
  \<open>CacheMiddleware\<close>: results by the digest of function and arguments, in the order they were stored; the oldest makes
  room. With no room at all \<open>next(iter(...))\<close> on the empty dict fails.
\<close>

type_synonym cache = "(string \<times> invocation option) list"

definition make_key :: "codec \<Rightarrow> 't middleware_context \<Rightarrow> string" where
  "make_key X c = cx_sha256 X (json_sorted X (JObj [(''function'', jopt_str (mx_function_name c)), (''args'', jopt (mx_arguments c))]))"

definition cache_store :: "int \<Rightarrow> string \<Rightarrow> invocation option \<Rightarrow> cache \<Rightarrow> exn + cache" where
  "cache_store max_entries key v cache = (if max_entries \<le> int (length cache)
     then (case cache of [] \<Rightarrow> Inl (PyExn ''RuntimeError'' ''coroutine raised StopIteration'') | _ # rest \<Rightarrow> Inr (AList.update key v rest))
     else Inr (AList.update key v cache))"

definition cache_hit :: "bool \<Rightarrow> 't middleware_context \<Rightarrow> 't middleware_context" where
  "cache_hit b c = c\<lparr>mx_metadata := AList.update ''_cache_hit'' (Plain (JBool b)) (mx_metadata c)\<rparr>"

definition cache_middleware :: "codec \<Rightarrow> int \<Rightarrow> ('s \<Rightarrow> cache) \<Rightarrow> (cache \<Rightarrow> 's \<Rightarrow> 's) \<Rightarrow> ('s, 't) middleware" where
  "cache_middleware X max_entries get put = \<lparr>mw_stages = Some [ToolStage], mw_process = (\<lambda>cont.
     bindA (queryA (\<lambda>(c, s). (make_key X c, map_of (get s) (make_key X c)))) (\<lambda>(key, found).
     case found of
       Some v \<Rightarrow> contextA (\<lambda>c. (cache_hit True c)\<lparr>mx_tool_result := v\<rparr>)
     | None \<Rightarrow> thenA (contextA (cache_hit False)) (thenA cont
         (bindA (queryA (\<lambda>(c, s). cache_store max_entries key (mx_tool_result c) (get s))) (\<lambda>r.
          case r of Inl e \<Rightarrow> raiseA e | Inr cache \<Rightarrow> execA (\<lambda>(c, s). (c, put cache s)))))))\<rparr>"

text \<open>\<open>s[:n]\<close>.\<close>

definition py_prefix :: "int \<Rightarrow> 'a list \<Rightarrow> 'a list" where
  "py_prefix n xs = (if 0 \<le> n then take (nat n) xs else take (length xs - nat (- n)) xs)"

definition truncate_text :: "int \<Rightarrow> string \<Rightarrow> string \<Rightarrow> string" where
  "truncate_text max_chars suffix t = (if int (length t) \<le> max_chars then t else py_prefix max_chars t @ suffix)"

definition content_truncator :: "int \<Rightarrow> string \<Rightarrow> ('s, 't) middleware" where
  "content_truncator max_chars suffix = \<lparr>mw_stages = Some [ToolStage], mw_process = (\<lambda>cont. thenA cont
     (contextA (\<lambda>c. c\<lparr>mx_tool_result := map_option (\<lambda>r. r\<lparr>iv_text := truncate_text max_chars suffix (iv_text r)\<rparr>) (mx_tool_result c)\<rparr>)))\<rparr>"

text \<open>\<open>FileValidatorMiddleware\<close>; \<open>exists\<close>, \<open>is_file\<close> and \<open>bytes_of\<close> are what the file system says of a path.\<close>

definition stopped_by :: "string \<Rightarrow> exn" where
  "stopped_by msg = KernelExn MiddlewareTermination msg None"

fun split_on :: "char \<Rightarrow> string \<Rightarrow> string list" where
  "split_on d [] = [[]]"
| "split_on d (c # cs) = (if c = d then [] # split_on d cs else (case split_on d cs of w # ws \<Rightarrow> (c # w) # ws | [] \<Rightarrow> [[c]]))"

definition path_parts :: "string \<Rightarrow> string list" where
  "path_parts p = filter (\<lambda>x. x \<noteq> [] \<and> x \<noteq> ''.'') (split_on (CHR ''/'') p)"

definition path_name :: "string \<Rightarrow> string" where
  "path_name p = (if path_parts p = [] then [] else last (path_parts p))"

definition path_suffix :: "string \<Rightarrow> string" where
  "path_suffix p = (let name = path_name p; ext = rev (takeWhile (\<lambda>c. c \<noteq> CHR ''.'') (rev name)) in
     if ext = [] \<or> length name \<le> Suc (length ext) then [] else CHR ''.'' # ext)"

definition names_a_file :: "string \<Rightarrow> bool" where
  "names_a_file key \<longleftrightarrow> contains_sub ''file'' (map low_char key) \<or> contains_sub ''path'' (map low_char key)"

definition check_file :: "codec \<Rightarrow> (string \<Rightarrow> bool) \<Rightarrow> (string \<Rightarrow> bool) \<Rightarrow> (string \<Rightarrow> int) \<Rightarrow> string list option \<Rightarrow> int \<Rightarrow> string \<times> json \<Rightarrow> exn option" where
  "check_file X exists is_file bytes_of allowed max_bytes kv = (case snd kv of
       JStr v \<Rightarrow>
         if \<not> names_a_file (fst kv) then None
         else if \<not> exists v then Some (stopped_by (''FileValidator: '' @ fst kv @ ''='' @ py_repr_str v @ '' does not exist''))
         else if \<not> is_file v then None
         else if (case allowed of None \<Rightarrow> False | Some xs \<Rightarrow> map low_char (path_suffix v) \<notin> set xs)
         then Some (stopped_by (''FileValidator: extension '' @ py_repr_str (map low_char (path_suffix v)) @ '' not in allowed set''))
         else if max_bytes < bytes_of v then Some (stopped_by (''FileValidator: '' @ path_name v @ '' exceeds '' @ show_int max_bytes @ '' byte limit''))
         else None
     | _ \<Rightarrow> None)"

definition argument_items :: "json option \<Rightarrow> (string \<times> json) list" where
  "argument_items a = (case a of Some (JObj kvs) \<Rightarrow> kvs | _ \<Rightarrow> [])"

definition file_validator ::
  "codec \<Rightarrow> ('s \<Rightarrow> string \<Rightarrow> bool) \<Rightarrow> ('s \<Rightarrow> string \<Rightarrow> bool) \<Rightarrow> ('s \<Rightarrow> string \<Rightarrow> int) \<Rightarrow> string list option \<Rightarrow> int \<Rightarrow> ('s, 't) middleware" where
  "file_validator X exists is_file bytes_of allowed max_bytes = \<lparr>mw_stages = Some [ToolStage], mw_process = (\<lambda>cont.
     bindA (queryA (\<lambda>(c, s). first_of (check_file X (exists s) (is_file s) (bytes_of s) allowed max_bytes) (argument_items (mx_arguments c)))) (\<lambda>bad.
     case bad of Some e \<Rightarrow> raiseA e | None \<Rightarrow> cont))\<rparr>"

text \<open>\<open>HistoryTruncatorMiddleware\<close>: the system turns and the newest of the others.\<close>

definition prune_history :: "int \<Rightarrow> chat_message list \<Rightarrow> chat_message list" where
  "prune_history max_messages ms =
     (let systems = filter (\<lambda>m. tm_role m = SYSTEM) ms; others = filter (\<lambda>m. tm_role m \<noteq> SYSTEM) ms;
          allowed = max 0 (max_messages - int (length systems)) in
      systems @ (if 0 < allowed then last_messages allowed others else []))"

definition context_messages :: "'t middleware_context \<Rightarrow> chat_message list" where
  "context_messages c = (case mx_messages c of None \<Rightarrow> [] | Some ms \<Rightarrow> ms)"

definition pruned_context :: "int \<Rightarrow> 't middleware_context \<Rightarrow> 't middleware_context" where
  "pruned_context max_messages c = (let ms = context_messages c in
     if int (length ms) \<le> max_messages then c
     else let kept = prune_history max_messages ms in
       c\<lparr>mx_messages := Some kept,
         mx_metadata := AList.update ''_pruned_message_count'' (Plain (JInt (int (length kept))))
           (AList.update ''_original_message_count'' (Plain (JInt (int (length ms)))) (mx_metadata c))\<rparr>)"

definition history_truncator :: "int \<Rightarrow> ('s, 't) middleware" where
  "history_truncator max_messages = \<lparr>mw_stages = Some [ChatStage], mw_process = (\<lambda>cont. thenA (contextA (pruned_context max_messages)) cont)\<rparr>"

text \<open>\<open>RateLimiterMiddleware\<close>: a bucket of tokens and when it was last filled up.\<close>

record bucket =
  bk_tokens :: rat
  bk_last :: rat

definition refilled :: "rat \<Rightarrow> rat \<Rightarrow> rat \<Rightarrow> bucket \<Rightarrow> bucket" where
  "refilled max_rate per_seconds now b = \<lparr>bk_tokens = min max_rate (bk_tokens b + (now - bk_last b) * (max_rate / per_seconds)), bk_last = now\<rparr>"

definition take_token :: "rat \<Rightarrow> rat \<Rightarrow> rat \<Rightarrow> bucket \<Rightarrow> bool \<times> bucket" where
  "take_token max_rate per_seconds now b = (let r = refilled max_rate per_seconds now b in
     if 1 \<le> bk_tokens r then (True, r\<lparr>bk_tokens := bk_tokens r - 1\<rparr>) else (False, r))"

definition rate_limiter :: "rat \<Rightarrow> rat \<Rightarrow> ('s, exn, rat) act \<Rightarrow> ('s \<Rightarrow> bucket) \<Rightarrow> (bucket \<Rightarrow> 's \<Rightarrow> 's) \<Rightarrow> ('s, 't) middleware" where
  "rate_limiter max_rate per_seconds clock get put = \<lparr>mw_stages = Some [TurnStage], mw_process = (\<lambda>cont.
     bindA (worldA clock) (\<lambda>now. bindA (queryA (\<lambda>(c, s). take_token max_rate per_seconds now (get s))) (\<lambda>(ok, b).
     thenA (execA (\<lambda>(c, s). (c, put b s))) (if ok then cont else raiseA (stopped_by ''Rate limit exceeded'')))))\<rparr>"

text \<open>\<open>RetryMiddleware\<close>; \<open>draw\<close> is the jitter and \<open>pause\<close> is the sleep.\<close>

definition worth_retrying :: "(exn \<Rightarrow> exn) \<Rightarrow> exn \<Rightarrow> bool" where
  "worth_retrying classify e = (case e of KernelExn c _ _ \<Rightarrow> is_subclass c TransientError
     | _ \<Rightarrow> (case classify e of KernelExn c _ _ \<Rightarrow> \<not> is_subclass c PermanentError | _ \<Rightarrow> True))"

definition call_backoff :: "nat \<Rightarrow> rat \<Rightarrow> rat \<Rightarrow> rat \<Rightarrow> rat" where
  "call_backoff attempt base max_delay jitter = min (base * 2 ^ attempt) max_delay + jitter"

fun retry_call :: "(exn \<Rightarrow> bool) \<Rightarrow> (nat \<Rightarrow> ('s, exn, unit) act) \<Rightarrow> ('s, exn, unit) act \<Rightarrow> nat \<Rightarrow> nat \<Rightarrow> ('s, exn, unit) act" where
  "retry_call again wait m 0 attempt = m"
| "retry_call again wait m (Suc n) attempt = catchA m (\<lambda>e. if again e then thenA (wait attempt) (retry_call again wait m n (Suc attempt)) else raiseA e)"

definition retry_middleware ::
  "(exn \<Rightarrow> exn) \<Rightarrow> int \<Rightarrow> (exn \<Rightarrow> bool) \<Rightarrow> rat \<Rightarrow> rat \<Rightarrow> ('s, exn, rat) act \<Rightarrow> (rat \<Rightarrow> ('s, exn, unit) act) \<Rightarrow> ('s, 't) middleware" where
  "retry_middleware classify max_retries retryable base max_delay draw pause = \<lparr>mw_stages = Some [ChatStage], mw_process = (\<lambda>cont.
     retry_call (\<lambda>e. retryable e \<and> worth_retrying classify e)
       (\<lambda>attempt. worldA (bindA draw (\<lambda>j. pause (call_backoff attempt base max_delay j)))) cont (nat max_retries) 0)\<rparr>"

text \<open>\<open>SchemaValidatorMiddleware\<close>: the first block of the answer against a schema in \<open>metadata\<close>.\<close>

definition meta_set :: "string \<Rightarrow> json \<Rightarrow> 't middleware_context \<Rightarrow> 't middleware_context" where
  "meta_set k v c = c\<lparr>mx_metadata := AList.update k (Plain v) (mx_metadata c)\<rparr>"

definition is_none :: "meta option \<Rightarrow> bool" where
  "is_none m = (case m of None \<Rightarrow> True | Some (Plain JNull) \<Rightarrow> True | _ \<Rightarrow> False)"

definition read_schema :: "meta option \<Rightarrow> string \<Rightarrow> json option" where
  "read_schema m t = (case m of Some (Schema f) \<Rightarrow> f t | _ \<Rightarrow> None)"

definition first_text :: "content list \<Rightarrow> string" where
  "first_text bs = (case bs of TextBlock t # _ \<Rightarrow> t | _ \<Rightarrow> [])"

definition validated :: "'t middleware_context \<Rightarrow> 't middleware_context" where
  "validated c = (let schema = map_of (mx_metadata c) ''response_schema'' in
     case mx_chat_result c of None \<Rightarrow> c
     | Some r \<Rightarrow>
         if is_none schema then c
         else if \<not> is_none (map_of (mx_metadata c) ''parsed'') then meta_set ''schema_valid'' (JBool True) c
         else if first_text (lr_content r) = [] then c
         else (case read_schema schema (first_text (lr_content r)) of
             Some v \<Rightarrow> meta_set ''schema_valid'' (JBool True) (meta_set ''parsed'' v c)
           | None \<Rightarrow> meta_set ''schema_valid'' (JBool False) c))"

definition schema_validator :: "('s, 't) middleware" where
  "schema_validator = \<lparr>mw_stages = Some [ChatStage], mw_process = (\<lambda>cont. thenA cont (contextA validated))\<rparr>"

end
