(* ===== verification/Generation.thy ===== *)
theory Generation
  imports Middleware Context_Wait
begin

text \<open>
  A model call as the run's handle makes it (\<open>runtime/context.py\<close>: \<open>_generate\<close>, \<open>_through_middleware\<close>, \<open>_stream\<close>) and the
  way of a tool call through the pipeline (\<open>_invoke_through_middleware\<close>). The client is an argument: its name, what it can do, and
  the events it streams, which are read before they are looked at.
\<close>

section \<open>The client\<close>

record 't generation_options =
  go_tools :: "'t list option"
  go_system_instructions :: string
  go_tool_choice :: "string option"
  go_reasoning :: "string option"

record completion =
  cp_content :: "content list"
  cp_usage :: usage
  cp_finish_reason :: string
  cp_response_id :: "string option"
  cp_served_model :: "string option"

datatype stream_event = TextDelta string | ReasoningDelta string | CompletionEvent completion | OtherEvent

record ('s, 't) chat_model =
  cm_model :: string
  cm_capabilities :: model_capabilities
  cm_stream :: "chat_message list \<Rightarrow> 't generation_options \<Rightarrow> ('s, exn, stream_event list) act"

section \<open>The stream\<close>

text \<open>What was read: the pieces of text, the two buffers, when they were last written, and the last completion.\<close>

record streaming =
  sg_text :: "string list"
  sg_text_buffer :: string
  sg_reasoning_buffer :: string
  sg_last_flush :: rat
  sg_completion :: "completion option"

definition stream_flush_chars :: nat where
  "stream_flush_chars = 96"

definition stream_flush_s :: rat where
  "stream_flush_s = 1 / 20"

definition delta_entries :: "streaming \<Rightarrow> new_entry list" where
  "delta_entries g = (if sg_text_buffer g = [] then [] else [entry ''text.delta'' (JObj [(''text'', JStr (sg_text_buffer g))]) None]) @
     (if sg_reasoning_buffer g = [] then [] else [entry ''reasoning.delta'' (JObj [(''text'', JStr (sg_reasoning_buffer g))]) None])"

text \<open>\<open>ticks\<close> are the readings of the monotonic clock, in seconds.\<close>

definition flush_stream :: "('b, 'x) run_context \<Rightarrow> (nat \<Rightarrow> rat) \<Rightarrow> streaming \<Rightarrow> ('b, 'x, streaming) capability" where
  "flush_stream C ticks g = thenA (if delta_entries g = [] then retA () else live_entries C (delta_entries g))
     (bindA (storeA (drawT ticks)) (\<lambda>now. retA (g\<lparr>sg_text_buffer := [], sg_reasoning_buffer := [], sg_last_flush := now\<rparr>)))"

fun take_event :: "stream_event \<Rightarrow> streaming \<Rightarrow> streaming" where
  "take_event (TextDelta t) g = g\<lparr>sg_text := sg_text g @ [t], sg_text_buffer := sg_text_buffer g @ t\<rparr>"
| "take_event (ReasoningDelta t) g = g\<lparr>sg_reasoning_buffer := sg_reasoning_buffer g @ t\<rparr>"
| "take_event (CompletionEvent c) g = g\<lparr>sg_completion := Some c\<rparr>"
| "take_event OtherEvent g = g"

definition buffered :: "streaming \<Rightarrow> nat" where
  "buffered g = length (sg_text_buffer g) + length (sg_reasoning_buffer g)"

definition flush_if_due :: "('b, 'x) run_context \<Rightarrow> (nat \<Rightarrow> rat) \<Rightarrow> streaming \<Rightarrow> ('b, 'x, streaming) capability" where
  "flush_if_due C ticks g =
     (if stream_flush_chars \<le> buffered g then flush_stream C ticks g
      else if buffered g = 0 then retA g
      else bindA (storeA (drawT ticks)) (\<lambda>now. if stream_flush_s \<le> now - sg_last_flush g then flush_stream C ticks g else retA g))"

fun take_events :: "('b, 'x) run_context \<Rightarrow> (nat \<Rightarrow> rat) \<Rightarrow> stream_event list \<Rightarrow> streaming \<Rightarrow> ('b, 'x, streaming) capability" where
  "take_events C ticks [] g = retA g"
| "take_events C ticks (e # es) g = bindA (flush_if_due C ticks (take_event e g)) (take_events C ticks es)"

text \<open>An answer that came in one piece is shown to those who watch as one chunk.\<close>

definition as_one_chunk :: "streaming \<Rightarrow> streaming" where
  "as_one_chunk g = (case sg_completion g of None \<Rightarrow> g
     | Some c \<Rightarrow> let answer = concat (texts (cp_content c)) in
         if sg_text g = [] \<and> answer \<noteq> [] then g\<lparr>sg_text := [answer], sg_text_buffer := sg_text_buffer g @ answer\<rparr> else g)"

definition no_usage :: usage where
  "no_usage = \<lparr>us_input = 0, us_cached = 0, us_output = 0, us_reasoning = 0, us_cache_write = 0\<rparr>"

definition response_of :: "model_capabilities \<Rightarrow> streaming \<Rightarrow> llm_response" where
  "response_of caps g = (case sg_completion g of
       None \<Rightarrow> \<lparr>lr_content = [TextBlock (concat (sg_text g))], lr_usage = no_usage, lr_cost_usd = cost_usd caps no_usage,
         lr_finish_reason = ''unspecified'', lr_response_id = None, lr_served_model = None\<rparr>
     | Some c \<Rightarrow> \<lparr>lr_content = cp_content c, lr_usage = cp_usage c, lr_cost_usd = cost_usd caps (cp_usage c),
         lr_finish_reason = cp_finish_reason c, lr_response_id = cp_response_id c, lr_served_model = cp_served_model c\<rparr>)"

type_synonym ('b, 'x, 't) client = "(journal \<times> ('b, 'x) world, 't) chat_model"

definition stream_answer ::
  "('b, 'x) run_context \<Rightarrow> (nat \<Rightarrow> rat) \<Rightarrow> ('b, 'x, 't) client \<Rightarrow> chat_message list \<Rightarrow> 't generation_options \<Rightarrow> ('b, 'x, llm_response) capability" where
  "stream_answer C ticks M ms opts =
     bindA (storeA (drawT ticks)) (\<lambda>start.
     bindA (cm_stream M ms opts) (\<lambda>events.
     bindA (take_events C ticks events \<lparr>sg_text = [], sg_text_buffer = [], sg_reasoning_buffer = [], sg_last_flush = start, sg_completion = None\<rparr>) (\<lambda>g.
     bindA (flush_stream C ticks (as_one_chunk g)) (\<lambda>done. retA (response_of (cm_capabilities M) done)))))"

section \<open>Through the pipeline\<close>

text \<open>A dispatch: the pipeline runs on a fresh context, which is looked at afterwards.\<close>

definition dispatched :: "'t middleware_context \<Rightarrow> ('s, 't) link \<Rightarrow> ('s, exn, 't middleware_context) act" where
  "dispatched c m = (\<lambda>s. case m (c, s) of (r, (c', s')) \<Rightarrow> (map_sum id (\<lambda>_. c') r, s'))"

text \<open>The last link: \<open>f\<close> works on the state, and its result goes into the context.\<close>

definition finalA :: "('t middleware_context \<Rightarrow> ('s, exn, 'a) act) \<Rightarrow> ('a \<Rightarrow> 't middleware_context \<Rightarrow> 't middleware_context) \<Rightarrow> ('s, 't) link" where
  "finalA f put = bindA (queryA fst) (\<lambda>c. bindA (worldA (f c)) (\<lambda>a. contextA (put a)))"

definition or_messages :: "'t middleware_context \<Rightarrow> chat_message list \<Rightarrow> chat_message list" where
  "or_messages c ms = (if context_messages c = [] then ms else context_messages c)"

definition through_middleware ::
  "('b, 'x) run_context \<Rightarrow> (nat \<Rightarrow> rat) \<Rightarrow> (journal \<times> ('b, 'x) world, 't) middleware list \<Rightarrow> ('b, 'x, 't) client \<Rightarrow> chat_message list
     \<Rightarrow> 't generation_options \<Rightarrow> ('b, 'x, llm_response) capability" where
  "through_middleware C ticks mws M ms opts =
     bindA (dispatched ((blank_context ChatStage (actor_str (rc_agent C)) (rc_run C))\<lparr>mx_messages := Some ms,
             mx_system_instructions := Some (go_system_instructions opts), mx_tools := go_tools opts\<rparr>)
         (execute mws (finalA (\<lambda>c. stream_answer C ticks M (or_messages c ms) opts) (\<lambda>r c. c\<lparr>mx_chat_result := Some r\<rparr>)))) (\<lambda>c.
     case mx_chat_result c of Some r \<Rightarrow> retA r
     | None \<Rightarrow> raiseA (PyExn ''RuntimeError'' ''the middleware pipeline finished without producing a chat result''))"

text \<open>\<open>_generate\<close>: a failure is classified. \<open>classify\<close> is \<open>classify_llm_error\<close> with what it looks at.\<close>

definition generate ::
  "('b, 'x) run_context \<Rightarrow> (nat \<Rightarrow> rat) \<Rightarrow> (exn \<Rightarrow> exn) \<Rightarrow> (journal \<times> ('b, 'x) world, 't) middleware list \<Rightarrow> ('b, 'x, 't) client
     \<Rightarrow> chat_message list \<Rightarrow> 't generation_options \<Rightarrow> ('b, 'x, llm_response) capability" where
  "generate C ticks classify mws M ms opts = catchA (through_middleware C ticks mws M ms opts)
     (\<lambda>e. raiseA (if is_exception e then classify e else e))"

text \<open>A tool call; \<open>call\<close> is the invocation itself.\<close>

definition invoke_through_middleware ::
  "('b, 'x) run_context \<Rightarrow> (journal \<times> ('b, 'x) world, 't) middleware list \<Rightarrow> string \<Rightarrow> json \<Rightarrow> ('b, 'x, invocation) capability
     \<Rightarrow> ('b, 'x, invocation) capability" where
  "invoke_through_middleware C mws name args call =
     bindA (dispatched ((blank_context ToolStage (actor_str (rc_agent C)) (rc_run C))\<lparr>mx_function_name := Some name, mx_arguments := Some args\<rparr>)
         (execute mws (finalA (\<lambda>_. call) (\<lambda>r c. c\<lparr>mx_tool_result := Some r\<rparr>)))) (\<lambda>c.
     case mx_tool_result c of Some r \<Rightarrow> retA r
     | None \<Rightarrow> raiseA (PyExn ''RuntimeError'' ''the middleware pipeline finished without producing a tool result''))"

end
