(* ===== verification/Middleware_Claims.thy ===== *)
theory Middleware_Claims
  imports Generation Demo Journal_Store
begin

text \<open>
  What the interceptors guarantee: a limiter admits no more than its bucket and its rate allow, a call is retried a bounded
  number of times, a cached call is answered from the cache; and where two of them go wrong.
\<close>

section \<open>The limiter\<close>

text \<open>How many of the turns that come at these times are let through.\<close>

fun admitted :: "rat \<Rightarrow> rat \<Rightarrow> rat list \<Rightarrow> bucket \<Rightarrow> nat" where
  "admitted max_rate per_seconds [] b = 0"
| "admitted max_rate per_seconds (t # ts) b = (case take_token max_rate per_seconds t b of
     (ok, b') \<Rightarrow> (if ok then 1 else 0) + admitted max_rate per_seconds ts b')"

lemma admitted_tokens:
  assumes "0 < per_seconds" and "0 \<le> max_rate" and "sorted (bk_last b # ts)"
  shows "of_nat (admitted max_rate per_seconds ts b) \<le> max 0 (bk_tokens b) + (last (bk_last b # ts) - bk_last b) * (max_rate / per_seconds)"
  using assms(3)
proof (induction ts arbitrary: b)
  case (Cons t ts)
  let ?b = "snd (take_token max_rate per_seconds t b)" and ?n = "fst (take_token max_rate per_seconds t b)"
  let ?rate = "max_rate / per_seconds"
  have rate: "0 \<le> ?rate" using assms(1,2) by simp
  have at: "bk_last ?b = t" by (simp add: take_token_def refilled_def Let_def)
  have "bk_last b \<le> t" using Cons.prems by simp
  then have more: "0 \<le> (t - bk_last b) * ?rate" by (intro mult_nonneg_nonneg rate) simp
  have spent: "(if ?n then 1 else 0) + max 0 (bk_tokens ?b) \<le> max 0 (bk_tokens b) + (t - bk_last b) * ?rate"
    using more by (auto simp: take_token_def refilled_def Let_def max_def min_def)
  have "of_nat (admitted max_rate per_seconds ts ?b) \<le> max 0 (bk_tokens ?b) + (last (t # ts) - t) * ?rate"
    using Cons.IH [of ?b] Cons.prems at by simp
  moreover have "(last (t # ts) - t) * ?rate + (t - bk_last b) * ?rate = (last (t # ts) - bk_last b) * ?rate"
    by (simp add: algebra_simps)
  ultimately have all: "(if ?n then 1 else 0) + of_nat (admitted max_rate per_seconds ts ?b)
      \<le> max 0 (bk_tokens b) + (last (t # ts) - bk_last b) * ?rate" using spent by linarith
  have "of_nat (admitted max_rate per_seconds (t # ts) b) = (if ?n then 1 else 0) + (of_nat (admitted max_rate per_seconds ts ?b) :: rat)"
    by (simp add: split_beta)
  with all show ?case by (simp only: last_ConsR list.distinct not_False_eq_True)
qed simp

text \<open>
  C39. In no stretch of time that begins with at most a full bucket are more turns admitted than a full bucket and what the rate
  adds in that time.
\<close>

theorem rate_bounded:
  assumes "0 < per_seconds" and "0 \<le> max_rate" and "bk_tokens b \<le> max_rate" and "sorted (bk_last b # ts)"
  shows "of_nat (admitted max_rate per_seconds ts b) \<le> max_rate + (last (bk_last b # ts) - bk_last b) * (max_rate / per_seconds)"
  using admitted_tokens [OF assms(1,2,4)] assms(2,3) by simp

theorem rate_bounded_witness:
  "admitted 2 1 [0, 0, 0, 1] \<lparr>bk_tokens = 2, bk_last = 0\<rparr> = 3 \<and> rat_of_nat (admitted 2 1 [0, 0, 0, 1] \<lparr>bk_tokens = 2, bk_last = 0\<rparr>) \<le> 2 + 1 * (2 / 1)"
  using rate_bounded [where per_seconds = 1 and max_rate = 2 and b = "\<lparr>bk_tokens = 2, bk_last = 0\<rparr>" and ts = "[0, 0, 0, 1]"]
  by (simp add: take_token_def refilled_def)

lemma bucket_full: "bk_tokens (snd (take_token max_rate per_seconds t b)) \<le> max_rate"
  by (auto simp: take_token_def refilled_def Let_def min_def)

section \<open>Retries\<close>

lemma retry_attempts:
  assumes m: "\<And>s. leaves m (\<lambda>r t. f t = f s + 1) s" and w: "\<And>k s. leaves (wait k) (\<lambda>r t. (\<exists>u. r = Inr u) \<and> f t = f s) s"
  shows "leaves (retry_call again wait m n k) (\<lambda>r t. f s < f t \<and> f t \<le> f s + n + 1 \<and> (\<forall>e. r = Inl e \<longrightarrow> again e \<longrightarrow> f t = f s + n + 1)) s"
proof (induction n arbitrary: k s)
  case 0
  show ?case by (simp, rule leaves_weaken [OF m]) (simp add: less_Suc_eq_le)
next
  case (Suc n)
  have later: "leaves (thenA (wait k) (retry_call again wait m n (Suc k)))
      (\<lambda>r t. f s < f t \<and> f t \<le> f s + Suc n + 1 \<and> (\<forall>e. r = Inl e \<longrightarrow> again e \<longrightarrow> f t = f s + Suc n + 1)) u" if "f u = f s + 1" for u
    by (rule leaves_seq [OF w]) (auto intro!: leaves_weaken [OF Suc.IH] simp: that)
  show ?case unfolding retry_call.simps
  proof (rule leaves_try [OF m], goal_cases)
    case (2 e t)
    then show ?case using later [of t] by (cases "again e") simp_all
  qed simp
qed

text \<open>
  A model call is made at least once and at most one time more than the retries; when it fails in the end with an error
  worth another try, every retry was used. \<open>f\<close> counts the calls.
\<close>

theorem calls_bounded:
  fixes f :: "'t middleware_context \<times> 's \<Rightarrow> nat"
  assumes "\<And>s. leaves m (\<lambda>r t. f t = f s + 1) s"
    and "\<And>s. leaves (worldA draw) (\<lambda>r t. (\<exists>q. r = Inr q) \<and> f t = f s) s" and "\<And>q s. leaves (worldA (pause q)) (\<lambda>r t. (\<exists>u. r = Inr u) \<and> f t = f s) s"
    and "mw_process (retry_middleware classify retries retryable base longest draw pause) m s = (r, t)"
  shows "f s < f t \<and> f t \<le> f s + nat retries + 1 \<and>
    (\<forall>e. r = Inl e \<longrightarrow> retryable e \<longrightarrow> worth_retrying classify e \<longrightarrow> f t = f s + nat retries + 1)"
proof -
  let ?wait = "\<lambda>attempt. worldA (bindA draw (\<lambda>j. pause (call_backoff attempt base longest j)))"
  have split: "?wait k = bindA (worldA draw) (\<lambda>j. worldA (pause (call_backoff k base longest j)))" for k
    by (rule ext) (simp add: onA_def bindA_def split: prod.split sum.split)
  have "leaves (?wait k) (\<lambda>r t. (\<exists>u. r = Inr u) \<and> f t = f u) u" for k u
    unfolding split
  proof (rule leaves_seq [OF assms(2)], goal_cases)
    case (2 j t)
    show ?case by (rule leaves_weaken [OF assms(3)]) (use 2 in simp)
  qed simp
  from leaves_run [OF retry_attempts [where again = "\<lambda>e. retryable e \<and> worth_retrying classify e", OF assms(1) this]]
  show ?thesis using assms(4) by (simp add: retry_middleware_def)
qed

text \<open>A client that is out of service, and counts how often it was called.\<close>

definition unavailable :: "(nat, unit) link" where
  "unavailable = (\<lambda>(c, n). (Inl (KernelExn ServiceUnavailableError ''down'' None), (c, Suc n)))"

definition three_retries :: "(nat, unit) middleware" where
  "three_retries = retry_middleware id 3 is_exception 1 30 (retA 0) (\<lambda>_. retA ())"

theorem calls_bounded_witness:
  "snd (snd (mw_process three_retries unavailable (blank_context ChatStage ''a'' ''r'', 0))) = 4"
proof -
  let ?s = "(blank_context ChatStage ''a'' ''r'', 0 :: nat) :: unit middleware_context \<times> nat"
  obtain r t where run: "mw_process three_retries unavailable ?s = (r, t)" by (cases "mw_process three_retries unavailable ?s")
  have failed: "r = Inl (KernelExn ServiceUnavailableError ''down'' None)"
    using run by (auto simp: three_retries_def retry_middleware_def numeral_3_eq_3 catchA_def unavailable_def bindA_def onA_def retA_def
        raiseA_def split: if_splits)
  have "is_exception (KernelExn ServiceUnavailableError ''down'' None)" by (simp add: is_exception_def)
  moreover have "worth_retrying id (KernelExn ServiceUnavailableError ''down'' None)" by (simp add: worth_retrying_def is_subclass_def)
  moreover have "snd ?s < snd t \<and> snd t \<le> snd ?s + nat 3 + 1 \<and>
      (\<forall>e. r = Inl e \<longrightarrow> is_exception e \<longrightarrow> worth_retrying id e \<longrightarrow> snd t = snd ?s + nat 3 + 1)"
    by (rule calls_bounded [where m = unavailable, OF _ _ _ run [unfolded three_retries_def]])
      (simp_all add: unavailable_def leaves_def split_beta onA_def retA_def)
  ultimately show ?thesis using run failed by simp
qed

section \<open>The cache\<close>

lemma stored_found: "cache_store n key v cache = Inr cache' \<Longrightarrow> map_of cache' key = Some v"
  by (auto simp: cache_store_def update_conv' split: if_splits list.splits)

lemma stored_bounded: "cache_store n key v cache = Inr cache' \<Longrightarrow> int (length cache) \<le> n \<Longrightarrow> int (length cache') \<le> n"
proof -
  have len: "length (AList.update k v xs) \<le> Suc (length xs)" for k :: string and v :: "invocation option" and xs
    by (induction xs) auto
  assume "cache_store n key v cache = Inr cache'" "int (length cache) \<le> n"
  then show ?thesis using len [of key v cache] len [of key v "tl cache"] by (auto simp: cache_store_def split: if_splits list.splits)
qed

text \<open>
  Whatever a call was answered, refusals and errors included, the same call is answered again, and whatever is behind the
  cache is not asked.
\<close>

theorem cached_answer:
  assumes "\<And>v s. get (put v s) = v" and "mw_process (cache_middleware X n get put) m (c, s) = (Inr (), (c', s'))"
    and "mx_function_name d = mx_function_name c" and "mx_arguments d = mx_arguments c"
  shows "mw_process (cache_middleware X n get put) m' (d, s') = (Inr (), ((cache_hit True d)\<lparr>mx_tool_result := mx_tool_result c'\<rparr>, s'))"
proof -
  have key: "make_key X d = make_key X c" using assms(3,4) by (simp add: make_key_def)
  have "map_of (get s') (make_key X c) = Some (mx_tool_result c')"
  proof (cases "map_of (get s) (make_key X c)")
    case None
    obtain r c1 s1 where run: "m (cache_hit False c, s) = (r, (c1, s1))" by (cases "m (cache_hit False c, s)") auto
    from assms(2) None run obtain cache where "cache_store n (make_key X c) (mx_tool_result c1) (get s1) = Inr cache" "c' = c1" "s' = put cache s1"
      by (auto simp: cache_middleware_def bindA_def queryA_def contextA_def execA_def raiseA_def split: sum.splits)
    then show ?thesis by (simp add: assms(1) stored_found)
  next
    case (Some v)
    with assms(2) show ?thesis by (auto simp: cache_middleware_def bindA_def queryA_def contextA_def execA_def)
  qed
  then show ?thesis by (simp add: cache_middleware_def bindA_def queryA_def contextA_def execA_def key)
qed

text \<open>A refusal sticks: the call was denied once, and stays denied when it would be allowed.\<close>

definition refused_call :: invocation where
  "refused_call = failed_call ''denied'' ''Approval denied''"

definition answering :: "invocation \<Rightarrow> (cache, unit) link" where
  "answering iv = contextA (\<lambda>c. c\<lparr>mx_tool_result := Some iv\<rparr>)"

definition cached :: "(cache, unit) middleware" where
  "cached = cache_middleware plain_codec 256 id (\<lambda>v _. v)"

definition asking :: "unit middleware_context" where
  "asking = (blank_context ToolStage ''agent'' ''r'')\<lparr>mx_function_name := Some ''mail'', mx_arguments := Some (JObj [])\<rparr>"

definition shown_status :: "(exn + unit) \<times> (unit middleware_context \<times> cache) \<Rightarrow> string" where
  "shown_status r = (case mx_tool_result (fst (snd r)) of None \<Rightarrow> [] | Some iv \<Rightarrow> iv_status iv)"

theorem cached_answer_witness:
  "let (r, (c, s)) = mw_process cached (answering refused_call) (asking, []) in
     shown_status (mw_process cached (answering (failed_call ''ok'' ''sent'')) (asking, s)) = ''denied''"
proof -
  obtain r c s where run: "mw_process cached (answering refused_call) (asking, []) = (r, (c, s))"
    by (cases "mw_process cached (answering refused_call) (asking, [])") auto
  then have ok: "r = Inr ()" "mx_tool_result c = Some refused_call"
    by (auto simp: cached_def cache_middleware_def answering_def bindA_def queryA_def contextA_def execA_def cache_store_def)
  from cached_answer [where get = id and put = "\<lambda>v _. v" and d = asking and m' = "answering (failed_call ''ok'' ''sent'')"] run ok
  have "mw_process cached (answering (failed_call ''ok'' ''sent'')) (asking, s) = (Inr (), ((cache_hit True asking)\<lparr>mx_tool_result := Some refused_call\<rparr>, s))"
    unfolding cached_def by fastforce
  with run show ?thesis by (simp add: shown_status_def refused_call_def failed_call_def)
qed

text \<open>A cache with no room loses the result of a tool that ran.\<close>

theorem cache_without_room:
  "fst (mw_process (cache_middleware plain_codec 0 id (\<lambda>v _. v)) (answering (failed_call ''ok'' ''sent'')) (asking, [])) =
     Inl (PyExn ''RuntimeError'' ''coroutine raised StopIteration'')"
  by (simp add: cache_middleware_def answering_def bindA_def queryA_def contextA_def execA_def cache_store_def raiseA_def)

section \<open>A shortened history\<close>

lemma pruned_length: "int (length (prune_history n ms)) \<le> max n (int (length (filter (\<lambda>m. tm_role m = SYSTEM) ms)))"
  by (auto simp: prune_history_def last_messages_def Let_def)

text \<open>The history is cut by number alone: a result is kept whose call is gone.\<close>

theorem pruning_leaves_an_orphan:
  "prune_history 1 [turn USER [TextBlock ''hi''], turn ASSISTANT [ToolUseBlock ''c'' ''look'' (JObj []) None (JObj [])],
     turn TOOL [ToolResultBlock ''c'' ''look'' [TextBlock ''done''] False]] = [turn TOOL [ToolResultBlock ''c'' ''look'' [TextBlock ''done''] False]]"
  by (simp add: prune_history_def last_messages_def turn_def)

text \<open>A limit of no messages sends them all: an empty list counts as none given.\<close>

theorem pruned_to_nothing:
  assumes "ms \<noteq> []" and "\<forall>m\<in>set ms. tm_role m \<noteq> SYSTEM"
  shows "or_messages (pruned_context 0 (c\<lparr>mx_messages := Some ms\<rparr>)) ms = ms"
  using assms by (simp add: pruned_context_def prune_history_def or_messages_def context_messages_def Let_def)

end
