(* ===== verification/Agent_Base.thy ===== *)
theory Agent_Base
  imports Generation History Side
begin

text \<open>
  What agents that answer in turns have in common: whose work a message is (\<open>types/run.py\<close>), what a message carries
  (\<open>runtime/message.py\<close>), and the conversation around a turn (\<open>agents/base.py\<close>). An agent works with the run's
  handle, a session of tool calls, the store of its threads, and a desk: the scope of the message at hand and the workspace
  snapshot a tool reported.
\<close>

section \<open>Scope\<close>

record run_scope =
  sc_tenant_id :: "string option"
  sc_user_id :: "string option"
  sc_thread_id :: string
  sc_branch_id :: string
  sc_workspace_id :: string
  sc_mounts :: "(string \<times> string) list"
  sc_agent_id :: string
  sc_agent_label :: string
  sc_parent_agent_id :: "string option"

definition no_scope :: run_scope where
  "no_scope = \<lparr>sc_tenant_id = None, sc_user_id = None, sc_thread_id = [], sc_branch_id = ''main'', sc_workspace_id = [], sc_mounts = [],
     sc_agent_id = [], sc_agent_label = [], sc_parent_agent_id = None\<rparr>"

text \<open>\<open>str\<close> of a value that was not frozen: a list prints as a list.\<close>

fun plain_repr :: "codec \<Rightarrow> json \<Rightarrow> string" where
  "plain_repr X (JList js) = ''['' @ join_with '', '' (map (plain_repr X) js) @ '']''"
| "plain_repr X (JObj kvs) = ''{'' @ join_with '', '' (map (\<lambda>(k, v). py_repr_str k @ '': '' @ plain_repr X v) kvs) @ ''}''"
| "plain_repr X j = py_repr X j"

definition plain_str :: "codec \<Rightarrow> json \<Rightarrow> string" where
  "plain_str X j = (case as_text X j of Some s \<Rightarrow> s | None \<Rightarrow> plain_repr X j)"

definition meta_text :: "codec \<Rightarrow> json \<Rightarrow> string \<Rightarrow> string option" where
  "meta_text X metadata key = (case jget key metadata of None \<Rightarrow> None | Some v \<Rightarrow> if truthy v then Some (plain_str X v) else None)"

definition str_or :: "string option \<Rightarrow> string \<Rightarrow> string" where
  "str_or x d = (case x of None \<Rightarrow> d | Some s \<Rightarrow> if s = [] then d else s)"

definition mounts_of :: "codec \<Rightarrow> json option \<Rightarrow> (string \<times> string) list" where
  "mounts_of X raw = (case raw of Some (JObj kvs) \<Rightarrow>
       sort (map (\<lambda>(k, v). (k, plain_str X v)) (filter (\<lambda>(k, v). k \<noteq> [] \<and> truthy v) kvs))
     | _ \<Rightarrow> [])"

definition scope_from_metadata :: "codec \<Rightarrow> json \<Rightarrow> string \<Rightarrow> string \<Rightarrow> string \<Rightarrow> run_scope" where
  "scope_from_metadata X metadata thread_id agent_id agent_label =
     \<lparr>sc_tenant_id = meta_text X metadata ''tenant_id'', sc_user_id = meta_text X metadata ''user_id'',
      sc_thread_id = str_or (meta_text X metadata ''thread_id'') thread_id, sc_branch_id = str_or (meta_text X metadata ''branch_id'') ''main'',
      sc_workspace_id = str_or (meta_text X metadata ''workspace_id'') [], sc_mounts = mounts_of X (jget ''workspace_mounts'' metadata),
      sc_agent_id = agent_id, sc_agent_label = agent_label, sc_parent_agent_id = meta_text X metadata ''parent_agent_id''\<rparr>"

definition workspace_of :: "run_scope \<Rightarrow> string" where
  "workspace_of s = (if sc_workspace_id s = [] then sc_thread_id s else sc_workspace_id s)"

definition child_metadata :: "run_scope \<Rightarrow> json" where
  "child_metadata s = JObj (filter (\<lambda>(k, v). truthy v)
     [(''tenant_id'', jopt_str (sc_tenant_id s)), (''user_id'', jopt_str (sc_user_id s)), (''thread_id'', JStr (sc_thread_id s)),
      (''branch_id'', JStr (sc_branch_id s)), (''workspace_id'', JStr (sc_workspace_id s)),
      (''workspace_mounts'', JObj (map (\<lambda>(k, v). (k, JStr v)) (sc_mounts s))),
      (''parent_agent_id'', if sc_agent_id s = [] then JNull else JStr (sc_agent_id s))])"

section \<open>What a message carries\<close>

definition role_of :: "string \<Rightarrow> role" where
  "role_of s = (if s = ''system'' then SYSTEM else if s = ''user'' then USER else if s = ''assistant'' then ASSISTANT else TOOL)"

definition wrapped :: "exn \<Rightarrow> exn" where
  "wrapped e = (case e of KernelExn BlockValidationError msg w \<Rightarrow> invalid_value msg | _ \<Rightarrow> e)"

definition parse_chat_message :: "codec \<Rightarrow> json \<Rightarrow> exn + chat_message" where
  "parse_chat_message X j =
     (case nested_blocks j (sequence_results (map (parse_content_block X False) (nested_items j))) of
        Inl e \<Rightarrow> Inl (wrapped e)
      | Inr bs \<Rightarrow> (case (needed ''role'' (one_of (map role_value [SYSTEM, USER, ASSISTANT, TOOL])) j,
            having ''name'' (nullable (as_text X)) None j, having ''metadata'' as_object (JObj []) j) of
          (Some r, Some n, Some m) \<Rightarrow> Inr \<lparr>tm_role = role_of r, tm_content = bs, tm_name = n, tm_metadata = m\<rparr>
        | _ \<Rightarrow> Inl (invalid_value ''ChatMessage'')))"

text \<open>The payloads an agent may be sent; the fields of the other two registered kinds are not looked into here.\<close>

datatype payload = ChatPayload chat_message | DataPayload json | OtherPayload string

definition read_payload :: "codec \<Rightarrow> json \<Rightarrow> exn + payload" where
  "read_payload X j = (case as_object j of None \<Rightarrow> Inl (PyExn ''TypeError'' ''payload must be a PayloadBase subclass or dict'')
     | Some _ \<Rightarrow> (case jget ''kind'' j of
         Some (JStr k) \<Rightarrow>
           if k = ''chat'' then (case needed ''message'' as_object j of None \<Rightarrow> Inl (invalid_value ''ChatPayload'')
              | Some m \<Rightarrow> map_sum id ChatPayload (parse_chat_message X m))
           else if k = ''data'' then (case needed ''data'' as_object j of None \<Rightarrow> Inl (invalid_value ''DataPayload'') | Some d \<Rightarrow> Inr (DataPayload d))
           else if k = ''tool_call'' then Inr (OtherPayload ''ToolCallRequest'')
           else if k = ''tool_result'' then Inr (OtherPayload ''ToolExecutionResult'')
           else Inl (invalid_value (''Unknown payload kind: '' @ py_repr_str k))
       | _ \<Rightarrow> Inl (invalid_value ''Unknown payload kind'')))"

definition data_text :: "codec \<Rightarrow> json \<Rightarrow> string" where
  "data_text X d = plain_str X (case jget ''text'' d of Some v \<Rightarrow> v | None \<Rightarrow> d)"

definition message_to_chat :: "codec \<Rightarrow> payload \<Rightarrow> chat_message" where
  "message_to_chat X p = (case p of ChatPayload m \<Rightarrow> m | DataPayload d \<Rightarrow> turn USER [TextBlock (data_text X d)]
     | OtherPayload name \<Rightarrow> turn USER [TextBlock name])"

section \<open>The desk\<close>

record desk =
  dk_scope :: run_scope
  dk_snapshot :: "string option"

definition empty_desk :: desk where
  "empty_desk = \<lparr>dk_scope = no_scope, dk_snapshot = None\<rparr>"

type_synonym 'z room = "thread_db \<times> desk \<times> 'z"
type_synonym ('b, 'z, 'a) turn_act = "('b, 'z room, 'a) bench"
type_synonym ('b, 'z) turn_state = "journal \<times> ('b, session \<times> 'z room) world"

definition threads_in :: "('b, 'z) turn_state \<Rightarrow> thread_db" where
  "threads_in s = fst (snd (side s))"

definition desk_in :: "('b, 'z) turn_state \<Rightarrow> desk" where
  "desk_in s = fst (snd (snd (side s)))"

text \<open>A transaction on the store of threads, and a note on the desk.\<close>

definition threadA :: "'a thread_tx \<Rightarrow> ('b, 'z, 'a) turn_act" where
  "threadA m = onA threads_in (\<lambda>t (j, d, b, ss, _, y). (j, d, b, ss, t, y)) (txA m)"

definition deskA :: "(desk \<Rightarrow> desk) \<Rightarrow> ('b, 'z, unit) turn_act" where
  "deskA f = execA (\<lambda>(j, d, b, ss, t, k, z). (j, d, b, ss, t, f k, z))"

definition set_scope :: "run_scope \<Rightarrow> ('b, 'z, unit) turn_act" where
  "set_scope sc = deskA (\<lambda>k. k\<lparr>dk_scope := sc\<rparr>)"

definition record_workspace_snapshot :: "string \<Rightarrow> ('b, 'z, unit) turn_act" where
  "record_workspace_snapshot sid = deskA (\<lambda>k. k\<lparr>dk_snapshot := Some sid\<rparr>)"

section \<open>Around a turn\<close>

definition log_user_message :: "('b, session \<times> 'z room) run_context \<Rightarrow> message \<Rightarrow> chat_message \<Rightarrow> ('b, 'z, int) turn_act" where
  "log_user_message C msg user_turn =
     ctx_log_once C ''user.message'' (Some (JObj
       [(''text'', case jget ''display_text'' (msg_metadata msg) of
            Some JNull \<Rightarrow> JStr (content_blocks_to_str (ho_codec (rc_host C)) (tm_content user_turn))
          | Some v \<Rightarrow> v | None \<Rightarrow> JStr (content_blocks_to_str (ho_codec (rc_host C)) (tm_content user_turn))),
        (''attachments'', if truthy_at ''attachments'' (msg_metadata msg) then jopt (jget ''attachments'' (msg_metadata msg)) else JList [])]))"

definition load_history :: "codec \<Rightarrow> string \<Rightarrow> string \<Rightarrow> ('b, 'z, chat_message list) turn_act" where
  "load_history X sid bid = bindA (queryA (\<lambda>s. project_messages X (threads_in s) sid bid)) liftA"

definition next_node :: "branch option \<Rightarrow> string \<Rightarrow> string \<Rightarrow> chat_message \<Rightarrow> string option \<Rightarrow> string \<Rightarrow> seconds \<Rightarrow> message_node" where
  "next_node b sid rid t snapshot nid now = \<lparr>mn_id = nid, mn_parent_id = Option.bind b br_head, mn_session_id = sid, mn_run_id = rid,
     mn_payload = t, mn_workspace_snapshot_id = snapshot, mn_created_at = now\<rparr>"

text \<open>One node per turn; the snapshot goes on the last. \<open>now\<close> is read again for a branch that has to be made.\<close>

fun persist_turns :: "env \<Rightarrow> string \<Rightarrow> string \<Rightarrow> string \<Rightarrow> string option \<Rightarrow> chat_message list \<Rightarrow> ('b, 'z, unit) turn_act" where
  "persist_turns E sid rid bid snapshot [] = retA ()"
| "persist_turns E sid rid bid snapshot (t # ts) =
     bindA (threadA (get_branch sid bid)) (\<lambda>b.
     bindA (storeA (drawT (env_uuid E))) (\<lambda>nid.
     bindA (storeA (drawT (env_clock E))) (\<lambda>created.
     bindA (storeA (drawT (env_clock E))) (\<lambda>now.
     bindA (threadA (append_and_advance now (next_node b sid rid t (if ts = [] then snapshot else None) nid created) bid None None)) (\<lambda>_.
     persist_turns E sid rid bid snapshot ts)))))"

definition final_text :: "chat_message list \<Rightarrow> string" where
  "final_text ms = (case List.find (\<lambda>m. tm_role m = ASSISTANT) (rev ms) of None \<Rightarrow> [] | Some m \<Rightarrow> message_text m)"

definition session_id_of :: "('b, 'x) run_context \<Rightarrow> message \<Rightarrow> string" where
  "session_id_of C msg = (if msg_correlation_id msg = [] then rc_run C else msg_correlation_id msg)"

definition result_message :: "string \<Rightarrow> seconds \<Rightarrow> string \<Rightarrow> actor \<Rightarrow> json \<Rightarrow> string \<Rightarrow> message" where
  "result_message mid now topic sender result cid = \<lparr>msg_id = mid, msg_schema_version = 1, msg_created_at = now, msg_target = ToTopic topic,
     msg_sender = sender, msg_payload = JObj [(''kind'', JStr ''data''), (''data'', result)], msg_correlation_id = cid, msg_causation_id = None,
     msg_metadata = JObj [], msg_reply_to = None\<rparr>"

definition reply_or_emit :: "('b, 'x) run_context \<Rightarrow> message \<Rightarrow> json \<Rightarrow> actor \<Rightarrow> string option \<Rightarrow> ('b, 'x, unit) capability" where
  "reply_or_emit C msg result sender topic =
     (if truthy_text (msg_reply_to msg) then ctx_reply C msg result
      else (case topic of None \<Rightarrow> retA ()
        | Some t \<Rightarrow> bindA (storeA (drawT (env_uuid (rc_env C)))) (\<lambda>mid. bindA (storeA (drawT (env_clock (rc_env C)))) (\<lambda>now.
            ctx_emit C t (result_message mid now t sender result (session_id_of C msg))))))"

section \<open>Dispatch\<close>

definition unroutable :: "string \<Rightarrow> string \<Rightarrow> exn" where
  "unroutable agent name = KernelExn UnroutableMessageError
     (agent @ '' has no handler for '' @ name @ '' (accepts: ChatPayload, DataPayload)'') None"

text \<open>\<open>RoutedAgent.run\<close>, for a handler of chat and data payloads: messages one by one, each after a check.\<close>

fun run_inbox :: "('b, 'x) run_context \<Rightarrow> string \<Rightarrow> (message \<Rightarrow> payload \<Rightarrow> ('b, 'x, unit) capability) \<Rightarrow> (message \<times> payload) list
    \<Rightarrow> ('b, 'x, unit) capability" where
  "run_inbox C agent handler [] = retA ()"
| "run_inbox C agent handler ((msg, p) # rest) = thenA (ctx_check C) (thenA
     (case p of OtherPayload name \<Rightarrow> raiseA (unroutable agent name) | _ \<Rightarrow> handler msg p)
     (run_inbox C agent handler rest))"

end
