(* ===== verification/React.thy ===== *)
theory React
  imports Agent_Base
begin

text \<open>
  The agent loop (\<open>agents/react.py\<close>): a turn asks the model, runs the tools it calls, and goes on until there is an answer, the
  steps are used up, or the budget is. The list of messages is the loop's own, and what it holds when an exception ends the
  loop is what the handler of \<open>BudgetExhaustedError\<close> sees; so the loop hands back the exception beside the list.
\<close>

section \<open>The agent\<close>

type_synonym ('b, 'z) agent_tool = "('b, 'z room) tool"
type_synonym ('b, 'z) post_turn = "compaction_context \<Rightarrow> ('b, 'z, checkpoint option) turn_act"

text \<open>\<open>ra_post_turn\<close>: whether there is a coordinator, and whether it has a strategy for the phase after a turn.\<close>

record ('b, 'z) react_agent =
  ra_id :: actor
  ra_name :: string
  ra_model :: "('b, session \<times> 'z room, ('b, 'z) agent_tool) client option"
  ra_tools :: "('b, 'z room) toolbox option"
  ra_pipeline :: "('b, 'z) turn_state strategy list"
  ra_post_turn :: "('b, 'z) post_turn option option"
  ra_system_instructions :: string
  ra_max_iterations :: int
  ra_output_topic :: "string option"
  ra_middleware :: "(('b, 'z) turn_state, ('b, 'z) agent_tool) middleware list"
  ra_initial_tool_choice :: "string option"
  ra_reasoning :: "string option"

text \<open>What the worker gives it: the run's handle and its invoker, the clock in seconds, the classifier of errors, and the order in which
  concurrent calls happen to run.\<close>

record ('b, 'z) agent_handle =
  rh_context :: "('b, session \<times> 'z room) run_context"
  rh_invoker :: "('b, session \<times> 'z room) invoker option"
  rh_ticks :: "nat \<Rightarrow> rat"
  rh_classify :: "exn \<Rightarrow> exn"
  rh_order :: "nat \<Rightarrow> nat list"

definition codec_of :: "('b, 'z) agent_handle \<Rightarrow> codec" where
  "codec_of R = ho_codec (rc_host (rh_context R))"

text \<open>A list or \<open>None\<close> when it is empty, as \<open>xs or None\<close>.\<close>

definition nonempty_list :: "'a list \<Rightarrow> 'a list option" where
  "nonempty_list xs = (if xs = [] then None else Some xs)"

definition tool_list :: "('b, 'z) react_agent \<Rightarrow> ('b, 'z) agent_tool list" where
  "tool_list A = (case ra_tools A of None \<Rightarrow> [] | Some B \<Rightarrow> toolbox_all B)"

definition options_with :: "('b, 'z) react_agent \<Rightarrow> string option \<Rightarrow> ('b, 'z) agent_tool generation_options" where
  "options_with A choice = \<lparr>go_tools = nonempty_list (tool_list A), go_system_instructions = ra_system_instructions A,
     go_tool_choice = choice, go_reasoning = ra_reasoning A\<rparr>"

definition base_options :: "('b, 'z) react_agent \<Rightarrow> ('b, 'z) agent_tool generation_options" where
  "base_options A = options_with A None"

definition first_options :: "('b, 'z) react_agent \<Rightarrow> ('b, 'z) agent_tool generation_options" where
  "first_options A = (if truthy_text (ra_initial_tool_choice A) then options_with A (ra_initial_tool_choice A) else base_options A)"

section \<open>A model call\<close>

definition ask_model ::
  "('b, 'z) react_agent \<Rightarrow> ('b, 'z) agent_handle \<Rightarrow> ('b, 'z) agent_tool generation_options \<Rightarrow> chat_message list \<Rightarrow> ('b, 'z, llm_response) turn_act" where
  "ask_model A R opts ms = (case ra_model A of
       None \<Rightarrow> ctx_llm (rh_context R) None (length ms) (raiseA AsyncioCancelled)
     | Some M \<Rightarrow> ctx_llm (rh_context R) (Some (cm_model M)) (length ms)
         (generate (rh_context R) (rh_ticks R) (rh_classify R) (ra_middleware A) M ms opts))"

definition is_kernel_error :: "kernel_class \<Rightarrow> exn \<Rightarrow> bool" where
  "is_kernel_error k e = (case e of KernelExn c _ _ \<Rightarrow> is_subclass c k | _ \<Rightarrow> False)"

text \<open>Compacted, sent, and once more with half of it when it did not fit.\<close>

definition generate_turn ::
  "('b, 'z) react_agent \<Rightarrow> ('b, 'z) agent_handle \<Rightarrow> ('b, 'z) agent_tool generation_options \<Rightarrow> chat_message list \<Rightarrow> ('b, 'z, llm_response) turn_act" where
  "generate_turn A R opts ms = bindA (pipeline (ra_pipeline A) ms) (\<lambda>view.
     catchA (ask_model A R opts view) (\<lambda>e.
       if is_kernel_error ContextLengthError e
       then (let smaller = sliding_window (max 2 (int (length view) div 2)) view in
             if length view \<le> length smaller then raiseA e else ask_model A R opts smaller)
       else raiseA e))"

section \<open>Tool calls\<close>

record tool_use =
  tu_call_id :: string
  tu_tool_name :: string
  tu_arguments :: json
  tu_arguments_error :: "string option"

definition as_tool_use :: "content \<Rightarrow> tool_use option" where
  "as_tool_use b = (case b of ToolUseBlock cid name args err _ \<Rightarrow>
       Some \<lparr>tu_call_id = cid, tu_tool_name = name, tu_arguments = args, tu_arguments_error = err\<rparr> | _ \<Rightarrow> None)"

definition tool_uses :: "content list \<Rightarrow> tool_use list" where
  "tool_uses bs = List.map_filter as_tool_use bs"

definition batchable :: "('b, 'z) react_agent \<Rightarrow> tool_use list \<Rightarrow> bool" where
  "batchable A tcs = (case ra_tools A of None \<Rightarrow> False
     | Some B \<Rightarrow> 2 \<le> length tcs \<and> list_all (\<lambda>tc. is_concurrency_safe (toolbox_get B (tu_tool_name tc))) tcs)"

definition tickA :: "('b, 'z) agent_handle \<Rightarrow> ('b, 'z, rat) turn_act" where
  "tickA R = storeA (drawT (rh_ticks R))"

type_synonym outcomes = "(string \<times> invocation \<times> rat) list"

definition run_batch :: "('b, 'z) agent_handle \<Rightarrow> tool_use list \<Rightarrow> ('b, 'z, outcomes) turn_act" where
  "run_batch R tcs = thenA (ctx_check (rh_context R)) (bindA (tickA R) (\<lambda>t0.
     bindA (ctx_tool_batch (rh_context R) (rh_invoker R) (rh_order R (length tcs)) (map (\<lambda>tc. (tu_tool_name tc, tu_arguments tc)) tcs)) (\<lambda>rs.
     bindA (tickA R) (\<lambda>t1. retA (map (\<lambda>(tc, r). (tu_call_id tc, r, (t1 - t0) * 1000)) (zip tcs rs))))))"

fun run_in_turn :: "('b, 'z) agent_handle \<Rightarrow> tool_use list \<Rightarrow> ('b, 'z, outcomes) turn_act" where
  "run_in_turn R [] = retA []"
| "run_in_turn R (tc # tcs) = thenA (ctx_check (rh_context R)) (bindA (tickA R) (\<lambda>t0.
     bindA (ctx_tool (rh_context R) (rh_invoker R) (tu_tool_name tc) (Some (tu_arguments tc))) (\<lambda>r.
     bindA (tickA R) (\<lambda>t1.
     bindA (run_in_turn R tcs) (\<lambda>rest. retA ((tu_call_id tc, r, (t1 - t0) * 1000) # rest))))))"

text \<open>The answer to a call: what the tool gave, or that it was not run. Of two outcomes under one id the later counts.\<close>

definition not_run :: "tool_use \<Rightarrow> string" where
  "not_run tc = ''Tool call not run: '' @ (case tu_arguments_error tc of None \<Rightarrow> ''None'' | Some e \<Rightarrow> e) @ ''. Retry with valid JSON arguments.''"

definition answer_call :: "outcomes \<Rightarrow> tool_use \<Rightarrow> content \<times> tool_call_record" where
  "answer_call outs tc = (case map_of (rev outs) (tu_call_id tc) of
       Some (iv, ms) \<Rightarrow>
         (ToolResultBlock (tu_call_id tc) (tu_tool_name tc) (TextBlock (iv_text iv) # map MediaBlock (iv_media iv)) (iv_status iv \<noteq> ''ok''),
          \<lparr>tr_name = tu_tool_name tc, tr_call_id = tu_call_id tc, tr_arguments = tu_arguments tc, tr_result = iv_text iv,
           tr_is_error = (iv_status iv \<noteq> ''ok''), tr_duration_ms = ms\<rparr>)
     | None \<Rightarrow>
         (ToolResultBlock (tu_call_id tc) (tu_tool_name tc) [TextBlock (not_run tc)] True,
          \<lparr>tr_name = tu_tool_name tc, tr_call_id = tu_call_id tc, tr_arguments = tu_arguments tc, tr_result = not_run tc,
           tr_is_error = True, tr_duration_ms = 0\<rparr>))"

definition execute_tool_calls ::
  "('b, 'z) react_agent \<Rightarrow> ('b, 'z) agent_handle \<Rightarrow> tool_use list \<Rightarrow> ('b, 'z, content list \<times> tool_call_record list) turn_act" where
  "execute_tool_calls A R tcs =
     (let runnable = filter (\<lambda>tc. tu_arguments_error tc = None) tcs in
      bindA (if batchable A runnable then run_batch R runnable else run_in_turn R runnable) (\<lambda>outs.
      retA (map (fst \<circ> answer_call outs) tcs, map (snd \<circ> answer_call outs) tcs)))"

section \<open>Out of steps\<close>

definition nudge :: "('b, 'z) react_agent \<Rightarrow> chat_message" where
  "nudge A = turn USER [TextBlock (''You have used all '' @ show_int (ra_max_iterations A) @
     '' steps for this turn. Do not call any more tools. Reply now with your best answer from what you have so far, and say plainly what is left unfinished.'')]"

definition says_something :: "content \<Rightarrow> bool" where
  "says_something b = (case b of TextBlock t \<Rightarrow> strip t \<noteq> [] | _ \<Rightarrow> False)"

definition last_words :: "('b, 'z) react_agent \<Rightarrow> content list \<Rightarrow> content list" where
  "last_words A bs = (let kept = filter (\<lambda>b. \<not> is_tool_use b) bs in
     if list_ex says_something kept then kept
     else kept @ [TextBlock (''Stopped after '' @ show_int (ra_max_iterations A) @ '' steps without a final answer.'')])"

definition wrap_up :: "('b, 'z) react_agent \<Rightarrow> ('b, 'z) agent_handle \<Rightarrow> chat_message list \<Rightarrow> ('b, 'z, chat_message) turn_act" where
  "wrap_up A R ms = bindA (generate_turn A R (options_with A (if tool_list A = [] then None else Some ''none'')) (ms @ [nudge A]))
     (\<lambda>r. retA (turn ASSISTANT (last_words A (lr_content r))))"

section \<open>The loop\<close>

record turn_log =
  tl_messages :: "chat_message list"
  tl_records :: "tool_call_record list"
  tl_status :: string

definition say :: "chat_message \<Rightarrow> turn_log \<Rightarrow> turn_log" where
  "say m L = L\<lparr>tl_messages := tl_messages L @ [m]\<rparr>"

text \<open>A part of the loop: when it raises, the loop is left with what it has said so far.\<close>

definition partA :: "('s, exn, 'a) act \<Rightarrow> turn_log \<Rightarrow> ('a \<Rightarrow> ('s, exn, exn option \<times> turn_log) act) \<Rightarrow> ('s, exn, exn option \<times> turn_log) act" where
  "partA m L k = bindA (gatherA m) (\<lambda>r. case r of Inl e \<Rightarrow> retA (Some e, L) | Inr a \<Rightarrow> k a)"

definition withheld :: exn where
  "withheld = KernelExn ContentFilterError ''the provider withheld the response on content grounds'' None"

fun react_steps :: "('b, 'z) react_agent \<Rightarrow> ('b, 'z) agent_handle \<Rightarrow> nat \<Rightarrow> ('b, 'z) agent_tool generation_options \<Rightarrow> turn_log
    \<Rightarrow> ('b, 'z, exn option \<times> turn_log) turn_act" where
  "react_steps A R 0 opts L = partA (wrap_up A R (tl_messages L)) L (\<lambda>m.
     let L' = (say m L)\<lparr>tl_status := ''max_iterations''\<rparr> in
     partA (ctx_log_once (rh_context R) ''run.truncated'' (Some (JObj [(''reason'', JStr ''max_iterations''), (''max_iterations'', JInt (ra_max_iterations A))]))) L'
       (\<lambda>_. retA (None, L')))"
| "react_steps A R (Suc n) opts L = partA (thenA (ctx_check (rh_context R)) (generate_turn A R opts (tl_messages L))) L (\<lambda>r.
     if lr_finish_reason r = ''content_filter'' then retA (Some withheld, L)
     else let L1 = say (turn ASSISTANT (lr_content r)) L in
       if tool_uses (lr_content r) = [] then
         (if lr_finish_reason r = ''length'' then
            let L2 = L1\<lparr>tl_status := ''truncated''\<rparr> in
            partA (ctx_log_once (rh_context R) ''run.truncated'' (Some (JObj [(''reason'', JStr ''max_tokens'')]))) L2 (\<lambda>_. retA (None, L2))
          else retA (None, L1))
       else partA (execute_tool_calls A R (tool_uses (lr_content r))) L1 (\<lambda>(results, records).
         react_steps A R n (base_options A) ((say (turn TOOL results) L1)\<lparr>tl_records := tl_records L1 @ records\<rparr>)))"

section \<open>A turn from the message to the answer\<close>

definition persist :: "('b, 'z) agent_handle \<Rightarrow> string \<Rightarrow> string \<Rightarrow> nat \<Rightarrow> chat_message list \<Rightarrow> ('b, 'z, unit) turn_act" where
  "persist R sid bid n_loaded ms = bindA (queryA (\<lambda>s. dk_snapshot (desk_in s))) (\<lambda>snapshot.
     persist_turns (rc_env (rh_context R)) sid (rc_run (rh_context R)) bid snapshot (drop n_loaded ms))"

definition compact_after_turn :: "('b, 'z) react_agent \<Rightarrow> string \<Rightarrow> string \<Rightarrow> chat_message list \<Rightarrow> ('b, 'z, unit) turn_act" where
  "compact_after_turn A sid bid ms = (case ra_post_turn A of None \<Rightarrow> retA ()
     | Some strategy \<Rightarrow> suppressA (bindA (threadA (get_branch sid bid)) (\<lambda>b.
         bindA (compact_post_turn (map_option (\<lambda>f. f \<lparr>cc_session_id = sid, cc_messages = ms, cc_leaf = Option.bind b br_head, cc_existing = None\<rparr>) strategy))
         (\<lambda>proposal. case proposal of None \<Rightarrow> retA () | Some c \<Rightarrow> threadA (save_checkpoint c)))))"

definition stopped_turn :: "exn \<Rightarrow> chat_message" where
  "stopped_turn e = turn ASSISTANT [TextBlock (''[Stopped before finishing: '' @ exn_text e @ '']'')]"

definition react_loop ::
  "('b, 'z) react_agent \<Rightarrow> ('b, 'z) agent_handle \<Rightarrow> message \<Rightarrow> string \<Rightarrow> string \<Rightarrow> chat_message list \<Rightarrow> nat \<Rightarrow> ('b, 'z, agent_result) turn_act" where
  "react_loop A R msg sid bid ms n_loaded =
     bindA (react_steps A R (nat (ra_max_iterations A)) (first_options A) \<lparr>tl_messages = ms, tl_records = [], tl_status = ''success''\<rparr>) (\<lambda>(err, L).
     case err of
       Some e \<Rightarrow> if is_kernel_error BudgetExhaustedError e
         then thenA (persist R sid bid n_loaded (tl_messages L @ [stopped_turn e])) (raiseA e) else raiseA e
     | None \<Rightarrow> thenA (persist R sid bid n_loaded (tl_messages L)) (thenA (compact_after_turn A sid bid (tl_messages L))
         (thenA (reply_or_emit (rh_context R) msg (JObj [(''text'', JStr (final_text (tl_messages L)))]) (ra_id A) (ra_output_topic A))
           (retA \<lparr>ar_output = final_text (tl_messages L), ar_status = tl_status L, ar_tool_calls = tl_records L, ar_run_id = rc_run (rh_context R)\<rparr>))))"

definition handle_message :: "('b, 'z) react_agent \<Rightarrow> ('b, 'z) agent_handle \<Rightarrow> message \<Rightarrow> payload \<Rightarrow> ('b, 'z, unit) turn_act" where
  "handle_message A R msg p =
     (let C = rh_context R; X = codec_of R; sid = session_id_of C msg;
          scope = scope_from_metadata X (msg_metadata msg) sid (actor_str (ra_id A)) (ra_name A); user_turn = message_to_chat X p in
      thenA (set_scope scope)
     (bindA (load_history X sid (sc_branch_id scope)) (\<lambda>past.
      bindA (log_user_message C msg user_turn) (\<lambda>seq.
      bindA (dispatched ((blank_context TurnStage (ra_name A) (rc_run C))\<lparr>mx_session_id := Some sid, mx_messages := Some (past @ [user_turn]),
              mx_user_message_seq := Some seq\<rparr>)
          (execute (ra_middleware A) (finalA (\<lambda>_. react_loop A R msg sid (sc_branch_id scope) (past @ [user_turn]) (length past))
             (\<lambda>r c. c\<lparr>mx_turn_result := Some r\<rparr>)))) (\<lambda>_. retA ())))))"

definition run_agent :: "('b, 'z) react_agent \<Rightarrow> ('b, 'z) agent_handle \<Rightarrow> message list \<Rightarrow> ('b, 'z, unit) turn_act" where
  "run_agent A R mail = bindA (liftA (sequence_results (map (\<lambda>m. map_sum id (Pair m) (read_payload (codec_of R) (msg_payload m))) mail)))
     (run_inbox (rh_context R) (actor_str (ra_id A)) (handle_message A R))"

end
