(* ===== verification/React_Claims.thy ===== *)
theory React_Claims
  imports React
begin

text \<open>
  What the agent loop guarantees of a conversation: the turns it adds answer each call, in order, and end with an answer, or
  where an exception broke them off.
\<close>

section \<open>The shape of a turn\<close>

definition result_id :: "content \<Rightarrow> string" where
  "result_id b = (case b of ToolResultBlock cid _ _ _ \<Rightarrow> cid | _ \<Rightarrow> [])"

definition is_result :: "content \<Rightarrow> bool" where
  "is_result b = (case b of ToolResultBlock _ _ _ _ \<Rightarrow> True | _ \<Rightarrow> False)"

definition calls_of :: "chat_message \<Rightarrow> string list" where
  "calls_of m = map tu_call_id (tool_uses (tm_content m))"

text \<open>The tool turn \<open>t\<close> answers the assistant turn \<open>a\<close>: one result for each of its calls, in their order.\<close>

definition answered_by :: "chat_message \<Rightarrow> chat_message \<Rightarrow> bool" where
  "answered_by a t \<longleftrightarrow> tm_role a = ASSISTANT \<and> tm_role t = TOOL \<and> calls_of a \<noteq> [] \<and>
     list_all is_result (tm_content t) \<and> map result_id (tm_content t) = calls_of a"

text \<open>Rounds of calls and answers, and what may follow the last: nothing, or a turn of the assistant.\<close>

fun rounds :: "(chat_message list \<Rightarrow> bool) \<Rightarrow> chat_message list \<Rightarrow> bool" where
  "rounds P (a # t # rest) = (answered_by a t \<and> rounds P rest \<or> P (a # t # rest))"
| "rounds P ms = P ms"

definition is_answer :: "chat_message list \<Rightarrow> bool" where
  "is_answer ms \<longleftrightarrow> (\<exists>a. ms = [a] \<and> tm_role a = ASSISTANT \<and> calls_of a = [])"

definition breaks_off :: "chat_message list \<Rightarrow> bool" where
  "breaks_off ms \<longleftrightarrow> ms = [] \<or> (\<exists>a. ms = [a] \<and> tm_role a = ASSISTANT)"

definition answered_calls :: "chat_message list \<Rightarrow> string list" where
  "answered_calls ms = concat (map (\<lambda>m. if tm_role m = TOOL then map result_id (tm_content m) else []) ms)"

lemma answers_calls: "answered_by a t \<Longrightarrow> answered_calls (a # t # rest) = calls_of a @ answered_calls rest"
  by (simp add: answered_by_def answered_calls_def)

definition statuses_of_turns :: "string set" where
  "statuses_of_turns = {''success'', ''truncated'', ''max_iterations''}"

text \<open>What a loop with \<open>n\<close> steps left makes of \<open>L\<close>.\<close>

definition grown :: "nat \<Rightarrow> turn_log \<Rightarrow> exn option \<times> turn_log \<Rightarrow> bool" where
  "grown n L r \<longleftrightarrow> (case r of (err, L') \<Rightarrow> \<exists>new. tl_messages L' = tl_messages L @ new \<and> length new \<le> 2 * n + 1 \<and>
     rounds (if err = None then is_answer else breaks_off) new \<and>
     map tr_call_id (tl_records L') = map tr_call_id (tl_records L) @ answered_calls new \<and>
     (tl_status L \<in> statuses_of_turns \<longrightarrow> tl_status L' \<in> statuses_of_turns))"

lemma leaves_part:
  assumes "leaves m (\<lambda>r t. \<forall>a. r = Inr a \<longrightarrow> P a) s" and "\<And>e t. Q (Inr (Some e, L)) t" and "\<And>a t. P a \<Longrightarrow> leaves (k a) Q t"
  shows "leaves (partA m L k) Q s"
proof -
  obtain r t where m: "m s = (r, t)" by (cases "m s")
  show ?thesis
  proof (cases r)
    case (Inl e)
    then show ?thesis using assms(2) m by (simp add: partA_def gatherA_def leaves_def bindA_def retA_def)
  next
    case (Inr a)
    then have "leaves (k a) Q t" using assms(1) m by (intro assms(3)) (simp add: leaves_def)
    then show ?thesis using m Inr by (simp add: partA_def gatherA_def leaves_def bindA_def)
  qed
qed

lemma any_result: "leaves m (\<lambda>r t. \<forall>a. r = Inr a \<longrightarrow> True) s"
  by (simp add: leaves_def split: prod.splits)

lemma tool_uses_kept: "tool_uses (filter (\<lambda>b. \<not> is_tool_use b) bs) = []"
  by (induction bs) (auto simp: tool_uses_def map_filter_simps is_tool_use_def as_tool_use_def split: content.splits)

lemma last_words_no_calls: "tool_uses (last_words A bs) = []"
proof -
  have "tool_uses (bs @ [TextBlock t]) = tool_uses bs" for bs t by (simp add: tool_uses_def map_filter_def as_tool_use_def)
  then show ?thesis by (simp add: last_words_def Let_def tool_uses_kept)
qed

lemma wrap_up_turn: "leaves (wrap_up A R ms) (\<lambda>r t. \<forall>m. r = Inr m \<longrightarrow> tm_role m = ASSISTANT \<and> calls_of m = []) s"
  unfolding wrap_up_def
  by (rule leaves_seq [where P = "\<lambda>_ _. True"], simp add: leaves_def split: prod.splits)
    (simp_all add: turn_def calls_of_def last_words_no_calls)

lemma answer_call_simps [simp]:
  "result_id (fst (answer_call outs tc)) = tu_call_id tc" "is_result (fst (answer_call outs tc))"
  "tr_call_id (snd (answer_call outs tc)) = tu_call_id tc"
  by (simp_all add: answer_call_def result_id_def is_result_def split: option.splits)

lemma execute_answers:
  "leaves (execute_tool_calls A R tcs) (\<lambda>r t. \<forall>a. r = Inr a \<longrightarrow> list_all is_result (fst a) \<and>
      map result_id (fst a) = map tu_call_id tcs \<and> map tr_call_id (snd a) = map tu_call_id tcs) s"
  unfolding execute_tool_calls_def Let_def
  by (rule leaves_seq [where P = "\<lambda>_ _. True"], simp add: leaves_def split: prod.splits)
    (simp_all add: list_all_iff comp_def)

lemma grown_nothing: "grown n L (Some e, L)"
  by (simp add: grown_def breaks_off_def answered_calls_def)

lemma grown_say:
  assumes "tm_role a = ASSISTANT" and "err = None \<Longrightarrow> calls_of a = []" and "tl_messages L' = tl_messages L @ [a]"
    and "tl_records L' = tl_records L" and "tl_status L' = tl_status L \<or> tl_status L' \<in> statuses_of_turns"
  shows "grown n L (err, L')"
  using assms by (auto simp: grown_def is_answer_def breaks_off_def answered_calls_def)

lemma grown_round:
  assumes "answered_by a t" and "map tr_call_id records = calls_of a"
    and "grown n ((say t (say a L))\<lparr>tl_records := tl_records L @ records\<rparr>) r"
  shows "grown (Suc n) L r"
proof (cases r)
  case (Pair err L')
  from assms(3) Pair obtain new where new: "tl_messages L' = tl_messages L @ a # t # new" "length new \<le> 2 * n + 1"
      "rounds (if err = None then is_answer else breaks_off) new"
      "map tr_call_id (tl_records L') = map tr_call_id (tl_records L) @ calls_of a @ answered_calls new"
      "tl_status L \<in> statuses_of_turns \<longrightarrow> tl_status L' \<in> statuses_of_turns"
    by (auto simp: grown_def say_def assms(2))
  then show ?thesis using assms(1) answers_calls [OF assms(1), of new] Pair
    by (auto simp: grown_def intro!: exI [of _ "a # t # new"])
qed

lemma steps_grow: "leaves (react_steps A R n opts L) (\<lambda>r t. \<exists>out. r = Inr out \<and> grown n L out) s"
proof (induction n arbitrary: opts L s)
  case 0
  show ?case unfolding react_steps.simps
  proof (rule leaves_part [OF wrap_up_turn], goal_cases)
    case (2 m t)
    have "grown 0 L (err, (say m L)\<lparr>tl_status := ''max_iterations''\<rparr>)" for err
      by (rule grown_say) (use 2 in \<open>simp_all add: say_def statuses_of_turns_def\<close>)
    then show ?case unfolding Let_def by (intro leaves_part [OF any_result]) simp_all
  qed (simp add: grown_nothing)
next
  case (Suc n)
  show ?case unfolding react_steps.simps
  proof (rule leaves_part [OF any_result], goal_cases)
    case (2 r t)
    let ?a = "turn ASSISTANT (lr_content r)"
    let ?L = "say ?a L"
    have said: "grown (Suc n) L (err, ?L)" if "err = None \<Longrightarrow> tool_uses (lr_content r) = []" for err
      by (rule grown_say) (use that in \<open>simp_all add: say_def turn_def calls_of_def\<close>)
    show ?case
    proof (cases "tool_uses (lr_content r) = []")
      case True
      have "grown (Suc n) L (err, ?L\<lparr>tl_status := ''truncated''\<rparr>)" for err
        by (rule grown_say) (use True in \<open>simp_all add: say_def turn_def calls_of_def statuses_of_turns_def\<close>)
      then show ?thesis using True said
        by (auto simp: Let_def grown_nothing intro!: leaves_part [OF any_result])
    next
      case False
      have "leaves (react_steps A R n opts' ((say (turn TOOL results) ?L)\<lparr>tl_records := tl_records ?L @ records\<rparr>))
          (\<lambda>r t. \<exists>out. r = Inr out \<and> grown (Suc n) L out) u"
        if "list_all is_result results" "map result_id results = map tu_call_id (tool_uses (lr_content r))"
          "map tr_call_id records = map tu_call_id (tool_uses (lr_content r))" for opts' results records u
      proof -
        have "answered_by ?a (turn TOOL results)" using that False by (simp add: answered_by_def turn_def calls_of_def)
        moreover have "map tr_call_id records = calls_of ?a" using that by (simp add: turn_def calls_of_def)
        ultimately have "grown (Suc n) L out" if "grown n ((say (turn TOOL results) ?L)\<lparr>tl_records := tl_records ?L @ records\<rparr>) out" for out
          using grown_round [of ?a "turn TOOL results" records n L out] that by (simp add: say_def)
        then show ?thesis by (intro leaves_weaken [OF Suc.IH]) blast
      qed
      moreover have "grown (Suc n) L (Some e, ?L)" for e by (rule said) simp
      ultimately show ?thesis using False
        by (auto simp: Let_def grown_nothing intro!: leaves_part [OF execute_answers] split: prod.splits)
    qed
  qed (simp add: grown_nothing)
qed

text \<open>
  C24. Whatever the model says and the tools do, the loop adds rounds in which each call of the assistant is answered by one result,
  in order, and then, when it ends without an exception, one turn without calls; there are at most as many rounds as steps, and one
  record for each call that was answered.
\<close>

theorem turn_well_formed:
  assumes "react_steps A R n opts L s = (r, t)"
  shows "\<exists>err L' new. r = Inr (err, L') \<and> tl_messages L' = tl_messages L @ new \<and> length new \<le> 2 * n + 1 \<and>
    rounds (if err = None then is_answer else breaks_off) new \<and>
    map tr_call_id (tl_records L') = map tr_call_id (tl_records L) @ answered_calls new"
proof -
  from leaves_run [OF steps_grow assms] obtain err L' where "r = Inr (err, L')" "grown n L (err, L')" by auto
  then show ?thesis unfolding grown_def by blast
qed

end
