(* ===== verification/Persist.thy ===== *)
theory Persist
  imports React_Claims Thread_Claims
begin

text \<open>
  What a turn said is stored whole and in order; why a crash after that loses the run; and the claims on turns at a concrete agent.
\<close>

section \<open>What is persisted\<close>

text \<open>A new node on top of the head of its branch is always accepted.\<close>

lemma parent_passes:
  assumes "threads_ok s" and "node_at (mn_id node) s = None" and "mn_parent_id node = branch_head s (mn_session_id node) bid"
  shows "check_parent node s = Inr ((), s)"
proof (cases "mn_parent_id node")
  case (Some h)
  then obtain b where b: "branch_at (mn_session_id node) bid s = Some b" "br_head b = Some h"
    using assms(3) by (auto simp: branch_head_def split: option.splits)
  from branch_at_Some [OF b(1)] b(2) assms(1) have "in_session (td_nodes s) (mn_session_id node) h"
    unfolding threads_ok_def by fastforce
  then obtain n where n: "n \<in> set (td_nodes s)" "mn_id n = h" "mn_session_id n = mn_session_id node"
    unfolding in_session_def by blast
  have "distinct (map mn_id (td_nodes s))" using assms(1) rooted_distinct by (simp add: threads_ok_def)
  from find_by_id [OF this n(1)] have at: "node_at h s = Some n" by (simp add: node_at_def n(2))
  then have "h \<noteq> mn_id node" using assms(2) by auto
  then show ?thesis using Some at n(3) by (simp add: check_parent_def get_node_def run_simps)
qed (simp add: check_parent_def run_simps)

lemma append_node_passes:
  assumes "check_parent node s = Inr ((), s)" and "node_at (mn_id node) s = None"
  shows "append_node node s = Inr ((), td_nodes_update (\<lambda>ns. ns @ [node]) s)"
  using assms by (simp add: append_node_def insert_node_def get_node_def run_simps)

lemma branch_swapped:
  assumes "branch_at sid bid s = Some b" and "\<And>x. br_session_id (f x) = br_session_id x \<and> br_id (f x) = br_id x"
  shows "\<exists>c t. swapped b f s = Inr (c, t)"
proof -
  let ?P = "\<lambda>x. is_branch (br_session_id b) (br_id b) x \<and> br_version x = br_version b"
  let ?t = "td_branches_update (update_where ?P (\<lambda>x. (f x)\<lparr>br_version := br_version x + 1\<rparr>)) s"
  have b: "b \<in> set (td_branches s)" "br_session_id b = sid" "br_id b = bid" using branch_at_Some [OF assms(1)] by simp_all
  then have "filter ?P (td_branches s) \<noteq> []" by (auto simp: is_branch_def filter_empty_conv)
  moreover have "map (\<lambda>b. (br_session_id b, br_id b)) (td_branches ?t) = map (\<lambda>b. (br_session_id b, br_id b)) (td_branches s)"
    by (simp add: map_update_where assms(2))
  then have "branch_at sid bid ?t \<noteq> None"
    using b unfolding branch_at_None set_map [symmetric] by (simp only: set_map) force
  ultimately show ?thesis
    by (auto simp: swapped_def swap_branch_def get_branch_def assert_some_def run_simps b(2,3) Let_def)
qed

lemma advance_passes:
  assumes "threads_ok s" and "node_at (mn_id node) s = None" and "mn_parent_id node = branch_head s (mn_session_id node) bid"
  shows "\<exists>b t. append_and_advance now node bid None None s = Inr (b, t)"
proof -
  let ?u = "td_nodes_update (\<lambda>ns. ns @ [node]) s"
  have app: "append_node node s = Inr ((), ?u)" by (rule append_node_passes [OF parent_passes [OF assms] assms(2)])
  have at: "branch_at sid' bid' ?u = branch_at sid' bid' s" for sid' bid' by (simp add: branch_at_def)
  show ?thesis
  proof (cases "branch_at (mn_session_id node) bid s")
    case None
    then show ?thesis using assms(3) app at
      by (simp add: append_and_advance_def get_branch_def check_expectations_def insert_branch_def new_branch_def branch_head_def run_simps Let_def)
  next
    case (Some b)
    have "\<exists>c t. advance b (mn_id node) ?u = Inr (c, t)"
      unfolding advance_def by (rule branch_swapped [of "mn_session_id node" bid]) (simp_all add: at Some)
    then show ?thesis using Some assms(3) app
      by (auto simp: append_and_advance_def get_branch_def check_expectations_def branch_head_def run_simps Let_def)
  qed
qed

text \<open>The database of the run and the threads, as an action on threads sees them.\<close>

definition draws_in :: "('b, 'z) turn_state \<Rightarrow> nat" where
  "draws_in s = draws (fst (snd s))"

lemma drawn: "storeA (drawT f) s = (Inr (f (draws_in s)), (fst s, (fst (snd s))\<lparr>draws := Suc (draws_in s)\<rparr>, snd (snd s)))"
  by (cases s) (simp add: storeA_def onA_def txA_def drawT_def run_simps draws_in_def)

lemma thread_run: "threadA m s = (case m (threads_in s) of Inl e \<Rightarrow> (Inl e, s)
    | Inr (a, u) \<Rightarrow> (Inr a, (fst s, fst (snd s), fst (snd (snd s)), fst (side s), u, snd (snd (side s)))))"
  by (cases s) (simp add: threadA_def onA_def txA_def threads_in_def side_def split: sum.splits prod.splits)

text \<open>Ids that are drawn from here on are new.\<close>

definition fresh_ids :: "env \<Rightarrow> ('b, 'z) turn_state \<Rightarrow> bool" where
  "fresh_ids E s \<longleftrightarrow> (\<forall>k\<ge>draws_in s. node_at (env_uuid E k) (threads_in s) = None)"

lemma persist_one:
  assumes "threads_ok (threads_in s)" and "fresh_ids E s" and "inj (env_uuid E)" and "project_messages X (threads_in s) sid bid = Inr ms"
  shows "\<exists>u. persist_turns E sid rid bid snapshot (t # ts) s = persist_turns E sid rid bid snapshot ts u \<and> threads_ok (threads_in u) \<and>
    fresh_ids E u \<and> project_messages X (threads_in u) sid bid = Inr (ms @ [t])"
proof -
  obtain j d b ss th y where s: "s = (j, d, b, ss, th, y)" by (metis prod_cases6)
  define node where "node = next_node (branch_at sid bid th) sid rid t (if ts = [] then snapshot else None) (env_uuid E (draws d)) (env_clock E (Suc (draws d)))"
  have new: "node_at (mn_id node) th = None" using assms(2) by (simp add: fresh_ids_def s draws_in_def threads_in_def node_def next_node_def)
  have parent: "mn_parent_id node = branch_head th (mn_session_id node) bid"
    by (simp add: node_def next_node_def branch_head_def split: option.split)
  have ok: "threads_ok th" and proj: "project_messages X th (mn_session_id node) bid = Inr ms"
    using assms(1,4) by (simp_all add: s threads_in_def node_def next_node_def)
  obtain c v where adv: "append_and_advance (env_clock E (Suc (Suc (draws d)))) node bid None None th = Inr (c, v)"
    using advance_passes [OF ok new parent] by blast
  have v: "threads_ok v" and added: "advanced node bid th c v" using wp_run [OF append_and_advance_wp [OF ok] adv] by simp_all
  let ?u = "(j, d\<lparr>draws := Suc (Suc (Suc (draws d)))\<rparr>, b, ss, v, y)"
  have "persist_turns E sid rid bid snapshot (t # ts) s = persist_turns E sid rid bid snapshot ts ?u"
    using adv by (simp add: s drawn thread_run threads_in_def draws_in_def side_def get_branch_def bindA_def run_simps node_def)
  moreover have "project_messages X v sid bid = Inr (ms @ [t])"
    using transcript_snoc [OF ok adv new proj] by (simp add: node_def next_node_def)
  moreover have "node_at (env_uuid E k) v = None" if "Suc (Suc (Suc (draws d))) \<le> k" for k
  proof -
    from added obtain w where w: "node_added node th w" "td_nodes v = td_nodes w" unfolding advanced_def by blast
    have "env_uuid E k \<noteq> mn_id node" using that assms(3) by (auto simp: node_def next_node_def dest: injD)
    moreover have "node_at (env_uuid E k) th = None" using assms(2) that by (simp add: fresh_ids_def s draws_in_def threads_in_def)
    ultimately show ?thesis using w new by (auto simp: node_added_def node_at_def find_None_iff)
  qed
  ultimately show ?thesis using v
    by (intro exI [of _ ?u]) (simp add: fresh_ids_def threads_in_def draws_in_def)
qed

lemma all_persisted:
  assumes "threads_ok (threads_in s)" and "fresh_ids E s" and "project_messages X (threads_in s) sid bid = Inr ms" and "inj (env_uuid E)"
  shows "\<exists>t. persist_turns E sid rid bid snapshot turns s = (Inr (), t) \<and> threads_ok (threads_in t) \<and>
    project_messages X (threads_in t) sid bid = Inr (ms @ turns)"
  using assms(1-3)
proof (induction turns arbitrary: s ms)
  case (Cons t ts)
  from persist_one [OF Cons.prems(1,2) assms(4) Cons.prems(3), of rid snapshot t ts] obtain u where
    "persist_turns E sid rid bid snapshot (t # ts) s = persist_turns E sid rid bid snapshot ts u" "threads_ok (threads_in u)"
    "fresh_ids E u" "project_messages X (threads_in u) sid bid = Inr (ms @ [t])" by blast
  with Cons.IH [of u "ms @ [t]"] show ?case by simp
qed (simp add: retA_def)

text \<open>
  C25. What a turn said is appended to the transcript of its branch, all of it and in order, and what was there before is
  unchanged, whatever checkpoints there are; nothing can stop it but another writer.
\<close>

theorem turns_persisted:
  assumes "threads_ok (threads_in s)" and "fresh_ids E s" and "inj (env_uuid E)" and "project_messages X (threads_in s) sid bid = Inr ms"
  shows "\<exists>t. persist_turns E sid rid bid snapshot turns s = (Inr (), t) \<and> threads_ok (threads_in t) \<and>
    project_messages X (threads_in t) sid bid = Inr (ms @ turns)"
  by (rule all_persisted [OF assms(1,2,4,3)])

text \<open>
  The turns are stored, but not as a step of the journal. When a worker dies after that and before the run's last commit, the next
  attempt loads a longer history than the first did, asks the model with another number of messages where the log has the first
  call, and the run ends in \<open>NonDeterminismError\<close>.
\<close>

definition call_args :: "string \<Rightarrow> nat \<Rightarrow> json" where
  "call_args model n = JObj [(''model'', JStr model), (''msg_count'', JInt (int n))]"

lemma ask_diverges:
  assumes "ra_model A = Some M" and "map_of (jn_by_path k) (peek_path k) = Some (''llm'', d)" and "stack_of k \<noteq> []"
    and "args_digest (codec_of R) (call_args (cm_model M) (length ms)) \<noteq> d"
  shows "ask_model A R opts ms (k, w) = (Inl (diverged (peek_path k) (''llm'', d) ''llm''), (next_step k, w))"
  using assms by (auto simp: ask_model_def ctx_llm_def call_args_def codec_of_def effect_run clash_def bindA_def)

theorem stored_turn_breaks_replay:
  assumes "threads_ok (threads_in s)" and "fresh_ids E s" and "inj (env_uuid E)" and "project_messages (codec_of R) (threads_in s) sid bid = Inr past"
    and "persist_turns E sid rid bid snapshot turns s = (Inr (), t)" and "turns \<noteq> []"
    and "ra_model A = Some M" and "stack_of k \<noteq> []" and "inj (\<lambda>n. args_digest (codec_of R) (call_args (cm_model M) n))"
    and "map_of (jn_by_path k) (peek_path k) = Some (''llm'', args_digest (codec_of R) (call_args (cm_model M) (length (past @ [user]))))"
  shows "\<exists>history e. fst (load_history (codec_of R) sid bid t) = Inr history \<and>
    ask_model A R opts (history @ [user]) (k, w) = (Inl e, (next_step k, w)) \<and> is_kernel_error NonDeterminismError e"
proof -
  from all_persisted [OF assms(1,2,4,3), of rid snapshot turns] assms(5)
  have "fst (load_history (codec_of R) sid bid t) = Inr (past @ turns)"
    by (simp add: load_history_def bindA_def queryA_def liftA_def retA_def)
  moreover have "args_digest (codec_of R) (call_args (cm_model M) (length ((past @ turns) @ [user]))) \<noteq>
      args_digest (codec_of R) (call_args (cm_model M) (length (past @ [user])))"
    using injD [OF assms(9)] assms(6) by fastforce
  from ask_diverges [OF assms(7,10,8) this] have "ask_model A R opts ((past @ turns) @ [user]) (k, w) =
      (Inl (diverged (peek_path k) (''llm'', args_digest (codec_of R) (call_args (cm_model M) (length (past @ [user])))) ''llm''), (next_step k, w))" .
  ultimately show ?thesis by (auto simp: diverged_def is_kernel_error_def is_subclass_def)
qed

section \<open>A concrete agent\<close>

text \<open>
  The claims on turns at a concrete agent: it has no tools, and its model reads its answers off a list. The first of them calls a tool
  with arguments that are not JSON.
\<close>

type_synonym script = "stream_event list list"
type_synonym script_act = "(unit, script, stream_event list) turn_act"

definition answer :: "content list \<Rightarrow> string \<Rightarrow> stream_event list" where
  "answer bs reason = [CompletionEvent \<lparr>cp_content = bs, cp_usage = no_usage, cp_finish_reason = reason, cp_response_id = None, cp_served_model = None\<rparr>]"

definition plain_model :: model_capabilities where
  "plain_model = \<lparr>mc_model_id = ''m'', mc_context_window = None, mc_input_modalities = [''text''], mc_input_cost = 1, mc_cached_cost = None,
     mc_write_cost = None, mc_output_cost = 1\<rparr>"

definition next_answer :: script_act where
  "next_answer = (\<lambda>(j, d, b, ss, t, k, script). case script of
       [] \<Rightarrow> (Inl index_error, (j, d, b, ss, t, k, []))
     | es # rest \<Rightarrow> (Inr es, (j, d, b, ss, t, k, rest)))"

definition script_model :: "(unit, session \<times> script room, (unit, script) agent_tool) client" where
  "script_model = \<lparr>cm_model = ''m'', cm_capabilities = plain_model, cm_stream = (\<lambda>_ _. next_answer)\<rparr>"

definition demo_agent :: "(unit, script) react_agent" where
  "demo_agent = \<lparr>ra_id = helper, ra_name = ''helper'', ra_model = Some script_model, ra_tools = None, ra_pipeline = [], ra_post_turn = None,
     ra_system_instructions = [], ra_max_iterations = 3, ra_output_topic = None, ra_middleware = [], ra_initial_tool_choice = None,
     ra_reasoning = None\<rparr>"

definition script_ctx :: "lease \<Rightarrow> (unit, session \<times> script room) run_context" where
  "script_ctx l = \<lparr>rc_env = demo_env, rc_lease = l, rc_host = store_host demo_env l None plain_codec (\<lambda>_. []) (\<lambda>_. JNull), rc_tenant = Some ''t'',
     rc_supervision = None, rc_deadline = None, rc_trace = None, rc_cancelled = (\<lambda>_. None), rc_agent = helper, rc_agent_budget = None,
     rc_random = (\<lambda>_. 0), rc_money = (\<lambda>_. [])\<rparr>"

definition demo_handle :: "lease \<Rightarrow> (unit, script) agent_handle" where
  "demo_handle l = \<lparr>rh_context = script_ctx l, rh_invoker = None, rh_ticks = of_nat, rh_classify = id, rh_order = (\<lambda>n. [0..<n])\<rparr>"

definition bad_call :: content where
  "bad_call = ToolUseBlock ''c1'' ''look'' (JObj []) (Some ''not JSON'') (JObj [])"

definition demo_script :: script where
  "demo_script = [answer [bad_call] ''tool_calls'', answer [TextBlock ''done''] ''stop'']"

definition at_start :: "db \<Rightarrow> thread_db \<Rightarrow> script \<Rightarrow> (unit, script) turn_state" where
  "at_start d t script = (demo_journal d, d, (), open_session, t, empty_desk, script)"

definition demo_log :: turn_log where
  "demo_log = \<lparr>tl_messages = [turn USER [TextBlock ''hi'']], tl_records = [], tl_status = ''success''\<rparr>"

section \<open>Witnesses\<close>

definition demo_turn :: "(exn + exn option \<times> turn_log) \<times> (unit, script) turn_state" where
  "demo_turn = react_steps demo_agent (demo_handle demo_lease) 3 (first_options demo_agent) demo_log (at_start demo_running no_threads demo_script)"

theorem turn_well_formed_witness:
  "\<exists>err L new. fst demo_turn = Inr (err, L) \<and> tl_messages L = tl_messages demo_log @ new \<and> length new \<le> 7 \<and>
    rounds (if err = None then is_answer else breaks_off) new \<and> map tr_call_id (tl_records L) = answered_calls new"
  using turn_well_formed [of demo_agent "demo_handle demo_lease" 3 "first_options demo_agent" demo_log
      "at_start demo_running no_threads demo_script" "fst demo_turn" "snd demo_turn"]
  by (simp add: demo_turn_def demo_log_def)

lemma demo_uuids: "inj (env_uuid demo_env)"
  by (rule injI) (auto simp: demo_env_def dest: arg_cong [where f = length])

theorem turns_persisted_witness:
  "\<exists>t. persist_turns demo_env ''s'' ''r'' ''main'' (Some ''w'') [turn USER [TextBlock ''hi''], turn ASSISTANT [TextBlock ''done'']]
      (at_start demo_running no_threads []) = (Inr (), t) \<and>
    project_messages plain_codec (threads_in t) ''s'' ''main'' = Inr [turn USER [TextBlock ''hi''], turn ASSISTANT [TextBlock ''done'']]"
proof -
  let ?s = "at_start demo_running no_threads []"
  have th: "threads_in ?s = no_threads" by (simp add: at_start_def threads_in_def side_def)
  have "threads_ok no_threads" by (rule threads_ok_empty)
  moreover have "fresh_ids demo_env ?s" unfolding fresh_ids_def th by (simp add: node_at_def no_threads_def)
  moreover have "project_messages plain_codec no_threads ''s'' ''main'' = Inr []" by code_simp
  ultimately have "threads_ok (threads_in ?s)" "fresh_ids demo_env ?s" "project_messages plain_codec (threads_in ?s) ''s'' ''main'' = Inr []"
    unfolding th by blast+
  from turns_persisted [OF this(1,2) demo_uuids this(3)] show ?thesis unfolding append_Nil by blast
qed

end
