(* ===== verification/Patterns.thy ===== *)
theory Patterns
  imports Compaction
begin

text \<open>
  The part of \<open>re\<close> the guardrails use (\<open>middleware/guardrails\<close>): sequences, alternatives, greedy and lazy repetition and word
  boundaries, matched by backtracking in the order in which Python tries the ways, at the first place of the text where there is
  one. \<open>spans\<close> says what a pattern means without an order; the two agree.
\<close>

datatype regex = Eps | Sym "char \<Rightarrow> bool" | Seq regex regex | Alt regex regex | Many regex | Few regex | Edge

text \<open>A place in a text: what is before it, backwards, and what comes.\<close>

type_synonym place = "string \<times> string"

definition is_digit :: "char \<Rightarrow> bool" where
  "is_digit c \<longleftrightarrow> (let n = of_char c :: nat in 48 \<le> n \<and> n \<le> 57)"

definition is_word :: "char \<Rightarrow> bool" where
  "is_word c \<longleftrightarrow> (let n = of_char c :: nat in (48 \<le> n \<and> n \<le> 57) \<or> (65 \<le> n \<and> n \<le> 90) \<or> (97 \<le> n \<and> n \<le> 122) \<or>
     n \<in> {95, 170, 178, 179, 181, 185, 186, 188, 189, 190} \<or> (192 \<le> n \<and> n \<noteq> 215 \<and> n \<noteq> 247))"

definition word_next :: "string \<Rightarrow> bool" where
  "word_next s = (case s of [] \<Rightarrow> False | c # _ \<Rightarrow> is_word c)"

text \<open>Repetition stops where the body matched nothing.\<close>

function repeated :: "bool \<Rightarrow> (place \<Rightarrow> place list) \<Rightarrow> place \<Rightarrow> place list" where
  "repeated greedy f z = (if greedy
     then concat (map (repeated greedy f) (filter (\<lambda>y. length (snd y) < length (snd z)) (f z))) @ [z]
     else z # concat (map (repeated greedy f) (filter (\<lambda>y. length (snd y) < length (snd z)) (f z))))"
  by pat_completeness auto

termination
  by (relation "measure (\<lambda>(g, f, z). length (snd z))") auto

declare repeated.simps [simp del]

primrec ends :: "regex \<Rightarrow> place \<Rightarrow> place list" where
  "ends Eps = (\<lambda>z. [z])"
| "ends (Sym p) = (\<lambda>(l, s). case s of [] \<Rightarrow> [] | c # cs \<Rightarrow> if p c then [(c # l, cs)] else [])"
| "ends (Seq a b) = (\<lambda>z. concat (map (ends b) (ends a z)))"
| "ends (Alt a b) = (\<lambda>z. ends a z @ ends b z)"
| "ends (Many r) = repeated True (ends r)"
| "ends (Few r) = repeated False (ends r)"
| "ends Edge = (\<lambda>(l, s). if word_next l \<noteq> word_next s then [(l, s)] else [])"

text \<open>\<open>pattern.search\<close>: what was matched.\<close>

fun search_from :: "regex \<Rightarrow> string \<Rightarrow> string \<Rightarrow> string option" where
  "search_from r l s = (case ends r (l, s) of
       z # _ \<Rightarrow> Some (take (length s - length (snd z)) s)
     | [] \<Rightarrow> (case s of [] \<Rightarrow> None | c # cs \<Rightarrow> search_from r (c # l) cs))"

declare search_from.simps [simp del]

definition search :: "regex \<Rightarrow> string \<Rightarrow> string option" where
  "search r s = search_from r [] s"

section \<open>Meaning\<close>

inductive spans :: "regex \<Rightarrow> string \<Rightarrow> string \<Rightarrow> string \<Rightarrow> bool" where
  Nothing: "spans Eps l [] s"
| One: "p c \<Longrightarrow> spans (Sym p) l [c] s"
| Both: "spans a l u (v @ s) \<Longrightarrow> spans b (rev u @ l) v s \<Longrightarrow> spans (Seq a b) l (u @ v) s"
| First: "spans a l w s \<Longrightarrow> spans (Alt a b) l w s"
| Second: "spans b l w s \<Longrightarrow> spans (Alt a b) l w s"
| Many_none: "spans (Many r) l [] s"
| Many_more: "spans r l u (v @ s) \<Longrightarrow> spans (Many r) (rev u @ l) v s \<Longrightarrow> spans (Many r) l (u @ v) s"
| Few_none: "spans (Few r) l [] s"
| Few_more: "spans r l u (v @ s) \<Longrightarrow> spans (Few r) (rev u @ l) v s \<Longrightarrow> spans (Few r) l (u @ v) s"
| Boundary: "word_next l \<noteq> word_next s \<Longrightarrow> spans Edge l [] s"

inductive_simps spans_simps:
  "spans Eps l w s" "spans (Sym p) l w s" "spans (Seq a b) l w s" "spans (Alt a b) l w s" "spans Edge l w s"

definition reaches :: "(string \<Rightarrow> string \<Rightarrow> string \<Rightarrow> bool) \<Rightarrow> place \<Rightarrow> place \<Rightarrow> bool" where
  "reaches P z y \<longleftrightarrow> (\<exists>w. snd z = w @ snd y \<and> fst y = rev w @ fst z \<and> P (fst z) w (snd y))"

lemma reachesI: "P l w s \<Longrightarrow> reaches P (l, w @ s) (rev w @ l, s)"
  by (auto simp: reaches_def)

text \<open>Going round finds what a number of matches one after another find.\<close>

lemma repeated_mem: "y \<in> set (repeated g f z) \<longleftrightarrow>
    y = z \<or> (\<exists>x\<in>set (f z). length (snd x) < length (snd z) \<and> y \<in> set (repeated g f x))"
  by (subst repeated.simps) auto

lemma repeated_sound:
  assumes "\<And>z x. x \<in> set (f z) \<Longrightarrow> reaches P z x" and "\<And>l s. Q l [] s"
    and "\<And>l u v s. P l u (v @ s) \<Longrightarrow> Q (rev u @ l) v s \<Longrightarrow> Q l (u @ v) s"
  shows "y \<in> set (repeated g f z) \<Longrightarrow> reaches Q z y"
proof (induction "length (snd z)" arbitrary: z rule: less_induct)
  case less
  from less.prems consider "y = z" | x where "x \<in> set (f z)" "length (snd x) < length (snd z)" "y \<in> set (repeated g f x)"
    unfolding repeated_mem [of y g f z] by blast
  then show ?case
  proof cases
    case 2
    obtain u where u: "snd z = u @ snd x" "fst x = rev u @ fst z" "P (fst z) u (snd x)" using assms(1) [OF 2(1)] by (auto simp: reaches_def)
    obtain v where v: "snd x = v @ snd y" "fst y = rev v @ fst x" "Q (fst x) v (snd y)"
      using less.hyps [OF 2(2,3)] by (auto simp: reaches_def)
    have "Q (fst z) (u @ v) (snd y)" by (rule assms(3)) (use u v in simp_all)
    then show ?thesis using u(1,2) v(1,2) unfolding reaches_def by (intro exI [of _ "u @ v"]) simp
  qed (simp add: reaches_def assms(2))
qed

lemma repeated_self [simp]: "z \<in> set (repeated g f z)"
  by (subst repeated_mem) simp

lemma repeated_complete:
  assumes "\<And>l w s. spans r l w s \<Longrightarrow> (rev w @ l, s) \<in> set (f (l, w @ s))"
  shows "spans (Many r) l w s \<Longrightarrow> (rev w @ l, s) \<in> set (repeated g f (l, w @ s))"
    and "spans (Few r) l w s \<Longrightarrow> (rev w @ l, s) \<in> set (repeated g f (l, w @ s))"
proof -
  have round_it: "(rev (u @ v) @ l, s) \<in> set (repeated g f (l, (u @ v) @ s))"
    if "spans r l u (v @ s)" "(rev v @ rev u @ l, s) \<in> set (repeated g f (rev u @ l, v @ s))" for l u v s
  proof (cases "u = []")
    case False
    have "(rev u @ l, v @ s) \<in> set (f (l, (u @ v) @ s))" using assms [OF that(1)] by simp
    moreover have "length (snd (rev u @ l, v @ s)) < length (snd (l, (u @ v) @ s))" using False by simp
    moreover have "(rev (u @ v) @ l, s) \<in> set (repeated g f (rev u @ l, v @ s))" using that(2) by simp
    ultimately show ?thesis unfolding repeated_mem [of _ g f "(l, (u @ v) @ s)"] by blast
  qed (use that in simp)
  show "spans (Many r) l w s \<Longrightarrow> (rev w @ l, s) \<in> set (repeated g f (l, w @ s))"
    by (induction "Many r" l w s rule: spans.induct) (simp, rule round_it)
  show "spans (Few r) l w s \<Longrightarrow> (rev w @ l, s) \<in> set (repeated g f (l, w @ s))"
    by (induction "Few r" l w s rule: spans.induct) (simp, rule round_it)
qed

lemma ends_sound: "y \<in> set (ends r z) \<Longrightarrow> reaches (spans r) z y"
proof (induction r arbitrary: y z)
  case (Seq a b)
  then obtain x where x: "x \<in> set (ends a z)" "y \<in> set (ends b x)" by auto
  from Seq.IH(1) [OF x(1)] obtain u where u: "snd z = u @ snd x" "fst x = rev u @ fst z" "spans a (fst z) u (snd x)"
    by (auto simp: reaches_def)
  from Seq.IH(2) [OF x(2)] obtain v where v: "snd x = v @ snd y" "fst y = rev v @ fst x" "spans b (fst x) v (snd y)"
    by (auto simp: reaches_def)
  have "spans (Seq a b) (fst z) (u @ v) (snd y)" by (rule spans.Both) (use u v in simp_all)
  then show ?case using u(1,2) v(1,2) unfolding reaches_def by (intro exI [of _ "u @ v"]) simp
next
  case (Alt a b)
  from Alt.prems have "y \<in> set (ends a z) \<or> y \<in> set (ends b z)" by simp
  then have "reaches (spans a) z y \<or> reaches (spans b) z y" using Alt.IH(1) [of y z] Alt.IH(2) [of y z] by blast
  then show ?case by (auto simp: reaches_def spans_simps)
next
  case (Many r)
  have "y \<in> set (repeated True (ends r) z)" using Many.prems by simp
  then show ?case by (rule repeated_sound [rotated 3]) (erule Many.IH, rule spans.Many_none, erule (1) spans.Many_more)
next
  case (Few r)
  have "y \<in> set (repeated False (ends r) z)" using Few.prems by simp
  then show ?case by (rule repeated_sound [rotated 3]) (erule Few.IH, rule spans.Few_none, erule (1) spans.Few_more)
qed (auto simp: reaches_def intro: spans.intros split: list.splits if_splits)

lemma ends_complete: "spans r l w s \<Longrightarrow> (rev w @ l, s) \<in> set (ends r (l, w @ s))"
proof (induction r arbitrary: l w s)
  case (Seq a b)
  then show ?case by (fastforce simp: spans_simps)
next
  case (Many r)
  then show ?case using repeated_complete(1) [of r "ends r"] by simp
next
  case (Few r)
  then show ?case using repeated_complete(2) [of r "ends r"] by simp
qed (auto simp: spans_simps)

text \<open>A text is found to match exactly when some part of it does, in its surroundings.\<close>

definition occurs :: "regex \<Rightarrow> string \<Rightarrow> bool" where
  "occurs r s \<longleftrightarrow> (\<exists>a w b. s = a @ w @ b \<and> spans r (rev a) w b)"

lemma search_from_iff: "search_from r l s \<noteq> None \<longleftrightarrow> (\<exists>a w b. s = a @ w @ b \<and> spans r (rev a @ l) w b)"
proof (induction s arbitrary: l)
  case Nil
  show ?case
  proof (cases "ends r (l, [])")
    case Nil
    then show ?thesis using ends_complete [of r l "[]" "[]"] by (auto simp: search_from.simps)
  next
    case (Cons z zs)
    then show ?thesis using ends_sound [of z r "(l, [])"] by (auto simp: search_from.simps reaches_def)
  qed
next
  case (Cons c cs)
  show ?case
  proof (cases "ends r (l, c # cs)")
    case Nil
    have "\<not> spans r l w b" if "c # cs = w @ b" for w b
      using ends_complete [of r l w b] Nil that by auto
    then have "(\<exists>a w b. c # cs = a @ w @ b \<and> spans r (rev a @ l) w b) \<longleftrightarrow> (\<exists>a w b. cs = a @ w @ b \<and> spans r (rev a @ c # l) w b)"
      by (auto simp: Cons_eq_append_conv) (metis append_Cons append_Nil append_assoc rev.simps(2))+
    with Nil Cons.IH [of "c # l"] show ?thesis by (simp add: search_from.simps [of r l])
  next
    case (Cons z zs)
    then have "reaches (spans r) (l, c # cs) z" using ends_sound [of z r "(l, c # cs)"] by simp
    then have "\<exists>w b. c # cs = w @ b \<and> spans r l w b" by (auto simp: reaches_def)
    then have "\<exists>a w b. c # cs = a @ w @ b \<and> spans r (rev a @ l) w b" by (rule_tac x = "[]" in exI) simp
    then show ?thesis using Cons by (simp add: search_from.simps [of r l])
  qed
qed

lemma search_iff: "search r s \<noteq> None \<longleftrightarrow> occurs r s"
  using search_from_iff [of r "[]" s] by (simp add: search_def occurs_def)

section \<open>Writing patterns\<close>

definition opt :: "regex \<Rightarrow> regex" where
  "opt r = Alt r Eps"

definition plus :: "regex \<Rightarrow> regex" where
  "plus r = Seq r (Many r)"

definition in_turn :: "regex list \<Rightarrow> regex" where
  "in_turn rs = foldr Seq rs Eps"

fun one_of_these :: "regex list \<Rightarrow> regex" where
  "one_of_these [r] = r"
| "one_of_these (r # rs) = Alt r (one_of_these rs)"
| "one_of_these [] = Sym (\<lambda>_. False)"

definition exactly :: "nat \<Rightarrow> regex \<Rightarrow> regex" where
  "exactly n r = in_turn (replicate n r)"

fun up_to :: "nat \<Rightarrow> regex \<Rightarrow> regex" where
  "up_to 0 r = Eps"
| "up_to (Suc n) r = opt (Seq r (up_to n r))"

definition between :: "nat \<Rightarrow> nat \<Rightarrow> regex \<Rightarrow> regex" where
  "between m n r = Seq (exactly m r) (up_to (n - m) r)"

text \<open>Letters with \<open>re.IGNORECASE\<close>, and one of a set of characters.\<close>

definition letters :: "string \<Rightarrow> regex" where
  "letters w = in_turn (map (\<lambda>c. Sym (\<lambda>x. low_char x = low_char c)) w)"

definition among :: "string \<Rightarrow> regex" where
  "among cs = Sym (\<lambda>x. x \<in> set cs)"

definition digit :: regex where
  "digit = Sym is_digit"

definition space :: regex where
  "space = Sym is_space"

end
