(* ===== verification/Guardrails.thy ===== *)
theory Guardrails
  imports Agent_Base Patterns
begin

text \<open>
  The guardrails (\<open>middleware/guardrails\<close>) and the verdicts of \<open>safety/protocols.py\<close>. A pattern an operator configures is given
  as compiled. The classifiers, the model that judges, \<open>json.loads\<close> and \<open>normalize\<close> of \<open>safety/normalize.py\<close>, which folds
  Unicode, are arguments.
\<close>

section \<open>Patterns\<close>

text \<open>A compiled pattern: its source, for messages, and what it means.\<close>

type_synonym pattern = "string \<times> regex"

definition email :: regex where
  "email = (let word = (\<lambda>c. is_digit c \<or> low_char c \<in> set ''abcdefghijklmnopqrstuvwxyz'') in
     in_turn [plus (Sym (\<lambda>c. word c \<or> c \<in> set ''_.+-'')), among ''@'', plus (Sym (\<lambda>c. word c \<or> c = CHR ''-'')), among ''.'',
       plus (Sym (\<lambda>c. word c \<or> c \<in> set ''-.''))])"

definition phone_sep :: regex where
  "phone_sep = opt (Sym (\<lambda>c. c \<in> set ''-.'' \<or> is_space c))"

definition phone_us :: regex where
  "phone_us = in_turn [opt (in_turn [opt (among ''+''), among ''1'', phone_sep]), opt (among ''(''), exactly 3 digit, opt (among '')''), phone_sep,
     exactly 3 digit, phone_sep, exactly 4 digit]"

definition ssn :: regex where
  "ssn = in_turn [Edge, exactly 3 digit, among ''-'', exactly 2 digit, among ''-'', exactly 4 digit, Edge]"

definition credit_card :: regex where
  "credit_card = in_turn [Edge, digit, between 12 18 (Seq (opt (among '' -'')) digit), Edge]"

definition ip_address :: regex where
  "ip_address = in_turn [Edge, exactly 3 (Seq (between 1 3 digit) (among ''.'')), between 1 3 digit, Edge]"

definition pii_patterns :: "(string \<times> regex) list" where
  "pii_patterns = [(''email'', email), (''phone_us'', phone_us), (''ssn'', ssn), (''credit_card'', credit_card), (''ip_address'', ip_address)]"

definition spaces :: regex where
  "spaces = plus space"

definition before_that :: "string list \<Rightarrow> regex" where
  "before_that ws = in_turn [spaces, opt (Seq (letters ''all'') spaces), one_of_these (map letters ws)]"

definition instructions :: regex where
  "instructions = Seq (letters ''instruction'') (opt (letters ''s''))"

definition injection_patterns :: "regex list" where
  "injection_patterns =
     [in_turn [letters ''ignore'', before_that [''previous'', ''prior'', ''above''], spaces,
        one_of_these [instructions, Seq (letters ''prompt'') (opt (letters ''s'')), Seq (letters ''rule'') (opt (letters ''s''))]],
      Seq (letters ''disregard'') (before_that [''previous'', ''prior'', ''above'']),
      Seq (letters ''forget'') (before_that [''previous'', ''prior'', ''above'', ''everything'']),
      in_turn [letters ''you'', spaces, letters ''are'', spaces, letters ''now'', spaces, one_of_these [letters ''a'', letters ''an'', letters ''the''], spaces],
      in_turn [letters ''pretend'', spaces, one_of_these [in_turn [letters ''you'', Alt (letters [CHR 0x27, CHR ''r'', CHR ''e'']) (Seq spaces (letters ''are'')), spaces],
        in_turn [letters ''to'', spaces, letters ''be'', spaces]]],
      in_turn [letters ''act'', spaces, letters ''as'', spaces, one_of_these [letters ''a'', letters ''an'', letters ''if''], spaces],
      in_turn [letters ''new'', spaces, opt (Seq (letters ''system'') spaces), instructions, among '':''],
      in_turn [letters ''system'', Many space, among '':'', Many space],
      letters ''[system]'',
      in_turn [letters ''override'', spaces, opt (Seq (letters ''your'') spaces),
        one_of_these [instructions, Seq (letters ''rule'') (opt (letters ''s'')), Seq (letters ''guideline'') (opt (letters ''s''))]],
      letters ''jailbreak'',
      in_turn [letters ''do'', spaces, letters ''anything'', spaces, letters ''now''],
      in_turn [letters ''developer'', spaces, letters ''mode'']]"

section \<open>Guards on a turn\<close>

text \<open>The texts of the newest message; \<open>None\<close> when there is no message.\<close>

definition newest_text :: "'t middleware_context \<Rightarrow> string option" where
  "newest_text c = (if context_messages c = [] then None else Some (join_with '' '' (texts (tm_content (last (context_messages c))))))"

text \<open>A guard: an objection stops what comes, and nothing else is touched.\<close>

definition guarded :: "middleware_stage list \<Rightarrow> ('t middleware_context \<Rightarrow> exn option) \<Rightarrow> ('s, 't) middleware" where
  "guarded stages objection = \<lparr>mw_stages = Some stages, mw_process = (\<lambda>cont. bindA (queryA (\<lambda>(c, s). objection c)) (\<lambda>bad.
     case bad of Some e \<Rightarrow> raiseA e | None \<Rightarrow> cont))\<rparr>"

definition blocked_keyword :: "string list \<Rightarrow> string \<Rightarrow> exn option" where
  "blocked_keyword keywords t = map_option (\<lambda>kw. stopped_by (''ContentFilter: Blocked keyword detected: '' @ quoted (map low_char kw)))
     (List.find (\<lambda>kw. contains_sub (map low_char kw) (map low_char t)) keywords)"

definition blocked_pattern :: "pattern list \<Rightarrow> string \<Rightarrow> exn option" where
  "blocked_pattern patterns t = map_option (\<lambda>(src, r). stopped_by (''ContentFilter: Blocked pattern matched: '' @ quoted src))
     (List.find (\<lambda>(src, r). search r t \<noteq> None) patterns)"

definition or_next :: "'a option \<Rightarrow> 'a option \<Rightarrow> 'a option" where
  "or_next x y = (case x of None \<Rightarrow> y | Some a \<Rightarrow> Some a)"

definition content_filter :: "pattern list \<Rightarrow> string list \<Rightarrow> ('s, 't) middleware" where
  "content_filter patterns keywords = guarded [TurnStage] (\<lambda>c. case newest_text c of None \<Rightarrow> None
     | Some t \<Rightarrow> or_next (blocked_keyword keywords t) (blocked_pattern patterns t))"

definition injection_found :: "regex list \<Rightarrow> string \<Rightarrow> string option" where
  "injection_found patterns t = first_of (\<lambda>r. search r t) patterns"

definition prompt_injection :: "regex list \<Rightarrow> ('s, 't) middleware" where
  "prompt_injection extra = guarded [TurnStage] (\<lambda>c. case newest_text c of None \<Rightarrow> None
     | Some t \<Rightarrow> map_option (\<lambda>w. stopped_by (''PromptInjection: Potential injection detected: '' @ quoted (take 60 w)))
         (injection_found (injection_patterns @ extra) t))"

section \<open>Guards on a model call\<close>

definition input_tokens :: "codec \<Rightarrow> rat \<Rightarrow> 't middleware_context \<Rightarrow> nat" where
  "input_tokens X cpt c = estimate_tokens X cpt (context_messages c) +
     nat \<lfloor>of_nat (length (case mx_system_instructions c of None \<Rightarrow> [] | Some t \<Rightarrow> t)) / cpt\<rfloor>"

definition max_token :: "codec \<Rightarrow> int \<Rightarrow> rat \<Rightarrow> ('s, 't) middleware" where
  "max_token X max_tokens cpt = guarded [ChatStage] (\<lambda>c. let n = input_tokens X cpt c in
     if max_tokens < int n
     then Some (stopped_by (''MaxToken: Input too long: ~'' @ show_nat n @ '' tokens (estimated) - limit is '' @ show_int max_tokens)) else None)"

text \<open>The judge: what it says is read as JSON, or from a fenced block, or from braces around the word, or by its words.\<close>

definition any_char :: regex where
  "any_char = Sym (\<lambda>_. True)"

definition fenced_object :: "string \<Rightarrow> string option" where
  "fenced_object t = first_of (\<lambda>i. case [take (length (snd y) - length (snd z)) (snd y).
       y \<leftarrow> ends (in_turn [letters ''```'', opt (in_turn [among ''j'', among ''s'', among ''o'', among ''n'']), Many space]) (rev (take i t), drop i t),
       z \<leftarrow> ends (in_turn [among ''{'', Few any_char, among ''}'']) y,
       u \<leftarrow> ends (Seq (Many space) (letters ''```'')) z] of [] \<Rightarrow> None | w # _ \<Rightarrow> Some w) [0..<Suc (length t)]"

definition braced_verdict :: regex where
  "braced_verdict = (let inner = Many (Sym (\<lambda>c. c \<notin> set ''{}'')) in
     in_turn [among ''{'', inner, in_turn (map (\<lambda>c. among [c]) [CHR 0x22, CHR ''s'', CHR ''a'', CHR ''f'', CHR ''e'', CHR 0x22]), inner, among ''}''])"

definition verdict_of_words :: "string \<Rightarrow> json" where
  "verdict_of_words t = (let low = map low_char t in
     JObj [(''safe'', JBool (\<not> (contains_sub ''unsafe'' low \<or> contains_sub ''not safe'' low \<or>
        contains_sub (CHR 0x22 # ''safe'' @ CHR 0x22 # '': false'') low))), (''reason'', JStr (take 200 t))])"

definition parse_judgment :: "(string \<Rightarrow> json option) \<Rightarrow> string \<Rightarrow> json" where
  "parse_judgment loads t = (case or_next (loads (strip t)) (or_next (Option.bind (fenced_object t) loads) (Option.bind (search braced_verdict t) loads)) of
       Some v \<Rightarrow> v | None \<Rightarrow> verdict_of_words t)"

text \<open>An objection of the judge; an answer that is no object is an error, and errors let the answer pass.\<close>

definition judged_unsafe :: "codec \<Rightarrow> json \<Rightarrow> exn option" where
  "judged_unsafe X v = (case v of
       JObj kvs \<Rightarrow> (if (case map_of kvs ''safe'' of None \<Rightarrow> True | Some b \<Rightarrow> truthy b) then None
         else Some (stopped_by (''LLMJudge flagged as unsafe: '' @
           (case map_of kvs ''reason'' of Some r \<Rightarrow> if truthy r then plain_str X r else ''no reason'' | None \<Rightarrow> ''no reason''))))
     | _ \<Rightarrow> None)"

definition is_termination :: "exn \<Rightarrow> bool" where
  "is_termination e = (case e of KernelExn c _ _ \<Rightarrow> is_subclass c MiddlewareTermination | _ \<Rightarrow> False)"

definition classify_request :: "string \<Rightarrow> string" where
  "classify_request t = (let q = replicate 3 (CHR 0x22) in ''Classify this message:'' @ newline @ q @ newline @ t @ newline @ q)"

definition llm_judge :: "codec \<Rightarrow> (string \<Rightarrow> json option) \<Rightarrow> (string \<Rightarrow> ('s, exn, llm_response) act) \<Rightarrow> ('s, 't) middleware" where
  "llm_judge X loads ask = \<lparr>mw_stages = Some [ChatStage], mw_process = (\<lambda>cont. thenA cont
     (bindA (queryA (\<lambda>(c, s). case mx_chat_result c of None \<Rightarrow> [] | Some r \<Rightarrow> response_text r)) (\<lambda>t.
      if t = [] then retA ()
      else catchA (bindA (worldA (ask (classify_request t))) (\<lambda>r.
          case judged_unsafe X (parse_judgment loads (response_text r)) of Some e \<Rightarrow> raiseA e | None \<Rightarrow> retA ()))
        (\<lambda>e. if is_termination e \<or> \<not> is_exception e then raiseA e else retA ()))))\<rparr>"

section \<open>Guards on a tool call\<close>

text \<open>\<open>_strings\<close>: every text inside a value.\<close>

fun strings_in :: "json \<Rightarrow> string list" where
  "strings_in (JStr t) = [t]"
| "strings_in (JList js) = concat (map strings_in js)"
| "strings_in (JObj kvs) = concat (map (\<lambda>(k, v). strings_in v) kvs)"
| "strings_in _ = []"

text \<open>\<open>labels\<close> are the built-in kinds to look for, in the order in which the set of them is walked.\<close>

definition pii_chosen :: "string list \<Rightarrow> pattern list \<Rightarrow> pattern list" where
  "pii_chosen labels custom = fold (\<lambda>(k, r). AList.update k r) custom
     (List.map_filter (\<lambda>k. map_option (Pair k) (map_of pii_patterns k)) labels)"

definition pii_found :: "pattern list \<Rightarrow> string \<times> json \<Rightarrow> exn option" where
  "pii_found patterns kv = first_of (\<lambda>t. first_of (\<lambda>(label, r). if search r t = None then None
       else Some (stopped_by (''PIIDetection: PII detected ('' @ label @ '') in argument '' @ quoted (fst kv)))) patterns) (strings_in (snd kv))"

definition pii_detection :: "pattern list \<Rightarrow> ('s, 't) middleware" where
  "pii_detection patterns = guarded [ToolStage] (\<lambda>c. first_of (pii_found patterns) (argument_items (mx_arguments c)))"

definition blocked_argument :: "codec \<Rightarrow> string \<Rightarrow> (string \<times> json) list \<Rightarrow> string \<times> regex list \<Rightarrow> exn option" where
  "blocked_argument X tool_name args p = (case p of (arg, rs) \<Rightarrow>
     first_of (\<lambda>r. map_option (\<lambda>w. stopped_by (''ToolCallValidation: Blocked argument pattern in '' @ tool_name @ ''.'' @ arg @ '': '' @ quoted (take 40 w)))
       (search r (case map_of args arg of None \<Rightarrow> [] | Some v \<Rightarrow> plain_str X v))) rs)"

definition tool_call_validation ::
  "codec \<Rightarrow> string list option \<Rightarrow> string list \<Rightarrow> (string \<times> (string \<times> regex list) list) list \<Rightarrow> ('s, 't) middleware" where
  "tool_call_validation X allowed blocked arg_patterns = guarded [ToolStage] (\<lambda>c.
     let name = (case mx_function_name c of None \<Rightarrow> [] | Some n \<Rightarrow> n) in
     if name \<in> set blocked then Some (stopped_by (''ToolCallValidation: Tool '' @ quoted name @ '' is blocked''))
     else if (case allowed of None \<Rightarrow> False | Some xs \<Rightarrow> name \<notin> set xs)
     then Some (stopped_by (''ToolCallValidation: Tool '' @ quoted name @ '' is not in the allowed list''))
     else (case map_of arg_patterns name of None \<Rightarrow> None
       | Some ps \<Rightarrow> first_of (blocked_argument X name (argument_items (mx_arguments c))) ps))"

section \<open>Safety of a turn\<close>

datatype severity = NoSeverity | LowSeverity | MediumSeverity | HighSeverity | CriticalSeverity

fun severity_rank :: "severity \<Rightarrow> nat" where
  "severity_rank NoSeverity = 0"
| "severity_rank LowSeverity = 1"
| "severity_rank MediumSeverity = 2"
| "severity_rank HighSeverity = 3"
| "severity_rank CriticalSeverity = 4"

fun severity_value :: "severity \<Rightarrow> string" where
  "severity_value NoSeverity = ''none''"
| "severity_value LowSeverity = ''low''"
| "severity_value MediumSeverity = ''medium''"
| "severity_value HighSeverity = ''high''"
| "severity_value CriticalSeverity = ''critical''"

instantiation severity :: linorder
begin

definition less_eq_severity :: "severity \<Rightarrow> severity \<Rightarrow> bool" where
  "less_eq_severity a b \<longleftrightarrow> severity_rank a \<le> severity_rank b"

definition less_severity :: "severity \<Rightarrow> severity \<Rightarrow> bool" where
  "less_severity a b \<longleftrightarrow> severity_rank a < severity_rank b"

instance
proof
  fix a b :: severity
  assume "a \<le> b" "b \<le> a"
  then show "a = b" by (cases a; cases b) (simp_all add: less_eq_severity_def)
qed (auto simp: less_eq_severity_def less_severity_def)

end

definition max_severity :: "severity \<Rightarrow> severity \<Rightarrow> severity" where
  "max_severity a b = (if b \<le> a then a else b)"

record safety_verdict =
  sv_severity :: severity
  sv_scores :: "(string \<times> rat) list"
  sv_detector :: string
  sv_modality :: string

definition flagged_verdict :: "safety_verdict \<Rightarrow> bool" where
  "flagged_verdict v \<longleftrightarrow> sv_severity v \<noteq> NoSeverity"

text \<open>What \<open>normalize\<close> gives.\<close>

record normalized_text =
  nt_text :: string
  nt_skeleton :: string
  nt_signals :: "string list"

definition regex_verdict :: "string \<Rightarrow> safety_verdict" where
  "regex_verdict t = (case injection_found injection_patterns t of
       Some w \<Rightarrow> \<lparr>sv_severity = HighSeverity, sv_scores = [(''malicious'', 1)], sv_detector = ''regex'', sv_modality = ''text''\<rparr>
     | None \<Rightarrow> \<lparr>sv_severity = NoSeverity, sv_scores = [], sv_detector = ''regex'', sv_modality = ''text''\<rparr>)"

definition classify_text :: "(string \<Rightarrow> normalized_text) \<Rightarrow> (string \<Rightarrow> safety_verdict) \<Rightarrow> string \<Rightarrow> safety_verdict" where
  "classify_text unmask classify t = (let n = unmask t; plain = regex_verdict (nt_text n);
     hit = (if flagged_verdict plain then plain else regex_verdict (nt_skeleton n)) in
     if flagged_verdict hit then hit
     else (let v = classify (nt_skeleton n) in
       if nt_signals n \<noteq> [] \<and> \<not> flagged_verdict v
       then \<lparr>sv_severity = LowSeverity, sv_scores = sv_scores v, sv_detector = sv_detector v, sv_modality = ''text''\<rparr> else v))"

definition classify_image :: "(string \<Rightarrow> safety_verdict) option \<Rightarrow> media_block \<Rightarrow> safety_verdict" where
  "classify_image classifier m = (case (classifier, mb_data m) of
       (Some f, Some d) \<Rightarrow> f d
     | _ \<Rightarrow> \<lparr>sv_severity = NoSeverity, sv_scores = [], sv_detector = ''image_safety'', sv_modality = ''image''\<rparr>)"

definition block_verdict ::
  "(string \<Rightarrow> normalized_text) \<Rightarrow> (string \<Rightarrow> safety_verdict) \<Rightarrow> (string \<Rightarrow> safety_verdict) option \<Rightarrow> content \<Rightarrow> safety_verdict option" where
  "block_verdict unmask classify images b = (case b of
       TextBlock t \<Rightarrow> if strip t = [] then None else Some (classify_text unmask classify t)
     | MediaBlock m \<Rightarrow> if mb_type m = ''image'' then Some (classify_image images m) else None
     | _ \<Rightarrow> None)"

definition worse :: "safety_verdict \<Rightarrow> safety_verdict \<Rightarrow> safety_verdict" where
  "worse v w = (if max_severity (sv_severity w) (sv_severity v) \<noteq> sv_severity w then v else w)"

definition flagged_entry :: "int \<Rightarrow> safety_verdict \<Rightarrow> json" where
  "flagged_entry seq v = JObj [(''seq'', JInt seq), (''detector'', JStr (sv_detector v)), (''severity'', JStr (severity_value (sv_severity v))),
     (''scores'', JObj (map (\<lambda>(k, q). (k, JNum q)) (sv_scores v))), (''modality'', JStr (sv_modality v))]"

definition verdicts_of ::
  "(string \<Rightarrow> normalized_text) \<Rightarrow> (string \<Rightarrow> safety_verdict) \<Rightarrow> (string \<Rightarrow> safety_verdict) option \<Rightarrow> 't middleware_context \<Rightarrow> safety_verdict list" where
  "verdicts_of unmask classify images c = (if context_messages c = [] then []
     else List.map_filter (block_verdict unmask classify images) (tm_content (last (context_messages c))))"

definition note_flagged :: "('b, 'x) run_context option \<Rightarrow> safety_verdict \<Rightarrow> 't middleware_context \<Rightarrow> (journal \<times> ('b, 'x) world, 't) link" where
  "note_flagged C worst c = (case (C, mx_user_message_seq c) of
       (Some R, Some seq) \<Rightarrow> worldA (bindA (ctx_log_once R ''user.message.flagged'' (Some (flagged_entry seq worst))) (\<lambda>_. retA ()))
     | _ \<Rightarrow> retA ())"

text \<open>The classifiers are functions; \<open>C\<close> is the run's handle.\<close>

definition multimodal_safety ::
  "('b, 'x) run_context option \<Rightarrow> (string \<Rightarrow> normalized_text) \<Rightarrow> (string \<Rightarrow> safety_verdict) \<Rightarrow> (string \<Rightarrow> safety_verdict) option
     \<Rightarrow> (journal \<times> ('b, 'x) world, 't) middleware" where
  "multimodal_safety C unmask classify images = \<lparr>mw_stages = Some [TurnStage], mw_process = (\<lambda>cont.
     bindA (queryA fst) (\<lambda>c. case verdicts_of unmask classify images c of
       [] \<Rightarrow> cont
     | v # vs \<Rightarrow> (let worst = fold worse vs v in
         if flagged_verdict worst
         then thenA (note_flagged C worst c)
            (raiseA (stopped_by (''Safety: message flagged by '' @ sv_detector worst @ '' (severity='' @ severity_value (sv_severity worst) @
               '') and was not processed.'')))
         else cont)))\<rparr>"

end
