(* ===== verification/Guard_Claims.thy ===== *)
theory Guard_Claims
  imports Guardrails Journal_Store
begin

text \<open>
  What the guardrails promise: personal data inside the arguments of a call, however deep, stops the call; a turn one part of
  which is flagged is not answered; and where their comments say something else than they do.
\<close>

section \<open>Personal data\<close>

text \<open>A text is inside a value.\<close>

inductive inside :: "string \<Rightarrow> json \<Rightarrow> bool" where
  Here: "inside t (JStr t)"
| In_list: "j \<in> set js \<Longrightarrow> inside t j \<Longrightarrow> inside t (JList js)"
| In_object: "(k, v) \<in> set kvs \<Longrightarrow> inside t v \<Longrightarrow> inside t (JObj kvs)"

inductive_simps inside_simps:
  "inside t (JStr s)" "inside t (JList js)" "inside t (JObj kvs)" "inside t JNull" "inside t (JBool b)" "inside t (JInt i)" "inside t (JNum q)"
  "inside t (JTime x)"

lemma strings_in_iff: "t \<in> set (strings_in v) \<longleftrightarrow> inside t v"
  by (induction v rule: strings_in.induct) (fastforce simp: inside_simps)+

lemma first_of_None: "first_of f xs = None \<longleftrightarrow> (\<forall>x\<in>set xs. f x = None)"
  by (induction xs) (auto split: option.splits)

lemma first_of_Some: "first_of f xs = Some y \<Longrightarrow> \<exists>x\<in>set xs. f x = Some y"
  by (induction xs) (auto split: option.splits)

definition gives_away :: "pattern list \<Rightarrow> 't middleware_context \<Rightarrow> bool" where
  "gives_away patterns c \<longleftrightarrow> (\<exists>key v t label r. (key, v) \<in> set (argument_items (mx_arguments c)) \<and> inside t v \<and> (label, r) \<in> set patterns \<and> occurs r t)"

lemma pii_found_None: "pii_found patterns kv = None \<longleftrightarrow> (\<forall>t label r. inside t (snd kv) \<longrightarrow> (label, r) \<in> set patterns \<longrightarrow> \<not> occurs r t)"
proof -
  have "pii_found patterns kv = None \<longleftrightarrow> (\<forall>t\<in>set (strings_in (snd kv)). \<forall>(label, r)\<in>set patterns. search r t = None)"
    by (simp add: pii_found_def first_of_None split_beta)
  also have "\<dots> \<longleftrightarrow> (\<forall>t label r. inside t (snd kv) \<longrightarrow> (label, r) \<in> set patterns \<longrightarrow> \<not> occurs r t)"
    unfolding search_iff [symmetric] strings_in_iff [symmetric] by fastforce
  finally show ?thesis .
qed

lemma pii_found_stops: "pii_found patterns kv = Some e \<Longrightarrow> \<exists>msg. e = stopped_by msg"
  by (auto simp: pii_found_def dest!: first_of_Some split: if_splits prod.splits)

lemma guarded_run: "mw_process (guarded stages objection) cont (c, s) = (case objection c of None \<Rightarrow> cont (c, s) | Some e \<Rightarrow> (Inl e, (c, s)))"
  by (simp add: guarded_def bindA_def queryA_def raiseA_def split: option.split)

text \<open>
  C22. A call is stopped exactly when some part of a text anywhere inside its arguments is of a kind that is looked for; then the tool
  is not reached and nothing has changed, and otherwise the call goes on as if there were no guard.
\<close>

theorem personal_data_stopped:
  "mw_process (pii_detection patterns) cont (c, s) =
     (if gives_away patterns c then (Inl (the (first_of (pii_found patterns) (argument_items (mx_arguments c)))), (c, s)) else cont (c, s)) \<and>
   (gives_away patterns c \<longrightarrow> (\<exists>msg. first_of (pii_found patterns) (argument_items (mx_arguments c)) = Some (stopped_by msg)))"
proof -
  have "first_of (pii_found patterns) (argument_items (mx_arguments c)) = None \<longleftrightarrow> \<not> gives_away patterns c"
    unfolding first_of_None pii_found_None gives_away_def by fastforce
  moreover have "\<exists>msg. e = stopped_by msg" if "first_of (pii_found patterns) (argument_items (mx_arguments c)) = Some e" for e
    using first_of_Some [OF that] pii_found_stops by blast
  ultimately show ?thesis unfolding pii_detection_def guarded_run by (auto split: option.splits)
qed

definition leaky :: "unit middleware_context" where
  "leaky = (blank_context ToolStage ''agent'' ''r'')\<lparr>mx_function_name := Some ''mail'',
     mx_arguments := Some (JObj [(''body'', JObj [(''to'', JList [JInt 1, JStr ''ssn: 123-45-6789.''])])])\<rparr>"

theorem personal_data_stopped_witness:
  "mw_process (pii_detection pii_patterns) (execA id) (leaky, 0 :: nat) =
     (Inl (stopped_by (''PIIDetection: PII detected (ssn) in argument '' @ quoted ''body'')), (leaky, 0))"
proof -
  have found: "first_of (pii_found pii_patterns) (argument_items (mx_arguments leaky)) =
      Some (stopped_by (''PIIDetection: PII detected (ssn) in argument '' @ quoted ''body''))" by code_simp
  have "gives_away pii_patterns leaky"
  proof -
    have "inside ''ssn: 123-45-6789.'' (JObj [(''to'', JList [JInt 1, JStr ''ssn: 123-45-6789.''])])" by (auto simp: inside_simps)
    moreover have "occurs ssn ''ssn: 123-45-6789.''" unfolding search_iff [symmetric] by code_simp
    moreover have "(''body'', JObj [(''to'', JList [JInt 1, JStr ''ssn: 123-45-6789.''])]) \<in> set (argument_items (mx_arguments leaky))"
      by (simp add: leaky_def argument_items_def)
    moreover have "(''ssn'', ssn) \<in> set pii_patterns" by (simp add: pii_patterns_def)
    ultimately show ?thesis unfolding gives_away_def by blast
  qed
  with personal_data_stopped [of pii_patterns "execA id" leaky "0 :: nat"] found show ?thesis by simp
qed

text \<open>A number is no text, and the names of fields are not looked at.\<close>

theorem personal_number_passes:
  "first_of (pii_found pii_patterns) [(''body'', JObj [(''card'', JInt 4111111111111111), (''ann@example.org'', JBool True)])] = None"
  by code_simp

section \<open>A flagged turn\<close>

lemma max_severity_max: "max_severity a b = max a b"
  by (auto simp: max_severity_def max_def)

lemma worse_severity: "sv_severity (worse v w) = max (sv_severity w) (sv_severity v)"
  by (auto simp: worse_def max_severity_max max_def)

lemma worst_severity: "sv_severity (fold worse vs v) = Max (sv_severity ` set (v # vs))"
proof (induction vs arbitrary: v)
  case (Cons w vs)
  have "Max (sv_severity ` set (worse w v # vs)) = Max (sv_severity ` set (v # w # vs))"
    by (cases "vs = []") (simp_all add: worse_severity max.assoc)
  then show ?case using Cons.IH [of "worse w v"] by simp
qed simp

lemma flagged_rank: "flagged_verdict v \<longleftrightarrow> NoSeverity < sv_severity v"
  by (cases "sv_severity v") (simp_all add: flagged_verdict_def less_severity_def)

lemma worst_flagged: "flagged_verdict (fold worse vs v) \<longleftrightarrow> (\<exists>w\<in>set (v # vs). flagged_verdict w)"
  unfolding flagged_rank worst_severity by (subst Max_gr_iff) auto

lemma note_keeps: "fst (snd (note_flagged C v c (d, s))) = d"
  by (auto simp: note_flagged_def onA_def retA_def split: option.splits prod.splits)


text \<open>
  Signs of evasion alone, in a text that neither the patterns nor the classifier object to, stop the turn, although they are said
  to be a note for the record and not a block.
\<close>

theorem evasion_sign_blocks:
  assumes "nt_signals (unmask t) \<noteq> []" and "injection_found injection_patterns (nt_text (unmask t)) = None"
    and "injection_found injection_patterns (nt_skeleton (unmask t)) = None" and "\<not> flagged_verdict (classify (nt_skeleton (unmask t)))"
  shows "sv_severity (classify_text unmask classify t) = LowSeverity" and "flagged_verdict (classify_text unmask classify t)"
  using assms by (simp_all add: classify_text_def regex_verdict_def flagged_verdict_def Let_def)

section \<open>The judge\<close>

text \<open>A judge that cannot be asked, or answers with anything but an object, lets the answer pass.\<close>

lemma judge_fails_open:
  assumes "cont (c, s) = (Inr (), (c', s'))" and "mx_chat_result c' = Some r" and "response_text r \<noteq> []"
    and "ask (classify_request (response_text r)) s' = (Inl e, s'')" and "is_exception e" and "\<not> is_termination e"
  shows "mw_process (llm_judge X loads ask) cont (c, s) = (Inr (), (c', s''))"
  using assms by (simp add: llm_judge_def bindA_def queryA_def catchA_def onA_def retA_def)

lemma judge_without_object: "(\<forall>kvs. v \<noteq> JObj kvs) \<Longrightarrow> judged_unsafe X v = None"
  by (cases v) (simp_all add: judged_unsafe_def)

text \<open>Words alone: \<open>unsafe\<close> anywhere in the answer counts, so does denying it.\<close>

lemma words_decide: "jget ''safe'' (verdict_of_words ''This is not unsafe at all.'') = Some (JBool False)"
  by code_simp

section \<open>Known phrases\<close>

lemma phrases_found:
  "search (letters ''jailbreak'') ''a JailBreak'' = Some ''JailBreak''"
  "search (in_turn [letters ''system'', Many space, among '':'', Many space]) ''my system: ok'' = Some ''system: ''"
  by code_simp+

end
