(* ===== verification/Delegation.thy ===== *)
theory Delegation
  imports Agent_Base
begin

text \<open>
  Agents that hand work on: the flows of \<open>agents/flows.py\<close>, the agent that asks a person (\<open>agents/proxy.py\<close>), the head count of
  \<open>agents/spawn.py\<close> and the orchestrator (\<open>agents/orchestrator.py\<close>), whose model delegates by calling tools.
\<close>

section \<open>Messages to others\<close>

definition chat_json :: "string \<Rightarrow> json" where
  "chat_json t = JObj [(''kind'', JStr ''chat''), (''message'', JObj [(''role'', JStr ''user''),
     (''content'', JList [JObj [(''type'', JStr ''text''), (''text'', JStr t)]]), (''name'', JNull), (''metadata'', JObj [])])]"

text \<open>A message with a text; the id, the time and, unless one is given, the correlation id are drawn in the order of the fields.\<close>

definition new_message ::
  "('b, 'x) run_context \<Rightarrow> actor \<Rightarrow> actor \<Rightarrow> string \<Rightarrow> string option \<Rightarrow> json \<Rightarrow> ('b, 'x, message) capability" where
  "new_message C target sender t cid metadata =
     bindA (storeA (drawT (env_uuid (rc_env C)))) (\<lambda>mid.
     bindA (storeA (drawT (env_clock (rc_env C)))) (\<lambda>now.
     bindA (case cid of Some c \<Rightarrow> retA c | None \<Rightarrow> storeA (drawT (env_uuid (rc_env C)))) (\<lambda>c.
     retA \<lparr>msg_id = mid, msg_schema_version = 1, msg_created_at = now, msg_target = ToActor target, msg_sender = sender,
       msg_payload = chat_json t, msg_correlation_id = c, msg_causation_id = None, msg_metadata = metadata, msg_reply_to = None\<rparr>)))"

section \<open>Flows\<close>

definition text_from_message :: "codec \<Rightarrow> payload \<Rightarrow> string" where
  "text_from_message X p = (case p of ChatPayload m \<Rightarrow> content_blocks_to_str X (tm_content m)
     | DataPayload d \<Rightarrow> (case jget ''text'' d of None \<Rightarrow> [] | Some v \<Rightarrow> plain_str X v)
     | OtherPayload _ \<Rightarrow> [])"

text \<open>What \<open>ask\<close> gives as output is always the data of a reply.\<close>

definition text_from_outcome :: "codec \<Rightarrow> ask_outcome \<Rightarrow> string" where
  "text_from_outcome X res = (case Option.bind (ao_result res) rz_output of None \<Rightarrow> [] | Some d \<Rightarrow> text_from_message X (DataPayload d))"

definition step_message :: "('b, 'x) run_context \<Rightarrow> actor \<Rightarrow> string \<Rightarrow> actor \<Rightarrow> ('b, 'x, message) capability" where
  "step_message C target t sender = new_message C target sender t None (JObj [])"

definition blank_line :: string where
  "blank_line = newline @ newline"

text \<open>The text after all steps, or how the step ended that gave no reply.\<close>

fun flow_steps :: "('b, 'x) run_context \<Rightarrow> actor \<Rightarrow> seconds \<Rightarrow> actor list \<Rightarrow> string \<Rightarrow> ('b, 'x, string + string) capability" where
  "flow_steps C self timeout [] acc = retA (Inr acc)"
| "flow_steps C self timeout (a # as) acc =
     bindA (step_message C a acc self) (\<lambda>m.
     bindA (ctx_spawn C a m None) (\<lambda>h.
     bindA (ctx_ask C (AskHandle h) m timeout None) (\<lambda>res.
       if ao_kind res \<noteq> ''replied'' then retA (Inl (ao_kind res))
       else let output = text_from_outcome (ho_codec (rc_host C)) res in
         flow_steps C self timeout as (if output = [] then acc else acc @ blank_line @ output))))"

definition flow_id :: "string \<Rightarrow> actor" where
  "flow_id name = Actor ''flow'' name"

definition sequential_flow :: "('b, 'x) run_context \<Rightarrow> string \<Rightarrow> seconds \<Rightarrow> actor list \<Rightarrow> message \<Rightarrow> payload \<Rightarrow> ('b, 'x, unit) capability" where
  "sequential_flow C name timeout steps msg p =
     bindA (flow_steps C (flow_id name) timeout steps (text_from_message (ho_codec (rc_host C)) p)) (\<lambda>r. case r of
       Inl kind \<Rightarrow> ctx_reply C msg (JObj [(''text'', JStr []), (''error'', JStr kind)])
     | Inr acc \<Rightarrow> ctx_reply C msg (JObj [(''text'', JStr acc)]))"

text \<open>\<open>Counter\<close> keeps what it counts in the order of first appearance, and \<open>most_common(1)\<close> is the first with the greatest count.\<close>

definition counter :: "'a list \<Rightarrow> ('a \<times> nat) list" where
  "counter xs = map (\<lambda>x. (x, count_list xs x)) (fromkeys xs)"

fun first_most :: "('a \<times> nat) list \<Rightarrow> ('a \<times> nat) option" where
  "first_most [] = None"
| "first_most (p # ps) = (case first_most ps of None \<Rightarrow> Some p | Some q \<Rightarrow> if snd p < snd q then Some q else Some p)"

datatype merge_strategy = Concat | Vote | Custom "string list \<Rightarrow> string"

definition merge_outputs :: "merge_strategy \<Rightarrow> string list \<Rightarrow> exn + string" where
  "merge_outputs strategy outputs = (case strategy of
       Custom f \<Rightarrow> Inr (f outputs)
     | Vote \<Rightarrow> (case first_most (counter outputs) of None \<Rightarrow> Inl index_error | Some p \<Rightarrow> Inr (fst p))
     | Concat \<Rightarrow> Inr (join_with blank_line outputs))"

fun start_branches :: "('b, 'x) run_context \<Rightarrow> actor \<Rightarrow> string \<Rightarrow> actor list \<Rightarrow> ('b, 'x, (message \<times> run_handle) list) capability" where
  "start_branches C self t [] = retA []"
| "start_branches C self t (a # as) =
     bindA (step_message C a t self) (\<lambda>m. bindA (ctx_spawn C a m None) (\<lambda>h.
     bindA (start_branches C self t as) (\<lambda>rest. retA ((m, h) # rest))))"

fun await_branches :: "('b, 'x) run_context \<Rightarrow> seconds \<Rightarrow> (message \<times> run_handle) list \<Rightarrow> ('b, 'x, ask_outcome list) capability" where
  "await_branches C timeout [] = retA []"
| "await_branches C timeout ((m, h) # rest) =
     bindA (ctx_ask C (AskHandle h) m timeout None) (\<lambda>res. bindA (await_branches C timeout rest) (\<lambda>os. retA (res # os)))"

definition replied_text :: "codec \<Rightarrow> ask_outcome \<Rightarrow> string" where
  "replied_text X res = (if ao_kind res = ''replied'' then text_from_outcome X res else [])"

definition parallel_flow ::
  "('b, 'x) run_context \<Rightarrow> string \<Rightarrow> merge_strategy \<Rightarrow> seconds \<Rightarrow> actor list \<Rightarrow> message \<Rightarrow> payload \<Rightarrow> ('b, 'x, unit) capability" where
  "parallel_flow C name strategy timeout branches msg p =
     bindA (start_branches C (flow_id name) (text_from_message (ho_codec (rc_host C)) p) branches) (\<lambda>pairs.
     bindA (await_branches C timeout pairs) (\<lambda>os.
     bindA (liftA (merge_outputs strategy (map (replied_text (ho_codec (rc_host C))) os))) (\<lambda>t.
     ctx_reply C msg (JObj [(''text'', JStr t)]))))"

definition branch_taken :: "(string \<Rightarrow> exn + bool) \<Rightarrow> actor \<Rightarrow> actor \<Rightarrow> string \<Rightarrow> exn + actor" where
  "branch_taken predicate yes no t = (case predicate t of
       Inr b \<Rightarrow> Inr (if b then yes else no) | Inl e \<Rightarrow> if is_exception e then Inr no else Inl e)"

definition conditional_flow ::
  "('b, 'x) run_context \<Rightarrow> string \<Rightarrow> (string \<Rightarrow> exn + bool) \<Rightarrow> actor \<Rightarrow> actor \<Rightarrow> seconds \<Rightarrow> message \<Rightarrow> payload \<Rightarrow> ('b, 'x, unit) capability" where
  "conditional_flow C name predicate yes no timeout msg p =
     (let t = text_from_message (ho_codec (rc_host C)) p in
      bindA (liftA (branch_taken predicate yes no t)) (\<lambda>a.
      bindA (step_message C a t (flow_id name)) (\<lambda>m.
      bindA (ctx_spawn C a m None) (\<lambda>h.
      bindA (ctx_ask C (AskHandle h) m timeout None) (\<lambda>res.
      ctx_reply C msg (JObj [(''text'', JStr (replied_text (ho_codec (rc_host C)) res))]))))))"

section \<open>A person\<close>

definition question_text :: "codec \<Rightarrow> payload \<Rightarrow> string" where
  "question_text X p = (case p of ChatPayload m \<Rightarrow> content_blocks_to_str X (tm_content m) | DataPayload d \<Rightarrow> plain_str X d | OtherPayload name \<Rightarrow> name)"

definition user_proxy :: "('b, 'x) run_context \<Rightarrow> message \<Rightarrow> payload \<Rightarrow> ('b, 'x, unit) capability" where
  "user_proxy C msg p =
     bindA (ctx_log C ''hitl.question'' (Some (JObj [(''correlation_id'', JStr (msg_correlation_id msg)),
        (''text'', JStr (question_text (ho_codec (rc_host C)) p))]))) (\<lambda>_.
     bindA (ctx_sleep_until_signal C (''human_reply:'' @ msg_correlation_id msg)) (\<lambda>answer.
     if truthy_text (msg_reply_to msg) then ctx_reply C msg answer else retA ()))"

section \<open>Head count\<close>

record spawn_tracker =
  st_max_agents :: int
  st_total :: int
  st_active :: "(actor \<times> priority) list"

definition new_tracker :: "int \<Rightarrow> spawn_tracker" where
  "new_tracker n = \<lparr>st_max_agents = n, st_total = 1, st_active = []\<rparr>"

definition acquire :: "actor \<Rightarrow> priority \<Rightarrow> spawn_tracker \<Rightarrow> exn + spawn_tracker" where
  "acquire a p t = (if st_max_agents t \<le> st_total t
     then Inl (exhausted_error (''Run headcount cap reached ('' @ show_int (st_total t) @ ''/'' @ show_int (st_max_agents t) @
       '' agents). Agent '' @ quoted (actor_str a) @ '' cannot be spawned. Increase max_agents.''))
     else Inr (t\<lparr>st_active := AList.update a p (st_active t), st_total := st_total t + 1\<rparr>))"

definition release :: "actor \<Rightarrow> spawn_tracker \<Rightarrow> spawn_tracker" where
  "release a t = (if map_of (st_active t) a = None then t
     else t\<lparr>st_active := AList.delete a (st_active t), st_total := (if 1 < st_total t then st_total t - 1 else st_total t)\<rparr>)"

definition priority_of :: "spawn_tracker \<Rightarrow> actor \<Rightarrow> priority option" where
  "priority_of t a = map_of (st_active t) a"

section \<open>The orchestrator\<close>

record sub_agent =
  sa_id :: actor
  sa_description :: string
  sa_ask_timeout :: seconds
  sa_priority :: priority

record delegate_tool =
  dg_name :: string
  dg_description :: string

record ('b, 'z) orchestrator =
  oc_id :: actor
  oc_name :: string
  oc_model :: "('b, session \<times> 'z room, delegate_tool) client option"
  oc_sub_agents :: "sub_agent list"
  oc_system_instructions :: string
  oc_max_iterations :: int
  oc_max_agents :: int

definition handoff :: "sub_agent \<Rightarrow> string" where
  "handoff a = ''handoff_'' @ actor_type (sa_id a)"

definition delegate_tools :: "sub_agent list \<Rightarrow> delegate_tool list" where
  "delegate_tools as = map (\<lambda>a. \<lparr>dg_name = handoff a,
     dg_description = (if sa_description a = [] then ''Delegate to the '' @ actor_type (sa_id a) @ '' sub-agent'' else sa_description a)\<rparr>) as"

definition find_sub_agent :: "sub_agent list \<Rightarrow> string \<Rightarrow> sub_agent option" where
  "find_sub_agent as name = List.find (\<lambda>a. handoff a = name \<or> actor_type (sa_id a) = name) as"

definition delegate_options :: "('b, 'z) orchestrator \<Rightarrow> delegate_tool generation_options" where
  "delegate_options A = \<lparr>go_tools = (if oc_sub_agents A = [] then None else Some (delegate_tools (oc_sub_agents A))),
     go_system_instructions = oc_system_instructions A, go_tool_choice = None, go_reasoning = None\<rparr>"

definition consult ::
  "('b, 'z) orchestrator \<Rightarrow> ('b, session \<times> 'z room) run_context \<Rightarrow> (nat \<Rightarrow> rat) \<Rightarrow> (exn \<Rightarrow> exn) \<Rightarrow> chat_message list \<Rightarrow> ('b, 'z, llm_response) turn_act" where
  "consult A C ticks classify ms = (case oc_model A of
       None \<Rightarrow> ctx_llm C None (length ms) (raiseA AsyncioCancelled)
     | Some M \<Rightarrow> ctx_llm C (Some (cm_model M)) (length ms) (generate C ticks classify [] M ms (delegate_options A)))"

text \<open>A call of the model to delegate: its id, whom, and the arguments.\<close>

definition dispatches :: "content list \<Rightarrow> (string \<times> string \<times> json) list" where
  "dispatches bs = List.map_filter (\<lambda>b. case b of ToolUseBlock cid name args _ _ \<Rightarrow> Some (cid, name, args) | _ \<Rightarrow> None) bs"

definition task_text :: "codec \<Rightarrow> json \<Rightarrow> string" where
  "task_text X args = (case jget ''task'' args of Some v \<Rightarrow> py_str X v | None \<Rightarrow> py_str X args)"

definition dispatch_result :: "string \<Rightarrow> string \<Rightarrow> bool \<Rightarrow> content" where
  "dispatch_result cid t err = ToolResultBlock cid [] [TextBlock t] err"

text \<open>The text of the reply has to be one; anything else is refused when the block is made.\<close>

definition dispatch_answer :: "codec \<Rightarrow> string \<Rightarrow> string \<Rightarrow> ask_outcome \<Rightarrow> exn + content" where
  "dispatch_answer X cid name res = (case (ao_kind res = ''replied'', Option.bind (ao_result res) rz_output) of
       (True, Some d) \<Rightarrow> (case jget ''text'' d of
           None \<Rightarrow> Inr (dispatch_result cid (plain_str X d) False)
         | Some v \<Rightarrow> (case as_text X v of Some t \<Rightarrow> Inr (dispatch_result cid t False) | None \<Rightarrow> Inl (invalid_value ''TextBlock'')))
     | _ \<Rightarrow> Inr (dispatch_result cid (''Sub-agent '' @ name @ '': '' @ ao_kind res) True))"

definition log_subagent :: "('b, 'x) run_context \<Rightarrow> string \<Rightarrow> actor \<Rightarrow> actor \<Rightarrow> string \<times> json \<Rightarrow> ('b, 'x, unit) capability" where
  "log_subagent C kind child parent field = bindA (ctx_log C kind (Some (JObj [(''agent'', JStr (actor_type child)),
     (''parent'', JStr (actor_type parent)), field]))) (\<lambda>_. retA ())"

definition dispatch_one ::
  "('b, 'z) orchestrator \<Rightarrow> ('b, session \<times> 'z room) run_context \<Rightarrow> string \<Rightarrow> string \<times> string \<times> json \<Rightarrow> spawn_tracker
     \<Rightarrow> ('b, 'z, content \<times> spawn_tracker) turn_act" where
  "dispatch_one A C sid d t = (case d of (cid, name, args) \<Rightarrow> thenA (ctx_check C)
     (case find_sub_agent (oc_sub_agents A) name of
        None \<Rightarrow> retA (dispatch_result cid (''Unknown sub-agent: '' @ name) True, t)
      | Some a \<Rightarrow> bindA (liftA (acquire (sa_id a) (sa_priority a) t)) (\<lambda>t'.
          let X = ho_codec (rc_host C); task = task_text X args in
          thenA (log_subagent C ''subagent.start'' (sa_id a) (oc_id A) (''task'', JStr (take 200 task)))
         (bindA (queryA (\<lambda>s. child_metadata (dk_scope (desk_in s)))) (\<lambda>metadata.
          bindA (new_message C (sa_id a) (oc_id A) task (Some sid) metadata) (\<lambda>m.
          bindA (ctx_spawn C (sa_id a) m None) (\<lambda>h.
          bindA (ctx_ask C (AskHandle h) m (sa_ask_timeout a) None) (\<lambda>res.
          thenA (log_subagent C ''subagent.done'' (sa_id a) (oc_id A) (''ok'', JBool (ao_kind res = ''replied'')))
         (bindA (liftA (dispatch_answer X cid name res)) (\<lambda>b. retA (b, release (sa_id a) t')))))))))))"

fun dispatch_all ::
  "('b, 'z) orchestrator \<Rightarrow> ('b, session \<times> 'z room) run_context \<Rightarrow> string \<Rightarrow> (string \<times> string \<times> json) list \<Rightarrow> spawn_tracker
     \<Rightarrow> ('b, 'z, content list \<times> spawn_tracker) turn_act" where
  "dispatch_all A C sid [] t = retA ([], t)"
| "dispatch_all A C sid (d # ds) t = bindA (dispatch_one A C sid d t) (\<lambda>(b, t1).
     bindA (dispatch_all A C sid ds t1) (\<lambda>(bs, t2). retA (b # bs, t2)))"

fun orchestrate ::
  "('b, 'z) orchestrator \<Rightarrow> ('b, session \<times> 'z room) run_context \<Rightarrow> (nat \<Rightarrow> rat) \<Rightarrow> (exn \<Rightarrow> exn) \<Rightarrow> string \<Rightarrow> nat \<Rightarrow> spawn_tracker
     \<Rightarrow> chat_message list \<Rightarrow> ('b, 'z, chat_message list) turn_act" where
  "orchestrate A C ticks classify sid 0 t ms =
     raiseA (exhausted_error (''Agent reached max iterations limit ('' @ show_int (oc_max_iterations A) @ '')''))"
| "orchestrate A C ticks classify sid (Suc n) t ms = thenA (ctx_check C) (bindA (consult A C ticks classify ms) (\<lambda>r.
     let ms1 = ms @ [turn ASSISTANT (lr_content r)] in
     if dispatches (lr_content r) = [] then retA ms1
     else bindA (dispatch_all A C sid (dispatches (lr_content r)) t) (\<lambda>(results, t').
       orchestrate A C ticks classify sid n t' (ms1 @ [turn TOOL results]))))"

definition handle_orchestrated ::
  "('b, 'z) orchestrator \<Rightarrow> ('b, session \<times> 'z room) run_context \<Rightarrow> (nat \<Rightarrow> rat) \<Rightarrow> (exn \<Rightarrow> exn) \<Rightarrow> message \<Rightarrow> payload \<Rightarrow> ('b, 'z, unit) turn_act" where
  "handle_orchestrated A C ticks classify msg p =
     (let X = ho_codec (rc_host C); sid = session_id_of C msg;
          scope = scope_from_metadata X (msg_metadata msg) sid (actor_str (oc_id A)) (oc_name A); user_turn = message_to_chat X p in
      thenA (set_scope scope)
     (bindA (load_history X sid (sc_branch_id scope)) (\<lambda>past.
      bindA (log_user_message C msg user_turn) (\<lambda>_.
      bindA (orchestrate A C ticks classify sid (nat (oc_max_iterations A)) (new_tracker (oc_max_agents A)) (past @ [user_turn])) (\<lambda>ms.
      bindA (queryA (\<lambda>s. dk_snapshot (desk_in s))) (\<lambda>snapshot.
      thenA (persist_turns (rc_env C) sid (rc_run C) (sc_branch_id scope) snapshot (drop (length past) ms))
     (reply_or_emit C msg (JObj [(''text'', JStr (final_text ms))]) (oc_id A) None)))))))"

end
