(* ===== verification/Delegation_Claims.thy ===== *)
theory Delegation_Claims
  imports Delegation React_Claims Context_Waits Journal_Store
begin

text \<open>
  What delegation promises: a vote is won by a majority, the head count of a run is bounded, an orchestrator answers each call to
  delegate, and work handed on by \<open>child_metadata\<close> stays in the scope of whom it is done for; and where a branch that failed wins a
  vote, a slot is lost, and what a flow hands on is no longer in the caller's scope.
\<close>

section \<open>Votes\<close>

lemma first_most_Some: "ps \<noteq> [] \<Longrightarrow> \<exists>p. first_most ps = Some p \<and> p \<in> set ps \<and> (\<forall>q\<in>set ps. snd q \<le> snd p) \<and>
    (\<forall>q\<in>set (takeWhile (\<lambda>x. x \<noteq> p) ps). snd q < snd p)"
proof (induction ps)
  case (Cons a ps)
  show ?case
  proof (cases "ps = []")
    case False
    then obtain p where p: "first_most ps = Some p" "p \<in> set ps" "\<forall>q\<in>set ps. snd q \<le> snd p" "\<forall>q\<in>set (takeWhile (\<lambda>x. x \<noteq> p) ps). snd q < snd p"
      using Cons.IH by blast
    then show ?thesis by (cases "snd a < snd p") (auto dest: bspec)
  qed simp
qed simp

text \<open>
  A vote among at least one output is won by an output that no other outnumbers, and that came up before every other it is
  tied with.
\<close>

theorem vote_won:
  assumes "outputs \<noteq> []"
  shows "\<exists>w. merge_outputs Vote outputs = Inr w \<and> w \<in> set outputs \<and> (\<forall>x. count_list outputs x \<le> count_list outputs w) \<and>
    (\<forall>x\<in>set (takeWhile (\<lambda>x. x \<noteq> w) (fromkeys outputs)). count_list outputs x < count_list outputs w)"
proof -
  have "counter outputs \<noteq> []" using assms set_fromkeys [of outputs] by (auto simp: counter_def simp del: set_fromkeys)
  from first_most_Some [OF this] obtain q where q: "first_most (counter outputs) = Some q" "q \<in> set (counter outputs)"
    "\<forall>x\<in>set (counter outputs). snd x \<le> snd q" "\<forall>x\<in>set (takeWhile (\<lambda>x. x \<noteq> q) (counter outputs)). snd x < snd q" by blast
  obtain w n where "q = (w, n)" by (cases q)
  with q have p: "first_most (counter outputs) = Some (w, n)" "(w, n) \<in> set (counter outputs)"
    "\<forall>q\<in>set (counter outputs). snd q \<le> n" "\<forall>q\<in>set (takeWhile (\<lambda>x. x \<noteq> (w, n)) (counter outputs)). snd q < n" by simp_all
  have n: "n = count_list outputs w" "w \<in> set outputs" using p(2) by (auto simp: counter_def)
  have "count_list outputs x \<le> n" for x
    using p(3) by (cases "x \<in> set outputs") (auto simp: counter_def count_list_0_iff)
  moreover have "takeWhile (\<lambda>x. x \<noteq> (w, n)) (counter outputs) = map (\<lambda>x. (x, count_list outputs x)) (takeWhile (\<lambda>x. x \<noteq> w) (fromkeys outputs))"
    unfolding counter_def takeWhile_map by (rule arg_cong [where f = "map _"], rule takeWhile_cong) (auto simp: n(1))
  ultimately show ?thesis using p n by (auto simp: merge_outputs_def)
qed

text \<open>A branch that failed or gave no text votes for the empty text, and may win.\<close>

theorem silent_branches_win: "merge_outputs Vote [[], ''yes'', []] = Inr []"
  by code_simp

section \<open>Head count\<close>

inductive tracker_reach :: "int \<Rightarrow> spawn_tracker \<Rightarrow> bool" for n where
  New: "tracker_reach n (new_tracker n)"
| Acquired: "tracker_reach n t \<Longrightarrow> acquire a p t = Inr t' \<Longrightarrow> tracker_reach n t'"
| Released: "tracker_reach n t \<Longrightarrow> tracker_reach n (release a t)"

lemma length_update: "length (AList.update k v xs) \<le> Suc (length xs)"
  by (induction xs) auto

lemma length_delete: "map_of xs k \<noteq> None \<Longrightarrow> length (AList.delete k xs) < length xs"
  by (induction xs) (auto simp: less_Suc_eq_le length_delete_le)

text \<open>
  A run never has more agents than its limit, its own included, and every agent that is recorded as active has been counted.
\<close>

theorem head_count_bounded:
  assumes "tracker_reach n t"
  shows "1 \<le> st_total t \<and> st_total t \<le> max 1 n \<and> 1 + int (length (st_active t)) \<le> st_total t"
proof -
  have "st_max_agents t = n \<and> 1 \<le> st_total t \<and> st_total t \<le> max 1 n \<and> 1 + int (length (st_active t)) \<le> st_total t"
    using assms
  proof induction
    case (Acquired t a p t')
    then show ?case using length_update [of a p "st_active t"] by (auto simp: acquire_def split: if_splits)
  next
    case (Released t a)
    then show ?case using length_delete [of "st_active t" a] by (auto simp: release_def)
  qed (simp add: new_tracker_def)
  then show ?thesis by simp
qed

text \<open>An agent that is acquired twice is counted twice and released once.\<close>

theorem slot_lost:
  assumes "2 < n"
  shows "\<exists>t t'. acquire a p (new_tracker n) = Inr t \<and> acquire a p t = Inr t' \<and>
    st_total (release a (release a t')) = 2 \<and> st_active (release a (release a t')) = []"
  using assms by (simp add: acquire_def release_def new_tracker_def)

section \<open>The orchestrator's turn\<close>

lemma dispatch_calls: "map fst (dispatches bs) = map tu_call_id (tool_uses bs)"
  by (induction bs) (auto simp: dispatches_def tool_uses_def as_tool_use_def List.map_filter_simps split: content.splits)

text \<open>What an action that returns gives.\<close>

definition returns :: "('s, 'e, 'a) act \<Rightarrow> ('a \<Rightarrow> bool) \<Rightarrow> bool" where
  "returns m P \<longleftrightarrow> (\<forall>s a t. m s = (Inr a, t) \<longrightarrow> P a)"

lemma returns_ret: "P a \<Longrightarrow> returns (retA a) P"
  by (simp add: returns_def retA_def)

lemma returns_raise: "returns (raiseA e) P"
  by (simp add: returns_def raiseA_def)

lemma returns_seq: "returns m P \<Longrightarrow> (\<And>a. P a \<Longrightarrow> returns (f a) Q) \<Longrightarrow> returns (bindA m f) Q"
  by (fastforce simp: returns_def bindA_def split: sum.splits prod.splits)

lemma returns_bind: "(\<And>a. returns (f a) Q) \<Longrightarrow> returns (bindA m f) Q"
  by (rule returns_seq [of m "\<lambda>_. True"]) (simp_all add: returns_def)

lemma returns_lift: "(\<And>a. x = Inr a \<Longrightarrow> returns (f a) Q) \<Longrightarrow> returns (bindA (liftA x) f) Q"
  by (rule returns_seq [of _ "\<lambda>a. x = Inr a"]) (auto simp: returns_def liftA_def retA_def raiseA_def split: sum.splits)

lemma dispatch_answered: "dispatch_answer X cid name res = Inr b \<Longrightarrow> is_result b \<and> result_id b = cid"
  by (auto simp: dispatch_answer_def dispatch_result_def is_result_def result_id_def split: option.splits bool.splits if_splits)

lemma dispatched_one: "returns (dispatch_one A C sid d t) (\<lambda>(b, t'). is_result b \<and> result_id b = fst d)"
proof -
  obtain cid name args where d: "d = (cid, name, args)" by (cases d)
  show ?thesis
  proof (cases "find_sub_agent (oc_sub_agents A) name")
    case None
    then show ?thesis unfolding d dispatch_one_def prod.case option.case
      by (intro returns_bind) (simp, rule returns_ret, simp add: dispatch_result_def is_result_def result_id_def)
  next
    case (Some a)
    then show ?thesis unfolding d dispatch_one_def prod.case Some option.case Let_def
      by (intro returns_bind returns_lift returns_ret) (auto dest: dispatch_answered)
  qed
qed

lemma dispatched_all: "returns (dispatch_all A C sid ds t) (\<lambda>(bs, t'). list_all is_result bs \<and> map result_id bs = map fst ds)"
proof (induction ds arbitrary: t)
  case (Cons d ds)
  show ?case unfolding dispatch_all.simps
    by (rule returns_seq [OF dispatched_one], clarify, rule returns_seq [OF Cons.IH], clarify, rule returns_ret) simp
qed (simp add: returns_ret)

text \<open>
  An orchestrator that comes to an end has answered each call to delegate by one result, in the order of the calls, within the
  number of steps it is allowed; then it gives an answer without calls.
\<close>

lemma answered_round:
  assumes "dispatches bs \<noteq> []" and "list_all is_result results" and "map result_id results = map fst (dispatches bs)"
  shows "answered_by (turn ASSISTANT bs) (turn TOOL results)"
proof -
  have "calls_of (turn ASSISTANT bs) = map fst (dispatches bs)" by (simp add: calls_of_def turn_def dispatch_calls)
  then show ?thesis using assms by (simp add: answered_by_def turn_def)
qed

theorem orchestrated_rounds:
  "returns (orchestrate A C ticks classify sid n t ms)
     (\<lambda>out. \<exists>new. out = ms @ new \<and> length new < 2 * n \<and> rounds is_answer new)"
proof (induction n arbitrary: t ms)
  case 0
  show ?case by (simp add: returns_raise)
next
  case (Suc n)
  show ?case unfolding orchestrate.simps
  proof (rule returns_bind, rule returns_bind, goal_cases)
    case (1 u r)
    let ?a = "turn ASSISTANT (lr_content r)"
    show ?case
    proof (cases "dispatches (lr_content r) = []")
      case True
      then have "calls_of ?a = []" using dispatch_calls [of "lr_content r"] by (simp add: calls_of_def turn_def)
      then have "rounds is_answer [?a]" by (simp add: is_answer_def turn_def)
      then show ?thesis using True by (auto simp: Let_def intro!: returns_ret)
    next
      case False
      have "returns (orchestrate A C ticks classify sid n t' ((ms @ [?a]) @ [turn TOOL results]))
          (\<lambda>out. \<exists>new. out = ms @ new \<and> length new < 2 * Suc n \<and> rounds is_answer new)"
        if "list_all is_result results \<and> map result_id results = map fst (dispatches (lr_content r))" for results t'
      proof -
        have "answered_by ?a (turn TOOL results)" using answered_round [OF False] that by blast
        then have "\<exists>new. out = ms @ new \<and> length new < 2 * Suc n \<and> rounds is_answer new"
          if "out = ((ms @ [?a]) @ [turn TOOL results]) @ new \<and> length new < 2 * n \<and> rounds is_answer new" for out new
          using that by (intro exI [of _ "?a # turn TOOL results # new"]) simp
        then show ?thesis using Suc.IH [of t' "(ms @ [?a]) @ [turn TOOL results]"] unfolding returns_def by blast
      qed
      then show ?thesis using False
        by (simp add: Let_def) (rule returns_seq [OF dispatched_all], auto)
    qed
  qed
qed

section \<open>What is left behind\<close>

text \<open>
  A step of a flow is sent without metadata, so it works for no tenant and no user, in no conversation but its own, whatever the
  scope of the message that set the flow off.
\<close>

theorem flow_drops_scope:
  "returns (step_message C target t sender) (\<lambda>m.
     let sc = scope_from_metadata X (msg_metadata m) thread_id agent_id agent_label in
     sc_tenant_id sc = None \<and> sc_user_id sc = None \<and> sc_thread_id sc = thread_id \<and> sc_branch_id sc = ''main'' \<and> sc_mounts sc = [])"
  unfolding step_message_def new_message_def
  by (intro returns_bind returns_ret) (simp add: scope_from_metadata_def meta_text_def str_or_def mounts_of_def)

text \<open>
  The person is asked again each time the run is taken up: the question is logged before the wait, and what comes before a wait is
  done again.
\<close>

definition proxied :: "(exn + unit) \<times> journal \<times> (unit, nat) world" where
  "proxied = user_proxy demo_ctx (letter ''q'') (DataPayload (JStr ''why?'')) (demo_start, demo_running, (), 0)"

definition proxied_again :: "(exn + unit) \<times> journal \<times> (unit, nat) world" where
  "proxied_again = (let d = after (signalT ''r'' ''human_reply:q'' (JStr ''because'')) (fst (snd (snd proxied))) in
     user_proxy demo_ctx (letter ''q'') (DataPayload (JStr ''why?'')) (demo_journal d, d, (), 0))"

definition questions_in :: "(exn + unit) \<times> journal \<times> (unit, nat) world \<Rightarrow> nat" where
  "questions_in r = length (filter (\<lambda>e. ev_kind e = ''hitl.question'') (events (fst (snd (snd r)))))"

theorem question_asked_twice: "questions_in proxied = 1 \<and> fst proxied_again = Inr () \<and> questions_in proxied_again = 2"
  by (intro conjI; code_simp)

section \<open>Scopes\<close>

text \<open>
  Work that is handed on stays with whom it was done for: the metadata a scope is written into is read back as that scope, with
  the agent that handed it on as the parent.
\<close>

definition whole_scope :: "run_scope \<Rightarrow> bool" where
  "whole_scope s \<longleftrightarrow> sc_tenant_id s \<noteq> Some [] \<and> sc_user_id s \<noteq> Some [] \<and> sc_thread_id s \<noteq> [] \<and> sc_branch_id s \<noteq> [] \<and>
     sorted (sc_mounts s) \<and> (\<forall>(k, v)\<in>set (sc_mounts s). k \<noteq> [] \<and> v \<noteq> [])"

lemma truthy_simps [simp]: "truthy (JStr s) \<longleftrightarrow> s \<noteq> []" "truthy (JObj kvs) \<longleftrightarrow> kvs \<noteq> []" "\<not> truthy JNull"
  by (simp_all add: truthy_def)

lemma truthy_opt [simp]: "truthy (jopt_str x) \<longleftrightarrow> truthy_text x"
  by (cases x) (simp_all add: jopt_str_def truthy_text_def)

lemma plain_str_JStr [simp]: "plain_str X (JStr s) = s"
  by (simp add: plain_str_def as_text_def)

lemma map_of_filter_values: "distinct (map fst kvs) \<Longrightarrow>
    map_of (filter (\<lambda>(k, v). P v) kvs) k = (case map_of kvs k of None \<Rightarrow> None | Some v \<Rightarrow> if P v then Some v else None)"
  by (induction kvs) (auto split: option.splits dest: map_of_SomeD intro: rev_image_eqI)

lemma mounts_read:
  assumes "sorted kvs" and "\<forall>(k, v)\<in>set kvs. k \<noteq> [] \<and> v \<noteq> []"
  shows "mounts_of X (Some (JObj (map (\<lambda>(k, v). (k, JStr v)) kvs))) = kvs"
proof -
  let ?js = "map (\<lambda>(k, v). (k, JStr v)) kvs"
  have "filter (\<lambda>(k, v). k \<noteq> [] \<and> truthy v) ?js = ?js" using assms(2) by (auto simp: filter_id_conv)
  moreover have "map (\<lambda>(k, v). (k, plain_str X v)) ?js = kvs" by (simp add: split_beta' comp_def)
  ultimately show ?thesis using assms(1) by (simp add: mounts_of_def sorted_sort_id)
qed

lemma meta_text_opt: "jget k j = (if truthy_text x then Some (jopt_str x) else None) \<Longrightarrow> meta_text X j k = (if truthy_text x then x else None)"
  by (cases x) (auto simp: meta_text_def truthy_text_def jopt_str_def)

lemma meta_text_str: "jget k j = (if s = [] then None else Some (JStr s)) \<Longrightarrow> meta_text X j k = (if s = [] then None else Some s)"
  by (simp add: meta_text_def)

lemma child_fields:
  shows "jget ''tenant_id'' (child_metadata s) = (if truthy_text (sc_tenant_id s) then Some (jopt_str (sc_tenant_id s)) else None)"
    and "jget ''user_id'' (child_metadata s) = (if truthy_text (sc_user_id s) then Some (jopt_str (sc_user_id s)) else None)"
    and "jget ''thread_id'' (child_metadata s) = (if sc_thread_id s = [] then None else Some (JStr (sc_thread_id s)))"
    and "jget ''branch_id'' (child_metadata s) = (if sc_branch_id s = [] then None else Some (JStr (sc_branch_id s)))"
    and "jget ''workspace_id'' (child_metadata s) = (if sc_workspace_id s = [] then None else Some (JStr (sc_workspace_id s)))"
    and "jget ''workspace_mounts'' (child_metadata s) = (if sc_mounts s = [] then None else Some (JObj (map (\<lambda>(k, v). (k, JStr v)) (sc_mounts s))))"
    and "jget ''parent_agent_id'' (child_metadata s) = (if sc_agent_id s = [] then None else Some (JStr (sc_agent_id s)))"
  by (simp_all add: child_metadata_def map_of_filter_values)

text \<open>
  C38. Whoever a piece of work is for, and whichever conversation, branch and files it concerns: an agent that is handed it works in
  the scope of the agent that handed it on.
\<close>

theorem scope_inherited:
  assumes "whole_scope s"
  shows "scope_from_metadata X (child_metadata s) thread_id agent_id agent_label =
    s\<lparr>sc_agent_id := agent_id, sc_agent_label := agent_label, sc_parent_agent_id := (if sc_agent_id s = [] then None else Some (sc_agent_id s))\<rparr>"
proof -
  have mounts: "mounts_of X (jget ''workspace_mounts'' (child_metadata s)) = sc_mounts s"
    unfolding child_fields using mounts_read assms by (simp add: whole_scope_def) (simp add: mounts_of_def)
  show ?thesis
    unfolding scope_from_metadata_def mounts meta_text_opt [OF child_fields(1)] meta_text_opt [OF child_fields(2)]
      meta_text_str [OF child_fields(3)] meta_text_str [OF child_fields(4)] meta_text_str [OF child_fields(5)] meta_text_str [OF child_fields(7)]
    using assms by (cases s) (auto simp: truthy_text_def whole_scope_def str_or_def)
qed

definition demo_scope :: run_scope where
  "demo_scope = no_scope\<lparr>sc_tenant_id := Some ''t'', sc_thread_id := ''s'', sc_mounts := [(''docs'', ''w1''), (''src'', ''w2'')], sc_agent_id := ''helper/h''\<rparr>"

theorem scope_inherited_witness:
  "scope_from_metadata plain_codec (child_metadata demo_scope) ''x'' ''kid/k'' ''kid'' =
     demo_scope\<lparr>sc_agent_id := ''kid/k'', sc_agent_label := ''kid'', sc_parent_agent_id := Some ''helper/h''\<rparr>"
proof -
  have "whole_scope demo_scope" by code_simp
  from scope_inherited [OF this, of plain_codec "''x''" "''kid/k''" "''kid''"] show ?thesis by (simp add: demo_scope_def)
qed

end
