(* ===== verification/Log_Projection.thy ===== *)
theory Log_Projection
  imports Agent_Base
begin

text \<open>
  \<open>agents/log_projection.py\<close>: the runs of a thread read back as rows of a conversation, with what a guardrail flagged taken out, and
  the rows as messages for a model. Rows are dictionaries of JSON values.
\<close>

section \<open>From logs to rows\<close>

text \<open>The turn of the assistant that is being put together; whether a result was seen since it began.\<close>

record folding =
  fo_rows :: "json list"
  fo_flagged :: "int list"
  fo_current :: "(string \<times> json list) option"
  fo_saw_result :: bool

definition no_rows :: folding where
  "no_rows = \<lparr>fo_rows = [], fo_flagged = [], fo_current = None, fo_saw_result = False\<rparr>"

definition assistant_row :: "string \<times> json list \<Rightarrow> json" where
  "assistant_row c = JObj [(''type'', JStr ''assistant_message''), (''output'', JStr (fst c)),
     (''generation'', if snd c = [] then JObj [] else JObj [(''tool_calls'', JList (snd c))])]"

definition flush_row :: "folding \<Rightarrow> folding" where
  "flush_row f = f\<lparr>fo_rows := (case fo_current f of None \<Rightarrow> fo_rows f | Some c \<Rightarrow> fo_rows f @ [assistant_row c]),
     fo_current := None, fo_saw_result := False\<rparr>"

definition add_row :: "json \<Rightarrow> folding \<Rightarrow> folding" where
  "add_row r f = f\<lparr>fo_rows := fo_rows f @ [r]\<rparr>"

definition get_or :: "string \<Rightarrow> json \<Rightarrow> json \<Rightarrow> json" where
  "get_or k d p = (case jget k p of None \<Rightarrow> d | Some v \<Rightarrow> v)"

text \<open>\<open>payload.get(k) or d\<close>.\<close>

definition get_true :: "string \<Rightarrow> json \<Rightarrow> json \<Rightarrow> json" where
  "get_true k d p = (case jget k p of None \<Rightarrow> d | Some v \<Rightarrow> if truthy v then v else d)"

definition generation_begun :: "folding \<Rightarrow> folding" where
  "generation_begun f = (let g = (if fo_saw_result f then flush_row f else f) in
     case fo_current g of None \<Rightarrow> g\<lparr>fo_current := Some ([], [])\<rparr> | Some _ \<Rightarrow> g)"

definition grow_current :: "(string \<times> json list \<Rightarrow> string \<times> json list) \<Rightarrow> folding \<Rightarrow> folding" where
  "grow_current h f = f\<lparr>fo_current := map_option h (fo_current f)\<rparr>"

definition user_row :: "run_log_entry \<Rightarrow> json" where
  "user_row e = JObj [(''type'', JStr ''user_message''), (''input'', get_or ''text'' (JStr []) (le_payload e)),
     (''metadata'', JObj [(''seq'', JInt (le_seq e))])]"

definition result_row :: "json \<Rightarrow> json" where
  "result_row p = JObj [(''type'', JStr ''tool_result''), (''name'', get_or ''tool_name'' (JStr []) p), (''output'', get_or ''output'' (JStr []) p),
     (''is_error'', JBool (\<not> truthy (get_or ''ok'' (JBool True) p))), (''metadata'', JObj [(''tool_call_id'', get_or ''call_id'' (JStr []) p)])]"

definition call_row :: "json \<Rightarrow> json" where
  "call_row p = JObj [(''call_id'', get_or ''call_id'' (JStr []) p), (''tool_name'', get_or ''tool_name'' (JStr []) p),
     (''arguments'', get_true ''args'' (JObj []) p)]"

definition app_row :: "json \<Rightarrow> json" where
  "app_row p = JObj [(''type'', JStr ''mcp_app_context''), (''name'', get_or ''tool_name'' (JStr ''mcp_app'') p), (''output'', get_or ''context'' (JStr []) p)]"

definition project_entry :: "run_log_entry \<Rightarrow> folding \<Rightarrow> exn + folding" where
  "project_entry e f = (let p = le_payload e in
     if le_kind e = ''user.message'' then Inr (add_row (user_row e) (flush_row f))
     else if le_kind e = ''user.message.flagged'' then
       Inr (case jget ''seq'' p of Some (JInt n) \<Rightarrow> f\<lparr>fo_flagged := n # fo_flagged f\<rparr>
          | Some (JBool b) \<Rightarrow> f\<lparr>fo_flagged := (if b then 1 else 0) # fo_flagged f\<rparr> | _ \<Rightarrow> f)
     else if le_kind e = ''assistant.message'' then
       (case get_or ''text'' (JStr []) p of
          JStr t \<Rightarrow> Inr (grow_current (\<lambda>(out, calls). (out @ t, calls)) (generation_begun f))
        | _ \<Rightarrow> Inl (PyExn ''TypeError'' ''can only concatenate str''))
     else if le_kind e = ''tool.call'' then Inr (grow_current (\<lambda>(out, calls). (out, calls @ [call_row p])) (generation_begun f))
     else if le_kind e = ''tool.result'' then Inr ((add_row (result_row p) f)\<lparr>fo_saw_result := True\<rparr>)
     else if le_kind e = ''mcp_app_context'' then Inr (add_row (app_row p) (flush_row f))
     else Inr f)"

fun project_entries :: "run_log_entry list \<Rightarrow> folding \<Rightarrow> exn + folding" where
  "project_entries [] f = Inr f"
| "project_entries (e # es) f = (case project_entry e f of Inl x \<Rightarrow> Inl x | Inr g \<Rightarrow> project_entries es g)"

text \<open>The dash of the source is written as a hyphen.\<close>

definition redacted_text :: string where
  "redacted_text = ''[Message removed - flagged for policy violation]''"

definition redact_row :: "int list \<Rightarrow> json \<Rightarrow> json" where
  "redact_row seqs r = (case r of JObj kvs \<Rightarrow>
       if jget ''type'' r = Some (JStr ''user_message'') \<and> (case jget ''metadata'' r of Some m \<Rightarrow>
            (case jget ''seq'' m of Some (JInt n) \<Rightarrow> n \<in> set seqs | _ \<Rightarrow> False) | None \<Rightarrow> False)
       then JObj (AList.update ''input'' (JStr redacted_text) kvs) else r
     | _ \<Rightarrow> r)"

text \<open>The logs of several runs, one after another.\<close>

definition rows_of_logs :: "run_log_entry list list \<Rightarrow> exn + json list" where
  "rows_of_logs logs = (case project_entries (concat logs) no_rows of Inl e \<Rightarrow> Inl e
     | Inr f \<Rightarrow> Inr (map (redact_row (fo_flagged f)) (fo_rows (flush_row f))))"

definition step_rows_from_log :: "string \<Rightarrow> json list dbtx" where
  "step_rows_from_log thread =
     bindT (find_runs (Some thread) None None None False) (\<lambda>rs.
     bindT (mapT (\<lambda>r. read_events (rr_run_id r) 0 None True) rs) (\<lambda>logs. liftT (rows_of_logs logs)))"

section \<open>From rows to messages\<close>

definition text_block :: "codec \<Rightarrow> json \<Rightarrow> exn + content" where
  "text_block X v = (case as_text X v of Some t \<Rightarrow> Inr (TextBlock t) | None \<Rightarrow> Inl (invalid_value ''TextBlock''))"

definition first_true :: "string list \<Rightarrow> json \<Rightarrow> json \<Rightarrow> json" where
  "first_true ks d p = (case first_of (\<lambda>k. case jget k p of Some v \<Rightarrow> if truthy v then Some v else None | None \<Rightarrow> None) ks of Some v \<Rightarrow> v | None \<Rightarrow> d)"

definition call_block :: "codec \<Rightarrow> json \<Rightarrow> exn + content" where
  "call_block X c = (case (as_text X (first_true [''id'', ''call_id''] (JStr []) c), as_text X (first_true [''name'', ''tool_name''] (JStr []) c),
       as_object (get_true ''arguments'' (JObj []) c)) of
       (Some cid, Some name, Some args) \<Rightarrow> Inr (ToolUseBlock cid name args None (JObj []))
     | _ \<Rightarrow> Inl (invalid_value ''ToolUseBlock''))"

definition listed :: "json \<Rightarrow> json list" where
  "listed v = (case v of JList xs \<Rightarrow> xs | _ \<Rightarrow> [])"

definition assistant_blocks :: "codec \<Rightarrow> json \<Rightarrow> exn + content list" where
  "assistant_blocks X r = sequence_results
     ((case jget ''output'' r of Some v \<Rightarrow> if truthy v then [text_block X v] else [] | None \<Rightarrow> []) @
      map (call_block X) (listed (get_true ''tool_calls'' (JList []) (get_true ''generation'' (JObj []) r))))"

definition result_block :: "codec \<Rightarrow> json \<Rightarrow> exn + content" where
  "result_block X r = (case (as_text X (get_true ''tool_call_id'' (JStr []) (get_true ''metadata'' (JObj []) r)), as_text X (get_true ''name'' (JStr []) r),
       as_text X (get_true ''output'' (JStr []) r), as_bool (get_true ''is_error'' (JBool False) r)) of
       (Some cid, Some name, Some t, Some err) \<Rightarrow> Inr (ToolResultBlock cid name [TextBlock t] err)
     | _ \<Rightarrow> Inl (invalid_value ''ToolResultBlock''))"

definition app_text :: "codec \<Rightarrow> json \<Rightarrow> string" where
  "app_text X r = (let name = plain_str X (get_or ''name'' (JStr ''mcp_app'') r) in
     ''[MCP App Update - '' @ name @ ''] The user interacted with the '' @ name @ '' widget. Current state:'' @ newline @
     plain_str X (get_true ''output'' (JStr []) r))"

text \<open>The message a row stands for, if any.\<close>

definition message_of_row :: "codec \<Rightarrow> bool \<Rightarrow> json \<Rightarrow> exn + chat_message option" where
  "message_of_row X apps r = (case jget ''type'' r of
       None \<Rightarrow> Inl (PyExn ''KeyError'' ''type'')
     | Some (JStr k) \<Rightarrow>
         if k = ''user_message'' then map_sum id (\<lambda>b. Some (turn USER [b])) (text_block X (get_true ''input'' (JStr []) r))
         else if k = ''assistant_message'' then map_sum id (\<lambda>bs. Some (turn ASSISTANT bs)) (assistant_blocks X r)
         else if k = ''tool_result'' then map_sum id (\<lambda>b. Some (turn TOOL [b])) (result_block X r)
         else if k = ''mcp_app_context'' \<and> apps then Inr (Some (turn USER [TextBlock (app_text X r)]))
         else Inr None
     | Some _ \<Rightarrow> Inr None)"

definition rebuild_messages_from_steps :: "codec \<Rightarrow> json list \<Rightarrow> string \<Rightarrow> bool \<Rightarrow> exn + chat_message list" where
  "rebuild_messages_from_steps X rows system apps = (case sequence_results (map (message_of_row X apps) rows) of
       Inl e \<Rightarrow> Inl e
     | Inr ms \<Rightarrow> Inr ((if system = [] then [] else [turn SYSTEM [TextBlock system]]) @ List.map_filter id ms))"

end
