(* ===== verification/Projection_Claims.thy ===== *)
theory Projection_Claims
  imports Log_Projection Journal_Store
begin

text \<open>
  What the projection of a log promises: no text that was flagged is in it; and where it takes out more than was flagged, and puts
  a result before its call.
\<close>

definition row_seq :: "json \<Rightarrow> int option" where
  "row_seq r = (case Option.bind (jget ''metadata'' r) (jget ''seq'') of Some (JInt n) \<Rightarrow> Some n | _ \<Rightarrow> None)"

definition flags :: "int \<Rightarrow> run_log_entry \<Rightarrow> bool" where
  "flags n e \<longleftrightarrow> le_kind e = ''user.message.flagged'' \<and> jget ''seq'' (le_payload e) = Some (JInt n)"

lemma redact_row_input:
  assumes "jget ''type'' (redact_row seqs r) = Some (JStr ''user_message'')" and "row_seq (redact_row seqs r) = Some n" and "n \<in> set seqs"
  shows "jget ''input'' (redact_row seqs r) = Some (JStr redacted_text)"
proof (cases r)
  case (JObj kvs)
  show ?thesis
  proof (cases "redact_row seqs r = r")
    case True
    with assms have "jget ''type'' r = Some (JStr ''user_message'')" "row_seq r = Some n" by simp_all
    then have "redact_row seqs r = JObj (AList.update ''input'' (JStr redacted_text) kvs)"
      using assms(3) JObj by (auto simp: redact_row_def row_seq_def split: option.splits json.splits Option.bind_splits)
    then show ?thesis by (simp add: update_conv')
  next
    case False
    then have "redact_row seqs r = JObj (AList.update ''input'' (JStr redacted_text) kvs)"
      using JObj by (auto simp: redact_row_def)
    then show ?thesis by (simp add: update_conv')
  qed
qed (use assms in \<open>simp_all add: redact_row_def\<close>)

lemma flagged_kept: "project_entry e f = Inr g \<Longrightarrow> set (fo_flagged f) \<subseteq> set (fo_flagged g)"
  by (auto simp: project_entry_def Let_def add_row_def flush_row_def grow_current_def generation_begun_def
      split: if_splits option.splits json.splits)

lemma flagged_noted: "project_entry e f = Inr g \<Longrightarrow> flags n e \<Longrightarrow> n \<in> set (fo_flagged g)"
  by (auto simp: project_entry_def flags_def Let_def)

lemma flagged_found: "project_entries es f = Inr g \<Longrightarrow> (\<exists>e\<in>set es. flags n e) \<or> n \<in> set (fo_flagged f) \<Longrightarrow> n \<in> set (fo_flagged g)"
proof (induction es arbitrary: f)
  case (Cons e es)
  then obtain h where "project_entry e f = Inr h" "project_entries es h = Inr g" by (auto split: sum.splits)
  with Cons flagged_kept [of e f h] flagged_noted [of e f h n] show ?case by auto
qed simp

text \<open>
  C40. A user's message whose number was flagged is in the rows only with its text replaced.\<close>

theorem flagged_redacted:
  assumes "rows_of_logs logs = Inr rows" and "e \<in> set (concat logs)" and "flags n e" and "r \<in> set rows"
    and "jget ''type'' r = Some (JStr ''user_message'')" and "row_seq r = Some n"
  shows "jget ''input'' r = Some (JStr redacted_text)"
proof -
  from assms(1) obtain f where f: "project_entries (concat logs) no_rows = Inr f" "rows = map (redact_row (fo_flagged f)) (fo_rows (flush_row f))"
    by (auto simp: rows_of_logs_def split: sum.splits)
  have "n \<in> set (fo_flagged f)" using flagged_found [OF f(1)] assms(2,3) by blast
  with assms(4-6) f(2) redact_row_input show ?thesis by auto
qed

text \<open>Two runs of a thread: in the first a message was flagged, in the second all is well.\<close>

definition log_entry :: "string \<Rightarrow> int \<Rightarrow> string \<Rightarrow> (string \<times> json) list \<Rightarrow> run_log_entry" where
  "log_entry rid n kind p = \<lparr>le_run_id = rid, le_seq = n, le_kind = kind, le_v = 1, le_payload = JObj p, le_ts = 0\<rparr>"

definition two_runs :: "run_log_entry list list" where
  "two_runs = [[log_entry ''a'' 0 ''user.message'' [(''text'', JStr ''bad'')], log_entry ''a'' 1 ''user.message.flagged'' [(''seq'', JInt 0)]],
     [log_entry ''b'' 0 ''user.message'' [(''text'', JStr ''fine'')]]]"

theorem flagged_redacted_witness:
  "\<exists>rows. rows_of_logs two_runs = Inr rows \<and> (\<forall>r\<in>set rows. jget ''type'' r = Some (JStr ''user_message'') \<and> row_seq r = Some 0 \<longrightarrow>
     jget ''input'' r = Some (JStr redacted_text))"
proof -
  have "\<not> isl (rows_of_logs two_runs)" by code_simp
  then obtain rows where rows: "rows_of_logs two_runs = Inr rows" by (cases "rows_of_logs two_runs") auto
  have "log_entry ''a'' 1 ''user.message.flagged'' [(''seq'', JInt 0)] \<in> set (concat two_runs)" by (simp add: two_runs_def)
  moreover have "flags 0 (log_entry ''a'' 1 ''user.message.flagged'' [(''seq'', JInt 0)])" by (simp add: flags_def log_entry_def)
  ultimately show ?thesis using flagged_redacted [OF rows] rows by blast
qed

text \<open>Numbers count from zero in every run: the message of the second run is taken out with the one of the first.\<close>

theorem other_run_redacted:
  "map_sum id (map (jget ''input'')) (rows_of_logs two_runs) = Inr [Some (JStr redacted_text), Some (JStr redacted_text)]"
  by code_simp

text \<open>A turn with one call: the row of the result comes before the row of the call it answers.\<close>

definition turn_with_call :: "run_log_entry list" where
  "turn_with_call =
     [log_entry ''a'' 0 ''user.message'' [(''text'', JStr ''hi'')], log_entry ''a'' 1 ''assistant.message'' [(''text'', JStr ''looking'')],
      log_entry ''a'' 2 ''tool.call'' [(''call_id'', JStr ''c''), (''tool_name'', JStr ''look''), (''args'', JObj [])],
      log_entry ''a'' 3 ''tool.result'' [(''call_id'', JStr ''c''), (''tool_name'', JStr ''look''), (''ok'', JBool True), (''output'', JStr ''x'')],
      log_entry ''a'' 4 ''assistant.message'' [(''text'', JStr ''done'')]]"

theorem result_before_call:
  "map_sum id (map tm_role) (case rows_of_logs [turn_with_call] of Inl e \<Rightarrow> Inl e | Inr rows \<Rightarrow> rebuild_messages_from_steps plain_codec rows [] False) =
     Inr [USER, TOOL, ASSISTANT, ASSISTANT]"
  by code_simp

end
