(* ===== verification/File_Store.thy ===== *)
theory File_Store
  imports Generation
begin

text \<open>
  Files (\<open>stores/files.py\<close>, \<open>stores/file_tables.py\<close>, the fence of \<open>stores/scoped.py\<close>): a table of names beside a folder of contents.
  A write puts the contents on disk, then commits the row that names them, then removes the contents it replaced. Contents are bytes
  under a name of their own and the time the file system gave them; a hard link is a second name of the same contents and so has
  their time. Directories that become empty, the flushing to disk and the failures of the disk itself are left out; blobs, sizes and
  rows are as the code has them. A row is in the table in the order of \<open>seq\<close>.
\<close>

section \<open>State\<close>

record file_object =
  ob_key :: string
  ob_tenant :: "string option"
  ob_blob :: string
  ob_size :: int
  ob_content_type :: string
  ob_mtime :: seconds

record folder =
  fd_rows :: "file_object list"
  fd_blobs :: "(string \<times> string \<times> seconds) list"
  fd_quota :: "int option"
  fd_overrides :: "(string \<times> int) list"
  fd_draws :: nat

type_synonym 'a file_act = "(folder, exn, 'a) act"

definition empty_folder :: "int option \<Rightarrow> folder" where
  "empty_folder q = \<lparr>fd_rows = [], fd_blobs = [], fd_quota = q, fd_overrides = [], fd_draws = 0\<rparr>"

definition drawF :: "(nat \<Rightarrow> 'a) \<Rightarrow> 'a file_act" where
  "drawF f s = (Inr (f (fd_draws s)), fd_draws_update Suc s)"

text \<open>A transaction: when it raises, its changes of the table are undone; what it did to the disk is not.\<close>

definition rowsA :: "'a file_act \<Rightarrow> 'a file_act" where
  "rowsA m s = (case m s of (Inl e, t) \<Rightarrow> (Inl e, t\<lparr>fd_rows := fd_rows s\<rparr>) | (Inr a, t) \<Rightarrow> (Inr a, t))"

section \<open>Keys\<close>

definition path_error :: "string \<Rightarrow> exn" where
  "path_error key = PyExn ''WorkspacePathError'' (''Invalid workspace key: '' @ py_repr_str key)"

definition check_key :: "string \<Rightarrow> exn + string" where
  "check_key key = (if key = [] \<or> starts_with ''/'' key \<or> CHR 0x00 \<in> set key \<or> ''..'' \<in> set (split_on (CHR ''/'') key)
     then Inl (path_error key) else Inr key)"

definition key_tenant :: "string \<Rightarrow> string option" where
  "key_tenant key = (case split_on (CHR ''/'') key of
       a # b # _ \<Rightarrow> if a = ''tenants'' \<and> b \<noteq> [] then Some b else None
     | _ \<Rightarrow> None)"

text \<open>\<open>rstrip('/') or prefix\<close>, and the keys inside a directory.\<close>

definition stem_of :: "string \<Rightarrow> string" where
  "stem_of prefix = (let s = rev (dropWhile (\<lambda>c. c = CHR ''/'') (rev prefix)) in if s = [] then prefix else s)"

definition inside_dir :: "string \<Rightarrow> string \<Rightarrow> bool" where
  "inside_dir prefix key \<longleftrightarrow> starts_with (stem_of prefix @ ''/'') key"

section \<open>Quota\<close>

definition effective_quota :: "string \<Rightarrow> folder \<Rightarrow> int option" where
  "effective_quota tenant s = (case map_of (fd_overrides s) tenant of None \<Rightarrow> fd_quota s | Some q \<Rightarrow> Some q)"

definition set_quota_override :: "string \<Rightarrow> int option \<Rightarrow> unit file_act" where
  "set_quota_override tenant q = execA (fd_overrides_update (\<lambda>xs. case q of None \<Rightarrow> AList.delete tenant xs | Some n \<Rightarrow> AList.update tenant n xs))"

definition used_by :: "string \<Rightarrow> file_object list \<Rightarrow> int" where
  "used_by tenant rs = sum_list (map ob_size (filter (\<lambda>r. ob_tenant r = Some tenant) rs))"

definition usage_bytes :: "string \<Rightarrow> int file_act" where
  "usage_bytes tenant = queryA (\<lambda>s. used_by tenant (fd_rows s))"

definition quota_error :: "string \<Rightarrow> int \<Rightarrow> int \<Rightarrow> exn" where
  "quota_error tenant used quota = PyExn ''WorkspaceQuotaExceededError'' (''Storage quota exceeded for tenant '' @ py_repr_str tenant @ '': '' @
     show_int used @ '' bytes used, '' @ show_int quota @ '' byte quota'')"

definition enforce :: "string option \<Rightarrow> int \<Rightarrow> int \<Rightarrow> unit file_act" where
  "enforce tenant adding replacing = (case tenant of None \<Rightarrow> retA ()
     | Some t \<Rightarrow> bindA (queryA (effective_quota t)) (\<lambda>quota. case quota of None \<Rightarrow> retA ()
         | Some q \<Rightarrow> bindA (usage_bytes t) (\<lambda>used.
             if q < used - replacing + adding then raiseA (quota_error t used q) else retA ())))"

section \<open>Contents\<close>

definition blob_at :: "string \<Rightarrow> folder \<Rightarrow> (string \<times> seconds) option" where
  "blob_at b s = map_of (fd_blobs s) b"

definition put_blob :: "string \<Rightarrow> string \<times> seconds \<Rightarrow> folder \<Rightarrow> folder" where
  "put_blob b c = fd_blobs_update (AList.update b c)"

definition remove_blob :: "string \<Rightarrow> folder \<Rightarrow> folder" where
  "remove_blob b = fd_blobs_update (AList.delete b)"

fun remove_blobs :: "string list \<Rightarrow> unit file_act" where
  "remove_blobs [] = retA ()"
| "remove_blobs (b # bs) = thenA (execA (remove_blob b)) (remove_blobs bs)"

section \<open>Operations\<close>

definition row_at :: "string \<Rightarrow> folder \<Rightarrow> file_object option" where
  "row_at key s = List.find (\<lambda>r. ob_key r = key) (fd_rows s)"

text \<open>\<open>INSERT .. ON CONFLICT (key) DO UPDATE\<close>.\<close>

definition put_row :: "file_object \<Rightarrow> file_object list \<Rightarrow> file_object list" where
  "put_row r rs = (if exists_where (\<lambda>x. ob_key x = ob_key r) rs then update_where (\<lambda>x. ob_key x = ob_key r) (\<lambda>_. r) rs else rs @ [r])"

text \<open>The transaction of an upload: the name of the contents it replaces.\<close>

definition commit_upload :: "env \<Rightarrow> string \<Rightarrow> string \<Rightarrow> int \<Rightarrow> string \<Rightarrow> string option file_act" where
  "commit_upload E key blob n content_type = rowsA
     (bindA (queryA (row_at key)) (\<lambda>previous.
      thenA (enforce (key_tenant key) n (case previous of None \<Rightarrow> 0 | Some r \<Rightarrow> ob_size r))
     (bindA (drawF (env_clock E)) (\<lambda>now.
      thenA (execA (fd_rows_update (put_row \<lparr>ob_key = key, ob_tenant = key_tenant key, ob_blob = blob, ob_size = n,
        ob_content_type = content_type, ob_mtime = now\<rparr>)))
      (retA (map_option ob_blob previous))))))"

definition upload :: "env \<Rightarrow> string \<Rightarrow> string \<Rightarrow> string \<Rightarrow> unit file_act" where
  "upload E key data content_type = bindA (liftA (check_key key)) (\<lambda>_.
     bindA (drawF (env_uuid E)) (\<lambda>blob. bindA (drawF (env_clock E)) (\<lambda>written.
     thenA (execA (put_blob blob (data, written)))
     (bindA (catchA (commit_upload E key blob (int (length data)) content_type)
        (\<lambda>e. thenA (execA (remove_blob blob)) (raiseA e))) (\<lambda>replaced.
      case replaced of None \<Rightarrow> retA () | Some b \<Rightarrow> if b = [] then retA () else execA (remove_blob b))))))"

definition no_object :: "string \<Rightarrow> exn" where
  "no_object key = PyExn ''KeyError'' (''Object not found: '' @ key)"

definition read_blob :: "string \<Rightarrow> string \<Rightarrow> string file_act" where
  "read_blob key b = bindA (queryA (blob_at b)) (\<lambda>c. case c of Some (data, _) \<Rightarrow> retA data | None \<Rightarrow> raiseA (no_object key))"

definition download :: "string \<Rightarrow> string file_act" where
  "download key = bindA (liftA (check_key key)) (\<lambda>_. bindA (queryA (row_at key)) (\<lambda>row.
     case row of None \<Rightarrow> raiseA (no_object key) | Some r \<Rightarrow> read_blob key (ob_blob r)))"

definition file_exists :: "string \<Rightarrow> bool file_act" where
  "file_exists key = (case check_key key of Inl _ \<Rightarrow> retA False | Inr _ \<Rightarrow> queryA (\<lambda>s. row_at key s \<noteq> None))"

definition delete_file :: "string \<Rightarrow> unit file_act" where
  "delete_file key = bindA (liftA (check_key key)) (\<lambda>_. bindA (queryA (row_at key)) (\<lambda>row.
     case row of None \<Rightarrow> retA ()
     | Some r \<Rightarrow> thenA (execA (fd_rows_update (delete_where (\<lambda>x. ob_key x = key))))
         (if ob_blob r = [] then retA () else execA (remove_blob (ob_blob r)))))"

definition rows_under :: "string \<Rightarrow> file_object list \<Rightarrow> file_object list" where
  "rows_under prefix rs = sort_key ob_key (filter (\<lambda>r. inside_dir prefix (ob_key r)) rs)"

definition list_prefix :: "string \<Rightarrow> (string \<times> int \<times> seconds) list file_act" where
  "list_prefix prefix = (case check_key prefix of Inl _ \<Rightarrow> retA []
     | Inr _ \<Rightarrow> queryA (\<lambda>s. map (\<lambda>r. (ob_key r, ob_size r, ob_mtime r)) (rows_under prefix (fd_rows s))))"

definition in_directory :: "string \<Rightarrow> file_object \<Rightarrow> bool" where
  "in_directory prefix r \<longleftrightarrow> ob_key r = stem_of prefix \<or> inside_dir prefix (ob_key r)"

definition delete_prefix :: "string \<Rightarrow> nat file_act" where
  "delete_prefix prefix = bindA (liftA (check_key prefix)) (\<lambda>_.
     bindA (queryA (\<lambda>s. map ob_blob (filter (in_directory prefix) (fd_rows s)))) (\<lambda>blobs.
     thenA (execA (fd_rows_update (delete_where (in_directory prefix))))
    (thenA (remove_blobs blobs) (retA (length blobs)))))"

text \<open>
  \<open>os.link\<close>, or a copy where the file system has no hard links: the copy is new and has its own time. Contents that are missing make both
  fail.
\<close>

definition link_or_copy :: "env \<Rightarrow> bool \<Rightarrow> string \<Rightarrow> string \<Rightarrow> unit file_act" where
  "link_or_copy E links source dest = bindA (queryA (blob_at source)) (\<lambda>c. case c of
       None \<Rightarrow> raiseA (PyExn ''FileNotFoundError'' source)
     | Some (data, written) \<Rightarrow> if links then execA (put_blob dest (data, written))
         else bindA (drawF (env_clock E)) (\<lambda>now. execA (put_blob dest (data, now))))"

text \<open>The copies, one after another; what was linked so far is given even where one fails.\<close>

fun copy_rows :: "env \<Rightarrow> bool \<Rightarrow> (string \<times> file_object) list \<Rightarrow> string list \<Rightarrow> (folder, exn \<times> string list, unit) act" where
  "copy_rows E links [] linked = retA ()"
| "copy_rows E links ((target, r) # rest) linked = (\<lambda>s. case drawF (env_uuid E) s of (Inl e, t) \<Rightarrow> (Inl (e, linked), t)
     | (Inr blob, t) \<Rightarrow> (case link_or_copy E links (ob_blob r) blob t of (Inl e, u) \<Rightarrow> (Inl (e, linked), u)
       | (Inr _, u) \<Rightarrow> (case drawF (env_clock E) u of (Inl e, v) \<Rightarrow> (Inl (e, linked @ [blob]), v)
         | (Inr now, v) \<Rightarrow> copy_rows E links rest (linked @ [blob])
             (fd_rows_update (put_row \<lparr>ob_key = target, ob_tenant = key_tenant target, ob_blob = blob, ob_size = ob_size r,
               ob_content_type = ob_content_type r, ob_mtime = now\<rparr>) v))))"

definition copy_targets :: "string \<Rightarrow> string \<Rightarrow> folder \<Rightarrow> (string \<times> file_object) list" where
  "copy_targets source dest s = map (\<lambda>r. (stem_of dest @ drop (length (stem_of source)) (ob_key r), r)) (rows_under source (fd_rows s))"

definition replaced_bytes :: "(string \<times> file_object) list \<Rightarrow> folder \<Rightarrow> int" where
  "replaced_bytes copies s = sum_list (map (\<lambda>(target, _). case row_at target s of None \<Rightarrow> 0 | Some r \<Rightarrow> ob_size r) copies)"

definition copy_prefix :: "env \<Rightarrow> bool \<Rightarrow> string \<Rightarrow> string \<Rightarrow> nat file_act" where
  "copy_prefix E links source dest = bindA (liftA (check_key (stem_of source))) (\<lambda>_. bindA (liftA (check_key (stem_of dest))) (\<lambda>_.
     bindA (queryA (copy_targets source dest)) (\<lambda>copies.
     bindA (queryA (replaced_bytes copies)) (\<lambda>replacing.
     thenA (enforce (key_tenant (stem_of dest)) (sum_list (map (ob_size \<circ> snd) copies)) replacing)
       (\<lambda>s. case copy_rows E links copies [] s of
          (Inr _, t) \<Rightarrow> (Inr (length copies), t)
        | (Inl (e, linked), t) \<Rightarrow> thenA (remove_blobs linked) (raiseA e) (t\<lparr>fd_rows := fd_rows s\<rparr>))))))"

definition presign_url :: "string \<Rightarrow> string" where
  "presign_url key = ''workspace://'' @ key"

section \<open>Administration\<close>

definition list_all_tenants :: "string list file_act" where
  "list_all_tenants = queryA (\<lambda>s. sort (remdups (List.map_filter ob_tenant (fd_rows s))))"

text \<open>The user and the conversation a key is in.\<close>

definition conversation_of :: "string \<Rightarrow> (string \<times> string) option" where
  "conversation_of key = (let parts = split_on (CHR ''/'') key in
     if 6 < length parts \<and> parts ! 2 = ''users'' \<and> parts ! 4 = ''conversations'' then Some (parts ! 3, parts ! 5) else None)"

definition list_conversations :: "string \<Rightarrow> (string \<times> int \<times> nat) list file_act" where
  "list_conversations tenant = queryA (\<lambda>s. let rs = filter (\<lambda>r. ob_tenant r = Some tenant) (fd_rows s) in
     map (\<lambda>c. let own = filter (\<lambda>r. conversation_of (ob_key r) = Some c) rs in (snd c, sum_list (map ob_size own), length own))
       (sort (remdups (List.map_filter (conversation_of \<circ> ob_key) rs))))"

text \<open>The names the table has when the collection begins, and the sweep, which looks at the disk later.\<close>

definition referenced :: "string list file_act" where
  "referenced = queryA (\<lambda>s. map ob_blob (fd_rows s))"

definition sweepable :: "string list \<Rightarrow> seconds \<Rightarrow> string \<times> string \<times> seconds \<Rightarrow> bool" where
  "sweepable kept_blobs cutoff c \<longleftrightarrow> fst c \<notin> set kept_blobs \<and> snd (snd c) < cutoff"

definition sweep_blobs :: "string list \<Rightarrow> seconds \<Rightarrow> nat file_act" where
  "sweep_blobs kept_blobs cutoff = bindA (queryA (\<lambda>s. filter (sweepable kept_blobs cutoff) (fd_blobs s))) (\<lambda>old.
     thenA (execA (fd_blobs_update (filter (\<lambda>c. \<not> sweepable kept_blobs cutoff c)))) (retA (length old)))"

definition collect_garbage :: "env \<Rightarrow> seconds \<Rightarrow> nat file_act" where
  "collect_garbage E min_age = bindA referenced (\<lambda>kept_blobs. bindA (drawF (env_clock E)) (\<lambda>now. sweep_blobs kept_blobs (now - min_age)))"

section \<open>The fence of a tenant\<close>

definition fence_root :: "string \<Rightarrow> string" where
  "fence_root tenant = ''tenants/'' @ tenant @ ''/''"

definition may_fence :: "string \<Rightarrow> exn + unit" where
  "may_fence tenant = (if CHR ''/'' \<in> set tenant \<or> CHR 0x5C \<in> set tenant
     then Inl (PyExn ''ValueError'' ''a tenant id with a path separator cannot be fenced'') else Inr ())"

definition inside_fence :: "string \<Rightarrow> bool \<Rightarrow> string \<Rightarrow> exn + string" where
  "inside_fence tenant prefix key = (if \<not> starts_with (fence_root tenant) key \<or> CHR 0x5C \<in> set key \<or> CHR 0x00 \<in> set key \<or>
       ''..'' \<in> set (split_on (CHR ''/'') key) \<or> ''.'' \<in> set (split_on (CHR ''/'') key) \<or> (\<not> prefix \<and> key \<noteq> [] \<and> last key = CHR ''/'')
     then Inl (PyExn ''ValueError'' (''key '' @ py_repr_str key @ '' is outside tenant '' @ py_repr_str tenant)) else Inr key)"

definition fenced_upload :: "env \<Rightarrow> string \<Rightarrow> string \<Rightarrow> string \<Rightarrow> string \<Rightarrow> unit file_act" where
  "fenced_upload E tenant key data content_type = bindA (liftA (inside_fence tenant False key)) (\<lambda>k. upload E k data content_type)"

definition fenced_download :: "string \<Rightarrow> string \<Rightarrow> string file_act" where
  "fenced_download tenant key = bindA (liftA (inside_fence tenant False key)) download"

definition fenced_exists :: "string \<Rightarrow> string \<Rightarrow> bool file_act" where
  "fenced_exists tenant key = bindA (liftA (inside_fence tenant False key)) file_exists"

definition fenced_delete :: "string \<Rightarrow> string \<Rightarrow> unit file_act" where
  "fenced_delete tenant key = bindA (liftA (inside_fence tenant False key)) delete_file"

definition fenced_list_prefix :: "string \<Rightarrow> string \<Rightarrow> (string \<times> int \<times> seconds) list file_act" where
  "fenced_list_prefix tenant prefix = bindA (liftA (inside_fence tenant True prefix)) list_prefix"

definition fenced_delete_prefix :: "string \<Rightarrow> string \<Rightarrow> nat file_act" where
  "fenced_delete_prefix tenant prefix = bindA (liftA (inside_fence tenant True prefix)) delete_prefix"

definition fenced_copy_prefix :: "env \<Rightarrow> bool \<Rightarrow> string \<Rightarrow> string \<Rightarrow> string \<Rightarrow> nat file_act" where
  "fenced_copy_prefix E links tenant source dest = bindA (liftA (inside_fence tenant True source)) (\<lambda>a.
     bindA (liftA (inside_fence tenant True dest)) (\<lambda>b. copy_prefix E links a b))"

definition fenced_presign_url :: "string \<Rightarrow> string \<Rightarrow> exn + string" where
  "fenced_presign_url tenant key = map_sum id presign_url (inside_fence tenant False key)"

definition fenced_usage_bytes :: "string \<Rightarrow> string option \<Rightarrow> int file_act" where
  "fenced_usage_bytes tenant wanted = (case wanted of
       Some t \<Rightarrow> if t \<noteq> tenant then raiseA (PyExn ''ValueError'' (''a fenced store reports only its own tenant'' @ [CHR 0x27] @ ''s usage'')) else usage_bytes tenant
     | None \<Rightarrow> usage_bytes tenant)"

definition fenced_erase :: "string \<Rightarrow> nat file_act" where
  "fenced_erase tenant = delete_prefix (fence_root tenant)"

end
