(* ===== verification/File_Claims.thy ===== *)
theory File_Claims
  imports File_Store "HOL-Library.Multiset"
begin

text \<open>
  Writers and readers of a folder at the same time: each operation is a number of steps, others' steps may come between them, and a
  process may die after any of them. Every row names contents that are on the disk, whole, as long as nothing is copied while
  garbage is collected; what happens then is at the end of \<open>File_Fence\<close>.
\<close>

section \<open>Tasks\<close>

text \<open>What an operation that has begun has still to do.\<close>

datatype file_task =
    Uploading string string int string
  | Cleaning "string list"
  | Sweeping "string list" seconds

type_synonym files = "folder \<times> file_task list"

fun held :: "file_task \<Rightarrow> string list" where
  "held (Uploading key b n c) = [b]"
| "held (Cleaning bs) = bs"
| "held (Sweeping ks c) = []"

definition sweeps :: "file_task list \<Rightarrow> bool" where
  "sweeps ts \<longleftrightarrow> (\<exists>ks c. Sweeping ks c \<in> set ts)"

definition to_clean :: "string option \<Rightarrow> string list" where
  "to_clean x = (case x of None \<Rightarrow> [] | Some b \<Rightarrow> if b = [] then [] else [b])"

definition written_at :: "folder \<Rightarrow> string \<Rightarrow> seconds" where
  "written_at s b = (case blob_at b s of None \<Rightarrow> 0 | Some c \<Rightarrow> snd c)"

text \<open>
  One step. What the collection relies on is in its steps: contents that wait for their row are not older than \<open>min_age\<close> when it
  begins, the clock does not go back by that much, and nothing is copied until it is done.
\<close>

inductive file_step :: "env \<Rightarrow> bool \<Rightarrow> files \<Rightarrow> files \<Rightarrow> bool" for E links where
  Write: "check_key key = Inr k \<Longrightarrow> drawF (env_uuid E) s = (Inr b, s1) \<Longrightarrow> drawF (env_clock E) s1 = (Inr w, s2) \<Longrightarrow>
    (\<And>ks c. Sweeping ks c \<in> set ts \<Longrightarrow> c \<le> w) \<Longrightarrow>
    file_step E links (s, ts) (put_blob b (data, w) s2, Uploading key b (int (length data)) ct # ts)"
| Commit: "commit_upload E key b n ct s = (Inr old, s') \<Longrightarrow>
    file_step E links (s, ts @ Uploading key b n ct # us) (s', ts @ Cleaning (to_clean old) # us)"
| Refuse: "commit_upload E key b n ct s = (Inl e, s') \<Longrightarrow>
    file_step E links (s, ts @ Uploading key b n ct # us) (s', ts @ Cleaning [b] # us)"
| Clean: "file_step E links (s, ts @ Cleaning (b # bs) # us) (remove_blob b s, ts @ Cleaning bs # us)"
| Finish: "file_step E links (s, ts @ t # us) (s, ts @ us)"
| Delete: "file_step E links (s, ts) (fd_rows_update (delete_where P) s,
      Cleaning (filter named_blob (map ob_blob (filter P (fd_rows s)))) # ts)"
| Copy: "\<not> sweeps ts \<Longrightarrow> copy_rows E links (copy_targets source dest s) [] s = (Inr (), s') \<Longrightarrow> file_step E links (s, ts) (s', ts)"
| Copy_undone: "copy_rows E links (copy_targets source dest s) [] s = (Inl (e, bs), s') \<Longrightarrow>
    file_step E links (s, ts) (s'\<lparr>fd_rows := fd_rows s\<rparr>, Cleaning bs # ts)"
| Begin_sweep: "(\<And>key b n ct. Uploading key b n ct \<in> set ts \<Longrightarrow> c \<le> written_at s b) \<Longrightarrow>
    file_step E links (s, ts) (s, Sweeping (map ob_blob (fd_rows s)) c # ts)"
| Sweep: "sweep_blobs ks c s = (Inr n, s') \<Longrightarrow> file_step E links (s, ts @ Sweeping ks c # us) (s', ts @ us)"
| Draw: "file_step E links (s, ts) (fd_draws_update Suc s, ts)"
| Set_quota: "file_step E links (s, ts) (s\<lparr>fd_overrides := os\<rparr>, ts)"

inductive files_reach :: "env \<Rightarrow> bool \<Rightarrow> int option \<Rightarrow> files \<Rightarrow> bool" for E links q where
  Start: "files_reach E links q (empty_folder q, [])"
| Step: "files_reach E links q x \<Longrightarrow> file_step E links x y \<Longrightarrow> files_reach E links q y"

section \<open>The invariant\<close>

definition uploads :: "file_task list \<Rightarrow> (string \<times> int) list" where
  "uploads ts = concat (map (\<lambda>t. case t of Uploading key b n ct \<Rightarrow> [(b, n)] | _ \<Rightarrow> []) ts)"

definition all_held :: "file_task list \<Rightarrow> string list" where
  "all_held ts = concat (map held ts)"

text \<open>Contents under a name are whole.\<close>

definition whole :: "folder \<Rightarrow> string \<times> int \<Rightarrow> bool" where
  "whole s p \<longleftrightarrow> (\<exists>data w. blob_at (fst p) s = Some (data, w) \<and> snd p = int (length data))"

definition named :: "file_object list \<Rightarrow> (string \<times> int) list" where
  "named rs = map (\<lambda>r. (ob_blob r, ob_size r)) rs"

text \<open>The names of contents: those in use, each for one purpose, and all drawn.\<close>

definition in_use :: "files \<Rightarrow> string multiset" where
  "in_use x = mset (map ob_blob (fd_rows (fst x))) + mset (all_held (snd x))"

definition drawn :: "env \<Rightarrow> nat \<Rightarrow> string \<Rightarrow> bool" where
  "drawn E n b \<longleftrightarrow> (\<exists>i<n. b = env_uuid E i)"

definition rows_ok :: "file_object list \<Rightarrow> bool" where
  "rows_ok rs \<longleftrightarrow> distinct (map ob_key rs) \<and> (\<forall>r\<in>set rs. ob_tenant r = key_tenant (ob_key r))"

definition names_ok :: "env \<Rightarrow> files \<Rightarrow> bool" where
  "names_ok E x \<longleftrightarrow> (\<forall>b. count (in_use x) b \<le> 1) \<and> (\<forall>b. b \<in># in_use x \<longrightarrow> drawn E (fd_draws (fst x)) b) \<and>
     (\<forall>b\<in>fst ` set (fd_blobs (fst x)). drawn E (fd_draws (fst x)) b)"

definition spared :: "folder \<Rightarrow> file_task list \<Rightarrow> bool" where
  "spared s ts \<longleftrightarrow> (\<forall>ks c. Sweeping ks c \<in> set ts \<longrightarrow>
     (\<forall>b\<in>fst ` set (named (fd_rows s) @ uploads ts). b \<in> set ks \<or> c \<le> written_at s b))"

definition files_ok :: "env \<Rightarrow> files \<Rightarrow> bool" where
  "files_ok E x \<longleftrightarrow> rows_ok (fd_rows (fst x)) \<and> names_ok E x \<and>
     (\<forall>p\<in>set (named (fd_rows (fst x)) @ uploads (snd x)). whole (fst x) p) \<and> spared (fst x) (snd x)"

section \<open>Rows\<close>

lemma row_at_Some: "row_at key s = Some r \<Longrightarrow> r \<in> set (fd_rows s) \<and> ob_key r = key"
  by (auto simp: row_at_def dest: find_SomeD)

lemma put_row_new: "ob_key r \<notin> ob_key ` set rs \<Longrightarrow> put_row r rs = rs @ [r]"
  by (simp add: put_row_def) (metis imageI)

lemma put_row_old:
  assumes "distinct (map ob_key rs)" and "x \<in> set rs" and "ob_key x = ob_key r"
  shows "\<exists>us vs. rs = us @ x # vs \<and> put_row r rs = us @ r # vs"
proof -
  obtain us vs where rs: "rs = us @ x # vs" using assms(2) by (auto dest: split_list)
  have same: "map (\<lambda>y. if ob_key y = ob_key r then r else y) zs = zs" if "ob_key r \<notin> ob_key ` set zs" for zs
    using that by (induction zs) auto
  have "ob_key r \<notin> ob_key ` set us" "ob_key r \<notin> ob_key ` set vs" using assms(1,3) rs by auto
  then have "put_row r rs = us @ r # vs" using rs assms(3) same by (simp add: put_row_def update_where_def)
  then show ?thesis using rs by blast
qed

lemma row_at_find: "distinct (map ob_key (fd_rows s)) \<Longrightarrow> r \<in> set (fd_rows s) \<Longrightarrow> row_at (ob_key r) s = Some r"
proof -
  have "distinct (map ob_key rs) \<Longrightarrow> r \<in> set rs \<Longrightarrow> List.find (\<lambda>x. ob_key x = ob_key r) rs = Some r" for rs
    by (induction rs) (auto dest: inj_onD)
  then show "distinct (map ob_key (fd_rows s)) \<Longrightarrow> r \<in> set (fd_rows s) \<Longrightarrow> row_at (ob_key r) s = Some r" by (simp add: row_at_def)
qed

text \<open>The row that goes in and the one, if any, that goes out.\<close>

lemma put_row_cases:
  assumes "distinct (map ob_key (fd_rows s))"
  obtains "row_at (ob_key r) s = None" "put_row r (fd_rows s) = fd_rows s @ [r]"
  | x us vs where "row_at (ob_key r) s = Some x" "ob_key x = ob_key r" "fd_rows s = us @ x # vs" "put_row r (fd_rows s) = us @ r # vs"
proof (cases "row_at (ob_key r) s")
  case None
  then have "ob_key r \<notin> ob_key ` set (fd_rows s)" by (auto simp: row_at_def find_None_iff)
  then show ?thesis using that(1) None by (simp add: put_row_new)
next
  case (Some x)
  then have "x \<in> set (fd_rows s)" "ob_key x = ob_key r" by (auto dest: row_at_Some)
  from put_row_old [OF assms this] obtain us vs where "fd_rows s = us @ x # vs" "put_row r (fd_rows s) = us @ r # vs" by blast
  then show ?thesis using that(2) Some \<open>ob_key x = ob_key r\<close> by blast
qed

lemma put_row_ok: "rows_ok (fd_rows (s :: folder)) \<Longrightarrow> ob_tenant r = key_tenant (ob_key r) \<Longrightarrow> rows_ok (put_row r (fd_rows s))"
proof -
  assume ok: "rows_ok (fd_rows s)" "ob_tenant r = key_tenant (ob_key r)"
  then have "distinct (map ob_key (fd_rows s))" by (simp add: rows_ok_def)
  from this show ?thesis
  proof (rule put_row_cases [where r = r], goal_cases)
    case 1
    then have "ob_key r \<notin> ob_key ` set (fd_rows s)" by (auto simp: row_at_def find_None_iff)
    then show ?thesis using ok 1 by (auto simp: rows_ok_def)
  next
    case (2 x us vs)
    then show ?thesis using ok by (auto simp: rows_ok_def)
  qed
qed

section \<open>Contents\<close>

lemma row_at_put [simp]: "row_at k (fd_rows_update (put_row r) s) = (if k = ob_key r then Some r else row_at k s)"
proof -
  have upd: "List.find (\<lambda>x. ob_key x = k) (map (\<lambda>x. if ob_key x = ob_key r then r else x) rs) =
      (if k = ob_key r then if \<exists>x\<in>set rs. ob_key x = k then Some r else None else List.find (\<lambda>x. ob_key x = k) rs)" for rs
    by (induction rs) auto
  have new: "List.find (\<lambda>x. ob_key x = k) (rs @ [r]) = (if k = ob_key r then Some r else List.find (\<lambda>x. ob_key x = k) rs)"
    if "ob_key r \<notin> ob_key ` set rs" for rs
    using that by (induction rs) auto
  show ?thesis
  proof (cases "ob_key r \<in> ob_key ` set (fd_rows s)")
    case True
    then have "exists_where (\<lambda>x. ob_key x = ob_key r) (fd_rows s)" by force
    then have "put_row r (fd_rows s) = map (\<lambda>x. if ob_key x = ob_key r then r else x) (fd_rows s)" by (simp add: put_row_def update_where_def)
    moreover have "\<exists>x\<in>set (fd_rows s). ob_key x = ob_key r" using True by force
    ultimately show ?thesis by (auto simp: row_at_def upd)
  qed (simp add: row_at_def put_row_new new)
qed

lemma row_at_blobs [simp]: "row_at k (put_blob b c s) = row_at k s" "row_at k (remove_blob b s) = row_at k s"
  "row_at k (fd_draws_update f s) = row_at k s" "row_at k (fd_blobs_update g s) = row_at k s"
  by (simp_all add: row_at_def put_blob_def remove_blob_def)

lemma blob_at_put [simp]: "blob_at b (put_blob b' c s) = (if b = b' then Some c else blob_at b s)"
  by (simp add: blob_at_def put_blob_def update_conv')

lemma blob_at_remove [simp]: "blob_at b (remove_blob b' s) = (if b = b' then None else blob_at b s)"
  by (auto simp: blob_at_def remove_blob_def map_of_delete delete_conv')

lemma blob_fields [simp]:
  "fd_rows (put_blob b c s) = fd_rows s" "fd_draws (put_blob b c s) = fd_draws s" "fd_quota (put_blob b c s) = fd_quota s"
  "fd_overrides (put_blob b c s) = fd_overrides s"
  "fd_rows (remove_blob b s) = fd_rows s" "fd_draws (remove_blob b s) = fd_draws s" "fd_quota (remove_blob b s) = fd_quota s"
  "fd_overrides (remove_blob b s) = fd_overrides s"
  by (simp_all add: put_blob_def remove_blob_def)

lemma blob_at_same [simp]: "blob_at b (fd_rows_update f s) = blob_at b s" "blob_at b (fd_draws_update g s) = blob_at b s"
  "blob_at b (fd_overrides_update h s) = blob_at b s"
  by (simp_all add: blob_at_def)

lemma names_put: "fst ` set (fd_blobs (put_blob b c s)) = insert b (fst ` set (fd_blobs s))"
  by (simp add: put_blob_def dom_update)

lemma names_remove: "fst ` set (fd_blobs (remove_blob b s)) \<subseteq> fst ` set (fd_blobs s)"
  by (simp add: remove_blob_def dom_delete_subset)

lemma blob_at_named: "blob_at b s = Some c \<Longrightarrow> b \<in> fst ` set (fd_blobs s)"
  by (auto simp: blob_at_def dest!: map_of_SomeD intro!: image_eqI)

lemma whole_put: "whole s p \<Longrightarrow> fst p \<noteq> b \<Longrightarrow> whole (put_blob b c s) p"
  by (simp add: whole_def)

lemma whole_remove: "whole s p \<Longrightarrow> fst p \<noteq> b \<Longrightarrow> whole (remove_blob b s) p"
  by (simp add: whole_def)

lemma whole_same [simp]: "whole (fd_rows_update f s) p = whole s p" "whole (fd_draws_update g s) p = whole s p"
  "whole (fd_overrides_update h s) p = whole s p"
  by (simp_all add: whole_def)

lemma written_same [simp]: "written_at (fd_rows_update f s) b = written_at s b" "written_at (fd_draws_update g s) b = written_at s b"
  "written_at (fd_overrides_update h s) b = written_at s b"
  by (simp_all add: written_at_def)

lemma draw_run: "drawF f s = (Inr a, t) \<longleftrightarrow> a = f (fd_draws s) \<and> t = fd_draws_update Suc s"
  by (auto simp: drawF_def)

lemma drawn_mono: "drawn E m b \<Longrightarrow> m \<le> n \<Longrightarrow> drawn E n b"
  unfolding drawn_def by (blast intro: less_le_trans)

lemma drawn_fresh: "inj (env_uuid E) \<Longrightarrow> \<not> drawn E n (env_uuid E n)"
  by (auto simp: drawn_def inj_def)

lemma task_lists [simp]:
  "all_held [] = []" "all_held (t # ts) = held t @ all_held ts" "all_held (ts @ us) = all_held ts @ all_held us"
  "uploads [] = []" "uploads (ts @ us) = uploads ts @ uploads us" "uploads (Cleaning bs # ts) = uploads ts"
  "uploads (Sweeping ks c # ts) = uploads ts" "uploads (Uploading key b n ct # ts) = (b, n) # uploads ts"
  by (simp_all add: all_held_def uploads_def)

section \<open>Every step keeps the invariant\<close>

lemma in_use_mem: "fst ` set (named (fd_rows s) @ uploads ts) \<subseteq> set_mset (in_use (s, ts))"
proof -
  have "fst ` set (uploads ts) \<subseteq> set (all_held ts)"
  proof (induction ts)
    case (Cons t ts)
    then show ?case by (cases t) auto
  qed simp
  then show ?thesis by (auto simp: in_use_def named_def)
qed

lemma named_drawn: "files_ok E (s, ts) \<Longrightarrow> b \<in> fst ` set (named (fd_rows s) @ uploads ts) \<Longrightarrow> drawn E (fd_draws s) b"
  using in_use_mem [of s ts] by (auto simp: files_ok_def names_ok_def)

lemma files_ok_empty: "files_ok E (empty_folder q, [])"
  by (simp add: files_ok_def empty_folder_def rows_ok_def names_ok_def in_use_def named_def spared_def)

text \<open>Steps that leave the contents alone and hold nothing new.\<close>

lemma files_ok_shrink:
  assumes ok: "files_ok E (s, ts)" and blobs: "fd_blobs s' = fd_blobs s" and draws: "fd_draws s \<le> fd_draws s'"
    and use: "in_use (s', us) \<subseteq># in_use (s, ts)" and rows: "rows_ok (fd_rows s')"
    and names: "set (named (fd_rows s') @ uploads us) \<subseteq> set (named (fd_rows s) @ uploads ts)"
    and sweeps: "\<And>ks c. Sweeping ks c \<in> set us \<Longrightarrow> Sweeping ks c \<in> set ts"
  shows "files_ok E (s', us)"
proof -
  have same: "blob_at b s' = blob_at b s" "written_at s' b = written_at s b" "whole s' p = whole s p" for b p
    using blobs by (simp_all add: blob_at_def written_at_def whole_def)
  have "count (in_use (s', us)) b \<le> 1" for b
    using ok mset_subset_eq_count [OF use, of b] by (auto simp: files_ok_def names_ok_def intro: order_trans)
  moreover have "drawn E (fd_draws s') b" if "b \<in># in_use (s', us)" for b
    using ok mset_subset_eqD [OF use that] drawn_mono [OF _ draws] by (auto simp: files_ok_def names_ok_def)
  moreover have "drawn E (fd_draws s') b" if "b \<in> fst ` set (fd_blobs s')" for b
    using ok that drawn_mono [OF _ draws] by (auto simp: files_ok_def names_ok_def blobs)
  ultimately have "names_ok E (s', us)" by (simp add: names_ok_def)
  moreover have "spared s' us" using ok names sweeps unfolding files_ok_def spared_def same fst_conv snd_conv by blast
  moreover have "\<forall>p\<in>set (named (fd_rows s') @ uploads us). whole s' p" using ok names unfolding files_ok_def same fst_conv snd_conv by blast
  ultimately show ?thesis using rows by (simp add: files_ok_def)
qed

lemma enforce_same: "enforce t n m s = (x, s') \<Longrightarrow> s' = s"
  by (auto simp: enforce_def usage_bytes_def act_simps split: option.splits if_splits)

definition uploaded :: "env \<Rightarrow> string \<Rightarrow> string \<Rightarrow> int \<Rightarrow> string \<Rightarrow> folder \<Rightarrow> file_object" where
  "uploaded E key blob n ct s = \<lparr>ob_key = key, ob_tenant = key_tenant key, ob_blob = blob, ob_size = n, ob_content_type = ct, ob_mtime = env_clock E (fd_draws s)\<rparr>"

lemma commit_run:
  "commit_upload E key b n ct s = (case enforce (key_tenant key) n (case row_at key s of None \<Rightarrow> 0 | Some r \<Rightarrow> ob_size r) s of
     (Inl e, _) \<Rightarrow> (Inl e, s)
   | (Inr _, _) \<Rightarrow> (Inr (map_option ob_blob (row_at key s)),
       fd_rows_update (put_row (uploaded E key b n ct s)) (fd_draws_update Suc s)))"
  using enforce_same [of "key_tenant key" n "case row_at key s of None \<Rightarrow> 0 | Some r \<Rightarrow> ob_size r" s]
  by (cases "enforce (key_tenant key) n (case row_at key s of None \<Rightarrow> 0 | Some r \<Rightarrow> ob_size r) s")
    (auto simp: commit_upload_def rowsA_def act_simps drawF_def uploaded_def split: sum.splits)

lemma commit_refused: "commit_upload E key b n ct s = (Inl e, s') \<Longrightarrow> s' = s"
  by (auto simp: commit_run split: prod.splits sum.splits)

lemma commit_done: "commit_upload E key b n ct s = (Inr old, s') \<Longrightarrow> old = map_option ob_blob (row_at key s) \<and>
    s' = fd_rows_update (put_row (uploaded E key b n ct s)) (fd_draws_update Suc s)"
  by (auto simp: commit_run split: prod.splits sum.splits)

lemma uploaded_fields [simp]: "ob_key (uploaded E key b n ct s) = key" "ob_blob (uploaded E key b n ct s) = b"
  "ob_size (uploaded E key b n ct s) = n" "ob_tenant (uploaded E key b n ct s) = key_tenant key"
  by (simp_all add: uploaded_def)

text \<open>What a row that goes in does to the names.\<close>

lemma put_row_names:
  assumes "distinct (map ob_key (fd_rows (s :: folder)))"
  shows "mset (map ob_blob (put_row r (fd_rows s))) + mset (to_clean (map_option ob_blob (row_at (ob_key r) s))) \<subseteq># add_mset (ob_blob r) (mset (map ob_blob (fd_rows s)))"
    and "set (named (put_row r (fd_rows s))) \<subseteq> insert (ob_blob r, ob_size r) (set (named (fd_rows s)))"
  using assms
proof (atomize (full), rule_tac put_row_cases [OF assms, of r], goal_cases)
  case (2 x us vs)
  then show ?case by (auto simp: to_clean_def named_def)
qed (auto simp: to_clean_def named_def)

lemma step_commit:
  assumes ok: "files_ok E (s, ts @ Uploading key b n ct # us)" and run: "commit_upload E key b n ct s = (Inr old, s')"
  shows "files_ok E (s', ts @ Cleaning (to_clean old) # us)"
proof (rule files_ok_shrink [OF ok])
  let ?r = "uploaded E key b n ct s"
  have old: "old = map_option ob_blob (row_at key s)" and s': "fd_rows s' = put_row ?r (fd_rows s)" "fd_blobs s' = fd_blobs s" "fd_draws s' = Suc (fd_draws s)"
    using commit_done [OF run] by simp_all
  have rows: "rows_ok (fd_rows s)" using ok by (simp add: files_ok_def)
  then have "distinct (map ob_key (fd_rows s))" by (simp add: rows_ok_def)
  note names = put_row_names [OF this, of ?r]
  show "fd_blobs s' = fd_blobs s" "fd_draws s \<le> fd_draws s'" using s' by simp_all
  show "rows_ok (fd_rows s')" unfolding s'(1) by (rule put_row_ok [OF rows]) simp
  show "in_use (s', ts @ Cleaning (to_clean old) # us) \<subseteq># in_use (s, ts @ Uploading key b n ct # us)"
    using mset_subset_eq_mono_add [OF names(1) subset_mset.order_refl [of "mset (all_held ts) + mset (all_held us)"]]
    by (simp add: in_use_def old s'(1) ac_simps)
  show "set (named (fd_rows s') @ uploads (ts @ Cleaning (to_clean old) # us)) \<subseteq> set (named (fd_rows s) @ uploads (ts @ Uploading key b n ct # us))"
    using names(2) by (auto simp: s'(1))
qed auto

lemma step_refuse: "files_ok E (s, ts @ Uploading key b n ct # us) \<Longrightarrow> files_ok E (s, ts @ Cleaning [b] # us)"
proof -
  assume ok: "files_ok E (s, ts @ Uploading key b n ct # us)"
  show ?thesis by (rule files_ok_shrink [OF ok]) (use ok in \<open>auto simp: files_ok_def in_use_def\<close>)
qed

lemma step_write:
  assumes fresh: "inj (env_uuid E)" and ok: "files_ok E (s, ts)"
    and late: "\<And>ks c. Sweeping ks c \<in> set ts \<Longrightarrow> c \<le> w"
  shows "files_ok E (put_blob (env_uuid E (fd_draws s)) (data, w) (fd_draws_update (Suc \<circ> Suc) s),
    Uploading key (env_uuid E (fd_draws s)) (int (length data)) ct # ts)"
proof -
  let ?b = "env_uuid E (fd_draws s)"
  let ?s = "put_blob ?b (data, w) (fd_draws_update (Suc \<circ> Suc) s)"
  have new: "\<not> drawn E (fd_draws s) ?b" by (rule drawn_fresh [OF fresh])
  have b: "drawn E (Suc (Suc (fd_draws s))) ?b" unfolding drawn_def by (rule exI [of _ "fd_draws s"]) simp
  have more: "drawn E (fd_draws s) x \<Longrightarrow> drawn E (Suc (Suc (fd_draws s))) x" for x by (erule drawn_mono) simp
  have notin: "?b \<notin># in_use (s, ts)" using ok new by (auto simp: files_ok_def names_ok_def)
  have use: "in_use (?s, Uploading key ?b n ct # ts) = add_mset ?b (in_use (s, ts))" for n by (simp add: in_use_def)
  have apart: "x \<noteq> ?b" if "x \<in> fst ` set (named (fd_rows s) @ uploads ts)" for x using named_drawn [OF ok that] new by auto
  have "names_ok E (?s, Uploading key ?b (int (length data)) ct # ts)"
    unfolding names_ok_def use using ok notin b more by (auto simp: files_ok_def names_ok_def names_put not_in_iff)
  moreover have "whole ?s p" if "p \<in> set (named (fd_rows s) @ uploads ts)" for p
  proof (rule whole_put)
    show "fst p \<noteq> ?b" using apart [of "fst p"] that by blast
    show "whole (fd_draws_update (Suc \<circ> Suc) s) p" using ok that by (auto simp: files_ok_def whole_def blob_at_def)
  qed
  moreover have "whole ?s (?b, int (length data))" by (simp add: whole_def)
  moreover have "spared ?s (Uploading key ?b (int (length data)) ct # ts)"
  proof -
    have here: "written_at ?s ?b = w" by (simp add: written_at_def)
    have there: "written_at ?s x = written_at s x" if "x \<in> fst ` set (named (fd_rows s) @ uploads ts)" for x
      using apart [OF that] by (simp add: written_at_def blob_at_def put_blob_def update_conv')
    show ?thesis using ok late here there unfolding files_ok_def spared_def by (auto 0 4)
  qed
  ultimately show ?thesis using ok by (auto simp: files_ok_def)
qed

lemma step_clean:
  assumes ok: "files_ok E (s, ts @ Cleaning (b # bs) # us)"
  shows "files_ok E (remove_blob b s, ts @ Cleaning bs # us)"
proof -
  have use: "in_use (s, ts @ Cleaning (b # bs) # us) = add_mset b (in_use (s, ts @ Cleaning bs # us))" by (simp add: in_use_def)
  have "files_ok E (s, ts @ Cleaning bs # us)" by (rule files_ok_shrink [OF ok]) (use ok use in \<open>auto simp: files_ok_def\<close>)
  moreover have notin: "b \<notin># in_use (s, ts @ Cleaning bs # us)"
    using ok unfolding files_ok_def names_ok_def use by (auto simp: not_in_iff dest!: spec [of _ b])
  moreover have apart: "x \<noteq> b" if "x \<in> fst ` set (named (fd_rows s) @ uploads (ts @ Cleaning bs # us))" for x
    using in_use_mem [of s "ts @ Cleaning bs # us"] that notin by blast
  moreover have "written_at (remove_blob b s) x = written_at s x" if "x \<in> fst ` set (named (fd_rows s) @ uploads (ts @ Cleaning bs # us))" for x
    using apart [OF that] by (simp add: written_at_def)
  moreover have "in_use (remove_blob b s, xs) = in_use (s, xs)" for xs by (simp add: in_use_def)
  ultimately have ok': "files_ok E (s, ts @ Cleaning bs # us)"
    and apart: "\<And>x. x \<in> fst ` set (named (fd_rows s) @ uploads (ts @ Cleaning bs # us)) \<Longrightarrow> x \<noteq> b"
    and written: "\<And>x. x \<in> fst ` set (named (fd_rows s) @ uploads (ts @ Cleaning bs # us)) \<Longrightarrow> written_at (remove_blob b s) x = written_at s x"
    and use: "\<And>xs. in_use (remove_blob b s, xs) = in_use (s, xs)" by blast+
  have "whole (remove_blob b s) p" if "p \<in> set (named (fd_rows s) @ uploads (ts @ Cleaning bs # us))" for p
  proof (rule whole_remove)
    show "fst p \<noteq> b" using apart [of "fst p"] that by blast
  qed (use ok' that in \<open>auto simp: files_ok_def\<close>)
  moreover have "spared (remove_blob b s) (ts @ Cleaning bs # us)"
    using ok' written unfolding files_ok_def spared_def fst_conv snd_conv blob_fields by metis
  moreover have "names_ok E (remove_blob b s, ts @ Cleaning bs # us)"
    using ok' names_remove [of b s] unfolding files_ok_def names_ok_def use fst_conv blob_fields by blast
  ultimately show ?thesis using ok' by (simp add: files_ok_def)
qed

lemma sweep_run: "sweep_blobs ks c s = (Inr n, s') \<Longrightarrow> s' = fd_blobs_update (filter (\<lambda>x. \<not> sweepable ks c x)) s"
  by (auto simp: sweep_blobs_def act_simps)

lemma map_of_filter_kept: "map_of xs b = Some c \<Longrightarrow> P (b, c) \<Longrightarrow> map_of (filter P xs) b = Some c"
  by (induction xs) (auto split: if_splits)

lemma step_sweep:
  assumes ok: "files_ok E (s, ts @ Sweeping ks c # us)" and run: "sweep_blobs ks c s = (Inr n, s')"
  shows "files_ok E (s', ts @ us)"
proof -
  have s': "fd_rows s' = fd_rows s" "fd_draws s' = fd_draws s" "fd_blobs s' = filter (\<lambda>x. \<not> sweepable ks c x) (fd_blobs s)"
    using sweep_run [OF run] by simp_all
  have here: "blob_at b s' = blob_at b s" if b: "b \<in> fst ` set (named (fd_rows s) @ uploads (ts @ us))" for b
  proof -
    obtain p where p: "p \<in> set (named (fd_rows s) @ uploads (ts @ us))" "fst p = b" using b by blast
    then have "whole s p" using ok by (auto simp: files_ok_def)
    then obtain data w where at: "blob_at b s = Some (data, w)" using p(2) by (auto simp: whole_def)
    have "b \<in> set ks \<or> c \<le> written_at s b" using ok b unfolding files_ok_def spared_def by auto
    then have "\<not> sweepable ks c (b, data, w)" using at by (auto simp: sweepable_def written_at_def)
    then show ?thesis using at map_of_filter_kept [of "fd_blobs s" b "(data, w)" "\<lambda>x. \<not> sweepable ks c x"] by (simp add: blob_at_def s'(3))
  qed
  then have written: "written_at s' b = written_at s b" if "b \<in> fst ` set (named (fd_rows s) @ uploads (ts @ us))" for b
    using that by (simp add: written_at_def)
  have "in_use (s', ts @ us) = in_use (s, ts @ Sweeping ks c # us)" by (simp add: in_use_def s')
  moreover have "whole s' p" if "p \<in> set (named (fd_rows s) @ uploads (ts @ us))" for p
    using ok that here [of "fst p"] by (auto simp: files_ok_def whole_def)
  moreover have "\<forall>b\<in>fst ` set (fd_blobs s'). drawn E (fd_draws s) b" using ok by (auto simp: files_ok_def names_ok_def s')
  moreover have "spared s' (ts @ us)" using ok written unfolding files_ok_def spared_def s' by auto
  ultimately show ?thesis using ok by (auto simp: files_ok_def names_ok_def s')
qed

lemma step_begin_sweep:
  assumes ok: "files_ok E (s, ts)" and young: "\<And>key b n ct. Uploading key b n ct \<in> set ts \<Longrightarrow> c \<le> written_at s b"
  shows "files_ok E (s, Sweeping (map ob_blob (fd_rows s)) c # ts)"
proof -
  have "c \<le> written_at s b" if "b \<in> fst ` set (uploads ts)" for b
    using that young by (auto simp: uploads_def split: file_task.splits)
  then have "spared s (Sweeping (map ob_blob (fd_rows s)) c # ts)"
    using ok by (auto simp: files_ok_def spared_def named_def)
  then show ?thesis using ok by (simp add: files_ok_def names_ok_def in_use_def)
qed

text \<open>Copying: every copy has a name of its own, and its contents are those of the row it copies.\<close>

lemma copy_one_ok:
  assumes fresh: "inj (env_uuid E)" and ok: "files_ok E (s, ts)" and no: "\<not> sweeps ts" and there: "whole s (b, n)" "drawn E (fd_draws s) b"
    and run: "link_or_copy E links b (env_uuid E (fd_draws s)) (fd_draws_update Suc s) = (x, u)"
    and row: "ob_blob r = env_uuid E (fd_draws s)" "ob_size r = n" "ob_tenant r = key_tenant (ob_key r)"
  shows "x = Inr ()" and "files_ok E (fd_rows_update (put_row r) (fd_draws_update Suc u), ts)"
    and "fd_draws s \<le> fd_draws u" and "drawn E (fd_draws s) d \<Longrightarrow> blob_at d u = blob_at d s" and "fd_rows u = fd_rows s"
proof -
  let ?b = "env_uuid E (fd_draws s)"
  obtain data w where at: "blob_at b s = Some (data, w)" "n = int (length data)" using there(1) by (auto simp: whole_def)
  obtain w' f where u: "x = Inr ()" "u = put_blob ?b (data, w') (fd_draws_update f s)" "fd_draws s < f (fd_draws s)"
    using run at(1) by (cases links) (auto simp: link_or_copy_def act_simps drawF_def blob_at_def)
  show "x = Inr ()" "fd_draws s \<le> fd_draws u" "fd_rows u = fd_rows s" using u by simp_all
  have new: "\<not> drawn E (fd_draws s) ?b" by (rule drawn_fresh [OF fresh])
  show old: "blob_at d u = blob_at d s" if "drawn E (fd_draws s) d" for d using that new u(2) by (auto simp: blob_at_def put_blob_def update_conv')
  let ?u = "fd_rows_update (put_row r) (fd_draws_update Suc u)"
  have rows: "rows_ok (fd_rows s)" using ok by (simp add: files_ok_def)
  then have "distinct (map ob_key (fd_rows s))" by (simp add: rows_ok_def)
  note names = put_row_names [OF this, of r]
  have "in_use (?u, ts) \<subseteq># add_mset ?b (in_use (s, ts))"
    using mset_subset_eq_mono_add [OF subset_mset.order_trans [OF mset_subset_eq_add_left names(1)] subset_mset.order_refl [of "mset (all_held ts)"]]
    by (simp add: in_use_def u(2) row)
  moreover have notin: "?b \<notin># in_use (s, ts)" using ok new by (auto simp: files_ok_def names_ok_def)
  ultimately have sub: "in_use (?u, ts) \<subseteq># add_mset ?b (in_use (s, ts))" and notin: "count (in_use (s, ts)) ?b = 0"
    by (simp_all add: not_in_iff)
  have "count (add_mset ?b (in_use (s, ts))) y \<le> 1" for y using ok notin by (auto simp: files_ok_def names_ok_def)
  then have use: "count (in_use (?u, ts)) y \<le> 1" "y \<in># in_use (?u, ts) \<Longrightarrow> y = ?b \<or> y \<in># in_use (s, ts)" for y
    using mset_subset_eq_count [OF sub, of y] mset_subset_eqD [OF sub, of y] by (auto intro: order_trans)
  have more: "drawn E (fd_draws s) y \<Longrightarrow> drawn E (fd_draws ?u) y" for y using u(3) by (auto simp: u(2) elim: drawn_mono)
  moreover have "drawn E (fd_draws ?u) ?b" unfolding drawn_def using u(3) by (intro exI [of _ "fd_draws s"]) (simp add: u(2))
  ultimately have "drawn E (fd_draws ?u) y" if "y \<in># in_use (?u, ts) \<or> y \<in> fst ` set (fd_blobs ?u)" for y
    using ok use(2) [of y] that unfolding files_ok_def names_ok_def by (auto simp: u(2) names_put)
  then have "names_ok E (?u, ts)" using use(1) by (simp add: names_ok_def)
  moreover have "whole ?u p" if "p \<in> set (named (fd_rows ?u) @ uploads ts)" for p
  proof (cases "p = (?b, n)")
    case True
    then show ?thesis using at(2) by (simp add: whole_def u(2))
  next
    case False
    then have p: "p \<in> set (named (fd_rows s) @ uploads ts)" using that names(2) by (auto simp: u(2) row)
    then have "drawn E (fd_draws s) (fst p)" using named_drawn [OF ok, of "fst p"] by blast
    then show ?thesis using ok p old [of "fst p"] by (auto simp: files_ok_def whole_def)
  qed
  moreover have "rows_ok (fd_rows ?u)" using put_row_ok [OF rows row(3)] by (simp add: u(2))
  moreover have "spared ?u ts" using no by (auto simp: spared_def sweeps_def)
  ultimately show "files_ok E (?u, ts)" by (simp add: files_ok_def)
qed

lemma copies_ok:
  assumes fresh: "inj (env_uuid E)" and no: "\<not> sweeps ts"
  shows "files_ok E (s, ts) \<Longrightarrow> \<forall>(target, r)\<in>set todo. whole s (ob_blob r, ob_size r) \<and> drawn E (fd_draws s) (ob_blob r) \<Longrightarrow>
    copy_rows E links todo linked s = (x, s') \<Longrightarrow> x = Inr () \<and> files_ok E (s', ts) \<and>
    (\<forall>d. drawn E (fd_draws s) d \<longrightarrow> blob_at d s' = blob_at d s) \<and> (\<forall>k. k \<notin> fst ` set todo \<longrightarrow> row_at k s' = row_at k s)"
proof (induction todo arbitrary: s linked)
  case Nil
  then show ?case by (simp add: retA_def)
next
  case (Cons p rest)
  obtain target r where p: "p = (target, r)" by (cases p)
  obtain y u where run: "link_or_copy E links (ob_blob r) (env_uuid E (fd_draws s)) (fd_draws_update Suc s) = (y, u)"
    by (cases "link_or_copy E links (ob_blob r) (env_uuid E (fd_draws s)) (fd_draws_update Suc s)")
  let ?r = "\<lparr>ob_key = target, ob_tenant = key_tenant target, ob_blob = env_uuid E (fd_draws s), ob_size = ob_size r,
    ob_content_type = ob_content_type r, ob_mtime = env_clock E (fd_draws u)\<rparr>"
  have there: "whole s (ob_blob r, ob_size r)" "drawn E (fd_draws s) (ob_blob r)" using Cons.prems(2) p by simp_all
  note one = copy_one_ok [OF fresh Cons.prems(1) no there run, of ?r, simplified]
  have "copy_rows E links rest (linked @ [env_uuid E (fd_draws s)]) (fd_rows_update (put_row ?r) (fd_draws_update Suc u)) = (x, s')"
    using Cons.prems(3) run one(1) by (simp add: p drawF_def)
  moreover have "\<forall>(target, q)\<in>set rest. whole (fd_rows_update (put_row ?r) (fd_draws_update Suc u)) (ob_blob q, ob_size q) \<and>
      drawn E (fd_draws (fd_rows_update (put_row ?r) (fd_draws_update Suc u))) (ob_blob q)"
    using Cons.prems(2) one(3,4) by (auto simp: whole_def elim!: drawn_mono)
  ultimately have rest: "x = Inr () \<and> files_ok E (s', ts) \<and>
      (\<forall>d. drawn E (Suc (fd_draws u)) d \<longrightarrow> blob_at d s' = blob_at d u) \<and> (\<forall>k. k \<notin> fst ` set rest \<longrightarrow> k \<noteq> target \<longrightarrow> row_at k s' = row_at k u)"
    using Cons.IH [OF one(2)] by simp
  have "drawn E (fd_draws s) d \<Longrightarrow> drawn E (Suc (fd_draws u)) d" for d using one(3) by (erule_tac drawn_mono) simp
  moreover have "row_at k u = row_at k s" for k using one(5) by (simp add: row_at_def)
  ultimately show ?case using rest one(4) p by simp
qed

lemma rows_under_mem: "r \<in> set (rows_under prefix rs) \<Longrightarrow> r \<in> set rs"
  by (simp add: rows_under_def)

lemma copy_there:
  assumes "files_ok E (s, ts)"
  shows "\<forall>(target, r)\<in>set (copy_targets source dest s). whole s (ob_blob r, ob_size r) \<and> drawn E (fd_draws s) (ob_blob r)"
proof -
  have "whole s (ob_blob r, ob_size r) \<and> drawn E (fd_draws s) (ob_blob r)" if "r \<in> set (fd_rows s)" for r
  proof -
    have "(ob_blob r, ob_size r) \<in> set (named (fd_rows s) @ uploads ts)" using that by (auto simp: named_def)
    then show ?thesis using assms named_drawn [OF assms, of "ob_blob r"] by (force simp: files_ok_def)
  qed
  then show ?thesis by (auto simp: copy_targets_def dest: rows_under_mem)
qed

lemma step_keeps:
  assumes "file_step E links x y" and "files_ok E x" and fresh: "inj (env_uuid E)"
  shows "files_ok E y"
  using assms(1,2)
proof (cases rule: file_step.cases)
  case (Write key k s b s1 w s2 ts data ct)
  then show ?thesis using step_write [OF fresh, of s ts w data key ct] assms(2) by (auto simp: draw_run)
next
  case (Delete s ts P named_blob)
  have names: "set (map ob_blob (filter P (fd_rows s))) \<subseteq> set (map ob_blob (fd_rows s))" by auto
  have split: "mset (map ob_blob (fd_rows s)) = mset (map ob_blob (filter P (fd_rows s))) + mset (map ob_blob (delete_where P (fd_rows s)))"
    by (simp add: delete_where_def) (metis image_mset_union multiset_partition mset_filter)
  show ?thesis unfolding Delete
  proof (rule files_ok_shrink)
    show "files_ok E (s, ts)" using assms(2) Delete by simp
    then show "rows_ok (fd_rows (fd_rows_update (delete_where P) s))" by (auto simp: files_ok_def rows_ok_def)
    show "in_use (fd_rows_update (delete_where P) s, Cleaning (filter named_blob (map ob_blob (filter P (fd_rows s)))) # ts) \<subseteq># in_use (s, ts)"
    proof -
      have "mset (filter named_blob (map ob_blob (filter P (fd_rows s)))) \<subseteq># mset (map ob_blob (filter P (fd_rows s)))"
        unfolding mset_filter by (rule multiset_filter_subset)
      then show ?thesis unfolding in_use_def fst_conv snd_conv split by (simp add: ac_simps)
    qed
  qed (auto simp: named_def)
next
  case (Copy ts source dest s s')
  then show ?thesis using copies_ok [OF fresh Copy(3) _ copy_there Copy(4)] assms(2) by blast
next
  case (Copy_undone source dest s e bs s' ts)
  have "files_ok E (s, [])" by (rule files_ok_shrink [of E s ts]) (use assms(2) Copy_undone in \<open>auto simp: files_ok_def in_use_def\<close>)
  moreover have "\<not> sweeps []" by (simp add: sweeps_def)
  ultimately have False using copies_ok [OF fresh _ _ copy_there Copy_undone(3)] by blast
  then show ?thesis ..
next
  case (Finish s ts t us)
  show ?thesis unfolding Finish by (rule files_ok_shrink [of E s "ts @ t # us"])
    (use assms(2) Finish in \<open>auto simp: files_ok_def in_use_def uploads_def\<close>)
next
  case (Refuse key b n ct s e s' ts us)
  have "s' = s" by (rule commit_refused [OF Refuse(3)])
  then show ?thesis using step_refuse [of E s ts key b n ct us] assms(2) Refuse(1,2) by simp
next
  case (Draw s ts)
  show ?thesis unfolding Draw by (rule files_ok_shrink [of E s ts]) (use assms(2) Draw in \<open>auto simp: files_ok_def in_use_def\<close>)
next
  case (Set_quota s ts os)
  show ?thesis unfolding Set_quota by (rule files_ok_shrink [of E s ts]) (use assms(2) Set_quota in \<open>auto simp: files_ok_def in_use_def\<close>)
qed (auto intro: step_commit step_clean step_sweep step_begin_sweep)

lemma reach_ok: "files_reach E links q x \<Longrightarrow> inj (env_uuid E) \<Longrightarrow> files_ok E x"
  by (induction rule: files_reach.induct) (auto intro: files_ok_empty step_keeps)

section \<open>What the folder promises\<close>

text \<open>
  What the folder of files promises: rows name whole contents, a file read is the file written, and a quota holds.
\<close>

section \<open>Reading\<close>

text \<open>What a key reads as: its row, and the contents the row names.\<close>

definition file_content :: "folder \<Rightarrow> string \<Rightarrow> (file_object \<times> string option) option" where
  "file_content s k = map_option (\<lambda>r. (r, map_option fst (blob_at (ob_blob r) s))) (row_at k s)"

lemma download_content: "fst (download k s) = (case check_key k of Inl e \<Rightarrow> Inl e
    | Inr _ \<Rightarrow> (case file_content s k of Some (r, Some data) \<Rightarrow> Inr data | _ \<Rightarrow> Inl (no_object k)))"
  by (auto simp: download_def read_blob_def file_content_def liftA_def act_simps split: sum.splits option.splits)

lemma download_same: "file_content s' k = file_content s k \<Longrightarrow> fst (download k s') = fst (download k s)"
  by (simp only: download_content)

text \<open>Different rows name different contents, and none that are still to be cleaned.\<close>

lemma rows_apart:
  assumes "files_ok E (s, ts)" and "row_at k s = Some r" and "row_at k' s = Some r'" and "k \<noteq> k'"
  shows "ob_blob r \<noteq> ob_blob r'"
proof
  assume eq: "ob_blob r = ob_blob r'"
  have r: "r \<in> set (fd_rows s)" "r' \<in> set (fd_rows s)" "r \<noteq> r'" using assms(2-4) by (auto dest: row_at_Some)
  have "count (mset (map ob_blob (fd_rows s))) b \<le> 1" for b
    using assms(1) unfolding files_ok_def names_ok_def in_use_def by (auto dest!: spec [of _ b])
  then have "distinct (map ob_blob (fd_rows s))" unfolding distinct_count_atmost_1 by (metis One_nat_def count_greater_zero_iff le_antisym not_in_iff set_mset_mset Suc_leI)
  then show False using r eq by (auto simp: distinct_map dest: inj_onD)
qed

lemma row_drawn: "files_ok E (s, ts) \<Longrightarrow> row_at k s = Some r \<Longrightarrow> drawn E (fd_draws s) (ob_blob r)"
  by (rule named_drawn [where ts = ts]) (force simp: named_def dest: row_at_Some)+

lemma row_whole: "files_ok E (s, ts) \<Longrightarrow> row_at k s = Some r \<Longrightarrow> whole s (ob_blob r, ob_size r)"
  by (force simp: files_ok_def named_def dest: row_at_Some)

section \<open>Rows name contents\<close>


section \<open>Operations are sequences of steps\<close>

abbreviation file_steps :: "env \<Rightarrow> bool \<Rightarrow> files \<Rightarrow> files \<Rightarrow> bool" where
  "file_steps E links \<equiv> (file_step E links)\<^sup>*\<^sup>*"

lemma then_step: "file_steps E links x y \<Longrightarrow> file_step E links y z \<Longrightarrow> file_steps E links x z"
  by (rule rtranclp.rtrancl_into_rtrancl)

lemma clean_steps: "file_steps E links (s, Cleaning bs # ts) (snd (remove_blobs bs s), ts)"
proof (induction bs arbitrary: s)
  case Nil
  show ?case using file_step.Finish [of E links s "[]" "Cleaning []" ts] by (simp add: retA_def r_into_rtranclp)
next
  case (Cons b bs)
  have "file_step E links (s, Cleaning (b # bs) # ts) (remove_blob b s, Cleaning bs # ts)" using file_step.Clean [of E links s "[]" b bs ts] by simp
  then show ?case using Cons.IH [of "remove_blob b s"] by (simp add: bindA_def execA_def converse_rtranclp_into_rtranclp)
qed

lemma remove_blobs_ok [simp]: "fst (remove_blobs bs s) = Inr ()"
  by (induction bs arbitrary: s) (simp_all add: act_simps)

lemma upload_steps: "upload E key data ct s = (r, s') \<Longrightarrow> file_steps E links (s, []) (s', [])"
proof -
  assume run: "upload E key data ct s = (r, s')"
  show ?thesis
  proof (cases "check_key key")
    case (Inl e)
    then have "s' = s" using run by (auto simp: upload_def liftA_def act_simps)
    then show ?thesis by simp
  next
    case (Inr k)
    let ?b = "env_uuid E (fd_draws s)"
    let ?s = "put_blob ?b (data, env_clock E (Suc (fd_draws s))) (fd_draws_update Suc (fd_draws_update Suc s))"
    have put: "file_step E links (s, []) (?s, [Uploading key ?b (int (length data)) ct])"
      using file_step.Write [OF Inr, where E = E and s = s and b = ?b and ?s1.0 = "fd_draws_update Suc s" and w = "env_clock E (Suc (fd_draws s))"
          and ?s2.0 = "fd_draws_update Suc (fd_draws_update Suc s)" and ts = "[]" and data = data and ct = ct and links = links] by (simp add: drawF_def)
    obtain x t where commit: "commit_upload E key ?b (int (length data)) ct ?s = (x, t)" by (cases "commit_upload E key ?b (int (length data)) ct ?s")
    have s': "s' = snd (remove_blobs (case x of Inl _ \<Rightarrow> [?b] | Inr old \<Rightarrow> to_clean old) t)"
      using run commit Inr by (auto simp: upload_def liftA_def act_simps drawF_def to_clean_def comp_def split: sum.splits option.splits if_splits)
    have "file_step E links (?s, [Uploading key ?b (int (length data)) ct]) (t, [Cleaning (case x of Inl _ \<Rightarrow> [?b] | Inr old \<Rightarrow> to_clean old)])"
      using commit file_step.Commit [of E key ?b "int (length data)" ct ?s _ t links "[]" "[]"]
        file_step.Refuse [of E key ?b "int (length data)" ct ?s _ t links "[]" "[]"] by (cases x) auto
    then show ?thesis unfolding s' using put clean_steps [of E links t _ "[]"] by (meson converse_rtranclp_into_rtranclp)
  qed
qed

lemma delete_steps:
  "file_steps E links (s, []) (snd (remove_blobs (filter named_blob (map ob_blob (filter P (fd_rows s)))) (fd_rows_update (delete_where P) s)), [])"
  by (rule converse_rtranclp_into_rtranclp [OF file_step.Delete clean_steps])

lemma one_row: "distinct (map ob_key rs) \<Longrightarrow> List.find (\<lambda>x. ob_key x = key) rs = Some r \<Longrightarrow> filter (\<lambda>x. ob_key x = key) rs = [r]"
  by (induction rs) (auto split: if_splits simp: filter_empty_conv, metis imageI)

lemma delete_file_run:
  assumes "distinct (map ob_key (fd_rows s))" and "delete_file key s = (r, s')"
  shows "s' = s \<or> s' = snd (remove_blobs (filter (\<lambda>b. b \<noteq> []) (map ob_blob (filter (\<lambda>x. ob_key x = key) (fd_rows s))))
    (fd_rows_update (delete_where (\<lambda>x. ob_key x = key)) s))"
proof (cases "check_key key")
  case (Inr k)
  then show ?thesis
  proof (cases "row_at key s")
    case (Some x)
    then have "filter (\<lambda>x. ob_key x = key) (fd_rows s) = [x]" using one_row [OF assms(1)] by (simp add: row_at_def)
    then show ?thesis using assms(2) Inr Some by (auto simp: delete_file_def liftA_def act_simps split: if_splits)
  qed (use assms(2) in \<open>auto simp: delete_file_def liftA_def act_simps\<close>)
qed (use assms(2) in \<open>auto simp: delete_file_def liftA_def act_simps\<close>)

lemma delete_prefix_run: "delete_prefix prefix s = (r, s') \<Longrightarrow>
    s' = s \<or> s' = snd (remove_blobs (filter (\<lambda>b. True) (map ob_blob (filter (in_directory prefix) (fd_rows s)))) (fd_rows_update (delete_where (in_directory prefix)) s))"
  using remove_blobs_ok [of "map ob_blob (filter (in_directory prefix) (fd_rows s))" "fd_rows_update (delete_where (in_directory prefix)) s"]
  by (cases "remove_blobs (map ob_blob (filter (in_directory prefix) (fd_rows s))) (fd_rows_update (delete_where (in_directory prefix)) s)")
    (auto simp: delete_prefix_def liftA_def act_simps split: sum.splits)

lemma copy_run:
  assumes "copy_prefix E links source dest s = (r, s')"
  shows "s' = s \<or> (\<exists>x t. copy_rows E links (copy_targets source dest s) [] s = (x, t) \<and>
    enforce (key_tenant (stem_of dest)) (sum_list (map (ob_size \<circ> snd) (copy_targets source dest s))) (replaced_bytes (copy_targets source dest s) s) s = (Inr (), s) \<and>
    (case x of Inr _ \<Rightarrow> s' = t \<and> isl r = False | Inl (e, bs) \<Rightarrow> s' = snd (remove_blobs bs (t\<lparr>fd_rows := fd_rows s\<rparr>))))"
proof -
  let ?ts = "copy_targets source dest s"
  obtain y u where enf: "enforce (key_tenant (stem_of dest)) (sum_list (map (ob_size \<circ> snd) ?ts)) (replaced_bytes ?ts s) s = (y, u)"
    by (cases "enforce (key_tenant (stem_of dest)) (sum_list (map (ob_size \<circ> snd) ?ts)) (replaced_bytes ?ts s) s")
  then have u: "u = s" by (rule enforce_same)
  obtain x t where rows: "copy_rows E links ?ts [] s = (x, t)" by (cases "copy_rows E links ?ts [] s")
  have rm: "remove_blobs bs v = (Inr (), snd (remove_blobs bs v))" for bs v by (simp add: prod_eq_iff)
  show ?thesis
  proof (cases "check_key (stem_of source) = Inl undefined \<or> isl (check_key (stem_of source)) \<or> isl (check_key (stem_of dest)) \<or> isl y")
    case True
    then show ?thesis using assms enf u by (auto simp: copy_prefix_def liftA_def act_simps split: sum.splits)
  next
    case False
    then show ?thesis using assms enf u rows rm
      by (auto simp: copy_prefix_def liftA_def act_simps split: sum.splits prod.splits)
  qed
qed

lemma copy_steps: "copy_prefix E links source dest s = (r, s') \<Longrightarrow> file_steps E links (s, []) (s', [])"
proof (drule copy_run, elim disjE exE conjE, simp)
  fix x t
  assume rows: "copy_rows E links (copy_targets source dest s) [] s = (x, t)"
    and s': "case x of Inr _ \<Rightarrow> s' = t \<and> isl r = False | Inl (e, bs) \<Rightarrow> s' = snd (remove_blobs bs (t\<lparr>fd_rows := fd_rows s\<rparr>))"
  show ?thesis
  proof (cases x)
    case (Inr u)
    then show ?thesis using file_step.Copy [of "[]" E links source dest s t] rows s' by (simp add: sweeps_def r_into_rtranclp)
  next
    case (Inl p)
    obtain e bs where p: "p = (e, bs)" by (cases p)
    then have "file_step E links (s, []) (t\<lparr>fd_rows := fd_rows s\<rparr>, [Cleaning bs])" using file_step.Copy_undone [of E links source dest s e bs t "[]"] rows Inl by simp
    then show ?thesis using clean_steps [of E links "t\<lparr>fd_rows := fd_rows s\<rparr>" bs "[]"] s' Inl p by (simp add: converse_rtranclp_into_rtranclp)
  qed
qed

lemma collect_steps: "collect_garbage E age s = (r, s') \<Longrightarrow> file_steps E links (s, []) (s', [])"
proof -
  assume run: "collect_garbage E age s = (r, s')"
  let ?ks = "map ob_blob (fd_rows s)" and ?s = "fd_draws_update Suc s" and ?c = "env_clock E (fd_draws s) - age"
  have "file_step E links (s, []) (s, [Sweeping ?ks ?c])" by (rule file_step.Begin_sweep) simp
  moreover have "file_step E links (s, [Sweeping ?ks ?c]) (?s, [Sweeping ?ks ?c])" by (rule file_step.Draw)
  moreover have "file_step E links (?s, [Sweeping ?ks ?c]) (s', [])"
    using file_step.Sweep [of ?ks ?c ?s _ s' E links "[]" "[]"] run by (auto simp: collect_garbage_def referenced_def drawF_def act_simps sweep_blobs_def)
  ultimately show ?thesis by (meson converse_rtranclp_into_rtranclp rtranclp.rtrancl_refl)
qed

lemma steps_keep: "file_steps E links x y \<Longrightarrow> inj (env_uuid E) \<Longrightarrow> files_ok E x \<Longrightarrow> files_ok E y"
  by (induction rule: rtranclp_induct) (auto intro: step_keeps)

section \<open>Reading what was written\<close>

lemma remove_blobs_fields [simp]: "fd_rows (snd (remove_blobs bs s)) = fd_rows s" "row_at k (snd (remove_blobs bs s)) = row_at k s"
  "blob_at b (snd (remove_blobs bs s)) = (if b \<in> set bs then None else blob_at b s)"
  by (induction bs arbitrary: s) (auto simp: act_simps)

text \<open>Contents that go away are of no row that stays.\<close>

lemma content_same:
  assumes "row_at k t = row_at k s" and "\<And>r. row_at k s = Some r \<Longrightarrow> blob_at (ob_blob r) t = blob_at (ob_blob r) s"
  shows "file_content t k = file_content s k"
  using assms by (cases "row_at k s") (simp_all add: file_content_def)

lemma upload_run:
  assumes fresh: "inj (env_uuid E)" and ok: "files_ok E (s, [])" and run: "upload E key data ct s = (r, s')"
  shows "(r = Inr () \<longrightarrow> (\<exists>x. file_content s' key = Some (x, Some data) \<and> ob_size x = int (length data))) \<and>
    (\<forall>k. k \<noteq> key \<or> isl r \<longrightarrow> file_content s' k = file_content s k)"
proof (cases "check_key key")
  case (Inl e)
  then have "s' = s \<and> r = Inl e" using run by (auto simp: upload_def liftA_def act_simps)
  then show ?thesis by simp
next
  case (Inr k0)
  let ?b = "env_uuid E (fd_draws s)"
  let ?s = "put_blob ?b (data, env_clock E (Suc (fd_draws s))) (fd_draws_update (Suc \<circ> Suc) s)"
  have new: "ob_blob x \<noteq> ?b" if "row_at k s = Some x" for k x using row_drawn [OF ok that] drawn_fresh [OF fresh] by metis
  obtain y t where commit: "commit_upload E key ?b (int (length data)) ct ?s = (y, t)" by (cases "commit_upload E key ?b (int (length data)) ct ?s")
  show ?thesis
  proof (cases y)
    case (Inl e)
    then have t: "t = ?s" using commit_refused commit by blast
    then have "r = Inl e \<and> s' = remove_blob ?b ?s"
      using run commit Inr Inl by (auto simp: upload_def liftA_def act_simps drawF_def comp_def)
    then show ?thesis using new by (auto intro!: content_same)
  next
    case (Inr old)
    let ?r = "uploaded E key ?b (int (length data)) ct ?s"
    have t: "t = fd_rows_update (put_row ?r) (fd_draws_update Suc ?s)" and old: "old = map_option ob_blob (row_at key s)"
      using commit_done [of E key ?b "int (length data)" ct ?s old t] commit Inr by simp_all
    have s': "r = Inr ()" "s' = snd (remove_blobs (to_clean old) t)"
      using run commit \<open>check_key key = Inr k0\<close> Inr by (auto simp: upload_def liftA_def act_simps drawF_def comp_def to_clean_def split: option.splits if_splits)
    have "?b \<notin> set (to_clean old)" using new [of key] by (cases "row_at key s") (auto simp: old to_clean_def)
    then have "file_content s' key = Some (?r, Some data)" by (simp add: file_content_def s' t)
    moreover have "file_content s' k = file_content s k" if "k \<noteq> key" for k
    proof (rule content_same)
      show "row_at k s' = row_at k s" using that by (simp add: s' t)
      show "blob_at (ob_blob x) s' = blob_at (ob_blob x) s" if "row_at k s = Some x" for x
        using rows_apart [OF ok that _ \<open>k \<noteq> key\<close>] new [OF that] by (cases "row_at key s") (auto simp: s' t old to_clean_def retA_def)
    qed
    ultimately show ?thesis using s'(1) by auto
  qed
qed

text \<open>A file that was written is read back as it was written, every other file reads as before; and where the write is refused, all do.\<close>

theorem written_is_read:
  assumes "files_reach E links q (s, [])" and "inj (env_uuid E)" and "upload E key data ct s = (r, s')"
  shows "(r = Inr () \<longrightarrow> fst (download key s') = Inr data) \<and>
    (\<forall>k. k \<noteq> key \<or> isl r \<longrightarrow> fst (download k s') = fst (download k s))"
proof -
  have ok: "files_ok E (s, [])" by (rule reach_ok [OF assms(1,2)])
  note run = upload_run [OF assms(2) ok assms(3)]
  have "\<exists>k. check_key key = Inr k" if "r = Inr ()"
    using assms(3) that by (cases "check_key key") (auto simp: upload_def liftA_def act_simps)
  then have "r = Inr () \<longrightarrow> fst (download key s') = Inr data" using run by (auto simp: download_content)
  then show ?thesis using run download_same by blast
qed

section \<open>Quota\<close>

lemma used_append [simp]: "used_by t (rs @ ss) = used_by t rs + used_by t ss"
  by (simp add: used_by_def)

lemma used_put:
  assumes "rows_ok (fd_rows s)" and "ob_tenant r = key_tenant (ob_key r)"
  shows "used_by t (put_row r (fd_rows s)) = used_by t (fd_rows s) +
    (if key_tenant (ob_key r) = Some t then ob_size r - (case row_at (ob_key r) s of None \<Rightarrow> 0 | Some x \<Rightarrow> ob_size x) else 0)"
proof -
  have "distinct (map ob_key (fd_rows s))" using assms(1) by (simp add: rows_ok_def)
  from this show ?thesis
  proof (rule put_row_cases [where r = r], goal_cases)
    case (2 x us vs)
    have "ob_tenant x = key_tenant (ob_key r)" using assms(1) 2 by (auto simp: rows_ok_def)
    then show ?case using 2 assms(2) by (simp add: used_by_def)
  qed (simp_all add: used_by_def assms(2))
qed

lemma enforce_holds: "enforce (Some t) n m s = (Inr (), s) \<Longrightarrow> effective_quota t s = Some q \<Longrightarrow> used_by t (fd_rows s) - m + n \<le> q"
  by (auto simp: enforce_def usage_bytes_def act_simps split: if_splits)

text \<open>Copies add up.\<close>

definition grown_by :: "folder \<Rightarrow> string \<times> file_object \<Rightarrow> int" where
  "grown_by s p = ob_size (snd p) - (case row_at (fst p) s of None \<Rightarrow> 0 | Some x \<Rightarrow> ob_size x)"

lemma link_same: "link_or_copy E links b c s = (x, u) \<Longrightarrow> fd_rows u = fd_rows s \<and> row_at k u = row_at k s"
  by (auto simp: link_or_copy_def act_simps drawF_def row_at_def split: option.splits if_splits)

lemma copy_used:
  assumes "copy_rows E links todo linked s = (Inr (), s')" and "rows_ok (fd_rows s)" and "distinct (map fst todo)"
  shows "used_by t (fd_rows s') = used_by t (fd_rows s) + sum_list (map (grown_by s) (filter (\<lambda>p. key_tenant (fst p) = Some t) todo))"
  using assms
proof (induction todo arbitrary: s linked)
  case Nil
  then show ?case by (simp add: retA_def)
next
  case (Cons p rest)
  obtain target r where p: "p = (target, r)" by (cases p)
  let ?b = "env_uuid E (fd_draws s)"
  obtain u where link: "link_or_copy E links (ob_blob r) ?b (fd_draws_update Suc s) = (Inr (), u)"
    and rest: "copy_rows E links rest (linked @ [?b]) (fd_rows_update (put_row \<lparr>ob_key = target, ob_tenant = key_tenant target, ob_blob = ?b,
      ob_size = ob_size r, ob_content_type = ob_content_type r, ob_mtime = env_clock E (fd_draws u)\<rparr>) (fd_draws_update Suc u)) = (Inr (), s')"
    using Cons.prems(1) p by (auto simp: drawF_def split: prod.splits sum.splits)
  note u = link_same [OF link]
  let ?r = "\<lparr>ob_key = target, ob_tenant = key_tenant target, ob_blob = ?b, ob_size = ob_size r, ob_content_type = ob_content_type r,
    ob_mtime = env_clock E (fd_draws u)\<rparr>"
  let ?t = "fd_rows_update (put_row ?r) (fd_draws_update Suc u)"
  have rows: "rows_ok (fd_rows ?t)" using put_row_ok [OF Cons.prems(2), of ?r] u by simp
  have "used_by t (fd_rows s') = used_by t (fd_rows ?t) + sum_list (map (grown_by ?t) (filter (\<lambda>p. key_tenant (fst p) = Some t) rest))"
    by (rule Cons.IH [OF rest rows]) (use Cons.prems(3) in simp)
  moreover have "map (grown_by ?t) (filter (\<lambda>p. key_tenant (fst p) = Some t) rest) = map (grown_by s) (filter (\<lambda>p. key_tenant (fst p) = Some t) rest)"
  proof (rule map_cong [OF refl])
    fix x assume "x \<in> set (filter (\<lambda>p. key_tenant (fst p) = Some t) rest)"
    then have "fst x \<noteq> target" using Cons.prems(3) p by force
    then show "grown_by ?t x = grown_by s x" using u by (simp add: grown_by_def)
  qed
  moreover have "used_by t (fd_rows ?t) = used_by t (fd_rows s) + (if key_tenant target = Some t then grown_by s p else 0)"
    using used_put [OF Cons.prems(2), of ?r t] u by (simp add: grown_by_def p)
  ultimately show ?case by (simp add: p)
qed

lemma split_on_nonempty: "split_on d xs \<noteq> []"
  by (induction xs) (auto split: list.splits)

lemma split_on_append: "split_on d (xs @ d # ys) = split_on d xs @ split_on d ys"
proof (induction xs)
  case (Cons x xs)
  then show ?case using split_on_nonempty [of d xs] by (cases "split_on d xs") auto
qed simp

lemma split_on_plain: "d \<notin> set xs \<Longrightarrow> split_on d xs = [xs]"
  by (induction xs) auto

lemma key_tenant_inside: "key_tenant p = Some t \<Longrightarrow> key_tenant (p @ CHR ''/'' # w) = Some t"
  using split_on_nonempty [of "CHR ''/''" w] unfolding key_tenant_def split_on_append by (auto split: list.splits if_splits)

lemma under_split: "inside_dir prefix key \<Longrightarrow> \<exists>w. key = stem_of prefix @ CHR ''/'' # w"
proof -
  assume "inside_dir prefix key"
  then have "take (length (stem_of prefix @ ''/'')) key = stem_of prefix @ ''/''" by (simp add: inside_dir_def starts_with_def)
  then have "key = stem_of prefix @ ''/'' @ drop (length (stem_of prefix @ ''/'')) key" by (metis append.assoc append_take_drop_id)
  then show ?thesis by (metis append_Cons append_Nil)
qed

lemma copy_targets_distinct:
  assumes "rows_ok (fd_rows s)"
  shows "distinct (map fst (copy_targets source dest s))"
proof -
  have "distinct (map ob_key (filter (\<lambda>r. inside_dir source (ob_key r)) (fd_rows s)))" using assms by (simp add: rows_ok_def distinct_map_filter)
  then have "distinct (map ob_key (rows_under source (fd_rows s)))" by (simp add: rows_under_def distinct_map)
  then have "inj_on ob_key (set (rows_under source (fd_rows s)))" and "distinct (rows_under source (fd_rows s))" by (simp_all add: distinct_map)
  moreover have "drop (length (stem_of source)) (ob_key a) = drop (length (stem_of source)) (ob_key b) \<Longrightarrow> ob_key a = ob_key b"
    if ab: "a \<in> set (rows_under source (fd_rows s))" "b \<in> set (rows_under source (fd_rows s))" for a b
  proof -
    obtain u v where "ob_key a = stem_of source @ CHR ''/'' # u" "ob_key b = stem_of source @ CHR ''/'' # v"
      using ab under_split [of source "ob_key a"] under_split [of source "ob_key b"] by (auto simp: rows_under_def)
    then show "drop (length (stem_of source)) (ob_key a) = drop (length (stem_of source)) (ob_key b) \<Longrightarrow> ob_key a = ob_key b" by simp
  qed
  ultimately have "distinct (map (\<lambda>r. stem_of dest @ drop (length (stem_of source)) (ob_key r)) (rows_under source (fd_rows s)))"
    by (auto simp: distinct_map inj_on_def)
  then show ?thesis by (simp add: copy_targets_def comp_def)
qed

lemma copy_targets_inside: "p \<in> set (copy_targets source dest s) \<Longrightarrow> \<exists>w. fst p = stem_of dest @ CHR ''/'' # w"
  using under_split [of source] by (fastforce simp: copy_targets_def rows_under_def)

lemma upload_used:
  assumes "rows_ok (fd_rows s)" and run: "upload E key data ct s = (Inr (), s')" and t: "key_tenant key = Some t"
    and "effective_quota t s = Some q"
  shows "used_by t (fd_rows s') \<le> q" and "u \<noteq> t \<Longrightarrow> used_by u (fd_rows s') = used_by u (fd_rows s)"
proof -
  let ?b = "env_uuid E (fd_draws s)" and ?n = "int (length data)"
  let ?s = "put_blob ?b (data, env_clock E (Suc (fd_draws s))) (fd_draws_update (Suc \<circ> Suc) s)"
  obtain y v where commit: "commit_upload E key ?b ?n ct ?s = (y, v)" by (cases "commit_upload E key ?b ?n ct ?s")
  obtain k0 where "check_key key = Inr k0" using run by (cases "check_key key") (auto simp: upload_def liftA_def act_simps)
  then obtain old where y: "y = Inr old" "fd_rows s' = fd_rows v"
    using run commit by (cases y) (auto simp: upload_def liftA_def act_simps drawF_def comp_def split: option.splits if_splits)
  let ?r = "uploaded E key ?b ?n ct ?s" and ?m = "case row_at key ?s of None \<Rightarrow> 0 | Some r \<Rightarrow> ob_size r"
  have v: "fd_rows v = put_row ?r (fd_rows s)" using commit_done [of E key ?b ?n ct ?s old v] commit y(1) by simp
  have "enforce (Some t) ?n ?m ?s = (Inr (), ?s)"
    using commit y(1) t enforce_same [of "Some t" ?n ?m ?s] by (auto simp: commit_run split: prod.splits sum.splits)
  moreover have "effective_quota t ?s = Some q" using assms(4) by (simp add: effective_quota_def split: option.splits)
  ultimately have fits: "used_by t (fd_rows ?s) - ?m + ?n \<le> q" by (rule enforce_holds)
  have used: "used_by x (fd_rows s') = used_by x (fd_rows s) + (if x = t then ?n - ?m else 0)" for x
    unfolding y(2) v using used_put [OF assms(1), of ?r x] t by auto
  show "used_by t (fd_rows s') \<le> q" using used [of t] fits by simp
  show "u \<noteq> t \<Longrightarrow> used_by u (fd_rows s') = used_by u (fd_rows s)" using used by simp
qed

lemma copy_within:
  assumes rows: "rows_ok (fd_rows s)" and run: "copy_prefix E links source dest s = (Inr n, s')" and t: "key_tenant (stem_of dest) = Some t"
    and "effective_quota t s = Some q"
  shows "used_by t (fd_rows s') \<le> q" and "u \<noteq> t \<Longrightarrow> used_by u (fd_rows s') = used_by u (fd_rows s)"
proof -
  let ?ts = "copy_targets source dest s"
  have "enforce (key_tenant (stem_of dest)) (sum_list (map (ob_size \<circ> snd) ?ts)) (replaced_bytes ?ts s) s = (Inr (), s) \<and>
      copy_rows E links ?ts [] s = (Inr (), s')"
    using run enforce_same [of "key_tenant (stem_of dest)" "sum_list (map (ob_size \<circ> snd) ?ts)" "replaced_bytes ?ts s" s]
    by (auto simp: copy_prefix_def liftA_def act_simps split: prod.splits sum.splits)
  then have enf: "enforce (Some t) (sum_list (map (ob_size \<circ> snd) ?ts)) (replaced_bytes ?ts s) s = (Inr (), s)"
    and copied: "copy_rows E links ?ts [] s = (Inr (), s')" using t by simp_all
  have tenants: "key_tenant (fst p) = Some t" if "p \<in> set ?ts" for p
    using copy_targets_inside [OF that] key_tenant_inside [OF t] by auto
  have sum: "sum_list (map (grown_by s) xs) = sum_list (map (ob_size \<circ> snd) xs) - replaced_bytes xs s" for xs
    by (induction xs) (auto simp: grown_by_def replaced_bytes_def split: option.splits)
  have all: "filter (\<lambda>p. key_tenant (fst p) = Some x) ?ts = (if x = t then ?ts else [])" for x
    using tenants by (auto simp: filter_empty_conv intro: filter_True)
  note used = copy_used [OF copied rows copy_targets_distinct [OF rows], unfolded all]
  show "used_by t (fd_rows s') \<le> q" using used [of t] enforce_holds [OF enf assms(4)] sum [of ?ts] by simp
  show "u \<noteq> t \<Longrightarrow> used_by u (fd_rows s') = used_by u (fd_rows s)" using used by simp
qed

text \<open>
  C27. A write or a copy into the files of a tenant that is done leaves the tenant within its quota, counted to the byte, and no other
  tenant's usage changes.
\<close>

theorem quota_held:
  assumes "files_reach E links q0 (s, [])" and "inj (env_uuid E)" and "effective_quota t s = Some q"
    and "upload E key data ct s = (Inr (), s') \<and> key_tenant key = Some t \<or>
      copy_prefix E links source dest s = (Inr n, s') \<and> key_tenant (stem_of dest) = Some t"
  shows "used_by t (fd_rows s') \<le> q \<and> (\<forall>u. u \<noteq> t \<longrightarrow> used_by u (fd_rows s') = used_by u (fd_rows s))"
proof -
  have "rows_ok (fd_rows s)" using reach_ok [OF assms(1,2)] by (simp add: files_ok_def)
  note used = upload_used [OF this _ _ assms(3)] copy_within [OF this _ _ assms(3)]
  from assms(4) show ?thesis by (elim disjE conjE) (simp_all add: used)
qed

end
