(* ===== verification/File_Fence.thy ===== *)
theory File_Fence
  imports File_Claims Journal_Store
begin

text \<open>
  A tenant behind the fence of \<open>stores/scoped.py\<close>: whatever it calls, with whatever keys, the files of everybody else stay what
  they were.
\<close>

section \<open>Other tenants' files\<close>

text \<open>The calls of a fenced store, their results left out.\<close>

datatype fenced_call =
    Fenced_upload string string string
  | Fenced_download string
  | Fenced_exists string
  | Fenced_delete string
  | Fenced_list string
  | Fenced_delete_prefix string
  | Fenced_copy string string
  | Fenced_usage "string option"
  | Fenced_erase

definition droppedA :: "('s, 'e, 'a) act \<Rightarrow> ('s, 'e, unit) act" where
  "droppedA m = bindA m (\<lambda>_. retA ())"

fun fenced_call_of :: "env \<Rightarrow> bool \<Rightarrow> string \<Rightarrow> fenced_call \<Rightarrow> unit file_act" where
  "fenced_call_of E links t (Fenced_upload key data ct) = fenced_upload E t key data ct"
| "fenced_call_of E links t (Fenced_download key) = droppedA (fenced_download t key)"
| "fenced_call_of E links t (Fenced_exists key) = droppedA (fenced_exists t key)"
| "fenced_call_of E links t (Fenced_delete key) = fenced_delete t key"
| "fenced_call_of E links t (Fenced_list prefix) = droppedA (fenced_list_prefix t prefix)"
| "fenced_call_of E links t (Fenced_delete_prefix prefix) = droppedA (fenced_delete_prefix t prefix)"
| "fenced_call_of E links t (Fenced_copy source dest) = droppedA (fenced_copy_prefix E links t source dest)"
| "fenced_call_of E links t (Fenced_usage wanted) = droppedA (fenced_usage_bytes t wanted)"
| "fenced_call_of E links t Fenced_erase = droppedA (fenced_erase t)"

lemma dropped_run: "droppedA m s = (r, s') \<Longrightarrow> \<exists>x. m s = (x, s')"
  by (auto simp: droppedA_def act_simps split: prod.splits sum.splits)

section \<open>What is inside\<close>

definition fenceable :: "string \<Rightarrow> bool" where
  "fenceable t \<longleftrightarrow> t \<noteq> [] \<and> may_fence t = Inr ()"

lemma fenceable_slash: "fenceable t \<Longrightarrow> CHR ''/'' \<notin> set t"
  by (auto simp: fenceable_def may_fence_def split: if_splits)

lemma key_tenant_of: "fenceable t \<Longrightarrow> w = [] \<or> hd w = CHR ''/'' \<Longrightarrow> key_tenant (''tenants/'' @ t @ w) = Some t"
proof -
  assume t: "fenceable t" and w: "w = [] \<or> hd w = CHR ''/''"
  have "split_on (CHR ''/'') (''tenants/'' @ t @ w) = ''tenants'' # split_on (CHR ''/'') (t @ w)"
    using split_on_append [of "CHR ''/''" "''tenants''" "t @ w"] by simp
  moreover have "\<exists>rest. split_on (CHR ''/'') (t @ w) = t # rest"
  proof (cases w)
    case Nil
    then show ?thesis using fenceable_slash [OF t] by (simp add: split_on_plain)
  next
    case (Cons c v)
    then show ?thesis using w fenceable_slash [OF t] split_on_append [of "CHR ''/''" t v] by (simp add: split_on_plain)
  qed
  ultimately show ?thesis using t by (auto simp: key_tenant_def fenceable_def)
qed

lemma inside_root: "inside_fence t p key = Inr k \<Longrightarrow> k = key \<and> (\<exists>w. key = ''tenants/'' @ t @ CHR ''/'' # w)"
proof -
  assume "inside_fence t p key = Inr k"
  then have "k = key" "take (length (fence_root t)) key = fence_root t" by (auto simp: inside_fence_def starts_with_def split: if_splits)
  then show ?thesis using append_take_drop_id [of "length (fence_root t)" key] by (auto simp: fence_root_def) (metis append.assoc append_Cons append_Nil)
qed

text \<open>The stem of a prefix inside the fence still names the tenant.\<close>

lemma stem_inside:
  assumes t: "fenceable t" and p: "prefix = ''tenants/'' @ t @ CHR ''/'' # w"
  shows "\<exists>v. stem_of prefix = ''tenants/'' @ t @ v \<and> (v = [] \<or> hd v = CHR ''/'')"
proof -
  let ?P = "\<lambda>c. c = CHR ''/''" and ?x = "''tenants/'' @ t"
  have x: "dropWhile ?P (rev ?x) = rev ?x"
    using t fenceable_slash [OF t] by (cases t rule: rev_cases) (auto simp: fenceable_def)
  have rev_p: "rev prefix = rev (CHR ''/'' # w) @ rev ?x" by (simp add: p)
  have drop: "dropWhile ?P (rev prefix) = dropWhile ?P (rev (CHR ''/'' # w)) @ rev ?x"
  proof (cases "\<exists>c\<in>set (rev (CHR ''/'' # w)). \<not> ?P c")
    case True
    then show ?thesis unfolding rev_p by (auto intro: dropWhile_append1)
  next
    case False
    then have "dropWhile ?P (rev (CHR ''/'' # w)) = []" by (simp add: dropWhile_eq_Nil_conv)
    moreover have "dropWhile ?P (rev (CHR ''/'' # w) @ rev ?x) = dropWhile ?P (rev ?x)" by (rule dropWhile_append2) (use False in blast)
    ultimately show ?thesis unfolding rev_p x by (simp only: append_Nil)
  qed
  define v where "v = rev (dropWhile ?P (rev (CHR ''/'' # w)))"
  have "stem_of prefix = ?x @ v" by (simp add: stem_of_def drop v_def Let_def)
  moreover have "v = [] \<or> hd v = CHR ''/''"
  proof -
    have "CHR ''/'' # w = v @ rev (takeWhile ?P (rev (CHR ''/'' # w)))"
      unfolding v_def by (metis rev_append rev_rev_ident takeWhile_dropWhile_id)
    then show ?thesis by (cases v) auto
  qed
  ultimately show ?thesis by auto
qed

lemma root_directory:
  assumes "fenceable t" and "p = ''tenants/'' @ t @ CHR ''/'' # w" and "in_directory p r"
  shows "key_tenant (ob_key r) = Some t"
proof -
  from stem_inside [OF assms(1,2)] obtain v where v: "stem_of p = ''tenants/'' @ t @ v" "v = [] \<or> hd v = CHR ''/''" by blast
  then consider "ob_key r = ''tenants/'' @ t @ v" | u where "ob_key r = ''tenants/'' @ t @ (v @ CHR ''/'' # u)"
    using assms(3) under_split [of p "ob_key r"] by (auto simp: in_directory_def)
  then show ?thesis
  proof cases
    case 1
    show ?thesis unfolding 1 by (rule key_tenant_of [OF assms(1) v(2)])
  next
    case (2 u)
    show ?thesis unfolding 2 by (rule key_tenant_of [OF assms(1)]) (use v(2) in \<open>cases v; simp\<close>)
  qed
qed

lemma directory_inside:
  assumes "fenceable t" and "inside_fence t True prefix = Inr p" and "in_directory p r"
  shows "key_tenant (ob_key r) = Some t"
proof -
  obtain w where "p = ''tenants/'' @ t @ CHR ''/'' # w" using inside_root [OF assms(2)] by auto
  then show ?thesis by (rule root_directory [OF assms(1) _ assms(3)])
qed

lemma lift_bind: "bindA (liftA x) f s = (case x of Inl e \<Rightarrow> (Inl e, s) | Inr a \<Rightarrow> f a s)"
  by (simp add: liftA_def act_simps split: sum.splits)

section \<open>Others' files stay\<close>

lemma find_delete_where: "(\<And>r. ob_key r = k \<Longrightarrow> \<not> P r) \<Longrightarrow> row_at k (fd_rows_update (delete_where P) s) = row_at k s"
proof -
  assume "\<And>r. ob_key r = k \<Longrightarrow> \<not> P r"
  then have "List.find (\<lambda>r. ob_key r = k) (filter (\<lambda>r. \<not> P r) rs) = List.find (\<lambda>r. ob_key r = k) rs" for rs
    by (induction rs) auto
  then show ?thesis by (simp add: row_at_def delete_where_def)
qed

lemma delete_others:
  assumes ok: "files_ok E (s, [])" and away: "\<And>r. ob_key r = k \<Longrightarrow> \<not> P r"
  shows "file_content (snd (remove_blobs (filter c (map ob_blob (filter P (fd_rows s)))) (fd_rows_update (delete_where P) s))) k = file_content s k"
proof (rule content_same)
  show "row_at k (snd (remove_blobs (filter c (map ob_blob (filter P (fd_rows s)))) (fd_rows_update (delete_where P) s))) = row_at k s"
    using find_delete_where [OF away] by simp
next
  fix x assume x: "row_at k s = Some x"
  have "ob_blob x \<noteq> ob_blob r" if "r \<in> set (fd_rows s)" "P r" for r
  proof -
    have "row_at (ob_key r) s = Some r" using ok that(1) by (auto simp: files_ok_def rows_ok_def intro: row_at_find)
    moreover have "ob_key r \<noteq> k" using away that(2) by blast
    ultimately show ?thesis using rows_apart [OF ok x] by blast
  qed
  then show "blob_at (ob_blob x) (snd (remove_blobs (filter c (map ob_blob (filter P (fd_rows s)))) (fd_rows_update (delete_where P) s))) = blob_at (ob_blob x) s"
    by auto
qed

lemma copy_others:
  assumes fresh: "inj (env_uuid E)" and ok: "files_ok E (s, [])" and run: "copy_prefix E links source dest s = (r, s')"
    and away: "\<And>w. k \<noteq> stem_of dest @ CHR ''/'' # w"
  shows "file_content s' k = file_content s k"
  using copy_run [OF run]
proof (elim disjE exE conjE, simp)
  fix x t
  assume rows: "copy_rows E links (copy_targets source dest s) [] s = (x, t)"
    and s': "case x of Inr _ \<Rightarrow> s' = t \<and> isl r = False | Inl (e, bs) \<Rightarrow> s' = snd (remove_blobs bs (t\<lparr>fd_rows := fd_rows s\<rparr>))"
  have "\<not> sweeps []" by (simp add: sweeps_def)
  note copied = copies_ok [OF fresh this ok copy_there [OF ok] rows]
  have "k \<notin> fst ` set (copy_targets source dest s)" using copy_targets_inside away by blast
  moreover have "s' = t" using s' copied by auto
  ultimately show "file_content s' k = file_content s k" using copied row_drawn [OF ok] by (auto intro!: content_same)
qed

text \<open>
  C28. Whatever a tenant calls behind the fence, the files of everybody else read as before.\<close>

theorem fence_holds:
  assumes "files_reach E links q (s, [])" and "inj (env_uuid E)" and "t \<noteq> []" and "may_fence t = Inr ()"
    and "fenced_call_of E links t c s = (r, s')" and "key_tenant k \<noteq> Some t"
  shows "fst (download k s') = fst (download k s)"
proof (rule download_same)
  have ok: "files_ok E (s, [])" by (rule reach_ok [OF assms(1,2)])
  have t: "fenceable t" using assms(3,4) by (simp add: fenceable_def)
  have other: "k \<noteq> key" if "inside_fence t p key = Inr x" for p key x
    using inside_root [OF that] key_tenant_of [OF t, of "CHR ''/'' # _"] assms(6) by auto
  have outside: "\<not> in_directory p x" if "inside_fence t True prefix = Inr p" "ob_key x = k" for prefix p x
    using directory_inside [OF t that(1)] that(2) assms(6) by blast
  note run = assms(5)
  have key: "x = key" if "inside_fence t p key = Inr x" for p key x using inside_root [OF that] by simp
  show "file_content s' k = file_content s k"
  proof (cases c)
    case (Fenced_upload key data ct)
    show ?thesis
    proof (cases "inside_fence t False key")
      case (Inr x)
      then have "upload E key data ct s = (r, s')" using run Fenced_upload key [OF Inr] by (simp add: fenced_upload_def lift_bind)
      then show ?thesis using upload_run [OF assms(2) ok] other [OF Inr] by blast
    qed (use run Fenced_upload in \<open>simp add: fenced_upload_def lift_bind\<close>)
  next
    case (Fenced_delete key)
    show ?thesis
    proof (cases "inside_fence t False key")
      case (Inr x)
      then have "delete_file key s = (r, s')" using run Fenced_delete key [OF Inr] by (simp add: fenced_delete_def lift_bind)
      moreover have "distinct (map ob_key (fd_rows s))" using ok by (simp add: files_ok_def rows_ok_def)
      ultimately show ?thesis using delete_file_run delete_others [OF ok] other [OF Inr] by (metis (mono_tags, lifting))
    qed (use run Fenced_delete in \<open>simp add: fenced_delete_def lift_bind\<close>)
  next
    case (Fenced_delete_prefix prefix)
    show ?thesis
    proof (cases "inside_fence t True prefix")
      case (Inr x)
      then obtain n where "delete_prefix x s = (n, s')" using run Fenced_delete_prefix dropped_run by (fastforce simp: fenced_delete_prefix_def lift_bind)
      then show ?thesis using delete_prefix_run [of x s n s'] delete_others [OF ok] outside [OF Inr] by blast
    qed (use run Fenced_delete_prefix in \<open>auto simp: fenced_delete_prefix_def liftA_def droppedA_def act_simps\<close>)
  next
    case (Fenced_copy source dest)
    show ?thesis
    proof (cases "isl (inside_fence t True source) \<or> isl (inside_fence t True dest)")
      case True
      then show ?thesis using run Fenced_copy by (auto simp: fenced_copy_prefix_def liftA_def droppedA_def act_simps split: sum.splits)
    next
      case False
      then obtain x y where xy: "inside_fence t True source = Inr x" "inside_fence t True dest = Inr y" by (auto simp: isl_def) (metis sum.exhaust)
      then obtain n where "copy_prefix E links x y s = (n, s')" using run Fenced_copy dropped_run by (fastforce simp: fenced_copy_prefix_def lift_bind)
      moreover have "k \<noteq> stem_of y @ CHR ''/'' # w" for w
        using outside [OF xy(2), of "\<lparr>ob_key = k, ob_tenant = None, ob_blob = [], ob_size = 0, ob_content_type = [], ob_mtime = 0\<rparr>"]
        by (auto simp: in_directory_def inside_dir_def starts_with_def)
      ultimately show ?thesis using copy_others [OF assms(2) ok] by blast
    qed
  next
    case Fenced_erase
    then obtain n where "delete_prefix (fence_root t) s = (n, s')" using run dropped_run by (fastforce simp: fenced_erase_def)
    moreover have "\<not> in_directory (fence_root t) x" if "ob_key x = k" for x
      using root_directory [OF t, of "fence_root t" "[]" x] that assms(6) by (auto simp: fence_root_def)
    ultimately show ?thesis using delete_prefix_run delete_others [OF ok] by blast
  qed (use run in \<open>auto simp: fenced_download_def fenced_exists_def fenced_list_prefix_def fenced_usage_bytes_def droppedA_def liftA_def act_simps
      download_def read_blob_def file_exists_def list_prefix_def usage_bytes_def split: sum.splits option.splits if_splits\<close>)
qed

section \<open>Concrete folders\<close>

text \<open>A folder with a file, on which the properties apply; and runs in which contents are missed, lost, or not charged.\<close>

definition file_env :: env where
  "file_env = demo_env\<lparr>env_uuid := \<lambda>n. replicate (Suc n) CHR ''x'', env_clock := \<lambda>n. 5000 * of_nat n\<rparr>"

definition new_folder :: folder where
  "new_folder = empty_folder (Some 10)"

definition acme_file :: string where
  "acme_file = ''tenants/acme/f''"

definition one_file :: folder where
  "one_file = snd (upload file_env acme_file ''abc'' ''text/plain'' new_folder)"

lemma file_env_fresh: "inj (env_uuid file_env)"
  by (simp add: inj_def file_env_def replicate_eq_replicate)

lemma reach_steps: "file_steps E links x y \<Longrightarrow> files_reach E links q x \<Longrightarrow> files_reach E links q y"
  by (induction rule: rtranclp_induct) (auto intro: files_reach.Step)

lemma new_folder_reach: "files_reach file_env True (Some 10) (new_folder, [])"
  unfolding new_folder_def by (rule files_reach.Start)

lemma one_file_reach: "files_reach file_env True (Some 10) (one_file, [])"
proof -
  obtain r where "upload file_env acme_file ''abc'' ''text/plain'' new_folder = (r, one_file)" unfolding one_file_def by (metis prod.collapse)
  then show ?thesis using upload_steps new_folder_reach by (blast intro: reach_steps)
qed


theorem written_is_read_witness:
  "\<exists>s. upload file_env acme_file ''abcd'' ''text/plain'' one_file = (Inr (), s) \<and> fst (download acme_file s) = Inr ''abcd''"
proof -
  obtain r s where run: "upload file_env acme_file ''abcd'' ''text/plain'' one_file = (r, s)" by (cases "upload file_env acme_file ''abcd'' ''text/plain'' one_file")
  moreover have "fst (upload file_env acme_file ''abcd'' ''text/plain'' one_file) = Inr ()" by code_simp
  ultimately show ?thesis using written_is_read [OF one_file_reach file_env_fresh run] by simp
qed

theorem quota_held_witness:
  "\<exists>s. upload file_env ''tenants/acme/g'' ''abcdefg'' ''text/plain'' one_file = (Inr (), s) \<and> used_by ''acme'' (fd_rows s) \<le> 10"
proof -
  obtain r s where run: "upload file_env ''tenants/acme/g'' ''abcdefg'' ''text/plain'' one_file = (r, s)"
    by (cases "upload file_env ''tenants/acme/g'' ''abcdefg'' ''text/plain'' one_file")
  moreover have "fst (upload file_env ''tenants/acme/g'' ''abcdefg'' ''text/plain'' one_file) = Inr ()" by code_simp
  moreover have "effective_quota ''acme'' one_file = Some 10" "key_tenant ''tenants/acme/g'' = Some ''acme''" by code_simp+
  ultimately show ?thesis using quota_held [OF one_file_reach file_env_fresh, of "''acme''" 10 "''tenants/acme/g''" "''abcdefg''" "''text/plain''" s] by auto
qed

theorem fence_holds_witness:
  "\<exists>r s. fenced_call_of file_env True ''other'' Fenced_erase one_file = (r, s) \<and> fst (download acme_file s) = Inr ''abc''"
proof -
  obtain r s where run: "fenced_call_of file_env True ''other'' Fenced_erase one_file = (r, s)"
    by (cases "fenced_call_of file_env True ''other'' Fenced_erase one_file")
  have "fst (download acme_file one_file) = Inr ''abc''" by code_simp
  moreover have "may_fence ''other'' = Inr ()" "key_tenant acme_file \<noteq> Some ''other''" by code_simp+
  ultimately show ?thesis using fence_holds [OF one_file_reach file_env_fresh _ _ run] run by auto
qed

section \<open>What goes wrong\<close>

text \<open>
  A reader looks up the contents of a file, a writer replaces the file and removes the old contents, and the reader finds nothing under
  the name it holds: the file is said not to exist, although it did before, between and after.
\<close>

theorem read_while_replaced:
  "fst (bindA (queryA (row_at acme_file)) (\<lambda>row. thenA (upload file_env acme_file ''new'' ''text/plain'')
     (read_blob acme_file (case row of None \<Rightarrow> [] | Some r \<Rightarrow> ob_blob r))) one_file) = Inl (no_object acme_file)"
  by code_simp

text \<open>
  A hard link has the time of the contents it links to. A copy made after the collection read the table and before it looks at the disk
  is a name the table did not have and is old: its contents are removed, and its row stays.
\<close>

definition copied_file :: string where
  "copied_file = ''tenants/acme/copy/f''"

definition collected :: "folder" where
  "collected = snd (bindA (upload file_env ''tenants/acme/old/f'' ''abc'' ''text/plain'') (\<lambda>_.
     bindA referenced (\<lambda>kept_blobs. bindA (copy_prefix file_env True ''tenants/acme/old'' ''tenants/acme/copy'') (\<lambda>_.
     bindA (drawF (env_clock file_env)) (\<lambda>now. sweep_blobs kept_blobs (now - 3600))))) new_folder)"

theorem copy_collected: "fst (file_exists copied_file collected) = Inr True \<and> fst (download copied_file collected) = Inl (no_object copied_file)"
  by (intro conjI; code_simp)

text \<open>A copy is charged by its directory: into \<open>tenants\<close> itself it is charged to nobody, whatever tenant the files end up with.\<close>

definition uncharged :: folder where
  "uncharged = snd (bindA (upload file_env ''up/acme/f'' ''0123456789abcdef'' ''text/plain'') (\<lambda>_. copy_prefix file_env True ''up'' ''tenants'') new_folder)"

theorem copy_uncharged: "used_by ''acme'' (fd_rows uncharged) = 16 \<and> effective_quota ''acme'' uncharged = Some 10"
  by (intro conjI; code_simp)

end
