(* ===== verification/Spec2Isabelle.thy ===== *)
theory Spec2Isabelle
  imports Channel_Posts Worker_Claims Worker_Life Run_Due Run_Mailbox Tool_Fence Invoker_Claims Middleware_Claims
    Persist Guard_Claims Delegation_Claims Projection_Claims File_Fence
begin

text \<open>
  A verification library for the durable agent runtime of agent-substrate
  (\<open>agents/agent-substrate/src/substrate\<close>).

  A run is one activation of an agent. It survives crashes because everything it has done is in a
  database: the run's row, its journal, the agent's inbox, buffered signals. Workers lease runs; a lease
  carries an epoch, and a command under an old epoch is refused. An agent that waits gives its lease
  back and sleeps; a message, a signal, a timer or the end of a child wakes it. What is said in a
  conversation is a tree of nodes with branches and checkpoints, kept per tenant; before each model call
  a branch is turned into a window of turns that fits a budget.

  \<^bold>\<open>Theories and what they model.\<close>

  \<^item> \<open>Prelude\<close>: transactions as functions from the tables to an error or a result with new tables,
    their weakest preconditions, SQL over lists of rows, the string functions the sources call. The
    locale \<open>frame\<close> is the interface of every invariant proof: a reflexive and transitive relation that
    each statement follows.
  \<^item> \<open>Kernel_Types\<close>: \<open>types\<close> (errors, addresses, statuses, supervision, wakeups, traces, log
    entries) and \<open>runtime/message.py\<close>.
  \<^item> \<open>Tables\<close>: the schema of \<open>runtime/persistence/store.py\<close> and \<open>channels.py\<close>, one list of rows
    per table in insertion order.
  \<^item> \<open>Accounts\<close>: \<open>runtime/persistence/accounts.py\<close>, named budgets and what they were charged.
  \<^item> \<open>Run_Core\<close>: the helpers of \<open>RuntimeStore\<close> that run inside a transaction: journal, signals,
    creating a run, delivery, ending a run and its children. \<open>Run_Store\<close>: its public operations.
  \<^item> \<open>Run_Frames\<close>, \<open>Run_Inv\<close>, \<open>Run_Mail\<close>, \<open>Run_Fence\<close>: what every operation keeps. The
    locales \<open>store_frame\<close>, \<open>run_frame\<close> and \<open>mail_frame\<close> list the primitive changes of the tables;
    a relation that allows them is followed by every operation. They are interpreted for the invariants
    of the scheduler, the journals and the inbox, and for the way rows evolve.
  \<^item> \<open>Run_Claims\<close>, \<open>Run_Signals\<close>, \<open>Run_Ending\<close>, \<open>Run_Cancel\<close>, \<open>Run_Delivery\<close>,
    \<open>Run_Spawns\<close>: the properties of leases, sleeping and signals, endings, cancelled trees, delivery,
    spawns and erasure. \<open>Demo\<close> holds the inputs of the witnesses.
  \<^item> \<open>Channel_Store\<close>: \<open>runtime/persistence/channels.py\<close>. \<open>Channel_Log\<close>, \<open>Channel_Inv\<close>,
    \<open>Channel_Posts\<close>: that channels keep the run store's invariants, number their logs without gaps,
    bound chains of agents, and wake only whom they may.
  \<^item> \<open>Effects\<close>: \<open>runtime/effects.py\<close>, the identity of a journaled step.
  \<^item> \<open>Actions\<close>: code outside a transaction, where an exception does not undo what was done. An
    action's state is the whole world, so a state passes through it once, in order.
  \<^item> \<open>Journal\<close>: \<open>runtime/journal.py\<close>: the fold of a run's log, positions, steps and atomic records. The
    store it commits to, the blob store and the codec are the record \<open>host\<close>, an argument.
    \<open>Journal_Replay\<close>, \<open>Journal_Scope\<close>, \<open>Journal_Steps\<close> are about any such host: the locale \<open>journal_port\<close> lists
    what the journal relies on. \<open>Journal_Store\<close> gives the run store as host and interprets the locale on it;
    \<open>Journal_Claims\<close> has the properties of steps: at most once, replayed, positions, divergence.
  \<^item> \<open>Context_Core\<close>, \<open>Context_Talk\<close>, \<open>Context_Wait\<close>: \<open>runtime/context.py\<close>, the handle an agent works
    through: log, time, budgets and model calls; tools, messages and channels; children, signals, sleeping
    and questions. \<open>Context_Claims\<close> and \<open>Context_Waits\<close> say what an agent may rely on.
  \<^item> \<open>Worker\<close>: \<open>runtime/worker.py\<close> and \<open>runtime/cancellation.py\<close>, one attempt at a leased run and the
    commit that ends it. \<open>Worker_Claims\<close>: without its lease an attempt changes nothing, retries are bounded,
    a replay is given the messages of the first attempt. \<open>Worker_Table\<close>: the worker's tables of running
    tasks as a state machine; \<open>Worker_Life\<close>: when they are right, and a life in which they are not.
  \<^item> \<open>Run_Due\<close>: a worker with room to spare leaves no run behind that can go on. \<open>Run_Mailbox\<close>: the inbox
    as an implementation of an abstract mailbox.
  \<^item> \<open>Content\<close>: \<open>types/content.py\<close> and \<open>context/tokens.py\<close>, the blocks a turn is made of and their
    estimated size. \<open>Blocks\<close>: how blocks are printed and written as JSON, and the parser that reads them back.
  \<^item> \<open>Invoker\<close>: the contracts of \<open>tools/protocols.py\<close>, \<open>tools/approval.py\<close>, \<open>tools/chain.py\<close>, the
    registry of \<open>tools/toolbox.py\<close> and \<open>runtime/tool_invoker.py\<close>: how every tool call is gated, approved, counted,
    run and recorded. \<open>Side\<close> says which parts of an agent's own data the runtime's capabilities leave alone;
    \<open>Invoker_Claims\<close>: nothing unapproved runs, and every call is recorded.
  \<^item> \<open>Models\<close>: \<open>models\<close>: what a model can do and costs, what it is shown of media it cannot take, the arguments of
    its tool calls, and the classification of a provider's errors. \<open>Middleware\<close>: the pipeline of \<open>middleware\<close> and its
    interceptors; \<open>Generation\<close>: how a model call and a tool call go through it in \<open>runtime/context.py\<close>, and the stream of a
    model's answer. \<open>Middleware_Claims\<close>: how many turns a limiter admits, how often a call is retried, what a cache answers.
  \<^item> \<open>Agent_Base\<close>: whose work a message is (\<open>types/run.py\<close>), what it carries, and the conversation around a turn
    (\<open>agents/base.py\<close>, \<open>agents/routed.py\<close>). \<open>React\<close>: \<open>agents/react.py\<close>, the loop in which a model is asked and the tools it
    calls are run. \<open>React_Claims\<close>: a turn is a number of rounds in which every call has its answer, and ends in an answer or where
    an error broke it off. \<open>Persist\<close>: what a turn said is stored whole and in order; and why a crash after that loses the
    run; with the witnesses of all these.
  \<^item> \<open>Patterns\<close>: the regular expressions the guardrails search with. \<open>Guardrails\<close>: \<open>middleware/guardrails\<close> and the verdicts
    of \<open>safety\<close>: personal data, injection, content, size, calls, the judge and the classifiers. \<open>Guard_Claims\<close>: what stops a
    turn and what passes.
  \<^item> \<open>Delegation\<close>: agents that have others do the work: the flows of \<open>agents/flows.py\<close>, the user's proxy, the spawn tracker
    and \<open>agents/orchestrator.py\<close>. \<open>Delegation_Claims\<close>: who wins a vote, how many agents there may be, how an orchestration
    is said, and that work handed on stays in the scope of whom it is done for.
  \<^item> \<open>Log_Projection\<close>: \<open>agents/log_projection.py\<close>, from the logs of runs to the rows a console shows and back to messages;
    \<open>Projection_Claims\<close>: what was flagged is redacted, and where the order and the run are lost.
  \<^item> \<open>File_Store\<close>: \<open>stores/files.py\<close>, \<open>stores/file_tables.py\<close> and the fence of \<open>stores/scoped.py\<close>, a table of names
    beside a folder of contents. \<open>File_Claims\<close>: writers and the collection of garbage step by step, with others' steps and crashes
    between them; every name has whole contents, what is written is read, a quota holds; \<open>File_Fence\<close>: a tenant
    changes its own files only, the witnesses, and runs in which contents are missed, lost or not charged.
  \<^item> \<open>Compaction\<close>: \<open>context/compaction\<close>, every strategy, the pipelines and the coordinator;
    \<open>Compaction_Claims\<close>: what they leave fits the budget and pairs each result with its call, and where one alone
    does not.
  \<^item> \<open>Thread_Store\<close>: \<open>stores/threads.py\<close> and \<open>thread_tables.py\<close>, nodes, branches and checkpoints.
    \<open>History\<close>: \<open>context/history.py\<close> and \<open>builder.py\<close>, from a head to the window of turns. \<open>Thread_Inv\<close>: the
    invariant \<open>threads_ok\<close>, kept by every operation. \<open>Thread_Claims\<close>: histories resolve, grow by what is
    appended, fork at a prefix, and take the nearest checkpoint. \<open>Window_Claims\<close>: windows. \<open>Thread_Samples\<close>: the
    witnesses.
  \<^item> \<open>Tenancy\<close>, \<open>Scoped_Threads\<close>: \<open>stores/scoped.py\<close> and \<open>tenant.py\<close>, the same operations for one tenant
    under a prefix no other tenant's ids can start with. \<open>Tenant_Claims\<close>: what a tenant sees, changes and erases.
  \<^item> \<open>Task_Store\<close>: \<open>stores/tasks.py\<close> and \<open>task_tables.py\<close>; \<open>Task_Tool\<close>:
    \<open>integrations/tools/task_manager/tool.py\<close>, the tool through which an agent keeps a plan. \<open>Task_Claims\<close>: the
    invariant of the boards; \<open>Tool_Claims\<close>, \<open>Tool_Fence\<close>: one task at a time, and no board of another tenant
    touched, with witnesses, and calls that go wrong.

  \<^bold>\<open>Conventions.\<close> An operation of the store is one transaction, and transactions are serial, as
  SQLite's single writer makes them; so interleavings of workers are sequences of operations (\<open>run_step\<close>,
  \<open>store_step\<close>, \<open>channel_step\<close>), except that writes to files are split into their steps (\<open>file_step\<close>); and \<open>tx.lock\<close> is the identity. An exception rolls the tables
  back. Clock readings, fresh ids and random bytes come from \<open>env\<close>, indexed by a counter, so that two
  readings may differ. Times are rationals, JSON columns the values they encode;
  an action under a time limit is given the limit and raises \<open>TimeoutError\<close>, and of an error of pydantic the model
  keeps the class and not the wording; texts are lists of 8-bit characters, read as Latin-1, and the order of ISO timestamps is that of their texts, which \<open>cx_time\<close> prints.

  \<^bold>\<open>Bounds.\<close> Ending a run recurses through its children: \<open>terminate\<close> takes a depth, the number
  of active runs plus two, and \<open>ending_terminates\<close> shows it is never used up. \<open>request_cancel\<close>'s walk
  is a \<open>partial_function\<close>; it ends on every table whose parents have no cycle. The walk to
  the root of a thread ends by its set of visited nodes; \<open>ancestry_ids\<close>, the recursive query of a fork, has as
  fuel the number of nodes, enough because a parent is inserted before its children; \<open>complete_stale\<close> has the
  number of tasks, each turn completing one.

  \<^bold>\<open>Not modelled.\<close> The database driver and its retries, in-process events that only wake readers,
  the clients of model providers (a model here is what it can do and the events it streams, read before they are looked at), the
  tools that call external programs (a tool here is what it declares and an action), the classifiers behind the guardrails and
  the Unicode folding of texts for them, the agent that talks in channels and the factory of agents, a turn's middleware that changes the list of messages in place, HTTP services, documents, workspaces,
  telemetry, the stores of vectors, graphs and blobs, and the cloud packages: input and output around the runtime
  rather than its logic.
\<close>

end
